(* ===== verification/Prelude.thy ===== *)
theory Prelude
  imports Main "HOL-Library.Char_ord" "HOL-Library.List_Lexorder" "HOL-Library.Sublist"
begin

text \<open>
  The vocabulary every component theory shares: the values the Python services compute
  with (JSON documents, UUIDs, UTC instants, exceptions), the few standard-library
  functions they call (\<open>str\<close>, \<open>str.split\<close>, \<open>json.dumps\<close>, \<open>datetime.isoformat\<close>),
  and the operations on the rows of a database table with their laws.

  Python strings are \<open>string\<close>: a \<open>char\<close> stands for one code point below 256.
  Python integers are \<open>int\<close>; an instant is the number of microseconds since
  1970-01-01T00:00:00 UTC; a UUID is its 128-bit integer value.
\<close>

section \<open>Theorem collections\<close>

named_theorems frame \<open>what an operation leaves unchanged\<close>
named_theorems row_simps \<open>lookups after an update of the same table\<close>

section \<open>Values\<close>

type_synonym uuid = nat
type_synonym time = int

datatype json =
    JNull
  | JBool bool
  | JInt int
  | JFloat string  \<comment> \<open>a float by its \<open>repr\<close>\<close>
  | JStr string
  | JList "json list"
  | JObj "(string \<times> json) list"  \<comment> \<open>a dict in insertion order\<close>

type_synonym dict = "(string \<times> json) list"

text \<open>An exception a handler ends with, and the result of a handler that may raise.\<close>

datatype exn =
    HTTPException nat json
  | IntegrityError
  | ValueError string
  | KeyError string
  | AttributeError string
  | TypeError
  | OverflowError
  | OSError
  | Conflict string  \<comment> \<open>a service's own \<open>RuntimeError\<close>, by its message\<close>

type_synonym 'a res = "exn + 'a"

abbreviation http :: "nat \<Rightarrow> string \<Rightarrow> 'a res" where
  "http code detail \<equiv> Inl (HTTPException code (JStr detail))"

text \<open>Sequencing of operations that may raise: the first exception ends the sequence.\<close>

definition ebind :: "'a res \<Rightarrow> ('a \<Rightarrow> 'b res) \<Rightarrow> 'b res" where
  "ebind m f = (case m of Inl e \<Rightarrow> Inl e | Inr x \<Rightarrow> f x)"

text \<open>A loop that threads a state and may raise.\<close>

fun efold :: "('a \<Rightarrow> 's \<Rightarrow> 's res) \<Rightarrow> 'a list \<Rightarrow> 's \<Rightarrow> 's res" where
  "efold f [] s = Inr s"
| "efold f (x # xs) s = ebind (f x s) (efold f xs)"

text \<open>A comprehension whose elements may raise.\<close>

fun emap :: "('a \<Rightarrow> 'b res) \<Rightarrow> 'a list \<Rightarrow> 'b list res" where
  "emap f [] = Inr []"
| "emap f (x # xs) = ebind (f x) (\<lambda>y. ebind (emap f xs) (\<lambda>ys. Inr (y # ys)))"

text \<open>An endpoint that answers every violated key with one conflict.\<close>

definition on_integrity :: "string \<Rightarrow> 'a res \<Rightarrow> 'a res" where
  "on_integrity detail r = (case r of Inl IntegrityError \<Rightarrow> http 409 detail | _ \<Rightarrow> r)"

definition option_json :: "('a \<Rightarrow> json) \<Rightarrow> 'a option \<Rightarrow> json" where
  "option_json f v = (case v of None \<Rightarrow> JNull | Some x \<Rightarrow> f x)"

definition jstrs :: "string list \<Rightarrow> json" where
  "jstrs xs = JList (map JStr xs)"

text \<open>\<open>k in d\<close> and \<open>d[k]\<close>, \<open>d.get(k)\<close>, and \<open>{**d, k: v}\<close>, which keeps the place of a key that is there.\<close>

definition dict_get :: "dict \<Rightarrow> string \<Rightarrow> json option" where
  "dict_get d k = map_of d k"

definition dget :: "dict \<Rightarrow> string \<Rightarrow> json" where
  "dget d k = (case dict_get d k of None \<Rightarrow> JNull | Some v \<Rightarrow> v)"

fun dict_set :: "dict \<Rightarrow> string \<Rightarrow> json \<Rightarrow> dict" where
  "dict_set [] k v = [(k, v)]"
| "dict_set ((k', v') # d) k v = (if k' = k then (k, v) # d else (k', v') # dict_set d k v)"

text \<open>\<open>{**d, **e}\<close>.\<close>

definition dict_merge :: "dict \<Rightarrow> dict \<Rightarrow> dict" where
  "dict_merge d e = foldl (\<lambda>acc (k, v). dict_set acc k v) d e"

text \<open>
  Equality of documents: the order of the keys of a dict does not matter. (The numeric
  identities \<open>True == 1\<close> and \<open>1 == 1.0\<close> are left out: the documents compared keep
  each kind of value in its own members.)
\<close>

fun jcanon :: "json \<Rightarrow> json" where
  "jcanon (JList xs) = JList (map jcanon xs)"
| "jcanon (JObj d) = JObj (sort_key fst (map (\<lambda>(k, v). (k, jcanon v)) d))"
| "jcanon v = v"

definition json_eq :: "json \<Rightarrow> json \<Rightarrow> bool" where
  "json_eq a b = (jcanon a = jcanon b)"

text \<open>Python truth of a value.\<close>

fun truthy :: "json \<Rightarrow> bool" where
  "truthy JNull = False"
| "truthy (JBool b) = b"
| "truthy (JInt i) = (i \<noteq> 0)"
| "truthy (JFloat s) = (s \<noteq> ''0.0'' \<and> s \<noteq> ''-0.0'')"
| "truthy (JStr s) = (s \<noteq> '''')"
| "truthy (JList xs) = (xs \<noteq> [])"
| "truthy (JObj d) = (d \<noteq> [])"

section \<open>Strings\<close>

definition digit_char :: "int \<Rightarrow> char" where
  "digit_char d = ''0123456789abcdef'' ! nat d"

function base_digits :: "int \<Rightarrow> int \<Rightarrow> string" where
  "base_digits b n =
     (if b < 2 \<or> n < b then [digit_char n] else base_digits b (n div b) @ [digit_char (n mod b)])"
  by pat_completeness auto
termination
  by (relation "measure (\<lambda>(b, n). nat n)") (auto intro: int_div_less_self)

declare base_digits.simps [simp del]

text \<open>\<open>str\<close> of an integer.\<close>

definition int_str :: "int \<Rightarrow> string" where
  "int_str i = (if i < 0 then CHR ''-'' # base_digits 10 (- i) else base_digits 10 i)"

definition nat_str :: "nat \<Rightarrow> string" where
  "nat_str n = int_str (int n)"

text \<open>The decimal format \<open>0<width>d\<close> and the hexadecimal format of the same width.\<close>

definition zero_pad :: "nat \<Rightarrow> string \<Rightarrow> string" where
  "zero_pad w s = replicate (w - length s) CHR ''0'' @ s"

definition hex_str :: "nat \<Rightarrow> int \<Rightarrow> string" where
  "hex_str w n = zero_pad w (base_digits 16 n)"

text \<open>\<open>str(uuid)\<close>: 32 hexadecimal digits in groups of 8, 4, 4, 4 and 12.\<close>

definition uuid_str :: "uuid \<Rightarrow> string" where
  "uuid_str u =
     (let h = hex_str 32 (int u)
      in take 8 h @ ''-'' @ take 4 (drop 8 h) @ ''-'' @ take 4 (drop 12 h) @ ''-''
         @ take 4 (drop 16 h) @ ''-'' @ drop 20 h)"

definition juuid :: "uuid \<Rightarrow> json" where
  "juuid u = JStr (uuid_str u)"

text \<open>
  \<open>UUID(text)\<close>: 32 hexadecimal digits once the hyphens are removed. The decorated forms
  with braces or a \<open>urn:uuid:\<close> prefix, which the services never write, are left out.
\<close>

definition hex_value :: "char \<Rightarrow> int option" where
  "hex_value c =
     (let n = of_char c :: int
      in if 48 \<le> n \<and> n \<le> 57 then Some (n - 48)
         else if 97 \<le> n \<and> n \<le> 102 then Some (n - 87)
         else if 65 \<le> n \<and> n \<le> 70 then Some (n - 55) else None)"

fun hex_int :: "int \<Rightarrow> string \<Rightarrow> int option" where
  "hex_int acc [] = Some acc"
| "hex_int acc (c # cs) =
     (case hex_value c of None \<Rightarrow> None | Some v \<Rightarrow> hex_int (acc * 16 + v) cs)"

definition uuid_parse :: "string \<Rightarrow> uuid option" where
  "uuid_parse s =
     (let h = filter (\<lambda>c. c \<noteq> CHR ''-'') s
      in if length h = 32 then map_option nat (hex_int 0 h) else None)"

text \<open>The pattern \<open>^[0-9a-f]{64}$\<close> of a SHA-256 digest.\<close>

definition hex_digit :: "char \<Rightarrow> bool" where
  "hex_digit c = (c \<in> set ''0123456789abcdef'')"

definition is_sha256_hex :: "string \<Rightarrow> bool" where
  "is_sha256_hex s = (length s = 64 \<and> list_all hex_digit s)"

text \<open>The length bounds of a pydantic string field.\<close>

definition text_between :: "nat \<Rightarrow> nat \<Rightarrow> string \<Rightarrow> bool" where
  "text_between l u s = (l \<le> length s \<and> length s \<le> u)"

text \<open>\<open>sep.join(parts)\<close>.\<close>

fun join :: "string \<Rightarrow> string list \<Rightarrow> string" where
  "join sep [] = []"
| "join sep [s] = s"
| "join sep (s # t # ss) = s @ sep @ join sep (t # ss)"

text \<open>\<open>s.split(c, n)\<close>: at most \<open>n\<close> splits, so at most \<open>n + 1\<close> parts.\<close>

fun split_max :: "char \<Rightarrow> nat \<Rightarrow> string \<Rightarrow> string list" where
  "split_max c 0 s = [s]"
| "split_max c (Suc n) s =
     (case dropWhile (\<lambda>x. x \<noteq> c) s of
        [] \<Rightarrow> [s]
      | _ # rest \<Rightarrow> takeWhile (\<lambda>x. x \<noteq> c) s # split_max c n rest)"

text \<open>\<open>s.split(c)\<close> and the character class of \<open>ArtifactCreate.location\<close>.\<close>

fun split_all :: "char \<Rightarrow> string \<Rightarrow> string list" where
  "split_all c [] = [[]]"
| "split_all c (x # xs) =
     (if x = c then [] # split_all c xs
      else (case split_all c xs of [] \<Rightarrow> [[x]] | y # ys \<Rightarrow> (x # y) # ys))"

definition alphanumeric :: "char \<Rightarrow> bool" where
  "alphanumeric c =
     (CHR ''A'' \<le> c \<and> c \<le> CHR ''Z'' \<or> CHR ''a'' \<le> c \<and> c \<le> CHR ''z''
      \<or> CHR ''0'' \<le> c \<and> c \<le> CHR ''9'')"

text \<open>\<open>str.lower\<close> on code points below 256.\<close>

definition lower_char :: "char \<Rightarrow> char" where
  "lower_char c =
     (let n = of_char c :: nat
      in if 65 \<le> n \<and> n \<le> 90 \<or> 192 \<le> n \<and> n \<le> 222 \<and> n \<noteq> 215 then char_of (n + 32) else c)"

text \<open>\<open>sorted(set(xs))\<close> of strings.\<close>

definition sorted_set :: "string list \<Rightarrow> string list" where
  "sorted_set xs = sort (remdups xs)"

section \<open>Instants\<close>

definition seconds :: "int \<Rightarrow> time" where
  "seconds n = n * 1000000"

text \<open>The proleptic Gregorian date of a day number counted from 1970-01-01.\<close>

definition civil_from_days :: "int \<Rightarrow> int \<times> int \<times> int" where
  "civil_from_days days =
     (let z = days + 719468;
          era = z div 146097;
          doe = z mod 146097;
          yoe = (doe - doe div 1460 + doe div 36524 - doe div 146096) div 365;
          doy = doe - (365 * yoe + yoe div 4 - yoe div 100);
          mp = (5 * doy + 2) div 153;
          d = doy - (153 * mp + 2) div 5 + 1;
          m = (if mp < 10 then mp + 3 else mp - 9)
      in (yoe + era * 400 + (if m \<le> 2 then 1 else 0), m, d))"

text \<open>
  \<open>datetime.isoformat(sep)\<close> of an aware UTC instant: the fraction is printed only when
  it is not zero. \<open>str(datetime)\<close> is the same with a blank as the separator.
\<close>

definition isoformat_sep :: "string \<Rightarrow> time \<Rightarrow> string" where
  "isoformat_sep sep t =
     (let secs = t div 1000000; micros = t mod 1000000;
          (y, m, d) = civil_from_days (secs div 86400);
          s = secs mod 86400;
          p2 = (\<lambda>i. zero_pad 2 (int_str i))
      in zero_pad 4 (int_str y) @ ''-'' @ p2 m @ ''-'' @ p2 d @ sep
         @ p2 (s div 3600) @ '':'' @ p2 (s mod 3600 div 60) @ '':'' @ p2 (s mod 60)
         @ (if micros = 0 then '''' else ''.'' @ zero_pad 6 (int_str micros)) @ ''+00:00'')"

definition isoformat :: "time \<Rightarrow> string" where
  "isoformat t = isoformat_sep ''T'' t"

definition datetime_str :: "time \<Rightarrow> string" where
  "datetime_str t = isoformat_sep '' '' t"

definition jtime :: "time \<Rightarrow> json" where
  "jtime t = JStr (isoformat t)"

section \<open>Canonical JSON text\<close>

text \<open>\<open>json.dumps\<close> with \<open>ensure_ascii\<close>, for code points below 256.\<close>

definition json_char :: "char \<Rightarrow> string" where
  "json_char c =
     (if c = CHR 0x22 then [CHR 0x5C, CHR 0x22]
      else if c = CHR 0x5C then [CHR 0x5C, CHR 0x5C]
      else if c = CHR 0x0A then [CHR 0x5C, CHR ''n'']
      else if c = CHR 0x0D then [CHR 0x5C, CHR ''r'']
      else if c = CHR 0x09 then [CHR 0x5C, CHR ''t'']
      else if c = CHR 0x0C then [CHR 0x5C, CHR ''f'']
      else if c = CHR 0x08 then [CHR 0x5C, CHR ''b'']
      else if c < CHR '' '' \<or> CHR ''~'' < c
      then [CHR 0x5C, CHR ''u''] @ hex_str 4 (of_char c)
      else [c])"

definition json_quote :: "string \<Rightarrow> string" where
  "json_quote s = [CHR 0x22] @ concat (map json_char s) @ [CHR 0x22]"

text \<open>A float by its \<open>repr\<close>; the values that are not finite have names of their own.\<close>

definition json_float :: "string \<Rightarrow> string" where
  "json_float s =
     (if s = ''nan'' then ''NaN'' else if s = ''inf'' then ''Infinity''
      else if s = ''-inf'' then ''-Infinity'' else s)"

text \<open>
  \<open>json.dumps(v, sort_keys=True, separators=(isep, ksep))\<close>. The keys of a dict are
  distinct, so sorting the printed members by key sorts the members.
\<close>

fun dumps_sep :: "string \<Rightarrow> string \<Rightarrow> json \<Rightarrow> string" where
  "dumps_sep isep ksep JNull = ''null''"
| "dumps_sep isep ksep (JBool b) = (if b then ''true'' else ''false'')"
| "dumps_sep isep ksep (JInt i) = int_str i"
| "dumps_sep isep ksep (JFloat s) = json_float s"
| "dumps_sep isep ksep (JStr s) = json_quote s"
| "dumps_sep isep ksep (JList xs) = ''['' @ join isep (map (dumps_sep isep ksep) xs) @ '']''"
| "dumps_sep isep ksep (JObj d) =
     ''{'' @ join isep (map (\<lambda>(k, s). json_quote k @ ksep @ s)
               (sort_key fst (map (\<lambda>(k, v). (k, dumps_sep isep ksep v)) d))) @ ''}''"

definition dumps :: "json \<Rightarrow> string" where
  "dumps v = dumps_sep '','' '':'' v"

section \<open>Rows of a table\<close>

text \<open>
  A table is the list of its rows in insertion order. \<open>get_row\<close> is the lookup by key,
  \<open>upd_row\<close> the assignment to attributes of the row with that key, \<open>upd_rows\<close> the same
  for every row a query selects.
\<close>

definition get_row :: "('r \<Rightarrow> 'k) \<Rightarrow> 'r list \<Rightarrow> 'k \<Rightarrow> 'r option" where
  "get_row key rows k = List.find (\<lambda>r. key r = k) rows"

definition upd_row :: "('r \<Rightarrow> 'k) \<Rightarrow> 'k \<Rightarrow> ('r \<Rightarrow> 'r) \<Rightarrow> 'r list \<Rightarrow> 'r list" where
  "upd_row key k f rows = map (\<lambda>r. if key r = k then f r else r) rows"

definition upd_rows :: "('r \<Rightarrow> bool) \<Rightarrow> ('r \<Rightarrow> 'r) \<Rightarrow> 'r list \<Rightarrow> 'r list" where
  "upd_rows P f rows = map (\<lambda>r. if P r then f r else r) rows"

text \<open>\<open>order_by(key.desc()).limit(1)\<close>: the row with the greatest key, the first of equals.\<close>

fun max_row :: "('r \<Rightarrow> 'k::linorder) \<Rightarrow> 'r list \<Rightarrow> 'r option" where
  "max_row key [] = None"
| "max_row key (r # rs) =
     (case max_row key rs of
        None \<Rightarrow> Some r
      | Some s \<Rightarrow> if key r < key s then Some s else Some r)"

section \<open>Lemmas\<close>

lemma ebind_simps [simp]: "ebind (Inl e) f = Inl e" "ebind (Inr x) f = f x"
  by (simp_all add: ebind_def)

lemma ebind_Inr_iff: "ebind m f = Inr y \<longleftrightarrow> (\<exists>x. m = Inr x \<and> f x = Inr y)"
  by (cases m) auto

lemma ebind_Inl_iff: "ebind m f = Inl e \<longleftrightarrow> m = Inl e \<or> (\<exists>x. m = Inr x \<and> f x = Inl e)"
  by (cases m) auto

lemma ebind_assoc: "ebind (ebind m f) g = ebind m (\<lambda>x. ebind (f x) g)"
  by (cases m) auto

text \<open>An invariant of the body of a loop is an invariant of the loop.\<close>

lemma efold_invariant:
  assumes "\<And>x s s'. x \<in> set xs \<Longrightarrow> I s \<Longrightarrow> f x s = Inr s' \<Longrightarrow> I s'"
    and "I s" and "efold f xs s = Inr s'"
  shows "I s'"
  using assms
proof (induction xs arbitrary: s)
  case Nil
  then show ?case by simp
next
  case (Cons x xs)
  then obtain t where t: "f x s = Inr t" "efold f xs t = Inr s'"
    by (auto simp: ebind_Inr_iff)
  have "I t" using Cons.prems(1)[of x s t] Cons.prems(2) t by simp
  then show ?case using Cons.IH[of t] Cons.prems(1) t by (meson list.set_intros(2))
qed

lemma on_integrity_Inr [simp]: "on_integrity detail r = Inr x \<longleftrightarrow> r = Inr x"
  by (auto simp: on_integrity_def split: sum.split exn.split)

lemma emap_Inr: "emap f xs = Inr ys \<longleftrightarrow> list_all2 (\<lambda>x y. f x = Inr y) xs ys"
proof (induction xs arbitrary: ys)
  case (Cons x xs)
  then show ?case by (cases ys) (auto simp: ebind_Inr_iff)
qed (simp add: eq_commute)

lemma efold_append: "efold f (xs @ ys) s = ebind (efold f xs s) (efold f ys)"
proof (induction xs arbitrary: s)
  case Nil
  then show ?case by simp
next
  case (Cons x xs)
  then show ?case by (cases "f x s") simp_all
qed

lemma get_row_simps [simp]:
  "get_row key [] k = None"
  "get_row key (r # rs) k = (if key r = k then Some r else get_row key rs k)"
  by (simp_all add: get_row_def)

lemma get_row_Some_in: "get_row key rows k = Some r \<Longrightarrow> r \<in> set rows \<and> key r = k"
  by (induction rows) (auto split: if_splits)

lemma get_row_None_iff: "get_row key rows k = None \<longleftrightarrow> k \<notin> key ` set rows"
  by (induction rows) auto

lemma get_row_in: "distinct (map key rows) \<Longrightarrow> r \<in> set rows \<Longrightarrow> get_row key rows (key r) = Some r"
  by (induction rows) auto

lemma get_row_append:
  "get_row key (xs @ ys) k = (case get_row key xs k of None \<Rightarrow> get_row key ys k | Some r \<Rightarrow> Some r)"
  by (induction xs) auto

lemma get_row_upd_row [row_simps]:
  assumes "\<And>r. key (f r) = key r"
  shows "get_row key (upd_row key k f rows) k' =
    (if k' = k then map_option f (get_row key rows k') else get_row key rows k')"
  using assms by (induction rows) (auto simp: upd_row_def)

lemma upd_row_None: "get_row key rows k = None \<Longrightarrow> upd_row key k f rows = rows"
  by (induction rows) (auto simp: upd_row_def split: if_splits)

lemma map_key_upd_row [simp]:
  assumes "\<And>r. key (f r) = key r"
  shows "map key (upd_row key k f rows) = map key rows"
  using assms by (simp add: upd_row_def)

lemma length_upd_row [simp]: "length (upd_row key k f rows) = length rows"
  by (simp add: upd_row_def)

lemma max_row_Some_in: "max_row key rows = Some r \<Longrightarrow> r \<in> set rows"
  by (induction rows) (auto split: option.splits if_splits)

lemma max_row_None [simp]: "max_row key rows = None \<longleftrightarrow> rows = []"
  by (cases rows) (auto split: option.splits)

lemma max_row_ge: "max_row key rows = Some r \<Longrightarrow> s \<in> set rows \<Longrightarrow> key s \<le> key r"
  by (induction rows arbitrary: r s) (auto split: option.splits if_splits, force+)

lemma digit_cases:
  assumes "0 \<le> v" "v < (16::int)"
  shows "v = 0 \<or> v = 1 \<or> v = 2 \<or> v = 3 \<or> v = 4 \<or> v = 5 \<or> v = 6 \<or> v = 7 \<or> v = 8
    \<or> v = 9 \<or> v = 10 \<or> v = 11 \<or> v = 12 \<or> v = 13 \<or> v = 14 \<or> v = 15"
  using assms by presburger

lemma hex_value_digit_char: "0 \<le> v \<Longrightarrow> v < 16 \<Longrightarrow> hex_value (digit_char v) = Some v"
  by (drule digit_cases, assumption) (auto simp: hex_value_def digit_char_def)

lemma digit_char_hex: "0 \<le> v \<Longrightarrow> v < 16 \<Longrightarrow> hex_digit (digit_char v)"
  by (drule digit_cases, assumption) (auto simp: digit_char_def hex_digit_def)

lemma hex_int_append:
  "hex_int acc (xs @ ys) = (case hex_int acc xs of None \<Rightarrow> None | Some a \<Rightarrow> hex_int a ys)"
  by (induction xs arbitrary: acc) (auto split: option.splits)

lemma base_digits_hex: "0 \<le> n \<Longrightarrow> list_all hex_digit (base_digits 16 n)"
proof (induction "16::int" n rule: base_digits.induct)
  case (1 n)
  then show ?case
    using digit_char_hex[of n] digit_char_hex[of "n mod 16"]
    by (subst base_digits.simps) auto
qed

lemma hex_int_base_digits: "0 \<le> n \<Longrightarrow> hex_int 0 (base_digits 16 n) = Some n"
proof (induction "16::int" n rule: base_digits.induct)
  case (1 n)
  show ?case
  proof (cases "n < 16")
    case True
    then show ?thesis
      using 1(2) hex_value_digit_char[of n] by (subst base_digits.simps) simp
  next
    case False
    then have "hex_int 0 (base_digits 16 (n div 16)) = Some (n div 16)"
      using 1 by simp
    then show ?thesis
      using False hex_value_digit_char[of "n mod 16"]
      by (subst base_digits.simps) (simp add: hex_int_append)
  qed
qed

lemma length_base_digits:
  assumes "0 \<le> n" and "n < 16 ^ k" and "0 < k"
  shows "length (base_digits 16 n) \<le> k"
  using assms
proof (induction k arbitrary: n)
  case (Suc k)
  show ?case
  proof (cases "n < 16")
    case True
    then show ?thesis by (subst base_digits.simps) simp
  next
    case False
    then have "0 < k" using Suc.prems by (cases k) auto
    moreover have "n div 16 < 16 ^ k" using Suc.prems by (simp add: div_less_iff_less_mult mult.commute)
    ultimately show ?thesis
      using False Suc.IH[of "n div 16"] Suc.prems(1)
      by (subst base_digits.simps) simp
  qed
qed simp

lemma hex_int_zero_pad: "hex_int 0 (replicate k CHR ''0'' @ s) = hex_int 0 s"
  by (induction k) (auto simp: hex_value_def)

text \<open>Printing a UUID and reading it back.\<close>

theorem uuid_parse_str:
  assumes "u < 2 ^ 128"
  shows "uuid_parse (uuid_str u) = Some u"
proof -
  let ?h = "hex_str 32 (int u)"
  have "int u < int (2 ^ 128)" using assms by (simp only: of_nat_less_iff)
  then have "int u < 16 ^ 32" by simp
  then have len: "length ?h = 32"
    using length_base_digits[of "int u" 32] by (simp add: hex_str_def zero_pad_def)
  have "hex_digit CHR ''0''" "\<not> hex_digit CHR ''-''" by (simp_all add: hex_digit_def)
  moreover from this have "list_all hex_digit ?h"
    using base_digits_hex[of "int u"]
    by (auto simp: hex_str_def zero_pad_def list_all_iff)
  ultimately have "CHR ''-'' \<notin> set ?h" by (auto simp: list_all_iff)
  then have nodash: "filter (\<lambda>c. c \<noteq> CHR ''-'') xs = xs" if "set xs \<subseteq> set ?h" for xs
    using that by (intro filter_True) blast
  have sub: "set (take a (drop b ?h)) \<subseteq> set ?h" for a b
    by (meson order_trans set_drop_subset set_take_subset)
  have "filter (\<lambda>c. c \<noteq> CHR ''-'') (uuid_str u)
      = take 8 ?h @ take 4 (drop 8 ?h) @ take 4 (drop 12 ?h) @ take 4 (drop 16 ?h) @ drop 20 ?h"
    using nodash[OF set_take_subset, of 8] nodash[OF sub, of 4 8] nodash[OF sub, of 4 12]
      nodash[OF sub, of 4 16] nodash[OF set_drop_subset, of 20]
    by (simp add: uuid_str_def Let_def)
  also have "\<dots> = ?h"
    using append_take_drop_id[of 4 "drop 16 ?h"] append_take_drop_id[of 4 "drop 12 ?h"]
      append_take_drop_id[of 4 "drop 8 ?h"] append_take_drop_id[of 8 ?h]
    by (simp only: drop_drop) simp
  finally show ?thesis
    using len hex_int_zero_pad[of "32 - length (base_digits 16 (int u))" "base_digits 16 (int u)"]
      hex_int_base_digits[of "int u"]
    by (simp add: uuid_parse_def hex_str_def zero_pad_def)
qed

end
