(* ===== verification/Models.thy ===== *)
theory Models
  imports Prelude
begin

text \<open>
  The rows of \<open>backend/app/models\<close> that the modelled services read and write, one
  record per table, and the database: the list of rows of each table, with the two kinds
  of identity supply the models use. A primary key with \<open>default=uuid.uuid4\<close> is drawn
  from \<open>next_uuid\<close>, which stands for the supply of fresh UUIDs; an
  \<open>autoincrement\<close> key is drawn from \<open>next_serial\<close>. A \<open>created_at\<close> column with
  \<open>server_default=func.now()\<close> is the instant of the request.

  A \<open>status\<close> column whose values the code fixes is a datatype with these values;
  \<open>updated_at\<close> columns maintained by \<open>onupdate\<close> are left out, since no modelled
  operation reads them.
\<close>

section \<open>Agents (models/agent.py, agent_governance.py, package.py)\<close>

record agent =
  a_id :: uuid
  a_slug :: string
  a_display_name :: string
  a_role :: string
  a_machine :: string
  a_hermes_profile :: string
  a_runtime :: "string option"
  a_runtime_version :: "string option"
  a_status :: string
  a_capabilities :: "string list"
  a_heartbeat_metadata :: dict
  a_risk_ceiling :: int
  a_is_enabled :: bool
  a_last_heartbeat_at :: "time option"
  a_created_at :: time

datatype charter_status = CharterDraft | CharterActive | CharterSuperseded

text \<open>The JSON manifest of a charter, as the schema \<open>AgentCharterManifest\<close> fixes it.\<close>

record charter_manifest =
  cm_schema_version :: string
  cm_role :: string
  cm_responsibilities :: "string list"
  cm_capabilities :: "string list"
  cm_allowed_machines :: "string list"
  cm_allowed_task_types :: "string list"
  cm_allowed_repositories :: "string list"
  cm_risk_ceiling :: int
  cm_accountable_owner :: string
  cm_conflicts :: "string list"
  cm_forbidden_actions :: "string list"

record agent_charter =
  ch_id :: uuid
  ch_agent_id :: uuid
  ch_version :: string
  ch_manifest :: charter_manifest
  ch_manifest_digest :: string
  ch_status :: charter_status
  ch_created_by :: string
  ch_created_at :: time
  ch_activated_by :: "string option"
  ch_activated_at :: "time option"
  ch_supersedes_id :: "uuid option"

datatype grant_status = GrantActive | GrantRevoked

record agent_capability_grant =
  gr_id :: uuid
  gr_agent_id :: uuid
  gr_charter_id :: uuid
  gr_package_id :: uuid
  gr_capability :: string
  gr_machine :: string
  gr_task_types :: "string list"
  gr_repositories :: "string list"
  gr_risk_ceiling :: int
  gr_accountable_owner :: string
  gr_status :: grant_status
  gr_granted_by :: string
  gr_reason :: string
  gr_expires_at :: time
  gr_revoked_by :: "string option"
  gr_revoked_at :: "time option"
  gr_revocation_reason :: "string option"
  gr_record_digest :: string
  gr_created_at :: time

record agent_grant_event =
  gv_id :: uuid
  gv_grant_id :: uuid
  gv_sequence :: nat
  gv_event_type :: string
  gv_actor :: string
  gv_payload :: json
  gv_prior_event_digest :: "string option"
  gv_event_digest :: string
  gv_created_at :: time

text \<open>The members of a role-package manifest that the authority checks read.\<close>

record package_manifest =
  pm_required_capabilities :: "string list"
  pm_allowed_machines :: "string list"
  pm_task_types :: "string list"
  pm_risk_ceiling :: int
  pm_repositories :: "string list"  \<comment> \<open>\<open>manifest["repository_profile"]["repositories"]\<close>\<close>

record role_package =
  rp_id :: uuid
  rp_name :: string
  rp_version :: string
  rp_manifest :: package_manifest
  rp_manifest_digest :: string
  rp_signature :: string
  rp_source_repository :: string
  rp_source_commit :: string
  rp_created_by :: string
  rp_created_at :: time

record package_deployment =
  pd_id :: uuid
  pd_agent_id :: uuid
  pd_package_id :: uuid
  pd_is_active :: bool
  pd_deployed_by :: string
  pd_deployed_at :: time
  pd_revoked_at :: "time option"

section \<open>Tasks (models/task.py, task_event.py, mission.py)\<close>

datatype task_status =
  Queued | Leased | Running | Succeeded | Failed | Cancelled | PendingApproval

record task =
  t_id :: uuid
  t_task_number :: string
  t_project :: string
  t_task_type :: string
  t_title :: string
  t_objective :: string
  t_status :: task_status
  t_priority :: int
  t_risk_level :: int
  t_assigned_agent_id :: "uuid option"
  t_parent_task_id :: "uuid option"
  t_conversation_id :: "uuid option"
  t_conversation_revision :: "int option"
  t_mission_id :: "uuid option"
  t_milestone_step_id :: "string option"
  t_task_graph_node_id :: "uuid option"
  t_created_by :: string
  t_input_contract :: dict
  t_expected_outputs :: "json list"
  t_acceptance_criteria :: "json list"
  t_approval_policy :: dict
  t_approval_required :: bool
  t_plan_digest :: string
  t_required_capabilities :: "string list"
  t_allowed_machines :: "string list"
  t_max_attempts :: int
  t_attempt_count :: int
  t_leased_at :: "time option"
  t_lease_expires_at :: "time option"
  t_lease_token_prefix :: "string option"
  t_lease_token_digest :: "string option"
  t_last_execution_heartbeat_at :: "time option"
  t_result :: dict
  t_failure :: dict
  t_created_at :: time
  t_started_at :: "time option"
  t_completed_at :: "time option"
  t_cancel_requested_at :: "time option"
  t_cancel_reason :: "string option"

record task_event =
  te_id :: nat
  te_task_id :: uuid
  te_agent_id :: "uuid option"
  te_event_type :: string
  te_attempt_number :: int
  te_message :: string
  te_payload :: dict
  te_created_at :: time

record task_dependency =
  td_id :: nat
  td_task_id :: uuid
  td_depends_on_task_id :: uuid
  td_created_at :: time

section \<open>Approvals and notifications (models/governance.py)\<close>

datatype approval_status =
  ApprovalPending | ApprovalApproved | ApprovalRejected | ApprovalRevoked
  | ApprovalConsumed | ApprovalExpired

record task_approval =
  ap_id :: uuid
  ap_task_id :: uuid
  ap_status :: approval_status
  ap_plan_digest :: string
  ap_risk_level :: int
  ap_scope :: dict
  ap_requested_by :: string
  ap_decided_by :: "string option"
  ap_decision_reason :: "string option"
  ap_nonce_digest :: "string option"
  ap_issued_at :: "time option"
  ap_expires_at :: "time option"
  ap_consumed_at :: "time option"
  ap_created_at :: time
  ap_updated_at :: time

record approval_event =
  ae_id :: nat
  ae_approval_id :: uuid
  ae_event_type :: string
  ae_actor :: string
  ae_reason :: string
  ae_payload :: dict
  ae_created_at :: time

datatype notification_state =
  NotificationPending | NotificationWaiting | NotificationSuperseded | NotificationAcknowledged

record founder_notification =
  fn_id :: uuid
  fn_kind :: string
  fn_entity_id :: uuid
  fn_deduplication_key :: string
  fn_state :: notification_state
  fn_payload :: dict
  fn_acknowledged_by :: "string option"
  fn_acknowledged_at :: "time option"
  fn_superseded_at :: "time option"
  fn_created_at :: time
  fn_updated_at :: time

section \<open>Controls (models/control.py)\<close>

record control_scope =
  cs_id :: nat
  cs_scope_type :: string
  cs_scope_key :: string
  cs_is_paused :: bool
  cs_reason :: "string option"
  cs_updated_by :: string
  cs_created_at :: time

record control_event =
  ce_id :: nat
  ce_scope_type :: string
  ce_scope_key :: string
  ce_event_type :: string
  ce_actor :: string
  ce_reason :: string
  ce_payload :: dict
  ce_created_at :: time

section \<open>Task graphs (models/task_graph.py)\<close>

datatype graph_status =
  GraphDraft | GraphActive | GraphCancelling | GraphCompensating | GraphCompensated
  | GraphCompensationFailed | GraphFailed | GraphSucceeded | GraphCancelled

text \<open>The JSON of a task specification, as the schema \<open>GraphTaskSpec\<close> fixes it.\<close>

record graph_task_spec =
  gs_task_type :: string
  gs_title :: string
  gs_objective :: string
  gs_input_contract :: dict
  gs_expected_outputs :: "string list"
  gs_acceptance_criteria :: "string list"
  gs_required_capabilities :: "string list"
  gs_allowed_machines :: "string list"
  gs_max_attempts :: int
  gs_risk_level :: int

record task_graph =
  g_id :: uuid
  g_graph_key :: string
  g_project :: string
  g_objective :: string
  g_status :: graph_status
  g_schema_version :: string
  g_manifest :: json
  g_manifest_digest :: string
  g_max_nodes :: int
  g_max_total_attempts :: int
  g_max_duration_seconds :: int
  g_max_parallelism :: int
  g_created_by :: string
  g_terminal_reason :: dict
  g_created_at :: time
  g_activated_at :: "time option"
  g_deadline_at :: "time option"
  g_completed_at :: "time option"

text \<open>A node is created \<open>blocked\<close> and then takes the status of its task.\<close>

datatype node_status = NodeBlocked | NodeTask task_status

record task_graph_node =
  n_id :: uuid
  n_graph_id :: uuid
  n_node_key :: string
  n_role :: string
  n_task_id :: "uuid option"
  n_node_type :: string
  n_status :: node_status
  n_depends_on :: "string list"
  n_input_type :: string
  n_output_type :: string
  n_task_spec :: graph_task_spec
  n_stop_conditions :: "string list"
  n_compensation :: "graph_task_spec option"  \<comment> \<open>\<open>{}\<close> is no compensation\<close>
  n_ordinal :: nat
  n_created_at :: time

record task_graph_message =
  gm_id :: uuid
  gm_graph_id :: uuid
  gm_node_id :: "uuid option"
  gm_sequence :: nat
  gm_message_type :: string
  gm_sender :: string
  gm_recipient :: string
  gm_payload :: dict
  gm_payload_digest :: string
  gm_created_at :: time

record task_graph_event =
  ge_id :: nat
  ge_graph_id :: uuid
  ge_sequence :: nat
  ge_event_type :: string
  ge_actor :: string
  ge_payload :: dict
  ge_previous_digest :: "string option"
  ge_event_digest :: string
  ge_created_at :: time

section \<open>Missions (models/mission.py)\<close>

datatype mission_status =
  MissionPendingApproval | MissionActive | MissionSucceeded | MissionBlocked | MissionCancelled

datatype supervision_status =
  SupervisionPendingApproval | SupervisionActive | SupervisionRecovering
  | SupervisionAttentionRequired | SupervisionSucceeded | SupervisionAborted

record engineering_mission =
  m_id :: uuid
  m_milestone_id :: string
  m_project :: string
  m_objective :: string
  m_status :: mission_status
  m_manifest_digest :: string
  m_manifest :: json
  m_approved_by :: string
  m_approval_reference :: string
  m_approval_signature :: string
  m_max_tasks :: int
  m_max_attempts :: int
  m_max_duration_seconds :: int
  m_deadline_at :: time
  m_created_by :: string
  m_created_at :: time
  m_completed_at :: "time option"
  m_supervision_enabled :: bool
  m_supervision_status :: "supervision_status option"
  m_supervision_policy :: dict
  m_supervision_approved_at :: "time option"
  m_supervision_approved_by :: "string option"
  m_recovery_count :: int
  m_next_reconcile_at :: "time option"
  m_supervision_exception :: dict

record mission_event =
  me_id :: nat
  me_mission_id :: uuid
  me_event_type :: string
  me_actor :: string
  me_message :: string
  me_payload :: dict
  me_created_at :: time

section \<open>Working memory (models/agent\_context.py)\<close>

record working_memory_receipt =
  wm_id :: uuid
  wm_context_manifest_id :: uuid
  wm_task_id :: uuid
  wm_agent_id :: uuid
  wm_sequence :: int
  wm_kind :: string
  wm_content_digest :: string
  wm_workspace_path :: string
  wm_sensitivity :: string
  wm_status :: string
  wm_expires_at :: time
  wm_receipt_digest :: string
  wm_discarded_at :: "time option"
  wm_created_at :: time

section \<open>Evaluator routing (models/evaluator\_routing.py)\<close>

datatype profile_status = ProfileActive | ProfileRetired

record evaluator_profile =
  ep_id :: uuid
  ep_agent_id :: uuid
  ep_profile_version :: string
  ep_status :: profile_status
  ep_review_kinds :: "string list"
  ep_capabilities :: "string list"
  ep_machine :: string
  ep_provider :: string
  ep_model_family :: string
  ep_runtime :: string
  ep_context_group :: string
  ep_package_id :: uuid
  ep_package_digest :: string
  ep_attestation :: dict
  ep_profile_digest :: string
  ep_registered_by :: string
  ep_created_at :: time
  ep_retired_at :: "time option"

datatype route_status =
  RouteRouting | RouteBlocked | RouteAssigned | RouteCompleted | RouteSuperseded

record evaluation_route =
  er_id :: uuid
  er_subject_type :: string
  er_subject_id :: string
  er_subject_digest :: string
  er_producer :: dict
  er_policy :: dict
  er_status :: route_status
  er_route_digest :: string
  er_requested_by :: string
  er_blocked_reason :: dict
  er_created_at :: time
  er_completed_at :: "time option"

datatype assignment_status = AssignmentAssigned | AssignmentCompleted

record evaluator_assignment =
  ea_id :: uuid
  ea_route_id :: uuid
  ea_evaluator_profile_id :: uuid
  ea_review_kind :: string
  ea_status :: assignment_status
  ea_correlation_report :: dict
  ea_assignment_digest :: string
  ea_review_id :: "string option"
  ea_review_digest :: "string option"
  ea_completed_by :: "string option"
  ea_assigned_at :: time
  ea_completed_at :: "time option"

record evaluation_route_event =
  ev_id :: nat
  ev_route_id :: uuid
  ev_sequence :: nat
  ev_event_type :: string
  ev_actor :: string
  ev_payload :: dict
  ev_previous_digest :: "string option"
  ev_event_digest :: string
  ev_created_at :: time

record independence_receipt =
  ir_id :: uuid
  ir_route_id :: uuid
  ir_subject_digest :: string
  ir_verdict :: string
  ir_assertion :: dict
  ir_receipt_digest :: string
  ir_issued_by :: string
  ir_issued_at :: time

section \<open>Founder conversations (models/conversation.py)\<close>

record founder_conversation =
  fc_id :: uuid
  fc_short_id :: string
  fc_founder_key :: string
  fc_title :: string
  fc_project :: "string option"
  fc_status :: string
  fc_working_summary :: string
  fc_current_specification :: dict
  fc_specification_digest :: "string option"
  fc_revision :: int
  fc_created_at :: time
  fc_closed_at :: "time option"

record conversation_event =
  cv_id :: nat
  cv_conversation_id :: uuid
  cv_event_type :: string
  cv_actor :: string
  cv_prior_status :: "string option"
  cv_resulting_status :: string
  cv_revision :: int
  cv_payload :: dict
  cv_created_at :: time

section \<open>Authority (models/authority.py)\<close>

text \<open>The JSON policy manifest, as \<open>schemas/authority.py\<close> fixes it.\<close>

record role_binding =
  rb_role :: string
  rb_actors :: "string list"

datatype separation_field = FieldRequester | FieldOriginator | FieldEvaluator

record separation_rule =
  sr_field :: separation_field
  sr_minimum_risk :: int
  sr_rule_key :: string

record decision_right =
  dc_decision_type :: string
  dc_actions :: "string list"
  dc_accountable_roles :: "string list"
  dc_veto_roles :: "string list"
  dc_environments :: "string list"
  dc_maximum_risk :: int
  dc_delegable :: bool
  dc_constitutional :: bool
  dc_separation :: "separation_rule list"

record authority_policy_manifest =
  pl_schema_version :: string
  pl_policy_key :: string
  pl_version :: string
  pl_roles :: "role_binding list"
  pl_identity_aliases :: "(string \<times> string) list"
  pl_decisions :: "decision_right list"
  pl_constitutional_boundaries :: "string list"

datatype policy_status = PolicyDraft | PolicyActive | PolicyRetired

record authority_policy_snapshot =
  po_id :: uuid
  po_policy_key :: string
  po_version :: string
  po_status :: policy_status
  po_manifest :: authority_policy_manifest
  po_manifest_digest :: string
  po_effective_from :: "time option"
  po_effective_until :: "time option"
  po_activated_by :: "string option"
  po_activated_at :: "time option"
  po_supersedes_id :: "uuid option"
  po_created_by :: string
  po_created_at :: time

record authority_delegation =
  dl_id :: uuid
  dl_policy_id :: uuid
  dl_grantor_actor :: string
  dl_grantee_actor :: string
  dl_decision_types :: "string list"
  dl_scope :: dict
  dl_max_risk :: int
  dl_environment :: string
  dl_reason :: string
  dl_status :: string
  dl_expires_at :: time
  dl_revoked_at :: "time option"
  dl_created_at :: time

record authority_exception =
  ax_id :: uuid
  ax_policy_id :: uuid
  ax_rule_key :: string
  ax_requester :: string
  ax_approver :: "string option"
  ax_independent_reviewer :: string
  ax_reason :: string
  ax_scope :: dict
  ax_risk_level :: int
  ax_compensating_controls :: "string list"
  ax_status :: string
  ax_effective_from :: "time option"
  ax_expires_at :: time
  ax_closed_at :: "time option"
  ax_terminal_disposition :: "string option"
  ax_record_digest :: string
  ax_created_at :: time

record authority_decision_record =
  dr_id :: uuid
  dr_policy_id :: uuid
  dr_decision_type :: string
  dr_action :: string
  dr_object_type :: string
  dr_object_id :: string
  dr_object_digest :: string
  dr_actor :: string
  dr_effective_roles :: "string list"
  dr_scope :: dict
  dr_risk_level :: int
  dr_outcome :: string
  dr_reason :: string
  dr_evidence :: dict
  dr_delegation_id :: "uuid option"
  dr_exception_id :: "uuid option"
  dr_record_digest :: string
  dr_created_at :: time

section \<open>Credentials and workload identities (models/agent\_credential.py, workload\_identity.py)\<close>

datatype rotation_state = RotationActive | RotationOverlap | RotationRevoked | RotationRolledBack

record agent_credential =
  cr_id :: uuid
  cr_agent_id :: uuid
  cr_workload_identity_id :: "uuid option"
  cr_rotation_parent_id :: "uuid option"
  cr_rotation_state :: rotation_state
  cr_overlap_expires_at :: "time option"
  cr_token_prefix :: string
  cr_token_digest :: string
  cr_created_at :: time
  cr_last_used_at :: "time option"
  cr_expires_at :: "time option"
  cr_revoked_at :: "time option"

record workload_identity_control =
  wc_enforcement_active :: bool
  wc_policy_version :: string
  wc_policy_digest :: string
  wc_activated_by :: "string option"
  wc_activated_at :: "time option"
  wc_updated_at :: time

record workload_identity =
  wk_id :: uuid
  wk_agent_id :: uuid
  wk_charter_id :: uuid
  wk_package_id :: uuid
  wk_version :: string
  wk_machine :: string
  wk_audience :: string
  wk_scopes :: "string list"
  wk_accountable_owner :: string
  wk_manifest :: dict
  wk_manifest_digest :: string
  wk_status :: string
  wk_valid_from :: time
  wk_expires_at :: time
  wk_created_by :: string
  wk_created_at :: time
  wk_revoked_by :: "string option"
  wk_revoked_at :: "time option"
  wk_revocation_reason :: "string option"

record workload_identity_event =
  we_id :: uuid
  we_identity_id :: uuid
  we_sequence :: nat
  we_event_type :: string
  we_actor :: string
  we_payload :: dict
  we_prior_event_digest :: "string option"
  we_event_digest :: string
  we_created_at :: time

record workload_secret_policy =
  sp_id :: uuid
  sp_identity_id :: uuid
  sp_logical_name :: string
  sp_version :: string
  sp_required_scope :: string
  sp_reference :: string
  sp_rotation_due_at :: time
  sp_expires_at :: time
  sp_status :: string
  sp_policy_digest :: string
  sp_created_by :: string
  sp_created_at :: time

record workload_authorization_receipt =
  wr_id :: uuid
  wr_identity_id :: uuid
  wr_credential_prefix :: string
  wr_action :: string
  wr_required_scope :: string
  wr_allowed :: bool
  wr_reason :: string
  wr_context :: dict
  wr_receipt_digest :: string
  wr_created_at :: time

record workload_emergency_grant =
  eg_id :: uuid
  eg_identity_id :: uuid
  eg_scopes :: "string list"
  eg_reason :: string
  eg_approved_by :: string
  eg_independent_reviewer :: string
  eg_approval_reference :: string
  eg_status :: string
  eg_starts_at :: time
  eg_expires_at :: time
  eg_record_digest :: string
  eg_revoked_at :: "time option"
  eg_created_at :: time

section \<open>Artifacts (models/governance.py)\<close>

record artifact =
  at_id :: uuid
  at_task_id :: uuid
  at_agent_id :: uuid
  at_attempt_number :: int
  at_artifact_type :: string
  at_name :: string
  at_size_bytes :: int
  at_sha256 :: string
  at_location :: string
  at_storage_backend :: string
  at_workflow :: string
  at_workflow_version :: string
  at_source_commit :: string
  at_confidentiality :: string
  at_retention_class :: string
  at_verification_status :: string
  at_expires_at :: "time option"
  at_metadata :: dict
  at_created_at :: time

section \<open>The database\<close>

record db =
  next_uuid :: nat
  next_serial :: nat
  agents :: "agent list"
  charters :: "agent_charter list"
  grants :: "agent_capability_grant list"
  grant_events :: "agent_grant_event list"
  packages :: "role_package list"
  deployments :: "package_deployment list"
  tasks :: "task list"
  task_events :: "task_event list"
  dependencies :: "task_dependency list"
  approvals :: "task_approval list"
  approval_events :: "approval_event list"
  notifications :: "founder_notification list"
  control_scopes :: "control_scope list"
  control_events :: "control_event list"
  graphs :: "task_graph list"
  nodes :: "task_graph_node list"
  graph_messages :: "task_graph_message list"
  graph_events :: "task_graph_event list"
  missions :: "engineering_mission list"
  mission_events :: "mission_event list"
  working_memory :: "working_memory_receipt list"
  profiles :: "evaluator_profile list"
  routes :: "evaluation_route list"
  assignments :: "evaluator_assignment list"
  route_events :: "evaluation_route_event list"
  receipts :: "independence_receipt list"
  conversations :: "founder_conversation list"
  conversation_events :: "conversation_event list"
  policies :: "authority_policy_snapshot list"
  delegations :: "authority_delegation list"
  exceptions :: "authority_exception list"
  decisions :: "authority_decision_record list"
  credentials :: "agent_credential list"
  identity_control :: "workload_identity_control option"
  identities :: "workload_identity list"
  identity_events :: "workload_identity_event list"
  secret_policies :: "workload_secret_policy list"
  authorization_receipts :: "workload_authorization_receipt list"
  emergency_grants :: "workload_emergency_grant list"
  artifacts :: "artifact list"

definition empty_db :: db where
  "empty_db =
    \<lparr>next_uuid = 0, next_serial = 1, agents = [], charters = [], grants = [], grant_events = [],
     packages = [], deployments = [], tasks = [], task_events = [], dependencies = [],
     approvals = [], approval_events = [], notifications = [], control_scopes = [],
     control_events = [], graphs = [], nodes = [], graph_messages = [], graph_events = [],
     missions = [], mission_events = [], working_memory = [], profiles = [],
     routes = [], assignments = [], route_events = [], receipts = [], conversations = [],
     conversation_events = [], policies = [], delegations = [], exceptions = [], decisions = [],
     credentials = [], identity_control = None, identities = [], identity_events = [],
     secret_policies = [], authorization_receipts = [], emergency_grants = [], artifacts = []\<rparr>"

end
