(* ===== verification/Store.thy ===== *)
theory Store
  imports Models
begin

text \<open>
  Access to the rows of the database as the services use it through the SQLAlchemy
  session: \<open>db.get\<close>, attribute assignment on a loaded row, \<open>db.add\<close>. The locale
  \<open>store\<close> is the contract of this access that the component proofs rest on; it is
  interpreted here for each table the services assign to. \<open>append_task_event\<close>,
  \<open>append_approval_event\<close> and \<open>append_mission_event\<close>, which the services call from
  everywhere, are here too.

  The session is created with \<open>autoflush=False\<close>: a query sees the assignments made
  before the last flush. Every modelled operation that queries a column after assigning
  it flushes in between (each \<open>append_*_event\<close> flushes), so the model applies
  assignments at once. A handler that raises leaves the database as it was, since the
  session is closed without a commit.
\<close>

section \<open>Texts of the status values\<close>

fun task_status_str :: "task_status \<Rightarrow> string" where
  "task_status_str Queued = ''queued''"
| "task_status_str Leased = ''leased''"
| "task_status_str Running = ''running''"
| "task_status_str Succeeded = ''succeeded''"
| "task_status_str Failed = ''failed''"
| "task_status_str Cancelled = ''cancelled''"
| "task_status_str PendingApproval = ''pending_approval''"

fun approval_status_str :: "approval_status \<Rightarrow> string" where
  "approval_status_str ApprovalPending = ''pending''"
| "approval_status_str ApprovalApproved = ''approved''"
| "approval_status_str ApprovalRejected = ''rejected''"
| "approval_status_str ApprovalRevoked = ''revoked''"
| "approval_status_str ApprovalConsumed = ''consumed''"
| "approval_status_str ApprovalExpired = ''expired''"

fun graph_status_str :: "graph_status \<Rightarrow> string" where
  "graph_status_str GraphDraft = ''draft''"
| "graph_status_str GraphActive = ''active''"
| "graph_status_str GraphCancelling = ''cancelling''"
| "graph_status_str GraphCompensating = ''compensating''"
| "graph_status_str GraphCompensated = ''compensated''"
| "graph_status_str GraphCompensationFailed = ''compensation_failed''"
| "graph_status_str GraphFailed = ''failed''"
| "graph_status_str GraphSucceeded = ''succeeded''"
| "graph_status_str GraphCancelled = ''cancelled''"

fun mission_status_str :: "mission_status \<Rightarrow> string" where
  "mission_status_str MissionPendingApproval = ''pending_approval''"
| "mission_status_str MissionActive = ''active''"
| "mission_status_str MissionSucceeded = ''succeeded''"
| "mission_status_str MissionBlocked = ''blocked''"
| "mission_status_str MissionCancelled = ''cancelled''"

section \<open>Rows by primary key\<close>

definition get_task :: "uuid \<Rightarrow> db \<Rightarrow> task option" where
  "get_task i d = get_row t_id (tasks d) i"

definition upd_task :: "uuid \<Rightarrow> (task \<Rightarrow> task) \<Rightarrow> db \<Rightarrow> db" where
  "upd_task i f d = d\<lparr>tasks := upd_row t_id i f (tasks d)\<rparr>"

definition get_approval :: "uuid \<Rightarrow> db \<Rightarrow> task_approval option" where
  "get_approval i d = get_row ap_id (approvals d) i"

definition upd_approval :: "uuid \<Rightarrow> (task_approval \<Rightarrow> task_approval) \<Rightarrow> db \<Rightarrow> db" where
  "upd_approval i f d = d\<lparr>approvals := upd_row ap_id i f (approvals d)\<rparr>"

definition get_graph :: "uuid \<Rightarrow> db \<Rightarrow> task_graph option" where
  "get_graph i d = get_row g_id (graphs d) i"

definition upd_graph :: "uuid \<Rightarrow> (task_graph \<Rightarrow> task_graph) \<Rightarrow> db \<Rightarrow> db" where
  "upd_graph i f d = d\<lparr>graphs := upd_row g_id i f (graphs d)\<rparr>"

definition get_node :: "uuid \<Rightarrow> db \<Rightarrow> task_graph_node option" where
  "get_node i d = get_row n_id (nodes d) i"

definition upd_node :: "uuid \<Rightarrow> (task_graph_node \<Rightarrow> task_graph_node) \<Rightarrow> db \<Rightarrow> db" where
  "upd_node i f d = d\<lparr>nodes := upd_row n_id i f (nodes d)\<rparr>"

definition get_mission :: "uuid \<Rightarrow> db \<Rightarrow> engineering_mission option" where
  "get_mission i d = get_row m_id (missions d) i"

definition upd_mission :: "uuid \<Rightarrow> (engineering_mission \<Rightarrow> engineering_mission) \<Rightarrow> db \<Rightarrow> db" where
  "upd_mission i f d = d\<lparr>missions := upd_row m_id i f (missions d)\<rparr>"

definition get_charter :: "uuid \<Rightarrow> db \<Rightarrow> agent_charter option" where
  "get_charter i d = get_row ch_id (charters d) i"

definition upd_charter :: "uuid \<Rightarrow> (agent_charter \<Rightarrow> agent_charter) \<Rightarrow> db \<Rightarrow> db" where
  "upd_charter i f d = d\<lparr>charters := upd_row ch_id i f (charters d)\<rparr>"

definition get_grant :: "uuid \<Rightarrow> db \<Rightarrow> agent_capability_grant option" where
  "get_grant i d = get_row gr_id (grants d) i"

definition upd_grant :: "uuid \<Rightarrow> (agent_capability_grant \<Rightarrow> agent_capability_grant) \<Rightarrow> db \<Rightarrow> db" where
  "upd_grant i f d = d\<lparr>grants := upd_row gr_id i f (grants d)\<rparr>"

definition get_agent :: "uuid \<Rightarrow> db \<Rightarrow> agent option" where
  "get_agent i d = get_row a_id (agents d) i"

definition get_package :: "uuid \<Rightarrow> db \<Rightarrow> role_package option" where
  "get_package i d = get_row rp_id (packages d) i"

text \<open>The approval row of a task; \<open>task_approvals.task_id\<close> is unique.\<close>

definition approval_of_task :: "uuid \<Rightarrow> db \<Rightarrow> task_approval option" where
  "approval_of_task i d = get_row ap_task_id (approvals d) i"

section \<open>Event rows\<close>

definition append_task_event ::
  "time \<Rightarrow> task \<Rightarrow> string \<Rightarrow> string \<Rightarrow> uuid option \<Rightarrow> dict \<Rightarrow> db \<Rightarrow> db" where
  "append_task_event now t event_type message agent_id payload d =
     d\<lparr>task_events := task_events d @
         [\<lparr>te_id = next_serial d, te_task_id = t_id t, te_agent_id = agent_id,
           te_event_type = event_type, te_attempt_number = t_attempt_count t,
           te_message = message, te_payload = payload, te_created_at = now\<rparr>],
       next_serial := Suc (next_serial d)\<rparr>"

text \<open>Returns the event's \<open>id\<close>, which the callers use as a generation number.\<close>

definition append_approval_event ::
  "time \<Rightarrow> uuid \<Rightarrow> string \<Rightarrow> string \<Rightarrow> string \<Rightarrow> dict \<Rightarrow> db \<Rightarrow> nat \<times> db" where
  "append_approval_event now approval_id event_type actor reason payload d =
     (next_serial d,
      d\<lparr>approval_events := approval_events d @
          [\<lparr>ae_id = next_serial d, ae_approval_id = approval_id, ae_event_type = event_type,
            ae_actor = actor, ae_reason = reason, ae_payload = payload, ae_created_at = now\<rparr>],
        next_serial := Suc (next_serial d)\<rparr>)"

definition append_mission_event ::
  "time \<Rightarrow> uuid \<Rightarrow> string \<Rightarrow> string \<Rightarrow> string \<Rightarrow> dict \<Rightarrow> db \<Rightarrow> db" where
  "append_mission_event now mission_id event_type actor message payload d =
     d\<lparr>mission_events := mission_events d @
         [\<lparr>me_id = next_serial d, me_mission_id = mission_id, me_event_type = event_type,
           me_actor = actor, me_message = message, me_payload = payload, me_created_at = now\<rparr>],
       next_serial := Suc (next_serial d)\<rparr>"

section \<open>The contract of row access\<close>

text \<open>
  A store gives back what was assigned and leaves every other row alone; an assignment
  never touches the primary key.
\<close>

locale store =
  fixes get :: "'k \<Rightarrow> 'd \<Rightarrow> 'r option"
    and upd :: "'k \<Rightarrow> ('r \<Rightarrow> 'r) \<Rightarrow> 'd \<Rightarrow> 'd"
    and key :: "'r \<Rightarrow> 'k"
  assumes get_upd: "(\<And>r. key (f r) = key r) \<Longrightarrow>
      get k' (upd k f d) = (if k' = k then map_option f (get k' d) else get k' d)"
    and get_key: "get k d = Some r \<Longrightarrow> key r = k"
    and upd_missing: "get k d = None \<Longrightarrow> upd k f d = d"
begin

lemma get_upd_Some:
  assumes "\<And>r. key (f r) = key r" and "get k d = Some r"
  shows "get k (upd k f d) = Some (f r)"
  using get_upd[OF assms(1), of k] assms(2) by simp

lemma get_upd_other:
  assumes "\<And>r. key (f r) = key r" and "k' \<noteq> k"
  shows "get k' (upd k f d) = get k' d"
  using get_upd[OF assms(1), of k'] assms(2) by simp

text \<open>An assignment adds and removes no row.\<close>

lemma get_upd_None_iff:
  assumes "\<And>r. key (f r) = key r"
  shows "get k' (upd k f d) = None \<longleftrightarrow> get k' d = None"
  using get_upd[OF assms, of k'] by simp

text \<open>Two assignments to one row are one assignment.\<close>

lemma get_upd_upd:
  assumes "\<And>r. key (f r) = key r" and "\<And>r. key (g r) = key r"
  shows "get k' (upd k g (upd k f d)) = get k' (upd k (\<lambda>r. g (f r)) d)"
proof -
  have "\<And>r. key (g (f r)) = key r" using assms by simp
  from get_upd[OF this, of k' k d] show ?thesis
    using get_upd[OF assms(2), of k' k "upd k f d"] get_upd[OF assms(1), of k' k d]
    by (cases "k' = k"; cases "get k' d") auto
qed

end

lemma get_row_key: "get_row key rows k = Some r \<Longrightarrow> key r = k"
  using get_row_Some_in by fastforce

lemmas store_defs =
  get_task_def upd_task_def get_approval_def upd_approval_def get_graph_def upd_graph_def
  get_node_def upd_node_def get_mission_def upd_mission_def get_charter_def upd_charter_def
  get_grant_def upd_grant_def

interpretation task_store: store get_task upd_task t_id
  by unfold_locales (auto simp: store_defs row_simps upd_row_None dest: get_row_key)

interpretation approval_store: store get_approval upd_approval ap_id
  by unfold_locales (auto simp: store_defs row_simps upd_row_None dest: get_row_key)

interpretation graph_store: store get_graph upd_graph g_id
  by unfold_locales (auto simp: store_defs row_simps upd_row_None dest: get_row_key)

interpretation node_store: store get_node upd_node n_id
  by unfold_locales (auto simp: store_defs row_simps upd_row_None dest: get_row_key)

interpretation mission_store: store get_mission upd_mission m_id
  by unfold_locales (auto simp: store_defs row_simps upd_row_None dest: get_row_key)

interpretation charter_store: store get_charter upd_charter ch_id
  by unfold_locales (auto simp: store_defs row_simps upd_row_None dest: get_row_key)

interpretation grant_store: store get_grant upd_grant gr_id
  by unfold_locales (auto simp: store_defs row_simps upd_row_None dest: get_row_key)

section \<open>Frames\<close>

text \<open>What each of these accesses leaves unchanged, as rewrite rules.\<close>

lemma upd_task_frame [simp]:
  "approvals (upd_task i f d) = approvals d" "task_events (upd_task i f d) = task_events d"
  "approval_events (upd_task i f d) = approval_events d" "graphs (upd_task i f d) = graphs d"
  "nodes (upd_task i f d) = nodes d" "dependencies (upd_task i f d) = dependencies d"
  "missions (upd_task i f d) = missions d" "notifications (upd_task i f d) = notifications d"
  "graph_events (upd_task i f d) = graph_events d" "next_uuid (upd_task i f d) = next_uuid d"
  "graph_messages (upd_task i f d) = graph_messages d"
  "mission_events (upd_task i f d) = mission_events d"
  by (simp_all add: upd_task_def)

lemma upd_approval_frame [simp]:
  "tasks (upd_approval i f d) = tasks d" "task_events (upd_approval i f d) = task_events d"
  "approval_events (upd_approval i f d) = approval_events d"
  "graphs (upd_approval i f d) = graphs d" "nodes (upd_approval i f d) = nodes d"
  "dependencies (upd_approval i f d) = dependencies d" "missions (upd_approval i f d) = missions d"
  "notifications (upd_approval i f d) = notifications d"
  "graph_events (upd_approval i f d) = graph_events d"
  "next_uuid (upd_approval i f d) = next_uuid d"
  "graph_messages (upd_approval i f d) = graph_messages d"
  "mission_events (upd_approval i f d) = mission_events d"
  by (simp_all add: upd_approval_def)

lemma append_task_event_frame [simp]:
  "tasks (append_task_event now t e m a p d) = tasks d"
  "approvals (append_task_event now t e m a p d) = approvals d"
  "approval_events (append_task_event now t e m a p d) = approval_events d"
  "graphs (append_task_event now t e m a p d) = graphs d"
  "nodes (append_task_event now t e m a p d) = nodes d"
  "dependencies (append_task_event now t e m a p d) = dependencies d"
  "missions (append_task_event now t e m a p d) = missions d"
  "notifications (append_task_event now t e m a p d) = notifications d"
  "graph_events (append_task_event now t e m a p d) = graph_events d"
  "next_uuid (append_task_event now t e m a p d) = next_uuid d"
  "graph_messages (append_task_event now t e m a p d) = graph_messages d"
  "mission_events (append_task_event now t e m a p d) = mission_events d"
  by (simp_all add: append_task_event_def)

lemma append_approval_event_frame [simp]:
  "tasks (snd (append_approval_event now i e a r p d)) = tasks d"
  "approvals (snd (append_approval_event now i e a r p d)) = approvals d"
  "task_events (snd (append_approval_event now i e a r p d)) = task_events d"
  "graphs (snd (append_approval_event now i e a r p d)) = graphs d"
  "nodes (snd (append_approval_event now i e a r p d)) = nodes d"
  "dependencies (snd (append_approval_event now i e a r p d)) = dependencies d"
  "missions (snd (append_approval_event now i e a r p d)) = missions d"
  "notifications (snd (append_approval_event now i e a r p d)) = notifications d"
  "graph_events (snd (append_approval_event now i e a r p d)) = graph_events d"
  "next_uuid (snd (append_approval_event now i e a r p d)) = next_uuid d"
  "graph_messages (snd (append_approval_event now i e a r p d)) = graph_messages d"
  "mission_events (snd (append_approval_event now i e a r p d)) = mission_events d"
  by (simp_all add: append_approval_event_def)

end
