(* ===== verification/Sha256.thy ===== *)
theory Sha256
  imports Prelude "HOL-Library.Word"
begin

text \<open>
  \<open>hashlib.sha256\<close> and \<open>hmac.new(..., hashlib.sha256)\<close> of the Python standard library
  (FIPS 180-4 and RFC 2104, the constants in decimal) on byte lists, and their hexadecimal digests. The services
  bind plans, events, tokens and tickets to these digests.
\<close>

unbundle bit_operations_syntax

type_synonym w32 = "32 word"

definition sha_K :: "w32 list" where
  "sha_K =
    [1116352408, 1899447441, 3049323471, 3921009573, 961987163, 1508970993, 2453635748, 2870763221,
     3624381080, 310598401, 607225278, 1426881987, 1925078388, 2162078206, 2614888103, 3248222580,
     3835390401, 4022224774, 264347078, 604807628, 770255983, 1249150122, 1555081692, 1996064986,
     2554220882, 2821834349, 2952996808, 3210313671, 3336571891, 3584528711, 113926993, 338241895,
     666307205, 773529912, 1294757372, 1396182291, 1695183700, 1986661051, 2177026350, 2456956037,
     2730485921, 2820302411, 3259730800, 3345764771, 3516065817, 3600352804, 4094571909, 275423344,
     430227734, 506948616, 659060556, 883997877, 958139571, 1322822218, 1537002063, 1747873779,
     1955562222, 2024104815, 2227730452, 2361852424, 2428436474, 2756734187, 3204031479, 3329325298]"

definition sha_H0 :: "w32 list" where
  "sha_H0 =
    [1779033703, 3144134277, 1013904242, 2773480762, 1359893119, 2600822924, 528734635, 1541459225]"

definition rotr :: "nat \<Rightarrow> w32 \<Rightarrow> w32" where
  "rotr n x = drop_bit n x OR push_bit (32 - n) x"

definition small_sigma0 :: "w32 \<Rightarrow> w32" where
  "small_sigma0 x = rotr 7 x XOR rotr 18 x XOR drop_bit 3 x"

definition small_sigma1 :: "w32 \<Rightarrow> w32" where
  "small_sigma1 x = rotr 17 x XOR rotr 19 x XOR drop_bit 10 x"

definition big_sigma0 :: "w32 \<Rightarrow> w32" where
  "big_sigma0 x = rotr 2 x XOR rotr 13 x XOR rotr 22 x"

definition big_sigma1 :: "w32 \<Rightarrow> w32" where
  "big_sigma1 x = rotr 6 x XOR rotr 11 x XOR rotr 25 x"

definition choose_bits :: "w32 \<Rightarrow> w32 \<Rightarrow> w32 \<Rightarrow> w32" where
  "choose_bits x y z = (x AND y) XOR (NOT x AND z)"

definition majority_bits :: "w32 \<Rightarrow> w32 \<Rightarrow> w32 \<Rightarrow> w32" where
  "majority_bits x y z = (x AND y) XOR (x AND z) XOR (y AND z)"

text \<open>The message schedule, newest word first: \<open>n\<close> words beyond the first sixteen.\<close>

fun schedule :: "nat \<Rightarrow> w32 list \<Rightarrow> w32 list" where
  "schedule 0 ws = ws"
| "schedule (Suc n) ws =
     schedule n ((small_sigma1 (ws ! 1) + ws ! 6 + small_sigma0 (ws ! 14) + ws ! 15) # ws)"

fun sha_round :: "w32 list \<Rightarrow> w32 \<times> w32 \<Rightarrow> w32 list" where
  "sha_round [a, b, c, d, e, f, g, h] (k, w) =
     (let t1 = h + big_sigma1 e + choose_bits e f g + k + w;
          t2 = big_sigma0 a + majority_bits a b c
      in [t1 + t2, a, b, c, d + t1, e, f, g])"
| "sha_round st kw = st"

definition sha_block :: "w32 list \<Rightarrow> w32 list \<Rightarrow> w32 list" where
  "sha_block st ws =
     map2 (+) st (foldl sha_round st (zip sha_K (rev (schedule 48 (rev ws)))))"

definition word_of_bytes :: "int list \<Rightarrow> w32" where
  "word_of_bytes bs = word_of_int (foldl (\<lambda>acc b. acc * 256 + b) 0 bs)"

fun chunks :: "nat \<Rightarrow> nat \<Rightarrow> 'a list \<Rightarrow> 'a list list" where
  "chunks 0 n xs = []"
| "chunks (Suc k) n xs = take n xs # chunks k n (drop n xs)"

fun big_endian :: "nat \<Rightarrow> int \<Rightarrow> int list" where
  "big_endian 0 n = []"
| "big_endian (Suc len) n = big_endian len (n div 256) @ [n mod 256]"

definition sha_pad :: "int list \<Rightarrow> int list" where
  "sha_pad m =
     m @ [128] @ replicate ((119 - length m mod 64) mod 64) 0 @ big_endian 8 (8 * int (length m))"

definition sha_words :: "int list \<Rightarrow> w32 list" where
  "sha_words m =
     foldl sha_block sha_H0
       (map (\<lambda>blk. map word_of_bytes (chunks 16 4 blk)) (chunks (length m div 64) 64 m))"

definition sha256_bytes :: "int list \<Rightarrow> int list" where
  "sha256_bytes m = concat (map (\<lambda>w. big_endian 4 (uint w)) (sha_words (sha_pad m)))"

text \<open>\<open>bytes.hex()\<close>.\<close>

definition hex_byte :: "int \<Rightarrow> string" where
  "hex_byte b = [digit_char (b div 16), digit_char (b mod 16)]"

definition hex_bytes :: "int list \<Rightarrow> string" where
  "hex_bytes bs = concat (map hex_byte bs)"

text \<open>\<open>str.encode()\<close>: UTF-8 of code points below 256.\<close>

definition utf8 :: "string \<Rightarrow> int list" where
  "utf8 s = concat (map (\<lambda>c. let n = of_char c
     in if n < 128 then [n] else [192 + n div 64, 128 + n mod 64]) s)"

text \<open>\<open>hashlib.sha256(s.encode()).hexdigest()\<close>.\<close>

definition sha256_hex :: "string \<Rightarrow> string" where
  "sha256_hex s = hex_bytes (sha256_bytes (utf8 s))"

text \<open>\<open>hmac.new(key.encode(), msg.encode(), hashlib.sha256).hexdigest()\<close>.\<close>

definition hmac_key :: "int list \<Rightarrow> int list" where
  "hmac_key k =
     (let k' = (if 64 < length k then sha256_bytes k else k)
      in k' @ replicate (64 - length k') 0)"

definition hmac_sha256_hex :: "string \<Rightarrow> string \<Rightarrow> string" where
  "hmac_sha256_hex key msg =
     (let k = hmac_key (utf8 key)
      in hex_bytes (sha256_bytes (map (\<lambda>b. b XOR 92) k
           @ sha256_bytes (map (\<lambda>b. b XOR 54) k @ utf8 msg))))"

text \<open>\<open>hashlib.sha256(json.dumps(v, sort_keys=True, separators=(',', ':')).encode()).hexdigest()\<close>.\<close>

definition digest_json :: "json \<Rightarrow> string" where
  "digest_json v = sha256_hex (dumps v)"

section \<open>The format of digests\<close>

lemma length_sha_round: "length st = 8 \<Longrightarrow> length (sha_round st kw) = 8"
  by (cases "(st, kw)" rule: sha_round.cases) (auto simp: Let_def)

lemma length_sha_rounds: "length st = 8 \<Longrightarrow> length (foldl sha_round st kws) = 8"
  by (induction kws arbitrary: st) (simp_all add: length_sha_round)

lemma length_sha_words: "length (sha_words m) = 8"
proof -
  have "length (foldl sha_block st bs) = 8" if "length st = 8" for st bs
    using that by (induction bs arbitrary: st) (simp_all add: sha_block_def length_sha_rounds)
  moreover have "length sha_H0 = 8" by (simp add: sha_H0_def)
  ultimately show ?thesis by (simp add: sha_words_def)
qed

lemma length_big_endian: "length (big_endian k n) = k"
  by (induction k arbitrary: n) auto

lemma big_endian_byte: "b \<in> set (big_endian k n) \<Longrightarrow> 0 \<le> b \<and> b < 256"
  by (induction k arbitrary: n) auto

lemma length_big_endians: "length (concat (map (\<lambda>w. big_endian 4 (f w)) ws)) = 4 * length ws"
  by (induction ws) (auto simp: length_big_endian)

lemma hex_of_sha256_bytes: "is_sha256_hex (hex_bytes (sha256_bytes m))"
proof -
  have bytes: "length (sha256_bytes m) = 32" "list_all (\<lambda>b. 0 \<le> b \<and> b < 256) (sha256_bytes m)"
    by (auto simp: sha256_bytes_def length_big_endians length_sha_words list_all_iff dest: big_endian_byte)
  have "list_all hex_digit (hex_byte b)" if "0 \<le> b" "b < 256" for b
    using that by (auto simp: hex_byte_def intro!: digit_char_hex)
  then have "list_all hex_digit (hex_bytes bs)" if "list_all (\<lambda>b. 0 \<le> b \<and> b < 256) bs" for bs
    using that by (auto simp: hex_bytes_def list_all_iff)
  moreover have "length (hex_bytes bs) = 2 * length bs" for bs
    by (induction bs) (auto simp: hex_bytes_def hex_byte_def)
  ultimately show ?thesis using bytes by (simp add: is_sha256_hex_def)
qed

lemma sha256_hex_format: "is_sha256_hex (sha256_hex s)"
  by (simp add: sha256_hex_def hex_of_sha256_bytes)

lemma hmac_sha256_hex_format: "is_sha256_hex (hmac_sha256_hex key s)"
  by (simp add: hmac_sha256_hex_def Let_def hex_of_sha256_bytes)

lemma digest_json_format: "is_sha256_hex (digest_json v)"
  by (simp add: digest_json_def sha256_hex_format)

end
