(* ===== verification/Governance.thy ===== *)
theory Governance
  imports Store Sha256
begin

text \<open>
  Approvals of task plans (\<open>services/governance.py\<close>) and the founder notifications they
  raise (\<open>services/founder_notifications.py\<close>). An approval binds one plan digest of one
  task; it is requested, approved or rejected by an actor, may be revoked or expire, is
  consumed by the lease of its task, and is rearmed for the next attempt.

  Every operation takes the instant of the request. \<open>nonce\<close> is the value of
  \<open>secrets.token_urlsafe(32)\<close>.
\<close>

section \<open>Founder notifications\<close>

text \<open>\<open>_insert_once\<close>: the deduplication key is unique, an existing row wins.\<close>

definition insert_once :: "founder_notification \<Rightarrow> db \<Rightarrow> founder_notification \<times> db" where
  "insert_once n d =
     (case get_row fn_deduplication_key (notifications d) (fn_deduplication_key n) of
        Some existing \<Rightarrow> (existing, d)
      | None \<Rightarrow>
          (let n' = n\<lparr>fn_id := next_uuid d\<rparr>
           in (n', d\<lparr>notifications := notifications d @ [n'], next_uuid := Suc (next_uuid d)\<rparr>)))"

definition new_notification ::
  "time \<Rightarrow> string \<Rightarrow> uuid \<Rightarrow> string \<Rightarrow> notification_state \<Rightarrow> dict \<Rightarrow> founder_notification" where
  "new_notification now kind entity_id key state payload =
     \<lparr>fn_id = 0, fn_kind = kind, fn_entity_id = entity_id, fn_deduplication_key = key,
      fn_state = state, fn_payload = payload, fn_acknowledged_by = None,
      fn_acknowledged_at = None, fn_superseded_at = None, fn_created_at = now,
      fn_updated_at = now\<rparr>"

definition approval_key :: "task_approval \<Rightarrow> nat \<Rightarrow> string" where
  "approval_key a generation =
     ''approval:'' @ uuid_str (ap_id a) @ '':'' @ ap_plan_digest a @ '':'' @ nat_str generation"

definition enqueue_approval_gate ::
  "time \<Rightarrow> task_approval \<Rightarrow> task \<Rightarrow> nat \<Rightarrow> db \<Rightarrow> founder_notification \<times> db" where
  "enqueue_approval_gate now a t generation d =
     insert_once
       (new_notification now ''approval_required'' (ap_id a) (approval_key a generation)
          NotificationWaiting
          [(''approval_id'', juuid (ap_id a)),
           (''task_number'', JStr (t_task_number t)),
           (''task_title'', JStr (t_title t)),
           (''operation'', dget (t_input_contract t) ''operation''),
           (''task_type'', JStr (t_task_type t)),
           (''risk_level'', JInt (ap_risk_level a)),
           (''plan_digest'', JStr (ap_plan_digest a)),
           (''blocked_by'', JList [])]) d"

definition enqueue_task_ready ::
  "time \<Rightarrow> task \<Rightarrow> task_approval \<Rightarrow> nat \<Rightarrow> db \<Rightarrow> founder_notification \<times> db" where
  "enqueue_task_ready now t a generation d =
     insert_once
       (new_notification now ''task_ready'' (t_id t)
          (''task-ready:'' @ uuid_str (t_id t) @ '':'' @ uuid_str (ap_id a) @ '':''
             @ nat_str generation)
          NotificationPending
          [(''task_id'', juuid (t_id t)),
           (''task_number'', JStr (t_task_number t)),
           (''task_title'', JStr (t_title t)),
           (''task_type'', JStr (t_task_type t)),
           (''plan_digest'', JStr (t_plan_digest t))]) d"

definition acknowledge_notification ::
  "time \<Rightarrow> founder_notification \<Rightarrow> string \<Rightarrow> founder_notification res" where
  "acknowledge_notification now n delivery_reference =
     (if fn_state n = NotificationAcknowledged then Inr n
      else if fn_state n \<noteq> NotificationPending
      then http 409 ''Notification is no longer active.''
      else Inr (n\<lparr>fn_state := NotificationAcknowledged,
                  fn_acknowledged_by := Some delivery_reference,
                  fn_acknowledged_at := Some now, fn_updated_at := now\<rparr>))"

text \<open>The tasks a task depends on, by the join of \<open>tasks\<close> and \<open>task_dependencies\<close>.\<close>

definition predecessors :: "uuid \<Rightarrow> db \<Rightarrow> task list" where
  "predecessors i d =
     concat (map (\<lambda>e. filter (\<lambda>p. t_id p = td_depends_on_task_id e) (tasks d))
                 (filter (\<lambda>e. td_task_id e = i) (dependencies d)))"

definition approval_readiness ::
  "time \<Rightarrow> task_approval \<Rightarrow> db
     \<Rightarrow> (bool \<times> string list \<times> task \<times> engineering_mission option) res" where
  "approval_readiness now a d =
     (case get_task (ap_task_id a) d of
        None \<Rightarrow> http 409 ''Approval task is unavailable.''
      | Some t \<Rightarrow>
          (let blocked_by =
                 map (\<lambda>p. t_task_number p @ '':'' @ task_status_str (t_status p))
                   (filter (\<lambda>p. t_status p \<noteq> Succeeded) (predecessors (t_id t) d));
               mission = (case t_mission_id t of None \<Rightarrow> None | Some mi \<Rightarrow> get_mission mi d);
               mission_ready =
                 (case mission of
                    None \<Rightarrow> True
                  | Some m \<Rightarrow> m_status m = MissionActive \<and> now < m_deadline_at m)
           in Inr (ap_status a = ApprovalPending \<and> t_status t = PendingApproval
                     \<and> blocked_by = [] \<and> mission_ready,
                   blocked_by, t, mission)))"

section \<open>Approvals\<close>

definition task_plan_digest :: "dict \<Rightarrow> string" where
  "task_plan_digest document = digest_json (JObj document)"

definition approval_scope :: "task \<Rightarrow> dict" where
  "approval_scope t =
     [(''project'', JStr (t_project t)), (''task_type'', JStr (t_task_type t)),
      (''input_contract'', JObj (t_input_contract t))]"

definition create_approval :: "time \<Rightarrow> task \<Rightarrow> db \<Rightarrow> db" where
  "create_approval now t d =
     (let a = \<lparr>ap_id = next_uuid d, ap_task_id = t_id t, ap_status = ApprovalPending,
               ap_plan_digest = t_plan_digest t, ap_risk_level = t_risk_level t,
               ap_scope = approval_scope t, ap_requested_by = t_created_by t,
               ap_decided_by = None, ap_decision_reason = None, ap_nonce_digest = None,
               ap_issued_at = None, ap_expires_at = None, ap_consumed_at = None,
               ap_created_at = now, ap_updated_at = now\<rparr>;
          d1 = d\<lparr>approvals := approvals d @ [a], next_uuid := Suc (next_uuid d)\<rparr>;
          (generation, d2) =
            append_approval_event now (ap_id a) ''approval_requested'' (t_created_by t)
              ''Task requires approval.'' [] d1
      in snd (enqueue_approval_gate now a t generation d2))"

text \<open>The assignments of \<open>approve_task\<close> to the approval row.\<close>

definition grant_approval_row ::
  "time \<Rightarrow> string \<Rightarrow> string \<Rightarrow> string \<Rightarrow> int \<Rightarrow> task_approval \<Rightarrow> task_approval" where
  "grant_approval_row now nonce actor reason secs a =
     a\<lparr>ap_status := ApprovalApproved, ap_decided_by := Some actor,
       ap_decision_reason := Some reason, ap_nonce_digest := Some (sha256_hex nonce),
       ap_issued_at := Some now, ap_expires_at := Some (now + seconds secs),
       ap_updated_at := now\<rparr>"

definition wake_mission :: "time \<Rightarrow> task \<Rightarrow> db \<Rightarrow> db" where
  "wake_mission now t d =
     (case t_mission_id t of
        None \<Rightarrow> d
      | Some mi \<Rightarrow>
          (case get_mission mi d of
             None \<Rightarrow> d
           | Some m \<Rightarrow>
               if m_supervision_enabled m
               then upd_mission mi (\<lambda>m. m\<lparr>m_next_reconcile_at := Some now\<rparr>) d else d))"

definition approve_task ::
  "time \<Rightarrow> string \<Rightarrow> task_approval \<Rightarrow> string \<Rightarrow> string \<Rightarrow> int \<Rightarrow> db \<Rightarrow> db res" where
  "approve_task now nonce a actor reason expires_in_seconds d =
     (if ap_status a \<noteq> ApprovalPending then http 409 ''Approval is not pending.''
      else
        (case get_task (ap_task_id a) d of
           None \<Rightarrow> http 409 ''Task plan digest has changed.''
         | Some t \<Rightarrow>
             if t_plan_digest t \<noteq> ap_plan_digest a
             then http 409 ''Task plan digest has changed.''
             else
               (let d1 = upd_approval (ap_id a)
                           (grant_approval_row now nonce actor reason expires_in_seconds) d;
                    d2 = upd_task (t_id t) (\<lambda>t. t\<lparr>t_status := Queued\<rparr>) d1;
                    d3 = wake_mission now t d2;
                    (generation, d4) =
                      append_approval_event now (ap_id a) ''approval_granted'' actor reason [] d3;
                    d5 = append_task_event now t ''task_ready''
                           ''Approved task is ready for a matching worker.'' None
                           [(''approval_id'', juuid (ap_id a)),
                            (''plan_digest'', JStr (t_plan_digest t))] d4
                in Inr (snd (enqueue_task_ready now t a generation d5)))))"

datatype decision = Reject | Revoke

fun decision_str :: "decision \<Rightarrow> string" where
  "decision_str Reject = ''reject''"
| "decision_str Revoke = ''revoke''"

text \<open>The status an approval must have for the decision, and the one it gets.\<close>

fun decision_from :: "decision \<Rightarrow> approval_status" where
  "decision_from Reject = ApprovalPending"
| "decision_from Revoke = ApprovalApproved"

fun decision_to :: "decision \<Rightarrow> approval_status" where
  "decision_to Reject = ApprovalRejected"
| "decision_to Revoke = ApprovalRevoked"

fun decision_task_status :: "decision \<Rightarrow> task_status" where
  "decision_task_status Reject = Cancelled"
| "decision_task_status Revoke = PendingApproval"

definition decide_task ::
  "time \<Rightarrow> task_approval \<Rightarrow> string \<Rightarrow> string \<Rightarrow> decision \<Rightarrow> db \<Rightarrow> db res" where
  "decide_task now a actor reason action d =
     (if ap_status a \<noteq> decision_from action
      then http 409 (''Approval cannot be '' @ decision_str action @ ''d.'')
      else
        (let d1 = upd_approval (ap_id a)
                    (\<lambda>a. a\<lparr>ap_status := decision_to action, ap_decided_by := Some actor,
                           ap_decision_reason := Some reason, ap_updated_at := now\<rparr>) d;
             d2 = upd_task (ap_task_id a)
                    (\<lambda>t. t\<lparr>t_status := decision_task_status action\<rparr>) d1
         in Inr (snd (append_approval_event now (ap_id a)
                  (''approval_'' @ approval_status_str (decision_to action)) actor reason [] d2))))"

text \<open>
  \<open>consume_task_approval\<close>: the row is assigned even where the approval has expired, but
  the exception that follows discards it.
\<close>

definition consume_task_approval :: "time \<Rightarrow> task \<Rightarrow> db \<Rightarrow> db res" where
  "consume_task_approval now t d =
     (if \<not> t_approval_required t then Inr d
      else
        (case approval_of_task (t_id t) d of
           None \<Rightarrow> http 409 ''Task lacks an approved plan.''
         | Some a \<Rightarrow>
             if ap_status a \<noteq> ApprovalApproved then http 409 ''Task lacks an approved plan.''
             else
               (case ap_expires_at a of
                  None \<Rightarrow> http 409 ''Task approval expired.''
                | Some e \<Rightarrow>
                    if e \<le> now then http 409 ''Task approval expired.''
                    else
                      Inr (snd (append_approval_event now (ap_id a) ''approval_consumed''
                             ''control-plane'' ''Approval consumed by task lease.''
                             [(''attempt_number'', JInt (t_attempt_count t + 1))]
                             (upd_approval (ap_id a)
                                (\<lambda>a. a\<lparr>ap_status := ApprovalConsumed,
                                       ap_consumed_at := Some now, ap_updated_at := now\<rparr>)
                                d))))))"

definition approval_lapsed :: "time \<Rightarrow> task_approval \<Rightarrow> bool" where
  "approval_lapsed now a =
     (ap_status a = ApprovalApproved \<and>
      (case ap_expires_at a of None \<Rightarrow> False | Some e \<Rightarrow> e \<le> now))"

definition expire_approval :: "time \<Rightarrow> task_approval \<Rightarrow> db \<Rightarrow> db" where
  "expire_approval now a d =
     (let d1 = upd_approval (ap_id a)
                 (\<lambda>a. a\<lparr>ap_status := ApprovalExpired, ap_updated_at := now\<rparr>) d;
          d2 = upd_task (ap_task_id a)
                 (\<lambda>t. if t_status t = Queued then t\<lparr>t_status := PendingApproval\<rparr> else t) d1
      in snd (append_approval_event now (ap_id a) ''approval_expired'' ''control-plane''
               ''Approval expired.'' [] d2))"

definition expire_approvals :: "time \<Rightarrow> db \<Rightarrow> nat \<times> db" where
  "expire_approvals now d =
     (let lapsed = filter (approval_lapsed now) (approvals d)
      in (length lapsed, fold (expire_approval now) lapsed d))"

text \<open>The assignments of \<open>rearm_task_approval\<close> to the approval row.\<close>

definition rearm_row :: "time \<Rightarrow> task_approval \<Rightarrow> task_approval" where
  "rearm_row now a =
     a\<lparr>ap_status := ApprovalPending, ap_decided_by := None, ap_decision_reason := None,
       ap_nonce_digest := None, ap_issued_at := None, ap_expires_at := None,
       ap_consumed_at := None, ap_updated_at := now\<rparr>"

text \<open>Open notifications of the previous approval round are superseded.\<close>

definition supersede_notifications :: "time \<Rightarrow> uuid \<Rightarrow> db \<Rightarrow> db" where
  "supersede_notifications now approval_id d =
     d\<lparr>notifications :=
         upd_rows
           (\<lambda>n. fn_kind n = ''approval_required'' \<and> fn_entity_id n = approval_id
                \<and> fn_state n \<in> {NotificationPending, NotificationWaiting})
           (\<lambda>n. n\<lparr>fn_state := NotificationSuperseded, fn_superseded_at := Some now,
                  fn_updated_at := now\<rparr>)
           (notifications d)\<rparr>"

definition rearm_task_approval :: "time \<Rightarrow> task \<Rightarrow> string \<Rightarrow> db \<Rightarrow> db res" where
  "rearm_task_approval now t reason d =
     (if \<not> t_approval_required t
      then Inr (upd_task (t_id t) (\<lambda>t. t\<lparr>t_status := Queued\<rparr>) d)
      else
        (case approval_of_task (t_id t) d of
           None \<Rightarrow> http 409 ''Task approval is missing.''
         | Some a \<Rightarrow>
             (let d1 = upd_approval (ap_id a) (rearm_row now) d;
                  d2 = upd_task (t_id t) (\<lambda>t. t\<lparr>t_status := PendingApproval\<rparr>) d1;
                  d3 = supersede_notifications now (ap_id a) d2;
                  (generation, d4) =
                    append_approval_event now (ap_id a) ''approval_requested'' ''control-plane''
                      reason [(''attempt_count'', JInt (t_attempt_count t))] d3
              in Inr (snd (enqueue_approval_gate now a t generation d4)))))"

end
