(* ===== verification/Controls.thy ===== *)
theory Controls
  imports Store "HOL-Library.Product_Lexorder"
begin

text \<open>
  Operator pauses (\<open>services/controls.py\<close>, \<open>routes/controls.py\<close>). A scope is global,
  a machine, an agent or a workflow; a paused scope keeps matching agents from leasing
  work, a paused workflow keeps matching tasks from being leased.
\<close>

section \<open>Definitions\<close>

definition GLOBAL_SCOPE_KEY :: string where
  "GLOBAL_SCOPE_KEY = ''all''"

definition AUTONOMOUS_RESEARCH_SCOPE_KEY :: string where
  "AUTONOMOUS_RESEARCH_SCOPE_KEY = ''autonomous-research''"

definition AUTONOMOUS_RESEARCH_TASK_TYPES :: "string list" where
  "AUTONOMOUS_RESEARCH_TASK_TYPES =
     [''alpha_data_admission'', ''alpha_discovery'', ''alpha_research_execution'',
      ''alpha_strategy_review'', ''founder_hypothesis_intake'']"

definition task_matches_control_scope :: "control_scope \<Rightarrow> task \<Rightarrow> bool" where
  "task_matches_control_scope s t =
     (if cs_scope_type s \<noteq> ''workflow'' \<or> cs_scope_key s \<noteq> AUTONOMOUS_RESEARCH_SCOPE_KEY
      then False
      else if t_task_type t \<in> set AUTONOMOUS_RESEARCH_TASK_TYPES then True
      else t_task_type t = ''engineering_mission'' \<and> t_project t = ''bulletproof_bt''
           \<and> t_created_by t = ''alpha-campaign-director'')"

definition matching_control_scopes :: "agent \<Rightarrow> db \<Rightarrow> control_scope list" where
  "matching_control_scopes ag d =
     sort_key (\<lambda>s. (cs_scope_type s, cs_scope_key s))
       (filter (\<lambda>s. cs_is_paused s \<and>
          (cs_scope_type s = ''global'' \<and> cs_scope_key s = GLOBAL_SCOPE_KEY
           \<or> cs_scope_type s = ''machine'' \<and> cs_scope_key s = a_machine ag
           \<or> cs_scope_type s = ''agent'' \<and> cs_scope_key s = a_slug ag))
        (control_scopes d))"

definition paused_workflow_scopes :: "db \<Rightarrow> control_scope list" where
  "paused_workflow_scopes d =
     sort_key cs_scope_key
       (filter (\<lambda>s. cs_is_paused s \<and> cs_scope_type s = ''workflow'') (control_scopes d))"

definition scope_id :: "control_scope \<Rightarrow> string \<times> string" where
  "scope_id s = (cs_scope_type s, cs_scope_key s)"

definition set_control_scope ::
  "time \<Rightarrow> string \<Rightarrow> string \<Rightarrow> bool \<Rightarrow> string \<Rightarrow> string \<Rightarrow> db \<Rightarrow> control_event \<times> db" where
  "set_control_scope now scope_type scope_key paused reason actor d =
     (let existing = get_row scope_id (control_scopes d) (scope_type, scope_key);
          previous = (case existing of None \<Rightarrow> False | Some s \<Rightarrow> cs_is_paused s);
          d1 = (case existing of
                  None \<Rightarrow>
                    d\<lparr>control_scopes := control_scopes d @
                        [\<lparr>cs_id = next_serial d, cs_scope_type = scope_type,
                          cs_scope_key = scope_key, cs_is_paused = paused,
                          cs_reason = Some reason, cs_updated_by = actor,
                          cs_created_at = now\<rparr>],
                      next_serial := Suc (next_serial d)\<rparr>
                | Some s \<Rightarrow>
                    d\<lparr>control_scopes :=
                        upd_row scope_id (scope_type, scope_key)
                          (\<lambda>s. s\<lparr>cs_is_paused := paused, cs_reason := Some reason,
                                 cs_updated_by := actor\<rparr>) (control_scopes d)\<rparr>);
          event =
            \<lparr>ce_id = next_serial d1, ce_scope_type = scope_type, ce_scope_key = scope_key,
             ce_event_type = (if paused then ''control_paused'' else ''control_resumed''),
             ce_actor = actor, ce_reason = reason,
             ce_payload = [(''previous_paused'', JBool previous), (''paused'', JBool paused)],
             ce_created_at = now\<rparr>
      in (event,
          d1\<lparr>control_events := control_events d1 @ [event], next_serial := Suc (next_serial d1)\<rparr>))"

text \<open>\<open>routes/controls.py: _mutate\<close>: the key of a global scope is fixed.\<close>

definition mutate_control ::
  "time \<Rightarrow> string \<Rightarrow> string \<Rightarrow> bool \<Rightarrow> string \<Rightarrow> string \<Rightarrow> db \<Rightarrow> control_event \<times> db" where
  "mutate_control now scope_type scope_key paused reason actor d =
     set_control_scope now scope_type
       (if scope_type = ''global'' then GLOBAL_SCOPE_KEY else scope_key) paused reason actor d"

text \<open>Whether a scope is paused, as an operator reads it.\<close>

definition scope_paused :: "string \<times> string \<Rightarrow> db \<Rightarrow> bool" where
  "scope_paused k d =
     (case get_row scope_id (control_scopes d) k of None \<Rightarrow> False | Some s \<Rightarrow> cs_is_paused s)"

section \<open>Properties\<close>

lemma control_scopes_set_control_scope:
  "control_scopes (snd (set_control_scope now ty k p r a d)) =
     (if get_row scope_id (control_scopes d) (ty, k) = None
      then control_scopes d @
        [\<lparr>cs_id = next_serial d, cs_scope_type = ty, cs_scope_key = k, cs_is_paused = p,
          cs_reason = Some r, cs_updated_by = a, cs_created_at = now\<rparr>]
      else upd_row scope_id (ty, k)
        (\<lambda>s. s\<lparr>cs_is_paused := p, cs_reason := Some r, cs_updated_by := a\<rparr>) (control_scopes d))"
  by (simp add: set_control_scope_def Let_def split: option.split)

lemma scope_id_simps [simp]:
  "scope_id (s\<lparr>cs_is_paused := p, cs_reason := r, cs_updated_by := a\<rparr>) = scope_id s"
  by (simp add: scope_id_def)

lemma scope_paused_set [simp]:
  "scope_paused k' (snd (set_control_scope now ty k p r a d)) =
     (if k' = (ty, k) then p else scope_paused k' d)"
proof (cases "get_row scope_id (control_scopes d) (ty, k)")
  case None
  then show ?thesis
    by (auto simp: scope_paused_def control_scopes_set_control_scope get_row_append
        scope_id_def split: option.splits)
next
  case (Some s)
  then show ?thesis
    by (auto simp: scope_paused_def control_scopes_set_control_scope get_row_upd_row
        split: option.splits)
qed

lemma distinct_set_control_scope:
  "distinct (map scope_id (control_scopes d)) \<Longrightarrow>
   distinct (map scope_id (control_scopes (snd (set_control_scope now ty k p r a d))))"
  by (auto simp: control_scopes_set_control_scope get_row_None_iff scope_id_def)

lemma matching_iff:
  assumes "distinct (map scope_id (control_scopes d))"
  shows "matching_control_scopes ag d \<noteq> [] \<longleftrightarrow>
    scope_paused (''global'', GLOBAL_SCOPE_KEY) d \<or> scope_paused (''machine'', a_machine ag) d
    \<or> scope_paused (''agent'', a_slug ag) d"
proof -
  have paused: "scope_paused k d \<longleftrightarrow> (\<exists>s \<in> set (control_scopes d). scope_id s = k \<and> cs_is_paused s)"
    for k
    using get_row_in[OF assms] get_row_Some_in[of scope_id "control_scopes d"]
    by (fastforce simp: scope_paused_def split: option.splits)
  have "matching_control_scopes ag d \<noteq> [] \<longleftrightarrow> set (matching_control_scopes ag d) \<noteq> {}"
    by simp
  also have "\<dots> \<longleftrightarrow> (\<exists>s \<in> set (control_scopes d). cs_is_paused s \<and>
      (scope_id s = (''global'', GLOBAL_SCOPE_KEY) \<or> scope_id s = (''machine'', a_machine ag)
       \<or> scope_id s = (''agent'', a_slug ag)))"
    by (auto simp: matching_control_scopes_def scope_id_def)
  finally show ?thesis unfolding paused by blast
qed

end
