(* ===== verification/HashChain.thy ===== *)
theory HashChain
  imports Sha256
begin

text \<open>
  Hash-chained event logs. Task graphs, capability grants and evaluation routes each keep
  an append-only log per owner in which an event carries its sequence number, the digest
  of its predecessor and the digest of its own document. \<open>chained_log\<close> is the contract
  of such a log; the component theories interpret it on their event rows.
\<close>

section \<open>Chains\<close>

text \<open>
  \<open>linked prev seq dig doc p n es\<close>: the events continue a chain whose last digest is
  \<open>p\<close> and whose next sequence number is \<open>n\<close>.
\<close>

fun linked ::
  "('e \<Rightarrow> string option) \<Rightarrow> ('e \<Rightarrow> nat) \<Rightarrow> ('e \<Rightarrow> string) \<Rightarrow> ('e \<Rightarrow> json)
     \<Rightarrow> string option \<Rightarrow> nat \<Rightarrow> 'e list \<Rightarrow> bool" where
  "linked prev seq dig doc p n [] = True"
| "linked prev seq dig doc p n (e # es) =
     (prev e = p \<and> seq e = n \<and> dig e = digest_json (doc e)
      \<and> linked prev seq dig doc (Some (dig e)) (Suc n) es)"

definition last_digest :: "('e \<Rightarrow> string) \<Rightarrow> string option \<Rightarrow> 'e list \<Rightarrow> string option" where
  "last_digest dig p es = (if es = [] then p else Some (dig (last es)))"

text \<open>What the services compute for the next event from the row with the greatest sequence.\<close>

definition next_sequence :: "('e \<Rightarrow> nat) \<Rightarrow> 'e list \<Rightarrow> nat" where
  "next_sequence seq es = (case max_row seq es of None \<Rightarrow> 0 | Some e \<Rightarrow> seq e) + 1"

definition previous_digest :: "('e \<Rightarrow> nat) \<Rightarrow> ('e \<Rightarrow> string) \<Rightarrow> 'e list \<Rightarrow> string option" where
  "previous_digest seq dig es = map_option dig (max_row seq es)"

section \<open>Lemmas on chains\<close>

lemma linked_append:
  "linked prev seq dig doc p n (es @ fs) \<longleftrightarrow>
     linked prev seq dig doc p n es
     \<and> linked prev seq dig doc (last_digest dig p es) (n + length es) fs"
  by (induction es arbitrary: p n) (auto simp: last_digest_def)

lemma linked_nth:
  assumes "linked prev seq dig doc p n es" and "k < length es"
  shows "dig (es ! k) = digest_json (doc (es ! k)) \<and> prev (es ! k) = (if k = 0 then p else Some (dig (es ! (k - 1))))"
  using assms
proof (induction es arbitrary: p n k)
  case (Cons e es)
  from Cons.prems(1) have e: "prev e = p" "dig e = digest_json (doc e)"
    and es: "linked prev seq dig doc (Some (dig e)) (Suc n) es"
    by (metis linked.simps(2))+
  show ?case
  proof (cases k)
    case 0
    then show ?thesis using e by simp
  next
    case (Suc j)
    then show ?thesis using Cons.IH[OF es, of j] Cons.prems(2) by (auto simp: nth_Cons')
  qed
qed simp

lemma linked_seq_le:
  "linked prev seq dig doc p n es \<Longrightarrow> e \<in> set es \<Longrightarrow> seq e < n + length es"
  by (induction es arbitrary: p n) fastforce+

lemma linked_last_seq:
  "linked prev seq dig doc p n es \<Longrightarrow> es \<noteq> [] \<Longrightarrow> Suc (seq (last es)) = n + length es"
proof (induction es arbitrary: p n)
  case (Cons e es)
  then have l: "linked prev seq dig doc (Some (dig e)) (Suc n) es" and n: "seq e = n"
    by (metis linked.simps(2))+
  from Cons.IH[OF l] n show ?case by (cases "es = []") auto
qed simp

lemma linked_max_row:
  assumes "linked prev seq dig doc p n es"
  shows "max_row seq es = (if es = [] then None else Some (last es))"
  using assms
proof (induction es arbitrary: p n)
  case Nil
  then show ?case by simp
next
  case (Cons e es)
  show ?case
  proof (cases "es = []")
    case True
    then show ?thesis by simp
  next
    case False
    from Cons.prems have l: "linked prev seq dig doc (Some (dig e)) (Suc n) es" and "seq e = n"
      by (metis linked.simps(2))+
    moreover from linked_last_seq[OF l False] False have "n < seq (last es)"
      by (cases es) auto
    moreover from Cons.IH[OF l] False have "max_row seq es = Some (last es)" by simp
    ultimately show ?thesis using False by simp
  qed
qed

lemma linked_next_sequence:
  "linked prev seq dig doc p 1 es \<Longrightarrow> next_sequence seq es = Suc (length es)"
  using linked_last_seq[of prev seq dig doc p 1 es] linked_max_row[of prev seq dig doc p 1 es]
  by (auto simp: next_sequence_def)

lemma linked_previous_digest:
  "linked prev seq dig doc None n es \<Longrightarrow> previous_digest seq dig es = last_digest dig None es"
  using linked_max_row[of prev seq dig doc None n es]
  by (auto simp: previous_digest_def last_digest_def)

text \<open>
  Two chains that end in the same digest have the same documents from the end backwards,
  unless the hash collides on two of their texts.
\<close>

lemma linked_same_text:
  assumes "linked prev seq dig doc p n es" and "linked prev seq dig doc q m fs"
    and "inj_on sha256_hex ((\<lambda>e. dumps (doc e)) ` (set es \<union> set fs))"
    and "e \<in> set es" and "f \<in> set fs" and "dig e = dig f"
  shows "dumps (doc e) = dumps (doc f)"
proof -
  have own: "dig e = digest_json (doc e)"
    if "linked prev seq dig doc p n es" "e \<in> set es" for p n es e
    using that by (induction es arbitrary: p n) auto
  have "sha256_hex (dumps (doc e)) = sha256_hex (dumps (doc f))"
    using own[OF assms(1,4)] own[OF assms(2,5)] assms(6) by (simp add: digest_json_def)
  then show ?thesis using assms(3-5) by (auto dest: inj_onD)
qed

section \<open>The contract of a chained log\<close>

locale chained_log =
  fixes rows :: "'d \<Rightarrow> 'e list"
    and owner :: "'e \<Rightarrow> uuid"
    and seq :: "'e \<Rightarrow> nat"
    and prev :: "'e \<Rightarrow> string option"
    and dig :: "'e \<Rightarrow> string"
    and doc :: "'e \<Rightarrow> json"
    and append :: "'a \<Rightarrow> 'd \<Rightarrow> 'd"
    and target :: "'a \<Rightarrow> uuid"
  assumes append_row: "\<exists>e. rows (append x d) = rows d @ [e] \<and> owner e = target x
      \<and> seq e = next_sequence seq (filter (\<lambda>r. owner r = target x) (rows d))
      \<and> prev e = previous_digest seq dig (filter (\<lambda>r. owner r = target x) (rows d))
      \<and> dig e = digest_json (doc e)"
begin

definition chain_of :: "uuid \<Rightarrow> 'd \<Rightarrow> 'e list" where
  "chain_of i d = filter (\<lambda>r. owner r = i) (rows d)"

definition chain_ok :: "uuid \<Rightarrow> 'd \<Rightarrow> bool" where
  "chain_ok i d = linked prev seq dig doc None 1 (chain_of i d)"

text \<open>Appending extends the log and nothing else of it.\<close>

lemma append_prefix: "prefix (rows d) (rows (append x d))"
  using append_row[of x d] by auto

lemma append_other: "i \<noteq> target x \<Longrightarrow> chain_of i (append x d) = chain_of i d"
  using append_row[of x d] by (auto simp: chain_of_def)

text \<open>A valid chain stays valid: of the owner appended to and of every other owner.\<close>

lemma append_chain_ok:
  assumes "chain_ok i d"
  shows "chain_ok i (append x d)"
proof (cases "i = target x")
  case False
  then show ?thesis using assms append_other[of i x d] by (simp add: chain_ok_def)
next
  case True
  obtain e where e: "rows (append x d) = rows d @ [e]" "owner e = target x"
    "seq e = next_sequence seq (chain_of i d)" "prev e = previous_digest seq dig (chain_of i d)"
    "dig e = digest_json (doc e)"
    using append_row[of x d] True by (auto simp: chain_of_def)
  have l: "linked prev seq dig doc None 1 (chain_of i d)"
    using assms by (simp add: chain_ok_def)
  have "chain_of i (append x d) = chain_of i d @ [e]"
    using e True by (simp add: chain_of_def)
  then show ?thesis
    using l e linked_next_sequence[OF l] linked_previous_digest[OF l]
    by (simp add: chain_ok_def linked_append)
qed

end

end
