(* ===== verification/AgentGovernance.thy ===== *)
theory AgentGovernance
  imports Store HashChain
begin

text \<open>
  Agent charters and capability grants (\<open>services/agent_governance.py\<close>,
  \<open>schemas/agent_governance.py\<close>): a charter bounds what an agent may be granted, a grant
  names one capability under an active charter and a deployed role package, and
  \<open>resolve\<close> decides whether an agent may act on a task now. Grants keep a
  hash-chained event log.

  \<open>dump_time\<close> is pydantic's JSON text of a datetime (\<open>model_dump(mode="json")\<close>).
\<close>

section \<open>Request documents\<close>

text \<open>The pattern \<open>SAFE\<close> of \<open>schemas/agent_governance.py\<close>: \<open>^[a-z0-9][a-z0-9_-]*$\<close>.\<close>

definition safe_start :: "char \<Rightarrow> bool" where
  "safe_start c = (CHR ''a'' \<le> c \<and> c \<le> CHR ''z'' \<or> CHR ''0'' \<le> c \<and> c \<le> CHR ''9'')"

definition safe_name :: "string \<Rightarrow> bool" where
  "safe_name s =
     (case s of
        [] \<Rightarrow> False
      | c # cs \<Rightarrow>
          safe_start c \<and> list_all (\<lambda>x. safe_start x \<or> x = CHR ''_'' \<or> x = CHR ''-'') cs)"

record effective_authority_request =
  ar_capability :: string
  ar_machine :: string
  ar_task_type :: string
  ar_repository :: "string option"
  ar_risk_level :: int

text \<open>The validation of \<open>EffectiveAuthorityRequest\<close>.\<close>

definition valid_authority_request :: "effective_authority_request \<Rightarrow> bool" where
  "valid_authority_request q =
     (safe_name (ar_capability q) \<and> safe_name (ar_machine q) \<and> safe_name (ar_task_type q)
      \<and> 0 \<le> ar_risk_level q \<and> ar_risk_level q \<le> 5)"

record agent_charter_create =
  cc_agent_id :: uuid
  cc_version :: string
  cc_manifest :: charter_manifest
  cc_manifest_digest :: string
  cc_created_by :: string

record grant_create =
  gc_agent_id :: uuid
  gc_charter_id :: uuid
  gc_package_id :: uuid
  gc_capability :: string
  gc_machine :: string
  gc_task_types :: "string list"
  gc_repositories :: "string list"
  gc_risk_ceiling :: int
  gc_accountable_owner :: string
  gc_granted_by :: string
  gc_reason :: string
  gc_expires_at :: time

text \<open>The model validator \<open>distinct_authority\<close> of \<open>AgentCapabilityGrantCreate\<close>.\<close>

definition distinct_authority :: "grant_create \<Rightarrow> bool" where
  "distinct_authority p = (gc_granted_by p \<noteq> gc_accountable_owner p)"

definition charter_manifest_json :: "charter_manifest \<Rightarrow> json" where
  "charter_manifest_json m = JObj
     [(''schema_version'', JStr (cm_schema_version m)),
      (''role'', JStr (cm_role m)),
      (''responsibilities'', jstrs (cm_responsibilities m)),
      (''capabilities'', jstrs (cm_capabilities m)),
      (''allowed_machines'', jstrs (cm_allowed_machines m)),
      (''allowed_task_types'', jstrs (cm_allowed_task_types m)),
      (''allowed_repositories'', jstrs (cm_allowed_repositories m)),
      (''risk_ceiling'', JInt (cm_risk_ceiling m)),
      (''accountable_owner'', JStr (cm_accountable_owner m)),
      (''conflicts'', jstrs (cm_conflicts m)),
      (''forbidden_actions'', jstrs (cm_forbidden_actions m))]"

definition grant_create_json :: "(time \<Rightarrow> string) \<Rightarrow> grant_create \<Rightarrow> json" where
  "grant_create_json dump_time p = JObj
     [(''agent_id'', juuid (gc_agent_id p)),
      (''charter_id'', juuid (gc_charter_id p)),
      (''package_id'', juuid (gc_package_id p)),
      (''capability'', JStr (gc_capability p)),
      (''machine'', JStr (gc_machine p)),
      (''task_types'', jstrs (gc_task_types p)),
      (''repositories'', jstrs (gc_repositories p)),
      (''risk_ceiling'', JInt (gc_risk_ceiling p)),
      (''accountable_owner'', JStr (gc_accountable_owner p)),
      (''granted_by'', JStr (gc_granted_by p)),
      (''reason'', JStr (gc_reason p)),
      (''expires_at'', JStr (dump_time (gc_expires_at p)))]"

section \<open>Charters\<close>

definition create_charter ::
  "time \<Rightarrow> agent_charter_create \<Rightarrow> db \<Rightarrow> (agent_charter \<times> db) res" where
  "create_charter now p d =
     (case get_agent (cc_agent_id p) d of
        None \<Rightarrow> http 404 ''Agent not found.''
      | Some ag \<Rightarrow>
          (let m = cc_manifest p in
           if digest_json (charter_manifest_json m) \<noteq> cc_manifest_digest p
           then http 422 ''Charter manifest digest mismatch.''
           else if a_machine ag \<notin> set (cm_allowed_machines m)
           then http 422 ''Charter does not allow the registered machine.''
           else if \<not> set (cm_capabilities m) \<subseteq> set (a_capabilities ag)
           then http 422 ''Charter exceeds registered agent capabilities.''
           else if a_risk_ceiling ag < cm_risk_ceiling m
           then http 422 ''Charter exceeds registered agent risk ceiling.''
           else if list_ex (\<lambda>c. ch_agent_id c = cc_agent_id p \<and> ch_version c = cc_version p
                     \<or> ch_manifest_digest c = cc_manifest_digest p) (charters d)
           then Inl IntegrityError
           else
             (let c = \<lparr>ch_id = next_uuid d, ch_agent_id = cc_agent_id p,
                       ch_version = cc_version p, ch_manifest = m,
                       ch_manifest_digest = cc_manifest_digest p, ch_status = CharterDraft,
                       ch_created_by = cc_created_by p, ch_created_at = now,
                       ch_activated_by = None, ch_activated_at = None,
                       ch_supersedes_id = None\<rparr>
              in Inr (c, d\<lparr>charters := charters d @ [c], next_uuid := Suc (next_uuid d)\<rparr>))))"

section \<open>Grant events\<close>

definition grant_event_doc :: "agent_grant_event \<Rightarrow> json" where
  "grant_event_doc e = JObj
     [(''grant_id'', juuid (gv_grant_id e)), (''sequence'', JInt (int (gv_sequence e))),
      (''event_type'', JStr (gv_event_type e)), (''actor'', JStr (gv_actor e)),
      (''payload'', gv_payload e),
      (''prior_event_digest'', option_json JStr (gv_prior_event_digest e))]"

text \<open>\<open>_event\<close>.\<close>

definition grant_event ::
  "time \<times> uuid \<times> string \<times> string \<times> json \<Rightarrow> db \<Rightarrow> db" where
  "grant_event x d =
     (case x of (now, grant_id, event_type, actor, payload) \<Rightarrow>
       (let log = filter (\<lambda>e. gv_grant_id e = grant_id) (grant_events d);
            e = \<lparr>gv_id = next_uuid d, gv_grant_id = grant_id,
                 gv_sequence = next_sequence gv_sequence log, gv_event_type = event_type,
                 gv_actor = actor, gv_payload = payload,
                 gv_prior_event_digest = previous_digest gv_sequence gv_event_digest log,
                 gv_event_digest = '''', gv_created_at = now\<rparr>
        in d\<lparr>grant_events := grant_events d @ [e\<lparr>gv_event_digest := digest_json (grant_event_doc e)\<rparr>],
             next_uuid := Suc (next_uuid d)\<rparr>))"

definition revoke_grant ::
  "time \<Rightarrow> agent_capability_grant \<Rightarrow> string \<Rightarrow> string \<Rightarrow> db \<Rightarrow> db" where
  "revoke_grant now g actor reason d =
     (if gr_status g \<noteq> GrantActive then d
      else
        grant_event (now, gr_id g, ''revoked'', actor, JObj [(''reason'', JStr reason)])
          (upd_grant (gr_id g)
             (\<lambda>g. g\<lparr>gr_status := GrantRevoked, gr_revoked_by := Some actor,
                    gr_revoked_at := Some now, gr_revocation_reason := Some reason\<rparr>) d))"

definition activate_charter ::
  "time \<Rightarrow> agent_charter \<Rightarrow> string \<Rightarrow> db \<Rightarrow> db res" where
  "activate_charter now c actor d =
     (if ch_status c = CharterActive then Inr d
      else if ch_status c \<noteq> CharterDraft
      then http 409 ''Only a draft charter can be activated.''
      else
        (let d1 =
               (case List.find (\<lambda>p. ch_agent_id p = ch_agent_id c \<and> ch_status p = CharterActive)
                       (charters d) of
                  None \<Rightarrow> d
                | Some previous \<Rightarrow>
                    fold (\<lambda>g. revoke_grant now g actor ''charter superseded'')
                      (filter (\<lambda>g. gr_charter_id g = ch_id previous \<and> gr_status g = GrantActive)
                         (grants d))
                      (upd_charter (ch_id c) (\<lambda>c. c\<lparr>ch_supersedes_id := Some (ch_id previous)\<rparr>)
                        (upd_charter (ch_id previous)
                           (\<lambda>p. p\<lparr>ch_status := CharterSuperseded\<rparr>) d)))
         in Inr (upd_charter (ch_id c)
                   (\<lambda>c. c\<lparr>ch_status := CharterActive, ch_activated_by := Some actor,
                          ch_activated_at := Some now\<rparr>) d1)))"

section \<open>Grants\<close>

text \<open>The checks of a grant against the charter, in order, each with its message.\<close>

definition grant_checks :: "grant_create \<Rightarrow> agent \<Rightarrow> charter_manifest \<Rightarrow> (bool \<times> string) list" where
  "grant_checks p ag m =
     [(gc_capability p \<in> set (cm_capabilities m), ''Capability is outside the charter.''),
      (gc_machine p = a_machine ag \<and> gc_machine p \<in> set (cm_allowed_machines m),
       ''Machine is outside the charter.''),
      (set (gc_task_types p) \<subseteq> set (cm_allowed_task_types m),
       ''Task type is outside the charter.''),
      (set (gc_repositories p) \<subseteq> set (cm_allowed_repositories m),
       ''Repository is outside the charter.''),
      (gc_risk_ceiling p \<le> cm_risk_ceiling m, ''Risk exceeds the charter.''),
      (gc_accountable_owner p = cm_accountable_owner m,
       ''Accountable owner differs from the charter.''),
      (gc_capability p \<notin> set (cm_conflicts m), ''Capability has a declared conflict.''),
      (gc_capability p \<notin> set (cm_forbidden_actions m),
       ''Capability is prohibited by the charter.'')]"

fun first_failure :: "(bool \<times> string) list \<Rightarrow> string option" where
  "first_failure [] = None"
| "first_failure ((ok, msg) # cs) = (if ok then first_failure cs else Some msg)"

definition create_grant ::
  "(time \<Rightarrow> string) \<Rightarrow> time \<Rightarrow> grant_create \<Rightarrow> db \<Rightarrow> (agent_capability_grant \<times> db) res" where
  "create_grant dump_time now p d =
     (case (get_charter (gc_charter_id p) d, get_agent (gc_agent_id p) d) of
        (Some c, Some ag) \<Rightarrow>
          if ch_agent_id c \<noteq> gc_agent_id p \<or> ch_status c \<noteq> CharterActive
          then http 409 ''An active charter for this agent is required.''
          else if gc_expires_at p \<le> now
          then http 422 ''Grant expiry must be in the future.''
          else
            (case first_failure (grant_checks p ag (ch_manifest c)) of
               Some msg \<Rightarrow> http 422 msg
             | None \<Rightarrow>
                 (case get_package (gc_package_id p) d of
                    None \<Rightarrow> http 409 ''An active role-package deployment is required.''
                  | Some pk \<Rightarrow>
                      if \<not> list_ex (\<lambda>x. pd_agent_id x = a_id ag \<and> pd_package_id x = gc_package_id p
                                \<and> pd_is_active x) (deployments d)
                      then http 409 ''An active role-package deployment is required.''
                      else if gc_capability p \<notin> set (pm_required_capabilities (rp_manifest pk))
                           \<or> \<not> set (gc_task_types p) \<subseteq> set (pm_task_types (rp_manifest pk))
                      then http 422 ''Grant exceeds the active role package.''
                      else
                        (let record_doc = grant_create_json dump_time p;
                             rd = digest_json record_doc;
                             g = \<lparr>gr_id = next_uuid d, gr_agent_id = gc_agent_id p,
                                  gr_charter_id = gc_charter_id p,
                                  gr_package_id = gc_package_id p,
                                  gr_capability = gc_capability p, gr_machine = gc_machine p,
                                  gr_task_types = gc_task_types p,
                                  gr_repositories = gc_repositories p,
                                  gr_risk_ceiling = gc_risk_ceiling p,
                                  gr_accountable_owner = gc_accountable_owner p,
                                  gr_status = GrantActive, gr_granted_by = gc_granted_by p,
                                  gr_reason = gc_reason p, gr_expires_at = gc_expires_at p,
                                  gr_revoked_by = None, gr_revoked_at = None,
                                  gr_revocation_reason = None, gr_record_digest = rd,
                                  gr_created_at = now\<rparr>
                         in if rd \<in> gr_record_digest ` set (grants d) then Inl IntegrityError
                            else
                              Inr (g, grant_event (now, gr_id g, ''granted'', gc_granted_by p, record_doc)
                                     (d\<lparr>grants := grants d @ [g],
                                        next_uuid := Suc (next_uuid d)\<rparr>)))))
      | _ \<Rightarrow> http 409 ''An active charter for this agent is required.'')"

section \<open>Effective authority\<close>

text \<open>\<open>_active_package\<close>: the package of the agent's latest active deployment.\<close>

definition active_package :: "uuid \<Rightarrow> db \<Rightarrow> role_package option" where
  "active_package agent_id d =
     map_option fst (max_row snd
       (concat (map (\<lambda>x. map (\<lambda>p. (p, pd_deployed_at x))
                          (filter (\<lambda>p. rp_id p = pd_package_id x) (packages d)))
                    (filter (\<lambda>x. pd_agent_id x = agent_id \<and> pd_is_active x) (deployments d)))))"

definition active_charter :: "uuid \<Rightarrow> db \<Rightarrow> agent_charter option" where
  "active_charter agent_id d =
     List.find (\<lambda>c. ch_agent_id c = agent_id \<and> ch_status c = CharterActive) (charters d)"

definition active_grant :: "uuid \<Rightarrow> string \<Rightarrow> role_package option \<Rightarrow> db \<Rightarrow> agent_capability_grant option" where
  "active_grant agent_id capability package d =
     max_row gr_created_at
       (filter (\<lambda>g. gr_agent_id g = agent_id \<and> gr_capability g = capability
                   \<and> gr_status g = GrantActive
                   \<and> (case package of None \<Rightarrow> True | Some p \<Rightarrow> gr_package_id g = rp_id p))
          (grants d))"

text \<open>\<open>repository_access_required and request.repository and request.repository not in allowed\<close>.\<close>

definition repository_outside :: "effective_authority_request \<Rightarrow> string list \<Rightarrow> bool" where
  "repository_outside q allowed =
     (\<not> (ar_capability q = ''founder-intake'' \<and> ar_task_type q = ''founder_request'')
      \<and> (case ar_repository q of None \<Rightarrow> False | Some r \<Rightarrow> r \<noteq> '''' \<and> r \<notin> set allowed))"

definition agent_mismatch :: "effective_authority_request \<Rightarrow> agent \<Rightarrow> bool" where
  "agent_mismatch q ag =
     (a_machine ag \<noteq> ar_machine q \<or> ar_capability q \<notin> set (a_capabilities ag)
      \<or> a_risk_ceiling ag < ar_risk_level q)"

definition charter_violation :: "effective_authority_request \<Rightarrow> charter_manifest \<Rightarrow> bool" where
  "charter_violation q m =
     (ar_capability q \<notin> set (cm_capabilities m) \<or> ar_machine q \<notin> set (cm_allowed_machines m)
      \<or> ar_task_type q \<notin> set (cm_allowed_task_types m) \<or> cm_risk_ceiling m < ar_risk_level q
      \<or> repository_outside q (cm_allowed_repositories m))"

definition charter_prohibits :: "effective_authority_request \<Rightarrow> charter_manifest \<Rightarrow> bool" where
  "charter_prohibits q m =
     (ar_capability q \<in> set (cm_conflicts m) \<or> ar_capability q \<in> set (cm_forbidden_actions m))"

definition package_violation :: "effective_authority_request \<Rightarrow> package_manifest \<Rightarrow> bool" where
  "package_violation q m =
     (ar_capability q \<notin> set (pm_required_capabilities m)
      \<or> ar_machine q \<notin> set (pm_allowed_machines m)
      \<or> ar_task_type q \<notin> set (pm_task_types m) \<or> pm_risk_ceiling m < ar_risk_level q
      \<or> repository_outside q (pm_repositories m))"

definition grant_violation :: "effective_authority_request \<Rightarrow> agent_capability_grant \<Rightarrow> bool" where
  "grant_violation q g =
     (ar_machine q \<noteq> gr_machine g \<or> ar_task_type q \<notin> set (gr_task_types g)
      \<or> gr_risk_ceiling g < ar_risk_level q \<or> repository_outside q (gr_repositories g))"

definition resolve_reasons ::
  "time \<Rightarrow> effective_authority_request \<Rightarrow> agent option \<Rightarrow> agent_charter option
     \<Rightarrow> role_package option \<Rightarrow> agent_capability_grant option \<Rightarrow> string list" where
  "resolve_reasons now q ag c p g =
     (case ag of None \<Rightarrow> [''agent-disabled-or-missing'']
      | Some a \<Rightarrow> if \<not> a_is_enabled a then [''agent-disabled-or-missing''] else [])
     @ (if c = None then [''active-charter-missing''] else [])
     @ (if p = None then [''active-package-missing''] else [])
     @ (if g = None then [''active-grant-missing''] else [])
     @ (case ag of None \<Rightarrow> []
        | Some a \<Rightarrow> if agent_mismatch q a then [''agent-registration-mismatch''] else [])
     @ (case c of None \<Rightarrow> []
        | Some c \<Rightarrow>
            (if charter_violation q (ch_manifest c) then [''charter-boundary-violation''] else [])
            @ (if charter_prohibits q (ch_manifest c)
               then [''charter-conflict-or-prohibition''] else []))
     @ (case p of None \<Rightarrow> []
        | Some p \<Rightarrow>
            if package_violation q (rp_manifest p) then [''package-boundary-violation''] else [])
     @ (case g of None \<Rightarrow> []
        | Some g \<Rightarrow>
            (if (case p of None \<Rightarrow> True | Some p \<Rightarrow> gr_package_id g \<noteq> rp_id p)
             then [''grant-package-mismatch''] else [])
            @ (if gr_expires_at g \<le> now then [''grant-expired''] else [])
            @ (if grant_violation q g then [''grant-boundary-violation''] else []))"

record effective_authority =
  ef_agent_id :: uuid
  ef_allowed :: bool
  ef_reasons :: "string list"
  ef_accountable_owner :: "string option"
  ef_charter_digest :: "string option"
  ef_package_digest :: "string option"
  ef_grant_digest :: "string option"
  ef_resolved_at :: time
  ef_snapshot_digest :: string

definition authority_result_json :: "effective_authority \<Rightarrow> json" where
  "authority_result_json r = JObj
     [(''agent_id'', juuid (ef_agent_id r)), (''allowed'', JBool (ef_allowed r)),
      (''reasons'', jstrs (ef_reasons r)),
      (''accountable_owner'', option_json JStr (ef_accountable_owner r)),
      (''charter_digest'', option_json JStr (ef_charter_digest r)),
      (''package_digest'', option_json JStr (ef_package_digest r)),
      (''grant_digest'', option_json JStr (ef_grant_digest r)),
      (''resolved_at'', JStr (datetime_str (ef_resolved_at r)))]"

definition resolve ::
  "time \<Rightarrow> uuid \<Rightarrow> effective_authority_request \<Rightarrow> db \<Rightarrow> effective_authority" where
  "resolve now agent_id q d =
     (let ag = get_agent agent_id d;
          c = active_charter agent_id d;
          p = active_package agent_id d;
          g = active_grant agent_id (ar_capability q) p d;
          reasons = resolve_reasons now q ag c p g;
          result =
            \<lparr>ef_agent_id = agent_id, ef_allowed = (reasons = []),
             ef_reasons = sorted_set reasons,
             ef_accountable_owner = map_option gr_accountable_owner g,
             ef_charter_digest = map_option ch_manifest_digest c,
             ef_package_digest = map_option rp_manifest_digest p,
             ef_grant_digest = map_option gr_record_digest g,
             ef_resolved_at = now, ef_snapshot_digest = ''''\<rparr>
      in result\<lparr>ef_snapshot_digest := digest_json (authority_result_json result)\<rparr>)"

section \<open>The grant log is a hash chain\<close>

definition grant_chain_ok :: "uuid \<Rightarrow> db \<Rightarrow> bool" where
  "grant_chain_ok i d =
     linked gv_prior_event_digest gv_sequence gv_event_digest grant_event_doc None 1
       (filter (\<lambda>e. gv_grant_id e = i) (grant_events d))"

lemma grant_event_doc_digest [simp]:
  "grant_event_doc (e\<lparr>gv_event_digest := x\<rparr>) = grant_event_doc e"
  by (simp add: grant_event_doc_def)

interpretation grant_log: chained_log grant_events gv_grant_id gv_sequence
  gv_prior_event_digest gv_event_digest grant_event_doc grant_event "\<lambda>x. fst (snd x)"
  by unfold_locales (auto simp: grant_event_def grant_event_doc_def Let_def split: prod.split)

lemma grant_chain_ok_eq: "grant_chain_ok i d = grant_log.chain_ok i d"
  by (simp add: grant_chain_ok_def grant_log.chain_ok_def grant_log.chain_of_def)

lemma grant_event_frame [simp]:
  "grants (grant_event x d) = grants d" "charters (grant_event x d) = charters d"
  "agents (grant_event x d) = agents d" "packages (grant_event x d) = packages d"
  "deployments (grant_event x d) = deployments d"
  by (cases x, simp add: grant_event_def Let_def)+

lemma upd_grant_frame [simp]:
  "charters (upd_grant i f d) = charters d" "grant_events (upd_grant i f d) = grant_events d"
  "grants (upd_grant i f d) = upd_row gr_id i f (grants d)"
  by (simp_all add: upd_grant_def)

lemma upd_charter_frame [simp]:
  "grants (upd_charter i f d) = grants d" "grant_events (upd_charter i f d) = grant_events d"
  "charters (upd_charter i f d) = upd_row ch_id i f (charters d)"
  by (simp_all add: upd_charter_def)

section \<open>Revocation\<close>

text \<open>The assignments of \<open>revoke_grant\<close>.\<close>

definition revoked_row :: "time \<Rightarrow> string \<Rightarrow> string \<Rightarrow> agent_capability_grant \<Rightarrow> agent_capability_grant" where
  "revoked_row now actor reason g =
     g\<lparr>gr_status := GrantRevoked, gr_revoked_by := Some actor, gr_revoked_at := Some now,
       gr_revocation_reason := Some reason\<rparr>"

lemma gr_fields_revoked_row [simp]:
  "gr_id (revoked_row now actor reason g) = gr_id g"
  "gr_status (revoked_row now actor reason g) = GrantRevoked"
  "gr_charter_id (revoked_row now actor reason g) = gr_charter_id g"
  by (simp_all add: revoked_row_def)

lemma grants_revoke_grant:
  "grants (revoke_grant now g actor reason d) =
     (if gr_status g = GrantActive
      then upd_row gr_id (gr_id g) (revoked_row now actor reason) (grants d) else grants d)"
  by (simp add: revoke_grant_def revoked_row_def[abs_def])

lemma charters_revoke_grant [simp]: "charters (revoke_grant now g actor reason d) = charters d"
  by (simp add: revoke_grant_def)

lemma charters_fold_revoke [simp]:
  "charters (fold (\<lambda>g. revoke_grant now g actor reason) gs d) = charters d"
  by (induction gs arbitrary: d) simp_all

definition no_active_grant :: "uuid \<Rightarrow> db \<Rightarrow> bool" where
  "no_active_grant i d = list_all (\<lambda>g. gr_id g = i \<longrightarrow> gr_status g = GrantRevoked) (grants d)"

lemma no_active_grant_revoke_grant:
  "no_active_grant i d \<Longrightarrow> no_active_grant i (revoke_grant now g actor reason d)"
  by (auto simp: no_active_grant_def list_all_iff grants_revoke_grant upd_row_def)

lemma revoke_grant_no_active:
  "gr_status g = GrantActive \<Longrightarrow> no_active_grant (gr_id g) (revoke_grant now g actor reason d)"
  by (auto simp: no_active_grant_def list_all_iff grants_revoke_grant upd_row_def)

lemma fold_revoke_keeps:
  "no_active_grant i d \<Longrightarrow> no_active_grant i (fold (\<lambda>g. revoke_grant now g actor reason) gs d)"
  by (induction gs arbitrary: d) (simp_all add: no_active_grant_revoke_grant)

lemma fold_revoke_revokes:
  assumes "g \<in> set gs" and "gr_status g = GrantActive"
  shows "no_active_grant (gr_id g) (fold (\<lambda>g. revoke_grant now g actor reason) gs d)"
proof -
  obtain xs ys where "gs = xs @ g # ys" using assms(1) by (meson split_list)
  then show ?thesis
    using assms(2) by (simp add: fold_revoke_keeps revoke_grant_no_active)
qed

lemma revoke_grant_origin:
  assumes "g \<in> set (grants (revoke_grant now x actor reason d))"
  shows "\<exists>h \<in> set (grants d). gr_id h = gr_id g \<and> gr_charter_id h = gr_charter_id g
      \<and> (gr_status g = GrantActive \<longrightarrow> gr_status h = GrantActive)"
  using assms by (force simp: grants_revoke_grant upd_row_def split: if_splits)

lemma fold_revoke_origin:
  "g \<in> set (grants (fold (\<lambda>g. revoke_grant now g actor reason) gs d)) \<Longrightarrow>
   \<exists>h \<in> set (grants d). gr_id h = gr_id g \<and> gr_charter_id h = gr_charter_id g
      \<and> (gr_status g = GrantActive \<longrightarrow> gr_status h = GrantActive)"
proof (induction gs arbitrary: d)
  case Nil
  then show ?case by auto
next
  case (Cons x gs)
  then obtain h where h: "h \<in> set (grants (revoke_grant now x actor reason d))"
    "gr_id h = gr_id g" "gr_charter_id h = gr_charter_id g"
    "gr_status g = GrantActive \<longrightarrow> gr_status h = GrantActive"
    by fastforce
  from revoke_grant_origin[OF h(1)] h(2-4) show ?case by auto
qed

section \<open>One active charter\<close>

text \<open>Primary keys are distinct and an agent has at most one active charter.\<close>

definition single_active :: "db \<Rightarrow> bool" where
  "single_active d = (distinct (map ch_id (charters d)) \<and>
     (\<forall>c \<in> set (charters d). \<forall>c' \<in> set (charters d).
        ch_status c = CharterActive \<and> ch_status c' = CharterActive \<and> ch_agent_id c = ch_agent_id c'
          \<longrightarrow> ch_id c = ch_id c'))"

lemma active_charter_Some:
  assumes "active_charter i d = Some p"
  shows "p \<in> set (charters d)" "ch_agent_id p = i" "ch_status p = CharterActive"
  using assms by (auto simp: active_charter_def find_Some_iff)

lemma active_charter_None:
  "active_charter i d = None \<longleftrightarrow>
     (\<forall>c \<in> set (charters d). \<not> (ch_agent_id c = i \<and> ch_status c = CharterActive))"
  by (auto simp: active_charter_def find_None_iff)

text \<open>What an activation of \<open>c\<close> that supersedes \<open>p\<close> does to one row.\<close>

definition activated_row ::
  "time \<Rightarrow> agent_charter \<Rightarrow> string \<Rightarrow> agent_charter option \<Rightarrow> agent_charter \<Rightarrow> agent_charter" where
  "activated_row now c actor p x =
     (if ch_id x = ch_id c
      then x\<lparr>ch_status := CharterActive, ch_activated_by := Some actor, ch_activated_at := Some now,
             ch_supersedes_id := (case p of None \<Rightarrow> ch_supersedes_id x | Some p \<Rightarrow> Some (ch_id p))\<rparr>
      else if (case p of None \<Rightarrow> False | Some p \<Rightarrow> ch_id x = ch_id p)
      then x\<lparr>ch_status := CharterSuperseded\<rparr> else x)"

lemma activated_row_keys [simp]:
  "ch_id (activated_row now c actor p x) = ch_id x"
  "ch_agent_id (activated_row now c actor p x) = ch_agent_id x"
  by (simp_all add: activated_row_def)

lemma activated_row_active:
  assumes "ch_status (activated_row now c actor p x) = CharterActive" and "ch_id x \<noteq> ch_id c"
  shows "ch_status x = CharterActive" and "\<forall>q. p = Some q \<longrightarrow> ch_id x \<noteq> ch_id q"
  using assms by (auto simp: activated_row_def split: option.splits if_splits)

lemma charters_activate_charter:
  assumes "activate_charter now c actor d = Inr d'" and "ch_status c = CharterDraft"
  shows "charters d' =
    map (activated_row now c actor (active_charter (ch_agent_id c) d)) (charters d)"
proof (cases "active_charter (ch_agent_id c) d")
  case None
  then have "charters d' = upd_row ch_id (ch_id c)
      (\<lambda>c. c\<lparr>ch_status := CharterActive, ch_activated_by := Some actor, ch_activated_at := Some now\<rparr>)
      (charters d)"
    using assms by (auto simp: activate_charter_def active_charter_def)
  then show ?thesis by (simp add: upd_row_def activated_row_def None)
next
  case (Some p)
  then have "charters d' = upd_row ch_id (ch_id c)
      (\<lambda>c. c\<lparr>ch_status := CharterActive, ch_activated_by := Some actor, ch_activated_at := Some now\<rparr>)
      (upd_row ch_id (ch_id c) (\<lambda>c. c\<lparr>ch_supersedes_id := Some (ch_id p)\<rparr>)
           (upd_row ch_id (ch_id p) (\<lambda>p. p\<lparr>ch_status := CharterSuperseded\<rparr>) (charters d)))"
    using assms by (auto simp: activate_charter_def active_charter_def)
  then show ?thesis by (simp add: upd_row_def activated_row_def Some o_def)
qed

lemma activated_row_origin:
  assumes "single_active d" and "get_charter (ch_id c) d = Some c" and "x \<in> set (charters d)"
    and "ch_status (activated_row now c actor (active_charter (ch_agent_id c) d) x) = CharterActive"
  shows "x = c \<or> ch_status x = CharterActive \<and> ch_agent_id x \<noteq> ch_agent_id c"
proof (cases "ch_id x = ch_id c")
  case True
  moreover have "c \<in> set (charters d)"
    using assms(2) get_row_Some_in by (fastforce simp: get_charter_def)
  ultimately show ?thesis
    using assms(1,3) by (metis distinct_map inj_onD single_active_def)
next
  case False
  note act = activated_row_active[OF assms(4) False]
  have "ch_agent_id x \<noteq> ch_agent_id c"
  proof
    assume eq: "ch_agent_id x = ch_agent_id c"
    then obtain p where p: "active_charter (ch_agent_id c) d = Some p"
      using act(1) assms(3) by (metis active_charter_None option.exhaust)
    then show False
      using act eq assms(1,3) active_charter_Some[OF p] by (metis single_active_def)
  qed
  then show ?thesis using act(1) by simp
qed

text \<open> Activating a charter keeps at most one active charter per agent: the one activated
  replaces the active one of its agent.
\<close>

theorem activate_charter_single_active:
  assumes "single_active d" and "get_charter (ch_id c) d = Some c"
    and "activate_charter now c actor d = Inr d'"
  shows "single_active d'"
proof (cases "ch_status c = CharterDraft")
  case False
  then show ?thesis
    using assms by (cases "ch_status c") (auto simp: activate_charter_def)
next
  case True
  note rows = charters_activate_charter[OF assms(3) True]
  note origin = activated_row_origin[OF assms(1,2)]
  show ?thesis
    unfolding single_active_def rows
    using assms(1) origin
    by (auto simp: o_def) (metis single_active_def)+
qed

text \<open> When a charter is superseded, every grant that was issued under it is revoked, so
  none of them is active after the activation.
\<close>

theorem activate_charter_revokes_grants:
  assumes "activate_charter now c actor d = Inr d'" and "ch_status c = CharterDraft"
    and "active_charter (ch_agent_id c) d = Some p"
    and "g \<in> set (grants d')" and "gr_charter_id g = ch_id p"
  shows "gr_status g = GrantRevoked"
proof (rule ccontr)
  let ?gs = "filter (\<lambda>g. gr_charter_id g = ch_id p \<and> gr_status g = GrantActive) (grants d)"
  let ?d = "upd_charter (ch_id c) (\<lambda>c. c\<lparr>ch_supersedes_id := Some (ch_id p)\<rparr>)
      (upd_charter (ch_id p) (\<lambda>p. p\<lparr>ch_status := CharterSuperseded\<rparr>) d)"
  let ?fold = "fold (\<lambda>g. revoke_grant now g actor ''charter superseded'') ?gs ?d"
  have g: "g \<in> set (grants ?fold)"
    using assms(1-4) by (auto simp: activate_charter_def active_charter_def)
  assume "gr_status g \<noteq> GrantRevoked"
  then have act: "gr_status g = GrantActive" by (cases "gr_status g") auto
  from fold_revoke_origin[OF g] act assms(5)
  obtain h where h: "h \<in> set ?gs" "gr_id h = gr_id g" by auto
  then have "gr_status h = GrantActive" by simp
  from fold_revoke_revokes[OF h(1) this] have "no_active_grant (gr_id g) ?fold"
    unfolding h(2) .
  then have "gr_status g = GrantRevoked"
    using g unfolding no_active_grant_def list_all_iff by blast
  with act show False by simp
qed

section \<open>Effective authority\<close>

lemma ef_allowed_resolve:
  "ef_allowed (resolve now agent_id q d) \<longleftrightarrow>
     resolve_reasons now q (get_agent agent_id d) (active_charter agent_id d)
       (active_package agent_id d)
       (active_grant agent_id (ar_capability q) (active_package agent_id d) d) = []"
  by (simp add: resolve_def Let_def)

text \<open>The grant that \<open>resolve\<close> reads is an active row of the agent for the capability.\<close>

lemma active_grant_Some:
  assumes "active_grant i cap p d = Some g"
  shows "g \<in> set (grants d)" "gr_agent_id g = i" "gr_capability g = cap" "gr_status g = GrantActive"
    "case p of None \<Rightarrow> True | Some p \<Rightarrow> gr_package_id g = rp_id p"
  using max_row_Some_in[OF assms[unfolded active_grant_def]] by auto

lemma allowed_rows:
  assumes "gr_package_id g = rp_id p"
  shows "resolve_reasons now q (Some a) (Some c) (Some p) (Some g) = [] \<longleftrightarrow>
    a_is_enabled a \<and> \<not> agent_mismatch q a
      \<and> \<not> charter_violation q (ch_manifest c) \<and> \<not> charter_prohibits q (ch_manifest c)
      \<and> \<not> package_violation q (rp_manifest p) \<and> now < gr_expires_at g \<and> \<not> grant_violation q g"
  using assms by (simp add: resolve_reasons_def not_le)

lemmas violation_defs = agent_mismatch_def charter_violation_def charter_prohibits_def
  package_violation_def grant_violation_def

text \<open>
  (C3) A request is allowed exactly when the agent is registered and enabled, the charter,
  the package and a grant for that package are all active and current, and the machine, the
  capability, the task type, the risk level and the repository of the request stay inside the
  registration, the charter, the package and the grant: the risk level is at most the least of
  the four ceilings.
\<close>

theorem resolve_allowed_iff:
  "ef_allowed (resolve now agent_id q d) \<longleftrightarrow>
     (\<exists>a c p g. get_agent agent_id d = Some a \<and> active_charter agent_id d = Some c
        \<and> active_package agent_id d = Some p
        \<and> active_grant agent_id (ar_capability q) (Some p) d = Some g
        \<and> a_is_enabled a \<and> now < gr_expires_at g
        \<and> ar_machine q = a_machine a \<and> ar_machine q = gr_machine g
        \<and> ar_machine q \<in> set (cm_allowed_machines (ch_manifest c)) \<inter> set (pm_allowed_machines (rp_manifest p))
        \<and> ar_capability q \<in> set (a_capabilities a) \<inter> set (cm_capabilities (ch_manifest c))
            \<inter> set (pm_required_capabilities (rp_manifest p))
        \<and> ar_capability q \<notin> set (cm_conflicts (ch_manifest c)) \<union> set (cm_forbidden_actions (ch_manifest c))
        \<and> ar_task_type q \<in> set (cm_allowed_task_types (ch_manifest c)) \<inter> set (pm_task_types (rp_manifest p))
            \<inter> set (gr_task_types g)
        \<and> ar_risk_level q \<le> Min {a_risk_ceiling a, cm_risk_ceiling (ch_manifest c),
            pm_risk_ceiling (rp_manifest p), gr_risk_ceiling g}
        \<and> list_all (\<lambda>rs. \<not> repository_outside q rs) [cm_allowed_repositories (ch_manifest c),
            pm_repositories (rp_manifest p), gr_repositories g])"
proof (cases "\<exists>a c p g. get_agent agent_id d = Some a \<and> active_charter agent_id d = Some c
    \<and> active_package agent_id d = Some p \<and> active_grant agent_id (ar_capability q) (Some p) d = Some g")
  case True
  then obtain a c p g where rows: "get_agent agent_id d = Some a" "active_charter agent_id d = Some c"
      "active_package agent_id d = Some p" "active_grant agent_id (ar_capability q) (Some p) d = Some g"
    by blast
  moreover have "gr_package_id g = rp_id p" using active_grant_Some(5)[OF rows(4)] by simp
  ultimately show ?thesis by (auto simp: ef_allowed_resolve allowed_rows violation_defs not_less)
next
  case False
  then have "\<not> ef_allowed (resolve now agent_id q d)"
    by (auto simp: ef_allowed_resolve resolve_reasons_def split: option.splits)
  then show ?thesis using False by blast
qed

lemma first_failure_None: "first_failure cs = None \<longleftrightarrow> list_all fst cs"
  by (induction cs rule: first_failure.induct) auto

text \<open> A grant that is created lies inside the active charter of its agent and inside the
  deployed package, expires in the future, and is recorded active under the digest of the
  request.
\<close>

theorem create_grant_bounded:
  assumes "create_grant dump_time now p d = Inr (g, d')"
  shows "\<exists>c ag pk. get_charter (gc_charter_id p) d = Some c \<and> ch_status c = CharterActive
      \<and> ch_agent_id c = gr_agent_id g \<and> get_agent (gr_agent_id g) d = Some ag
      \<and> get_package (gr_package_id g) d = Some pk
      \<and> gr_capability g \<in> set (cm_capabilities (ch_manifest c))
      \<and> gr_capability g \<in> set (pm_required_capabilities (rp_manifest pk))
      \<and> gr_capability g \<notin> set (cm_conflicts (ch_manifest c))
      \<and> gr_capability g \<notin> set (cm_forbidden_actions (ch_manifest c))
      \<and> gr_machine g = a_machine ag \<and> gr_machine g \<in> set (cm_allowed_machines (ch_manifest c))
      \<and> set (gr_task_types g) \<subseteq> set (cm_allowed_task_types (ch_manifest c))
          \<inter> set (pm_task_types (rp_manifest pk))
      \<and> set (gr_repositories g) \<subseteq> set (cm_allowed_repositories (ch_manifest c))
      \<and> gr_risk_ceiling g \<le> cm_risk_ceiling (ch_manifest c)
      \<and> now < gr_expires_at g \<and> gr_status g = GrantActive
      \<and> gr_record_digest g \<notin> gr_record_digest ` set (grants d)
      \<and> grants d' = grants d @ [g]"
  using assms
  by (auto simp: create_grant_def Let_def first_failure_None grant_checks_def not_le not_less
      split: option.splits if_splits)

section \<open>The grant log stays a valid chain\<close>

lemma grant_chain_ok_cong: "grant_events d = grant_events d' \<Longrightarrow> grant_chain_ok i d = grant_chain_ok i d'"
  by (simp add: grant_chain_ok_def)

lemma grant_chain_ok_event: "grant_chain_ok i d \<Longrightarrow> grant_chain_ok i (grant_event x d)"
  by (simp add: grant_chain_ok_eq grant_log.append_chain_ok)

lemma grant_chain_ok_upd_charter [simp]: "grant_chain_ok i (upd_charter k f d) = grant_chain_ok i d"
  by (rule grant_chain_ok_cong) simp

lemma grant_chain_ok_revoke:
  assumes "grant_chain_ok i d"
  shows "grant_chain_ok i (revoke_grant now g actor reason d)"
proof -
  have "grant_chain_ok i (upd_grant k f d)" for k f
    using assms by (simp add: grant_chain_ok_cong[of "upd_grant k f d" d])
  then show ?thesis using assms by (simp add: revoke_grant_def grant_chain_ok_event)
qed

lemma grant_chain_ok_fold_revoke:
  "grant_chain_ok i d \<Longrightarrow> grant_chain_ok i (fold (\<lambda>g. revoke_grant now g actor reason) gs d)"
  by (induction gs arbitrary: d) (simp_all add: grant_chain_ok_revoke)

lemma grant_chain_ok_create_grant:
  assumes "grant_chain_ok i d" and "create_grant dump_time now p d = Inr (g, d')"
  shows "grant_chain_ok i d'"
proof -
  have "\<exists>x d1. d' = grant_event x d1 \<and> grant_events d1 = grant_events d"
    using assms(2)
    by (auto simp: create_grant_def Let_def intro!: exI split: option.splits if_splits)
  then show ?thesis using assms(1) grant_chain_ok_cong grant_chain_ok_event by metis
qed

text \<open>
  The operations on charters and grants, as steps of the database.
\<close>

inductive grant_step :: "(time \<Rightarrow> string) \<Rightarrow> db \<Rightarrow> db \<Rightarrow> bool" for dump_time where
  create_charter: "create_charter now pc d = Inr (c, d') \<Longrightarrow> grant_step dump_time d d'"
| activate: "activate_charter now c actor d = Inr d' \<Longrightarrow> grant_step dump_time d d'"
| create_grant: "create_grant dump_time now pg d = Inr (g, d') \<Longrightarrow> grant_step dump_time d d'"
| revoke: "grant_step dump_time d (revoke_grant now g actor reason d)"

lemma grant_step_chain_ok: "grant_step dump_time d d' \<Longrightarrow> grant_chain_ok i d \<Longrightarrow> grant_chain_ok i d'"
proof (induction rule: grant_step.induct)
  case (create_charter now pc d c d')
  then have "grant_events d' = grant_events d"
    by (auto simp: create_charter_def Let_def split: option.splits if_splits)
  then show ?case using create_charter.prems by (simp add: grant_chain_ok_cong[of d' d])
next
  case (activate now c actor d d')
  then show ?case
    by (auto simp: activate_charter_def grant_chain_ok_fold_revoke split: if_splits option.splits)
qed (auto intro: grant_chain_ok_create_grant grant_chain_ok_revoke)

text \<open> The log of every grant is a valid hash chain after any sequence of charter and grant
  operations that starts from an empty log: sequence numbers count from 1 without a gap,
  and each event carries the digest of its own document and of its predecessor.
\<close>

theorem grant_log_chain:
  assumes "(grant_step dump_time)\<^sup>*\<^sup>* d d'" and "grant_events d = []"
  shows "grant_chain_ok i d'"
  using assms
proof (induction rule: rtranclp_induct)
  case base
  then show ?case by (simp add: grant_chain_ok_def)
next
  case (step e e')
  then show ?case by (blast intro: grant_step_chain_ok)
qed

end
