(* ===== verification/EvaluatorRouting.thy ===== *)
theory EvaluatorRouting
  imports Store HashChain "HOL-Library.Product_Lexorder"
begin

text \<open>
  Independent evaluators (\<open>services/evaluator_routing.py\<close>): evaluator profiles derived
  from the agent registry, the greedy choice of one evaluator per review kind under hard
  separation and a correlation ceiling, the hash-chained log of a route, the completion of
  assignments and the receipt that asserts independence.

  An identity is the JSON object the code compares field by field. Where the code leaves
  the order of a query open, the rows come in insertion order.
\<close>

section \<open>Identities\<close>

record producer_identity =
  pi_actor :: string
  pi_agent_id :: "uuid option"
  pi_machine :: string
  pi_provider :: string
  pi_model_family :: string
  pi_runtime :: string
  pi_context_group :: string
  pi_package_digest :: string

text \<open>\<open>ProducerIdentity.model_dump(mode="json")\<close>.\<close>

definition producer_json :: "producer_identity \<Rightarrow> dict" where
  "producer_json p =
     [(''actor'', JStr (pi_actor p)), (''agent_id'', option_json juuid (pi_agent_id p)),
      (''machine'', JStr (pi_machine p)), (''provider'', JStr (pi_provider p)),
      (''model_family'', JStr (pi_model_family p)), (''runtime'', JStr (pi_runtime p)),
      (''context_group'', JStr (pi_context_group p)),
      (''package_digest'', JStr (pi_package_digest p))]"

text \<open>\<open>_profile_identity\<close>.\<close>

definition profile_identity :: "evaluator_profile \<Rightarrow> dict" where
  "profile_identity p =
     [(''agent_id'', juuid (ep_agent_id p)), (''machine'', JStr (ep_machine p)),
      (''provider'', JStr (ep_provider p)), (''model_family'', JStr (ep_model_family p)),
      (''runtime'', JStr (ep_runtime p)), (''context_group'', JStr (ep_context_group p)),
      (''package_digest'', JStr (ep_package_digest p)),
      (''profile_digest'', JStr (ep_profile_digest p))]"

definition CORRELATION_DIMENSIONS :: "string list" where
  "CORRELATION_DIMENSIONS = [''machine'', ''provider'', ''model_family'', ''runtime'']"

definition HARD_SEPARATION :: "string list" where
  "HARD_SEPARATION = [''agent_id'', ''package_digest'', ''context_group'']"

text \<open>\<open>_hard_conflicts\<close>.\<close>

definition hard_conflicts :: "dict \<Rightarrow> dict \<Rightarrow> string list" where
  "hard_conflicts first second =
     filter (\<lambda>f. truthy (dget first f) \<and> json_eq (dget first f) (dget second f)) HARD_SEPARATION"

record correlation =
  co_shared_dimensions :: "string list"
  co_hard_conflicts :: "string list"

definition co_count :: "correlation \<Rightarrow> int" where
  "co_count c = int (length (co_shared_dimensions c))"

definition correlation_json :: "correlation \<Rightarrow> json" where
  "correlation_json c = JObj
     [(''shared_dimensions'', jstrs (co_shared_dimensions c)),
      (''shared_dimension_count'', JInt (co_count c)),
      (''hard_conflicts'', jstrs (co_hard_conflicts c))]"

text \<open>\<open>_correlation\<close>.\<close>

definition correlate :: "dict \<Rightarrow> dict \<Rightarrow> correlation" where
  "correlate first second =
     \<lparr>co_shared_dimensions =
        filter (\<lambda>f. json_eq (dget first f) (dget second f)) CORRELATION_DIMENSIONS,
      co_hard_conflicts = hard_conflicts first second\<rparr>"

text \<open>\<open>"/".join(filter(None, [agent.runtime, agent.runtime_version]))\<close>.\<close>

definition agent_runtime :: "agent \<Rightarrow> string" where
  "agent_runtime a =
     join ''/'' (filter (\<lambda>s. s \<noteq> '''')
       (concat (map (\<lambda>v. case v of None \<Rightarrow> [] | Some s \<Rightarrow> [s])
          [a_runtime a, a_runtime_version a])))"

section \<open>The log of a route\<close>

definition route_event_doc :: "evaluation_route_event \<Rightarrow> json" where
  "route_event_doc e = JObj
     [(''route_id'', juuid (ev_route_id e)), (''sequence'', JInt (int (ev_sequence e))),
      (''event_type'', JStr (ev_event_type e)), (''actor'', JStr (ev_actor e)),
      (''payload'', JObj (ev_payload e)),
      (''previous_digest'', option_json JStr (ev_previous_digest e))]"

text \<open>\<open>append_event\<close>.\<close>

definition append_route_event ::
  "time \<times> uuid \<times> string \<times> string \<times> dict \<Rightarrow> db \<Rightarrow> db" where
  "append_route_event x d =
     (case x of (now, route_id, kind, actor, payload) \<Rightarrow>
       (let log = filter (\<lambda>e. ev_route_id e = route_id) (route_events d);
            e = \<lparr>ev_id = next_serial d, ev_route_id = route_id,
                 ev_sequence = next_sequence ev_sequence log, ev_event_type = kind,
                 ev_actor = actor, ev_payload = payload,
                 ev_previous_digest = previous_digest ev_sequence ev_event_digest log,
                 ev_event_digest = '''', ev_created_at = now\<rparr>
        in d\<lparr>route_events := route_events d
               @ [e\<lparr>ev_event_digest := digest_json (route_event_doc e)\<rparr>],
             next_serial := Suc (next_serial d)\<rparr>))"

section \<open>Profiles\<close>

record evaluator_profile_create =
  pc_agent_id :: uuid
  pc_profile_version :: string
  pc_review_kinds :: "string list"
  pc_capabilities :: "string list"
  pc_provider :: string
  pc_model_family :: string
  pc_context_group :: string
  pc_registered_by :: string

definition profile_create_json :: "evaluator_profile_create \<Rightarrow> dict" where
  "profile_create_json p =
     [(''agent_id'', juuid (pc_agent_id p)), (''profile_version'', JStr (pc_profile_version p)),
      (''review_kinds'', jstrs (pc_review_kinds p)), (''capabilities'', jstrs (pc_capabilities p)),
      (''provider'', JStr (pc_provider p)), (''model_family'', JStr (pc_model_family p)),
      (''context_group'', JStr (pc_context_group p)),
      (''registered_by'', JStr (pc_registered_by p))]"

text \<open>The first row of the join of the agent's active deployments with their packages.\<close>

definition deployment_row :: "uuid \<Rightarrow> db \<Rightarrow> (package_deployment \<times> role_package) option" where
  "deployment_row agent_id d =
     (case concat (map (\<lambda>x. map (Pair x) (filter (\<lambda>p. rp_id p = pd_package_id x) (packages d)))
             (filter (\<lambda>x. pd_agent_id x = agent_id \<and> pd_is_active x) (deployments d))) of
        [] \<Rightarrow> None
      | r # _ \<Rightarrow> Some r)"

definition register_profile ::
  "time \<Rightarrow> evaluator_profile_create \<Rightarrow> db \<Rightarrow> (evaluator_profile \<times> db) res" where
  "register_profile now p d =
     (case get_agent (pc_agent_id p) d of
        None \<Rightarrow> http 409 ''Evaluator agent is missing or disabled.''
      | Some ag \<Rightarrow>
          if \<not> a_is_enabled ag then http 409 ''Evaluator agent is missing or disabled.''
          else if \<not> set (pc_capabilities p) \<subseteq> set (a_capabilities ag)
          then http 409 ''Evaluator capabilities exceed the agent registration.''
          else
            (case deployment_row (a_id ag) d of
               None \<Rightarrow> http 409 ''Evaluator lacks an active role-package deployment.''
             | Some (deployment, package) \<Rightarrow>
                 (let runtime = (if agent_runtime ag = '''' then ''unknown'' else agent_runtime ag) in
                  if runtime = ''unknown''
                  then http 409 (''Evaluator runtime is not attested; start the worker heartbeat ''
                         @ ''before registering its profile.'')
                  else
                    (let document = profile_create_json p
                           @ [(''machine'', JStr (a_machine ag)), (''runtime'', JStr runtime),
                              (''package_id'', juuid (rp_id package)),
                              (''package_digest'', JStr (rp_manifest_digest package))];
                         profile =
                           \<lparr>ep_id = next_uuid d, ep_agent_id = a_id ag,
                            ep_profile_version = pc_profile_version p,
                            ep_status = ProfileActive, ep_review_kinds = pc_review_kinds p,
                            ep_capabilities = pc_capabilities p, ep_machine = a_machine ag,
                            ep_provider = pc_provider p, ep_model_family = pc_model_family p,
                            ep_runtime = runtime, ep_context_group = pc_context_group p,
                            ep_package_id = rp_id package,
                            ep_package_digest = rp_manifest_digest package,
                            ep_attestation =
                              [(''agent_slug'', JStr (a_slug ag)),
                               (''deployment_id'', juuid (pd_id deployment)),
                               (''source_repository'', JStr (rp_source_repository package)),
                               (''source_commit'', JStr (rp_source_commit package)),
                               (''identity_claim_boundary'',
                                JStr (''provider and model family are operator-declared; agent, ''
                                  @ ''machine, runtime and package are registry-derived''))],
                            ep_profile_digest = digest_json (JObj document),
                            ep_registered_by = pc_registered_by p, ep_created_at = now,
                            ep_retired_at = None\<rparr>;
                         retired =
                           upd_rows (\<lambda>x. ep_agent_id x = a_id ag \<and> ep_status x = ProfileActive)
                             (\<lambda>x. x\<lparr>ep_status := ProfileRetired, ep_retired_at := Some now\<rparr>)
                             (profiles d)
                     in if list_ex (\<lambda>x. ep_agent_id x = a_id ag
                               \<and> ep_profile_version x = pc_profile_version p
                               \<or> ep_profile_digest x = ep_profile_digest profile) (profiles d)
                        then Inl IntegrityError
                        else Inr (profile, d\<lparr>profiles := retired @ [profile],
                                             next_uuid := Suc (next_uuid d)\<rparr>)))))"

definition get_profile :: "uuid \<Rightarrow> db \<Rightarrow> evaluator_profile option" where
  "get_profile i d = get_row ep_id (profiles d) i"

definition producer_identity_for_lease :: "agent \<Rightarrow> string list \<Rightarrow> db \<Rightarrow> dict option" where
  "producer_identity_for_lease ag package_digests d =
     (if package_digests = [] then None
      else
        (case max_row ep_created_at
                (filter (\<lambda>p. ep_agent_id p = a_id ag \<and> ep_status p = ProfileActive
                    \<and> ep_package_digest p \<in> set package_digests) (profiles d)) of
           None \<Rightarrow> None
         | Some p \<Rightarrow>
             if ep_machine p \<noteq> a_machine ag
                \<or> ep_runtime p \<noteq> (if agent_runtime ag = '''' then ''unknown'' else agent_runtime ag)
             then None else Some (profile_identity p)))"

definition task_producer_identity :: "task \<Rightarrow> db \<Rightarrow> dict option" where
  "task_producer_identity t d =
     (case max_row te_id
             (filter (\<lambda>e. te_task_id e = t_id t \<and> te_event_type e = ''task_leased''
                \<and> te_attempt_number e = t_attempt_count t) (task_events d)) of
        None \<Rightarrow> None
      | Some e \<Rightarrow>
          (case (dget (te_payload e) ''producer_identity'', te_agent_id e) of
             (JObj identity, Some ag) \<Rightarrow>
               if dget identity ''agent_id'' \<noteq> juuid ag
                  \<or> dget (te_payload e) ''producer_identity_digest''
                      \<noteq> JStr (digest_json (JObj identity))
               then None else Some identity
           | _ \<Rightarrow> None))"

definition active_profiles :: "db \<Rightarrow> evaluator_profile list" where
  "active_profiles d =
     filter (\<lambda>p. case get_agent (ep_agent_id p) d of
          None \<Rightarrow> False
        | Some ag \<Rightarrow> a_is_enabled ag \<and> ep_machine p = a_machine ag \<and> ep_runtime p = agent_runtime ag)
       (sort_key ep_profile_digest (filter (\<lambda>p. ep_status p = ProfileActive) (profiles d)))"

definition catalog_digest :: "evaluator_profile list \<Rightarrow> string" where
  "catalog_digest ps = digest_json (jstrs (sort (map ep_profile_digest ps)))"

section \<open>The choice of evaluators\<close>

record evaluation_route_create =
  rc_subject_type :: string
  rc_subject_id :: string
  rc_subject_digest :: string
  rc_producer :: producer_identity
  rc_excluded_producers :: "producer_identity list"
  rc_required_review_kinds :: "string list"
  rc_required_capabilities :: "string list"
  rc_max_pairwise_shared_dimensions :: int
  rc_requested_by :: string
  rc_routing_revision :: int
  rc_supersedes_route_id :: "uuid option"

definition route_create_json :: "evaluation_route_create \<Rightarrow> json" where
  "route_create_json p = JObj
     [(''subject_type'', JStr (rc_subject_type p)), (''subject_id'', JStr (rc_subject_id p)),
      (''subject_digest'', JStr (rc_subject_digest p)),
      (''producer'', JObj (producer_json (rc_producer p))),
      (''excluded_producers'', JList (map (\<lambda>x. JObj (producer_json x)) (rc_excluded_producers p))),
      (''required_review_kinds'', jstrs (rc_required_review_kinds p)),
      (''required_capabilities'', jstrs (rc_required_capabilities p)),
      (''max_pairwise_shared_dimensions'', JInt (rc_max_pairwise_shared_dimensions p)),
      (''requested_by'', JStr (rc_requested_by p)),
      (''routing_revision'', JInt (rc_routing_revision p)),
      (''supersedes_route_id'', option_json juuid (rc_supersedes_route_id p))]"

text \<open>One chosen evaluator: the kind it reviews, its profile and its correlation report.\<close>

type_synonym selection = "string \<times> evaluator_profile \<times> dict"

text \<open>The correlations of a candidate that the body of the loop computes.\<close>

definition producer_corr :: "evaluation_route_create \<Rightarrow> evaluator_profile \<Rightarrow> correlation" where
  "producer_corr q p = correlate (producer_json (rc_producer q)) (profile_identity p)"

definition excluded_corr :: "evaluation_route_create \<Rightarrow> evaluator_profile \<Rightarrow> correlation list" where
  "excluded_corr q p =
     map (\<lambda>x. correlate (producer_json x) (profile_identity p)) (rc_excluded_producers q)"

definition selected_corr :: "selection list \<Rightarrow> evaluator_profile \<Rightarrow> correlation list" where
  "selected_corr selected p =
     map (\<lambda>(_, s, _). correlate (profile_identity s) (profile_identity p)) selected"

definition exclusion_reasons ::
  "evaluation_route_create \<Rightarrow> selection list \<Rightarrow> string \<Rightarrow> evaluator_profile \<Rightarrow> string list" where
  "exclusion_reasons q selected review_kind p =
     (let ex = excluded_corr q p; sel = selected_corr selected p;
          ceiling = rc_max_pairwise_shared_dimensions q
      in co_hard_conflicts (producer_corr q p)
         @ (if list_ex (\<lambda>c. co_hard_conflicts c \<noteq> []) ex
            then [''excluded_producer_hard_conflict''] else [])
         @ (if list_ex (\<lambda>c. ceiling < co_count c) ex
            then [''excluded_producer_correlation_ceiling''] else [])
         @ (if review_kind \<notin> set (ep_review_kinds p) then [''review_kind''] else [])
         @ (if \<not> set (rc_required_capabilities q) \<subseteq> set (ep_capabilities p)
            then [''capabilities''] else [])
         @ (if rc_subject_type q = ''alpha_strategy_qualification''
               \<and> ''alpha-strategy-review-'' @ review_kind \<notin> set (ep_capabilities p)
            then [''strategy_review_executor_capability''] else [])
         @ (if list_ex (\<lambda>c. co_hard_conflicts c \<noteq> []) sel
            then [''selected_evaluator_hard_conflict''] else [])
         @ (if list_ex (\<lambda>c. ceiling < co_count c) sel
            then [''pairwise_correlation_ceiling''] else []))"

definition correlation_score ::
  "evaluation_route_create \<Rightarrow> selection list \<Rightarrow> evaluator_profile \<Rightarrow> int" where
  "correlation_score q selected p =
     co_count (producer_corr q p) + sum_list (map co_count (selected_corr selected p))"

definition correlation_report ::
  "evaluation_route_create \<Rightarrow> selection list \<Rightarrow> evaluator_profile \<Rightarrow> dict" where
  "correlation_report q selected p =
     [(''producer'', correlation_json (producer_corr q p)),
      (''excluded_producers'', JList (map correlation_json (excluded_corr q p))),
      (''selected_evaluators'', JList (map correlation_json (selected_corr selected p))),
      (''correlation_score'', JInt (correlation_score q selected p)),
      (''claim_boundary'',
       JStr (''identity/package/context separation is enforced; shared ''
         @ ''provider/model/runtime/host dimensions are disclosed, not described as independent''))]"

text \<open>\<open>min(xs, key=key)\<close>: the first element with the least key.\<close>

fun min_by :: "('a \<Rightarrow> 'k::linorder) \<Rightarrow> 'a list \<Rightarrow> 'a option" where
  "min_by key [] = None"
| "min_by key (x # xs) =
     (case min_by key xs of None \<Rightarrow> Some x | Some y \<Rightarrow> if key y < key x then Some y else Some x)"

definition excluded_json ::
  "evaluation_route_create \<Rightarrow> selection list \<Rightarrow> string \<Rightarrow> evaluator_profile \<Rightarrow> json" where
  "excluded_json q selected kind p = JObj
     [(''profile_digest'', JStr (ep_profile_digest p)), (''review_kind'', JStr kind),
      (''reasons'', jstrs (sorted_set (exclusion_reasons q selected kind p)))]"

text \<open>
  The loop over the review kinds: the choice so far and the excluded candidates so far go
  round; the result is the choice, or the reason why the route is blocked.
\<close>

fun route_loop ::
  "evaluator_profile list \<Rightarrow> evaluation_route_create \<Rightarrow> selection list \<Rightarrow> json list \<Rightarrow> string list
     \<Rightarrow> dict + selection list" where
  "route_loop ps q selected excluded [] = Inr selected"
| "route_loop ps q selected excluded (kind # kinds) =
     (let eligible = filter (\<lambda>p. exclusion_reasons q selected kind p = []) ps;
          excluded' = excluded
            @ map (excluded_json q selected kind)
                (filter (\<lambda>p. exclusion_reasons q selected kind p \<noteq> []) ps)
      in case min_by (\<lambda>p. (correlation_score q selected p, ep_profile_digest p)) eligible of
           None \<Rightarrow> Inl [(''category'', JStr ''independent_evaluator_unavailable''),
                       (''unfilled_review_kind'', JStr kind),
                       (''excluded'', JList (drop (length excluded' - 50) excluded'))]
         | Some p \<Rightarrow>
             route_loop ps q (selected @ [(kind, p, correlation_report q selected p)]) excluded' kinds)"

text \<open>\<open>_route_profiles\<close>.\<close>

definition route_profiles ::
  "evaluator_profile list \<Rightarrow> evaluation_route_create \<Rightarrow> dict + selection list" where
  "route_profiles ps q = route_loop ps q [] [] (rc_required_review_kinds q)"

section \<open>Routes\<close>

definition get_route :: "uuid \<Rightarrow> db \<Rightarrow> evaluation_route option" where
  "get_route i d = get_row er_id (routes d) i"

definition upd_route :: "uuid \<Rightarrow> (evaluation_route \<Rightarrow> evaluation_route) \<Rightarrow> db \<Rightarrow> db" where
  "upd_route i f d = d\<lparr>routes := upd_row er_id i f (routes d)\<rparr>"

text \<open>One assignment row of the choice; its unique constraints are checked by the flush.\<close>

definition assign_evaluator :: "time \<Rightarrow> evaluation_route \<Rightarrow> selection \<Rightarrow> db \<Rightarrow> db res" where
  "assign_evaluator now r sel d =
     (case sel of (kind, p, report) \<Rightarrow>
       (let dig = digest_json (JObj
              [(''route_digest'', JStr (er_route_digest r)), (''review_kind'', JStr kind),
               (''evaluator_profile_digest'', JStr (ep_profile_digest p)),
               (''correlation_report'', JObj report)]);
            a = \<lparr>ea_id = next_uuid d, ea_route_id = er_id r, ea_evaluator_profile_id = ep_id p,
                 ea_review_kind = kind, ea_status = AssignmentAssigned,
                 ea_correlation_report = report, ea_assignment_digest = dig,
                 ea_review_id = None, ea_review_digest = None, ea_completed_by = None,
                 ea_assigned_at = now, ea_completed_at = None\<rparr>
        in if list_ex (\<lambda>x. ea_route_id x = er_id r \<and>
                 (ea_review_kind x = kind \<or> ea_evaluator_profile_id x = ep_id p)
                 \<or> ea_assignment_digest x = dig) (assignments d)
           then Inl IntegrityError
           else Inr (append_route_event
                  (now, er_id r, ''evaluator_assigned'', ''evaluator-router'',
                   [(''review_kind'', JStr kind), (''profile_digest'', JStr (ep_profile_digest p)),
                    (''assignment_digest'', JStr dig), (''correlation_report'', JObj report)])
                  (d\<lparr>assignments := assignments d @ [a], next_uuid := Suc (next_uuid d)\<rparr>))))"

text \<open>\<open>_assign_route\<close>.\<close>

definition assign_route ::
  "time \<Rightarrow> evaluation_route \<Rightarrow> evaluation_route_create \<Rightarrow> evaluator_profile list \<Rightarrow> db \<Rightarrow> db res" where
  "assign_route now r q ps d =
     (case route_profiles ps q of
        Inl reason \<Rightarrow>
          (let blocked = reason @ [(''evaluator_catalog_digest'', JStr (catalog_digest ps))]
           in Inr (append_route_event (now, er_id r, ''route_blocked'', ''evaluator-router'', blocked)
                (upd_route (er_id r)
                   (\<lambda>r. r\<lparr>er_status := RouteBlocked, er_blocked_reason := blocked\<rparr>) d)))
      | Inr selected \<Rightarrow>
          ebind (efold (assign_evaluator now r) selected d)
            (\<lambda>d1. Inr (upd_route (er_id r)
               (\<lambda>r. r\<lparr>er_status := RouteAssigned, er_blocked_reason := []\<rparr>) d1)))"

text \<open>The four members of the policy that a superseding route must repeat.\<close>

definition expected_policy :: "evaluation_route_create \<Rightarrow> dict" where
  "expected_policy p =
     [(''required_review_kinds'', jstrs (rc_required_review_kinds p)),
      (''required_capabilities'', jstrs (rc_required_capabilities p)),
      (''excluded_producers'', JList (map (\<lambda>x. JObj (producer_json x)) (rc_excluded_producers p))),
      (''max_pairwise_shared_dimensions'', JInt (rc_max_pairwise_shared_dimensions p))]"

definition route_policy :: "evaluation_route_create \<Rightarrow> dict" where
  "route_policy p = expected_policy p @
     [(''hard_separation'', jstrs HARD_SEPARATION),
      (''disclosed_correlation'', jstrs CORRELATION_DIMENSIONS),
      (''routing_revision'', JInt (rc_routing_revision p)),
      (''supersedes_route_id'', option_json juuid (rc_supersedes_route_id p))]"

text \<open>\<open>int(policy.get("routing_revision", 1))\<close>; every stored policy has an integer there.\<close>

definition policy_revision :: "dict \<Rightarrow> int" where
  "policy_revision policy =
     (case dict_get policy ''routing_revision'' of Some (JInt i) \<Rightarrow> i | _ \<Rightarrow> 1)"

definition compatible_predecessor :: "evaluation_route_create \<Rightarrow> evaluation_route \<Rightarrow> bool" where
  "compatible_predecessor p r =
     (er_status r = RouteSuperseded \<and> er_subject_type r = rc_subject_type p
      \<and> er_subject_id r = rc_subject_id p \<and> er_subject_digest r = rc_subject_digest p
      \<and> json_eq (JObj (er_producer r)) (JObj (producer_json (rc_producer p)))
      \<and> er_requested_by r = rc_requested_by p
      \<and> list_all (\<lambda>(k, v). json_eq (dget (er_policy r) k) v) (expected_policy p)
      \<and> policy_revision (er_policy r) < rc_routing_revision p)"

definition new_route :: "time \<Rightarrow> evaluation_route_create \<Rightarrow> uuid \<Rightarrow> evaluation_route" where
  "new_route now p i =
     \<lparr>er_id = i, er_subject_type = rc_subject_type p, er_subject_id = rc_subject_id p,
      er_subject_digest = rc_subject_digest p, er_producer = producer_json (rc_producer p),
      er_policy = route_policy p, er_status = RouteRouting,
      er_route_digest = digest_json (route_create_json p), er_requested_by = rc_requested_by p,
      er_blocked_reason = [], er_created_at = now, er_completed_at = None\<rparr>"

definition create_route ::
  "time \<Rightarrow> evaluation_route_create \<Rightarrow> db \<Rightarrow> (uuid \<times> db) res" where
  "create_route now p d =
     (if (case rc_supersedes_route_id p of None \<Rightarrow> False
          | Some i \<Rightarrow> (case get_route i d of None \<Rightarrow> True | Some r \<Rightarrow> \<not> compatible_predecessor p r))
      then http 409 ''Evaluator route predecessor is not a compatible superseded route.''
      else
        (let r = new_route now p (next_uuid d)
         in if er_route_digest r \<in> er_route_digest ` set (routes d) then Inl IntegrityError
            else
              ebind (assign_route now r p (active_profiles d)
                 (append_route_event (now, er_id r, ''route_requested'', rc_requested_by p,
                    [(''route_digest'', JStr (er_route_digest r)),
                     (''subject_digest'', JStr (er_subject_digest r))])
                    (d\<lparr>routes := routes d @ [r], next_uuid := Suc (next_uuid d)\<rparr>)))
                (\<lambda>d'. Inr (er_id r, d'))))"

section \<open>Retrying a blocked route\<close>

text \<open>
  \<open>EvaluationRouteCreate(...)\<close> is built again from the stored JSON: each member is read
  back with its type, and the schema's validators run.
\<close>

fun json_str :: "json \<Rightarrow> string option" where
  "json_str (JStr s) = Some s"
| "json_str v = None"

fun json_strs :: "json \<Rightarrow> string list option" where
  "json_strs (JList vs) = those (map json_str vs)"
| "json_strs v = None"

fun json_int :: "json \<Rightarrow> int option" where
  "json_int (JInt i) = Some i"
| "json_int v = None"

text \<open>An optional UUID: \<open>null\<close> or the text of a UUID.\<close>

fun json_uuid_opt :: "json \<Rightarrow> uuid option option" where
  "json_uuid_opt JNull = Some None"
| "json_uuid_opt (JStr s) = map_option Some (uuid_parse s)"
| "json_uuid_opt v = None"

definition str_between :: "nat \<Rightarrow> nat \<Rightarrow> string \<Rightarrow> bool" where
  "str_between lo hi s = (lo \<le> length s \<and> length s \<le> hi)"

definition valid_producer :: "producer_identity \<Rightarrow> bool" where
  "valid_producer p =
     (str_between 1 150 (pi_actor p) \<and> str_between 1 100 (pi_machine p)
      \<and> str_between 1 100 (pi_provider p) \<and> str_between 1 120 (pi_model_family p)
      \<and> str_between 1 120 (pi_runtime p) \<and> str_between 1 120 (pi_context_group p)
      \<and> is_sha256_hex (pi_package_digest p))"

text \<open>The pattern \<open>^[a-z][a-z0-9_.-]{0,59}$\<close>.\<close>

definition valid_subject_type :: "string \<Rightarrow> bool" where
  "valid_subject_type s =
     (case s of [] \<Rightarrow> False
      | c # cs \<Rightarrow> CHR ''a'' \<le> c \<and> c \<le> CHR ''z'' \<and> length cs \<le> 59
          \<and> list_all (\<lambda>c. CHR ''a'' \<le> c \<and> c \<le> CHR ''z'' \<or> CHR ''0'' \<le> c \<and> c \<le> CHR ''9''
                \<or> c \<in> {CHR ''_'', CHR ''.'', CHR ''-''}) cs)"

definition valid_route_create :: "evaluation_route_create \<Rightarrow> bool" where
  "valid_route_create p =
     (valid_subject_type (rc_subject_type p) \<and> str_between 1 150 (rc_subject_id p)
      \<and> is_sha256_hex (rc_subject_digest p) \<and> valid_producer (rc_producer p)
      \<and> length (rc_excluded_producers p) \<le> 10 \<and> list_all valid_producer (rc_excluded_producers p)
      \<and> 1 \<le> length (rc_required_review_kinds p) \<and> length (rc_required_review_kinds p) \<le> 10
      \<and> length (rc_required_capabilities p) \<le> 20
      \<and> 0 \<le> rc_max_pairwise_shared_dimensions p \<and> rc_max_pairwise_shared_dimensions p \<le> 4
      \<and> str_between 1 150 (rc_requested_by p) \<and> 1 \<le> rc_routing_revision p
      \<and> distinct (rc_required_review_kinds p)
      \<and> (rc_supersedes_route_id p = None) = (rc_routing_revision p = 1))"

fun obj_get :: "json \<Rightarrow> string \<Rightarrow> json option" where
  "obj_get (JObj d) k = dict_get d k"
| "obj_get v k = None"

definition parse_producer :: "json \<Rightarrow> producer_identity option" where
  "parse_producer v =
     (case (those (map (\<lambda>k. Option.bind (obj_get v k) json_str)
              [''actor'', ''machine'', ''provider'', ''model_family'', ''runtime'',
               ''context_group'', ''package_digest'']),
            (case obj_get v ''agent_id'' of None \<Rightarrow> Some None | Some j \<Rightarrow> json_uuid_opt j)) of
        (Some [actor, machine, provider, family, runtime, ctx, package], Some agent_id) \<Rightarrow>
          Some \<lparr>pi_actor = actor, pi_agent_id = agent_id, pi_machine = machine,
                pi_provider = provider, pi_model_family = family, pi_runtime = runtime,
                pi_context_group = ctx, pi_package_digest = package\<rparr>
      | _ \<Rightarrow> None)"

fun parse_producers :: "json \<Rightarrow> producer_identity list option" where
  "parse_producers (JList vs) = those (map parse_producer vs)"
| "parse_producers v = None"

text \<open>\<open>UUID(policy["supersedes_route_id"]) if policy.get("supersedes_route_id") else None\<close>.\<close>

definition policy_superseded :: "dict \<Rightarrow> uuid option option" where
  "policy_superseded policy =
     (if truthy (dget policy ''supersedes_route_id'')
      then json_uuid_opt (dget policy ''supersedes_route_id'') else Some None)"

definition payload_of_route :: "evaluation_route \<Rightarrow> evaluation_route_create option" where
  "payload_of_route r =
     (let policy = er_policy r;
          get = (\<lambda>k dflt. case dict_get policy k of None \<Rightarrow> dflt | Some v \<Rightarrow> v)
      in case (parse_producer (JObj (er_producer r)),
               parse_producers (get ''excluded_producers'' (JList [])),
               Option.bind (dict_get policy ''required_review_kinds'') json_strs,
               json_strs (get ''required_capabilities'' (JList [])),
               Option.bind (dict_get policy ''max_pairwise_shared_dimensions'') json_int,
               json_int (get ''routing_revision'' (JInt 1)),
               policy_superseded policy) of
           (Some producer, Some excluded, Some kinds, Some caps, Some ceiling, Some revision,
            Some superseded_id) \<Rightarrow>
             (let p = \<lparr>rc_subject_type = er_subject_type r, rc_subject_id = er_subject_id r,
                       rc_subject_digest = er_subject_digest r, rc_producer = producer,
                       rc_excluded_producers = excluded, rc_required_review_kinds = kinds,
                       rc_required_capabilities = caps,
                       rc_max_pairwise_shared_dimensions = ceiling,
                       rc_requested_by = er_requested_by r, rc_routing_revision = revision,
                       rc_supersedes_route_id = superseded_id\<rparr>
              in if valid_route_create p then Some p else None)
         | _ \<Rightarrow> None)"

definition retry_blocked_route :: "time \<Rightarrow> evaluation_route \<Rightarrow> db \<Rightarrow> db res" where
  "retry_blocked_route now r d =
     (if er_status r \<noteq> RouteBlocked then Inr d
      else
        (let ps = active_profiles d; cat = catalog_digest ps in
         if dget (er_blocked_reason r) ''evaluator_catalog_digest'' = JStr cat then Inr d
         else
           (case payload_of_route r of
              None \<Rightarrow> Inl (ValueError ''EvaluationRouteCreate'')
            | Some p \<Rightarrow>
                assign_route now r p ps
                  (append_route_event (now, er_id r, ''routing_retried'', ''evaluator-router'',
                     [(''route_digest'', JStr (er_route_digest r)),
                      (''evaluator_catalog_digest'', JStr cat)]) d))))"

section \<open>Reviews\<close>

record alpha_strategy_review =
  rv_subject_digest :: string
  rv_verdict :: string
  rv_rationale :: string
  rv_checks :: "string list"
  rv_blockers :: "string list"

definition review_json :: "alpha_strategy_review \<Rightarrow> json" where
  "review_json r = JObj
     [(''subject_digest'', JStr (rv_subject_digest r)), (''verdict'', JStr (rv_verdict r)),
      (''rationale'', JStr (rv_rationale r)), (''checks'', jstrs (rv_checks r)),
      (''blockers'', jstrs (rv_blockers r))]"

definition valid_review :: "alpha_strategy_review \<Rightarrow> bool" where
  "valid_review r =
     (is_sha256_hex (rv_subject_digest r) \<and> rv_verdict r \<in> {''approve'', ''reject''}
      \<and> str_between 20 4000 (rv_rationale r)
      \<and> 1 \<le> length (rv_checks r) \<and> length (rv_checks r) \<le> 30 \<and> length (rv_blockers r) \<le> 30
      \<and> \<not> (rv_verdict r = ''approve'' \<and> rv_blockers r \<noteq> []))"

text \<open>\<open>AlphaStrategyReview.model_validate\<close>, which forbids other members.\<close>

definition parse_review :: "json \<Rightarrow> alpha_strategy_review option" where
  "parse_review v =
     (case v of
        JObj m \<Rightarrow>
          if \<not> set (map fst m) \<subseteq>
               {''subject_digest'', ''verdict'', ''rationale'', ''checks'', ''blockers''}
          then None
          else
            (case (Option.bind (dict_get m ''subject_digest'') json_str,
                   Option.bind (dict_get m ''verdict'') json_str,
                   Option.bind (dict_get m ''rationale'') json_str,
                   Option.bind (dict_get m ''checks'') json_strs,
                   (case dict_get m ''blockers'' of None \<Rightarrow> Some [] | Some b \<Rightarrow> json_strs b)) of
               (Some sd, Some verdict, Some rationale, Some checks, Some blockers) \<Rightarrow>
                 (let r = \<lparr>rv_subject_digest = sd, rv_verdict = verdict, rv_rationale = rationale,
                           rv_checks = checks, rv_blockers = blockers\<rparr>
                  in if valid_review r then Some r else None)
             | _ \<Rightarrow> None)
      | _ \<Rightarrow> None)"

record evaluator_assignment_complete =
  ac_evaluator_agent_id :: uuid
  ac_review_id :: string
  ac_review_digest :: string
  ac_alpha_strategy_review :: "alpha_strategy_review option"

section \<open>Receipts\<close>

definition route_assignments :: "uuid \<Rightarrow> db \<Rightarrow> evaluator_assignment list" where
  "route_assignments i d = filter (\<lambda>a. ea_route_id a = i) (assignments d)"

definition route_receipt :: "uuid \<Rightarrow> db \<Rightarrow> independence_receipt option" where
  "route_receipt i d = get_row ir_route_id (receipts d) i"

definition upd_assignment ::
  "uuid \<Rightarrow> (evaluator_assignment \<Rightarrow> evaluator_assignment) \<Rightarrow> db \<Rightarrow> db" where
  "upd_assignment i f d = d\<lparr>assignments := upd_row ea_id i f (assignments d)\<rparr>"

text \<open>The event that completed an assignment.\<close>

definition completion_event ::
  "uuid \<Rightarrow> evaluator_assignment \<Rightarrow> db \<Rightarrow> evaluation_route_event option" where
  "completion_event route_id a d =
     List.find (\<lambda>e. ev_route_id e = route_id \<and> ev_event_type e = ''evaluation_completed''
          \<and> Some (ev_actor e) = ea_completed_by a
          \<and> dget (ev_payload e) ''assignment_digest'' = JStr (ea_assignment_digest a))
       (route_events d)"

definition assertion_entry ::
  "evaluation_route \<Rightarrow> db \<Rightarrow> evaluator_assignment \<Rightarrow> json res" where
  "assertion_entry r d a =
     (let base = [(''assignment_digest'', JStr (ea_assignment_digest a)),
                  (''review_kind'', JStr (ea_review_kind a)),
                  (''review_digest'', option_json JStr (ea_review_digest a)),
                  (''correlation_report'', JObj (ea_correlation_report a))]
      in if er_subject_type r \<noteq> ''alpha_strategy_qualification'' then Inr (JObj base)
         else
           (case (get_profile (ea_evaluator_profile_id a) d, completion_event (er_id r) a d) of
              (Some p, Some e) \<Rightarrow>
                (case dict_get (ev_payload e) ''alpha_strategy_review'' of
                   None \<Rightarrow> Inl (KeyError ''alpha_strategy_review'')
                 | Some review \<Rightarrow>
                     Inr (JObj (base @ [(''evaluator_identity'', JObj (profile_identity p)),
                                        (''alpha_strategy_review'', review)])))
            | _ \<Rightarrow> http 409 ''Alpha review lacks immutable evaluator provenance.''))"

definition independence_assertion :: "evaluation_route \<Rightarrow> json list \<Rightarrow> dict" where
  "independence_assertion r entries =
     [(''schema_version'', JStr ''evaluation-independence-assertion-v1.0.0''),
      (''route_digest'', JStr (er_route_digest r)),
      (''subject_digest'', JStr (er_subject_digest r)),
      (''producer'', JObj (er_producer r)), (''policy'', JObj (er_policy r)),
      (''assignments'', JList entries),
      (''claim_boundary'',
       JStr (''independence demonstrated under declared identity/package/context rules; ''
         @ ''disclosed shared runtime dimensions remain correlated risk''))]"

definition new_receipt ::
  "time \<Rightarrow> evaluation_route \<Rightarrow> json list \<Rightarrow> uuid \<Rightarrow> independence_receipt" where
  "new_receipt now r entries i =
     \<lparr>ir_id = i, ir_route_id = er_id r, ir_subject_digest = er_subject_digest r,
      ir_verdict = ''independence_demonstrated'', ir_assertion = independence_assertion r entries,
      ir_receipt_digest = digest_json (JObj (independence_assertion r entries)),
      ir_issued_by = ''evaluator-router'', ir_issued_at = now\<rparr>"

definition completed_route :: "time \<Rightarrow> evaluation_route \<Rightarrow> evaluation_route" where
  "completed_route now r = r\<lparr>er_status := RouteCompleted, er_completed_at := Some now\<rparr>"

text \<open>\<open>_issue_receipt\<close>.\<close>

definition issue_receipt ::
  "time \<Rightarrow> evaluation_route \<Rightarrow> evaluator_assignment list \<Rightarrow> db \<Rightarrow> db res" where
  "issue_receipt now r as d =
     (if route_receipt (er_id r) d \<noteq> None then Inr d
      else
        ebind (emap (assertion_entry r d) (sort_key ea_review_kind as)) (\<lambda>entries.
          (let receipt = new_receipt now r entries (next_uuid d)
           in if ir_receipt_digest receipt \<in> ir_receipt_digest ` set (receipts d)
              then Inl IntegrityError
              else
                Inr (append_route_event
                  (now, er_id r, ''independence_asserted'', ''evaluator-router'',
                   [(''verdict'', JStr (ir_verdict receipt)),
                    (''receipt_digest'', JStr (ir_receipt_digest receipt))])
                  (upd_route (er_id r) (completed_route now)
                     (d\<lparr>receipts := receipts d @ [receipt], next_uuid := Suc (next_uuid d)\<rparr>))))))"

section \<open>Completing an assignment\<close>

text \<open>The review that a strategy qualification must carry, checked against the route.\<close>

definition checked_review ::
  "evaluation_route \<Rightarrow> evaluator_assignment_complete \<Rightarrow> alpha_strategy_review option res" where
  "checked_review r q =
     (if er_subject_type r \<noteq> ''alpha_strategy_qualification'' then Inr None
      else
        (case ac_alpha_strategy_review q of
           None \<Rightarrow> http 422 ''Alpha strategy evaluation requires an explicit review verdict.''
         | Some review \<Rightarrow>
             if rv_subject_digest review \<noteq> er_subject_digest r
             then http 422 ''Alpha strategy review identifies a different subject.''
             else if digest_json (review_json review) \<noteq> ac_review_digest q
             then http 422 ''Alpha strategy review digest does not match its content.''
             else Inr (Some review)))"

definition completed_assignment ::
  "time \<Rightarrow> evaluator_assignment_complete \<Rightarrow> evaluator_assignment \<Rightarrow> evaluator_assignment" where
  "completed_assignment now q a =
     a\<lparr>ea_status := AssignmentCompleted, ea_review_id := Some (ac_review_id q),
       ea_review_digest := Some (ac_review_digest q),
       ea_completed_by := Some (uuid_str (ac_evaluator_agent_id q)), ea_completed_at := Some now\<rparr>"

definition completion_payload ::
  "evaluator_assignment \<Rightarrow> evaluator_assignment_complete \<Rightarrow> alpha_strategy_review option \<Rightarrow> dict" where
  "completion_payload a q review =
     [(''assignment_digest'', JStr (ea_assignment_digest a)),
      (''review_kind'', JStr (ea_review_kind a)),
      (''review_id'', JStr (ac_review_id q)), (''review_digest'', JStr (ac_review_digest q))]
     @ (case review of None \<Rightarrow> [] | Some rv \<Rightarrow> [(''alpha_strategy_review'', review_json rv)])"

definition complete_assignment ::
  "time \<Rightarrow> evaluation_route \<Rightarrow> evaluator_assignment \<Rightarrow> evaluator_assignment_complete \<Rightarrow> db \<Rightarrow> db res" where
  "complete_assignment now r a q d =
     (if er_status r \<noteq> RouteAssigned \<or> ea_status a \<noteq> AssignmentAssigned
      then http 409 ''Only an active assigned evaluation can be completed.''
      else
        (case get_profile (ea_evaluator_profile_id a) d of
           None \<Rightarrow> http 403 ''Only the routed evaluator may complete this assignment.''
         | Some p \<Rightarrow>
             if ep_agent_id p \<noteq> ac_evaluator_agent_id q
             then http 403 ''Only the routed evaluator may complete this assignment.''
             else
               ebind (checked_review r q) (\<lambda>review.
                 (let d1 = upd_assignment (ea_id a) (completed_assignment now q) d;
                      d2 = append_route_event
                             (now, er_id r, ''evaluation_completed'',
                              uuid_str (ac_evaluator_agent_id q), completion_payload a q review) d1;
                      as = route_assignments (er_id r) d2
                  in if list_all (\<lambda>x. ea_status x = AssignmentCompleted) as
                     then issue_receipt now r as d2 else Inr d2))))"

text \<open>
  The members of the task's contract and result that \<open>complete_strategy_review_task\<close>
  reads before it looks anything up; every failure there is the same 422.
\<close>

definition parse_completion ::
  "task \<Rightarrow> agent \<Rightarrow> dict \<Rightarrow> (uuid \<times> uuid \<times> evaluator_assignment_complete) option" where
  "parse_completion t ag result =
     (let contract = t_input_contract t;
          summary = Option.bind (dict_get result ''summary'');
          review_id = ''task:'' @ uuid_str (t_id t) @ '':attempt:'' @ int_str (t_attempt_count t)
      in case (Option.bind (Option.bind (dict_get contract ''route_id'') json_str) uuid_parse,
               Option.bind (Option.bind (dict_get contract ''assignment_id'') json_str) uuid_parse,
               Option.bind (summary (\<lambda>v. obj_get v ''alpha_strategy_review'')) parse_review,
               Option.bind (summary (\<lambda>v. obj_get v ''review_digest'')) json_str) of
           (Some route_id, Some assignment_id, Some review, Some review_digest) \<Rightarrow>
             if is_sha256_hex review_digest \<and> str_between 1 150 review_id
             then Some (route_id, assignment_id,
                    \<lparr>ac_evaluator_agent_id = a_id ag, ac_review_id = review_id,
                     ac_review_digest = review_digest,
                     ac_alpha_strategy_review = Some review\<rparr>)
             else None
         | _ \<Rightarrow> None)"

definition complete_strategy_review_task ::
  "time \<Rightarrow> task \<Rightarrow> agent \<Rightarrow> dict \<Rightarrow> db \<Rightarrow> db res" where
  "complete_strategy_review_task now t ag result d =
     (if t_task_type t \<noteq> ''alpha_strategy_review'' then Inr d
      else
        (let contract = t_input_contract t in
         case parse_completion t ag result of
           None \<Rightarrow> http 422 ''Strategy review task result or contract is invalid.''
         | Some (route_id, assignment_id, completion) \<Rightarrow>
             if dget contract ''evaluator_agent_id'' \<noteq> juuid (a_id ag)
                \<or> t_assigned_agent_id t \<noteq> Some (a_id ag)
             then http 403 ''Strategy review is assigned to another evaluator.''
             else
               (case (get_route route_id d,
                      List.find (\<lambda>a. ea_id a = assignment_id \<and> ea_route_id a = route_id)
                        (assignments d)) of
                  (Some r, Some a) \<Rightarrow>
                    (case (task_producer_identity t d, get_profile (ea_evaluator_profile_id a) d) of
                       (Some identity, Some p) \<Rightarrow>
                         if \<not> json_eq (JObj identity) (JObj (profile_identity p))
                            \<or> dget contract ''evaluator_profile_digest'' \<noteq> JStr (ep_profile_digest p)
                            \<or> dget contract ''evaluator_package_digest'' \<noteq> JStr (ep_package_digest p)
                         then http 409
                           ''Reviewer lease identity differs from the routed profile/package.''
                         else if er_subject_type r \<noteq> ''alpha_strategy_qualification''
                            \<or> dget contract ''subject_digest'' \<noteq> JStr (er_subject_digest r)
                            \<or> dget contract ''review_kind'' \<noteq> JStr (ea_review_kind a)
                            \<or> digest_json (dget contract ''subject'') \<noteq> er_subject_digest r
                            \<or> dget contract ''authority'' \<noteq> JStr ''review_only_no_execution''
                         then http 422 ''Strategy review task differs from its routed subject.''
                         else complete_assignment now r a completion d
                     | _ \<Rightarrow> http 409
                         ''Reviewer lease identity differs from the routed profile/package.'')
                | _ \<Rightarrow> http 409 ''Strategy review route or assignment is missing.'')))"

definition require_independence :: "evaluation_route \<Rightarrow> db \<Rightarrow> independence_receipt res" where
  "require_independence r d =
     (case (er_status r, route_receipt (er_id r) d) of
        (RouteCompleted, Some receipt) \<Rightarrow> Inr receipt
      | _ \<Rightarrow> http 409 ''Independent evaluation is incomplete; promotion must remain blocked.'')"

section \<open>Using a completed route\<close>

text \<open>\<open>policy.get("required_review_kinds", [])\<close>.\<close>

definition policy_kinds :: "dict \<Rightarrow> string list" where
  "policy_kinds policy =
     (case Option.bind (dict_get policy ''required_review_kinds'') json_strs of
        None \<Rightarrow> [] | Some ks \<Rightarrow> ks)"

definition policy_ceiling :: "dict \<Rightarrow> int" where
  "policy_ceiling policy =
     (case dict_get policy ''max_pairwise_shared_dimensions'' of Some (JInt i) \<Rightarrow> i | _ \<Rightarrow> 4)"

text \<open>The conditions on the route, the qualifier and the receipt before any assignment is read.\<close>

definition route_admissible ::
  "evaluation_route \<Rightarrow> string \<Rightarrow> uuid option \<Rightarrow> bool" where
  "route_admissible r subject_digest producer_agent_id =
     (er_subject_type r = ''alpha_strategy_qualification'' \<and> er_subject_digest r = subject_digest
      \<and> er_status r = RouteCompleted
      \<and> (case producer_agent_id of None \<Rightarrow> False
         | Some i \<Rightarrow> dget (er_producer r) ''agent_id'' = juuid i)
      \<and> {''strategy_spec'', ''causality_leakage''} \<subseteq> set (policy_kinds (er_policy r)))"

definition qualifier_admissible :: "evaluation_route \<Rightarrow> dict list \<Rightarrow> dict option \<Rightarrow> bool" where
  "qualifier_admissible r excluded_identities qualifier =
     (case qualifier of
        None \<Rightarrow> True
      | Some q \<Rightarrow>
          list_ex (\<lambda>x. json_eq (JObj q) (JObj x)) excluded_identities
          \<and> list_all (\<lambda>k. json_eq (dget q k) (dget (er_producer r) k))
               [''agent_id'', ''package_digest'', ''context_group'', ''machine'', ''provider'',
                ''model_family'', ''runtime''])"

definition receipt_admissible ::
  "evaluation_route \<Rightarrow> string \<Rightarrow> independence_receipt \<Rightarrow> bool" where
  "receipt_admissible r subject_digest c =
     (ir_subject_digest c = subject_digest \<and> ir_verdict c = ''independence_demonstrated''
      \<and> ir_receipt_digest c = digest_json (JObj (ir_assertion c))
      \<and> dget (ir_assertion c) ''route_digest'' = JStr (er_route_digest r)
      \<and> dget (ir_assertion c) ''subject_digest'' = JStr subject_digest
      \<and> json_eq (dget (ir_assertion c) ''producer'') (JObj (er_producer r))
      \<and> json_eq (dget (ir_assertion c) ''policy'') (JObj (er_policy r)))"

definition separated :: "int \<Rightarrow> dict \<Rightarrow> dict \<Rightarrow> bool" where
  "separated ceiling identity other =
     (hard_conflicts identity other = [] \<and> co_count (correlate identity other) \<le> ceiling)"

text \<open>The events that complete an assignment, and the entries of the assertion that attest it.\<close>

definition matching_events ::
  "evaluation_route_event list \<Rightarrow> evaluator_assignment \<Rightarrow> evaluation_route_event list" where
  "matching_events events a =
     filter (\<lambda>e. dget (ev_payload e) ''assignment_digest'' = JStr (ea_assignment_digest a)
        \<and> json_eq (dget (ev_payload e) ''review_digest'') (option_json JStr (ea_review_digest a))
        \<and> Some (ev_actor e) = ea_completed_by a) events"

definition attesting ::
  "json list \<Rightarrow> evaluator_assignment \<Rightarrow> evaluator_profile \<Rightarrow> alpha_strategy_review \<Rightarrow> json list" where
  "attesting asserted a p review =
     filter (\<lambda>v. obj_get v ''assignment_digest'' = Some (JStr (ea_assignment_digest a))
        \<and> obj_get v ''review_kind'' = Some (JStr (ea_review_kind a))
        \<and> obj_get v ''review_digest'' = Some (option_json JStr (ea_review_digest a))
        \<and> (case obj_get v ''alpha_strategy_review'' of None \<Rightarrow> False
           | Some x \<Rightarrow> json_eq x (review_json review))
        \<and> (case obj_get v ''evaluator_identity'' of None \<Rightarrow> False
           | Some x \<Rightarrow> json_eq x (JObj (profile_identity p)))) asserted"

text \<open>The loop over the assignments: the identities reviewed so far go round.\<close>

fun review_loop ::
  "evaluation_route \<Rightarrow> db \<Rightarrow> string \<Rightarrow> uuid list \<Rightarrow> dict list \<Rightarrow> evaluation_route_event list
     \<Rightarrow> json list \<Rightarrow> dict list \<Rightarrow> evaluator_assignment list \<Rightarrow> alpha_strategy_review list option" where
  "review_loop r d subject_digest barred others events asserted reviewed [] = Some []"
| "review_loop r d subject_digest barred others events asserted reviewed (a # as) =
     (case (get_profile (ea_evaluator_profile_id a) d, matching_events events a) of
        (Some p, [e]) \<Rightarrow>
          if ea_status a \<noteq> AssignmentCompleted \<or> ea_completed_by a \<noteq> Some (uuid_str (ep_agent_id p))
             \<or> uuid_str (ep_agent_id p) \<in> set (map uuid_str barred)
             \<or> \<not> list_all (separated (policy_ceiling (er_policy r)) (profile_identity p))
                   (er_producer r # others @ reviewed)
          then None
          else
            (case parse_review (dget (ev_payload e) ''alpha_strategy_review'') of
               None \<Rightarrow> None
             | Some review \<Rightarrow>
                 if rv_subject_digest review \<noteq> subject_digest
                    \<or> ea_review_digest a \<noteq> Some (digest_json (review_json review))
                    \<or> length (attesting asserted a p review) \<noteq> 1
                 then None
                 else
                   map_option (Cons review)
                     (review_loop r d subject_digest barred others events asserted
                        (reviewed @ [profile_identity p]) as))
      | _ \<Rightarrow> None)"

definition validated_alpha_strategy_reviews ::
  "evaluation_route \<Rightarrow> string \<Rightarrow> uuid option \<Rightarrow> uuid list \<Rightarrow> dict list \<Rightarrow> dict option \<Rightarrow> db
     \<Rightarrow> alpha_strategy_review list option" where
  "validated_alpha_strategy_reviews r subject_digest producer_agent_id excluded_agent_ids
      excluded_identities qualifier d =
     (if \<not> route_admissible r subject_digest producer_agent_id
         \<or> \<not> qualifier_admissible r excluded_identities qualifier
      then None
      else
        (case (route_receipt (er_id r) d, producer_agent_id) of
           (Some c, Some producer) \<Rightarrow>
             (let as = route_assignments (er_id r) d;
                  events = filter (\<lambda>e. ev_route_id e = er_id r
                             \<and> ev_event_type e = ''evaluation_completed'') (route_events d)
              in if \<not> receipt_admissible r subject_digest c
                    \<or> ea_review_kind ` set as \<noteq> set (policy_kinds (er_policy r))
                 then None
                 else
                   (case dget (ir_assertion c) ''assignments'' of
                      JList asserted \<Rightarrow>
                        if length asserted \<noteq> length as then None
                        else
                          (case review_loop r d subject_digest (producer # excluded_agent_ids)
                                  excluded_identities events asserted [] as of
                             None \<Rightarrow> None
                           | Some [] \<Rightarrow> None
                           | Some rs \<Rightarrow> Some rs)
                    | _ \<Rightarrow> None))
         | _ \<Rightarrow> None))"

definition alpha_strategy_reviews_approved ::
  "evaluation_route \<Rightarrow> string \<Rightarrow> uuid option \<Rightarrow> uuid list \<Rightarrow> dict list \<Rightarrow> dict option \<Rightarrow> db \<Rightarrow> bool" where
  "alpha_strategy_reviews_approved r subject_digest producer excluded_agent_ids
      excluded_identities qualifier d =
     (case validated_alpha_strategy_reviews r subject_digest producer excluded_agent_ids
             excluded_identities qualifier d of
        None \<Rightarrow> False
      | Some rs \<Rightarrow> list_all (\<lambda>rv. rv_verdict rv = ''approve'') rs)"

section \<open>Properties of the choice\<close>

lemma min_by_None [simp]: "min_by key xs = None \<longleftrightarrow> xs = []"
  by (cases xs) (auto split: option.splits)

lemma min_by_Some:
  assumes "min_by key xs = Some x"
  shows "x \<in> set xs" and "\<And>y. y \<in> set xs \<Longrightarrow> key x \<le> key y"
proof -
  have "x \<in> set xs \<and> (\<forall>y \<in> set xs. key x \<le> key y)"
    using assms
  proof (induction xs arbitrary: x)
    case (Cons a xs)
    then show ?case by (cases "min_by key xs") (fastforce split: if_splits)+
  qed simp
  then show "x \<in> set xs" and "\<And>y. y \<in> set xs \<Longrightarrow> key x \<le> key y" by auto
qed

lemma singleton_unless: "(if b then [x] else []) = [] \<longleftrightarrow> \<not> b"
  by simp

text \<open>What it means that a candidate is not excluded.\<close>

lemma exclusion_reasons_empty:
  "exclusion_reasons q selected kind p = [] \<longleftrightarrow>
     hard_conflicts (producer_json (rc_producer q)) (profile_identity p) = []
     \<and> (\<forall>x \<in> set (rc_excluded_producers q).
          separated (rc_max_pairwise_shared_dimensions q) (producer_json x) (profile_identity p))
     \<and> kind \<in> set (ep_review_kinds p)
     \<and> set (rc_required_capabilities q) \<subseteq> set (ep_capabilities p)
     \<and> (rc_subject_type q = ''alpha_strategy_qualification'' \<longrightarrow>
          ''alpha-strategy-review-'' @ kind \<in> set (ep_capabilities p))
     \<and> (\<forall>(k, s, rep) \<in> set selected.
          separated (rc_max_pairwise_shared_dimensions q) (profile_identity s) (profile_identity p))"
  unfolding exclusion_reasons_def Let_def append_is_Nil_conv singleton_unless
  by (simp add: producer_corr_def excluded_corr_def selected_corr_def separated_def correlate_def
      list_ex_iff not_less case_prod_unfold) blast

text \<open>The evaluators of a choice are pairwise separated.\<close>

definition pairwise_separated :: "int \<Rightarrow> selection list \<Rightarrow> bool" where
  "pairwise_separated c sel =
     sorted_wrt (\<lambda>(_, s, _) (_, p, _). separated c (profile_identity s) (profile_identity p)) sel"

lemma route_loop_Inr:
  assumes "route_loop ps q selected excluded kinds = Inr sel"
    and "pairwise_separated (rc_max_pairwise_shared_dimensions q) selected"
  shows "pairwise_separated (rc_max_pairwise_shared_dimensions q) sel
    \<and> (\<exists>new. sel = selected @ new \<and> map fst new = kinds
        \<and> (\<forall>(k, p, rep) \<in> set new. p \<in> set ps \<and> exclusion_reasons q [] k p = []))"
  using assms
proof (induction kinds arbitrary: selected excluded)
  case Nil
  then show ?case by simp
next
  case (Cons k kinds)
  from Cons.prems(1) obtain p excluded' where
    p: "min_by (\<lambda>p. (correlation_score q selected p, ep_profile_digest p))
          (filter (\<lambda>p. exclusion_reasons q selected k p = []) ps) = Some p"
    and rest: "route_loop ps q (selected @ [(k, p, correlation_report q selected p)]) excluded' kinds
          = Inr sel"
    by (auto simp: Let_def split: option.splits)
  have p': "p \<in> set ps" "exclusion_reasons q selected k p = []" using min_by_Some(1)[OF p] by auto
  then have "pairwise_separated (rc_max_pairwise_shared_dimensions q)
      (selected @ [(k, p, correlation_report q selected p)])"
    using Cons.prems(2)
    by (auto simp: pairwise_separated_def sorted_wrt_append exclusion_reasons_empty)
  from Cons.IH[OF rest this] obtain new where
    "pairwise_separated (rc_max_pairwise_shared_dimensions q) sel"
    "sel = selected @ (k, p, correlation_report q selected p) # new" "map fst new = kinds"
    "\<forall>(k, p, rep) \<in> set new. p \<in> set ps \<and> exclusion_reasons q [] k p = []"
    by auto
  moreover have "exclusion_reasons q [] k p = []"
    using p'(2) by (auto simp: exclusion_reasons_empty)
  ultimately show ?case using p'(1) by (intro conjI exI[of _ "(k, p, correlation_report q selected p) # new"]) auto
qed

text \<open>What a choice of evaluators satisfies, of whatever profiles it was made.\<close>

lemma route_profiles_sound:
  assumes "route_profiles ps q = Inr sel"
  shows "map fst sel = rc_required_review_kinds q
    \<and> (\<forall>(k, p, rep) \<in> set sel. p \<in> set ps \<and> k \<in> set (ep_review_kinds p)
        \<and> set (rc_required_capabilities q) \<subseteq> set (ep_capabilities p)
        \<and> hard_conflicts (producer_json (rc_producer q)) (profile_identity p) = []
        \<and> (\<forall>x \<in> set (rc_excluded_producers q).
             separated (rc_max_pairwise_shared_dimensions q) (producer_json x) (profile_identity p)))
    \<and> pairwise_separated (rc_max_pairwise_shared_dimensions q) sel"
proof -
  have "pairwise_separated (rc_max_pairwise_shared_dimensions q) []"
    by (simp add: pairwise_separated_def)
  from route_loop_Inr[OF assms[unfolded route_profiles_def] this] show ?thesis
    by (auto simp: exclusion_reasons_empty)
qed

lemma append_route_event_frame [simp]:
  "routes (append_route_event x d) = routes d" "assignments (append_route_event x d) = assignments d"
  "receipts (append_route_event x d) = receipts d" "profiles (append_route_event x d) = profiles d"
  "next_uuid (append_route_event x d) = next_uuid d" "agents (append_route_event x d) = agents d"
  by (simp_all add: append_route_event_def Let_def split: prod.split)

lemma upd_route_frame [simp]:
  "routes (upd_route i f d) = upd_row er_id i f (routes d)"
  "assignments (upd_route i f d) = assignments d" "receipts (upd_route i f d) = receipts d"
  "route_events (upd_route i f d) = route_events d" "next_uuid (upd_route i f d) = next_uuid d"
  by (simp_all add: upd_route_def)

lemma assign_evaluators_rows:
  "efold (assign_evaluator now r) sel d = Inr d' \<Longrightarrow>
   \<exists>as. assignments d' = assignments d @ as
     \<and> map (\<lambda>a. (ea_route_id a, ea_review_kind a, ea_evaluator_profile_id a)) as
         = map (\<lambda>(k, p, _). (er_id r, k, ep_id p)) sel"
proof (induction sel arbitrary: d)
  case (Cons x sel)
  obtain k p rep where x: "x = (k, p, rep)" by (cases x)
  obtain d1 where 1: "assign_evaluator now r x d = Inr d1" and rest: "efold (assign_evaluator now r) sel d1 = Inr d'"
    using Cons.prems by (auto simp: ebind_Inr_iff)
  obtain a where a: "assignments d1 = assignments d @ [a]" "ea_route_id a = er_id r" "ea_review_kind a = k"
      "ea_evaluator_profile_id a = ep_id p"
    using 1 by (auto simp: x assign_evaluator_def Let_def split: if_split_asm)
  obtain as where "assignments d' = assignments d1 @ as"
      "map (\<lambda>a. (ea_route_id a, ea_review_kind a, ea_evaluator_profile_id a)) as = map (\<lambda>(k, p, _). (er_id r, k, ep_id p)) sel"
    using Cons.IH[OF rest] by blast
  then show ?case using a by (intro exI[of _ "a # as"]) (simp add: x)
qed simp

text \<open>
  (C5) Creating a route either finds no independent evaluator for one of the kinds, and then assigns
  none at all, or it assigns each required review kind, in order, to an active profile whose agent is
  enabled and runs where the profile says; the evaluator reviews the kind, has the required
  capabilities and shares no agent, package or context with the producer; every evaluator is
  separated, with at most the allowed number of shared dimensions, from every excluded producer
  and from every other chosen evaluator.
\<close>

theorem route_profiles_independent:
  assumes "create_route now q d = Inr (i, d')"
  shows "(\<exists>reason. route_profiles (active_profiles d) q = Inl reason \<and> assignments d' = assignments d)
    \<or> (\<exists>sel as. assignments d' = assignments d @ as
      \<and> map (\<lambda>a. (ea_route_id a, ea_review_kind a, ea_evaluator_profile_id a)) as = map (\<lambda>(k, p, _). (i, k, ep_id p)) sel
      \<and> map fst sel = rc_required_review_kinds q
      \<and> (\<forall>(k, p, rep) \<in> set sel. p \<in> set (profiles d) \<and> ep_status p = ProfileActive
          \<and> (\<exists>ag. get_agent (ep_agent_id p) d = Some ag \<and> a_is_enabled ag \<and> a_machine ag = ep_machine p)
          \<and> k \<in> set (ep_review_kinds p) \<and> set (rc_required_capabilities q) \<subseteq> set (ep_capabilities p)
          \<and> hard_conflicts (producer_json (rc_producer q)) (profile_identity p) = []
          \<and> (\<forall>x \<in> set (rc_excluded_producers q).
               separated (rc_max_pairwise_shared_dimensions q) (producer_json x) (profile_identity p)))
      \<and> pairwise_separated (rc_max_pairwise_shared_dimensions q) sel)"
proof -
  let ?r = "new_route now q (next_uuid d)"
  obtain d1 where i: "i = er_id ?r" and d1: "assignments d1 = assignments d"
    and assign: "assign_route now ?r q (active_profiles d) d1 = Inr d'"
    using assms by (fastforce simp: create_route_def Let_def ebind_Inr_iff split: if_split_asm)
  show ?thesis
  proof (cases "route_profiles (active_profiles d) q")
    case (Inl reason)
    then show ?thesis
      using assign d1 by (auto simp: assign_route_def Let_def)
  next
    case (Inr sel)
    obtain d2 where d2: "efold (assign_evaluator now ?r) sel d1 = Inr d2" and d': "assignments d' = assignments d2"
      using assign Inr by (auto simp: assign_route_def ebind_Inr_iff)
    from assign_evaluators_rows[OF d2] obtain as where as: "assignments d2 = assignments d1 @ as"
      "map (\<lambda>a. (ea_route_id a, ea_review_kind a, ea_evaluator_profile_id a)) as = map (\<lambda>(k, p, _). (er_id ?r, k, ep_id p)) sel"
      by blast
    have active: "p \<in> set (profiles d) \<and> ep_status p = ProfileActive
        \<and> (\<exists>ag. get_agent (ep_agent_id p) d = Some ag \<and> a_is_enabled ag \<and> a_machine ag = ep_machine p)"
      if "p \<in> set (active_profiles d)" for p
      using that by (auto simp: active_profiles_def split: option.split_asm)
    show ?thesis
      using route_profiles_sound[OF Inr] active as d' d1 i
      by (intro disjI2 exI[of _ sel] exI[of _ as]) fastforce
  qed
qed

lemma route_loop_extends:
  "route_loop ps q selected excluded kinds = Inr sel \<Longrightarrow> prefix selected sel"
proof (induction kinds arbitrary: selected excluded)
  case (Cons k kinds)
  from Cons.prems obtain p rep excluded' where
    "route_loop ps q (selected @ [(k, p, rep)]) excluded' kinds = Inr sel"
    by (auto simp: Let_def split: option.splits)
  from Cons.IH[OF this] show ?case by (auto dest: append_prefixD)
qed simp

lemma route_loop_minimal:
  assumes "route_loop ps q selected excluded kinds = Inr sel" and "length selected \<le> i"
    and "i < length sel" and "sel ! i = (k, p, rep)"
    and "p' \<in> set ps" and "exclusion_reasons q (take i sel) k p' = []"
  shows "rep = correlation_report q (take i sel) p
    \<and> (correlation_score q (take i sel) p, ep_profile_digest p)
        \<le> (correlation_score q (take i sel) p', ep_profile_digest p')"
  using assms
proof (induction kinds arbitrary: selected excluded)
  case Nil
  then show ?case by simp
next
  case (Cons k' kinds)
  from Cons.prems(1) obtain c excluded' where
    c: "min_by (\<lambda>p. (correlation_score q selected p, ep_profile_digest p))
          (filter (\<lambda>p. exclusion_reasons q selected k' p = []) ps) = Some c"
    and rest: "route_loop ps q (selected @ [(k', c, correlation_report q selected c)]) excluded' kinds
          = Inr sel"
    by (auto simp: Let_def split: option.splits)
  show ?case
  proof (cases "i = length selected")
    case False
    then show ?thesis using Cons.IH[OF rest] Cons.prems(2-) by simp
  next
    case True
    have "take i sel = selected" "sel ! i = (k', c, correlation_report q selected c)"
      using route_loop_extends[OF rest] True by (auto simp: prefix_def nth_append)
    then show ?thesis using Cons.prems(4-6) min_by_Some(2)[OF c, of p'] by auto
  qed
qed

text \<open> Each evaluator is the best available at its turn: no candidate that could have been
  chosen shares fewer dimensions with the producer and the evaluators chosen before it, and
  a tie goes to the smaller profile digest.
\<close>

theorem route_profiles_minimal:
  assumes "route_profiles ps q = Inr sel" and "i < length sel" and "sel ! i = (k, p, rep)"
    and "p' \<in> set ps" and "exclusion_reasons q (take i sel) k p' = []"
  shows "(correlation_score q (take i sel) p, ep_profile_digest p)
        \<le> (correlation_score q (take i sel) p', ep_profile_digest p')"
  using route_loop_minimal[OF assms(1)[unfolded route_profiles_def] _ assms(2-5)] by simp

section \<open>Properties of validated reviews\<close>

text \<open>
  The evaluator with identity \<open>i\<close> completed assignment \<open>a\<close>: it is the routed one, it
  is not barred, and it is separated from the producer and the other given identities.
\<close>

definition routed_reviewer ::
  "evaluation_route \<Rightarrow> uuid list \<Rightarrow> dict list \<Rightarrow> db \<Rightarrow> evaluator_assignment \<Rightarrow> dict \<Rightarrow> bool" where
  "routed_reviewer r barred others d a i =
     (case get_profile (ea_evaluator_profile_id a) d of
        None \<Rightarrow> False
      | Some p \<Rightarrow>
          i = profile_identity p \<and> ea_status a = AssignmentCompleted
          \<and> ea_completed_by a = Some (uuid_str (ep_agent_id p)) \<and> ep_agent_id p \<notin> set barred
          \<and> list_all (separated (policy_ceiling (er_policy r)) i) (er_producer r # others))"

definition review_of :: "string \<Rightarrow> evaluator_assignment \<Rightarrow> alpha_strategy_review \<Rightarrow> bool" where
  "review_of sd a rv =
     (ea_review_digest a = Some (digest_json (review_json rv)) \<and> rv_subject_digest rv = sd
      \<and> valid_review rv)"

definition mutually_separated :: "int \<Rightarrow> dict list \<Rightarrow> bool" where
  "mutually_separated c ids = sorted_wrt (\<lambda>i j. separated c j i) ids"

lemma parse_review_valid: "parse_review v = Some rv \<Longrightarrow> valid_review rv"
  by (auto simp: parse_review_def Let_def split: json.splits if_splits option.splits)

lemma review_loop_Some:
  assumes "review_loop r d sd barred others events asserted reviewed as = Some rs"
    and "mutually_separated (policy_ceiling (er_policy r)) reviewed"
  shows "list_all2 (review_of sd) as rs
    \<and> (\<exists>ids. list_all2 (routed_reviewer r barred others d) as ids
         \<and> mutually_separated (policy_ceiling (er_policy r)) (reviewed @ ids))"
  using assms
proof (induction as arbitrary: reviewed rs)
  case Nil
  then show ?case by simp
next
  case (Cons a as)
  from Cons.prems(1) obtain p where p: "get_profile (ea_evaluator_profile_id a) d = Some p"
    by (auto split: option.splits)
  from Cons.prems(1) p obtain e where e: "matching_events events a = [e]"
    by (auto split: list.splits)
  have ok: "ea_status a = AssignmentCompleted" "ea_completed_by a = Some (uuid_str (ep_agent_id p))"
      "uuid_str (ep_agent_id p) \<notin> set (map uuid_str barred)"
      "list_all (separated (policy_ceiling (er_policy r)) (profile_identity p))
         (er_producer r # others @ reviewed)"
    using Cons.prems(1) p e by (simp_all split: if_splits)
  from Cons.prems(1) p e ok obtain rv rs' where rv: "review_of sd a rv" "rs = rv # rs'"
    and rest: "review_loop r d sd barred others events asserted (reviewed @ [profile_identity p]) as
        = Some rs'"
    by (auto simp: review_of_def split: option.splits if_splits dest: parse_review_valid)
  have "mutually_separated (policy_ceiling (er_policy r)) (reviewed @ [profile_identity p])"
    using Cons.prems(2) ok(4) by (simp add: mutually_separated_def sorted_wrt_append list_all_iff)
  from Cons.IH[OF rest this] obtain ids where
    "list_all2 (review_of sd) as rs'" "list_all2 (routed_reviewer r barred others d) as ids"
    "mutually_separated (policy_ceiling (er_policy r)) (reviewed @ profile_identity p # ids)"
    by auto
  moreover have "routed_reviewer r barred others d a (profile_identity p)"
    using p ok by (auto simp: routed_reviewer_def)
  ultimately show ?case
    using rv by (auto intro!: exI[of _ "profile_identity p # ids"])
qed

text \<open>
  (C6) Reviews that are accepted for a strategy are independent: every review kind of the
  policy is covered; each review was completed by the routed evaluator, which is neither
  the producer nor a barred agent; and the evaluators are separated from the producer, from
  the excluded identities and from each other.
\<close>

theorem validated_reviews_independent:
  assumes "validated_alpha_strategy_reviews r sd (Some producer) barred others qualifier d = Some rs"
  shows "er_status r = RouteCompleted \<and> er_subject_digest r = sd \<and> rs \<noteq> []
    \<and> ea_review_kind ` set (route_assignments (er_id r) d) = set (policy_kinds (er_policy r))
    \<and> {''strategy_spec'', ''causality_leakage''} \<subseteq> set (policy_kinds (er_policy r))
    \<and> list_all2 (review_of sd) (route_assignments (er_id r) d) rs
    \<and> (\<exists>ids. list_all2 (routed_reviewer r (producer # barred) others d)
            (route_assignments (er_id r) d) ids
         \<and> mutually_separated (policy_ceiling (er_policy r)) ids)"
proof -
  from assms have adm: "route_admissible r sd (Some producer)"
    by (auto simp: validated_alpha_strategy_reviews_def split: if_splits)
  from assms obtain events asserted where
    loop: "review_loop r d sd (producer # barred) others events asserted []
        (route_assignments (er_id r) d) = Some rs" "rs \<noteq> []"
    and kinds: "ea_review_kind ` set (route_assignments (er_id r) d) = set (policy_kinds (er_policy r))"
    by (auto simp: validated_alpha_strategy_reviews_def Let_def
        split: if_splits option.splits json.splits list.splits)
  have "mutually_separated (policy_ceiling (er_policy r)) []" by (simp add: mutually_separated_def)
  from review_loop_Some[OF loop(1) this] loop(2) kinds adm show ?thesis
    by (simp add: route_admissible_def)
qed

section \<open>The log of a route is a hash chain\<close>

definition route_chain_ok :: "uuid \<Rightarrow> db \<Rightarrow> bool" where
  "route_chain_ok i d =
     linked ev_previous_digest ev_sequence ev_event_digest route_event_doc None 1
       (filter (\<lambda>e. ev_route_id e = i) (route_events d))"

interpretation route_log: chained_log route_events ev_route_id ev_sequence
  ev_previous_digest ev_event_digest route_event_doc append_route_event "\<lambda>x. fst (snd x)"
  by unfold_locales (auto simp: append_route_event_def route_event_doc_def Let_def split: prod.split)

lemma route_chain_ok_append: "route_chain_ok i d \<Longrightarrow> route_chain_ok i (append_route_event x d)"
  using route_log.append_chain_ok[of i d x]
  by (simp add: route_chain_ok_def route_log.chain_ok_def route_log.chain_of_def)

lemma route_chain_ok_cong: "route_events d = route_events d' \<Longrightarrow> route_chain_ok i d = route_chain_ok i d'"
  by (simp add: route_chain_ok_def)

lemma upd_assignment_frame [simp]:
  "assignments (upd_assignment i f d) = upd_row ea_id i f (assignments d)"
  "routes (upd_assignment i f d) = routes d" "receipts (upd_assignment i f d) = receipts d"
  "route_events (upd_assignment i f d) = route_events d"
  "next_uuid (upd_assignment i f d) = next_uuid d"
  by (simp_all add: upd_assignment_def)

text \<open>The operations on routes, each on the current rows, as steps of the database.\<close>

inductive route_step :: "db \<Rightarrow> db \<Rightarrow> bool" where
  register: "register_profile now q d = Inr (p, d') \<Longrightarrow> route_step d d'"
| create: "create_route now rq d = Inr (i, d') \<Longrightarrow> route_step d d'"
| retry: "r \<in> set (routes d) \<Longrightarrow> retry_blocked_route now r d = Inr d' \<Longrightarrow> route_step d d'"
| complete: "r \<in> set (routes d) \<Longrightarrow> a \<in> set (assignments d) \<Longrightarrow> ea_route_id a = er_id r \<Longrightarrow>
    complete_assignment now r a q d = Inr d' \<Longrightarrow> route_step d d'"

inductive_cases route_stepE: "route_step d d'"

text \<open>
  The steps differ in the rows they touch, but each is a sequence of a few elementary
  changes; an invariant of these is an invariant of the steps.
\<close>

lemma assign_evaluator_shape:
  assumes "assign_evaluator now r sel d = Inr d'"
  shows "\<exists>a x. ea_route_id a = er_id r \<and> ea_status a = AssignmentAssigned \<and>
    d' = append_route_event x (d\<lparr>assignments := assignments d @ [a], next_uuid := Suc (next_uuid d)\<rparr>)"
  using assms
  by (cases sel) (auto simp: assign_evaluator_def Let_def intro!: exI split: if_splits)

lemma issue_receipt_shape:
  assumes "issue_receipt now r as d = Inr d'"
  shows "d' = d \<or> (\<exists>entries x. d' = append_route_event x
      (upd_route (er_id r) (completed_route now)
         (d\<lparr>receipts := receipts d @ [new_receipt now r entries (next_uuid d)],
            next_uuid := Suc (next_uuid d)\<rparr>)))"
  using assms by (force simp: issue_receipt_def Let_def ebind_Inr_iff split: if_splits)

lemma register_profile_frame:
  assumes "register_profile now q d = Inr (p, d')"
  shows "routes d' = routes d" "assignments d' = assignments d" "receipts d' = receipts d"
    "route_events d' = route_events d" "next_uuid d' = Suc (next_uuid d)"
  using assms by (auto simp: register_profile_def Let_def split: option.splits if_splits prod.splits)

lemma create_route_shape:
  assumes "create_route now q d = Inr (i, d')"
  shows "\<exists>r x. er_id r = next_uuid d \<and> er_status r = RouteRouting
    \<and> assign_route now r q (active_profiles d)
        (append_route_event x (d\<lparr>routes := routes d @ [r], next_uuid := Suc (next_uuid d)\<rparr>)) = Inr d'"
  using assms
  by (auto simp: create_route_def new_route_def Let_def ebind_Inr_iff intro!: exI split: if_splits)

lemma complete_assignment_shape:
  assumes "complete_assignment now r a q d = Inr d'"
  shows "er_status r = RouteAssigned \<and> ea_status a = AssignmentAssigned
    \<and> (\<exists>review d2. d2 = append_route_event (now, er_id r, ''evaluation_completed'',
              uuid_str (ac_evaluator_agent_id q), completion_payload a q review)
            (upd_assignment (ea_id a) (completed_assignment now q) d)
        \<and> (d' = d2 \<or>
            list_all (\<lambda>x. ea_status x = AssignmentCompleted) (route_assignments (er_id r) d2)
            \<and> issue_receipt now r (route_assignments (er_id r) d2) d2 = Inr d'))"
  using assms unfolding complete_assignment_def Let_def
  by (force simp: ebind_Inr_iff split: if_splits option.splits)

text \<open>
  A receipt is only of a route that is completed (or superseded later), and all the
  assignments of that route are completed.
\<close>

definition receipts_ok :: "db \<Rightarrow> bool" where
  "receipts_ok d =
     (list_all (\<lambda>r. er_id r < next_uuid d) (routes d)
      \<and> list_all (\<lambda>c. ir_route_id c < next_uuid d
          \<and> list_all (\<lambda>r. er_id r = ir_route_id c \<longrightarrow>
               er_status r \<in> {RouteCompleted, RouteSuperseded}) (routes d)
          \<and> list_all (\<lambda>a. ea_route_id a = ir_route_id c \<longrightarrow>
               ea_status a = AssignmentCompleted) (assignments d)) (receipts d))"

text \<open>No receipt of a route yet.\<close>

definition unreceipted :: "uuid \<Rightarrow> db \<Rightarrow> bool" where
  "unreceipted i d = (i \<notin> ir_route_id ` set (receipts d))"

lemmas receipts_simps = receipts_ok_def unreceipted_def list_all_iff

lemma receipts_ok_append [simp]:
  "receipts_ok (append_route_event x d) = receipts_ok d"
  "unreceipted i (append_route_event x d) = unreceipted i d"
  by (simp_all add: receipts_simps)

lemma receipts_ok_upd_route:
  assumes "receipts_ok d" and "unreceipted i d" and "\<And>r. er_id (f r) = er_id r"
  shows "receipts_ok (upd_route i f d)"
  using assms by (fastforce simp: receipts_simps upd_row_def)

lemma receipts_ok_assign_evaluator:
  assumes "receipts_ok d" and "unreceipted (er_id r) d" and "assign_evaluator now r sel d = Inr d'"
  shows "receipts_ok d' \<and> unreceipted (er_id r) d'"
proof -
  obtain a x where "ea_route_id a = er_id r" and d': "d' = append_route_event x
      (d\<lparr>assignments := assignments d @ [a], next_uuid := Suc (next_uuid d)\<rparr>)"
    using assign_evaluator_shape[OF assms(3)] by blast
  then have "receipts_ok (d\<lparr>assignments := assignments d @ [a], next_uuid := Suc (next_uuid d)\<rparr>)"
    using assms(1,2) by (fastforce simp: receipts_simps)
  then show ?thesis using assms(2) by (simp add: d' unreceipted_def)
qed

lemma receipts_ok_assign_route:
  assumes "receipts_ok d" and "unreceipted (er_id r) d" and "assign_route now r q ps d = Inr d'"
  shows "receipts_ok d'"
proof (cases "route_profiles ps q")
  case (Inl reason)
  then show ?thesis
    using assms by (auto simp: assign_route_def Let_def intro!: receipts_ok_upd_route)
next
  case (Inr sel)
  then obtain d1 where d1: "efold (assign_evaluator now r) sel d = Inr d1"
    and d': "d' = upd_route (er_id r) (\<lambda>r. r\<lparr>er_status := RouteAssigned, er_blocked_reason := []\<rparr>) d1"
    using assms(3) by (auto simp: assign_route_def ebind_Inr_iff)
  have "receipts_ok d1 \<and> unreceipted (er_id r) d1"
    by (rule efold_invariant[OF _ _ d1]) (use assms receipts_ok_assign_evaluator in blast)+
  then show ?thesis unfolding d' by (simp add: receipts_ok_upd_route)
qed

lemma receipts_ok_issue:
  assumes "receipts_ok d" and "r \<in> set (routes d)"
    and "list_all (\<lambda>x. ea_status x = AssignmentCompleted) (route_assignments (er_id r) d)"
    and "issue_receipt now r as d = Inr d'"
  shows "receipts_ok d'"
proof -
  let ?d = "\<lambda>entries. upd_route (er_id r) (completed_route now)
         (d\<lparr>receipts := receipts d @ [new_receipt now r entries (next_uuid d)],
            next_uuid := Suc (next_uuid d)\<rparr>)"
  have "receipts_ok (?d entries)" for entries
    using assms(1-3)
    by (fastforce simp: receipts_simps upd_row_def completed_route_def new_receipt_def
        route_assignments_def)
  then show ?thesis using issue_receipt_shape[OF assms(4)] assms(1) by auto
qed

lemma receipts_ok_complete:
  assumes "receipts_ok d" and "r \<in> set (routes d)" and "complete_assignment now r a q d = Inr d'"
  shows "receipts_ok d'"
proof -
  obtain x d2 where d2: "d2 = append_route_event x (upd_assignment (ea_id a) (completed_assignment now q) d)"
    and d': "d' = d2 \<or> list_all (\<lambda>x. ea_status x = AssignmentCompleted) (route_assignments (er_id r) d2)
            \<and> issue_receipt now r (route_assignments (er_id r) d2) d2 = Inr d'"
    using complete_assignment_shape[OF assms(3)] by blast
  have "receipts_ok (upd_assignment (ea_id a) (completed_assignment now q) d)"
    using assms(1) by (fastforce simp: receipts_simps upd_row_def completed_assignment_def)
  then have "receipts_ok d2" by (simp add: d2)
  moreover have "r \<in> set (routes d2)" using assms(2) by (simp add: d2)
  ultimately show ?thesis using d' receipts_ok_issue by blast
qed

lemma receipts_ok_step: "route_step d d' \<Longrightarrow> receipts_ok d \<Longrightarrow> receipts_ok d'"
proof (induction rule: route_step.induct)
  case (register now q d p d')
  then show ?case using register_profile_frame[OF register(1)] by (fastforce simp: receipts_simps)
next
  case (create now rq d i d')
  obtain r x where r: "er_id r = next_uuid d"
    and d': "assign_route now r rq (active_profiles d)
        (append_route_event x (d\<lparr>routes := routes d @ [r], next_uuid := Suc (next_uuid d)\<rparr>)) = Inr d'"
    using create_route_shape[OF create(1)] by blast
  have "receipts_ok (d\<lparr>routes := routes d @ [r], next_uuid := Suc (next_uuid d)\<rparr>)"
    using create(2) r by (fastforce simp: receipts_simps)
  moreover have "unreceipted (er_id r) d" using create(2) r by (auto simp: receipts_simps)
  ultimately show ?case
    using receipts_ok_assign_route[OF _ _ d'] by (simp add: unreceipted_def)
next
  case (retry r d now d')
  show ?case
  proof (cases "er_status r = RouteBlocked")
    case True
    then have "unreceipted (er_id r) d" using retry(1,3) by (fastforce simp: receipts_simps)
    then show ?thesis
      using retry(2,3)
      by (auto simp: retry_blocked_route_def Let_def split: if_splits option.splits
          dest!: receipts_ok_assign_route[rotated 2])
  next
    case False
    then show ?thesis using retry by (simp add: retry_blocked_route_def)
  qed
next
  case (complete r d a now q d')
  then show ?case by (blast intro: receipts_ok_complete)
qed

text \<open>
  (C7) Promotion stays blocked until the evaluation is done: after any sequence of route
  operations, \<open>require_independence\<close> gives a receipt only of a completed route all of
  whose assignments are completed.
\<close>

theorem require_independence_complete:
  assumes "route_step\<^sup>*\<^sup>* d d'" and "receipts d = []" and "routes d = []"
    and "require_independence r d' = Inr c"
  shows "er_status r = RouteCompleted \<and> ir_route_id c = er_id r
    \<and> list_all (\<lambda>a. ea_status a = AssignmentCompleted) (route_assignments (er_id r) d')"
proof -
  have "receipts_ok d'"
    using assms(1)
  proof (induction rule: rtranclp_induct)
    case base
    then show ?case using assms(2,3) by (simp add: receipts_simps)
  next
    case (step e e')
    then show ?case by (blast intro: receipts_ok_step)
  qed
  moreover have "er_status r = RouteCompleted" "route_receipt (er_id r) d' = Some c"
    using assms(4) by (auto simp: require_independence_def split: route_status.splits option.splits)
  ultimately show ?thesis
    using get_row_Some_in[of ir_route_id "receipts d'" "er_id r" c]
    by (auto simp: receipts_simps route_receipt_def route_assignments_def)
qed

lemma route_chain_ok_frame [simp]:
  "route_chain_ok i (d\<lparr>assignments := as\<rparr>) = route_chain_ok i d"
  "route_chain_ok i (d\<lparr>routes := rs\<rparr>) = route_chain_ok i d"
  "route_chain_ok i (d\<lparr>receipts := cs\<rparr>) = route_chain_ok i d"
  "route_chain_ok i (d\<lparr>next_uuid := n\<rparr>) = route_chain_ok i d"
  "route_chain_ok i (upd_route j f d) = route_chain_ok i d"
  "route_chain_ok i (upd_assignment j g d) = route_chain_ok i d"
  by (simp_all add: route_chain_ok_def)

lemma route_chain_ok_assign_evaluator:
  assumes "route_chain_ok i d" and "assign_evaluator now r sel d = Inr d'"
  shows "route_chain_ok i d'"
  using assms(1) assign_evaluator_shape[OF assms(2)] by (auto intro!: route_chain_ok_append)

lemma route_chain_ok_assign_route:
  assumes "route_chain_ok i d" and "assign_route now r q ps d = Inr d'"
  shows "route_chain_ok i d'"
proof (cases "route_profiles ps q")
  case (Inl reason)
  then show ?thesis
    using assms by (auto simp: assign_route_def Let_def intro!: route_chain_ok_append)
next
  case (Inr sel)
  then obtain d1 where d1: "efold (assign_evaluator now r) sel d = Inr d1"
    and d': "d' = upd_route (er_id r) (\<lambda>r. r\<lparr>er_status := RouteAssigned, er_blocked_reason := []\<rparr>) d1"
    using assms(2) by (auto simp: assign_route_def ebind_Inr_iff)
  have "route_chain_ok i d1"
    by (rule efold_invariant[where I = "route_chain_ok i", OF _ assms(1) d1])
      (blast intro: route_chain_ok_assign_evaluator)
  then show ?thesis by (simp add: d')
qed

lemma route_chain_ok_complete:
  assumes "route_chain_ok i d" and "complete_assignment now r a q d = Inr d'"
  shows "route_chain_ok i d'"
proof -
  obtain x d2 where d2: "d2 = append_route_event x (upd_assignment (ea_id a) (completed_assignment now q) d)"
    and d': "d' = d2 \<or> issue_receipt now r (route_assignments (er_id r) d2) d2 = Inr d'"
    using complete_assignment_shape[OF assms(2)] by blast
  have ok: "route_chain_ok i d2" unfolding d2 using assms(1) by (intro route_chain_ok_append) simp
  have "route_chain_ok i d'" if "issue_receipt now r as d2 = Inr d'" for as
    using issue_receipt_shape[OF that] ok by (auto intro!: route_chain_ok_append)
  then show ?thesis using d' ok by blast
qed

lemma route_step_chain_ok: "route_step d d' \<Longrightarrow> route_chain_ok i d \<Longrightarrow> route_chain_ok i d'"
proof (induction rule: route_step.induct)
  case (register now q d p d')
  then show ?case using register_profile_frame[OF register(1)] by (simp add: route_chain_ok_def)
next
  case (create now rq d j d')
  then obtain r x where "assign_route now r rq (active_profiles d)
      (append_route_event x (d\<lparr>routes := routes d @ [r], next_uuid := Suc (next_uuid d)\<rparr>)) = Inr d'"
    using create_route_shape by blast
  from route_chain_ok_assign_route[OF _ this] create(2) show ?case
    by (simp add: route_chain_ok_append)
next
  case (retry r d now d')
  then show ?case
    by (auto simp: retry_blocked_route_def Let_def split: if_splits option.splits
        dest!: route_chain_ok_assign_route[rotated] intro!: route_chain_ok_append)
next
  case (complete r d a now q d')
  then show ?case by (blast intro: route_chain_ok_complete)
qed

text \<open> The log of every route is a valid hash chain after any sequence of route operations
  that starts from an empty log.
\<close>

theorem route_log_chain:
  assumes "route_step\<^sup>*\<^sup>* d d'" and "route_events d = []"
  shows "route_chain_ok i d'"
  using assms
proof (induction rule: rtranclp_induct)
  case base
  then show ?case by (simp add: route_chain_ok_def)
next
  case (step e e')
  then show ?case by (blast intro: route_step_chain_ok)
qed

section \<open>A route can be read back\<close>

lemma those_json_str: "those (map json_str (map JStr xs)) = Some xs"
  by (induction xs) auto

lemma json_strs_jstrs [simp]: "json_strs (jstrs xs) = Some xs"
  using those_json_str[of xs] by (simp add: jstrs_def)

text \<open>UUIDs are 128-bit values.\<close>

definition uuid_ok :: "uuid option \<Rightarrow> bool" where
  "uuid_ok u = (case u of None \<Rightarrow> True | Some i \<Rightarrow> i < 2 ^ 128)"

lemma json_uuid_opt_dump [simp]: "uuid_ok u \<Longrightarrow> json_uuid_opt (option_json juuid u) = Some u"
  by (cases u) (simp_all add: uuid_ok_def option_json_def juuid_def uuid_parse_str)

lemma uuid_str_nonempty [simp]: "uuid_str u \<noteq> []"
  by (simp add: uuid_str_def Let_def)

lemma parse_producer_dump [simp]:
  assumes "uuid_ok (pi_agent_id p)"
  shows "parse_producer (JObj (producer_json p)) = Some p"
  using json_uuid_opt_dump[OF assms]
  by (simp add: parse_producer_def producer_json_def dict_get_def)

lemma parse_producers_dump [simp]:
  "list_all (\<lambda>p. uuid_ok (pi_agent_id p)) ps \<Longrightarrow>
   parse_producers (JList (map (\<lambda>x. JObj (producer_json x)) ps)) = Some ps"
  by (induction ps) simp_all

text \<open> A blocked route is retried with exactly the request it was created for: the request
  read back from the stored route is the original one.
\<close>

theorem payload_of_new_route:
  assumes "valid_route_create p" and "uuid_ok (pi_agent_id (rc_producer p))"
    and "list_all (\<lambda>x. uuid_ok (pi_agent_id x)) (rc_excluded_producers p)"
    and "uuid_ok (rc_supersedes_route_id p)"
  shows "payload_of_route (new_route now p i) = Some p"
proof -
  have "dget (route_policy p) ''supersedes_route_id'' = option_json juuid (rc_supersedes_route_id p)"
    by (simp add: route_policy_def expected_policy_def dget_def dict_get_def)
  moreover have "truthy (option_json juuid u) \<longleftrightarrow> u \<noteq> None" for u
    by (cases u) (simp_all add: option_json_def juuid_def)
  ultimately have sup: "policy_superseded (route_policy p) = Some (rc_supersedes_route_id p)"
    using assms(4) by (simp add: policy_superseded_def)
  have get:
    "dict_get (route_policy p) ''routing_revision'' = Some (JInt (rc_routing_revision p))"
    "dict_get (route_policy p) ''required_review_kinds'' = Some (jstrs (rc_required_review_kinds p))"
    "dict_get (route_policy p) ''required_capabilities'' = Some (jstrs (rc_required_capabilities p))"
    "dict_get (route_policy p) ''max_pairwise_shared_dimensions''
       = Some (JInt (rc_max_pairwise_shared_dimensions p))"
    "dict_get (route_policy p) ''excluded_producers''
       = Some (JList (map (\<lambda>x. JObj (producer_json x)) (rc_excluded_producers p)))"
    by (simp_all add: route_policy_def expected_policy_def dict_get_def)
  show ?thesis
    using assms(1) parse_producer_dump[OF assms(2)] parse_producers_dump[OF assms(3)]
    by (simp add: payload_of_route_def new_route_def get sup Let_def valid_route_create_def)
qed

end
