(* ===== verification/Security.thy ===== *)
theory Security
  imports Sha256
begin

text \<open>
  Bearer tokens (\<open>core/security.py\<close>): agent credentials and task lease tokens. A token
  names a public prefix and a secret; only the prefix and a keyed digest are stored. The
  random parts (\<open>secrets.token_hex(6)\<close>, \<open>secrets.token_urlsafe(32)\<close>) and the server's
  \<open>agent_token_secret\<close> are arguments.
\<close>

section \<open>Tokens\<close>

record generated_token =
  gt_token :: string
  gt_prefix :: string
  gt_digest :: string

definition digest_agent_token :: "string \<Rightarrow> string \<Rightarrow> string" where
  "digest_agent_token key token = hmac_sha256_hex key token"

definition create_agent_token :: "string \<Rightarrow> string \<Rightarrow> string \<Rightarrow> generated_token" where
  "create_agent_token key pfx secret =
     (let token = ''swarm_ag_'' @ pfx @ ''_'' @ secret
      in \<lparr>gt_token = token, gt_prefix = pfx, gt_digest = digest_agent_token key token\<rparr>)"

definition digest_task_lease_token :: "string \<Rightarrow> string \<Rightarrow> string" where
  "digest_task_lease_token key token = hmac_sha256_hex key (''task-lease:'' @ token)"

definition create_task_lease_token :: "string \<Rightarrow> string \<Rightarrow> string \<Rightarrow> generated_token" where
  "create_task_lease_token key pfx secret =
     (let token = ''swarm_lt_'' @ pfx @ ''_'' @ secret
      in \<lparr>gt_token = token, gt_prefix = pfx, gt_digest = digest_task_lease_token key token\<rparr>)"

text \<open>The common part of the two \<open>extract_*_token_prefix\<close>.\<close>

definition extract_prefix :: "string \<Rightarrow> string \<Rightarrow> string option" where
  "extract_prefix kind token =
     (case split_max CHR ''_'' 3 token of
        [namespace, credential_type, pfx, secret] \<Rightarrow>
          if namespace \<noteq> ''swarm'' \<or> credential_type \<noteq> kind then None
          else if pfx = '''' \<or> secret = '''' then None
          else Some pfx
      | _ \<Rightarrow> None)"

definition extract_agent_token_prefix :: "string \<Rightarrow> string option" where
  "extract_agent_token_prefix token = extract_prefix ''ag'' token"

definition extract_task_lease_token_prefix :: "string \<Rightarrow> string option" where
  "extract_task_lease_token_prefix token = extract_prefix ''lt'' token"

section \<open>Administrative credentials\<close>

text \<open>
  \<open>require_orchestrator\<close>, \<open>require_founder_channel\<close> and \<open>require_mission_supervisor\<close>:
  a bearer credential equal to the configured secret. They differ in the messages; the
  first names a missing credential apart.
\<close>

definition require_orchestrator :: "string \<Rightarrow> string option \<Rightarrow> unit res" where
  "require_orchestrator secret credentials =
     (case credentials of
        None \<Rightarrow> http 401 ''Administrative credential required.''
      | Some c \<Rightarrow> if c \<noteq> secret then http 401 ''Invalid administrative credential.'' else Inr ())"

definition require_founder_channel :: "string \<Rightarrow> string option \<Rightarrow> unit res" where
  "require_founder_channel secret credentials =
     (if credentials \<noteq> Some secret then http 401 ''Invalid founder-channel credential.'' else Inr ())"

definition require_mission_supervisor :: "string \<Rightarrow> string option \<Rightarrow> unit res" where
  "require_mission_supervisor secret credentials =
     (if credentials \<noteq> Some secret
      then http 401 ''Invalid mission-supervisor credential.'' else Inr ())"

section \<open>Properties\<close>

lemma split_max_first:
  assumes "c \<notin> set s"
  shows "split_max c (Suc n) (s @ c # rest) = s # split_max c n rest"
proof -
  have "takeWhile (\<lambda>x. x \<noteq> c) (s @ c # rest) = s" "dropWhile (\<lambda>x. x \<noteq> c) (s @ c # rest) = c # rest"
    using assms by (induction s) auto
  then show ?thesis by simp
qed

lemma split_max_three:
  assumes "c \<notin> set a" and "c \<notin> set b" and "c \<notin> set p"
  shows "split_max c 3 (a @ c # b @ c # p @ c # s) = [a, b, p, s]"
  using split_max_first[OF assms(1), of 2] split_max_first[OF assms(2), of 1]
    split_max_first[OF assms(3), of 0]
  by (simp add: numeral_3_eq_3 numeral_2_eq_2)

lemma extract_prefix_token:
  assumes "CHR ''_'' \<notin> set kind" and "CHR ''_'' \<notin> set pfx" and "pfx \<noteq> []" and "secret \<noteq> []"
  shows "extract_prefix kind (''swarm_'' @ kind @ ''_'' @ pfx @ ''_'' @ secret) = Some pfx"
  using split_max_three[of "CHR ''_''" "''swarm''" kind pfx secret] assms
  by (simp add: extract_prefix_def)

text \<open> The prefix of a lease token the server creates can be read back from the token, and
  a lease token is never taken for an agent credential, whatever its secret holds.
\<close>

theorem lease_token_prefix:
  assumes "CHR ''_'' \<notin> set pfx" and "pfx \<noteq> []" and "secret \<noteq> []"
  shows "extract_task_lease_token_prefix (gt_token (create_task_lease_token key pfx secret))
      = Some pfx
    \<and> extract_agent_token_prefix (gt_token (create_task_lease_token key pfx secret)) = None"
proof
  show "extract_task_lease_token_prefix (gt_token (create_task_lease_token key pfx secret))
      = Some pfx"
    using extract_prefix_token[of "''lt''"] assms
    by (simp add: extract_task_lease_token_prefix_def create_task_lease_token_def Let_def)
  show "extract_agent_token_prefix (gt_token (create_task_lease_token key pfx secret)) = None"
    using split_max_three[of "CHR ''_''" "''swarm''" "''lt''" pfx secret] assms
    by (simp add: extract_agent_token_prefix_def create_task_lease_token_def extract_prefix_def Let_def)
qed

text \<open>The token \<open>swarm_lt_a1_s_e\<close>: the separator may occur in the secret.\<close>

theorem lease_token_prefix_witness:
  "extract_task_lease_token_prefix (gt_token (create_task_lease_token ''key'' ''a1'' ''s_e'')) = Some ''a1''"
  using lease_token_prefix[of "''a1''" "''s_e''" "''key''"] by simp

end
