(* ===== verification/Tasks.thy ===== *)
theory Tasks
  imports Governance Controls AgentGovernance EvaluatorRouting Security
begin

text \<open>
  Tasks and leases (\<open>services/tasks.py\<close>): building a task from a request, the choice of
  the next task an agent may lease, the checks of a lease token, and the recovery of
  expired leases.
\<close>

section \<open>Building tasks\<close>

record task_create =
  tc_task_number :: string
  tc_project :: string
  tc_task_type :: string
  tc_title :: string
  tc_objective :: string
  tc_priority :: int
  tc_risk_level :: int
  tc_parent_task_id :: "uuid option"
  tc_created_by :: string
  tc_input_contract :: dict
  tc_expected_outputs :: "json list"
  tc_acceptance_criteria :: "json list"
  tc_approval_policy :: dict
  tc_approval_required :: bool
  tc_required_capabilities :: "string list"
  tc_allowed_machines :: "string list"
  tc_max_attempts :: int

text \<open>The field constraints of \<open>TaskCreate\<close>.\<close>

definition task_number_char :: "char \<Rightarrow> bool" where
  "task_number_char c =
     (CHR ''A'' \<le> c \<and> c \<le> CHR ''Z'' \<or> CHR ''a'' \<le> c \<and> c \<le> CHR ''z'' \<or> CHR ''0'' \<le> c \<and> c \<le> CHR ''9'')"

definition valid_task_create :: "task_create \<Rightarrow> bool" where
  "valid_task_create p =
     (str_between 1 50 (tc_task_number p) \<and> task_number_char (hd (tc_task_number p))
      \<and> list_all (\<lambda>c. task_number_char c \<or> c \<in> {CHR ''.'', CHR ''_'', CHR ''-''})
           (tl (tc_task_number p))
      \<and> str_between 1 100 (tc_project p) \<and> str_between 1 150 (tc_task_type p)
      \<and> str_between 1 300 (tc_title p) \<and> 1 \<le> length (tc_objective p)
      \<and> 0 \<le> tc_priority p \<and> tc_priority p \<le> 100 \<and> 0 \<le> tc_risk_level p \<and> tc_risk_level p \<le> 5
      \<and> str_between 1 150 (tc_created_by p) \<and> 1 \<le> tc_max_attempts p \<and> tc_max_attempts p \<le> 20)"

definition plan_document :: "task_create \<Rightarrow> dict" where
  "plan_document p =
     [(''project'', JStr (tc_project p)), (''task_type'', JStr (tc_task_type p)),
      (''objective'', JStr (tc_objective p)), (''risk_level'', JInt (tc_risk_level p)),
      (''input_contract'', JObj (tc_input_contract p)),
      (''expected_outputs'', JList (tc_expected_outputs p)),
      (''acceptance_criteria'', JList (tc_acceptance_criteria p)),
      (''required_capabilities'', jstrs (tc_required_capabilities p)),
      (''allowed_machines'', jstrs (tc_allowed_machines p))]"

text \<open>The row has no identity until it is flushed: \<open>persist_new_task\<close> assigns it.\<close>

definition build_task :: "task_create \<Rightarrow> task" where
  "build_task p =
     (let approval_required = (tc_approval_required p \<or> 2 \<le> tc_risk_level p)
      in \<lparr>t_id = 0, t_task_number = tc_task_number p, t_project = tc_project p,
          t_task_type = tc_task_type p, t_title = tc_title p, t_objective = tc_objective p,
          t_status = (if approval_required then PendingApproval else Queued),
          t_priority = tc_priority p, t_risk_level = tc_risk_level p,
          t_assigned_agent_id = None, t_parent_task_id = tc_parent_task_id p,
          t_conversation_id = None, t_conversation_revision = None, t_mission_id = None,
          t_milestone_step_id = None, t_task_graph_node_id = None,
          t_created_by = tc_created_by p, t_input_contract = tc_input_contract p,
          t_expected_outputs = tc_expected_outputs p,
          t_acceptance_criteria = tc_acceptance_criteria p,
          t_approval_policy = tc_approval_policy p, t_approval_required = approval_required,
          t_plan_digest = task_plan_digest (plan_document p),
          t_required_capabilities = tc_required_capabilities p,
          t_allowed_machines = tc_allowed_machines p, t_max_attempts = tc_max_attempts p,
          t_attempt_count = 0, t_leased_at = None, t_lease_expires_at = None,
          t_lease_token_prefix = None, t_lease_token_digest = None,
          t_last_execution_heartbeat_at = None, t_result = [], t_failure = [],
          t_created_at = 0, t_started_at = None, t_completed_at = None,
          t_cancel_requested_at = None, t_cancel_reason = None\<rparr>)"

text \<open>\<open>tasks.task_number\<close> is unique.\<close>

definition persist_new_task :: "time \<Rightarrow> task \<Rightarrow> db \<Rightarrow> (task \<times> db) res" where
  "persist_new_task now t d =
     (if t_task_number t \<in> t_task_number ` set (tasks d) then Inl IntegrityError
      else
        (let t' = t\<lparr>t_id := next_uuid d, t_created_at := now\<rparr>;
             d1 = d\<lparr>tasks := tasks d @ [t'], next_uuid := Suc (next_uuid d)\<rparr>;
             d2 = (if t_approval_required t' then create_approval now t' d1 else d1)
         in Inr (t', append_task_event now t' ''task_created''
              (if t_approval_required t' then ''Task created pending approval.''
               else ''Task created and queued.'') None
              [(''created_by'', JStr (t_created_by t')), (''priority'', JInt (t_priority t')),
               (''risk_level'', JInt (t_risk_level t'))] d2)))"

text \<open>\<open>routes/tasks.py: create_task\<close>.\<close>

definition create_task :: "time \<Rightarrow> task_create \<Rightarrow> db \<Rightarrow> (task \<times> db) res" where
  "create_task now p d =
     (if (case tc_parent_task_id p of None \<Rightarrow> False | Some i \<Rightarrow> get_task i d = None)
      then http 404 ''Parent task not found.''
      else
        (case persist_new_task now (build_task p) d of
           Inl IntegrityError \<Rightarrow> http 409 ''Task creation conflicted with existing data.''
         | r \<Rightarrow> r))"

section \<open>Leases\<close>

definition clear_lease :: "task \<Rightarrow> task" where
  "clear_lease t =
     t\<lparr>t_assigned_agent_id := None, t_leased_at := None, t_lease_expires_at := None,
       t_lease_token_prefix := None, t_lease_token_digest := None,
       t_last_execution_heartbeat_at := None\<rparr>"

text \<open>The text Python prints for a sorted list of status names.\<close>

definition sorted_statuses :: "task_status list \<Rightarrow> string" where
  "sorted_statuses ss =
     ''['' @ join '', '' (map (\<lambda>s. [CHR 0x27] @ s @ [CHR 0x27]) (sorted_set (map task_status_str ss)))
     @ '']''"

definition verify_task_lease ::
  "string \<Rightarrow> task \<Rightarrow> agent \<Rightarrow> string \<Rightarrow> task_status list \<Rightarrow> time \<Rightarrow> time res" where
  "verify_task_lease key t ag supplied_token allowed_statuses now =
     (if t_status t \<notin> set allowed_statuses
      then http 409 (''Task is in state '' @ [CHR 0x27] @ task_status_str (t_status t) @ [CHR 0x27]
             @ '', but this operation requires one of: '' @ sorted_statuses allowed_statuses @ ''.'')
      else if t_assigned_agent_id t \<noteq> Some (a_id ag)
      then http 403 ''This task lease belongs to another agent.''
      else if (case t_lease_expires_at t of None \<Rightarrow> True | Some e \<Rightarrow> e \<le> now)
      then http 409 ''Task lease has expired.''
      else
        (case (extract_task_lease_token_prefix supplied_token, t_lease_token_prefix t,
               t_lease_token_digest t) of
           (Some supplied, Some pfx, Some dig) \<Rightarrow>
             if supplied \<noteq> pfx then http 401 ''Invalid task lease token.''
             else if digest_task_lease_token key supplied_token \<noteq> dig
             then http 401 ''Invalid task lease token.''
             else Inr now
         | _ \<Rightarrow> http 401 ''Invalid task lease token.''))"

definition active_lease_status :: "task_status \<Rightarrow> bool" where
  "active_lease_status s = (s = Leased \<or> s = Running)"

section \<open>The next task\<close>

text \<open>\<open>input_contract.get("repository") or task.project\<close>; only a text validates.\<close>

definition task_repository :: "task \<Rightarrow> string option" where
  "task_repository t =
     (let r = dget (t_input_contract t) ''repository''
      in if truthy r then json_str r else Some (t_project t))"

definition authority_request :: "task \<Rightarrow> agent \<Rightarrow> string \<Rightarrow> effective_authority_request option" where
  "authority_request t ag capability =
     (case task_repository t of
        None \<Rightarrow> None
      | Some repo \<Rightarrow>
          (let q = \<lparr>ar_capability = capability, ar_machine = a_machine ag,
                    ar_task_type = t_task_type t, ar_repository = Some repo,
                    ar_risk_level = t_risk_level t\<rparr>
           in if valid_authority_request q then Some q else None))"

definition resolve_task_authority ::
  "time \<Rightarrow> task \<Rightarrow> agent \<Rightarrow> db \<Rightarrow> effective_authority list res" where
  "resolve_task_authority now t ag d =
     emap (\<lambda>capability. case authority_request t ag capability of
          None \<Rightarrow> Inl (ValueError ''EffectiveAuthorityRequest'')
        | Some q \<Rightarrow> Inr (resolve now (a_id ag) q d)) (t_required_capabilities t)"

definition valid_approval :: "time \<Rightarrow> db \<Rightarrow> task \<Rightarrow> bool" where
  "valid_approval now d t =
     (\<not> t_approval_required t \<or>
      list_ex (\<lambda>a. ap_task_id a = t_id t \<and> ap_status a = ApprovalApproved
           \<and> ap_plan_digest a = t_plan_digest t
           \<and> (case ap_expires_at a of None \<Rightarrow> False | Some e \<Rightarrow> now < e)) (approvals d))"

text \<open>The tasks of a graph that hold a lease, by the join with its nodes.\<close>

definition active_graph_tasks :: "uuid \<Rightarrow> db \<Rightarrow> task list" where
  "active_graph_tasks gid d =
     filter (\<lambda>t. active_lease_status (t_status t) \<and>
       (case t_task_graph_node_id t of None \<Rightarrow> False
        | Some i \<Rightarrow> (case get_node i d of None \<Rightarrow> False | Some n \<Rightarrow> n_graph_id n = gid)))
     (tasks d)"

definition graph_parallelism_available :: "db \<Rightarrow> task \<Rightarrow> bool" where
  "graph_parallelism_available d t =
     (case t_task_graph_node_id t of
        None \<Rightarrow> True
      | Some i \<Rightarrow>
          (case get_node i d of
             None \<Rightarrow> False
           | Some n \<Rightarrow>
               (case get_graph (n_graph_id n) d of
                  None \<Rightarrow> False
                | Some g \<Rightarrow> g_status g = GraphActive
                    \<and> int (length (active_graph_tasks (g_id g) d)) < g_max_parallelism g)))"

definition mission_open :: "time \<Rightarrow> db \<Rightarrow> task \<Rightarrow> bool" where
  "mission_open now d t =
     (case t_mission_id t of
        None \<Rightarrow> True
      | Some i \<Rightarrow> (case get_mission i d of None \<Rightarrow> False
          | Some m \<Rightarrow> m_status m = MissionActive \<and> now < m_deadline_at m))"

definition eligible :: "time \<Rightarrow> agent \<Rightarrow> db \<Rightarrow> task \<Rightarrow> bool" where
  "eligible now ag d t =
     (t_status t = Queued \<and> t_attempt_count t < t_max_attempts t
      \<and> t_risk_level t \<le> a_risk_ceiling ag
      \<and> set (t_required_capabilities t) \<subseteq> set (a_capabilities ag)
      \<and> valid_approval now d t \<and> graph_parallelism_available d t
      \<and> (t_task_type t \<noteq> ''alpha_strategy_review''
         \<or> dget (t_input_contract t) ''evaluator_agent_id'' = juuid (a_id ag))
      \<and> mission_open now d t
      \<and> list_all (\<lambda>p. t_status p = Succeeded) (predecessors (t_id t) d)
      \<and> (t_allowed_machines t = [] \<or> a_machine ag \<in> set (t_allowed_machines t)))"

definition candidates :: "time \<Rightarrow> agent \<Rightarrow> db \<Rightarrow> task list" where
  "candidates now ag d =
     take 100 (sort_key (\<lambda>t. (- t_priority t, t_created_at t)) (filter (eligible now ag d) (tasks d)))"

definition denial_reasons :: "effective_authority list \<Rightarrow> string list" where
  "denial_reasons snapshots =
     (let rs = sorted_set (concat (map ef_reasons snapshots))
      in if rs = [] then [''authority-resolution-unavailable''] else rs)"

definition record_denial ::
  "time \<Rightarrow> agent \<Rightarrow> task \<Rightarrow> string list \<Rightarrow> db \<Rightarrow> db" where
  "record_denial now ag t reasons d =
     (let prior = max_row te_id (filter (\<lambda>e. te_task_id e = t_id t
                    \<and> te_event_type e = ''task_authority_denied'') (task_events d))
      in if (case prior of None \<Rightarrow> True
             | Some e \<Rightarrow> dget (te_payload e) ''reasons'' \<noteq> jstrs reasons)
         then append_task_event now t ''task_authority_denied''
                ''Task matched the worker but effective authority denied its lease.''
                (Some (a_id ag)) [(''reasons'', jstrs reasons)] d
         else d)"

text \<open>The loop over the candidates: the chosen task with its authority, and the database.\<close>

fun choose_task ::
  "time \<Rightarrow> agent \<Rightarrow> control_scope list \<Rightarrow> task list \<Rightarrow> db
     \<Rightarrow> ((task \<times> effective_authority list) option \<times> db) res" where
  "choose_task now ag scopes [] d = Inr (None, d)"
| "choose_task now ag scopes (t # ts) d =
     (if list_ex (\<lambda>s. task_matches_control_scope s t) scopes then choose_task now ag scopes ts d
      else
        ebind (resolve_task_authority now t ag d) (\<lambda>snapshots.
          if snapshots \<noteq> [] \<and> list_all ef_allowed snapshots then Inr (Some (t, snapshots), d)
          else choose_task now ag scopes ts (record_denial now ag t (denial_reasons snapshots) d)))"

text \<open>The assignments of a lease to the task row.\<close>

definition leased_row :: "time \<Rightarrow> agent \<Rightarrow> int \<Rightarrow> generated_token \<Rightarrow> task \<Rightarrow> task" where
  "leased_row now ag lease_seconds token t =
     t\<lparr>t_status := Leased, t_assigned_agent_id := Some (a_id ag),
       t_attempt_count := t_attempt_count t + 1, t_leased_at := Some now,
       t_lease_expires_at := Some (now + seconds lease_seconds),
       t_lease_token_prefix := Some (gt_prefix token),
       t_lease_token_digest := Some (gt_digest token),
       t_last_execution_heartbeat_at := Some now, t_failure := []\<rparr>"

definition lease_producer_identity ::
  "task \<Rightarrow> agent \<Rightarrow> effective_authority list \<Rightarrow> db \<Rightarrow> dict option" where
  "lease_producer_identity t ag snapshots d =
     (if t_task_type t = ''alpha_strategy_review''
         \<or> t_task_type t = ''alpha_research_execution''
           \<and> dget (t_input_contract t) ''stage'' \<in> {JStr ''draft'', JStr ''qualify''}
      then producer_identity_for_lease ag
             (concat (map (\<lambda>s. case ef_package_digest s of None \<Rightarrow> [] | Some x \<Rightarrow> [x]) snapshots)) d
      else None)"

definition lease_payload ::
  "time \<Rightarrow> int \<Rightarrow> task \<Rightarrow> dict option \<Rightarrow> effective_authority list \<Rightarrow> dict" where
  "lease_payload now lease_seconds t identity snapshots =
     [(''lease_expires_at'', jtime (now + seconds lease_seconds)),
      (''lease_seconds'', JInt lease_seconds)]
     @ (case identity of None \<Rightarrow> []
        | Some i \<Rightarrow> [(''producer_identity'', JObj i),
                     (''producer_identity_digest'', JStr (digest_json (JObj i)))])
     @ [(''effective_authority'',
         JList (map2 (\<lambda>capability s. JObj
             [(''capability'', JStr capability), (''snapshot_digest'', JStr (ef_snapshot_digest s)),
              (''charter_digest'', option_json JStr (ef_charter_digest s)),
              (''package_digest'', option_json JStr (ef_package_digest s)),
              (''grant_digest'', option_json JStr (ef_grant_digest s)),
              (''accountable_owner'', option_json JStr (ef_accountable_owner s))])
           (t_required_capabilities t) snapshots))]"

text \<open>
  The end of \<open>lease_next_task\<close>, once a task is chosen. The first component of the result is
  the leased row, the second the raw token, the third the failure of the attempt before.
\<close>

definition grant_lease ::
  "time \<Rightarrow> agent \<Rightarrow> int \<Rightarrow> generated_token \<Rightarrow> task \<Rightarrow> effective_authority list \<Rightarrow> db
     \<Rightarrow> ((task \<times> string \<times> dict) \<times> db) res" where
  "grant_lease now ag lease_seconds token t snapshots d =
     ebind (consume_task_approval now t d) (\<lambda>d1.
       (let t' = leased_row now ag lease_seconds token t;
            d2 = upd_task (t_id t) (leased_row now ag lease_seconds token) d1;
            identity = lease_producer_identity t ag snapshots d2;
            d3 = append_task_event now t' ''task_leased'' ''Task leased to agent.'' (Some (a_id ag))
                   (lease_payload now lease_seconds t identity snapshots) d2
        in Inr ((t', gt_token token, t_failure t), d3)))"

definition lease_next_task ::
  "time \<Rightarrow> agent \<Rightarrow> int \<Rightarrow> generated_token \<Rightarrow> db \<Rightarrow> ((task \<times> string \<times> dict) option \<times> db) res" where
  "lease_next_task now ag lease_seconds token d =
     (let d1 = snd (expire_approvals now d)
      in ebind (choose_task now ag (paused_workflow_scopes d1) (candidates now ag d1) d1)
           (\<lambda>(choice, d2). case choice of
                None \<Rightarrow> Inr (None, d2)
              | Some (t, snapshots) \<Rightarrow>
                  ebind (grant_lease now ag lease_seconds token t snapshots d2)
                    (\<lambda>(leased, d3). Inr (Some leased, d3))))"

definition lock_task :: "uuid \<Rightarrow> db \<Rightarrow> task res" where
  "lock_task i d = (case get_task i d of None \<Rightarrow> http 404 ''Task not found.'' | Some t \<Rightarrow> Inr t)"

section \<open>Expired leases\<close>

definition lease_expired :: "time \<Rightarrow> task \<Rightarrow> bool" where
  "lease_expired now t =
     (active_lease_status (t_status t) \<and>
      (case t_lease_expires_at t of None \<Rightarrow> False | Some e \<Rightarrow> e \<le> now))"

definition lease_failure :: dict where
  "lease_failure =
     [(''reason'', JStr ''lease_expired''),
      (''message'', JStr ''Maximum attempts reached after lease expiry.'')]"

text \<open>The body of the loop of \<open>reap_expired_leases\<close>; the flag says whether the task is requeued.\<close>

definition reap_task :: "time \<Rightarrow> task \<Rightarrow> nat \<times> nat \<times> db \<Rightarrow> (nat \<times> nat \<times> db) res" where
  "reap_task now t acc =
     (case acc of (requeued, failed, d) \<Rightarrow>
       (let agent_id = t_assigned_agent_id t;
            d1 = append_task_event now t ''lease_expired'' ''Task lease expired.'' agent_id
                   [(''previous_status'', JStr (task_status_str (t_status t))),
                    (''lease_expires_at'', option_json jtime (t_lease_expires_at t))] d
        in if t_max_attempts t \<le> t_attempt_count t
           then
             (let d2 = upd_task (t_id t)
                         (\<lambda>t. t\<lparr>t_status := Failed, t_failure := lease_failure,
                                t_completed_at := Some now\<rparr>) d1;
                  d3 = append_task_event now t ''task_failed''
                         ''Task failed after exhausting lease attempts.'' agent_id lease_failure d2
              in Inr (requeued, Suc failed, upd_task (t_id t) clear_lease d3))
           else
             ebind (rearm_task_approval now t ''A new approval is required after lease expiry.'' d1)
               (\<lambda>d2. Inr (Suc requeued, failed,
                  upd_task (t_id t) clear_lease
                    (append_task_event now t ''task_requeued''
                       ''Task returned for approval or requeued after lease expiry.'' agent_id []
                       d2)))))"

definition reap_expired_leases :: "time \<Rightarrow> db \<Rightarrow> (nat \<times> nat \<times> nat \<times> db) res" where
  "reap_expired_leases now d =
     (let expired = sort_key (\<lambda>t. case t_lease_expires_at t of None \<Rightarrow> 0 | Some e \<Rightarrow> e)
                      (filter (lease_expired now) (tasks d))
      in ebind (efold (reap_task now) expired (0, 0, d))
           (\<lambda>(requeued, failed, d'). Inr (length expired, requeued, failed, d')))"

section \<open>Properties\<close>

lemma verify_task_lease_Inr:
  "verify_task_lease key t ag token allowed now = Inr now' \<longleftrightarrow>
     now' = now \<and> t_status t \<in> set allowed \<and> t_assigned_agent_id t = Some (a_id ag)
     \<and> (\<exists>e. t_lease_expires_at t = Some e \<and> now < e)
     \<and> (\<exists>pfx. extract_task_lease_token_prefix token = Some pfx \<and> t_lease_token_prefix t = Some pfx)
     \<and> t_lease_token_digest t = Some (digest_task_lease_token key token)"
  by (auto simp: verify_task_lease_def split: option.splits if_splits)

text \<open>What a lease writes is what a lease token is checked against.\<close>

lemma verify_leased_row:
  assumes "CHR ''_'' \<notin> set pfx" and "pfx \<noteq> []" and "secret \<noteq> []" and "0 < secs"
    and "t' = leased_row now ag secs (create_task_lease_token key pfx secret) t"
  shows "verify_task_lease key t' ag (gt_token (create_task_lease_token key pfx secret)) [Leased] now
    = Inr now"
proof -
  have "extract_task_lease_token_prefix (gt_token (create_task_lease_token key pfx secret)) = Some pfx"
    using extract_prefix_token[of "''lt''"] assms(1-3)
    by (simp add: extract_task_lease_token_prefix_def create_task_lease_token_def Let_def)
  then show ?thesis
    using assms(4,5)
    by (simp add: verify_task_lease_Inr leased_row_def seconds_def create_task_lease_token_def Let_def)
qed

end
