(* ===== verification/Invariants.thy ===== *)
theory Invariants
  imports Tasks
begin

text \<open>
  The invariants of tasks, approvals and leases that every operation of the control plane
  keeps, with one lemma per elementary access and per operation of \<open>services/governance.py\<close>
  and \<open>services/tasks.py\<close>:

  \<^item> primary keys are distinct and drawn from the supply;
  \<^item> the approval gate: a task that needs approval has one approval row, for its very plan,
    and while the task holds a lease that approval is consumed;
  \<^item> a task has used at most its allowed attempts;
  \<^item> a task in a lease state has a holder, an expiry, a token prefix and a token digest.
\<close>

section \<open>The invariants\<close>

definition active :: "task \<Rightarrow> bool" where
  "active t = active_lease_status (t_status t)"

definition keys_ok :: "db \<Rightarrow> bool" where
  "keys_ok d =
     (distinct (map t_id (tasks d)) \<and> list_all (\<lambda>i. i < next_uuid d) (map t_id (tasks d))
      \<and> distinct (map ap_id (approvals d))
      \<and> list_all (\<lambda>i. i < next_uuid d) (map ap_id (approvals d))
      \<and> list_all (\<lambda>i. i < next_uuid d) (map ap_task_id (approvals d)))"

definition gated :: "db \<Rightarrow> task \<Rightarrow> bool" where
  "gated d t =
     (t_approval_required t \<longrightarrow>
      (case approval_of_task (t_id t) d of
         None \<Rightarrow> False
       | Some a \<Rightarrow> ap_plan_digest a = t_plan_digest t \<and> (active t \<longrightarrow> ap_status a = ApprovalConsumed)))"

definition attempts_ok :: "task \<Rightarrow> bool" where
  "attempts_ok t = (0 \<le> t_attempt_count t \<and> t_attempt_count t \<le> t_max_attempts t)"

definition lease_held :: "task \<Rightarrow> bool" where
  "lease_held t =
     (active t \<longrightarrow> t_assigned_agent_id t \<noteq> None \<and> t_lease_expires_at t \<noteq> None
        \<and> t_lease_token_prefix t \<noteq> None \<and> t_lease_token_digest t \<noteq> None)"

definition safe :: "db \<Rightarrow> bool" where
  "safe d =
     (keys_ok d \<and> list_all (\<lambda>t. gated d t \<and> attempts_ok t \<and> lease_held t) (tasks d))"

section \<open>Rows\<close>

lemma list_all_upd_row:
  "list_all P (upd_row key k f rows) \<longleftrightarrow> list_all (\<lambda>r. P (if key r = k then f r else r)) rows"
  by (auto simp: upd_row_def list_all_iff)

lemma map_upd_row:
  assumes "\<And>r. g (f r) = g r"
  shows "map g (upd_row key k f rows) = map g rows"
  using assms by (simp add: upd_row_def)

lemma approval_of_task_upd:
  assumes "\<And>a. ap_task_id (f a) = ap_task_id a"
  shows "approval_of_task i (upd_approval k f d) =
    map_option (\<lambda>a. if ap_id a = k then f a else a) (approval_of_task i d)"
proof -
  have "get_row ap_task_id (upd_row ap_id k f rows) i =
      map_option (\<lambda>a. if ap_id a = k then f a else a) (get_row ap_task_id rows i)" for rows
    using assms by (induction rows) (auto simp: upd_row_def)
  then show ?thesis by (simp add: approval_of_task_def upd_approval_def)
qed

lemma approval_of_task_cong: "approvals d = approvals d' \<Longrightarrow> approval_of_task i d = approval_of_task i d'"
  by (simp add: approval_of_task_def)

lemma approval_of_task_in:
  assumes "approval_of_task i d = Some a"
  shows "a \<in> set (approvals d)" "ap_task_id a = i"
  using get_row_Some_in[OF assms[unfolded approval_of_task_def]] by auto

lemma get_task_in:
  assumes "get_task i d = Some t"
  shows "t \<in> set (tasks d)" "t_id t = i"
  using get_row_Some_in[OF assms[unfolded get_task_def]] by auto

lemma keys_ok_get_task:
  "keys_ok d \<Longrightarrow> t \<in> set (tasks d) \<Longrightarrow> get_task (t_id t) d = Some t"
  by (simp add: keys_ok_def get_task_def get_row_in)

lemma safe_task:
  assumes "safe d" and "t \<in> set (tasks d)"
  shows "gated d t" "attempts_ok t" "lease_held t"
  using assms by (auto simp: safe_def list_all_iff)

lemma same_approval:
  assumes "keys_ok d" and "a \<in> set (approvals d)" and "b \<in> set (approvals d)" and "ap_id a = ap_id b"
  shows "a = b"
  using assms by (metis distinct_map inj_onD keys_ok_def)

lemma same_task:
  assumes "keys_ok d" and "t \<in> set (tasks d)" and "u \<in> set (tasks d)" and "t_id t = t_id u"
  shows "t = u"
  using assms by (metis distinct_map inj_onD keys_ok_def)

section \<open>Elementary accesses\<close>

text \<open>
  A change of other tables, an assignment that makes no task active and leaves the plan, the
  attempts and the lease alone, and an approval assignment that no active task depends on.
\<close>

lemma safe_cong:
  assumes "tasks d' = tasks d" and "approvals d' = approvals d" and "next_uuid d \<le> next_uuid d'"
  shows "safe d \<Longrightarrow> safe d'"
  using assms by (fastforce simp: safe_def keys_ok_def gated_def list_all_iff approval_of_task_def)

definition harmless :: "(task \<Rightarrow> task) \<Rightarrow> bool" where
  "harmless f = (\<forall>t. t_id (f t) = t_id t \<and> t_approval_required (f t) = t_approval_required t
     \<and> t_plan_digest (f t) = t_plan_digest t \<and> (active (f t) \<longrightarrow> active t)
     \<and> (attempts_ok t \<longrightarrow> attempts_ok (f t)) \<and> (lease_held t \<longrightarrow> lease_held (f t)))"

lemma harmlessD:
  assumes "harmless f"
  shows "t_id (f t) = t_id t" "gated d t \<Longrightarrow> gated d (f t)" "attempts_ok t \<Longrightarrow> attempts_ok (f t)"
    "lease_held t \<Longrightarrow> lease_held (f t)"
  using assms by (auto simp: harmless_def gated_def split: option.splits)

lemma keys_ok_upd_task:
  assumes "\<And>t. t_id (f t) = t_id t"
  shows "keys_ok (upd_task i f d) = keys_ok d"
proof -
  have "map t_id (tasks (upd_task i f d)) = map t_id (tasks d)"
    using assms by (simp add: upd_task_def map_upd_row)
  then show ?thesis unfolding keys_ok_def by simp
qed

lemma gated_upd_task [simp]: "gated (upd_task i f d) = gated d"
  by (simp add: gated_def[abs_def] approval_of_task_def)

lemma safe_upd_task:
  assumes "harmless f" and "safe d"
  shows "safe (upd_task i f d)"
proof -
  have "keys_ok (upd_task i f d)"
    using assms harmlessD(1)[OF assms(1)] by (simp add: keys_ok_upd_task safe_def)
  moreover have "list_all (\<lambda>t. gated d t \<and> attempts_ok t \<and> lease_held t) (tasks (upd_task i f d))"
    using assms harmlessD[OF assms(1)]
    by (auto simp: upd_task_def list_all_upd_row safe_def) (auto simp: list_all_iff)
  ultimately show ?thesis by (simp add: safe_def)
qed

lemma keys_ok_upd_approval:
  assumes "\<And>a. ap_id (f a) = ap_id a" and "\<And>a. ap_task_id (f a) = ap_task_id a"
  shows "keys_ok (upd_approval k f d) = keys_ok d"
proof -
  have "map ap_id (approvals (upd_approval k f d)) = map ap_id (approvals d)"
    "map ap_task_id (approvals (upd_approval k f d)) = map ap_task_id (approvals d)"
    using assms by (simp_all add: upd_approval_def map_upd_row)
  then show ?thesis unfolding keys_ok_def by simp
qed

lemma safe_upd_approval:
  assumes "\<And>a. ap_id (f a) = ap_id a" and "\<And>a. ap_task_id (f a) = ap_task_id a"
    and "\<And>a. ap_plan_digest (f a) = ap_plan_digest a" and "safe d"
    and idle: "\<And>t a. t \<in> set (tasks d) \<Longrightarrow> active t \<Longrightarrow> t_approval_required t \<Longrightarrow>
      approval_of_task (t_id t) d = Some a \<Longrightarrow> ap_id a \<noteq> k"
  shows "safe (upd_approval k f d)"
proof -
  have "gated (upd_approval k f d) t" if t: "t \<in> set (tasks d)" for t
    using safe_task(1)[OF assms(4) t] idle[OF t] assms(3)
    by (auto simp: gated_def approval_of_task_upd assms(2) split: option.splits)
  then show ?thesis
    using assms(1,2,4) by (auto simp: safe_def keys_ok_upd_approval list_all_iff)
qed

text \<open>An approval that is not consumed belongs to no active task.\<close>

lemma unconsumed_idle:
  assumes "safe d" and "a \<in> set (approvals d)" and "ap_status a \<noteq> ApprovalConsumed"
    and "t \<in> set (tasks d)" "active t" "t_approval_required t" "approval_of_task (t_id t) d = Some b"
  shows "ap_id b \<noteq> ap_id a"
proof
  assume "ap_id b = ap_id a"
  moreover have "keys_ok d" using assms(1) by (simp add: safe_def)
  ultimately have "b = a" using same_approval approval_of_task_in(1)[OF assms(7)] assms(2) by blast
  then show False using safe_task(1)[OF assms(1,4)] assms(3,5-7) by (simp add: gated_def)
qed

lemma append_frame_safe [simp]:
  "safe (append_task_event now t e m a p d) = safe d"
  "safe (snd (append_approval_event now i e2 ac r p2 d)) = safe d"
  "safe (append_mission_event now i2 e3 ac2 m2 p3 d) = safe d"
proof -
  have *: "safe d' = safe d"
    if "tasks d' = tasks d" "approvals d' = approvals d" "next_uuid d' = next_uuid d" for d'
    using safe_cong[of d' d] safe_cong[of d d'] that by auto
  show "safe (append_task_event now t e m a p d) = safe d"
    "safe (snd (append_approval_event now i e2 ac r p2 d)) = safe d"
    by (rule *; simp)+
  show "safe (append_mission_event now i2 e3 ac2 m2 p3 d) = safe d"
    by (rule *) (simp_all add: append_mission_event_def)
qed

text \<open>No task with this identity holds a lease; no leased task depends on this approval.\<close>

definition inactive :: "uuid \<Rightarrow> db \<Rightarrow> bool" where
  "inactive i d = list_all (\<lambda>t. t_id t = i \<longrightarrow> \<not> active t) (tasks d)"

definition idle_approval :: "uuid \<Rightarrow> db \<Rightarrow> bool" where
  "idle_approval k d =
     list_all (\<lambda>t. active t \<and> t_approval_required t \<longrightarrow>
        (case approval_of_task (t_id t) d of None \<Rightarrow> True | Some a \<Rightarrow> ap_id a \<noteq> k)) (tasks d)"

lemma safe_upd_idle_approval:
  assumes "\<And>a. ap_id (f a) = ap_id a" and "\<And>a. ap_task_id (f a) = ap_task_id a"
    and "\<And>a. ap_plan_digest (f a) = ap_plan_digest a" and "safe d" and "idle_approval k d"
  shows "safe (upd_approval k f d)"
  using assms(5) by (intro safe_upd_approval assms(1-4)) (auto simp: idle_approval_def list_all_iff)

lemma idle_approval_unconsumed:
  "safe d \<Longrightarrow> a \<in> set (approvals d) \<Longrightarrow> ap_status a \<noteq> ApprovalConsumed \<Longrightarrow> idle_approval (ap_id a) d"
  using unconsumed_idle[of d a] by (auto simp: idle_approval_def list_all_iff split: option.split)

lemma idle_approval_upd_task:
  assumes "harmless f" and "idle_approval k d"
  shows "idle_approval k (upd_task i f d)"
  using assms
  by (fastforce simp: idle_approval_def upd_task_def upd_row_def approval_of_task_def harmless_def
      list_all_iff split: option.splits)

lemma idle_approval_upd_approval:
  assumes "\<And>a. ap_id (f a) = ap_id a" and "\<And>a. ap_task_id (f a) = ap_task_id a"
    and "idle_approval k d"
  shows "idle_approval k (upd_approval j f d)"
  using assms by (auto simp: idle_approval_def approval_of_task_upd list_all_iff split: option.splits)

lemma idle_approval_cong:
  "tasks d' = tasks d \<Longrightarrow> approvals d' = approvals d \<Longrightarrow> idle_approval k d' = idle_approval k d"
  by (simp add: idle_approval_def approval_of_task_def)

lemma inactive_cong: "tasks d' = tasks d \<Longrightarrow> inactive i d' = inactive i d"
  by (simp add: inactive_def)

lemma inactive_append [simp]:
  "inactive i (append_task_event now t e m a p d) = inactive i d"
  by (simp add: inactive_def)

lemma inactive_set:
  "(\<And>t. t_id (f t) = t_id t) \<Longrightarrow> (\<And>t. \<not> active (f t)) \<Longrightarrow> inactive i (upd_task i f d)"
  by (auto simp: inactive_def upd_task_def upd_row_def list_all_iff)

lemma inactive_upd_task: "harmless f \<Longrightarrow> inactive i d \<Longrightarrow> inactive i (upd_task j f d)"
  by (auto simp: inactive_def upd_task_def upd_row_def harmless_def list_all_iff)

lemma clear_lease_inactive:
  "\<not> active t \<Longrightarrow> gated d t \<and> attempts_ok t \<and> lease_held t \<Longrightarrow>
   gated d (clear_lease t) \<and> attempts_ok (clear_lease t) \<and> lease_held (clear_lease t)"
  by (auto simp: gated_def attempts_ok_def lease_held_def active_def clear_lease_def
      split: option.splits)

lemma safe_clear_lease:
  assumes "safe d" and "inactive i d"
  shows "safe (upd_task i clear_lease d)"
proof -
  have "keys_ok (upd_task i clear_lease d)"
    using assms(1) by (simp add: safe_def keys_ok_upd_task clear_lease_def)
  moreover have "list_all (\<lambda>t. gated d t \<and> attempts_ok t \<and> lease_held t) (tasks (upd_task i clear_lease d))"
    unfolding upd_task_def using assms clear_lease_inactive
    by (auto simp: list_all_upd_row safe_def inactive_def) (auto simp: list_all_iff)
  ultimately show ?thesis by (simp add: safe_def)
qed

text \<open>The assignments of the services that only end or suspend work.\<close>

lemma harmless_status:
  "s \<noteq> Leased \<Longrightarrow> s \<noteq> Running \<Longrightarrow> harmless (\<lambda>t. t\<lparr>t_status := s\<rparr>)"
  by (simp add: harmless_def active_def active_lease_status_def attempts_ok_def lease_held_def)

section \<open>Approvals\<close>

lemma insert_once_frame [simp]:
  "tasks (snd (insert_once n d)) = tasks d" "approvals (snd (insert_once n d)) = approvals d"
  "graphs (snd (insert_once n d)) = graphs d" "nodes (snd (insert_once n d)) = nodes d"
  "next_uuid d \<le> next_uuid (snd (insert_once n d))"
  by (simp_all add: insert_once_def Let_def split: option.split)

lemma safe_insert_once: "safe d \<Longrightarrow> safe (snd (insert_once n d))"
  using safe_cong[of "snd (insert_once n d)" d] insert_once_frame(5)[of d n] by simp

lemma enqueue_frame [simp]:
  "tasks (snd (enqueue_approval_gate now a t g d)) = tasks d"
  "approvals (snd (enqueue_approval_gate now a t g d)) = approvals d"
  "graphs (snd (enqueue_approval_gate now a t g d)) = graphs d"
  "nodes (snd (enqueue_approval_gate now a t g d)) = nodes d"
  "tasks (snd (enqueue_task_ready now t a g d)) = tasks d"
  "approvals (snd (enqueue_task_ready now t a g d)) = approvals d"
  "graphs (snd (enqueue_task_ready now t a g d)) = graphs d"
  "nodes (snd (enqueue_task_ready now t a g d)) = nodes d"
  "next_uuid d \<le> next_uuid (snd (enqueue_approval_gate now a t g d))"
  "next_uuid d \<le> next_uuid (snd (enqueue_task_ready now t a g d))"
  by (simp_all add: enqueue_approval_gate_def enqueue_task_ready_def)

lemma wake_mission_frame [simp]:
  "tasks (wake_mission now t d) = tasks d" "approvals (wake_mission now t d) = approvals d"
  "next_uuid (wake_mission now t d) = next_uuid d" "graphs (wake_mission now t d) = graphs d"
  "nodes (wake_mission now t d) = nodes d"
  by (simp_all add: wake_mission_def upd_mission_def split: option.split)

lemma supersede_frame [simp]:
  "tasks (supersede_notifications now i d) = tasks d"
  "approvals (supersede_notifications now i d) = approvals d"
  "next_uuid (supersede_notifications now i d) = next_uuid d"
  "graphs (supersede_notifications now i d) = graphs d"
  "nodes (supersede_notifications now i d) = nodes d"
  by (simp_all add: supersede_notifications_def)

lemma approve_task_tables:
  assumes "approve_task now nonce a actor reason secs d = Inr d'"
  shows "ap_status a = ApprovalPending
    \<and> (\<exists>t. get_task (ap_task_id a) d = Some t \<and> t_plan_digest t = ap_plan_digest a
        \<and> tasks d' = upd_row t_id (t_id t) (\<lambda>t. t\<lparr>t_status := Queued\<rparr>) (tasks d))
    \<and> approvals d' = upd_row ap_id (ap_id a) (grant_approval_row now nonce actor reason secs) (approvals d)
    \<and> graphs d' = graphs d \<and> nodes d' = nodes d \<and> next_uuid d \<le> next_uuid d'"
proof -
  from assms obtain t where st: "ap_status a = ApprovalPending"
    and t: "get_task (ap_task_id a) d = Some t" "t_plan_digest t = ap_plan_digest a"
    by (auto simp: approve_task_def split: if_splits option.splits)
  let ?d = "wake_mission now t (upd_task (t_id t) (\<lambda>t. t\<lparr>t_status := Queued\<rparr>)
      (upd_approval (ap_id a) (grant_approval_row now nonce actor reason secs) d))"
  let ?e = "append_approval_event now (ap_id a) ''approval_granted'' actor reason [] ?d"
  have "d' = snd (enqueue_task_ready now t a (fst ?e) (append_task_event now t ''task_ready''
      ''Approved task is ready for a matching worker.'' None
      [(''approval_id'', juuid (ap_id a)), (''plan_digest'', JStr (t_plan_digest t))] (snd ?e)))"
    using assms st t by (simp add: approve_task_def Let_def case_prod_unfold)
  then show ?thesis
    using st t enqueue_frame(10)[of "append_task_event now t ''task_ready''
      ''Approved task is ready for a matching worker.'' None
      [(''approval_id'', juuid (ap_id a)), (''plan_digest'', JStr (t_plan_digest t))] (snd ?e)"]
    by (simp add: upd_task_def upd_approval_def)
qed

text \<open>Row-level view: what two databases with these task and approval tables share.\<close>

lemma safe_tables:
  assumes "safe e" and "tasks d' = tasks e" and "approvals d' = approvals e"
    and "next_uuid e \<le> next_uuid d'"
  shows "safe d'"
  using safe_cong assms by blast

lemma approval_row_keys [simp]:
  "ap_id (grant_approval_row now nonce actor reason secs a) = ap_id a"
  "ap_task_id (grant_approval_row now nonce actor reason secs a) = ap_task_id a"
  "ap_plan_digest (grant_approval_row now nonce actor reason secs a) = ap_plan_digest a"
  "ap_id (rearm_row now a) = ap_id a" "ap_task_id (rearm_row now a) = ap_task_id a"
  "ap_plan_digest (rearm_row now a) = ap_plan_digest a"
  by (simp_all add: grant_approval_row_def rearm_row_def)

lemma safe_approve_task:
  assumes "safe d" and "a \<in> set (approvals d)"
    and "approve_task now nonce a actor reason secs d = Inr d'"
  shows "safe d'"
proof -
  note tab = approve_task_tables[OF assms(3)]
  then obtain t :: task where t: "tasks d' = upd_row t_id (t_id t) (\<lambda>t. t\<lparr>t_status := Queued\<rparr>) (tasks d)"
    by auto
  have "safe (upd_approval (ap_id a) (grant_approval_row now nonce actor reason secs) d)"
    using assms(1,2) tab by (intro safe_upd_idle_approval idle_approval_unconsumed) auto
  then have "safe (upd_task (t_id t) (\<lambda>t. t\<lparr>t_status := Queued\<rparr>)
      (upd_approval (ap_id a) (grant_approval_row now nonce actor reason secs) d))"
    by (intro safe_upd_task harmless_status) auto
  then show ?thesis
    by (rule safe_tables) (use tab t in \<open>simp_all add: upd_task_def upd_approval_def\<close>)
qed

lemma safe_decide_task:
  assumes "safe d" and "a \<in> set (approvals d)" and "decide_task now a actor reason act d = Inr d'"
  shows "safe d'"
proof -
  have "ap_status a \<noteq> ApprovalConsumed"
    using assms(3) by (cases act) (auto simp: decide_task_def split: if_splits)
  then have "safe (upd_approval (ap_id a) (\<lambda>a. a\<lparr>ap_status := decision_to act,
      ap_decided_by := Some actor, ap_decision_reason := Some reason, ap_updated_at := now\<rparr>) d)"
    using assms(1,2) by (intro safe_upd_idle_approval idle_approval_unconsumed) auto
  moreover have "harmless (\<lambda>t. t\<lparr>t_status := decision_task_status act\<rparr>)"
    by (cases act) (auto intro: harmless_status)
  ultimately show ?thesis
    using assms(3) by (auto simp: decide_task_def Let_def intro!: safe_upd_task split: if_splits)
qed

lemma safe_expire_approval:
  assumes "safe d" and "idle_approval (ap_id a) d"
  shows "safe (expire_approval now a d)"
proof -
  have "harmless (\<lambda>t. if t_status t = Queued then t\<lparr>t_status := PendingApproval\<rparr> else t)"
    by (auto simp: harmless_def active_def active_lease_status_def attempts_ok_def lease_held_def)
  then show ?thesis
    using assms
    by (auto simp: expire_approval_def Let_def intro!: safe_upd_task safe_upd_idle_approval)
qed

lemma idle_expire_approval:
  assumes "idle_approval k d"
  shows "idle_approval k (expire_approval now a d)"
proof -
  have "harmless (\<lambda>t. if t_status t = Queued then t\<lparr>t_status := PendingApproval\<rparr> else t)"
    by (auto simp: harmless_def active_def active_lease_status_def attempts_ok_def lease_held_def)
  then show ?thesis
    using assms
    by (auto simp: expire_approval_def Let_def idle_approval_cong[of "snd (append_approval_event _ _ _ _ _ _ _)"]
        intro!: idle_approval_upd_task idle_approval_upd_approval)
qed

lemma safe_fold_expire:
  "safe d \<Longrightarrow> list_all (\<lambda>a. idle_approval (ap_id a) d) as \<Longrightarrow> safe (fold (expire_approval now) as d)"
proof (induction as arbitrary: d)
  case (Cons a as)
  then show ?case
    using Cons.IH[of "expire_approval now a d"] safe_expire_approval idle_expire_approval
    by (simp add: list_all_iff)
qed simp

lemma safe_expire_approvals:
  assumes "safe d"
  shows "safe (snd (expire_approvals now d))"
proof -
  have "idle_approval (ap_id a) d" if "a \<in> set (filter (approval_lapsed now) (approvals d))" for a
    using that assms by (intro idle_approval_unconsumed) (auto simp: approval_lapsed_def)
  then show ?thesis
    using assms by (auto simp: expire_approvals_def Let_def list_all_iff intro!: safe_fold_expire)
qed

text \<open>\<open>consume_task_approval\<close> leaves the tasks alone and the approval consumed.\<close>

lemma consume_tables:
  assumes "consume_task_approval now t d = Inr d'"
  shows "d' = d \<and> \<not> t_approval_required t \<or>
    t_approval_required t \<and> (\<exists>a e. approval_of_task (t_id t) d = Some a \<and> ap_status a = ApprovalApproved
      \<and> ap_expires_at a = Some e \<and> now < e \<and>
      tasks d' = tasks d \<and> next_uuid d' = next_uuid d \<and> graphs d' = graphs d \<and> nodes d' = nodes d \<and>
      approvals d' = approvals (upd_approval (ap_id a) (\<lambda>a. a\<lparr>ap_status := ApprovalConsumed,
        ap_consumed_at := Some now, ap_updated_at := now\<rparr>) d))"
  using assms
  by (auto simp: consume_task_approval_def upd_approval_def split: if_splits option.splits)

lemma safe_consume:
  assumes "safe d" and "consume_task_approval now t d = Inr d'"
  shows "safe d' \<and> tasks d' = tasks d \<and> next_uuid d' = next_uuid d
    \<and> graphs d' = graphs d \<and> nodes d' = nodes d
    \<and> (t_approval_required t \<longrightarrow> (\<exists>a b. approval_of_task (t_id t) d = Some b
         \<and> approval_of_task (t_id t) d' = Some a \<and> ap_plan_digest a = ap_plan_digest b
         \<and> ap_status a = ApprovalConsumed))"
proof (cases "t_approval_required t")
  case False
  then show ?thesis using consume_tables[OF assms(2)] assms(1) by auto
next
  case True
  let ?f = "\<lambda>a. a\<lparr>ap_status := ApprovalConsumed, ap_consumed_at := Some now, ap_updated_at := now\<rparr>"
  obtain a where a: "approval_of_task (t_id t) d = Some a" "ap_status a = ApprovalApproved"
    and tab: "tasks d' = tasks d" "next_uuid d' = next_uuid d" "graphs d' = graphs d"
      "nodes d' = nodes d" "approvals d' = approvals (upd_approval (ap_id a) ?f d)"
    using consume_tables[OF assms(2)] True by blast
  have "safe (upd_approval (ap_id a) ?f d)"
    using assms(1) approval_of_task_in(1)[OF a(1)] a(2)
    by (intro safe_upd_idle_approval idle_approval_unconsumed) auto
  then have "safe d'" by (rule safe_tables) (use tab in simp_all)
  moreover have "approval_of_task (t_id t) d' = Some (?f a)"
    using approval_of_task_cong[OF tab(5), of "t_id t"] a(1) by (simp add: approval_of_task_upd)
  ultimately show ?thesis using tab a(1) by auto
qed

text \<open>\<open>rearm_task_approval\<close>: the task is suspended or queued in the same step.\<close>

lemma upd_task_upd_approval:
  "upd_task i f (upd_approval k g d) = upd_approval k g (upd_task i f d)"
  by (simp add: upd_task_def upd_approval_def)

lemma rearm_tables:
  assumes "rearm_task_approval now t reason d = Inr d'"
  shows "\<not> t_approval_required t \<and> d' = upd_task (t_id t) (\<lambda>t. t\<lparr>t_status := Queued\<rparr>) d \<or>
    (\<exists>a e. t_approval_required t \<and> approval_of_task (t_id t) d = Some a
      \<and> e = upd_approval (ap_id a) (rearm_row now)
              (upd_task (t_id t) (\<lambda>t. t\<lparr>t_status := PendingApproval\<rparr>) d)
      \<and> tasks d' = tasks e \<and> approvals d' = approvals e \<and> next_uuid e \<le> next_uuid d'
      \<and> graphs d' = graphs d \<and> nodes d' = nodes d)"
proof (cases "t_approval_required t")
  case False
  then show ?thesis using assms by (simp add: rearm_task_approval_def)
next
  case True
  then obtain a where a: "approval_of_task (t_id t) d = Some a"
    using assms by (auto simp: rearm_task_approval_def split: option.splits)
  let ?d = "supersede_notifications now (ap_id a) (upd_task (t_id t) (\<lambda>t. t\<lparr>t_status := PendingApproval\<rparr>)
      (upd_approval (ap_id a) (rearm_row now) d))"
  let ?e = "append_approval_event now (ap_id a) ''approval_requested'' ''control-plane'' reason
      [(''attempt_count'', JInt (t_attempt_count t))] ?d"
  have "d' = snd (enqueue_approval_gate now a t (fst ?e) (snd ?e))"
    using assms True a by (simp add: rearm_task_approval_def Let_def case_prod_unfold)
  then show ?thesis
    using True a enqueue_frame(9)[of "snd ?e"]
    by (intro disjI2 exI[of _ a] exI) (auto simp: upd_task_upd_approval)
qed

lemma inactive_rearm:
  assumes "rearm_task_approval now t reason d = Inr d'"
  shows "inactive (t_id t) d'"
proof -
  have s: "inactive (t_id t) (upd_task (t_id t) (\<lambda>t. t\<lparr>t_status := s\<rparr>) d)"
    if "s \<noteq> Leased" "s \<noteq> Running" for s
    using that by (intro inactive_set) (auto simp: active_def active_lease_status_def)
  from rearm_tables[OF assms] show ?thesis
    using s[of Queued] s[of PendingApproval] by (auto simp: inactive_cong[of d'] inactive_def)
qed

lemma safe_rearm:
  assumes "safe d" and "rearm_task_approval now t reason d = Inr d'"
  shows "safe d'"
  using rearm_tables[OF assms(2)]
proof (elim disjE exE conjE)
  assume "d' = upd_task (t_id t) (\<lambda>t. t\<lparr>t_status := Queued\<rparr>) d"
  then show ?thesis using assms(1) by (simp add: safe_upd_task harmless_status)
next
  fix a e
  let ?d = "upd_task (t_id t) (\<lambda>t. t\<lparr>t_status := PendingApproval\<rparr>) d"
  assume a: "approval_of_task (t_id t) d = Some a"
    and e: "e = upd_approval (ap_id a) (rearm_row now) ?d"
    and tab: "tasks d' = tasks e" "approvals d' = approvals e" "next_uuid e \<le> next_uuid d'"
  have s: "safe ?d" using assms(1) by (simp add: safe_upd_task harmless_status)
  have a': "approval_of_task (t_id t) ?d = Some a" using a by (simp add: approval_of_task_def)
  have off: "inactive (t_id t) ?d"
    by (intro inactive_set) (auto simp: active_def active_lease_status_def)
  have "ap_id b \<noteq> ap_id a" if t': "t' \<in> set (tasks ?d)" "active t'"
      and b: "approval_of_task (t_id t') ?d = Some b" for t' b
  proof
    assume "ap_id b = ap_id a"
    then have "b = a"
      using same_approval[of ?d b a] s approval_of_task_in(1)[OF b] approval_of_task_in(1)[OF a']
      by (simp add: safe_def)
    then have "t_id t' = t_id t" using approval_of_task_in(2)[OF b] approval_of_task_in(2)[OF a'] by simp
    then show False using off t' by (auto simp: inactive_def list_all_iff)
  qed
  then have "idle_approval (ap_id a) ?d"
    by (auto simp: idle_approval_def list_all_iff split: option.split)
  then have "safe e" unfolding e using s by (intro safe_upd_idle_approval) simp_all
  then show "safe d'" by (rule safe_tables) (use tab in simp_all)
qed

section \<open>New tasks\<close>

lemma approval_of_task_append:
  assumes "approvals d' = approvals d @ as"
  shows "approval_of_task i d' =
    (case approval_of_task i d of None \<Rightarrow> get_row ap_task_id as i | Some a \<Rightarrow> Some a)"
  using assms by (simp add: approval_of_task_def get_row_append)

lemma gated_append:
  "approvals d' = approvals d @ as \<Longrightarrow> gated d t \<Longrightarrow> gated d' t"
  by (auto simp: gated_def approval_of_task_append split: option.splits)

lemma create_approval_tables:
  "tasks (create_approval now t d) = tasks d"
  "graphs (create_approval now t d) = graphs d" "nodes (create_approval now t d) = nodes d"
  "Suc (next_uuid d) \<le> next_uuid (create_approval now t d)"
  "\<exists>a. approvals (create_approval now t d) = approvals d @ [a] \<and> ap_id a = next_uuid d
     \<and> ap_task_id a = t_id t \<and> ap_plan_digest a = t_plan_digest t \<and> ap_status a = ApprovalPending
     \<and> ap_risk_level a = t_risk_level t"
proof -
  let ?a = "\<lparr>ap_id = next_uuid d, ap_task_id = t_id t, ap_status = ApprovalPending,
               ap_plan_digest = t_plan_digest t, ap_risk_level = t_risk_level t,
               ap_scope = approval_scope t, ap_requested_by = t_created_by t,
               ap_decided_by = None, ap_decision_reason = None, ap_nonce_digest = None,
               ap_issued_at = None, ap_expires_at = None, ap_consumed_at = None,
               ap_created_at = now, ap_updated_at = now\<rparr>"
  let ?d = "d\<lparr>approvals := approvals d @ [?a], next_uuid := Suc (next_uuid d)\<rparr>"
  let ?e = "append_approval_event now (ap_id ?a) ''approval_requested'' (t_created_by t)
              ''Task requires approval.'' [] ?d"
  have *: "create_approval now t d = snd (enqueue_approval_gate now ?a t (fst ?e) (snd ?e))"
    by (simp add: create_approval_def Let_def case_prod_unfold)
  show "tasks (create_approval now t d) = tasks d"
    "graphs (create_approval now t d) = graphs d" "nodes (create_approval now t d) = nodes d"
    "\<exists>a. approvals (create_approval now t d) = approvals d @ [a] \<and> ap_id a = next_uuid d
     \<and> ap_task_id a = t_id t \<and> ap_plan_digest a = t_plan_digest t \<and> ap_status a = ApprovalPending
     \<and> ap_risk_level a = t_risk_level t"
    by (simp_all add: *)
  show "Suc (next_uuid d) \<le> next_uuid (create_approval now t d)"
    unfolding * using enqueue_frame(9)[of "snd ?e"] by simp
qed

text \<open>A task as the services build it: no lease, no attempt used.\<close>

definition fresh_task :: "task \<Rightarrow> bool" where
  "fresh_task t = (\<not> active t \<and> attempts_ok t)"

lemma persist_tables:
  assumes "persist_new_task now t d = Inr (t', d')"
  shows "t' = t\<lparr>t_id := next_uuid d, t_created_at := now\<rparr> \<and> tasks d' = tasks d @ [t']
    \<and> graphs d' = graphs d \<and> nodes d' = nodes d \<and> Suc (next_uuid d) \<le> next_uuid d'
    \<and> t_task_number t \<notin> t_task_number ` set (tasks d)
    \<and> (\<not> t_approval_required t \<and> approvals d' = approvals d
       \<or> t_approval_required t \<and> (\<exists>a. approvals d' = approvals d @ [a] \<and> ap_id a = Suc (next_uuid d)
           \<and> Suc (ap_id a) \<le> next_uuid d'
           \<and> ap_task_id a = t_id t' \<and> ap_plan_digest a = t_plan_digest t
           \<and> ap_status a = ApprovalPending \<and> ap_risk_level a = t_risk_level t))"
proof (cases "t_approval_required t")
  case False
  then show ?thesis using assms by (auto simp: persist_new_task_def Let_def split: if_splits)
next
  case True
  let ?t = "t\<lparr>t_id := next_uuid d, t_created_at := now\<rparr>"
  let ?d = "d\<lparr>tasks := tasks d @ [?t], next_uuid := Suc (next_uuid d)\<rparr>"
  have "t' = ?t" and new: "t_task_number t \<notin> t_task_number ` set (tasks d)"
    and d': "tasks d' = tasks (create_approval now ?t ?d)" "graphs d' = graphs (create_approval now ?t ?d)"
      "nodes d' = nodes (create_approval now ?t ?d)" "approvals d' = approvals (create_approval now ?t ?d)"
      "next_uuid d' = next_uuid (create_approval now ?t ?d)"
    using assms True by (auto simp: persist_new_task_def Let_def split: if_splits)
  then show ?thesis
    using True create_approval_tables[where t = ?t and now = now and d = ?d] by auto
qed

lemma safe_persist:
  assumes "safe d" and "fresh_task t" and "persist_new_task now t d = Inr (t', d')"
  shows "safe d'"
proof -
  note tab = persist_tables[OF assms(3)]
  have k: "keys_ok d" using assms(1) by (simp add: safe_def)
  have no: "approval_of_task (next_uuid d) d = None"
    using k by (auto simp: approval_of_task_def get_row_None_iff keys_ok_def list_all_iff)
  have app: "\<exists>as. approvals d' = approvals d @ as" using tab by auto
  have lt: "u \<in> set (tasks d) \<Longrightarrow> t_id u < next_uuid d"
      "b \<in> set (approvals d) \<Longrightarrow> ap_id b < next_uuid d \<and> ap_task_id b < next_uuid d" for u b
    using k by (auto simp: keys_ok_def list_all_iff)
  have "distinct (map t_id (tasks d))" "distinct (map ap_id (approvals d))"
    using k by (auto simp: keys_ok_def)
  then have "keys_ok d'" using tab by (auto simp: keys_ok_def list_all_iff dest!: lt)
  moreover have "gated d' u" if "u \<in> set (tasks d)" for u
    using app gated_append safe_task(1)[OF assms(1) that] by blast
  moreover have "gated d' t'"
  proof (cases "t_approval_required t")
    case True
    then obtain a where a: "approvals d' = approvals d @ [a]" "ap_task_id a = t_id t'"
      "ap_plan_digest a = t_plan_digest t"
      using tab by blast
    have t': "t_id t' = next_uuid d" "t_plan_digest t' = t_plan_digest t" "\<not> active t'"
      using tab assms(2) by (simp_all add: fresh_task_def active_def)
    have "approval_of_task (t_id t') d' = Some a"
      using approval_of_task_append[OF a(1), of "t_id t'"] no a(2) t'(1) by simp
    then show ?thesis using a(3) t' by (simp add: gated_def)
  next
    case False
    then show ?thesis using tab by (simp add: gated_def)
  qed
  moreover have "attempts_ok t'" "lease_held t'"
    using tab assms(2) by (auto simp: fresh_task_def attempts_ok_def lease_held_def active_def)
  ultimately show ?thesis
    using tab safe_task[OF assms(1)] by (simp add: safe_def list_all_iff)
qed

lemma fresh_build_task:
  "1 \<le> tc_max_attempts p \<Longrightarrow> fresh_task (build_task p)"
  by (simp add: fresh_task_def build_task_def active_def active_lease_status_def attempts_ok_def Let_def)

lemma safe_create_task:
  assumes "safe d" and "1 \<le> tc_max_attempts p" and "create_task now p d = Inr (t, d')"
  shows "safe d'"
proof -
  have "persist_new_task now (build_task p) d = Inr (t, d')"
    using assms(3)
    by (auto simp: create_task_def split: if_splits sum.splits exn.splits option.splits)
  from safe_persist[OF assms(1) fresh_build_task[OF assms(2)] this] show ?thesis .
qed

section \<open>Leases\<close>

lemma record_denial_frame [simp]:
  "tasks (record_denial now ag t rs d) = tasks d" "approvals (record_denial now ag t rs d) = approvals d"
  "next_uuid (record_denial now ag t rs d) = next_uuid d" "graphs (record_denial now ag t rs d) = graphs d"
  "nodes (record_denial now ag t rs d) = nodes d"
  by (simp_all add: record_denial_def Let_def)

text \<open>What \<open>resolve\<close> reads does not change in the loop over the candidates.\<close>

lemma resolve_cong:
  assumes "agents d' = agents d" and "charters d' = charters d" and "packages d' = packages d"
    and "deployments d' = deployments d" and "grants d' = grants d"
  shows "resolve now i q d' = resolve now i q d"
proof -
  have "get_agent i d' = get_agent i d" "active_charter i d' = active_charter i d"
    "active_package i d' = active_package i d"
    "active_grant i (ar_capability q) p d' = active_grant i (ar_capability q) p d" for p
    using assms by (simp_all add: get_agent_def active_charter_def active_package_def active_grant_def)
  then show ?thesis by (simp only: resolve_def)
qed

lemma resolve_record_denial [simp]:
  "resolve now' i q (record_denial now ag t rs d) = resolve now' i q d"
  by (rule resolve_cong) (simp_all add: record_denial_def append_task_event_def Let_def)

lemma resolve_task_authority_record_denial [simp]:
  "resolve_task_authority now u ag (record_denial now' ag' t rs d) = resolve_task_authority now u ag d"
  by (simp add: resolve_task_authority_def cong: option.case_cong)

lemma choose_task_tables:
  assumes "choose_task now ag scopes ts d = Inr (choice, d')"
  shows "tasks d' = tasks d \<and> approvals d' = approvals d \<and> next_uuid d' = next_uuid d
    \<and> graphs d' = graphs d \<and> nodes d' = nodes d
    \<and> (case choice of None \<Rightarrow> True
       | Some (t, snapshots) \<Rightarrow> t \<in> set ts \<and> \<not> list_ex (\<lambda>s. task_matches_control_scope s t) scopes
           \<and> resolve_task_authority now t ag d = Inr snapshots \<and> snapshots \<noteq> []
           \<and> list_all ef_allowed snapshots)"
  using assms
proof (induction ts arbitrary: d)
  case Nil
  then show ?case by simp
next
  case (Cons t ts)
  show ?case
  proof (cases "list_ex (\<lambda>s. task_matches_control_scope s t) scopes")
    case True
    then have "choose_task now ag scopes ts d = Inr (choice, d')" using Cons.prems by simp
    from Cons.IH[OF this] show ?thesis by (auto split: option.splits)
  next
    case False
    then obtain sn where sn: "resolve_task_authority now t ag d = Inr sn"
      using Cons.prems by (auto simp: ebind_Inr_iff)
    show ?thesis
    proof (cases "sn \<noteq> [] \<and> list_all ef_allowed sn")
      case True
      then show ?thesis using Cons.prems False sn by (auto simp: ebind_Inr_iff)
    next
      case notall: False
      then have "choose_task now ag scopes ts (record_denial now ag t (denial_reasons sn) d) = Inr (choice, d')"
        using Cons.prems False sn by (auto simp: ebind_Inr_iff split: if_splits)
      from Cons.IH[OF this] show ?thesis by (auto split: option.splits)
    qed
  qed
qed

lemma leased_row_keys [simp]:
  "t_id (leased_row now ag secs tok t) = t_id t"
  "t_approval_required (leased_row now ag secs tok t) = t_approval_required t"
  "t_plan_digest (leased_row now ag secs tok t) = t_plan_digest t"
  "t_task_graph_node_id (leased_row now ag secs tok t) = t_task_graph_node_id t"
  "active (leased_row now ag secs tok t)"
  by (simp_all add: leased_row_def active_def active_lease_status_def)

lemma grant_lease_tables:
  assumes "grant_lease now ag secs tok t sn d = Inr (r, d')"
  shows "r = (leased_row now ag secs tok t, gt_token tok, t_failure t) \<and>
    (\<exists>d1. consume_task_approval now t d = Inr d1
      \<and> tasks d' = tasks (upd_task (t_id t) (leased_row now ag secs tok) d1)
      \<and> approvals d' = approvals d1 \<and> next_uuid d' = next_uuid d1
      \<and> graphs d' = graphs d1 \<and> nodes d' = nodes d1)"
  using assms by (auto simp: grant_lease_def Let_def ebind_Inr_iff)

lemma safe_grant_lease:
  assumes "safe d" and "t \<in> set (tasks d)" and "t_attempt_count t < t_max_attempts t"
    and "grant_lease now ag secs tok t sn d = Inr (r, d')"
  shows "safe d'"
proof -
  obtain d1 where c: "consume_task_approval now t d = Inr d1"
    and tab: "tasks d' = tasks (upd_task (t_id t) (leased_row now ag secs tok) d1)"
      "approvals d' = approvals d1" "next_uuid d' = next_uuid d1"
    using grant_lease_tables[OF assms(4)] by blast
  let ?d = "upd_task (t_id t) (leased_row now ag secs tok) d1"
  note s1 = safe_consume[OF assms(1) c]
  have t: "t \<in> set (tasks d1)" using s1 assms(2) by simp
  have uniq: "u = t" if "u \<in> set (tasks d1)" "t_id u = t_id t" for u
    using same_task[of d1 u t] s1 t that by (simp add: safe_def)
  have "gated d1 (leased_row now ag secs tok t)"
    using s1 safe_task(1)[OF assms(1,2)] by (auto simp: gated_def)
  moreover have "attempts_ok (leased_row now ag secs tok t)"
    using safe_task(2)[OF assms(1,2)] assms(3) by (simp add: attempts_ok_def leased_row_def)
  moreover have "lease_held (leased_row now ag secs tok t)"
    by (simp add: lease_held_def leased_row_def)
  ultimately have "list_all (\<lambda>t. gated d1 t \<and> attempts_ok t \<and> lease_held t) (tasks ?d)"
    using s1 uniq safe_task[of d1]
    by (auto simp: upd_task_def list_all_upd_row) (auto simp: list_all_iff)
  moreover have "keys_ok ?d" using s1 by (simp add: keys_ok_upd_task safe_def)
  ultimately have "safe ?d" by (simp add: safe_def)
  then show ?thesis by (rule safe_tables) (use tab in simp_all)
qed

lemma candidates_in: "t \<in> set (candidates now ag d) \<Longrightarrow> t \<in> set (tasks d) \<and> eligible now ag d t"
  using set_take_subset[of 100 "sort_key (\<lambda>t. (- t_priority t, t_created_at t)) (filter (eligible now ag d) (tasks d))"]
  by (auto simp: candidates_def)

text \<open>The stages of a successful lease, one fact each.\<close>

lemma lease_next_task_stages:
  assumes "lease_next_task now ag secs tok d = Inr (Some r, d')"
    and "d1 = snd (expire_approvals now d)"
  obtains t sn d2 where "t \<in> set (tasks d1)" "eligible now ag d1 t"
    "\<not> list_ex (\<lambda>s. task_matches_control_scope s t) (paused_workflow_scopes d1)"
    "resolve_task_authority now t ag d1 = Inr sn" "sn \<noteq> []" "list_all ef_allowed sn"
    "tasks d2 = tasks d1" "approvals d2 = approvals d1" "next_uuid d2 = next_uuid d1"
    "graphs d2 = graphs d1" "nodes d2 = nodes d1"
    "grant_lease now ag secs tok t sn d2 = Inr (r, d')"
proof -
  from assms obtain choice d2 where
    ch: "choose_task now ag (paused_workflow_scopes d1) (candidates now ag d1) d1 = Inr (choice, d2)"
    and rest: "(case choice of None \<Rightarrow> Inr (None, d2)
        | Some (t, sn) \<Rightarrow> ebind (grant_lease now ag secs tok t sn d2)
            (\<lambda>(leased, d3). Inr (Some leased, d3))) = Inr (Some r, d')"
    by (auto simp: lease_next_task_def Let_def ebind_Inr_iff)
  from rest obtain t sn where c: "choice = Some (t, sn)"
    and g: "grant_lease now ag secs tok t sn d2 = Inr (r, d')"
    by (auto simp: ebind_Inr_iff split: option.splits)
  from choose_task_tables[OF ch] c have
    "t \<in> set (candidates now ag d1)"
    "\<not> list_ex (\<lambda>s. task_matches_control_scope s t) (paused_workflow_scopes d1)"
    "resolve_task_authority now t ag d1 = Inr sn" "sn \<noteq> []" "list_all ef_allowed sn"
    "tasks d2 = tasks d1" "approvals d2 = approvals d1" "next_uuid d2 = next_uuid d1"
    "graphs d2 = graphs d1" "nodes d2 = nodes d1"
    by auto
  with that g candidates_in show ?thesis by blast
qed

lemma lease_none_tables:
  assumes "lease_next_task now ag secs tok d = Inr (None, d')" and "d1 = snd (expire_approvals now d)"
  shows "tasks d' = tasks d1 \<and> approvals d' = approvals d1 \<and> next_uuid d' = next_uuid d1
    \<and> graphs d' = graphs d1 \<and> nodes d' = nodes d1"
proof -
  from assms obtain choice d2 where
    ch: "choose_task now ag (paused_workflow_scopes d1) (candidates now ag d1) d1 = Inr (choice, d2)"
    and rest: "(case choice of None \<Rightarrow> Inr (None, d2)
        | Some (t, sn) \<Rightarrow> ebind (grant_lease now ag secs tok t sn d2)
            (\<lambda>(leased, d3). Inr (Some leased, d3))) = Inr (None, d')"
    by (auto simp: lease_next_task_def Let_def ebind_Inr_iff)
  from rest have "d2 = d'" by (auto simp: ebind_Inr_iff split: option.splits)
  with choose_task_tables[OF ch] show ?thesis by blast
qed

lemma safe_lease_next_task:
  assumes "safe d" and "lease_next_task now ag secs tok d = Inr (r, d')"
  shows "safe d'"
proof -
  let ?d1 = "snd (expire_approvals now d)"
  have s1: "safe ?d1" using assms(1) by (rule safe_expire_approvals)
  show ?thesis
  proof (cases r)
    case None
    from lease_none_tables[OF assms(2)[unfolded None] refl] show ?thesis
      by (intro safe_tables[OF s1]) auto
  next
    case (Some x)
    from lease_next_task_stages[OF assms(2)[unfolded Some] refl]
    obtain t sn d2 where t: "t \<in> set (tasks ?d1)" "eligible now ag ?d1 t"
      and d2: "tasks d2 = tasks ?d1" "approvals d2 = approvals ?d1" "next_uuid d2 = next_uuid ?d1"
      and g: "grant_lease now ag secs tok t sn d2 = Inr (x, d')"
      by metis
    have "safe d2" by (rule safe_tables[OF s1]) (use d2 in simp_all)
    moreover have "t_attempt_count t < t_max_attempts t" using t(2) by (simp add: eligible_def)
    ultimately show ?thesis using safe_grant_lease[OF _ _ _ g] t(1) d2(1) by simp
  qed
qed

section \<open>Expired leases\<close>

lemma harmless_lease_failed:
  "harmless (\<lambda>t. t\<lparr>t_status := Failed, t_failure := x, t_completed_at := y\<rparr>)"
  by (simp add: harmless_def active_def active_lease_status_def attempts_ok_def lease_held_def)

lemma safe_reap_task:
  assumes "safe d" and "reap_task now t (n, m, d) = Inr (n', m', d')"
  shows "safe d'"
proof (cases "t_max_attempts t \<le> t_attempt_count t")
  case True
  let ?f = "\<lambda>t. t\<lparr>t_status := Failed, t_failure := lease_failure, t_completed_at := Some now\<rparr>"
  let ?d1 = "append_task_event now t ''lease_expired'' ''Task lease expired.'' (t_assigned_agent_id t)
      [(''previous_status'', JStr (task_status_str (t_status t))),
       (''lease_expires_at'', option_json jtime (t_lease_expires_at t))] d"
  let ?d2 = "append_task_event now t ''task_failed'' ''Task failed after exhausting lease attempts.''
      (t_assigned_agent_id t) lease_failure (upd_task (t_id t) ?f ?d1)"
  have d': "d' = upd_task (t_id t) clear_lease ?d2"
    using assms(2) True by (simp add: reap_task_def Let_def)
  have "safe ?d2" using assms(1) by (simp add: safe_upd_task harmless_lease_failed)
  moreover have "inactive (t_id t) (upd_task (t_id t) ?f ?d1)"
    by (rule inactive_set) (simp_all add: active_def active_lease_status_def)
  then have "inactive (t_id t) ?d2" by simp
  ultimately show ?thesis unfolding d' by (rule safe_clear_lease)
next
  case False
  let ?d1 = "append_task_event now t ''lease_expired'' ''Task lease expired.'' (t_assigned_agent_id t)
      [(''previous_status'', JStr (task_status_str (t_status t))),
       (''lease_expires_at'', option_json jtime (t_lease_expires_at t))] d"
  obtain d2 where r: "rearm_task_approval now t ''A new approval is required after lease expiry.'' ?d1 = Inr d2"
    and d': "d' = upd_task (t_id t) clear_lease (append_task_event now t ''task_requeued''
        ''Task returned for approval or requeued after lease expiry.'' (t_assigned_agent_id t) [] d2)"
    using assms False by (auto simp: reap_task_def Let_def ebind_Inr_iff)
  have "safe d2" using safe_rearm[OF _ r] assms(1) by simp
  then show ?thesis
    unfolding d' using inactive_rearm[OF r] by (intro safe_clear_lease) simp_all
qed

lemma safe_reap_expired_leases:
  assumes "safe d" and "reap_expired_leases now d = Inr (k, n, m, d')"
  shows "safe d'"
proof -
  obtain ts where e: "efold (reap_task now) ts (0, 0, d) = Inr (n, m, d')"
    using assms(2) by (auto simp: reap_expired_leases_def Let_def ebind_Inr_iff)
  have "safe (snd (snd (n, m, d')))"
    by (rule efold_invariant[where I = "\<lambda>x. safe (snd (snd x))", OF _ _ e])
       (use assms(1) safe_reap_task in \<open>auto simp: split_paired_all\<close>)
  then show ?thesis by simp
qed

text \<open>What reaping one task does to the rows: that row loses its lease, the others stay.\<close>

lemma upd_row_upd_row:
  assumes "\<And>r. key (f r) = key r"
  shows "upd_row key k g (upd_row key k f rows) = upd_row key k (\<lambda>r. g (f r)) rows"
  using assms by (simp add: upd_row_def)

lemma rearm_rows:
  assumes "rearm_task_approval now t reason d = Inr d'"
  shows "tasks d' = upd_row t_id (t_id t)
        (\<lambda>u. u\<lparr>t_status := (if t_approval_required t then PendingApproval else Queued)\<rparr>) (tasks d)
    \<and> (\<forall>i. approval_of_task i d' = None \<longleftrightarrow> approval_of_task i d = None)"
  using rearm_tables[OF assms]
proof (elim disjE exE conjE)
  assume "\<not> t_approval_required t" "d' = upd_task (t_id t) (\<lambda>t. t\<lparr>t_status := Queued\<rparr>) d"
  then show ?thesis by (simp add: upd_task_def approval_of_task_def)
next
  fix a e
  assume req: "t_approval_required t"
    and e: "e = upd_approval (ap_id a) (rearm_row now) (upd_task (t_id t) (\<lambda>t. t\<lparr>t_status := PendingApproval\<rparr>) d)"
    and tab: "tasks d' = tasks e" "approvals d' = approvals e"
  have "approval_of_task i d' = approval_of_task i e" for i by (rule approval_of_task_cong[OF tab(2)])
  moreover have "approval_of_task i e = None \<longleftrightarrow> approval_of_task i d = None" for i
    by (simp add: e approval_of_task_upd) (simp add: approval_of_task_def)
  ultimately show ?thesis using tab(1) req by (simp add: e, simp add: upd_task_def)
qed

text \<open>
  The row of a task whose lease has expired, after it was reaped: failed when its attempts are
  exhausted, otherwise back in review when it needs approval and queued when not.
\<close>

definition reaped :: "time \<Rightarrow> task \<Rightarrow> task \<Rightarrow> task" where
  "reaped now t u = clear_lease
     (if t_max_attempts t \<le> t_attempt_count t
      then u\<lparr>t_status := Failed, t_failure := lease_failure, t_completed_at := Some now\<rparr>
      else u\<lparr>t_status := (if t_approval_required t then PendingApproval else Queued)\<rparr>)"

lemma reaped_simps [simp]: "t_id (reaped now t u) = t_id u" "\<not> active (reaped now t u)"
  by (simp_all add: reaped_def clear_lease_def active_def active_lease_status_def)

lemma reap_task_rows:
  assumes "reap_task now t (n, m, d) = Inr (n', m', d')"
  shows "tasks d' = upd_row t_id (t_id t) (reaped now t) (tasks d)
    \<and> (n', m') = (if t_max_attempts t \<le> t_attempt_count t then (n, Suc m) else (Suc n, m))
    \<and> (\<forall>i. approval_of_task i d' = None \<longleftrightarrow> approval_of_task i d = None)"
proof (cases "t_max_attempts t \<le> t_attempt_count t")
  case True
  let ?f = "\<lambda>t. t\<lparr>t_status := Failed, t_failure := lease_failure, t_completed_at := Some now\<rparr>"
  have "tasks d' = upd_row t_id (t_id t) clear_lease (upd_row t_id (t_id t) ?f (tasks d))"
    and "n' = n" "m' = Suc m" and "approvals d' = approvals d"
    using assms True by (auto simp: reap_task_def Let_def upd_task_def)
  then show ?thesis using True by (simp add: upd_row_upd_row reaped_def[abs_def] approval_of_task_def)
next
  case False
  let ?d1 = "append_task_event now t ''lease_expired'' ''Task lease expired.'' (t_assigned_agent_id t)
      [(''previous_status'', JStr (task_status_str (t_status t))),
       (''lease_expires_at'', option_json jtime (t_lease_expires_at t))] d"
  obtain d2 where r: "rearm_task_approval now t ''A new approval is required after lease expiry.'' ?d1 = Inr d2"
    and d': "tasks d' = upd_row t_id (t_id t) clear_lease (tasks d2)" "approvals d' = approvals d2"
      "n' = Suc n" "m' = m"
    using assms False by (auto simp: reap_task_def Let_def ebind_Inr_iff upd_task_def)
  have s: "tasks d2 = upd_row t_id (t_id t)
        (\<lambda>u. u\<lparr>t_status := (if t_approval_required t then PendingApproval else Queued)\<rparr>) (tasks d)"
      "\<forall>i. approval_of_task i d2 = None \<longleftrightarrow> approval_of_task i ?d1 = None"
    using rearm_rows[OF r] by auto
  have "approval_of_task i ?d1 = approval_of_task i d" "approval_of_task i d' = approval_of_task i d2" for i
    using d'(2) by (simp_all add: approval_of_task_def)
  then show ?thesis using s d' False by (simp add: upd_row_upd_row reaped_def[abs_def])
qed

lemma reap_fold_rows:
  "efold (reap_task now) ts (n, m, d) = Inr (n', m', d') \<Longrightarrow> distinct (map t_id ts) \<Longrightarrow>
   tasks d' = map (\<lambda>u. case get_row t_id ts (t_id u) of None \<Rightarrow> u | Some t \<Rightarrow> reaped now t u) (tasks d)
   \<and> n' = n + length (filter (\<lambda>t. t_attempt_count t < t_max_attempts t) ts)
   \<and> m' = m + length (filter (\<lambda>t. t_max_attempts t \<le> t_attempt_count t) ts)"
proof (induction ts arbitrary: n m d)
  case (Cons t ts)
  then obtain n1 m1 d1 where 1: "reap_task now t (n, m, d) = Inr (n1, m1, d1)"
    and rest: "efold (reap_task now) ts (n1, m1, d1) = Inr (n', m', d')"
    by (auto simp: ebind_Inr_iff)
  note f = reap_task_rows[OF 1]
  have g: "tasks d' = map (\<lambda>u. case get_row t_id ts (t_id u) of None \<Rightarrow> u | Some t \<Rightarrow> reaped now t u) (tasks d1)"
      "n' = n1 + length (filter (\<lambda>t. t_attempt_count t < t_max_attempts t) ts)"
      "m' = m1 + length (filter (\<lambda>t. t_max_attempts t \<le> t_attempt_count t) ts)"
    using Cons.IH[OF rest] Cons.prems(2) by simp_all
  have "get_row t_id ts (t_id t) = None" using Cons.prems(2) by (simp add: get_row_None_iff)
  then have "tasks d' = map (\<lambda>u. case get_row t_id (t # ts) (t_id u) of None \<Rightarrow> u | Some t \<Rightarrow> reaped now t u) (tasks d)"
    using conjunct1[OF f] g(1) by (auto simp: upd_row_def)
  then show ?case using f g(2,3) by (auto split: if_split_asm)
qed simp

lemma reap_task_total:
  assumes "t_approval_required t \<longrightarrow> approval_of_task (t_id t) d \<noteq> None"
  shows "\<exists>n' m' d'. reap_task now t (n, m, d) = Inr (n', m', d')"
  using assms by (auto simp: reap_task_def rearm_task_approval_def approval_of_task_def Let_def
      split: prod.splits)

lemma reap_fold_total:
  "list_all (\<lambda>t. t_approval_required t \<longrightarrow> approval_of_task (t_id t) d \<noteq> None) ts \<Longrightarrow>
   \<exists>n' m' d'. efold (reap_task now) ts (n, m, d) = Inr (n', m', d')"
proof (induction ts arbitrary: n m d)
  case (Cons t ts)
  then obtain n1 m1 d1 where 1: "reap_task now t (n, m, d) = Inr (n1, m1, d1)"
    using reap_task_total[of t d now n m] by auto
  from reap_task_rows[OF 1] have "\<forall>i. approval_of_task i d1 = None \<longleftrightarrow> approval_of_task i d = None"
    by blast
  then have "list_all (\<lambda>t. t_approval_required t \<longrightarrow> approval_of_task (t_id t) d1 \<noteq> None) ts"
    using Cons.prems by (auto simp: list_all_iff)
  from Cons.IH[OF this] 1 show ?case by simp
qed simp

lemma gated_approval:
  "gated d t \<Longrightarrow> t_approval_required t \<Longrightarrow> approval_of_task (t_id t) d \<noteq> None"
  by (auto simp: gated_def split: option.splits)

text \<open>
  (C11) Reaping always succeeds and recovers every expired lease: a task whose lease has expired
  loses it and is failed when its attempts are exhausted, otherwise it is sent back to review when it
  needs approval and queued when it does not; every other task is untouched. The numbers that are
  returned count the tasks in each case, and afterwards no lease has expired.
\<close>

theorem reap_recovers_expired:
  assumes "safe d"
  shows "\<exists>k n m d'. reap_expired_leases now d = Inr (k, n, m, d') \<and> safe d'
    \<and> tasks d' = map (\<lambda>t. if lease_expired now t then reaped now t t else t) (tasks d)
    \<and> k = length (filter (lease_expired now) (tasks d))
    \<and> n = length (filter (\<lambda>t. lease_expired now t \<and> t_attempt_count t < t_max_attempts t) (tasks d))
    \<and> m = length (filter (\<lambda>t. lease_expired now t \<and> t_max_attempts t \<le> t_attempt_count t) (tasks d))
    \<and> list_all (\<lambda>t. \<not> lease_expired now t) (tasks d')"
proof -
  define ts where "ts = sort_key (\<lambda>t. case t_lease_expires_at t of None \<Rightarrow> 0 | Some e \<Rightarrow> e)
      (filter (lease_expired now) (tasks d))"
  have k: "keys_ok d" using assms by (simp add: safe_def)
  have ts: "set ts = {t \<in> set (tasks d). lease_expired now t}" by (simp add: ts_def)
  have count: "length (filter P ts) = length (filter (\<lambda>t. lease_expired now t \<and> P t) (tasks d))" for P
    by (simp add: ts_def filter_sort conj_commute)
  have ids: "distinct (map t_id ts)"
    using k by (auto simp: ts_def keys_ok_def distinct_map distinct_sort intro: inj_on_subset)
  have "list_all (\<lambda>t. t_approval_required t \<longrightarrow> approval_of_task (t_id t) d \<noteq> None) ts"
    using ts safe_task(1)[OF assms] gated_approval[of d] by (auto simp: list_all_iff)
  from reap_fold_total[OF this] obtain n m d' where
    e: "efold (reap_task now) ts (0, 0, d) = Inr (n, m, d')" by blast
  then have r: "reap_expired_leases now d = Inr (length ts, n, m, d')"
    by (simp add: reap_expired_leases_def ts_def[symmetric] Let_def)
  have row: "(case get_row t_id ts (t_id u) of None \<Rightarrow> u | Some t \<Rightarrow> reaped now t u)
      = (if lease_expired now u then reaped now u u else u)" if u: "u \<in> set (tasks d)" for u
  proof (cases "lease_expired now u")
    case True
    then show ?thesis using get_row_in[OF ids, of u] u ts by simp
  next
    case False
    have "get_row t_id ts (t_id u) = None"
      using same_task[OF k u] False ts by (auto simp: get_row_None_iff)
    then show ?thesis using False by simp
  qed
  note rows = reap_fold_rows[OF e ids]
  then have "tasks d' = map (\<lambda>t. if lease_expired now t then reaped now t t else t) (tasks d)"
    using row by simp
  moreover have "\<not> lease_expired now (reaped now t t)" for t
    by (simp add: lease_expired_def reaped_def clear_lease_def)
  ultimately show ?thesis
    using r rows count count[of "\<lambda>_. True"] safe_reap_expired_leases[OF assms r] by (auto simp: list_all_iff)
qed

section \<open>What a lease rests on\<close>

lemma authority_of_capability:
  assumes "resolve_task_authority now t ag d = Inr sn" and "list_all ef_allowed sn"
    and "c \<in> set (t_required_capabilities t)"
  shows "\<exists>q. authority_request t ag c = Some q \<and> ef_allowed (resolve now (a_id ag) q d)"
proof -
  from emap_Inr[THEN iffD1, OF assms(1)[unfolded resolve_task_authority_def]] assms(2,3)
  obtain y where "(case authority_request t ag c of
          None \<Rightarrow> Inl (ValueError ''EffectiveAuthorityRequest'')
        | Some q \<Rightarrow> Inr (resolve now (a_id ag) q d)) = Inr y" "ef_allowed y"
    by (auto simp: list_all2_conv_all_nth in_set_conv_nth list_all_length)
  then show ?thesis by (auto split: option.splits)
qed

text \<open>
  (C2) A task is leased only when everything allows it: it was queued, within its attempts,
  the agent's risk ceiling and capabilities; every task it depends on has succeeded; its
  graph has a free slot and its mission is open; no paused workflow covers it; the agent has
  effective authority for every capability it needs; and if it needs approval, an unexpired
  approval of its very plan existed and is now consumed. The row returned is the stored one.
\<close>

theorem lease_next_task_sound:
  assumes "safe d" and "lease_next_task now ag secs tok d = Inr (Some (t', token, prior), d')"
  shows "\<exists>t. let d1 = snd (expire_approvals now d) in
    t \<in> set (tasks d1) \<and> eligible now ag d1 t \<and> get_task (t_id t) d' = Some t'
    \<and> t' = leased_row now ag secs tok t \<and> token = gt_token tok \<and> prior = t_failure t
    \<and> \<not> list_ex (\<lambda>s. task_matches_control_scope s t) (paused_workflow_scopes d1)
    \<and> t_required_capabilities t \<noteq> []
    \<and> list_all (\<lambda>c. \<exists>q. authority_request t ag c = Some q \<and> ef_allowed (resolve now (a_id ag) q d1))
         (t_required_capabilities t)
    \<and> list_all (\<lambda>p. t_status p = Succeeded) (predecessors (t_id t) d1)
    \<and> (t_approval_required t \<longrightarrow> (\<exists>a. approval_of_task (t_id t) d' = Some a
          \<and> ap_status a = ApprovalConsumed \<and> ap_plan_digest a = t_plan_digest t))"
proof -
  let ?d1 = "snd (expire_approvals now d)"
  obtain t sn d2 where t: "t \<in> set (tasks ?d1)" "eligible now ag ?d1 t"
      "\<not> list_ex (\<lambda>s. task_matches_control_scope s t) (paused_workflow_scopes ?d1)"
    and sn: "resolve_task_authority now t ag ?d1 = Inr sn" "sn \<noteq> []" "list_all ef_allowed sn"
    and d2: "tasks d2 = tasks ?d1" "approvals d2 = approvals ?d1" "next_uuid d2 = next_uuid ?d1"
    and g: "grant_lease now ag secs tok t sn d2 = Inr ((t', token, prior), d')"
    using lease_next_task_stages[OF assms(2) refl] by metis
  have row: "t' = leased_row now ag secs tok t" "token = gt_token tok" "prior = t_failure t"
    using grant_lease_tables[OF g] by auto
  obtain d3 where "tasks d' = tasks (upd_task (t_id t) (leased_row now ag secs tok) d3)"
      "consume_task_approval now t d2 = Inr d3"
    using grant_lease_tables[OF g] by blast
  moreover have s2: "safe d2" using safe_expire_approvals[OF assms(1), of now] by (rule safe_tables) (use d2 in simp_all)
  ultimately have "tasks d' = upd_row t_id (t_id t) (leased_row now ag secs tok) (tasks ?d1)"
    using safe_consume[OF s2] d2(1) by (auto simp: upd_task_def)
  then have in': "t' \<in> set (tasks d')" using t(1) row(1) by (auto simp: upd_row_def)
  have s': "safe d'" by (rule safe_lease_next_task[OF assms])
  have get: "get_task (t_id t) d' = Some t'"
    using keys_ok_get_task[of d' t'] s' in' row(1) by (simp add: safe_def)
  have "t_required_capabilities t \<noteq> []"
    using sn(1,2) by (auto simp: resolve_task_authority_def)
  moreover have "list_all (\<lambda>p. t_status p = Succeeded) (predecessors (t_id t) ?d1)"
    using t(2) by (simp add: eligible_def)
  moreover have "\<exists>a. approval_of_task (t_id t) d' = Some a
          \<and> ap_status a = ApprovalConsumed \<and> ap_plan_digest a = t_plan_digest t"
    if "t_approval_required t"
    using safe_task(1)[OF s' in'] row(1) that by (auto simp: gated_def split: option.splits)
  ultimately show ?thesis
    using t row get authority_of_capability[OF sn(1,3)]
    by (intro exI[of _ t]) (simp add: Let_def list_all_iff)
qed

end
