(* ===== verification/TaskGraphs.thy ===== *)
theory TaskGraphs
  imports Invariants
begin

text \<open>
  Typed task graphs (\<open>services/task_graphs.py\<close>, \<open>schemas/task_graph.py\<close>): the
  validation of a graph, its activation into tasks and dependencies, typed messages,
  cooperative cancellation, compensation and the reconciliation of a graph with its tasks,
  with the hash-chained event log of each graph.
\<close>

section \<open>Validation\<close>

record task_graph_node_create =
  nc_key :: string
  nc_role :: string
  nc_node_type :: string
  nc_depends_on :: "string list"
  nc_input_type :: string
  nc_output_type :: string
  nc_task :: graph_task_spec
  nc_stop_conditions :: "string list"
  nc_compensation :: "graph_task_spec option"

record task_graph_create =
  gp_graph_key :: string
  gp_project :: string
  gp_objective :: string
  gp_created_by :: string
  gp_max_nodes :: int
  gp_max_total_attempts :: int
  gp_max_duration_seconds :: int
  gp_max_parallelism :: int
  gp_nodes :: "task_graph_node_create list"

type_synonym dep_graph = "(string \<times> string list) list"

lemma ebind_cong [fundef_cong]:
  "m = m' \<Longrightarrow> (\<And>x. m' = Inr x \<Longrightarrow> f x = f' x) \<Longrightarrow> ebind m f = ebind m' f'"
  by (cases m') auto

text \<open>Each call puts one more key of the graph on the path.\<close>

lemma visiting_grows:
  assumes "key \<notin> set visiting" and "map_of g key = Some deps"
  shows "card (fst ` set g - insert key (set visiting)) < card (fst ` set g - set visiting)"
proof -
  have "key \<in> fst ` set g" using map_of_SomeD[OF assms(2)] by (force simp: image_iff)
  then show ?thesis using assms(1) by (intro psubset_card_mono) auto
qed

text \<open>
  The depth-first search \<open>visit\<close>: \<open>visiting\<close> is the set of keys on the current path,
  \<open>visited\<close> the set of finished keys, both as lists; the result is the new \<open>visited\<close>.
\<close>

function visit :: "dep_graph \<Rightarrow> string list \<Rightarrow> string list \<Rightarrow> string \<Rightarrow> string list res"
  and visit_all :: "dep_graph \<Rightarrow> string list \<Rightarrow> string list \<Rightarrow> string list \<Rightarrow> string list res" where
  "visit g visiting visited key =
     (if key \<in> set visiting then Inl (ValueError ''Task graph contains a cycle.'')
      else if key \<in> set visited then Inr visited
      else
        (case map_of g key of
           None \<Rightarrow> Inl (KeyError key)
         | Some deps \<Rightarrow>
             ebind (visit_all g (key # visiting) visited deps) (\<lambda>v. Inr (key # v))))"
| "visit_all g visiting visited [] = Inr visited"
| "visit_all g visiting visited (key # keys) =
     ebind (visit g visiting visited key) (\<lambda>v. visit_all g visiting v keys)"
  by pat_completeness auto

termination
  by (relation "measures [\<lambda>x. case x of Inl (g, vs, _, _) \<Rightarrow> card (fst ` set g - set vs)
                              | Inr (g, vs, _, _) \<Rightarrow> card (fst ` set g - set vs),
                         \<lambda>x. case x of Inl _ \<Rightarrow> 0 | Inr (_, _, _, ks) \<Rightarrow> Suc (length ks)]")
     (auto simp: visiting_grows)

declare visit.simps [simp del]

definition graph_of :: "task_graph_create \<Rightarrow> dep_graph" where
  "graph_of p = map (\<lambda>n. (nc_key n, nc_depends_on n)) (gp_nodes p)"

definition validate_dag :: "task_graph_create \<Rightarrow> unit res" where
  "validate_dag p =
     (let keys = map nc_key (gp_nodes p) in
      if gp_max_nodes p < int (length (gp_nodes p))
      then Inl (ValueError ''Node count exceeds max_nodes.'')
      else if \<not> distinct keys then Inl (ValueError ''Node keys must be unique.'')
      else if list_ex (\<lambda>n. list_ex (\<lambda>dep. dep \<notin> set keys) (nc_depends_on n)) (gp_nodes p)
      then Inl (ValueError ''Every dependency must name a node in this graph.'')
      else
        ebind (visit_all (graph_of p) [] [] keys) (\<lambda>_.
          if gp_max_total_attempts p < sum_list (map (\<lambda>n. gs_max_attempts (nc_task n)) (gp_nodes p))
          then Inl (ValueError ''Declared node attempts exceed graph budget.'')
          else Inr ()))"

section \<open>The search finds exactly the cycles\<close>

definition edges :: "dep_graph \<Rightarrow> (string \<times> string) set" where
  "edges g = {(k, dep). \<exists>deps. map_of g k = Some deps \<and> dep \<in> set deps}"

text \<open>A set of finished keys: closed under dependencies and without a cycle.\<close>

definition finished :: "dep_graph \<Rightarrow> string list \<Rightarrow> bool" where
  "finished g vs = (\<forall>k \<in> set vs. edges g `` {k} \<subseteq> set vs \<and> (k, k) \<notin> (edges g)\<^sup>+)"

lemma finished_closed:
  assumes "finished g vs" and "(k, j) \<in> (edges g)\<^sup>*" and "k \<in> set vs"
  shows "j \<in> set vs"
  using assms(2,3) by (induction rule: rtrancl_induct) (use assms(1) in \<open>auto simp: finished_def\<close>)

lemma finished_Cons:
  assumes "finished g vs" and "edges g `` {k} \<subseteq> set vs" and "k \<notin> set vs"
  shows "finished g (k # vs)"
proof -
  have "(k, k) \<notin> (edges g)\<^sup>+"
  proof
    assume "(k, k) \<in> (edges g)\<^sup>+"
    then obtain j where "(k, j) \<in> edges g" "(j, k) \<in> (edges g)\<^sup>*" by (meson tranclD)
    then show False using assms finished_closed by blast
  qed
  then show ?thesis using assms(1,2) by (auto simp: finished_def)
qed

lemma visit_success:
  "visit g visiting visited key = Inr v \<Longrightarrow> finished g visited \<Longrightarrow> set visited \<inter> set visiting = {} \<Longrightarrow>
     finished g v \<and> set visited \<subseteq> set v \<and> set v \<inter> set visiting = {} \<and> key \<in> set v"
  "visit_all g visiting visited keys = Inr v \<Longrightarrow> finished g visited \<Longrightarrow> set visited \<inter> set visiting = {} \<Longrightarrow>
     finished g v \<and> set visited \<subseteq> set v \<and> set v \<inter> set visiting = {} \<and> set keys \<subseteq> set v"
proof (induction g visiting visited key and g visiting visited keys arbitrary: v and v
    rule: visit_visit_all.induct)
  case (1 g visiting visited key)
  show ?case
  proof (cases "key \<in> set visited")
    case True
    then show ?thesis using 1 by (auto simp: visit.simps split: if_splits)
  next
    case False
    from 1(2) False obtain deps w where
      k: "key \<notin> set visiting" "map_of g key = Some deps"
      and w: "visit_all g (key # visiting) visited deps = Inr w" "v = key # w"
      by (auto simp: visit.simps ebind_Inr_iff split: if_splits option.splits)
    have ih: "finished g w \<and> set visited \<subseteq> set w \<and> set w \<inter> set (key # visiting) = {} \<and> set deps \<subseteq> set w"
      using 1(1)[OF k(1) False k(2) w(1)] 1(3,4) False k(1) by auto
    moreover have "edges g `` {key} \<subseteq> set w" using ih k(2) by (auto simp: edges_def)
    ultimately show ?thesis using w(2) k(1) finished_Cons[of g w key] by auto
  qed
next
  case (2 g visiting visited)
  then show ?case by simp
next
  case (3 g visiting visited key keys)
  then obtain u where u: "visit g visiting visited key = Inr u" "visit_all g visiting u keys = Inr v"
    by (auto simp: ebind_Inr_iff)
  show ?case using 3(1)[OF u(1) 3(4,5)] 3(2)[OF u(1) u(2)] by auto
qed

lemma visit_failure:
  "visit g visiting visited key = Inl e \<Longrightarrow> \<forall>k \<in> set visiting. (k, key) \<in> (edges g)\<^sup>+ \<Longrightarrow>
     key \<in> fst ` set g \<Longrightarrow> edges g `` UNIV \<subseteq> fst ` set g \<Longrightarrow>
     e = ValueError ''Task graph contains a cycle.'' \<and> (\<exists>k. (k, k) \<in> (edges g)\<^sup>+)"
  "visit_all g visiting visited keys = Inl e \<Longrightarrow>
     \<forall>k \<in> set visiting. \<forall>key \<in> set keys. (k, key) \<in> (edges g)\<^sup>+ \<Longrightarrow>
     set keys \<subseteq> fst ` set g \<Longrightarrow> edges g `` UNIV \<subseteq> fst ` set g \<Longrightarrow>
     e = ValueError ''Task graph contains a cycle.'' \<and> (\<exists>k. (k, k) \<in> (edges g)\<^sup>+)"
proof (induction g visiting visited key and g visiting visited keys rule: visit_visit_all.induct)
  case (1 g visiting visited key)
  show ?case
  proof (cases "key \<in> set visiting")
    case True
    then show ?thesis using 1(2,3) by (auto simp: visit.simps)
  next
    case False
    obtain deps where deps: "map_of g key = Some deps"
      using 1(4) by (metis map_of_eq_None_iff option.exhaust)
    have new: "key \<notin> set visited" using 1(2) False by (auto simp: visit.simps)
    have e: "visit_all g (key # visiting) visited deps = Inl e"
      using 1(2) False new deps by (auto simp: visit.simps ebind_Inl_iff)
    have edge: "(key, dep) \<in> edges g" if "dep \<in> set deps" for dep
      using that deps by (auto simp: edges_def)
    then have "\<forall>k \<in> set (key # visiting). \<forall>dep \<in> set deps. (k, dep) \<in> (edges g)\<^sup>+"
      using 1(3) by (auto intro: trancl_into_trancl)
    moreover have "set deps \<subseteq> fst ` set g" using edge 1(5) by blast
    ultimately show ?thesis using 1(1)[OF False new deps e] 1(5) by blast
  qed
next
  case (2 g visiting visited)
  then show ?case by simp
next
  case (3 g visiting visited key keys)
  then show ?case by (auto simp: ebind_Inl_iff)
qed

text \<open>
  (C4) A graph is accepted exactly when it stays within its node and attempt budgets, its
  keys are unique, every dependency is one of its nodes, and the dependencies have no
  cycle.
\<close>

theorem validate_dag_iff:
  "validate_dag p = Inr () \<longleftrightarrow>
     int (length (gp_nodes p)) \<le> gp_max_nodes p \<and> distinct (map nc_key (gp_nodes p))
     \<and> (\<Union>n \<in> set (gp_nodes p). set (nc_depends_on n)) \<subseteq> nc_key ` set (gp_nodes p)
     \<and> acyclic (edges (graph_of p))
     \<and> sum_list (map (\<lambda>n. gs_max_attempts (nc_task n)) (gp_nodes p)) \<le> gp_max_total_attempts p"
proof -
  let ?g = "graph_of p" and ?keys = "map nc_key (gp_nodes p)"
  have dom: "fst ` set ?g = set ?keys" by (simp add: graph_of_def image_image)
  have search: "(\<exists>v. visit_all ?g [] [] ?keys = Inr v) \<longleftrightarrow> acyclic (edges ?g)"
    if known: "(\<Union>n \<in> set (gp_nodes p). set (nc_depends_on n)) \<subseteq> set ?keys"
  proof -
    have sub: "edges ?g `` UNIV \<subseteq> fst ` set ?g"
      using known unfolding dom by (fastforce simp: edges_def graph_of_def dest!: map_of_SomeD)
    show ?thesis
    proof (cases "visit_all ?g [] [] ?keys")
      case (Inl e)
      then have "\<exists>k. (k, k) \<in> (edges ?g)\<^sup>+" using visit_failure(2)[OF Inl] sub dom by simp
      then show ?thesis using Inl by (auto simp: acyclic_def)
    next
      case (Inr v)
      then have f: "finished ?g v" "set ?keys \<subseteq> set v"
        using visit_success(2)[OF Inr] by (auto simp: finished_def)
      have "(k, k) \<notin> (edges ?g)\<^sup>+" for k
      proof
        assume c: "(k, k) \<in> (edges ?g)\<^sup>+"
        then have "k \<in> fst ` set ?g" using sub by (metis ImageI UNIV_I subsetD tranclD2)
        then show False using f c dom by (auto simp: finished_def)
      qed
      then show ?thesis using Inr by (auto simp: acyclic_def)
    qed
  qed
  show ?thesis
    using search
    by (auto simp: validate_dag_def Let_def ebind_Inr_iff list_ex_iff not_less)
qed

section \<open>Events\<close>

definition graph_event_doc :: "task_graph_event \<Rightarrow> json" where
  "graph_event_doc e = JObj
     [(''graph_id'', juuid (ge_graph_id e)), (''sequence'', JInt (int (ge_sequence e))),
      (''event_type'', JStr (ge_event_type e)), (''actor'', JStr (ge_actor e)),
      (''payload'', JObj (ge_payload e)),
      (''previous_digest'', option_json JStr (ge_previous_digest e))]"

text \<open>\<open>append_event\<close>.\<close>

definition append_graph_event ::
  "time \<times> uuid \<times> string \<times> string \<times> dict \<Rightarrow> db \<Rightarrow> db" where
  "append_graph_event x d =
     (case x of (now, graph_id, event_type, actor, payload) \<Rightarrow>
       (let log = filter (\<lambda>e. ge_graph_id e = graph_id) (graph_events d);
            e = \<lparr>ge_id = next_serial d, ge_graph_id = graph_id,
                 ge_sequence = next_sequence ge_sequence log, ge_event_type = event_type,
                 ge_actor = actor, ge_payload = payload,
                 ge_previous_digest = previous_digest ge_sequence ge_event_digest log,
                 ge_event_digest = '''', ge_created_at = now\<rparr>
        in d\<lparr>graph_events := graph_events d
               @ [e\<lparr>ge_event_digest := digest_json (graph_event_doc e)\<rparr>],
             next_serial := Suc (next_serial d)\<rparr>))"

text \<open>\<open>discard_working_memory\<close> of \<open>services/agent_context.py\<close>, with its count.\<close>

definition discard_working_memory :: "time \<Rightarrow> uuid \<Rightarrow> db \<Rightarrow> nat \<times> db" where
  "discard_working_memory now task_id d =
     (let live = (\<lambda>r. wm_task_id r = task_id \<and> wm_status r = ''active'')
      in (length (filter live (working_memory d)),
          d\<lparr>working_memory :=
              upd_rows live (\<lambda>r. r\<lparr>wm_status := ''discarded'', wm_discarded_at := Some now\<rparr>)
                (working_memory d)\<rparr>))"

section \<open>Creation and activation\<close>

definition task_spec_json :: "graph_task_spec \<Rightarrow> json" where
  "task_spec_json s = JObj
     [(''task_type'', JStr (gs_task_type s)), (''title'', JStr (gs_title s)),
      (''objective'', JStr (gs_objective s)), (''input_contract'', JObj (gs_input_contract s)),
      (''expected_outputs'', jstrs (gs_expected_outputs s)),
      (''acceptance_criteria'', jstrs (gs_acceptance_criteria s)),
      (''required_capabilities'', jstrs (gs_required_capabilities s)),
      (''allowed_machines'', jstrs (gs_allowed_machines s)),
      (''max_attempts'', JInt (gs_max_attempts s)), (''risk_level'', JInt (gs_risk_level s))]"

definition node_create_json :: "task_graph_node_create \<Rightarrow> json" where
  "node_create_json n = JObj
     [(''key'', JStr (nc_key n)), (''role'', JStr (nc_role n)), (''node_type'', JStr (nc_node_type n)),
      (''depends_on'', jstrs (nc_depends_on n)), (''input_type'', JStr (nc_input_type n)),
      (''output_type'', JStr (nc_output_type n)), (''task'', task_spec_json (nc_task n)),
      (''stop_conditions'', jstrs (nc_stop_conditions n)),
      (''compensation'', option_json task_spec_json (nc_compensation n))]"

definition graph_create_json :: "task_graph_create \<Rightarrow> json" where
  "graph_create_json p = JObj
     [(''graph_key'', JStr (gp_graph_key p)), (''project'', JStr (gp_project p)),
      (''objective'', JStr (gp_objective p)), (''created_by'', JStr (gp_created_by p)),
      (''max_nodes'', JInt (gp_max_nodes p)),
      (''max_total_attempts'', JInt (gp_max_total_attempts p)),
      (''max_duration_seconds'', JInt (gp_max_duration_seconds p)),
      (''max_parallelism'', JInt (gp_max_parallelism p)),
      (''nodes'', JList (map node_create_json (gp_nodes p)))]"

definition new_node :: "time \<Rightarrow> uuid \<Rightarrow> uuid \<Rightarrow> nat \<Rightarrow> task_graph_node_create \<Rightarrow> task_graph_node" where
  "new_node now graph_id i ordinal n =
     \<lparr>n_id = i, n_graph_id = graph_id, n_node_key = nc_key n, n_role = nc_role n,
      n_task_id = None, n_node_type = nc_node_type n, n_status = NodeBlocked,
      n_depends_on = nc_depends_on n, n_input_type = nc_input_type n,
      n_output_type = nc_output_type n, n_task_spec = nc_task n,
      n_stop_conditions = nc_stop_conditions n, n_compensation = nc_compensation n,
      n_ordinal = ordinal, n_created_at = now\<rparr>"

definition new_graph :: "time \<Rightarrow> uuid \<Rightarrow> task_graph_create \<Rightarrow> task_graph" where
  "new_graph now i p =
     \<lparr>g_id = i, g_graph_key = gp_graph_key p, g_project = gp_project p,
      g_objective = gp_objective p, g_status = GraphDraft,
      g_schema_version = ''typed-task-graph-v1.0.0'', g_manifest = graph_create_json p,
      g_manifest_digest = digest_json (graph_create_json p), g_max_nodes = gp_max_nodes p,
      g_max_total_attempts = gp_max_total_attempts p,
      g_max_duration_seconds = gp_max_duration_seconds p,
      g_max_parallelism = gp_max_parallelism p, g_created_by = gp_created_by p,
      g_terminal_reason = [], g_created_at = now, g_activated_at = None, g_deadline_at = None,
      g_completed_at = None\<rparr>"

definition create_graph :: "time \<Rightarrow> task_graph_create \<Rightarrow> db \<Rightarrow> (task_graph \<times> db) res" where
  "create_graph now p d =
     (let g = new_graph now (next_uuid d) p;
          k = length (gp_nodes p);
          new = map (\<lambda>(ordinal, n). new_node now (g_id g) (Suc (next_uuid d) + ordinal) ordinal n)
                  (zip [0..<k] (gp_nodes p))
      in if list_ex (\<lambda>x. g_graph_key x = g_graph_key g \<or> g_manifest_digest x = g_manifest_digest g)
              (graphs d) \<or> \<not> distinct (map nc_key (gp_nodes p))
         then Inl IntegrityError
         else Inr (g, append_graph_event
                (now, g_id g, ''graph_created'', gp_created_by p,
                 [(''manifest_digest'', JStr (g_manifest_digest g)), (''node_count'', JInt (int k))])
                (d\<lparr>graphs := graphs d @ [g], nodes := nodes d @ new,
                   next_uuid := Suc (next_uuid d) + k\<rparr>)))"

text \<open>\<open>_task_payload\<close>; the fields a specification does not have take their defaults.\<close>

definition task_payload ::
  "task_graph \<Rightarrow> task_graph_node \<Rightarrow> graph_task_spec \<Rightarrow> string \<Rightarrow> task_create" where
  "task_payload g n s sfx =
     \<lparr>tc_task_number = g_graph_key g @ ''-'' @ n_node_key n @ sfx, tc_project = g_project g,
      tc_task_type = gs_task_type s, tc_title = gs_title s, tc_objective = gs_objective s,
      tc_priority = 50, tc_risk_level = gs_risk_level s, tc_parent_task_id = None,
      tc_created_by = g_created_by g,
      tc_input_contract = dict_set (gs_input_contract s) ''task_graph'' (JObj
        [(''graph_id'', juuid (g_id g)), (''node_key'', JStr (n_node_key n)),
         (''manifest_digest'', JStr (g_manifest_digest g))]),
      tc_expected_outputs = map JStr (gs_expected_outputs s),
      tc_acceptance_criteria = map JStr (gs_acceptance_criteria s), tc_approval_policy = [],
      tc_approval_required = False, tc_required_capabilities = gs_required_capabilities s,
      tc_allowed_machines = gs_allowed_machines s, tc_max_attempts = gs_max_attempts s\<rparr>"

text \<open>\<open>TaskCreate(...)\<close> validates its fields, so building the task may raise.\<close>

definition checked_build_task :: "task_create \<Rightarrow> task res" where
  "checked_build_task p =
     (if valid_task_create p then Inr (build_task p) else Inl (ValueError ''TaskCreate''))"

definition graph_nodes :: "uuid \<Rightarrow> db \<Rightarrow> task_graph_node list" where
  "graph_nodes gid d = filter (\<lambda>n. n_graph_id n = gid) (nodes d)"

definition ordered_nodes :: "uuid \<Rightarrow> db \<Rightarrow> task_graph_node list" where
  "ordered_nodes gid d = sort_key n_ordinal (graph_nodes gid d)"

text \<open>One node of \<open>activate_graph\<close>: its task, with the dict of tasks by node key.\<close>

definition materialize_node ::
  "time \<Rightarrow> task_graph \<Rightarrow> task_graph_node \<Rightarrow> (string \<times> uuid) list \<times> db
     \<Rightarrow> ((string \<times> uuid) list \<times> db) res" where
  "materialize_node now g n acc =
     (case acc of (made, d) \<Rightarrow>
        ebind (checked_build_task (task_payload g n (n_task_spec n) '''')) (\<lambda>t.
        ebind (persist_new_task now (t\<lparr>t_task_graph_node_id := Some (n_id n)\<rparr>) d) (\<lambda>(t', d1).
          Inr (made @ [(n_node_key n, t_id t')],
               upd_node (n_id n)
                 (\<lambda>n. n\<lparr>n_task_id := Some (t_id t'), n_status := NodeTask (t_status t')\<rparr>) d1))))"

definition add_dependency :: "time \<Rightarrow> uuid \<Rightarrow> uuid \<Rightarrow> db \<Rightarrow> db" where
  "add_dependency now task_id depends_on d =
     d\<lparr>dependencies := dependencies d @
         [\<lparr>td_id = next_serial d, td_task_id = task_id, td_depends_on_task_id = depends_on,
           td_created_at = now\<rparr>],
       next_serial := Suc (next_serial d)\<rparr>"

text \<open>The table of dependencies has a unique key: a pair of tasks is linked at most once.\<close>

definition insert_dependency :: "time \<Rightarrow> uuid \<Rightarrow> uuid \<Rightarrow> db \<Rightarrow> db res" where
  "insert_dependency now i j d =
     (if list_ex (\<lambda>x. td_task_id x = i \<and> td_depends_on_task_id x = j) (dependencies d)
      then Inl IntegrityError else Inr (add_dependency now i j d))"

definition node_dependencies ::
  "time \<Rightarrow> (string \<times> uuid) list \<Rightarrow> task_graph_node \<Rightarrow> db \<Rightarrow> db res" where
  "node_dependencies now made n d =
     efold (\<lambda>dep d. case (map_of made (n_node_key n), map_of made dep) of
          (Some i, Some j) \<Rightarrow> insert_dependency now i j d
        | _ \<Rightarrow> Inl (KeyError dep)) (n_depends_on n) d"

definition activate_graph :: "time \<Rightarrow> task_graph \<Rightarrow> string \<Rightarrow> db \<Rightarrow> db res" where
  "activate_graph now g actor d =
     (if g_status g \<noteq> GraphDraft then http 409 ''Only a draft task graph can be activated.''
      else
        (let ns = ordered_nodes (g_id g) d;
             deadline = now + seconds (g_max_duration_seconds g)
         in ebind (efold (materialize_node now g) ns ([], d)) (\<lambda>(made, d1).
            ebind (efold (node_dependencies now made) ns d1) (\<lambda>d2.
              Inr (append_graph_event (now, g_id g, ''graph_activated'', actor,
                     [(''deadline_at'', jtime deadline),
                      (''task_ids'', JObj (map (\<lambda>(k, i). (k, juuid i)) made))])
                   (upd_graph (g_id g)
                      (\<lambda>g. g\<lparr>g_status := GraphActive, g_activated_at := Some now,
                             g_deadline_at := Some deadline\<rparr>) d2))))))"

section \<open>Messages\<close>

definition active_graph :: "graph_status \<Rightarrow> bool" where
  "active_graph s = (s = GraphActive \<or> s = GraphCancelling \<or> s = GraphCompensating)"

record task_graph_message_create =
  mc_node_key :: "string option"
  mc_message_type :: string
  mc_sender :: string
  mc_recipient :: string
  mc_payload :: dict

text \<open>The node a message names, checked against the types the node declares.\<close>

definition message_node ::
  "task_graph \<Rightarrow> task_graph_message_create \<Rightarrow> db \<Rightarrow> uuid option res" where
  "message_node g p d =
     (case mc_node_key p of
        None \<Rightarrow> Inr None
      | Some key \<Rightarrow>
          if key = '''' then Inr None
          else
            (case List.find (\<lambda>n. n_graph_id n = g_id g \<and> n_node_key n = key) (nodes d) of
               None \<Rightarrow> http 404 ''Task graph node not found.''
             | Some n \<Rightarrow>
                 if mc_message_type p \<notin> {n_input_type n, n_output_type n, ''control.cancel'',
                      ''evidence.receipt'', ''failure.report''}
                 then http 422 ''Message type is not declared by the target node.''
                 else Inr (Some (n_id n))))"

definition append_message ::
  "time \<Rightarrow> task_graph \<Rightarrow> task_graph_message_create \<Rightarrow> db \<Rightarrow> db res" where
  "append_message now g p d =
     (if \<not> active_graph (g_status g)
      then http 409 ''Messages are accepted only while a graph is active.''
      else
        ebind (message_node g p d)
          (\<lambda>node_id.
             (let sequence = next_sequence gm_sequence
                    (filter (\<lambda>m. gm_graph_id m = g_id g) (graph_messages d));
                  dig = digest_json (JObj (mc_payload p));
                  m = \<lparr>gm_id = next_uuid d, gm_graph_id = g_id g, gm_node_id = node_id,
                       gm_sequence = sequence, gm_message_type = mc_message_type p,
                       gm_sender = mc_sender p, gm_recipient = mc_recipient p,
                       gm_payload = mc_payload p, gm_payload_digest = dig,
                       gm_created_at = now\<rparr>
              in Inr (append_graph_event
                   (now, g_id g, ''typed_message_recorded'', mc_sender p,
                    [(''sequence'', JInt (int sequence)), (''message_type'', JStr (mc_message_type p)),
                     (''payload_digest'', JStr dig)])
                   (d\<lparr>graph_messages := graph_messages d @ [m],
                      next_uuid := Suc (next_uuid d)\<rparr>)))))"

section \<open>Cancellation, compensation and reconciliation\<close>

definition terminal_task :: "task_status \<Rightarrow> bool" where
  "terminal_task s = (s = Succeeded \<or> s = Failed \<or> s = Cancelled)"

definition request_cancel :: "time \<Rightarrow> string \<Rightarrow> task \<Rightarrow> task" where
  "request_cancel now reason t = t\<lparr>t_cancel_requested_at := Some now, t_cancel_reason := Some reason\<rparr>"

definition cancelled_row :: "time \<Rightarrow> string \<Rightarrow> task \<Rightarrow> task" where
  "cancelled_row now reason t =
     clear_lease (t\<lparr>t_status := Cancelled, t_cancel_requested_at := Some now,
       t_cancel_reason := Some reason, t_completed_at := Some now\<rparr>)"

text \<open>\<open>_cancel_task\<close>, with whether the task was affected.\<close>

definition cancel_task :: "time \<Rightarrow> task \<Rightarrow> string \<Rightarrow> db \<Rightarrow> bool \<times> db" where
  "cancel_task now t reason d =
     (if terminal_task (t_status t) then (False, d)
      else if active_lease_status (t_status t)
      then (True, append_task_event now t ''task_cancellation_requested'' reason None
                    [(''cooperative'', JBool True)]
                    (upd_task (t_id t) (request_cancel now reason) d))
      else (True, append_task_event now t ''task_cancelled'' reason None
                    [(''cooperative'', JBool False)]
                    (snd (discard_working_memory now (t_id t)
                       (upd_task (t_id t) (cancelled_row now reason) d)))))"

text \<open>The task of a node, as \<open>db.get(Task, node.task_id)\<close> finds it now.\<close>

definition node_task :: "db \<Rightarrow> task_graph_node \<Rightarrow> task option" where
  "node_task d n = (case n_task_id n of None \<Rightarrow> None | Some i \<Rightarrow> get_task i d)"

definition cancel_node :: "time \<Rightarrow> string \<Rightarrow> task_graph_node \<Rightarrow> nat \<times> db \<Rightarrow> nat \<times> db" where
  "cancel_node now reason n acc =
     (case acc of (changed, d) \<Rightarrow>
        (case node_task d n of
           None \<Rightarrow> (changed, d)
         | Some t \<Rightarrow> (case cancel_task now t reason d of
             (affected, d') \<Rightarrow> (if affected then Suc changed else changed, d'))))"

definition cancel_graph ::
  "time \<Rightarrow> task_graph \<Rightarrow> string \<Rightarrow> string \<Rightarrow> db \<Rightarrow> (nat \<times> db) res" where
  "cancel_graph now g actor reason d =
     (if \<not> active_graph (g_status g)
      then http 409 ''Only an active task graph can be cancelled.''
      else
        (let d1 = upd_graph (g_id g) (\<lambda>g. g\<lparr>g_status := GraphCancelling\<rparr>) d;
             (changed, d2) = fold (cancel_node now reason) (graph_nodes (g_id g) d1) (0, d1);
             d3 = upd_graph (g_id g)
                    (\<lambda>g. g\<lparr>g_terminal_reason := [(''category'', JStr ''operator_cancelled''),
                                                (''reason'', JStr reason)]\<rparr>) d2
         in Inr (changed, append_graph_event
              (now, g_id g, ''graph_cancellation_requested'', actor,
               [(''reason'', JStr reason), (''tasks_affected'', JInt (int changed))]) d3)))"

text \<open>One node of \<open>_create_compensations\<close>.\<close>

definition compensate_node ::
  "time \<Rightarrow> task_graph \<Rightarrow> task_graph_node \<Rightarrow> nat \<times> db \<Rightarrow> (nat \<times> db) res" where
  "compensate_node now g n acc =
     (case acc of (created, d) \<Rightarrow>
       (case (node_task d n, n_compensation n) of
          (Some original, Some spec) \<Rightarrow>
            if t_status original \<noteq> Succeeded then Inr acc
            else if g_graph_key g @ ''-'' @ n_node_key n @ ''-compensate''
                      \<in> t_task_number ` set (tasks d)
            then Inr acc
            else
              ebind (checked_build_task (task_payload g n spec ''-compensate'')) (\<lambda>t.
              ebind (persist_new_task now (t\<lparr>t_parent_task_id := Some (t_id original)\<rparr>) d)
                (\<lambda>(t', d1).
                  Inr (Suc created, append_graph_event
                    (now, g_id g, ''compensation_materialized'', ''task-graph-controller'',
                     [(''node_key'', JStr (n_node_key n)), (''task_id'', juuid (t_id t')),
                      (''original_task_id'', juuid (t_id original))]) d1)))
        | _ \<Rightarrow> Inr acc))"

definition create_compensations ::
  "time \<Rightarrow> task_graph \<Rightarrow> task_graph_node list \<Rightarrow> db \<Rightarrow> (nat \<times> db) res" where
  "create_compensations now g ns d =
     efold (compensate_node now g) (sort_key (\<lambda>n. - int (n_ordinal n)) ns) (0, d)"

text \<open>SQL \<open>LIKE\<close>: \<open>%\<close> stands for any text, \<open>_\<close> for any one character.\<close>

fun sql_like :: "string \<Rightarrow> string \<Rightarrow> bool" where
  "sql_like [] s = (s = [])"
| "sql_like (p # ps) [] = (p = CHR ''%'' \<and> sql_like ps [])"
| "sql_like (p # ps) (c # cs) =
     (if p = CHR ''%'' then sql_like ps (c # cs) \<or> sql_like (p # ps) cs
      else (p = CHR ''_'' \<or> p = c) \<and> sql_like ps cs)"

definition graph_compensations :: "task_graph \<Rightarrow> db \<Rightarrow> task list" where
  "graph_compensations g d =
     filter (\<lambda>t. sql_like (g_graph_key g @ ''-%-compensate'') (t_task_number t)) (tasks d)"

definition sync_node :: "task_graph_node \<Rightarrow> nat \<times> db \<Rightarrow> nat \<times> db" where
  "sync_node n acc =
     (case acc of (transitioned, d) \<Rightarrow>
       (case node_task d n of
          None \<Rightarrow> acc
        | Some t \<Rightarrow>
            if n_status n = NodeTask (t_status t) then acc
            else (Suc transitioned,
                  upd_node (n_id n) (\<lambda>n. n\<lparr>n_status := NodeTask (t_status t)\<rparr>) d)))"

definition task_ids_json :: "task list \<Rightarrow> json" where
  "task_ids_json ts = JList (map (\<lambda>t. juuid (t_id t)) ts)"

text \<open>\<open>_cancel_task\<close> for every task of the graph; the rows are looked up as they are now.\<close>

definition cancel_all :: "time \<Rightarrow> string \<Rightarrow> task list \<Rightarrow> db \<Rightarrow> db" where
  "cancel_all now reason ts d =
     fold (\<lambda>t d. case get_task (t_id t) d of None \<Rightarrow> d
            | Some t' \<Rightarrow> snd (cancel_task now t' reason d)) ts d"

definition budget_reason :: "time \<Rightarrow> task_graph \<Rightarrow> int \<Rightarrow> string option" where
  "budget_reason now g attempts =
     (if (case g_deadline_at g of None \<Rightarrow> False | Some e \<Rightarrow> e \<le> now)
      then Some ''graph_deadline_exceeded''
      else if g_max_total_attempts g < attempts then Some ''graph_attempt_budget_exceeded''
      else None)"

text \<open>The branch of a graph that is compensating.\<close>

definition reconcile_compensating :: "time \<Rightarrow> task_graph \<Rightarrow> db \<Rightarrow> db" where
  "reconcile_compensating now g d =
     (let cs = graph_compensations g d in
      if cs \<noteq> [] \<and> list_all (\<lambda>t. terminal_task (t_status t)) cs
      then
        (let s = (if list_all (\<lambda>t. t_status t = Succeeded) cs
                  then GraphCompensated else GraphCompensationFailed)
         in append_graph_event
              (now, g_id g, ''graph_compensation_completed'', ''task-graph-controller'',
               [(''status'', JStr (graph_status_str s)), (''task_ids'', task_ids_json cs)])
              (upd_graph (g_id g) (\<lambda>g. g\<lparr>g_status := s, g_completed_at := Some now\<rparr>) d))
      else d)"

text \<open>The branch that fails closed: every task is cancelled, succeeded ones are compensated.\<close>

definition fail_closed ::
  "time \<Rightarrow> task_graph \<Rightarrow> task_graph_node list \<Rightarrow> task list \<Rightarrow> string \<Rightarrow> db \<Rightarrow> (nat \<times> db) res" where
  "fail_closed now g ns ts reason d =
     (let terminal = [(''category'', JStr reason),
                      (''failed_task_ids'', task_ids_json (filter (\<lambda>t. t_status t = Failed) ts))];
          d1 = cancel_all now reason ts d;
          d2 = upd_graph (g_id g) (\<lambda>g. g\<lparr>g_status := GraphCompensating, g_terminal_reason := terminal\<rparr>) d1
      in ebind (create_compensations now g ns d2) (\<lambda>(created, d3).
           (let d4 = (if created = 0
                      then upd_graph (g_id g)
                             (\<lambda>g. g\<lparr>g_status := GraphFailed, g_completed_at := Some now\<rparr>) d3
                      else d3)
            in Inr (created, append_graph_event
                 (now, g_id g, ''graph_failed_closed'', ''task-graph-controller'',
                  terminal @ [(''compensation_tasks_created'', JInt (int created))]) d4))))"

text \<open>The branches of a graph that has neither failed nor run out of budget.\<close>

definition reconcile_open ::
  "time \<Rightarrow> task_graph \<Rightarrow> task_graph_node list \<Rightarrow> task list \<Rightarrow> int \<Rightarrow> db \<Rightarrow> (nat \<times> db) res" where
  "reconcile_open now g ns ts attempts d =
     (if ts \<noteq> [] \<and> list_all (\<lambda>t. t_status t = Succeeded) ts
      then Inr (0, append_graph_event
             (now, g_id g, ''graph_succeeded'', ''task-graph-controller'', [(''attempts'', JInt attempts)])
             (upd_graph (g_id g) (\<lambda>g. g\<lparr>g_status := GraphSucceeded, g_completed_at := Some now\<rparr>) d))
      else if g_status g = GraphCancelling \<and> list_all (\<lambda>t. terminal_task (t_status t)) ts
      then ebind (create_compensations now g ns d) (\<lambda>(created, d1).
             Inr (created, upd_graph (g_id g)
               (\<lambda>g. if created = 0 then g\<lparr>g_status := GraphCancelled, g_completed_at := Some now\<rparr>
                    else g\<lparr>g_status := GraphCompensating, g_completed_at := None\<rparr>) d1))
      else if ts \<noteq> [] \<and> list_all (\<lambda>t. t_status t \<notin> {Queued, PendingApproval, Leased, Running}) ts
      then (let terminal = [(''category'', JStr ''deadlock''),
                            (''reason'', JStr ''No runnable or terminal path remains.'')]
            in Inr (0, append_graph_event
                 (now, g_id g, ''graph_deadlocked'', ''task-graph-controller'', terminal)
                 (upd_graph (g_id g)
                    (\<lambda>g. g\<lparr>g_status := GraphFailed, g_completed_at := Some now,
                           g_terminal_reason := terminal\<rparr>) d)))
      else Inr (0, d))"

definition graph_tasks :: "uuid \<Rightarrow> db \<Rightarrow> task list" where
  "graph_tasks gid d =
     concat (map (\<lambda>n. case node_task d n of None \<Rightarrow> [] | Some t \<Rightarrow> [t]) (ordered_nodes gid d))"

definition reconcile_graph :: "time \<Rightarrow> task_graph \<Rightarrow> db \<Rightarrow> (nat \<times> nat \<times> db) res" where
  "reconcile_graph now g d =
     (if \<not> active_graph (g_status g) then Inr (0, 0, d)
      else
        (let ns = ordered_nodes (g_id g) d;
             ts = graph_tasks (g_id g) d;
             attempts = sum_list (map t_attempt_count ts);
             (transitioned, d1) = fold sync_node ns (0, d)
         in if g_status g = GraphCompensating
            then Inr (transitioned, 0, reconcile_compensating now g d1)
            else
              ebind
                (case (budget_reason now g attempts, list_ex (\<lambda>t. t_status t = Failed) ts) of
                   (Some reason, _) \<Rightarrow> fail_closed now g ns ts reason d1
                 | (None, True) \<Rightarrow> fail_closed now g ns ts ''dependency_failed'' d1
                 | (None, False) \<Rightarrow> reconcile_open now g ns ts attempts d1)
                (\<lambda>(created, d2). Inr (transitioned, created, d2))))"

section \<open>The graph operations keep the invariants\<close>

lemma append_graph_event_frame [simp]:
  "tasks (append_graph_event x d) = tasks d" "approvals (append_graph_event x d) = approvals d"
  "next_uuid (append_graph_event x d) = next_uuid d" "graphs (append_graph_event x d) = graphs d"
  "nodes (append_graph_event x d) = nodes d" "missions (append_graph_event x d) = missions d"
  "dependencies (append_graph_event x d) = dependencies d"
  by (simp_all add: append_graph_event_def Let_def split: prod.split)

lemma upd_graph_frame [simp]:
  "tasks (upd_graph i f d) = tasks d" "approvals (upd_graph i f d) = approvals d"
  "next_uuid (upd_graph i f d) = next_uuid d" "nodes (upd_graph i f d) = nodes d"
  "graphs (upd_graph i f d) = upd_row g_id i f (graphs d)"
  "graph_events (upd_graph i f d) = graph_events d"
  by (simp_all add: upd_graph_def)

lemma upd_node_frame [simp]:
  "tasks (upd_node i f d) = tasks d" "approvals (upd_node i f d) = approvals d"
  "next_uuid (upd_node i f d) = next_uuid d" "graphs (upd_node i f d) = graphs d"
  "graph_events (upd_node i f d) = graph_events d"
  by (simp_all add: upd_node_def)

lemma add_dependency_frame [simp]:
  "tasks (add_dependency now i j d) = tasks d" "approvals (add_dependency now i j d) = approvals d"
  "next_uuid (add_dependency now i j d) = next_uuid d" "graphs (add_dependency now i j d) = graphs d"
  "graph_events (add_dependency now i j d) = graph_events d"
  by (simp_all add: add_dependency_def)

lemma insert_dependency_Inr:
  "insert_dependency now i j d = Inr d' \<Longrightarrow> d' = add_dependency now i j d"
  by (simp add: insert_dependency_def split: if_split_asm)

lemma discard_frame [simp]:
  "tasks (snd (discard_working_memory now i d)) = tasks d"
  "approvals (snd (discard_working_memory now i d)) = approvals d"
  "next_uuid (snd (discard_working_memory now i d)) = next_uuid d"
  "graphs (snd (discard_working_memory now i d)) = graphs d"
  "nodes (snd (discard_working_memory now i d)) = nodes d"
  "graph_events (snd (discard_working_memory now i d)) = graph_events d"
  by (simp_all add: discard_working_memory_def Let_def)

lemma safe_core:
  assumes "tasks d' = tasks d" and "approvals d' = approvals d" and "next_uuid d' = next_uuid d"
  shows "safe d' = safe d"
  using safe_cong[of d' d] safe_cong[of d d'] assms by auto

lemma safe_graph_frames [simp]:
  "safe (append_graph_event x d) = safe d" "safe (upd_graph i f d) = safe d"
  "safe (upd_node j h d) = safe d" "safe (add_dependency now k l d) = safe d"
  "safe (snd (discard_working_memory now m d)) = safe d"
  by (rule safe_core; simp)+

lemma harmless_cancel:
  "harmless (request_cancel now reason)" "harmless (cancelled_row now reason)"
  by (simp_all add: harmless_def request_cancel_def cancelled_row_def clear_lease_def active_def
      active_lease_status_def attempts_ok_def lease_held_def)

lemma safe_cancel_task: "safe d \<Longrightarrow> safe (snd (cancel_task now t reason d))"
  by (auto simp: cancel_task_def intro!: safe_upd_task harmless_cancel)

lemma safe_cancel_node: "safe (snd acc) \<Longrightarrow> safe (snd (cancel_node now reason n acc))"
  using safe_cancel_task[of "snd acc" now _ reason]
  by (auto simp: cancel_node_def case_prod_unfold split: option.split)

lemma fold_invariant:
  assumes "\<And>x s. I s \<Longrightarrow> I (f x s)" and "I s"
  shows "I (fold f xs s)"
  using assms(2) by (induction xs arbitrary: s) (simp_all add: assms(1))

lemma safe_cancel_graph:
  assumes "safe d" and "cancel_graph now g actor reason d = Inr (k, d')"
  shows "safe d'"
proof -
  let ?d = "upd_graph (g_id g) (\<lambda>g. g\<lparr>g_status := GraphCancelling\<rparr>) d"
  have "safe (snd (fold (cancel_node now reason) ns (0, ?d)))" for ns
    by (rule fold_invariant[where I = "\<lambda>x. safe (snd x)"]) (use assms(1) safe_cancel_node in auto)
  then show ?thesis
    using assms(2) by (auto simp: cancel_graph_def Let_def case_prod_unfold split: if_splits)
qed

lemma safe_cancel_all:
  assumes "safe d"
  shows "safe (cancel_all now reason ts d)"
  unfolding cancel_all_def
  by (rule fold_invariant[where I = safe]) (use assms safe_cancel_task in \<open>auto split: option.split\<close>)

lemma safe_create_graph:
  assumes "safe d" and "create_graph now p d = Inr (g, d')"
  shows "safe d'"
proof (rule safe_tables[OF assms(1)])
  show "tasks d' = tasks d" "approvals d' = approvals d" "next_uuid d \<le> next_uuid d'"
    using assms(2) by (auto simp: create_graph_def Let_def split: if_splits)
qed

lemma checked_build_task_fresh:
  assumes "checked_build_task p = Inr t"
  shows "fresh_task t \<and> t = build_task p \<and> valid_task_create p"
  using assms fresh_build_task[of p]
  by (auto simp: checked_build_task_def valid_task_create_def split: if_splits)

lemma fresh_task_link [simp]:
  "fresh_task (t\<lparr>t_task_graph_node_id := i\<rparr>) = fresh_task t"
  "fresh_task (t\<lparr>t_parent_task_id := j\<rparr>) = fresh_task t"
  "fresh_task (t\<lparr>t_mission_id := m, t_milestone_step_id := s\<rparr>) = fresh_task t"
  by (simp_all add: fresh_task_def active_def attempts_ok_def)

lemma safe_materialize_node:
  assumes "safe (snd acc)" and "materialize_node now g n acc = Inr acc'"
  shows "safe (snd acc')"
proof -
  obtain t t' d1 where
    t: "checked_build_task (task_payload g n (n_task_spec n) []) = Inr t"
    and p: "persist_new_task now (t\<lparr>t_task_graph_node_id := Some (n_id n)\<rparr>) (snd acc) = Inr (t', d1)"
    and d': "snd acc' = upd_node (n_id n)
        (\<lambda>n. n\<lparr>n_task_id := Some (t_id t'), n_status := NodeTask (t_status t')\<rparr>) d1"
    using assms(2) by (auto simp: materialize_node_def ebind_Inr_iff case_prod_unfold)
  have "safe d1" using safe_persist[OF assms(1) _ p] checked_build_task_fresh[OF t] by auto
  then show ?thesis by (simp add: d')
qed

lemma safe_node_dependencies:
  assumes "safe d" and "node_dependencies now made n d = Inr d'"
  shows "safe d'"
  by (rule efold_invariant[where I = safe, OF _ assms(1) assms(2)[unfolded node_dependencies_def]])
     (auto dest!: insert_dependency_Inr split: option.splits)

lemma safe_activate_graph:
  assumes "safe d" and "activate_graph now g actor d = Inr d'"
  shows "safe d'"
proof -
  obtain made d1 d2 where
    m: "efold (materialize_node now g) (ordered_nodes (g_id g) d) ([], d) = Inr (made, d1)"
    and n: "efold (node_dependencies now made) (ordered_nodes (g_id g) d) d1 = Inr d2"
    and d': "safe d' = safe d2"
    using assms(2)
    by (auto simp: activate_graph_def Let_def ebind_Inr_iff case_prod_unfold split: if_splits)
  have "safe (snd (made, d1))"
    by (rule efold_invariant[where I = "\<lambda>x. safe (snd x)", OF _ _ m])
       (use assms(1) safe_materialize_node in auto)
  then have "safe d2"
    by (intro efold_invariant[where I = safe, OF _ _ n]) (auto intro: safe_node_dependencies)
  then show ?thesis by (simp add: d')
qed

lemma safe_append_message:
  assumes "safe d" and "append_message now g p d = Inr d'"
  shows "safe d'"
proof (rule safe_tables[OF assms(1)])
  show "tasks d' = tasks d" "approvals d' = approvals d" "next_uuid d \<le> next_uuid d'"
    using assms(2) by (auto simp: append_message_def Let_def ebind_Inr_iff split: if_splits)
qed

lemma compensate_node_shape:
  assumes "compensate_node now g n (k, d) = Inr (k', d')"
  shows "(k', d') = (k, d) \<or> (\<exists>original spec t t' d1 x. n_compensation n = Some spec
    \<and> node_task d n = Some original \<and> t_status original = Succeeded
    \<and> checked_build_task (task_payload g n spec ''-compensate'') = Inr t
    \<and> persist_new_task now (t\<lparr>t_parent_task_id := Some (t_id original)\<rparr>) d = Inr (t', d1)
    \<and> k' = Suc k \<and> d' = append_graph_event x d1)"
  using assms
  by (force simp: compensate_node_def ebind_Inr_iff case_prod_unfold split: option.splits if_splits)

lemma safe_compensate_node:
  assumes "safe (snd acc)" and "compensate_node now g n acc = Inr acc'"
  shows "safe (snd acc')"
proof -
  obtain k d k' d' where a: "acc = (k, d)" "acc' = (k', d')" by fastforce
  from compensate_node_shape[OF assms(2)[unfolded a]] show ?thesis
  proof (elim disjE exE conjE)
    fix original spec t t' d1 x
    assume t: "checked_build_task (task_payload g n spec ''-compensate'') = Inr t"
      and p: "persist_new_task now (t\<lparr>t_parent_task_id := Some (t_id original)\<rparr>) d = Inr (t', d1)"
      and d': "d' = append_graph_event x d1"
    have "safe d1" using safe_persist[OF _ _ p] checked_build_task_fresh[OF t] assms(1) a by auto
    then show ?thesis by (simp add: a d')
  qed (use assms(1) a in simp)
qed

lemma safe_create_compensations:
  assumes "safe d" and "create_compensations now g ns d = Inr (k, d')"
  shows "safe d'"
proof -
  have "safe (snd (k, d'))"
    by (rule efold_invariant[where I = "\<lambda>x. safe (snd x)", OF _ _ assms(2)[unfolded create_compensations_def]])
       (use assms(1) safe_compensate_node in auto)
  then show ?thesis by simp
qed

lemma safe_fail_closed:
  assumes "safe d" and "fail_closed now g ns ts reason d = Inr (k, d')"
  shows "safe d'"
  using assms safe_create_compensations[OF _ , of "upd_graph _ _ (cancel_all now reason ts d)"]
    safe_cancel_all[OF assms(1), of now reason ts]
  by (fastforce simp: fail_closed_def Let_def ebind_Inr_iff case_prod_unfold)

lemma safe_reconcile_open:
  assumes "safe d" and "reconcile_open now g ns ts attempts d = Inr (k, d')"
  shows "safe d'"
  using assms safe_create_compensations[OF assms(1)]
  by (fastforce simp: reconcile_open_def Let_def ebind_Inr_iff case_prod_unfold split: if_splits)

lemma safe_sync: "safe (snd acc) \<Longrightarrow> safe (snd (sync_node n acc))"
  by (cases acc) (simp add: sync_node_def split: option.split)

lemma safe_reconcile_graph:
  assumes "safe d" and "reconcile_graph now g d = Inr (m, k, d')"
  shows "safe d'"
proof (cases "active_graph (g_status g)")
  case False
  then show ?thesis using assms by (simp add: reconcile_graph_def)
next
  case True
  define d1 where "d1 = snd (fold sync_node (ordered_nodes (g_id g) d) (0, d))"
  have s1: "safe d1"
    unfolding d1_def by (rule fold_invariant[where I = "\<lambda>x. safe (snd x)"]) (use assms(1) safe_sync in auto)
  have "safe (reconcile_compensating now g d1)"
    using s1 by (simp add: reconcile_compensating_def Let_def)
  then show ?thesis
    using assms(2) True s1 safe_fail_closed[OF s1] safe_reconcile_open[OF s1]
    by (auto simp: reconcile_graph_def Let_def ebind_Inr_iff case_prod_unfold d1_def[symmetric]
        split: if_splits option.splits bool.splits)
qed

section \<open>The log of a graph is a hash chain\<close>

definition graph_chain_ok :: "uuid \<Rightarrow> db \<Rightarrow> bool" where
  "graph_chain_ok i d =
     linked ge_previous_digest ge_sequence ge_event_digest graph_event_doc None 1
       (filter (\<lambda>e. ge_graph_id e = i) (graph_events d))"

interpretation graph_log: chained_log graph_events ge_graph_id ge_sequence
  ge_previous_digest ge_event_digest graph_event_doc append_graph_event "\<lambda>x. fst (snd x)"
  by unfold_locales (auto simp: append_graph_event_def graph_event_doc_def Let_def split: prod.split)

lemma graph_chain_ok_append: "graph_chain_ok i d \<Longrightarrow> graph_chain_ok i (append_graph_event x d)"
  using graph_log.append_chain_ok[of i d x]
  by (simp add: graph_chain_ok_def graph_log.chain_ok_def graph_log.chain_of_def)

lemma graph_chain_ok_cong: "graph_events d' = graph_events d \<Longrightarrow> graph_chain_ok i d' = graph_chain_ok i d"
  by (simp add: graph_chain_ok_def)

lemma insert_once_events [simp]: "graph_events (snd (insert_once n d)) = graph_events d"
  by (simp add: insert_once_def Let_def split: option.split)

lemma create_approval_events [simp]: "graph_events (create_approval now t d) = graph_events d"
  by (simp add: create_approval_def enqueue_approval_gate_def Let_def case_prod_unfold)

lemma persist_events:
  "persist_new_task now t d = Inr (t', d') \<Longrightarrow> graph_events d' = graph_events d"
  by (auto simp: persist_new_task_def Let_def split: if_splits)

lemma graph_chain_frames [simp]:
  "graph_chain_ok i (upd_graph j f d) = graph_chain_ok i d"
  "graph_chain_ok i (upd_node j2 f2 d) = graph_chain_ok i d"
  "graph_chain_ok i (add_dependency now a b d) = graph_chain_ok i d"
  "graph_chain_ok i (d\<lparr>graphs := gs\<rparr>) = graph_chain_ok i d"
  "graph_chain_ok i (d\<lparr>nodes := ns\<rparr>) = graph_chain_ok i d"
  "graph_chain_ok i (d\<lparr>graph_messages := ms\<rparr>) = graph_chain_ok i d"
  "graph_chain_ok i (d\<lparr>next_uuid := k\<rparr>) = graph_chain_ok i d"
  by (simp_all add: graph_chain_ok_def)

lemma chain_persist:
  "persist_new_task now t d = Inr (t', d') \<Longrightarrow> graph_chain_ok i d' = graph_chain_ok i d"
  by (rule graph_chain_ok_cong) (rule persist_events)

lemma chain_cancel_task: "graph_chain_ok i d \<Longrightarrow> graph_chain_ok i (snd (cancel_task now t reason d))"
  by (auto simp: cancel_task_def graph_chain_ok_def)

lemma chain_cancel_node: "graph_chain_ok i (snd acc) \<Longrightarrow> graph_chain_ok i (snd (cancel_node now reason n acc))"
  using chain_cancel_task[of i "snd acc" now _ reason]
  by (auto simp: cancel_node_def case_prod_unfold split: option.split)

lemma chain_cancel_all: "graph_chain_ok i d \<Longrightarrow> graph_chain_ok i (cancel_all now reason ts d)"
  unfolding cancel_all_def
  by (rule fold_invariant[where I = "graph_chain_ok i"]) (auto split: option.split intro: chain_cancel_task)

lemma chain_materialize_node:
  assumes "graph_chain_ok i (snd acc)" and "materialize_node now g n acc = Inr acc'"
  shows "graph_chain_ok i (snd acc')"
  using assms
  by (auto simp: materialize_node_def ebind_Inr_iff case_prod_unfold chain_persist)

lemma chain_activate_graph:
  assumes "graph_chain_ok i d" and "activate_graph now g actor d = Inr d'"
  shows "graph_chain_ok i d'"
proof -
  obtain made d1 d2 x f where
    m: "efold (materialize_node now g) (ordered_nodes (g_id g) d) ([], d) = Inr (made, d1)"
    and n: "efold (node_dependencies now made) (ordered_nodes (g_id g) d) d1 = Inr d2"
    and d': "d' = append_graph_event x (upd_graph (g_id g) f d2)"
    using assms(2)
    by (auto simp: activate_graph_def Let_def ebind_Inr_iff case_prod_unfold split: if_splits)
  have "graph_chain_ok i (snd (made, d1))"
    by (rule efold_invariant[where I = "\<lambda>x. graph_chain_ok i (snd x)", OF _ _ m])
       (use assms(1) chain_materialize_node in auto)
  moreover have "graph_chain_ok i e'" if "node_dependencies now made n e = Inr e'" "graph_chain_ok i e" for n e e'
    by (rule efold_invariant[where I = "graph_chain_ok i", OF _ that(2) that(1)[unfolded node_dependencies_def]])
       (auto dest!: insert_dependency_Inr split: option.splits)
  ultimately have "graph_chain_ok i d2"
    by (intro efold_invariant[where I = "graph_chain_ok i", OF _ _ n]) auto
  then show ?thesis by (simp add: d' graph_chain_ok_append)
qed

lemma chain_create_compensations:
  assumes "graph_chain_ok i d" and "create_compensations now g ns d = Inr (k, d')"
  shows "graph_chain_ok i d'"
proof -
  have step: "graph_chain_ok i (snd acc')"
    if "graph_chain_ok i (snd acc)" "compensate_node now g n acc = Inr acc'" for n acc acc'
  proof -
    obtain k d k' d' where a: "acc = (k, d)" "acc' = (k', d')" by fastforce
    from compensate_node_shape[OF that(2)[unfolded a]] that(1) show ?thesis
      by (auto simp: a chain_persist intro!: graph_chain_ok_append)
  qed
  have "graph_chain_ok i (snd (k, d'))"
    by (rule efold_invariant[where I = "\<lambda>x. graph_chain_ok i (snd x)", OF _ _ assms(2)[unfolded create_compensations_def]])
       (use assms(1) step in auto)
  then show ?thesis by simp
qed

lemma chain_fail_closed:
  assumes "graph_chain_ok i d" and "fail_closed now g ns ts reason d = Inr (k, d')"
  shows "graph_chain_ok i d'"
proof -
  have "graph_chain_ok i (upd_graph (g_id g) f (cancel_all now reason ts d))" for f
    by (simp add: chain_cancel_all assms(1))
  from chain_create_compensations[OF this] assms(2) show ?thesis
    by (auto simp: fail_closed_def Let_def ebind_Inr_iff case_prod_unfold
        intro!: graph_chain_ok_append split: if_splits)
qed

lemma chain_reconcile_open:
  assumes "graph_chain_ok i d" and "reconcile_open now g ns ts attempts d = Inr (k, d')"
  shows "graph_chain_ok i d'"
  using assms chain_create_compensations[OF assms(1)]
  by (auto simp: reconcile_open_def Let_def ebind_Inr_iff case_prod_unfold intro!: graph_chain_ok_append
      split: if_splits)

lemma chain_reconcile_graph:
  assumes "graph_chain_ok i d" and "reconcile_graph now g d = Inr (m, k, d')"
  shows "graph_chain_ok i d'"
proof (cases "active_graph (g_status g)")
  case False
  then show ?thesis using assms by (simp add: reconcile_graph_def)
next
  case True
  define d1 where "d1 = snd (fold sync_node (ordered_nodes (g_id g) d) (0, d))"
  have "graph_chain_ok i (snd (sync_node n acc)) = graph_chain_ok i (snd acc)" for n acc
    by (cases acc) (simp add: sync_node_def split: option.split)
  then have s1: "graph_chain_ok i d1"
    unfolding d1_def by (intro fold_invariant[where I = "\<lambda>x. graph_chain_ok i (snd x)"]) (use assms(1) in auto)
  have "graph_chain_ok i (reconcile_compensating now g d1)"
    using s1 by (simp add: reconcile_compensating_def Let_def graph_chain_ok_append)
  then show ?thesis
    using assms(2) True s1 chain_fail_closed[OF s1] chain_reconcile_open[OF s1]
    by (auto simp: reconcile_graph_def Let_def ebind_Inr_iff case_prod_unfold d1_def[symmetric]
        split: if_splits option.splits bool.splits)
qed

text \<open>The operations on graphs, as steps of the database.\<close>

inductive graph_step :: "db \<Rightarrow> db \<Rightarrow> bool" where
  create: "create_graph now p d = Inr (g, d') \<Longrightarrow> graph_step d d'"
| activate: "activate_graph now g actor d = Inr d' \<Longrightarrow> graph_step d d'"
| message: "append_message now g q d = Inr d' \<Longrightarrow> graph_step d d'"
| cancel: "cancel_graph now g actor reason d = Inr (k, d') \<Longrightarrow> graph_step d d'"
| reconcile: "reconcile_graph now g d = Inr (m, k, d') \<Longrightarrow> graph_step d d'"

lemma graph_step_chain_ok: "graph_step d d' \<Longrightarrow> graph_chain_ok i d \<Longrightarrow> graph_chain_ok i d'"
proof (induction rule: graph_step.induct)
  case (create now p d g d')
  then show ?case
    by (auto simp: create_graph_def Let_def intro!: graph_chain_ok_append split: if_splits)
next
  case (message now g q d d')
  then show ?case
    by (auto simp: append_message_def Let_def ebind_Inr_iff intro!: graph_chain_ok_append split: if_splits)
next
  case (cancel now g actor reason d k d')
  let ?d = "upd_graph (g_id g) (\<lambda>g. g\<lparr>g_status := GraphCancelling\<rparr>) d"
  have "graph_chain_ok i (snd (fold (cancel_node now reason) ns (0, ?d)))" for ns
    by (rule fold_invariant[where I = "\<lambda>x. graph_chain_ok i (snd x)"]) (use cancel(2) chain_cancel_node in auto)
  then show ?case
    using cancel(1)
    by (auto simp: cancel_graph_def Let_def case_prod_unfold intro!: graph_chain_ok_append split: if_splits)
qed (blast intro: chain_activate_graph chain_reconcile_graph)+

text \<open>
  (C9) The log of every task graph is a valid hash chain after any sequence of graph
  operations that starts from an empty log.
\<close>

theorem graph_log_chain:
  assumes "graph_step\<^sup>*\<^sup>* d d'" and "graph_events d = []"
  shows "graph_chain_ok i d'"
  using assms
proof (induction rule: rtranclp_induct)
  case base
  then show ?case by (simp add: graph_chain_ok_def)
next
  case (step e e')
  then show ?case by (blast intro: graph_step_chain_ok)
qed

section \<open>Failing closed\<close>

text \<open>A task that will do no more work: it has ended, or its holder is told to stop.\<close>

definition stopped :: "task \<Rightarrow> bool" where
  "stopped t = (terminal_task (t_status t) \<or> active t \<and> t_cancel_requested_at t \<noteq> None)"

definition stopped_in :: "db \<Rightarrow> uuid \<Rightarrow> bool" where
  "stopped_in d i = (case get_task i d of None \<Rightarrow> False | Some t \<Rightarrow> stopped t)"

lemma get_task_frame [simp]:
  "get_task j (append_task_event now t e m a p d) = get_task j d"
  "get_task j (snd (discard_working_memory now i d)) = get_task j d"
  "get_task j (append_graph_event x d) = get_task j d"
  "get_task j (upd_graph i2 f d) = get_task j d" "get_task j (upd_node i3 h d) = get_task j d"
  by (simp_all add: get_task_def)

lemma get_task_cancel_task:
  assumes "get_task (t_id t) d = Some t"
  shows "get_task j (snd (cancel_task now t reason d)) =
    (if j = t_id t then
       Some (if terminal_task (t_status t) then t
             else if active_lease_status (t_status t) then request_cancel now reason t
             else cancelled_row now reason t)
     else get_task j d)"
proof -
  have keys: "\<And>r. t_id (request_cancel now reason r) = t_id r" "\<And>r. t_id (cancelled_row now reason r) = t_id r"
    by (simp_all add: request_cancel_def cancelled_row_def clear_lease_def)
  show ?thesis
    using assms task_store.get_upd[of "request_cancel now reason" j "t_id t" d, OF keys(1)]
      task_store.get_upd[of "cancelled_row now reason" j "t_id t" d, OF keys(2)]
    by (auto simp: cancel_task_def)
qed

lemma stopped_cancel:
  "stopped (if terminal_task (t_status t) then t
            else if active_lease_status (t_status t) then request_cancel now reason t
            else cancelled_row now reason t)"
  by (simp add: stopped_def request_cancel_def cancelled_row_def clear_lease_def active_def terminal_task_def)

lemma stopped_in_cancel_task:
  assumes "get_task (t_id t) d = Some t"
  shows "stopped_in (snd (cancel_task now t reason d)) (t_id t)"
    and "stopped_in d j \<Longrightarrow> stopped_in (snd (cancel_task now t reason d)) j"
  using stopped_cancel[of t now reason]
  by (auto simp: stopped_in_def get_task_cancel_task[OF assms] split: option.splits)

lemma get_task_key: "get_task i d = Some t \<Longrightarrow> get_task (t_id t) d = Some t"
  using task_store.get_key by fastforce

text \<open>One step of \<open>cancel_all\<close>.\<close>

definition cancel_current :: "time \<Rightarrow> string \<Rightarrow> task \<Rightarrow> db \<Rightarrow> db" where
  "cancel_current now reason t d =
     (case get_task (t_id t) d of None \<Rightarrow> d | Some t' \<Rightarrow> snd (cancel_task now t' reason d))"

lemma cancel_all_alt: "cancel_all now reason ts d = fold (cancel_current now reason) ts d"
  by (simp add: cancel_all_def cancel_current_def[abs_def])

lemma cancel_current_keeps: "stopped_in d j \<Longrightarrow> stopped_in (cancel_current now reason t d) j"
proof (cases "get_task (t_id t) d")
  case (Some t')
  assume "stopped_in d j"
  then show ?thesis
    using stopped_in_cancel_task(2)[OF get_task_key[OF Some]] Some by (simp add: cancel_current_def)
qed (simp add: cancel_current_def)

lemma cancel_current_has: "get_task j d \<noteq> None \<Longrightarrow> get_task j (cancel_current now reason t d) \<noteq> None"
proof (cases "get_task (t_id t) d")
  case (Some t')
  assume "get_task j d \<noteq> None"
  then show ?thesis
    using get_task_cancel_task[OF get_task_key[OF Some]] Some by (simp add: cancel_current_def)
qed (simp add: cancel_current_def)

lemma cancel_all_keeps: "stopped_in d j \<Longrightarrow> stopped_in (cancel_all now reason ts d) j"
  unfolding cancel_all_alt
  by (rule fold_invariant[where I = "\<lambda>d. stopped_in d j"]) (simp_all add: cancel_current_keeps)

lemma cancel_all_has:
  "get_task j d \<noteq> None \<Longrightarrow> get_task j (cancel_all now reason ts d) \<noteq> None"
  unfolding cancel_all_alt
  by (rule fold_invariant[where I = "\<lambda>d. get_task j d \<noteq> None"]) (rule cancel_current_has)

lemma cancel_all_stops:
  assumes "t \<in> set ts" and "get_task (t_id t) d \<noteq> None"
  shows "stopped_in (cancel_all now reason ts d) (t_id t)"
proof -
  obtain xs ys where ts: "ts = xs @ t # ys" using assms(1) by (meson split_list)
  let ?d = "cancel_all now reason xs d"
  obtain t' where t': "get_task (t_id t) ?d = Some t'" using cancel_all_has[OF assms(2)] by blast
  then have "t_id t' = t_id t" using task_store.get_key by blast
  then have "stopped_in (snd (cancel_task now t' reason ?d)) (t_id t)"
    using stopped_in_cancel_task(1)[of t' ?d now reason] t' by simp
  moreover have "cancel_all now reason ts d
      = cancel_all now reason ys (snd (cancel_task now t' reason ?d))"
    using t' by (simp add: ts cancel_all_def)
  ultimately show ?thesis using cancel_all_keeps by simp
qed

lemma stopped_in_cong: "tasks d' = tasks d @ ts \<Longrightarrow> stopped_in d i \<Longrightarrow> stopped_in d' i"
  by (auto simp: stopped_in_def get_task_def get_row_append split: option.splits)

lemma stopped_in_same: "tasks d' = tasks d \<Longrightarrow> stopped_in d i \<Longrightarrow> stopped_in d' i"
  using stopped_in_cong[of d' d "[]"] by simp

lemma compensations_rows:
  assumes "create_compensations now g ns d = Inr (k, d')"
  shows "(\<exists>new. tasks d' = tasks d @ new) \<and> graphs d' = graphs d"
proof -
  have step: "(\<exists>new. tasks (snd acc') = tasks d @ new) \<and> graphs (snd acc') = graphs d"
    if "(\<exists>new. tasks (snd acc) = tasks d @ new) \<and> graphs (snd acc) = graphs d"
      "compensate_node now g n acc = Inr acc'" for n acc acc'
  proof -
    obtain k e k' e' where a: "acc = (k, e)" "acc' = (k', e')" by fastforce
    from compensate_node_shape[OF that(2)[unfolded a]] show ?thesis
    proof (elim disjE exE conjE)
      fix original spec t t' d1 x
      assume "persist_new_task now (t\<lparr>t_parent_task_id := Some (t_id original)\<rparr>) e = Inr (t', d1)"
        and e': "e' = append_graph_event x d1"
      then have "tasks d1 = tasks e @ [t']" "graphs d1 = graphs e"
        using persist_tables by blast+
      then show ?thesis using that(1) by (auto simp: a e')
    qed (use that(1) a in simp)
  qed
  have "(\<exists>new. tasks (snd (k, d')) = tasks d @ new) \<and> graphs (snd (k, d')) = graphs d"
    by (rule efold_invariant[where I = "\<lambda>x. (\<exists>new. tasks (snd x) = tasks d @ new) \<and> graphs (snd x) = graphs d",
          OF _ _ assms[unfolded create_compensations_def]]) (rule step, assumption, assumption, simp)
  then show ?thesis by simp
qed

lemma fail_closed_rows:
  assumes "fail_closed now g ns ts reason d = Inr (k, d')"
  shows "(\<exists>new. tasks d' = tasks (cancel_all now reason ts d) @ new)
    \<and> (\<exists>h s. graphs d' = upd_row g_id (g_id g) h (graphs (cancel_all now reason ts d))
        \<and> s \<in> {GraphCompensating, GraphFailed} \<and> (\<forall>x. g_id (h x) = g_id x \<and> g_status (h x) = s))"
proof -
  let ?terminal = "[(''category'', JStr reason),
      (''failed_task_ids'', task_ids_json (filter (\<lambda>t. t_status t = Failed) ts))]"
  let ?f = "\<lambda>g. g\<lparr>g_status := GraphCompensating, g_terminal_reason := ?terminal\<rparr>"
  let ?h = "\<lambda>g. g\<lparr>g_status := GraphFailed, g_completed_at := Some now\<rparr>"
  obtain d3 where c: "create_compensations now g ns (upd_graph (g_id g) ?f (cancel_all now reason ts d)) = Inr (k, d3)"
    and d': "tasks d' = tasks d3"
      "graphs d' = (if k = 0 then upd_row g_id (g_id g) ?h (graphs d3) else graphs d3)"
    using assms by (auto simp: fail_closed_def Let_def ebind_Inr_iff case_prod_unfold)
  note rows = compensations_rows[OF c]
  have "graphs d' = upd_row g_id (g_id g) (\<lambda>x. if k = 0 then ?h (?f x) else ?f x)
      (graphs (cancel_all now reason ts d))"
    using d'(2) rows by (simp add: upd_row_upd_row)
  moreover have "\<exists>s \<in> {GraphCompensating, GraphFailed}. \<forall>x. g_id (if k = 0 then ?h (?f x) else ?f x) = g_id x
      \<and> g_status (if k = 0 then ?h (?f x) else ?f x) = s"
    by (cases "k = 0") simp_all
  ultimately show ?thesis using rows d'(1) by auto
qed

lemma graphs_cancel_all [simp]: "graphs (cancel_all now reason ts d) = graphs d"
proof -
  have "graphs (snd (cancel_task now t reason d)) = graphs d" for t d by (simp add: cancel_task_def)
  then have "graphs (fold (cancel_current now reason) ts d) = graphs d"
    by (intro fold_invariant[where I = "\<lambda>x. graphs x = graphs d"])
       (auto simp: cancel_current_def split: option.split)
  then show ?thesis by (simp add: cancel_all_alt)
qed

lemma fold_sync_rows:
  "tasks (snd (fold sync_node ns acc)) = tasks (snd acc) \<and> graphs (snd (fold sync_node ns acc)) = graphs (snd acc)"
  by (rule fold_invariant[where I = "\<lambda>x. tasks (snd x) = tasks (snd acc) \<and> graphs (snd x) = graphs (snd acc)"])
     (auto simp: sync_node_def case_prod_unfold split: option.split)


end
