(* ===== verification/Missions.thy ===== *)
theory Missions
  imports TaskGraphs
begin

text \<open>
  Missions (\<open>services/missions.py\<close>, \<open>services/supervision.py\<close>, \<open>schemas/mission.py\<close>):
  an approved manifest becomes a mission with one task per work item or phase; a mission
  follows its tasks, and a supervised mission recovers retryable failures within the budgets
  of its manifest.
\<close>

section \<open>Manifests\<close>

record mission_budget =
  mb_max_tasks :: int
  mb_max_attempts_per_task :: int
  mb_max_duration_seconds :: int
  mb_max_files_changed :: int
  mb_max_diff_lines :: int

record work_item =
  wi_id :: string
  wi_objective :: string
  wi_depends_on :: "string list"
  wi_allowed_paths :: "string list"
  wi_context_paths :: "string list"
  wi_acceptance_criteria :: "string list"
  wi_stop_conditions :: "string list"

record supervision_policy =
  sp_mode :: string
  sp_approval_mode :: string
  sp_max_auto_recoveries :: int
  sp_retry_backoff_seconds :: int
  sp_retryable_categories :: "string list"
  sp_rehearsal_evidence_sha256 :: string
  sp_rehearsal_source_commit :: string

record engineering_manifest =
  em_schema_version :: int
  em_milestone_id :: string
  em_project :: string
  em_objective :: string
  em_base_ref :: string
  em_source_references :: "string list"
  em_workflow :: string
  em_risk_level :: int
  em_allowed_machines :: "string list"
  em_required_capabilities :: "string list"
  em_budget :: mission_budget
  em_work_items :: "work_item list"
  em_deliverables :: "string list"
  em_approved_by :: string
  em_approval_reference :: string
  em_supervision :: "supervision_policy option"

record infrastructure_phase =
  ph_id :: string
  ph_operation :: string
  ph_objective :: string
  ph_depends_on :: "string list"
  ph_risk_level :: int
  ph_approval_required :: bool
  ph_acceptance_criteria :: "string list"
  ph_expected_outputs :: "string list"

record infrastructure_manifest =
  im_schema_version :: int
  im_milestone_id :: string
  im_project :: string
  im_objective :: string
  im_source_references :: "string list"
  im_workflow :: string
  im_runbook :: string
  im_runbook_version :: string
  im_target :: string
  im_allowed_machines :: "string list"
  im_required_capabilities :: "string list"
  im_max_tasks :: int
  im_max_attempts_per_task :: int
  im_max_duration_seconds :: int
  im_phases :: "infrastructure_phase list"
  im_approved_by :: string
  im_approval_reference :: string
  im_supervision :: "supervision_policy option"

datatype mission_manifest =
    Engineering engineering_manifest
  | Infrastructure infrastructure_manifest

section \<open>Validation\<close>

text \<open>\<open>re.fullmatch(r"[0-9a-f]{40,64}", base_ref)\<close>.\<close>

definition commit_pinned :: "string \<Rightarrow> bool" where
  "commit_pinned s = (40 \<le> length s \<and> length s \<le> 64 \<and> list_all hex_digit s)"

definition valid_engineering_dag :: "engineering_manifest \<Rightarrow> unit res" where
  "valid_engineering_dag m =
     (let ids = map wi_id (em_work_items m) in
      if em_supervision m \<noteq> None \<and> \<not> commit_pinned (em_base_ref m)
      then Inl (ValueError ''supervised engineering missions require a commit-pinned base_ref'')
      else if \<not> distinct ids then Inl (ValueError ''work item IDs must be unique'')
      else if list_ex (\<lambda>w. list_ex (\<lambda>dep. dep \<notin> set ids) (wi_depends_on w)) (em_work_items m)
      then Inl (ValueError ''dependency references an unknown work item'')
      else if list_ex (\<lambda>w. wi_id w \<in> set (wi_depends_on w)) (em_work_items m)
      then Inl (ValueError ''work item cannot depend on itself'')
      else
        (case visit_all (map (\<lambda>w. (wi_id w, wi_depends_on w)) (em_work_items m)) [] [] ids of
           Inl _ \<Rightarrow> Inl (ValueError ''work item dependencies contain a cycle'')
         | Inr _ \<Rightarrow>
             if mb_max_tasks (em_budget m) < int (length ids)
             then Inl (ValueError ''work item count exceeds mission budget'') else Inr ()))"

text \<open>\<open>operation_policy_matches\<close>: the risk and approval each operation must declare.\<close>

definition operation_policy :: "string \<Rightarrow> (int \<times> bool) option" where
  "operation_policy op = map_of
     [(''preflight-invariance-postgres'', (0, False)), (''stage-invariance-postgres'', (2, True)),
      (''start-invariance-postgres-private'', (3, True)),
      (''initialize-invariance-schema'', (3, True)),
      (''configure-invariance-backups'', (3, True)), (''verify-invariance-postgres'', (0, False)),
      (''prepare-invariance-cutover'', (0, False))] op"

definition operation_policy_matches :: "infrastructure_phase \<Rightarrow> bool" where
  "operation_policy_matches p =
     (operation_policy (ph_operation p) = Some (ph_risk_level p, ph_approval_required p))"

definition valid_infrastructure_dag :: "infrastructure_manifest \<Rightarrow> unit res" where
  "valid_infrastructure_dag m =
     (let ids = map ph_id (im_phases m) in
      if im_allowed_machines m \<noteq> [''vm2-deployment'']
      then Inl (ValueError ''infrastructure mission machine is invalid'')
      else if im_required_capabilities m \<noteq>
           [''deployment-architecture'', ''infrastructure-observation'', ''postgres-deployment'',
            ''service-health'']
      then Inl (ValueError ''infrastructure mission capabilities are invalid'')
      else if \<not> distinct ids then Inl (ValueError ''phase IDs must be unique'')
      else if list_ex (\<lambda>p. list_ex (\<lambda>dep. dep \<notin> set ids) (ph_depends_on p)) (im_phases m)
      then Inl (ValueError ''dependency references an unknown phase'')
      else
        (case visit_all (map (\<lambda>p. (ph_id p, ph_depends_on p)) (im_phases m)) [] [] ids of
           Inl _ \<Rightarrow> Inl (ValueError ''phase dependencies contain a cycle'')
         | Inr _ \<Rightarrow>
             if im_max_tasks m < int (length ids)
             then Inl (ValueError ''phase count exceeds mission budget'') else Inr ()))"

section \<open>Canonical documents\<close>

definition supervision_json :: "supervision_policy \<Rightarrow> dict" where
  "supervision_json p =
     [(''mode'', JStr (sp_mode p)), (''approval_mode'', JStr (sp_approval_mode p)),
      (''max_auto_recoveries'', JInt (sp_max_auto_recoveries p)),
      (''retry_backoff_seconds'', JInt (sp_retry_backoff_seconds p)),
      (''retryable_categories'', jstrs (sp_retryable_categories p)),
      (''rehearsal_evidence_sha256'', JStr (sp_rehearsal_evidence_sha256 p)),
      (''rehearsal_source_commit'', JStr (sp_rehearsal_source_commit p))]"

definition work_item_json :: "work_item \<Rightarrow> json" where
  "work_item_json w = JObj
     [(''id'', JStr (wi_id w)), (''objective'', JStr (wi_objective w)),
      (''depends_on'', jstrs (wi_depends_on w)), (''allowed_paths'', jstrs (wi_allowed_paths w)),
      (''context_paths'', jstrs (wi_context_paths w)),
      (''acceptance_criteria'', jstrs (wi_acceptance_criteria w)),
      (''stop_conditions'', jstrs (wi_stop_conditions w))]"

definition engineering_json :: "engineering_manifest \<Rightarrow> json" where
  "engineering_json m = JObj
     [(''schema_version'', JInt (em_schema_version m)), (''milestone_id'', JStr (em_milestone_id m)),
      (''project'', JStr (em_project m)), (''objective'', JStr (em_objective m)),
      (''base_ref'', JStr (em_base_ref m)),
      (''source_references'', jstrs (em_source_references m)), (''workflow'', JStr (em_workflow m)),
      (''risk_level'', JInt (em_risk_level m)), (''allowed_machines'', jstrs (em_allowed_machines m)),
      (''required_capabilities'', jstrs (em_required_capabilities m)),
      (''budget'', JObj
        [(''max_tasks'', JInt (mb_max_tasks (em_budget m))),
         (''max_attempts_per_task'', JInt (mb_max_attempts_per_task (em_budget m))),
         (''max_duration_seconds'', JInt (mb_max_duration_seconds (em_budget m))),
         (''max_files_changed'', JInt (mb_max_files_changed (em_budget m))),
         (''max_diff_lines'', JInt (mb_max_diff_lines (em_budget m)))]),
      (''work_items'', JList (map work_item_json (em_work_items m))),
      (''deliverables'', jstrs (em_deliverables m)), (''approved_by'', JStr (em_approved_by m)),
      (''approval_reference'', JStr (em_approval_reference m)),
      (''supervision'', option_json (\<lambda>p. JObj (supervision_json p)) (em_supervision m))]"

definition phase_json :: "infrastructure_phase \<Rightarrow> json" where
  "phase_json p = JObj
     [(''id'', JStr (ph_id p)), (''operation'', JStr (ph_operation p)),
      (''objective'', JStr (ph_objective p)), (''depends_on'', jstrs (ph_depends_on p)),
      (''risk_level'', JInt (ph_risk_level p)),
      (''approval_required'', JBool (ph_approval_required p)),
      (''acceptance_criteria'', jstrs (ph_acceptance_criteria p)),
      (''expected_outputs'', jstrs (ph_expected_outputs p))]"

definition infrastructure_json :: "infrastructure_manifest \<Rightarrow> json" where
  "infrastructure_json m = JObj
     [(''schema_version'', JInt (im_schema_version m)), (''milestone_id'', JStr (im_milestone_id m)),
      (''project'', JStr (im_project m)), (''objective'', JStr (im_objective m)),
      (''source_references'', jstrs (im_source_references m)), (''workflow'', JStr (im_workflow m)),
      (''runbook'', JStr (im_runbook m)), (''runbook_version'', JStr (im_runbook_version m)),
      (''target'', JStr (im_target m)), (''allowed_machines'', jstrs (im_allowed_machines m)),
      (''required_capabilities'', jstrs (im_required_capabilities m)),
      (''budget'', JObj
        [(''max_tasks'', JInt (im_max_tasks m)),
         (''max_attempts_per_task'', JInt (im_max_attempts_per_task m)),
         (''max_duration_seconds'', JInt (im_max_duration_seconds m))]),
      (''phases'', JList (map phase_json (im_phases m))), (''approved_by'', JStr (im_approved_by m)),
      (''approval_reference'', JStr (im_approval_reference m)),
      (''supervision'', option_json (\<lambda>p. JObj (supervision_json p)) (im_supervision m))]"

fun manifest_json :: "mission_manifest \<Rightarrow> json" where
  "manifest_json (Engineering m) = engineering_json m"
| "manifest_json (Infrastructure m) = infrastructure_json m"

definition canonical_manifest :: "mission_manifest \<Rightarrow> string" where
  "canonical_manifest m = dumps (manifest_json m)"

definition verify_mission_approval :: "mission_manifest \<Rightarrow> string \<Rightarrow> string \<Rightarrow> unit res" where
  "verify_mission_approval m signature secret =
     (if hmac_sha256_hex secret (canonical_manifest m) \<noteq> signature
      then http 422 ''Mission approval signature verification failed.'' else Inr ())"

section \<open>Creating missions\<close>

text \<open>The constructor call both kinds of mission share, with the fields that differ as arguments.\<close>

definition new_mission ::
  "time \<Rightarrow> uuid \<Rightarrow> mission_manifest \<Rightarrow> string \<Rightarrow> string \<Rightarrow> string \<Rightarrow> string \<Rightarrow> string \<Rightarrow> string \<Rightarrow> int
     \<Rightarrow> int \<Rightarrow> int \<Rightarrow> supervision_policy option \<Rightarrow> string \<Rightarrow> engineering_mission" where
  "new_mission now i m milestone project objective approved_by reference signature max_tasks
      max_attempts max_duration supervision created_by =
     \<lparr>m_id = i, m_milestone_id = milestone, m_project = project, m_objective = objective,
      m_status = (if supervision = None then MissionActive else MissionPendingApproval),
      m_manifest_digest = sha256_hex (canonical_manifest m), m_manifest = manifest_json m,
      m_approved_by = approved_by, m_approval_reference = reference,
      m_approval_signature = signature, m_max_tasks = max_tasks, m_max_attempts = max_attempts,
      m_max_duration_seconds = max_duration, m_deadline_at = now + seconds max_duration,
      m_created_by = created_by, m_created_at = now, m_completed_at = None,
      m_supervision_enabled = (supervision \<noteq> None),
      m_supervision_status = (if supervision = None then None else Some SupervisionPendingApproval),
      m_supervision_policy = (case supervision of None \<Rightarrow> [] | Some p \<Rightarrow> supervision_json p),
      m_supervision_approved_at = None, m_supervision_approved_by = None, m_recovery_count = 0,
      m_next_reconcile_at = None, m_supervision_exception = []\<rparr>"

definition insert_mission :: "engineering_mission \<Rightarrow> db \<Rightarrow> db res" where
  "insert_mission m d =
     (if m_milestone_id m \<in> m_milestone_id ` set (missions d) then Inl IntegrityError
      else Inr (d\<lparr>missions := missions d @ [m], next_uuid := Suc (next_uuid d)\<rparr>))"

definition engineering_contract :: "engineering_manifest \<Rightarrow> work_item \<Rightarrow> dict" where
  "engineering_contract m w =
     [(''repository'', JStr (em_project m)), (''workflow'', JStr (em_workflow m)),
      (''base_ref'', JStr (em_base_ref m)), (''milestone_id'', JStr (em_milestone_id m)),
      (''work_item_id'', JStr (wi_id w)), (''objective'', JStr (wi_objective w)),
      (''allowed_paths'', jstrs (wi_allowed_paths w)), (''context_paths'', jstrs (wi_context_paths w)),
      (''acceptance_criteria'', jstrs (wi_acceptance_criteria w)),
      (''stop_conditions'', jstrs (wi_stop_conditions w)),
      (''max_files_changed'', JInt (mb_max_files_changed (em_budget m))),
      (''max_diff_lines'', JInt (mb_max_diff_lines (em_budget m))),
      (''max_duration_seconds'', JInt (mb_max_duration_seconds (em_budget m)))]"

text \<open>\<open>f"{kind}-{digest[:8]}-{index:02d}"\<close>.\<close>

definition mission_task_number :: "string \<Rightarrow> string \<Rightarrow> nat \<Rightarrow> string" where
  "mission_task_number kind dig index = kind @ ''-'' @ take 8 dig @ ''-'' @ zero_pad 2 (nat_str index)"

definition engineering_task ::
  "time \<Rightarrow> engineering_manifest \<Rightarrow> engineering_mission \<Rightarrow> string \<Rightarrow> nat \<Rightarrow> work_item \<Rightarrow> uuid \<Rightarrow> task" where
  "engineering_task now m mission created_by index w i =
     (let contract = engineering_contract m w
      in \<lparr>t_id = i, t_task_number = mission_task_number ''M4'' (m_manifest_digest mission) index,
          t_project = em_project m, t_task_type = ''engineering_mission'',
          t_title = em_milestone_id m @ '': '' @ wi_id w, t_objective = wi_objective w,
          t_status = Queued, t_priority = 60, t_risk_level = em_risk_level m,
          t_assigned_agent_id = None, t_parent_task_id = None, t_conversation_id = None,
          t_conversation_revision = None, t_mission_id = Some (m_id mission),
          t_milestone_step_id = Some (wi_id w), t_task_graph_node_id = None,
          t_created_by = created_by, t_input_contract = contract,
          t_expected_outputs = [JStr ''patch'', JStr ''validation'', JStr ''review'', JStr ''pr_bundle''],
          t_acceptance_criteria = map JStr (wi_acceptance_criteria w),
          t_approval_policy =
            [(''milestone_approval_reference'', JStr (em_approval_reference m)),
             (''approved_by'', JStr (em_approved_by m))],
          t_approval_required = False, t_plan_digest = task_plan_digest contract,
          t_required_capabilities = em_required_capabilities m,
          t_allowed_machines = em_allowed_machines m,
          t_max_attempts = mb_max_attempts_per_task (em_budget m), t_attempt_count = 0,
          t_leased_at = None, t_lease_expires_at = None, t_lease_token_prefix = None,
          t_lease_token_digest = None, t_last_execution_heartbeat_at = None, t_result = [],
          t_failure = [], t_created_at = now, t_started_at = None, t_completed_at = None,
          t_cancel_requested_at = None, t_cancel_reason = None\<rparr>)"

definition plan_work_item ::
  "time \<Rightarrow> engineering_manifest \<Rightarrow> engineering_mission \<Rightarrow> string \<Rightarrow> nat \<times> work_item
     \<Rightarrow> (string \<times> uuid) list \<times> db \<Rightarrow> ((string \<times> uuid) list \<times> db) res" where
  "plan_work_item now m mission created_by item acc =
     (case (item, acc) of ((index, w), (made, d)) \<Rightarrow>
       (let t = engineering_task now m mission created_by index w (next_uuid d)
        in if t_task_number t \<in> t_task_number ` set (tasks d) then Inl IntegrityError
           else
             Inr (made @ [(wi_id w, t_id t)],
               append_task_event now t ''mission_task_planned''
                 ''Task created from approved milestone manifest.'' None
                 [(''mission_id'', juuid (m_id mission)),
                  (''manifest_digest'', JStr (m_manifest_digest mission)),
                  (''work_item_id'', JStr (wi_id w))]
                 (append_task_event now t ''task_created''
                    ''Task created from an approved engineering milestone.'' None
                    [(''created_by'', JStr created_by), (''priority'', JInt (t_priority t)),
                     (''risk_level'', JInt (t_risk_level t))]
                    (d\<lparr>tasks := tasks d @ [t], next_uuid := Suc (next_uuid d)\<rparr>)))))"

definition link_steps ::
  "time \<Rightarrow> (string \<times> uuid) list \<Rightarrow> string \<times> string list \<Rightarrow> db \<Rightarrow> db res" where
  "link_steps now made step d =
     (case step of (key, deps) \<Rightarrow>
        efold (\<lambda>dep d. case (map_of made key, map_of made dep) of
            (Some i, Some j) \<Rightarrow> insert_dependency now i j d
          | _ \<Rightarrow> Inl (KeyError dep)) deps d)"

definition create_engineering_mission ::
  "time \<Rightarrow> engineering_manifest \<Rightarrow> string \<Rightarrow> string \<Rightarrow> db \<Rightarrow> (engineering_mission \<times> db) res" where
  "create_engineering_mission now m created_by signature d =
     (let mission = new_mission now (next_uuid d) (Engineering m) (em_milestone_id m) (em_project m)
            (em_objective m) (em_approved_by m) (em_approval_reference m) signature
            (mb_max_tasks (em_budget m)) (mb_max_attempts_per_task (em_budget m))
            (mb_max_duration_seconds (em_budget m)) (em_supervision m) created_by
      in ebind (insert_mission mission d) (\<lambda>d1.
         ebind (efold (plan_work_item now m mission created_by)
                  (zip [1..<Suc (length (em_work_items m))] (em_work_items m))
                  ([], append_mission_event now (m_id mission) ''mission_created'' created_by
                         ''Approved engineering mission created.''
                         [(''manifest_digest'', JStr (m_manifest_digest mission))] d1))
           (\<lambda>(made, d2).
             ebind (efold (link_steps now made)
                      (map (\<lambda>w. (wi_id w, wi_depends_on w)) (em_work_items m)) d2)
               (\<lambda>d3. Inr (mission, d3)))))"

definition observation_operation :: "string \<Rightarrow> bool" where
  "observation_operation op =
     (op \<in> {''preflight-invariance-postgres'', ''verify-invariance-postgres'',
            ''prepare-invariance-cutover''})"

definition phase_payload ::
  "infrastructure_manifest \<Rightarrow> string \<Rightarrow> string \<Rightarrow> nat \<Rightarrow> infrastructure_phase \<Rightarrow> task_create" where
  "phase_payload m dig created_by index p =
     \<lparr>tc_task_number = mission_task_number ''INF'' dig index, tc_project = im_project m,
      tc_task_type = (if observation_operation (ph_operation p)
                      then ''infrastructure_observation'' else ''infrastructure_operation''),
      tc_title = im_milestone_id m @ '': '' @ ph_id p, tc_objective = ph_objective p,
      tc_priority = 70, tc_risk_level = ph_risk_level p, tc_parent_task_id = None,
      tc_created_by = created_by,
      tc_input_contract =
        [(''runbook'', JStr (im_runbook m)), (''runbook_version'', JStr (im_runbook_version m)),
         (''operation'', JStr (ph_operation p)), (''target'', JStr (im_target m)),
         (''parameters'', JObj [])],
      tc_expected_outputs = map JStr (ph_expected_outputs p),
      tc_acceptance_criteria = map JStr (ph_acceptance_criteria p),
      tc_approval_policy =
        [(''kind'', JStr (if ph_approval_required p then ''explicit'' else ''automatic'')),
         (''risk'', JInt (ph_risk_level p)), (''mission_manifest_digest'', JStr dig),
         (''phase_id'', JStr (ph_id p))],
      tc_approval_required = (ph_approval_required p \<and> im_supervision m = None),
      tc_required_capabilities = im_required_capabilities m,
      tc_allowed_machines = im_allowed_machines m,
      tc_max_attempts = im_max_attempts_per_task m\<rparr>"

definition plan_phase ::
  "time \<Rightarrow> infrastructure_manifest \<Rightarrow> engineering_mission \<Rightarrow> string \<Rightarrow> nat \<times> infrastructure_phase
     \<Rightarrow> (string \<times> uuid) list \<times> db \<Rightarrow> ((string \<times> uuid) list \<times> db) res" where
  "plan_phase now m mission created_by item acc =
     (case (item, acc) of ((index, p), (made, d)) \<Rightarrow>
        ebind (checked_build_task (phase_payload m (m_manifest_digest mission) created_by index p)) (\<lambda>t.
        ebind (persist_new_task now
                 (t\<lparr>t_mission_id := Some (m_id mission), t_milestone_step_id := Some (ph_id p)\<rparr>) d)
          (\<lambda>(t', d1).
             Inr (made @ [(ph_id p, t_id t')],
               append_task_event now t' ''mission_task_planned''
                 ''Task created from approved infrastructure runbook manifest.'' None
                 [(''mission_id'', juuid (m_id mission)),
                  (''manifest_digest'', JStr (m_manifest_digest mission)),
                  (''phase_id'', JStr (ph_id p))] d1))))"

definition create_infrastructure_mission ::
  "time \<Rightarrow> infrastructure_manifest \<Rightarrow> string \<Rightarrow> string \<Rightarrow> db \<Rightarrow> (engineering_mission \<times> db) res" where
  "create_infrastructure_mission now m created_by signature d =
     (let mission = new_mission now (next_uuid d) (Infrastructure m) (im_milestone_id m) (im_project m)
            (im_objective m) (im_approved_by m) (im_approval_reference m) signature
            (im_max_tasks m) (im_max_attempts_per_task m) (im_max_duration_seconds m)
            (im_supervision m) created_by
      in ebind (insert_mission mission d) (\<lambda>d1.
         ebind (efold (plan_phase now m mission created_by)
                  (zip [1..<Suc (length (im_phases m))] (im_phases m))
                  ([], append_mission_event now (m_id mission) ''mission_created'' created_by
                         ''Approved infrastructure runbook mission created.''
                         [(''manifest_digest'', JStr (m_manifest_digest mission)),
                          (''runbook'', JStr (im_runbook m))] d1))
           (\<lambda>(made, d2).
             ebind (efold (link_steps now made)
                      (map (\<lambda>p. (ph_id p, ph_depends_on p)) (im_phases m)) d2)
               (\<lambda>d3. Inr (mission, d3)))))"

fun create_mission ::
  "time \<Rightarrow> mission_manifest \<Rightarrow> string \<Rightarrow> string \<Rightarrow> db \<Rightarrow> (engineering_mission \<times> db) res" where
  "create_mission now (Infrastructure m) created_by signature d =
     create_infrastructure_mission now m created_by signature d"
| "create_mission now (Engineering m) created_by signature d =
     create_engineering_mission now m created_by signature d"

text \<open>\<open>routes/missions.py: submit_mission\<close>.\<close>

definition submit_mission ::
  "time \<Rightarrow> string \<Rightarrow> mission_manifest \<Rightarrow> string \<Rightarrow> string \<Rightarrow> db \<Rightarrow> (engineering_mission \<times> db) res" where
  "submit_mission now secret m created_by signature d =
     ebind (verify_mission_approval m signature secret) (\<lambda>_.
       case create_mission now m created_by signature d of
         Inl IntegrityError \<Rightarrow> http 409 ''Milestone ID or mission task already exists.''
       | r \<Rightarrow> r)"

section \<open>Following the tasks\<close>

definition mission_tasks :: "uuid \<Rightarrow> db \<Rightarrow> task list" where
  "mission_tasks i d = filter (\<lambda>t. t_mission_id t = Some i) (tasks d)"

definition refreshed_status :: "time \<Rightarrow> engineering_mission \<Rightarrow> task_status list \<Rightarrow> mission_status" where
  "refreshed_status now m statuses =
     (if statuses \<noteq> [] \<and> list_all (\<lambda>s. s = Succeeded) statuses then MissionSucceeded
      else if m_deadline_at m \<le> now \<or> list_ex (\<lambda>s. s = Failed \<or> s = Cancelled) statuses
      then MissionBlocked else MissionActive)"

definition refresh_mission :: "time \<Rightarrow> uuid \<Rightarrow> db \<Rightarrow> db" where
  "refresh_mission now i d =
     (case get_mission i d of
        None \<Rightarrow> d
      | Some m \<Rightarrow>
          (let statuses = map t_status (mission_tasks i d);
               s = refreshed_status now m statuses;
               d1 = upd_mission i (\<lambda>m. if s = MissionSucceeded
                      then m\<lparr>m_status := s, m_completed_at := Some now\<rparr> else m\<lparr>m_status := s\<rparr>) d
           in if s \<noteq> m_status m \<and> (s = MissionSucceeded \<or> s = MissionBlocked)
              then append_mission_event now i (''mission_'' @ mission_status_str s) ''control-plane''
                     (''Mission transitioned to '' @ mission_status_str s @ ''.'')
                     [(''task_statuses'', jstrs (map task_status_str statuses))] d1
              else d1))"

section \<open>Supervision\<close>

definition approve_supervision ::
  "time \<Rightarrow> engineering_mission \<Rightarrow> string \<Rightarrow> string \<Rightarrow> db \<Rightarrow> db res" where
  "approve_supervision now m actor reason d =
     (if \<not> m_supervision_enabled m then http 409 ''Mission is not supervised.''
      else if m_supervision_status m \<noteq> Some SupervisionPendingApproval
      then http 409 ''Mission plan is not pending approval.''
      else if m_manifest_digest m \<noteq> digest_json (m_manifest m)
      then http 409 ''Mission manifest digest has changed.''
      else
        Inr (append_mission_event now (m_id m) ''mission_supervision_approved'' actor reason
               [(''manifest_digest'', JStr (m_manifest_digest m))]
               (upd_mission (m_id m)
                  (\<lambda>m. m\<lparr>m_status := MissionActive, m_supervision_status := Some SupervisionActive,
                         m_supervision_approved_at := Some now,
                         m_supervision_approved_by := Some actor,
                         m_next_reconcile_at := Some now\<rparr>) d)))"

definition abort_task :: "time \<Rightarrow> string \<Rightarrow> string \<Rightarrow> task \<Rightarrow> db \<Rightarrow> db" where
  "abort_task now actor reason t d =
     (if t_status t \<in> {Queued, PendingApproval, Failed}
      then append_task_event now t ''task_cancelled'' ''Task cancelled by supervised mission abort.''
             None [(''actor'', JStr actor), (''reason'', JStr reason)]
             (upd_task (t_id t) (\<lambda>t. t\<lparr>t_status := Cancelled, t_completed_at := Some now\<rparr>) d)
      else d)"

definition abort_supervision ::
  "time \<Rightarrow> engineering_mission \<Rightarrow> string \<Rightarrow> string \<Rightarrow> db \<Rightarrow> db res" where
  "abort_supervision now m actor reason d =
     (let ts = mission_tasks (m_id m) d in
      if \<not> m_supervision_enabled m then http 409 ''Mission is not supervised.''
      else if list_ex (\<lambda>t. active_lease_status (t_status t)) ts
      then http 409 ''Running mission checkpoints must stop before abort.''
      else
        (let d1 = fold (abort_task now actor reason) ts d;
             d2 = upd_mission (m_id m)
                    (\<lambda>m. m\<lparr>m_status := MissionCancelled, m_supervision_status := Some SupervisionAborted,
                           m_supervision_exception := [(''category'', JStr ''operator_abort''),
                                                       (''reason'', JStr reason)],
                           m_next_reconcile_at := None, m_completed_at := Some now\<rparr>) d1
         in Inr (append_mission_event now (m_id m) ''mission_supervision_aborted'' actor reason
                   [(''manifest_digest'', JStr (m_manifest_digest m))] d2)))"

datatype supervision_action =
  WaitingApproval | Waiting | Recovered | AttentionRequired | MissionDone

text \<open>
  \<open>str\<close> of a JSON member; a list or an object, which no failure category is, is given its
  JSON text.
\<close>

definition json_text :: "json \<Rightarrow> string" where
  "json_text v = (case v of JStr s \<Rightarrow> s | JInt i \<Rightarrow> int_str i
     | JBool b \<Rightarrow> (if b then ''True'' else ''False'') | JFloat s \<Rightarrow> s | _ \<Rightarrow> dumps_sep '', '' '': '' v)"

definition failure_category :: "dict \<Rightarrow> string" where
  "failure_category f =
     (if truthy (dget f ''error_category'') then json_text (dget f ''error_category'')
      else if truthy (dget f ''reason'') then json_text (dget f ''reason'') else ''unknown'')"

text \<open>\<open>int(policy.get(key, default))\<close> of a stored policy, which holds integers.\<close>

definition policy_int :: "dict \<Rightarrow> string \<Rightarrow> int \<Rightarrow> int" where
  "policy_int p k dflt = (case dict_get p k of Some (JInt i) \<Rightarrow> i | _ \<Rightarrow> dflt)"

definition policy_categories :: "dict \<Rightarrow> string list" where
  "policy_categories p =
     (case Option.bind (dict_get p ''retryable_categories'') json_strs of None \<Rightarrow> [] | Some cs \<Rightarrow> cs)"

definition retryable_failure :: "engineering_mission \<Rightarrow> task \<Rightarrow> bool" where
  "retryable_failure m t =
     (truthy (dget (t_failure t) ''retryable'')
      \<or> failure_category (t_failure t) \<in> set (policy_categories (m_supervision_policy m)))"

definition recovery_allowed :: "time \<Rightarrow> engineering_mission \<Rightarrow> task \<Rightarrow> bool" where
  "recovery_allowed now m t =
     (retryable_failure m t
      \<and> m_recovery_count m < policy_int (m_supervision_policy m) ''max_auto_recoveries'' 0
      \<and> t_attempt_count t < t_max_attempts t \<and> now < m_deadline_at m)"

definition recover_checkpoint ::
  "time \<Rightarrow> engineering_mission \<Rightarrow> task \<Rightarrow> db \<Rightarrow> db res" where
  "recover_checkpoint now m t d =
     (let category = failure_category (t_failure t);
          d1 = upd_mission (m_id m)
                 (\<lambda>m. m\<lparr>m_recovery_count := m_recovery_count m + 1, m_status := MissionActive,
                        m_supervision_status := Some SupervisionRecovering,
                        m_supervision_exception := []\<rparr>) d;
          d2 = upd_task (t_id t) (\<lambda>t. t\<lparr>t_completed_at := None, t_result := []\<rparr>) d1
      in ebind (rearm_task_approval now t ''Mission supervisor authorized bounded recovery.'' d2)
           (\<lambda>d3.
             (let d4 = append_task_event now t ''task_auto_recovered''
                         ''Mission supervisor resumed a retryable checkpoint.'' None
                         [(''category'', JStr category),
                          (''recovery_count'', JInt (m_recovery_count m + 1))] d3;
                  d5 = upd_mission (m_id m)
                         (\<lambda>m. m\<lparr>m_next_reconcile_at :=
                            Some (now + seconds (policy_int (m_supervision_policy m)
                                                   ''retry_backoff_seconds'' 30))\<rparr>) d4
              in Inr (append_mission_event now (m_id m) ''mission_auto_recovered''
                        ''mission-supervisor''
                        ''Retryable checkpoint resumed within approved mission budget.''
                        [(''task_id'', juuid (t_id t)), (''category'', JStr category)] d5))))"

definition require_attention ::
  "time \<Rightarrow> engineering_mission \<Rightarrow> string \<Rightarrow> dict \<Rightarrow> db \<Rightarrow> db" where
  "require_attention now m message exception d =
     append_mission_event now (m_id m) ''mission_attention_required'' ''mission-supervisor'' message
       exception
       (upd_mission (m_id m)
          (\<lambda>m. m\<lparr>m_status := MissionBlocked,
                 m_supervision_status := Some SupervisionAttentionRequired,
                 m_supervision_exception := exception, m_next_reconcile_at := None\<rparr>) d)"

definition recovery_exception :: "time \<Rightarrow> engineering_mission \<Rightarrow> task \<Rightarrow> dict" where
  "recovery_exception now m t =
     [(''category'', JStr (failure_category (t_failure t))), (''task_id'', juuid (t_id t)),
      (''task_number'', JStr (t_task_number t)), (''retryable'', JBool (retryable_failure m t)),
      (''attempt_budget_available'', JBool (t_attempt_count t < t_max_attempts t)),
      (''time_budget_available'', JBool (now < m_deadline_at m)),
      (''recovery_budget_available'',
       JBool (m_recovery_count m < policy_int (m_supervision_policy m) ''max_auto_recoveries'' 0))]"

text \<open>The part of \<open>reconcile_mission\<close> after leases are reaped and the mission is refreshed.\<close>

definition supervise ::
  "time \<Rightarrow> engineering_mission \<Rightarrow> db \<Rightarrow> (supervision_action \<times> uuid option \<times> db) res" where
  "supervise now m d =
     (let ts = sort_key t_created_at (mission_tasks (m_id m) d) in
      if ts \<noteq> [] \<and> list_all (\<lambda>t. t_status t = Succeeded) ts
      then Inr (MissionDone, None,
             append_mission_event now (m_id m) ''mission_supervision_completed''
               ''mission-supervisor'' ''All mission checkpoints completed.'' []
               (upd_mission (m_id m)
                  (\<lambda>m. m\<lparr>m_supervision_status := Some SupervisionSucceeded,
                         m_status := MissionSucceeded, m_completed_at := Some now\<rparr>) d))
      else if m_deadline_at m \<le> now
      then Inr (AttentionRequired, None,
             require_attention now m ''Mission time budget was exhausted.''
               [(''category'', JStr ''mission_deadline_exhausted''), (''retryable'', JBool False),
                (''time_budget_available'', JBool False)] d)
      else
        (case List.find (\<lambda>t. t_status t = Failed) ts of
           None \<Rightarrow>
             Inr (Waiting, None,
               upd_mission (m_id m) (\<lambda>m. m\<lparr>m_next_reconcile_at := Some (now + seconds 10)\<rparr>) d)
         | Some t \<Rightarrow>
             if recovery_allowed now m t
             then ebind (recover_checkpoint now m t d) (\<lambda>d'. Inr (Recovered, Some (t_id t), d'))
             else Inr (AttentionRequired, Some (t_id t),
               require_attention now m
                 ''Mission authority is exhausted or the failure is not retryable.''
                 (recovery_exception now m t) d)))"

definition reconcile_mission ::
  "time \<Rightarrow> engineering_mission \<Rightarrow> db \<Rightarrow> (supervision_action \<times> uuid option \<times> db) res" where
  "reconcile_mission now m d =
     (if \<not> m_supervision_enabled m then http 409 ''Mission is not supervised.''
      else if m_supervision_status m = Some SupervisionPendingApproval
      then Inr (WaitingApproval, None, d)
      else if m_supervision_status m = Some SupervisionAttentionRequired
      then Inr (AttentionRequired, None, d)
      else if m_supervision_status m \<notin> {Some SupervisionActive, Some SupervisionRecovering}
      then Inr (Waiting, None, d)
      else if (case m_next_reconcile_at m of None \<Rightarrow> False | Some e \<Rightarrow> now < e)
      then Inr (Waiting, None, d)
      else
        ebind (reap_expired_leases now d) (\<lambda>(_, _, _, d1).
          (let d2 = refresh_mission now (m_id m) d1
           in case get_mission (m_id m) d2 of
                None \<Rightarrow> supervise now m d2
              | Some m' \<Rightarrow> supervise now m' d2)))"

section \<open>The mission operations keep the invariants\<close>

lemma ebindE:
  assumes "ebind m f = Inr y"
  obtains x where "m = Inr x" and "f x = Inr y"
  using assms by (auto simp: ebind_Inr_iff)

lemma Inr_pairE:
  assumes "Inr (a, b) = (Inr (c, d) :: 'e + 'a \<times> 'b)"
  obtains "a = c" and "b = d"
  using assms by simp

lemma upd_mission_frame [simp]:
  "tasks (upd_mission i f d) = tasks d" "approvals (upd_mission i f d) = approvals d"
  "next_uuid (upd_mission i f d) = next_uuid d" "graph_events (upd_mission i f d) = graph_events d"
  "missions (upd_mission i f d) = upd_row m_id i f (missions d)"
  by (simp_all add: upd_mission_def)

lemma append_mission_event_frame [simp]:
  "tasks (append_mission_event now i e a m p d) = tasks d"
  "approvals (append_mission_event now i e a m p d) = approvals d"
  "next_uuid (append_mission_event now i e a m p d) = next_uuid d"
  "missions (append_mission_event now i e a m p d) = missions d"
  by (simp_all add: append_mission_event_def)

lemma safe_upd_mission [simp]: "safe (upd_mission i f d) = safe d"
  by (rule safe_core) simp_all

lemma safe_refresh_mission [simp]: "safe (refresh_mission now i d) = safe d"
  by (simp add: refresh_mission_def Let_def split: option.split)

lemma refresh_tasks [simp]: "tasks (refresh_mission now i d) = tasks d"
  by (simp add: refresh_mission_def Let_def split: option.split)

lemma safe_insert_task:
  assumes "safe d" and "fresh_task t" and "\<not> t_approval_required t" and "t_id t = next_uuid d"
  shows "safe (d\<lparr>tasks := tasks d @ [t], next_uuid := Suc (next_uuid d)\<rparr>)"
proof -
  let ?d = "d\<lparr>tasks := tasks d @ [t], next_uuid := Suc (next_uuid d)\<rparr>"
  have k: "keys_ok d" using assms(1) by (simp add: safe_def)
  have lt: "u \<in> set (tasks d) \<Longrightarrow> t_id u < next_uuid d"
      "b \<in> set (approvals d) \<Longrightarrow> ap_id b < next_uuid d \<and> ap_task_id b < next_uuid d" for u b
    using k by (auto simp: keys_ok_def list_all_iff)
  have "distinct (map t_id (tasks d))" "distinct (map ap_id (approvals d))"
    using k by (auto simp: keys_ok_def)
  then have "keys_ok ?d" using assms(4) by (auto simp: keys_ok_def list_all_iff dest!: lt)
  moreover have "gated ?d u" if "gated d u" for u
    using that by (simp add: gated_def approval_of_task_def)
  moreover have "gated ?d t" using assms(3) by (simp add: gated_def)
  moreover have "attempts_ok t" "lease_held t"
    using assms(2) by (auto simp: fresh_task_def lease_held_def)
  ultimately show ?thesis
    using safe_task[OF assms(1)] by (auto simp: safe_def list_all_iff)
qed

lemma safe_plan_work_item:
  assumes "safe (snd acc)" and "0 \<le> mb_max_attempts_per_task (em_budget m)"
    and "plan_work_item now m mission created_by item acc = Inr acc'"
  shows "safe (snd acc')"
proof -
  obtain index w made d where a: "item = (index, w)" "acc = (made, d)" by fastforce
  let ?t = "engineering_task now m mission created_by index w (next_uuid d)"
  have "fresh_task ?t" "\<not> t_approval_required ?t" "t_id ?t = next_uuid d"
    using assms(2)
    by (simp_all add: engineering_task_def fresh_task_def active_def active_lease_status_def
        attempts_ok_def Let_def)
  then have "safe (d\<lparr>tasks := tasks d @ [?t], next_uuid := Suc (next_uuid d)\<rparr>)"
    using assms(1) a by (intro safe_insert_task) simp_all
  then show ?thesis
    using assms(3) a by (auto simp: plan_work_item_def Let_def split: if_splits)
qed

lemma safe_link_steps:
  assumes "safe d" and "link_steps now made step d = Inr d'"
  shows "safe d'"
proof -
  obtain key deps where s: "step = (key, deps)" by fastforce
  show ?thesis
    by (rule efold_invariant[where I = safe, OF _ assms(1) assms(2)[unfolded link_steps_def s prod.case]])
       (auto dest!: insert_dependency_Inr split: option.splits)
qed

lemma fresh_task_mission [simp]:
  "fresh_task (t\<lparr>t_mission_id := i, t_milestone_step_id := j\<rparr>) = fresh_task t"
  by (simp add: fresh_task_def active_def attempts_ok_def)

lemma safe_plan_phase:
  assumes "safe (snd acc)" and "plan_phase now m mission created_by item acc = Inr acc'"
  shows "safe (snd acc')"
proof -
  obtain index p where i: "item = (index, p)" by fastforce
  let ?link = "\<lambda>t. t\<lparr>t_mission_id := Some (m_id mission), t_milestone_step_id := Some (ph_id p)\<rparr>"
  show ?thesis
    using assms(2) unfolding plan_phase_def i case_prod_unfold fst_conv snd_conv
  proof (elim ebindE)
    fix t r
    assume t: "checked_build_task (phase_payload m (m_manifest_digest mission) created_by index p) = Inr t"
      and r: "persist_new_task now (?link t) (snd acc) = Inr r"
      and e: "Inr (fst acc @ [(ph_id p, t_id (fst r))],
         append_task_event now (fst r) ''mission_task_planned''
           ''Task created from approved infrastructure runbook manifest.'' None
           [(''mission_id'', juuid (m_id mission)),
            (''manifest_digest'', JStr (m_manifest_digest mission)),
            (''phase_id'', JStr (ph_id p))] (snd r)) = Inr acc'"
    have "fresh_task (?link t)" using conjunct1[OF checked_build_task_fresh[OF t]] by simp
    then have "safe (snd r)" using safe_persist[OF assms(1), of "?link t" now "fst r" "snd r"] r by simp
    then show ?thesis using e by auto
  qed
qed

lemma safe_insert_mission:
  "safe d \<Longrightarrow> insert_mission m d = Inr d' \<Longrightarrow> safe d'"
  by (rule safe_tables[of d]) (auto simp: insert_mission_def split: if_splits)

lemma planned_safe:
  assumes "safe d" and "insert_mission mis d = Inr d1"
    and "\<And>x acc acc'. safe (snd acc) \<Longrightarrow> plan x acc = Inr acc' \<Longrightarrow> safe (snd acc')"
    and "efold plan xs (made, append_mission_event now i e a msg pl d1) = Inr r"
    and "efold (link_steps now (fst r)) ys (snd r) = Inr d'"
  shows "safe d'"
proof -
  have "safe (snd (made, append_mission_event now i e a msg pl d1))"
    using safe_insert_mission[OF assms(1,2)] by simp
  then have "safe (snd r)"
    by (intro efold_invariant[where I = "\<lambda>x. safe (snd x)", OF _ _ assms(4)]) (auto intro: assms(3))
  then show ?thesis
    by (intro efold_invariant[where I = safe, OF _ _ assms(5)]) (auto intro: safe_link_steps)
qed

lemma safe_create_engineering_mission:
  assumes "safe d" and "0 \<le> mb_max_attempts_per_task (em_budget m)"
    and "create_engineering_mission now m created_by signature d = Inr (mission, d')"
  shows "safe d'"
  using assms(3) unfolding create_engineering_mission_def Let_def case_prod_unfold
  by (elim ebindE Inr_pairE)
     (erule planned_safe[OF assms(1)], auto intro: safe_plan_work_item assms(2))

lemma safe_create_infrastructure_mission:
  assumes "safe d" and "create_infrastructure_mission now m created_by signature d = Inr (mission, d')"
  shows "safe d'"
  using assms(2) unfolding create_infrastructure_mission_def Let_def case_prod_unfold
  by (elim ebindE Inr_pairE) (erule planned_safe[OF assms(1)], auto intro: safe_plan_phase)

text \<open>The manifest's attempt budget is at least one, as its schema demands.\<close>

fun attempts_budgeted :: "mission_manifest \<Rightarrow> bool" where
  "attempts_budgeted (Engineering m) = (1 \<le> mb_max_attempts_per_task (em_budget m))"
| "attempts_budgeted (Infrastructure m) = (1 \<le> im_max_attempts_per_task m)"

lemma safe_submit_mission:
  assumes "safe d" and "attempts_budgeted m" and "submit_mission now secret m by sig d = Inr (mission, d')"
  shows "safe d'"
proof -
  have "create_mission now m by sig d = Inr (mission, d')"
    using assms(3) unfolding submit_mission_def
    by (elim ebindE) (simp split: sum.splits exn.splits)
  then show ?thesis
    using assms(2)
    by (cases m) (simp_all, rule safe_create_engineering_mission[OF assms(1)],
        auto intro: safe_create_infrastructure_mission[OF assms(1)])
qed

lemma safe_approve_supervision:
  "safe d \<Longrightarrow> approve_supervision now m actor reason d = Inr d' \<Longrightarrow> safe d'"
  by (auto simp: approve_supervision_def split: if_splits)

lemma harmless_abort: "harmless (\<lambda>t. t\<lparr>t_status := Cancelled, t_completed_at := x\<rparr>)"
  by (simp add: harmless_def active_def active_lease_status_def attempts_ok_def lease_held_def)

lemma safe_abort_supervision:
  assumes "safe d" and "abort_supervision now m actor reason d = Inr d'"
  shows "safe d'"
proof -
  have "safe (fold (abort_task now actor reason) ts d)" for ts
    by (rule fold_invariant[where I = safe])
       (use assms(1) in \<open>auto simp: abort_task_def intro!: safe_upd_task harmless_abort\<close>)
  then show ?thesis using assms(2) by (auto simp: abort_supervision_def Let_def split: if_splits)
qed

lemma harmless_reopen: "harmless (\<lambda>t. t\<lparr>t_completed_at := x, t_result := y\<rparr>)"
  by (simp add: harmless_def active_def active_lease_status_def attempts_ok_def lease_held_def)

lemma safe_recover_checkpoint:
  assumes "safe d" and "recover_checkpoint now m t d = Inr d'"
  shows "safe d'"
  using assms(2) unfolding recover_checkpoint_def Let_def
proof (elim ebindE)
  fix d3
  assume r: "rearm_task_approval now t ''Mission supervisor authorized bounded recovery.''
      (upd_task (t_id t) (\<lambda>t. t\<lparr>t_completed_at := None, t_result := []\<rparr>)
        (upd_mission (m_id m) (\<lambda>m. m\<lparr>m_recovery_count := m_recovery_count m + 1,
            m_status := MissionActive, m_supervision_status := Some SupervisionRecovering,
            m_supervision_exception := []\<rparr>) d)) = Inr d3"
    and e: "Inr (append_mission_event now (m_id m) ''mission_auto_recovered''
                        ''mission-supervisor''
                        ''Retryable checkpoint resumed within approved mission budget.''
                        [(''task_id'', juuid (t_id t)), (''category'', JStr (failure_category (t_failure t)))]
         (upd_mission (m_id m)
             (\<lambda>m. m\<lparr>m_next_reconcile_at :=
                            Some (now + seconds (policy_int (m_supervision_policy m)
                                                   ''retry_backoff_seconds'' 30))\<rparr>)
           (append_task_event now t ''task_auto_recovered''
                         ''Mission supervisor resumed a retryable checkpoint.'' None
                         [(''category'', JStr (failure_category (t_failure t))),
                          (''recovery_count'', JInt (m_recovery_count m + 1))] d3))) = Inr d'"
  have "safe d3"
    by (rule safe_rearm[OF _ r]) (simp add: safe_upd_task harmless_reopen assms(1))
  then show "safe d'" using e by auto
qed

lemma safe_require_attention [simp]: "safe (require_attention now m msg ex d) = safe d"
  by (simp add: require_attention_def)

lemma safe_supervise:
  assumes "safe d" and "supervise now m d = Inr (a, i, d')"
  shows "safe d'"
proof (cases "List.find (\<lambda>t. t_status t = Failed) (sort_key t_created_at (mission_tasks (m_id m) d))")
  case None
  then show ?thesis
    using assms by (simp add: supervise_def Let_def split: if_split_asm) auto
next
  case (Some t)
  then show ?thesis
    using assms safe_recover_checkpoint[OF assms(1)]
    by (simp add: supervise_def Let_def ebind_Inr_iff split: if_split_asm) auto
qed

lemma safe_reconcile_mission:
  assumes "safe d" and "reconcile_mission now m d = Inr (a, i, d')"
  shows "safe d'"
proof (cases "d' = d")
  case False
  then obtain k n l d1 m' where r: "reap_expired_leases now d = Inr (k, n, l, d1)"
    and s: "supervise now m' (refresh_mission now (m_id m) d1) = Inr (a, i, d')"
    using assms(2)
    by (simp add: reconcile_mission_def Let_def ebind_Inr_iff case_prod_unfold
        split: if_split_asm option.splits)
  show ?thesis
    using safe_supervise[OF _ s] safe_reap_expired_leases[OF assms(1) r] by simp
qed (use assms(1) in simp)

section \<open>Recovery stays within the approved budget\<close>

lemma missions_enqueue [simp]:
  "missions (snd (enqueue_approval_gate now a t g d)) = missions d"
  "missions (supersede_notifications now i d) = missions d"
  by (simp_all add: enqueue_approval_gate_def insert_once_def supersede_notifications_def Let_def
      split: option.split)

lemma missions_rearm:
  assumes "rearm_task_approval now t reason d = Inr d'"
  shows "missions d' = missions d"
proof (cases "approval_of_task (t_id t) d")
  case None
  then show ?thesis using assms by (auto simp: rearm_task_approval_def split: if_split_asm)
next
  case (Some a)
  then show ?thesis
    using assms
    by (cases "t_approval_required t") (auto simp: rearm_task_approval_def Let_def case_prod_unfold)
qed

lemma missions_reap_task:
  assumes "reap_task now t acc = Inr acc'"
  shows "missions (snd (snd acc')) = missions (snd (snd acc))"
proof (cases "t_max_attempts t \<le> t_attempt_count t")
  case True
  then show ?thesis using assms by (auto simp: reap_task_def Let_def case_prod_unfold)
next
  case False
  then show ?thesis
    using assms unfolding reap_task_def Let_def case_prod_unfold
    by (auto simp: ebind_Inr_iff dest: missions_rearm)
qed

lemma missions_reap:
  assumes "reap_expired_leases now d = Inr (k, n, l, d')"
  shows "missions d' = missions d"
proof -
  obtain ts where e: "efold (reap_task now) ts (0, 0, d) = Inr (n, l, d')"
    using assms by (auto simp: reap_expired_leases_def Let_def ebind_Inr_iff)
  have "missions (snd (snd (n, l, d'))) = missions d"
    by (rule efold_invariant[where I = "\<lambda>x. missions (snd (snd x)) = missions d", OF _ _ e])
       (auto dest: missions_reap_task)
  then show ?thesis by simp
qed

text \<open>What refreshing keeps of a mission: everything but its status and end.\<close>

lemma get_mission_upd:
  assumes "missions d' = upd_row m_id i f (missions d)" and "\<And>m. m_id (f m) = m_id m"
  shows "get_mission j d' = map_option (\<lambda>m. if j = i then f m else m) (get_mission j d)"
  using mission_store.get_upd[OF assms(2), of j i d] assms(1)
  by (cases "get_mission j d") (auto simp: get_mission_def upd_mission_def)

lemma refresh_keeps:
  assumes "get_mission i d = Some m"
  shows "\<exists>m'. get_mission i (refresh_mission now i d) = Some m' \<and> m_id m' = m_id m
    \<and> m_recovery_count m' = m_recovery_count m \<and> m_deadline_at m' = m_deadline_at m
    \<and> m_supervision_policy m' = m_supervision_policy m"
proof -
  define f where "f s m = (if s = MissionSucceeded
      then m\<lparr>m_status := s, m_completed_at := Some now\<rparr> else m\<lparr>m_status := s\<rparr>)"
    for s and m :: engineering_mission
  let ?s = "refreshed_status now m (map t_status (mission_tasks i d))"
  have "missions (refresh_mission now i d) = upd_row m_id i (f ?s) (missions d)"
    using assms by (simp add: refresh_mission_def Let_def f_def[abs_def])
  from get_mission_upd[OF this, of i] assms show ?thesis by (auto simp: f_def)
qed

lemma recover_counts:
  assumes "recover_checkpoint now m t d = Inr d'" and "get_mission (m_id m) d = Some m"
  shows "\<exists>m'. get_mission (m_id m) d' = Some m' \<and> m_recovery_count m' = m_recovery_count m + 1
    \<and> m_supervision_policy m' = m_supervision_policy m"
proof -
  define f where "f m = m\<lparr>m_recovery_count := m_recovery_count m + 1, m_status := MissionActive,
      m_supervision_status := Some SupervisionRecovering, m_supervision_exception := []\<rparr>"
    for m :: engineering_mission
  define g where "g m = m\<lparr>m_next_reconcile_at :=
      Some (now + seconds (policy_int (m_supervision_policy m) ''retry_backoff_seconds'' 30))\<rparr>"
    for m :: engineering_mission
  have keys: "m_id (f x) = m_id x" "m_id (g x) = m_id x" for x by (simp_all add: f_def g_def)
  obtain d3 where 3: "missions d3 = upd_row m_id (m_id m) f (missions d)"
    and d': "d' = append_mission_event now (m_id m) ''mission_auto_recovered'' ''mission-supervisor''
        ''Retryable checkpoint resumed within approved mission budget.''
        [(''task_id'', juuid (t_id t)), (''category'', JStr (failure_category (t_failure t)))]
        (upd_mission (m_id m) g (append_task_event now t ''task_auto_recovered''
           ''Mission supervisor resumed a retryable checkpoint.'' None
           [(''category'', JStr (failure_category (t_failure t))),
            (''recovery_count'', JInt (m_recovery_count m + 1))] d3))"
    using assms(1) missions_rearm
    unfolding recover_checkpoint_def Let_def f_def[symmetric] g_def[symmetric]
    by (elim ebindE) fastforce
  have 4: "missions d' = upd_row m_id (m_id m) g (missions d3)" by (simp add: d')
  show ?thesis
    using get_mission_upd[OF 4 keys(2), of "m_id m"] get_mission_upd[OF 3 keys(1), of "m_id m"] assms(2)
    by (auto simp: f_def g_def)
qed

lemma find_failed:
  assumes "List.find P (sort_key k xs) = Some x"
  shows "P x \<and> x \<in> set xs"
  using assms nth_mem[of _ "sort_key k xs"] by (auto simp: find_Some_iff)

lemma supervise_recovered:
  assumes "supervise now m d = Inr (Recovered, i, d')"
  obtains t where "i = Some (t_id t)" and "t \<in> set (tasks d)" and "t_status t = Failed"
    and "t_mission_id t = Some (m_id m)" and "recovery_allowed now m t"
    and "recover_checkpoint now m t d = Inr d'"
proof -
  obtain t where t: "List.find (\<lambda>t. t_status t = Failed) (sort_key t_created_at (mission_tasks (m_id m) d)) = Some t"
    "recovery_allowed now m t" "recover_checkpoint now m t d = Inr d'" "i = Some (t_id t)"
    using assms by (simp add: supervise_def Let_def ebind_Inr_iff split: if_split_asm option.splits)
  then have "t_status t = Failed \<and> t \<in> set (mission_tasks (m_id m) d)"
    using find_failed[OF t(1)] by simp
  then show ?thesis using t that by (auto simp: mission_tasks_def)
qed

text \<open>
  (C15) The supervisor resumes a checkpoint only within what the founder approved: the
  mission is approved and running, the checkpoint is, once expired leases are reaped, a failed
  task of it with attempts left, the failure is retryable, the deadline has not passed, and the recovery is counted
  so that the recoveries never exceed the approved number.
\<close>

theorem recovery_within_budget:
  assumes "get_mission (m_id m) d = Some m" and "reconcile_mission now m d = Inr (Recovered, i, d')"
  shows "m_supervision_status m \<in> {Some SupervisionActive, Some SupervisionRecovering}
    \<and> now < m_deadline_at m
    \<and> (\<exists>k n l d1. reap_expired_leases now d = Inr (k, n, l, d1)
         \<and> (\<exists>t \<in> set (tasks d1). i = Some (t_id t) \<and> t_status t = Failed
              \<and> t_mission_id t = Some (m_id m) \<and> t_attempt_count t < t_max_attempts t
              \<and> retryable_failure m t))
    \<and> (\<exists>m'. get_mission (m_id m) d' = Some m' \<and> m_recovery_count m' = m_recovery_count m + 1
         \<and> m_recovery_count m' \<le> policy_int (m_supervision_policy m) ''max_auto_recoveries'' 0)"
proof -
  obtain k n l d1 where r: "reap_expired_leases now d = Inr (k, n, l, d1)"
    using assms(2) by (auto simp: reconcile_mission_def ebind_Inr_iff split: if_split_asm)
  let ?d2 = "refresh_mission now (m_id m) d1"
  have "get_mission (m_id m) d1 = Some m" using assms(1) missions_reap[OF r] by (simp add: get_mission_def)
  from refresh_keeps[OF this, of now] obtain m2 where
    m2: "get_mission (m_id m) ?d2 = Some m2" "m_id m2 = m_id m"
    "m_recovery_count m2 = m_recovery_count m" "m_deadline_at m2 = m_deadline_at m"
    "m_supervision_policy m2 = m_supervision_policy m" by blast
  have st: "m_supervision_status m \<in> {Some SupervisionActive, Some SupervisionRecovering}"
    and s: "supervise now m2 ?d2 = Inr (Recovered, i, d')"
    using assms(2) r m2(1) by (auto simp: reconcile_mission_def Let_def split: if_split_asm)
  obtain t where t: "i = Some (t_id t)" "t \<in> set (tasks d1)" "t_status t = Failed"
    "t_mission_id t = Some (m_id m2)" "recovery_allowed now m2 t"
    and rc: "recover_checkpoint now m2 t ?d2 = Inr d'"
    by (rule supervise_recovered[OF s]) (simp add: refresh_tasks)
  have "retryable_failure m t = retryable_failure m2 t" by (simp add: retryable_failure_def m2)
  then show ?thesis
    using st t r recover_counts[OF rc] m2 by (auto simp: recovery_allowed_def)
qed

section \<open>A submitted mission is the signed plan\<close>

lemma submit_mission_Inr:
  assumes "submit_mission now secret m by sig d = Inr r"
  shows "sig = hmac_sha256_hex secret (canonical_manifest m) \<and> create_mission now m by sig d = Inr r"
  using assms unfolding submit_mission_def
  by (elim ebindE) (simp add: verify_mission_approval_def split: sum.splits exn.splits if_split_asm)

lemma plan_work_items_rows:
  assumes "efold (plan_work_item now m mission by) (zip [i..<i + length ws] ws) acc = Inr acc'"
  shows "\<exists>ts. tasks (snd acc') = tasks (snd acc) @ ts
    \<and> map t_milestone_step_id ts = map (\<lambda>w. Some (wi_id w)) ws
    \<and> list_all (\<lambda>t. t_mission_id t = Some (m_id mission) \<and> t_status t = Queued
         \<and> t_risk_level t = em_risk_level m) ts
    \<and> fst acc' = fst acc @ zip (map wi_id ws) (map t_id ts)
    \<and> dependencies (snd acc') = dependencies (snd acc)"
  using assms
proof (induction ws arbitrary: i acc)
  case Nil
  then show ?case by simp
next
  case (Cons w ws)
  let ?t = "engineering_task now m mission by i w (next_uuid (snd acc))"
  have z: "zip [i..<i + length (w # ws)] (w # ws) = (i, w) # zip [Suc i..<Suc i + length ws] ws"
    by (simp add: upt_conv_Cons del: upt_Suc)
  obtain acc1 where 1: "plan_work_item now m mission by (i, w) acc = Inr acc1"
    and 2: "efold (plan_work_item now m mission by) (zip [Suc i..<Suc i + length ws] ws) acc1 = Inr acc'"
    using Cons.prems unfolding z by (auto elim: ebindE)
  have a: "tasks (snd acc1) = tasks (snd acc) @ [?t]" "fst acc1 = fst acc @ [(wi_id w, t_id ?t)]"
    "dependencies (snd acc1) = dependencies (snd acc)"
    using 1 by (auto simp: plan_work_item_def Let_def case_prod_unfold split: if_split_asm)
  from Cons.IH[OF 2] obtain ts where "tasks (snd acc') = tasks (snd acc1) @ ts"
    "map t_milestone_step_id ts = map (\<lambda>w. Some (wi_id w)) ws"
    "list_all (\<lambda>t. t_mission_id t = Some (m_id mission) \<and> t_status t = Queued
         \<and> t_risk_level t = em_risk_level m) ts"
    "fst acc' = fst acc1 @ zip (map wi_id ws) (map t_id ts)"
    "dependencies (snd acc') = dependencies (snd acc1)" by blast
  then show ?case
    using a by (intro exI[of _ "?t # ts"]) (simp add: engineering_task_def Let_def)
qed

text \<open>The task that the plan made for a step, and the links that the plan declares.\<close>

definition step_task :: "task list \<Rightarrow> string \<Rightarrow> uuid option" where
  "step_task ts k = map_option t_id (find (\<lambda>t. t_milestone_step_id t = Some k) ts)"

definition declared_links :: "task list \<Rightarrow> (string \<times> string list) list \<Rightarrow> (uuid option \<times> uuid option) list" where
  "declared_links ts steps =
     concat (map (\<lambda>(key, deps). map (\<lambda>dep. (step_task ts key, step_task ts dep)) deps) steps)"

definition link_row :: "task_dependency \<Rightarrow> uuid option \<times> uuid option" where
  "link_row x = (Some (td_task_id x), Some (td_depends_on_task_id x))"

lemma map_of_step_task:
  assumes "map t_milestone_step_id ts = map (\<lambda>w. Some (wi_id w)) ws"
  shows "map_of (zip (map wi_id ws) (map t_id ts)) = step_task ts"
proof -
  have "length ts = length ws" using assms by (rule map_eq_imp_length_eq)
  then show ?thesis
    using assms by (induction ts ws rule: list_induct2) (auto simp: step_task_def fun_eq_iff)
qed

lemma link_steps_rows:
  assumes "link_steps now made (key, deps) d = Inr d'"
  shows "tasks d' = tasks d \<and> (\<exists>ds. dependencies d' = dependencies d @ ds
    \<and> map link_row ds = map (\<lambda>dep. (map_of made key, map_of made dep)) deps)"
  using assms[unfolded link_steps_def prod.case]
proof (induction deps arbitrary: d)
  case (Cons dep deps)
  from Cons.prems obtain i j where ij: "map_of made key = Some i" "map_of made dep = Some j"
    by (auto simp: ebind_def split: option.splits)
  have "efold (\<lambda>dep d. case map_of made key of None \<Rightarrow> Inl (KeyError dep)
      | Some i \<Rightarrow> (case map_of made dep of None \<Rightarrow> Inl (KeyError dep)
        | Some j \<Rightarrow> insert_dependency now i j d)) deps (add_dependency now i j d) = Inr d'"
    using Cons.prems ij by (auto elim!: ebindE dest!: insert_dependency_Inr)
  from Cons.IH[OF this] obtain ds where
    "tasks d' = tasks d" "dependencies d' = dependencies (add_dependency now i j d) @ ds"
    "map link_row ds = map (\<lambda>dep. (map_of made key, map_of made dep)) deps" by auto
  moreover have "link_row \<lparr>td_id = next_serial d, td_task_id = i, td_depends_on_task_id = j,
      td_created_at = now\<rparr> = (Some i, Some j)" by (simp add: link_row_def)
  ultimately show ?case using ij by (auto simp: add_dependency_def)
qed simp

lemma link_all_rows:
  assumes "efold (link_steps now made) steps d = Inr d'" and "map_of made = step_task ts"
  shows "tasks d' = tasks d \<and> (\<exists>ds. dependencies d' = dependencies d @ ds
    \<and> map link_row ds = declared_links ts steps)"
  using assms(1)
proof (induction steps arbitrary: d)
  case (Cons s steps)
  obtain key deps where s: "s = (key, deps)" by fastforce
  obtain d1 where 1: "link_steps now made (key, deps) d = Inr d1"
    and 2: "efold (link_steps now made) steps d1 = Inr d'" using Cons.prems s by (auto elim: ebindE)
  from link_steps_rows[OF 1] obtain ds where
    "tasks d1 = tasks d" "dependencies d1 = dependencies d @ ds"
    "map link_row ds = map (\<lambda>dep. (step_task ts key, step_task ts dep)) deps"
    using assms(2) by auto
  moreover from Cons.IH[OF 2] obtain es where
    "tasks d' = tasks d1" "dependencies d' = dependencies d1 @ es"
    "map link_row es = declared_links ts steps" by blast
  ultimately show ?case by (auto simp: s declared_links_def intro!: exI[of _ "ds @ es"])
qed (simp add: declared_links_def)



end
