(* ===== verification/Runtime.thy ===== *)
theory Runtime
  imports Missions
begin

text \<open>
  The worker-facing endpoints of \<open>routes/task_runtime.py\<close> (lease, start, heartbeat,
  complete, fail, release) and the operator's recovery endpoints of \<open>routes/tasks.py\<close>
  (rearm an approval, resume a failed task, reap leases), with the part of
  \<open>services/conversations.py\<close> that starting a founder request runs.

  Each handler is one transaction: it gives the committed database, or the exception that
  rolls it back. The lease token secret \<open>key\<close>, the random token and the time of the
  request are arguments. The response documents are left out. The message a finished graph
  task records satisfies the message schema because the schema of graphs puts the same
  patterns on node types and roles, so that check is not repeated here.
\<close>

section \<open>Conversations\<close>

definition conversation_event ::
  "time \<Rightarrow> founder_conversation \<Rightarrow> string \<Rightarrow> string \<Rightarrow> string option \<Rightarrow> dict \<Rightarrow> db \<Rightarrow> db" where
  "conversation_event now c event_type actor prior payload d =
     d\<lparr>conversation_events := conversation_events d @
         [\<lparr>cv_id = next_serial d, cv_conversation_id = fc_id c, cv_event_type = event_type,
           cv_actor = actor, cv_prior_status = prior, cv_resulting_status = fc_status c,
           cv_revision = fc_revision c, cv_payload = payload, cv_created_at = now\<rparr>],
       next_serial := Suc (next_serial d)\<rparr>"

definition planning_key :: "founder_conversation \<Rightarrow> string" where
  "planning_key c = ''conversation-planning:'' @ uuid_str (fc_id c) @ '':'' @ int_str (fc_revision c)"

text \<open>
  The notification is added without the once-only check of the other notifications, so a
  second start of the same revision violates the unique key.
\<close>

definition record_planning_started :: "time \<Rightarrow> task \<Rightarrow> db \<Rightarrow> db res" where
  "record_planning_started now t d =
     (case Option.bind (t_conversation_id t) (get_row fc_id (conversations d)) of
        None \<Rightarrow> Inr d
      | Some c \<Rightarrow>
          if t_conversation_revision t \<noteq> Some (fc_revision c) then Inr d
          else
            (let c' = c\<lparr>fc_status := ''planning''\<rparr>;
                 d1 = d\<lparr>conversations := upd_row fc_id (fc_id c)
                          (\<lambda>c. c\<lparr>fc_status := ''planning''\<rparr>) (conversations d)\<rparr>;
                 d2 = conversation_event now c' ''conversation_planning_started'' ''founder-planner''
                        (Some (fc_status c)) [(''task_id'', juuid (t_id t))] d1;
                 n = new_notification now ''conversation_planning'' (fc_id c) (planning_key c)
                       NotificationPending
                       [(''conversation_id'', juuid (fc_id c)), (''short_id'', JStr (fc_short_id c)),
                        (''title'', JStr (fc_title c)), (''revision'', JInt (fc_revision c)),
                        (''task_id'', juuid (t_id t))]
             in if planning_key c \<in> fn_deduplication_key ` set (notifications d)
                then Inl IntegrityError else Inr (snd (insert_once n d2))))"

section \<open>Helpers of the handlers\<close>

definition task_graph_of :: "task \<Rightarrow> db \<Rightarrow> (task_graph_node \<times> task_graph) option" where
  "task_graph_of t d =
     Option.bind (t_task_graph_node_id t) (\<lambda>i.
       Option.bind (get_node i d) (\<lambda>n.
         map_option (\<lambda>g. (n, g)) (get_graph (n_graph_id n) d)))"

definition reconcile_task_graph :: "time \<Rightarrow> task \<Rightarrow> db \<Rightarrow> db res" where
  "reconcile_task_graph now t d =
     (case task_graph_of t d of
        None \<Rightarrow> Inr d
      | Some (n, g) \<Rightarrow> ebind (reconcile_graph now g d) (\<lambda>(_, _, d'). Inr d'))"

definition record_graph_task_message :: "time \<Rightarrow> task \<Rightarrow> bool \<Rightarrow> db \<Rightarrow> db res" where
  "record_graph_task_message now t succeeded d =
     (case task_graph_of t d of
        None \<Rightarrow> Inr d
      | Some (n, g) \<Rightarrow>
          append_message now g
            \<lparr>mc_node_key = Some (n_node_key n),
             mc_message_type = (if succeeded then n_output_type n else ''failure.report''),
             mc_sender = n_role n, mc_recipient = ''task-graph-controller'',
             mc_payload = (if succeeded then t_result t else t_failure t)\<rparr> d)"

definition append_terminal_event ::
  "time \<Rightarrow> task \<Rightarrow> string \<Rightarrow> string \<Rightarrow> uuid \<Rightarrow> dict \<Rightarrow> db \<Rightarrow> db" where
  "append_terminal_event now t event_type message agent_id payload d =
     (let (discarded, d1) = discard_working_memory now (t_id t) d
      in append_task_event now t event_type message (Some agent_id)
           (dict_set payload ''working_memory_discarded'' (JInt (int discarded))) d1)"

definition refresh_task_mission :: "time \<Rightarrow> task \<Rightarrow> db \<Rightarrow> db" where
  "refresh_task_mission now t d =
     (case t_mission_id t of None \<Rightarrow> d | Some i \<Rightarrow> refresh_mission now i d)"

text \<open>The task a handler acts on: the locked row, once the caller's lease of it is verified.\<close>

definition held_task ::
  "string \<Rightarrow> time \<Rightarrow> agent \<Rightarrow> uuid \<Rightarrow> string \<Rightarrow> task_status list \<Rightarrow> db \<Rightarrow> task res" where
  "held_task key now ag i token allowed d =
     ebind (lock_task i d) (\<lambda>t. ebind (verify_task_lease key t ag token allowed now) (\<lambda>_. Inr t))"

section \<open>Leasing\<close>

datatype lease_response =
    LeasePaused "string list"
  | NoTask
  | TaskLeased task string dict

definition valid_lease_seconds :: "int \<Rightarrow> bool" where
  "valid_lease_seconds n = (60 \<le> n \<and> n \<le> 1800)"

definition pause_reason :: "control_scope \<Rightarrow> string" where
  "pause_reason s =
     (case cs_reason s of None \<Rightarrow> ''Paused by operator.''
      | Some r \<Rightarrow> if r = '''' then ''Paused by operator.'' else r)"

definition lease_task ::
  "time \<Rightarrow> agent \<Rightarrow> int \<Rightarrow> generated_token \<Rightarrow> db \<Rightarrow> (lease_response \<times> db) res" where
  "lease_task now ag lease_seconds tok d =
     (let paused = matching_control_scopes ag d in
      if paused \<noteq> [] then Inr (LeasePaused (map pause_reason paused), d)
      else
        ebind (reap_expired_leases now d) (\<lambda>(_, _, _, d1).
          ebind (lease_next_task now ag lease_seconds tok d1) (\<lambda>(choice, d2).
            Inr (case choice of None \<Rightarrow> NoTask
                 | Some (t, token, prior) \<Rightarrow> TaskLeased t token prior, d2))))"

section \<open>Running\<close>

definition start_task ::
  "string \<Rightarrow> time \<Rightarrow> agent \<Rightarrow> uuid \<Rightarrow> string \<Rightarrow> string \<Rightarrow> db \<Rightarrow> db res" where
  "start_task key now ag i token message d =
     ebind (held_task key now ag i token [Leased] d) (\<lambda>t.
       (let d1 = upd_task i (\<lambda>t. t\<lparr>t_status := Running\<rparr>) d in
        ebind (if t_task_type t = ''founder_request'' then record_planning_started now t d1
               else Inr d1) (\<lambda>d2.
          Inr (append_task_event now t ''task_started'' message (Some (a_id ag)) []
                 (upd_task i
                    (\<lambda>t. t\<lparr>t_started_at := (case t_started_at t of None \<Rightarrow> Some now | Some s \<Rightarrow> Some s),
                           t_last_execution_heartbeat_at := Some now\<rparr>) d2)))))"

definition heartbeat_task ::
  "string \<Rightarrow> time \<Rightarrow> agent \<Rightarrow> uuid \<Rightarrow> string \<Rightarrow> int \<Rightarrow> string \<Rightarrow> dict \<Rightarrow> db \<Rightarrow> db res" where
  "heartbeat_task key now ag i token lease_seconds message progress d =
     ebind (held_task key now ag i token [Leased, Running] d) (\<lambda>t.
       (let expires = now + seconds lease_seconds
        in Inr (append_task_event now t ''task_heartbeat'' message (Some (a_id ag))
                  [(''progress'', JObj progress), (''lease_expires_at'', jtime expires)]
                  (upd_task i (\<lambda>t. t\<lparr>t_last_execution_heartbeat_at := Some now,
                                     t_lease_expires_at := Some expires\<rparr>) d))))"

definition complete_task ::
  "string \<Rightarrow> time \<Rightarrow> agent \<Rightarrow> uuid \<Rightarrow> string \<Rightarrow> string \<Rightarrow> dict \<Rightarrow> db \<Rightarrow> db res" where
  "complete_task key now ag i token message result d =
     ebind (held_task key now ag i token [Running] d) (\<lambda>t.
       if t_cancel_requested_at t \<noteq> None
       then http 409 ''Task graph cancellation is pending; completion is no longer accepted.''
       else
         ebind (complete_strategy_review_task now t ag result d) (\<lambda>d1.
           (let d2 = upd_task i (\<lambda>t. t\<lparr>t_status := Succeeded, t_result := result, t_failure := [],
                                      t_completed_at := Some now\<rparr>) d1;
                d3 = append_terminal_event now t ''task_completed'' message (a_id ag)
                       [(''result'', JObj result)] d2
            in ebind (record_graph_task_message now (t\<lparr>t_result := result\<rparr>) True d3) (\<lambda>d4.
                 reconcile_task_graph now t
                   (refresh_task_mission now t (upd_task i clear_lease d4))))))"

section \<open>Failing and releasing\<close>

definition mission_supervised :: "task \<Rightarrow> db \<Rightarrow> bool" where
  "mission_supervised t d =
     (case Option.bind (t_mission_id t) (\<lambda>i. get_mission i d) of
        None \<Rightarrow> False | Some m \<Rightarrow> m_supervision_enabled m)"

definition requeue_failed :: "time \<Rightarrow> task \<Rightarrow> db \<Rightarrow> db res" where
  "requeue_failed now t d =
     ebind (if t_approval_required t
            then rearm_task_approval now t ''Retryable execution failure requires renewed approval.'' d
            else Inr (upd_task (t_id t) (\<lambda>t. t\<lparr>t_status := Queued\<rparr>) d))
       (\<lambda>d1. Inr (append_task_event now t ''task_requeued''
          (if t_approval_required t
           then ''Task returned for renewed approval after retryable failure.''
           else ''Task requeued after retryable failure.'')
          (t_assigned_agent_id t) [(''approval_required'', JBool (t_approval_required t))] d1))"

definition fail_task ::
  "string \<Rightarrow> time \<Rightarrow> agent \<Rightarrow> uuid \<Rightarrow> string \<Rightarrow> string \<Rightarrow> dict \<Rightarrow> bool \<Rightarrow> db \<Rightarrow> db res" where
  "fail_task key now ag i token message failure retryable d =
     ebind (held_task key now ag i token [Leased, Running] d) (\<lambda>t.
       (let failure_payload = dict_set failure ''retryable'' (JBool retryable);
            d1 = upd_task i (\<lambda>t. t\<lparr>t_failure := failure_payload\<rparr>) d;
            d2 = append_terminal_event now t ''task_failed'' message (a_id ag) failure_payload d1
        in ebind (if retryable \<and> t_attempt_count t < t_max_attempts t \<and> \<not> mission_supervised t d2
                  then requeue_failed now t d2
                  else Inr (upd_task i (\<lambda>t. t\<lparr>t_status := Failed, t_completed_at := Some now\<rparr>) d2))
             (\<lambda>d3. ebind (record_graph_task_message now (t\<lparr>t_failure := failure_payload\<rparr>) False d3)
               (\<lambda>d4. reconcile_task_graph now t
                  (refresh_task_mission now t (upd_task i clear_lease d4))))))"

definition released_attempts :: "task \<Rightarrow> int" where
  "released_attempts t =
     (if t_status t = Running then t_attempt_count t else max 0 (t_attempt_count t - 1))"

definition released_status :: "task \<Rightarrow> task_status" where
  "released_status t =
     (if t_cancel_requested_at t \<noteq> None then Cancelled
      else if released_attempts t < t_max_attempts t then Queued else Failed)"

definition release_failure :: dict where
  "release_failure =
     [(''reason'', JStr ''lease_released''),
      (''message'', JStr ''Maximum attempts reached when lease was released.'')]"

text \<open>The assignments of \<open>release_task\<close> to the row, its attempt count included.\<close>

definition released_row :: "time \<Rightarrow> task \<Rightarrow> task" where
  "released_row now t =
     t\<lparr>t_status := released_status t, t_attempt_count := released_attempts t,
       t_completed_at := (if released_status t = Queued then t_completed_at t else Some now),
       t_failure := (if released_status t = Failed then release_failure else t_failure t)\<rparr>"

definition requeue_released :: "time \<Rightarrow> agent \<Rightarrow> task \<Rightarrow> db \<Rightarrow> db res" where
  "requeue_released now ag t d =
     (if t_status t = Queued
      then ebind (rearm_task_approval now t ''A new approval is required after lease release.'' d)
             (\<lambda>d1. Inr (append_task_event now t ''task_requeued''
                ''Task requeued after lease release.'' (Some (a_id ag)) [] d1))
      else Inr d)"

definition release_task ::
  "string \<Rightarrow> time \<Rightarrow> agent \<Rightarrow> uuid \<Rightarrow> string \<Rightarrow> string \<Rightarrow> db \<Rightarrow> db res" where
  "release_task key now ag i token message d =
     ebind (held_task key now ag i token [Leased, Running] d) (\<lambda>t.
       (let t' = released_row now t;
            d1 = upd_task i (released_row now) d;
            d2 = append_terminal_event now t ''task_released'' message (a_id ag)
                   [(''previous_status'', JStr (task_status_str (t_status t))),
                    (''resulting_status'', JStr (task_status_str (t_status t'))),
                    (''leased_attempt_number'', JInt (t_attempt_count t)),
                    (''attempt_consumed'', JBool (t_status t = Running))] d1
        in ebind (requeue_released now ag t' d2) (\<lambda>d3.
             reconcile_task_graph now t (upd_task i clear_lease d3))))"

section \<open>Operator recovery (routes/tasks.py)\<close>

text \<open>\<open>bounded_diagnostic_context\<close> of \<open>TaskResumeRequest\<close>.\<close>

definition bounded_diagnostic_context :: "dict \<Rightarrow> bool" where
  "bounded_diagnostic_context c = (length (dumps_sep '', '' '': '' (JObj c)) \<le> 16384)"

definition rearm_expired_task_approval ::
  "time \<Rightarrow> uuid \<Rightarrow> string \<Rightarrow> string \<Rightarrow> db \<Rightarrow> db res" where
  "rearm_expired_task_approval now i requested_by reason d =
     ebind (lock_task i d) (\<lambda>t.
       if t_status t \<notin> {PendingApproval, Queued} \<or> \<not> t_approval_required t
       then http 409
         ''Only an approval-gated task pending approval or stranded queued work can be rearmed.''
       else
         ebind (rearm_task_approval now t reason d) (\<lambda>d1.
           Inr (append_task_event now t ''task_approval_rearmed''
                  ''Expired task approval returned to review.'' None
                  [(''requested_by'', JStr requested_by), (''reason'', JStr reason)] d1)))"

definition resumed_row :: "dict \<Rightarrow> task \<Rightarrow> task" where
  "resumed_row ctx t =
     t\<lparr>t_max_attempts := max (t_max_attempts t) (t_attempt_count t + 1), t_completed_at := None,
       t_result := [],
       t_failure := (if ctx \<noteq> [] then dict_set (t_failure t) ''operator_retry_context'' (JObj ctx)
                     else t_failure t)\<rparr>"

definition resume_failed_task ::
  "time \<Rightarrow> uuid \<Rightarrow> string \<Rightarrow> string \<Rightarrow> dict \<Rightarrow> db \<Rightarrow> db res" where
  "resume_failed_task now i requested_by reason ctx d =
     ebind (lock_task i d) (\<lambda>t.
       if t_status t \<noteq> Failed then http 409 ''Only a failed task can be resumed.''
       else
         ebind (rearm_task_approval now (resumed_row ctx t) reason (upd_task i (resumed_row ctx) d))
           (\<lambda>d1.
             Inr (refresh_task_mission now t
                    (append_task_event now t ''task_resumed''
                       ''Failed task checkpoint resumed by operator.'' None
                       [(''requested_by'', JStr requested_by), (''reason'', JStr reason),
                        (''previous_attempts'', JInt (t_attempt_count t)),
                        (''next_attempt'', JInt (t_attempt_count t + 1)),
                        (''diagnostic_context'', JObj ctx)] d1))))"

definition reap_task_leases :: "time \<Rightarrow> db \<Rightarrow> (nat \<times> nat \<times> nat \<times> db) res" where
  "reap_task_leases now d = reap_expired_leases now d"

section \<open>The handlers keep the invariants\<close>

lemma held_task_Inr:
  assumes "held_task key now ag i token allowed d = Inr t"
  shows "get_task i d = Some t \<and> t_id t = i \<and> t \<in> set (tasks d)
    \<and> verify_task_lease key t ag token allowed now = Inr now"
  using assms get_task_in[of i d]
  by (auto simp: held_task_def lock_task_def verify_task_lease_Inr elim!: ebindE split: option.splits)

lemma safe_upd_held:
  assumes "safe d" and "get_task i d = Some t" and "\<And>u. t_id (f u) = t_id u"
    and "t_approval_required (f t) = t_approval_required t" and "t_plan_digest (f t) = t_plan_digest t"
    and "active (f t) \<longrightarrow> active t" and "attempts_ok (f t)" and "lease_held (f t)"
  shows "safe (upd_task i f d)"
proof -
  have k: "keys_ok d" using assms(1) by (simp add: safe_def)
  have t: "t \<in> set (tasks d)" "t_id t = i" using get_task_in[OF assms(2)] by auto
  have "u = t" if "u \<in> set (tasks d)" "t_id u = i" for u using same_task[OF k] that t by metis
  moreover have "gated d (f t)"
    using safe_task(1)[OF assms(1) t(1)] assms(3-6) by (auto simp: gated_def split: option.splits)
  ultimately have "list_all (\<lambda>u. gated d u \<and> attempts_ok u \<and> lease_held u) (tasks (upd_task i f d))"
    using assms(7,8) safe_task[OF assms(1)] by (auto simp: upd_task_def upd_row_def list_all_iff)
  then show ?thesis using k assms(3) by (simp add: safe_def keys_ok_upd_task)
qed

lemma safe_conversation_event [simp]: "safe (conversation_event now c e a p pl d) = safe d"
  by (rule safe_core) (simp_all add: conversation_event_def)

lemma safe_conversations [simp]: "safe (d\<lparr>conversations := cs\<rparr>) = safe d"
  by (rule safe_core) simp_all

lemma safe_record_planning:
  "safe d \<Longrightarrow> record_planning_started now t d = Inr d' \<Longrightarrow> safe d'"
  by (auto simp: record_planning_started_def Let_def intro!: safe_insert_once
      split: option.splits if_split_asm)

lemma safe_terminal_event [simp]: "safe (append_terminal_event now t e m a p d) = safe d"
  by (simp add: append_terminal_event_def Let_def case_prod_unfold)

lemma safe_refresh_task_mission [simp]: "safe (refresh_task_mission now t d) = safe d"
  by (simp add: refresh_task_mission_def split: option.split)

lemma safe_reconcile_task_graph:
  "safe d \<Longrightarrow> reconcile_task_graph now t d = Inr d' \<Longrightarrow> safe d'"
  by (auto simp: reconcile_task_graph_def elim!: ebindE dest: safe_reconcile_graph split: option.splits)

lemma safe_record_message:
  "safe d \<Longrightarrow> record_graph_task_message now t b d = Inr d' \<Longrightarrow> safe d'"
  by (auto simp: record_graph_task_message_def dest: safe_append_message split: option.splits)

lemma message_tables:
  assumes "record_graph_task_message now t b d = Inr d'"
  shows "tasks d' = tasks d"
  using assms
  by (auto simp: record_graph_task_message_def append_message_def Let_def append_graph_event_def
      elim!: ebindE split: option.splits if_split_asm)

lemma terminal_tables [simp]: "tasks (append_terminal_event now t e m a p d) = tasks d"
  by (simp add: append_terminal_event_def Let_def case_prod_unfold discard_working_memory_def)

text \<open>The end of complete, fail and release: the lease is cleared and the graph follows.\<close>

lemma safe_finish:
  assumes "safe d" and "inactive i d"
    and "reconcile_task_graph now t (refresh_task_mission now t' (upd_task i clear_lease d)) = Inr d'"
  shows "safe d'"
  by (rule safe_reconcile_task_graph[OF _ assms(3)]) (simp add: safe_clear_lease assms(1,2))

lemma safe_finish_message:
  assumes "safe d" and "inactive i d" and "record_graph_task_message now t b d = Inr d1"
    and "reconcile_task_graph now u (refresh_task_mission now u (upd_task i clear_lease d1)) = Inr d'"
  shows "safe d'"
  using safe_finish[OF safe_record_message[OF assms(1,3)] _ assms(4)] assms(2) message_tables[OF assms(3)]
  by (simp add: inactive_def)

lemma route_frames [simp]:
  "tasks (append_route_event x d) = tasks d" "approvals (append_route_event x d) = approvals d"
  "next_uuid (append_route_event x d) = next_uuid d"
  "tasks (upd_route i f d) = tasks d" "approvals (upd_route i f d) = approvals d"
  "next_uuid (upd_route i f d) = next_uuid d"
  "tasks (upd_assignment i h d) = tasks d" "approvals (upd_assignment i h d) = approvals d"
  "next_uuid (upd_assignment i h d) = next_uuid d"
  by (simp_all add: append_route_event_def upd_route_def upd_assignment_def Let_def case_prod_unfold)

lemma issue_receipt_tables:
  assumes "issue_receipt now r as d = Inr d'"
  shows "tasks d' = tasks d \<and> approvals d' = approvals d \<and> next_uuid d \<le> next_uuid d'"
  using assms unfolding issue_receipt_def Let_def
  by (auto elim!: ebindE split: if_split_asm)

lemma complete_assignment_tables:
  assumes "complete_assignment now r a q d = Inr d'"
  shows "tasks d' = tasks d \<and> approvals d' = approvals d \<and> next_uuid d \<le> next_uuid d'"
  using assms unfolding complete_assignment_def Let_def
  by (auto elim!: ebindE dest!: issue_receipt_tables split: if_split_asm option.splits)

lemma review_tables:
  assumes "complete_strategy_review_task now t ag result d = Inr d'"
  shows "tasks d' = tasks d \<and> approvals d' = approvals d \<and> next_uuid d \<le> next_uuid d'"
proof (cases "d' = d")
  case False
  then obtain r a q where "complete_assignment now r a q d = Inr d'"
    using assms by (auto simp: complete_strategy_review_task_def Let_def
        split: if_split_asm option.splits prod.splits)
  then show ?thesis by (rule complete_assignment_tables)
qed simp

lemma active_simps [simp]:
  "active (t\<lparr>t_status := s\<rparr>) = active_lease_status s"
  by (simp add: active_def)

lemma safe_start_task:
  assumes "safe d" and "start_task key now ag i token message d = Inr d'"
  shows "safe d'"
  using assms(2) unfolding start_task_def Let_def
proof (elim ebindE)
  fix t d2
  let ?d1 = "upd_task i (\<lambda>t. t\<lparr>t_status := Running\<rparr>) d"
  let ?beat = "\<lambda>t. t\<lparr>t_started_at := (case t_started_at t of None \<Rightarrow> Some now | Some s \<Rightarrow> Some s),
      t_last_execution_heartbeat_at := Some now\<rparr>"
  assume h: "held_task key now ag i token [Leased] d = Inr t"
    and p: "(if t_task_type t = ''founder_request'' then record_planning_started now t ?d1
        else Inr ?d1) = Inr d2"
    and e: "Inr (append_task_event now t ''task_started'' message (Some (a_id ag)) [] (upd_task i ?beat d2)) = Inr d'"
  note t = held_task_Inr[OF h]
  have "t_status t = Leased" using t by (simp add: verify_task_lease_Inr)
  then have "safe ?d1"
    using t safe_task[OF assms(1), of t]
    by (intro safe_upd_held[OF assms(1), of i t])
       (auto simp: active_def active_lease_status_def attempts_ok_def lease_held_def)
  then have "safe d2" using p by (auto dest: safe_record_planning split: if_split_asm)
  moreover have "harmless ?beat"
    by (simp add: harmless_def active_def attempts_ok_def lease_held_def)
  ultimately show "safe d'" using e by (auto intro: safe_upd_task)
qed

lemma safe_heartbeat_task:
  assumes "safe d" and "heartbeat_task key now ag i token secs message progress d = Inr d'"
  shows "safe d'"
proof -
  have "safe (upd_task i (\<lambda>t. t\<lparr>t_last_execution_heartbeat_at := Some now, t_lease_expires_at := Some e\<rparr>) d)" for e
    by (rule safe_upd_task[OF _ assms(1)]) (simp add: harmless_def active_def attempts_ok_def lease_held_def)
  then show ?thesis
    using assms(2) unfolding heartbeat_task_def Let_def by (elim ebindE) auto
qed

lemma safe_lease_task:
  assumes "safe d" and "lease_task now ag secs tok d = Inr (r, d')"
  shows "safe d'"
proof (cases "d' = d")
  case False
  then show ?thesis
    using assms(2) safe_reap_expired_leases[OF assms(1)] safe_lease_next_task
    unfolding lease_task_def Let_def
    by (auto elim!: ebindE split: if_split_asm) blast
qed (use assms(1) in simp)

lemma inactive_terminal [simp]: "inactive i (append_terminal_event now t e m a p d) = inactive i d"
  by (rule inactive_cong) simp

lemma not_active_end [simp]:
  "\<not> active_lease_status Succeeded" "\<not> active_lease_status Failed" "\<not> active_lease_status Queued"
  "\<not> active_lease_status Cancelled" "\<not> active_lease_status PendingApproval"
  by (simp_all add: active_lease_status_def)

lemma safe_complete_task:
  assumes "safe d" and "complete_task key now ag i token message result d = Inr d'"
  shows "safe d'"
proof -
  let ?row = "\<lambda>t. t\<lparr>t_status := Succeeded, t_result := result, t_failure := [],
      t_completed_at := Some now\<rparr> :: task"
  obtain t d1 d4 where c: "complete_strategy_review_task now t ag result d = Inr d1"
    and m: "record_graph_task_message now (t\<lparr>t_result := result\<rparr>) True
      (append_terminal_event now t ''task_completed'' message (a_id ag) [(''result'', JObj result)]
        (upd_task i ?row d1)) = Inr d4"
    and r: "reconcile_task_graph now t (refresh_task_mission now t (upd_task i clear_lease d4)) = Inr d'"
    using assms(2) unfolding complete_task_def Let_def
    by (elim ebindE) (simp split: if_split_asm, elim ebindE, blast)
  have "safe d1" using review_tables[OF c] safe_tables[OF assms(1)] by blast
  then have "safe (upd_task i ?row d1)"
    by (rule safe_upd_task[rotated]) (simp add: harmless_def active_def attempts_ok_def lease_held_def)
  moreover have "inactive i (upd_task i ?row d1)" by (rule inactive_set) (simp_all add: active_def)
  ultimately show ?thesis by (intro safe_finish_message[OF _ _ m r]) simp_all
qed

lemma inactive_requeue_failed:
  "requeue_failed now t d = Inr d' \<Longrightarrow> inactive (t_id t) d'"
  by (auto simp: requeue_failed_def elim!: ebindE intro: inactive_rearm split: if_split_asm intro!: inactive_set)

lemma safe_requeue_failed:
  "safe d \<Longrightarrow> requeue_failed now t d = Inr d' \<Longrightarrow> safe d'"
  by (auto simp: requeue_failed_def elim!: ebindE intro: safe_rearm
      intro!: safe_upd_task harmless_status split: if_split_asm)

lemma safe_fail_task:
  assumes "safe d" and "fail_task key now ag i token message failure retryable d = Inr d'"
  shows "safe d'"
proof -
  let ?pl = "dict_set failure ''retryable'' (JBool retryable)"
  let ?d1 = "upd_task i (\<lambda>t. t\<lparr>t_failure := ?pl\<rparr>) d"
  let ?failed_row = "\<lambda>t. t\<lparr>t_status := Failed, t_completed_at := Some now\<rparr> :: task"
  obtain t d2 d3 d4 where h: "held_task key now ag i token [Leased, Running] d = Inr t"
    and d2: "d2 = append_terminal_event now t ''task_failed'' message (a_id ag) ?pl ?d1"
    and q: "(if retryable \<and> t_attempt_count t < t_max_attempts t \<and> \<not> mission_supervised t d2
        then requeue_failed now t d2 else Inr (upd_task i ?failed_row d2)) = Inr d3"
    and m: "record_graph_task_message now (t\<lparr>t_failure := ?pl\<rparr>) False d3 = Inr d4"
    and r: "reconcile_task_graph now t (refresh_task_mission now t (upd_task i clear_lease d4)) = Inr d'"
    using assms(2) unfolding fail_task_def Let_def by (elim ebindE) blast
  have "safe ?d1"
    by (rule safe_upd_task[OF _ assms(1)]) (simp add: harmless_def active_def attempts_ok_def lease_held_def)
  then have s2: "safe d2" by (simp add: d2)
  have "t_id t = i" using held_task_Inr[OF h] by simp
  moreover have "harmless ?failed_row" by (simp add: harmless_def active_def attempts_ok_def lease_held_def)
  ultimately have "safe d3 \<and> inactive i d3"
    using q s2 safe_requeue_failed[OF s2] inactive_requeue_failed[of now t d2]
    by (auto intro: safe_upd_task inactive_set simp: active_def split: if_split_asm)
  then show ?thesis by (intro safe_finish_message[OF _ _ m r]) simp_all
qed

lemma released_row_simps [simp]:
  "t_id (released_row now t) = t_id t" "t_status (released_row now t) = released_status t"
  "t_attempt_count (released_row now t) = released_attempts t"
  by (simp_all add: released_row_def)

lemma released_inactive: "\<not> active (released_row now t)"
  by (simp add: active_def released_status_def)

lemma harmless_release: "harmless (released_row now)"
  using released_inactive
  by (auto simp: harmless_def released_row_def released_attempts_def attempts_ok_def lease_held_def active_def)

lemma safe_requeue_released:
  assumes "safe d" and "inactive (t_id t) d" and "requeue_released now ag t d = Inr d'"
  shows "safe d' \<and> inactive (t_id t) d'"
  using assms inactive_rearm safe_rearm[OF assms(1)]
  by (auto simp: requeue_released_def elim!: ebindE split: if_split_asm)

lemma safe_release_task:
  assumes "safe d" and "release_task key now ag i token message d = Inr d'"
  shows "safe d'"
proof -
  obtain t d2 d3 where h: "held_task key now ag i token [Leased, Running] d = Inr t"
    and d2: "safe d2 = safe (upd_task i (released_row now) d)"
      "inactive i d2 = inactive i (upd_task i (released_row now) d)"
    and q: "requeue_released now ag (released_row now t) d2 = Inr d3"
    and r: "reconcile_task_graph now t (upd_task i clear_lease d3) = Inr d'"
    using assms(2) unfolding release_task_def Let_def
    by (elim ebindE) (metis safe_terminal_event inactive_terminal)
  have "t_id (released_row now t) = i" using held_task_Inr[OF h] by simp
  moreover have "safe d2" "inactive i d2"
    using assms(1) safe_upd_task[OF harmless_release] inactive_set[of "released_row now"] released_inactive
    by (simp_all add: d2)
  ultimately have "safe d3" "inactive i d3" using safe_requeue_released[OF _ _ q] by auto
  then show ?thesis using safe_clear_lease safe_reconcile_task_graph[OF _ r] by blast
qed

lemma safe_rearm_expired_task_approval:
  assumes "safe d" and "rearm_expired_task_approval now i by reason d = Inr d'"
  shows "safe d'"
  using assms safe_rearm[OF assms(1)]
  by (auto simp: rearm_expired_task_approval_def elim!: ebindE split: if_split_asm)

lemma harmless_resume: "harmless (resumed_row ctx)"
  by (auto simp: harmless_def resumed_row_def active_def attempts_ok_def lease_held_def)

lemma safe_resume_failed_task:
  assumes "safe d" and "resume_failed_task now i by reason ctx d = Inr d'"
  shows "safe d'"
  using assms(2) safe_rearm[OF safe_upd_task[OF harmless_resume assms(1)]]
  by (auto simp: resume_failed_task_def elim!: ebindE split: if_split_asm)

section \<open>Only the holder of a lease acts on a task\<close>

text \<open>The agent holds an unexpired lease of the task in one of the states, and shows its token.\<close>

definition holds_lease ::
  "string \<Rightarrow> time \<Rightarrow> agent \<Rightarrow> string \<Rightarrow> task_status list \<Rightarrow> task \<Rightarrow> bool" where
  "holds_lease key now ag token states t =
     (t_status t \<in> set states \<and> t_assigned_agent_id t = Some (a_id ag)
      \<and> (case t_lease_expires_at t of None \<Rightarrow> False | Some e \<Rightarrow> now < e)
      \<and> extract_task_lease_token_prefix token \<noteq> None
      \<and> t_lease_token_prefix t = extract_task_lease_token_prefix token
      \<and> t_lease_token_digest t = Some (digest_task_lease_token key token))"

lemma held_task_iff:
  "held_task key now ag i token states d = Inr t \<longleftrightarrow>
     get_task i d = Some t \<and> holds_lease key now ag token states t"
  unfolding held_task_def
  by (auto simp: ebind_Inr_iff lock_task_def verify_task_lease_Inr holds_lease_def split: option.splits)

text \<open>
  (C8) Every worker call that changes a task is made by the agent that holds its lease: start
  needs the lease of a leased task, complete that of a running one that nobody has asked to
  cancel, and heartbeat, fail and release that of a leased or running one; otherwise the call
  raises and changes nothing.
\<close>

theorem runtime_requires_lease:
  "(\<forall>d'. start_task key now ag i token msg d = Inr d' \<longrightarrow>
      (\<exists>t. get_task i d = Some t \<and> holds_lease key now ag token [Leased] t))
   \<and> (\<forall>d'. heartbeat_task key now ag i token secs msg progress d = Inr d' \<longrightarrow>
      (\<exists>t. get_task i d = Some t \<and> holds_lease key now ag token [Leased, Running] t))
   \<and> (\<forall>d'. complete_task key now ag i token msg result d = Inr d' \<longrightarrow>
      (\<exists>t. get_task i d = Some t \<and> holds_lease key now ag token [Running] t
         \<and> t_cancel_requested_at t = None))
   \<and> (\<forall>d'. fail_task key now ag i token msg failure retryable d = Inr d' \<longrightarrow>
      (\<exists>t. get_task i d = Some t \<and> holds_lease key now ag token [Leased, Running] t))
   \<and> (\<forall>d'. release_task key now ag i token msg d = Inr d' \<longrightarrow>
      (\<exists>t. get_task i d = Some t \<and> holds_lease key now ag token [Leased, Running] t))"
  unfolding start_task_def heartbeat_task_def complete_task_def fail_task_def release_task_def
    ebind_Inr_iff held_task_iff
  by (auto split: if_split_asm)

section \<open>What a lease gives\<close>

lemma lease_next_task_rows:
  assumes "safe d" and "lease_next_task now ag secs tok d = Inr (Some (t', token, prior), d')"
  obtains t d1 where "safe d1" and "t \<in> set (tasks d1)" and "eligible now ag d1 t"
    and "t' = leased_row now ag secs tok t" and "token = gt_token tok"
    and "tasks d' = upd_row t_id (t_id t) (leased_row now ag secs tok) (tasks d1)"
    and "nodes d' = nodes d1" and "graphs d' = graphs d1"
proof -
  let ?d1 = "snd (expire_approvals now d)"
  obtain t sn d2 where t: "t \<in> set (tasks ?d1)" "eligible now ag ?d1 t"
    and d2: "tasks d2 = tasks ?d1" "approvals d2 = approvals ?d1" "next_uuid d2 = next_uuid ?d1"
      "graphs d2 = graphs ?d1" "nodes d2 = nodes ?d1"
    and g: "grant_lease now ag secs tok t sn d2 = Inr ((t', token, prior), d')"
    using lease_next_task_stages[OF assms(2) refl] by metis
  have s1: "safe ?d1" using assms(1) by (rule safe_expire_approvals)
  then have s2: "safe d2" by (rule safe_tables) (use d2 in simp_all)
  obtain d3 where d3: "consume_task_approval now t d2 = Inr d3"
      "tasks d' = tasks (upd_task (t_id t) (leased_row now ag secs tok) d3)"
      "graphs d' = graphs d3" "nodes d' = nodes d3"
    using grant_lease_tables[OF g] by blast
  have "tasks d3 = tasks d2 \<and> graphs d3 = graphs d2 \<and> nodes d3 = nodes d2"
    using consume_tables[OF d3(1)] by auto
  then show ?thesis
    using that[OF s1 t] grant_lease_tables[OF g] d3 d2 by (auto simp: upd_task_def)
qed

lemma lease_task_leased:
  assumes "safe d" and "lease_task now ag secs tok d = Inr (TaskLeased t' token prior, d')"
  obtains t d1 where "safe d1" and "t \<in> set (tasks d1)" and "eligible now ag d1 t"
    and "t' = leased_row now ag secs tok t" and "token = gt_token tok"
    and "tasks d' = upd_row t_id (t_id t) (leased_row now ag secs tok) (tasks d1)"
    and "nodes d' = nodes d1" and "graphs d' = graphs d1"
proof -
  obtain k n m d0 where r: "reap_expired_leases now d = Inr (k, n, m, d0)"
    and l: "lease_next_task now ag secs tok d0 = Inr (Some (t', token, prior), d')"
    using assms(2) unfolding lease_task_def Let_def
    by (auto elim!: ebindE split: if_split_asm option.splits)
  show ?thesis by (rule lease_next_task_rows[OF safe_reap_expired_leases[OF assms(1) r] l]) (rule that)
qed

text \<open>
  The one obstacle to starting a task. The notification that planning has begun has one
  deduplication key per conversation revision, so the planner's task of a founder request
  cannot be started a second time for the same revision: the insertion of the notification
  violates the unique key and the request fails.
\<close>

definition planning_announced :: "task \<Rightarrow> db \<Rightarrow> bool" where
  "planning_announced t d \<longleftrightarrow> t_task_type t = ''founder_request''
     \<and> (\<exists>c. Option.bind (t_conversation_id t) (get_row fc_id (conversations d)) = Some c
          \<and> t_conversation_revision t = Some (fc_revision c)
          \<and> planning_key c \<in> fn_deduplication_key ` set (notifications d))"

lemma record_planning_started_cases:
  assumes "t_task_type t = ''founder_request''" and "conversations d1 = conversations d"
    and "notifications d1 = notifications d"
  shows "planning_announced t d \<Longrightarrow> record_planning_started now t d1 = Inl IntegrityError"
    and "\<not> planning_announced t d \<Longrightarrow>
      \<exists>d2. record_planning_started now t d1 = Inr d2 \<and> tasks d2 = tasks d1"
  using assms
  by (auto simp: planning_announced_def record_planning_started_def Let_def insert_once_def
      conversation_event_def split: option.split)

lemma start_task_cases:
  assumes "held_task key now ag i token [Leased] d = Inr t" and "get_task i d = Some t"
  shows "if planning_announced t d then start_task key now ag i token msg d = Inl IntegrityError
    else \<exists>d' t'. start_task key now ag i token msg d = Inr d' \<and> get_task i d' = Some t'
      \<and> t_status t' = Running \<and> t_assigned_agent_id t' = t_assigned_agent_id t"
proof -
  let ?run = "\<lambda>t. t\<lparr>t_status := Running\<rparr>"
  let ?f = "\<lambda>t. t\<lparr>t_started_at := (case t_started_at t of None \<Rightarrow> Some now | Some s \<Rightarrow> Some s),
      t_last_execution_heartbeat_at := Some now\<rparr>"
  let ?d1 = "upd_task i ?run d"
  let ?plan = "if t_task_type t = ''founder_request'' then record_planning_started now t ?d1 else Inr ?d1"
  have start: "start_task key now ag i token msg d = ebind ?plan (\<lambda>d2.
      Inr (append_task_event now t ''task_started'' msg (Some (a_id ag)) [] (upd_task i ?f d2)))"
    using assms(1) by (simp add: start_task_def Let_def)
  show ?thesis
  proof (cases "planning_announced t d")
    case True
    then have "?plan = Inl IntegrityError"
      using record_planning_started_cases(1)[OF _ _ _ True, of ?d1 now]
      by (simp add: planning_announced_def upd_task_def)
    then show ?thesis using True unfolding start by simp
  next
    case False
    have "\<exists>d2. ?plan = Inr d2 \<and> tasks d2 = tasks ?d1"
    proof (cases "t_task_type t = ''founder_request''")
      case True
      then show ?thesis using record_planning_started_cases(2)[OF True, of ?d1 d now] False by (simp add: upd_task_def)
    qed simp
    then obtain d2 where d2: "?plan = Inr d2" "tasks d2 = tasks ?d1" by blast
    have keys: "\<And>u. t_id (?run u) = t_id u" "\<And>u. t_id (?f u) = t_id u" by simp_all
    have "get_task i d2 = Some (?run t)"
      using task_store.get_upd_Some[OF keys(1) assms(2)] d2(2) by (simp add: get_task_def)
    from task_store.get_upd_Some[OF keys(2) this] show ?thesis
      using False unfolding start d2(1) by (simp add: get_task_def)
  qed
qed

text \<open>
  (C12) What a worker is leased it can start. In a safe state, with a lease duration the
  handler accepts and a token of non-empty prefix (without underscore) and secret, a task
  that \<open>lease_task\<close> hands out is started by the same agent with the token it was given as long
  as the lease lasts, and is then running for that agent; the one exception is a founder
  request whose conversation revision has been announced as being planned before, where the
  start fails with an integrity error.
\<close>

theorem leased_task_starts:
  assumes "safe d" and "valid_lease_seconds secs"
    and "CHR ''_'' \<notin> set pfx" and "pfx \<noteq> []" and "secret \<noteq> []"
    and "lease_task now ag secs (create_task_lease_token key pfx secret) d
      = Inr (TaskLeased t token prior, d')"
    and "later < now + seconds secs"
  shows "if planning_announced t d'
    then start_task key later ag (t_id t) token msg d' = Inl IntegrityError
    else \<exists>d'' t''. start_task key later ag (t_id t) token msg d' = Inr d''
      \<and> get_task (t_id t) d'' = Some t'' \<and> t_status t'' = Running
      \<and> t_assigned_agent_id t'' = Some (a_id ag)"
proof -
  let ?tok = "create_task_lease_token key pfx secret"
  obtain u and d1 :: db where u: "u \<in> set (tasks d1)" "t = leased_row now ag secs ?tok u" "token = gt_token ?tok"
    "tasks d' = upd_row t_id (t_id u) (leased_row now ag secs ?tok) (tasks d1)"
    by (rule lease_task_leased[OF assms(1,6)]) blast
  have s: "safe d'" using safe_lease_task[OF assms(1,6)] .
  have "t \<in> set (tasks d')" using u by (auto simp: upd_row_def)
  then have get: "get_task (t_id t) d' = Some t" using keys_ok_get_task s by (simp add: safe_def)
  have "extract_task_lease_token_prefix token = Some pfx"
    using extract_prefix_token[of "''lt''"] assms(3-5) u(3)
    by (simp add: extract_task_lease_token_prefix_def create_task_lease_token_def Let_def)
  then have "holds_lease key later ag token [Leased] t"
    using u(2,3) assms(7)
    by (simp add: holds_lease_def leased_row_def create_task_lease_token_def Let_def)
  then have "held_task key later ag (t_id t) token [Leased] d' = Inr t"
    using get by (simp add: held_task_iff)
  moreover have "t_assigned_agent_id t = Some (a_id ag)" using u(2) by (simp add: leased_row_def)
  ultimately show ?thesis using start_task_cases[OF _ get] by metis
qed

lemma length_filter_upd_row:
  assumes "distinct (map key rows)"
  shows "length (filter P (upd_row key k f rows)) \<le> Suc (length (filter P rows))"
  using assms
proof (induction rows)
  case (Cons r rows)
  show ?case
  proof (cases "key r = k")
    case True
    then have "upd_row key k f rows = rows"
      using Cons.prems by (intro upd_row_None) (auto simp: get_row_None_iff)
    then show ?thesis using True by (simp add: upd_row_def)
  qed (use Cons in \<open>simp add: upd_row_def\<close>)
qed (simp add: upd_row_def)

text \<open>
  (C14) A graph never runs more tasks at once than it declares: when a task of a graph is
  leased the graph is active, and the tasks of the graph that hold a lease, the new one
  included, number at most its \<open>max_parallelism\<close>.
\<close>

theorem graph_parallelism_bound:
  assumes "safe d" and "lease_task now ag secs tok d = Inr (TaskLeased t token prior, d')"
    and "t_task_graph_node_id t = Some i"
  shows "\<exists>n g. get_node i d' = Some n \<and> get_graph (n_graph_id n) d' = Some g
    \<and> g_status g = GraphActive \<and> t \<in> set (active_graph_tasks (g_id g) d')
    \<and> int (length (active_graph_tasks (g_id g) d')) \<le> g_max_parallelism g"
proof -
  obtain u d1 where s: "safe d1" and u: "u \<in> set (tasks d1)" "eligible now ag d1 u"
    "t = leased_row now ag secs tok u"
    and tab: "tasks d' = upd_row t_id (t_id u) (leased_row now ag secs tok) (tasks d1)"
      "nodes d' = nodes d1" "graphs d' = graphs d1"
    by (rule lease_task_leased[OF assms(1,2)]) blast
  have "t_task_graph_node_id u = Some i" using u(3) assms(3) by simp
  then obtain n g where ng: "get_node i d1 = Some n" "get_graph (n_graph_id n) d1 = Some g"
    "g_status g = GraphActive" "int (length (active_graph_tasks (g_id g) d1)) < g_max_parallelism g"
    using u(2) by (auto simp: eligible_def graph_parallelism_available_def split: option.splits)
  have same: "get_node j d' = get_node j d1" "get_graph j d' = get_graph j d1" for j
    by (simp_all add: get_node_def get_graph_def tab)
  have gid: "g_id g = n_graph_id n" by (rule graph_store.get_key[OF ng(2)])
  have "length (active_graph_tasks (g_id g) d') \<le> Suc (length (active_graph_tasks (g_id g) d1))"
    unfolding active_graph_tasks_def tab same
    by (rule length_filter_upd_row) (use s in \<open>simp add: safe_def keys_ok_def\<close>)
  moreover have "t \<in> set (tasks d')" using u tab by (auto simp: upd_row_def)
  then have "t \<in> set (active_graph_tasks (g_id g) d')"
    using assms(3) ng(1) same gid u(3)
    by (simp add: active_graph_tasks_def leased_row_def active_lease_status_def)
  ultimately show ?thesis using ng same by auto
qed

section \<open>Operator pauses\<close>

text \<open>A call of the control endpoints, and the abstract view of a history of them: the last call wins.\<close>

record control_call =
  cc_at :: time
  cc_scope_type :: string
  cc_scope_key :: string
  cc_pause :: bool
  cc_reason :: string
  cc_actor :: string

definition run_control :: "control_call \<Rightarrow> db \<Rightarrow> db" where
  "run_control c d =
     snd (mutate_control (cc_at c) (cc_scope_type c) (cc_scope_key c) (cc_pause c) (cc_reason c)
            (cc_actor c) d)"

definition call_scope :: "control_call \<Rightarrow> string \<times> string" where
  "call_scope c =
     (cc_scope_type c, if cc_scope_type c = ''global'' then GLOBAL_SCOPE_KEY else cc_scope_key c)"

definition last_paused :: "string \<times> string \<Rightarrow> control_call list \<Rightarrow> bool" where
  "last_paused k calls =
     (let cs = filter (\<lambda>c. call_scope c = k) calls in cs \<noteq> [] \<and> cc_pause (last cs))"

lemma last_paused_snoc:
  "last_paused k (calls @ [c]) = (if call_scope c = k then cc_pause c else last_paused k calls)"
  by (simp add: last_paused_def Let_def)

lemma run_control_scopes:
  "scope_paused k (run_control c d) = (if call_scope c = k then cc_pause c else scope_paused k d)"
  "distinct (map scope_id (control_scopes d)) \<Longrightarrow>
   distinct (map scope_id (control_scopes (run_control c d)))"
  by (auto simp: run_control_def mutate_control_def call_scope_def intro: distinct_set_control_scope)

lemma history_scopes:
  assumes "control_scopes d = []"
  shows "distinct (map scope_id (control_scopes (fold run_control calls d)))"
    and "scope_paused k (fold run_control calls d) = last_paused k calls"
proof (induction calls rule: rev_induct)
  case Nil
  show "distinct (map scope_id (control_scopes (fold run_control [] d)))" using assms by simp
  show "scope_paused k (fold run_control [] d) = last_paused k []"
    using assms by (simp add: scope_paused_def last_paused_def)
next
  case (snoc c calls)
  show "distinct (map scope_id (control_scopes (fold run_control (calls @ [c]) d)))"
    using run_control_scopes(2)[OF snoc(1)] by simp
  show "scope_paused k (fold run_control (calls @ [c]) d) = last_paused k (calls @ [c])"
    using snoc(2) by (simp add: run_control_scopes(1) last_paused_snoc)
qed

lemma lease_task_paused:
  "(\<exists>rs. lease_task now ag secs tok d = Inr (LeasePaused rs, d)) \<longleftrightarrow> matching_control_scopes ag d \<noteq> []"
  by (auto simp: lease_task_def Let_def ebind_def split: sum.splits option.splits)

text \<open>
  (C10) The control endpoints implement pausing: after any history of pause and resume calls an
  agent is refused work, with the state unchanged, exactly when the last call on the global
  scope, on its machine or on the agent itself was a pause.
\<close>

theorem lease_refused_iff_paused:
  assumes "control_scopes d = []"
  shows "(\<exists>rs. lease_task now ag secs tok (fold run_control calls d)
           = Inr (LeasePaused rs, fold run_control calls d)) \<longleftrightarrow>
    last_paused (''global'', GLOBAL_SCOPE_KEY) calls \<or> last_paused (''machine'', a_machine ag) calls
    \<or> last_paused (''agent'', a_slug ag) calls"
  by (simp only: lease_task_paused matching_iff[OF history_scopes(1)[OF assms]] history_scopes(2)[OF assms])

end
