(* ===== verification/Witnesses.thy ===== *)
theory Witnesses
  imports Runtime
begin

text \<open>
  A small concrete installation, and for each property with hypotheses a run of the model on
  it: the hypotheses hold there and the property is applied. Digests stay symbolic.
\<close>

section \<open>A concrete installation\<close>

definition w_agent :: agent where
  "w_agent =
     \<lparr>a_id = 1, a_slug = ''codex'', a_display_name = ''Codex'', a_role = ''engineer'',
      a_machine = ''vm1'', a_hermes_profile = ''p'', a_runtime = Some ''codex'',
      a_runtime_version = Some ''1'', a_status = ''online'', a_capabilities = [''code''],
      a_heartbeat_metadata = [], a_risk_ceiling = 3, a_is_enabled = True,
      a_last_heartbeat_at = None, a_created_at = 0\<rparr>"

definition w_manifest :: charter_manifest where
  "w_manifest =
     \<lparr>cm_schema_version = ''1'', cm_role = ''engineer'', cm_responsibilities = [],
      cm_capabilities = [''code''], cm_allowed_machines = [''vm1''],
      cm_allowed_task_types = [''build''], cm_allowed_repositories = [''repo''],
      cm_risk_ceiling = 3, cm_accountable_owner = ''founder'', cm_conflicts = [],
      cm_forbidden_actions = []\<rparr>"

definition w_charter :: agent_charter where
  "w_charter =
     \<lparr>ch_id = 2, ch_agent_id = 1, ch_version = ''1'', ch_manifest = w_manifest,
      ch_manifest_digest = ''c'', ch_status = CharterActive, ch_created_by = ''founder'',
      ch_created_at = 0, ch_activated_by = Some ''founder'', ch_activated_at = Some 0,
      ch_supersedes_id = None\<rparr>"

definition w_package :: role_package where
  "w_package =
     \<lparr>rp_id = 3, rp_name = ''engineer'', rp_version = ''1'',
      rp_manifest = \<lparr>pm_required_capabilities = [''code''], pm_allowed_machines = [''vm1''],
        pm_task_types = [''build''], pm_risk_ceiling = 3, pm_repositories = [''repo'']\<rparr>,
      rp_manifest_digest = ''p'', rp_signature = ''s'', rp_source_repository = ''repo'',
      rp_source_commit = ''0'', rp_created_by = ''founder'', rp_created_at = 0\<rparr>"

definition w_deployment :: package_deployment where
  "w_deployment =
     \<lparr>pd_id = 4, pd_agent_id = 1, pd_package_id = 3, pd_is_active = True,
      pd_deployed_by = ''founder'', pd_deployed_at = 0, pd_revoked_at = None\<rparr>"

definition w_grant :: agent_capability_grant where
  "w_grant =
     \<lparr>gr_id = 5, gr_agent_id = 1, gr_charter_id = 2, gr_package_id = 3, gr_capability = ''code'',
      gr_machine = ''vm1'', gr_task_types = [''build''], gr_repositories = [''repo''],
      gr_risk_ceiling = 3, gr_accountable_owner = ''founder'', gr_status = GrantActive,
      gr_granted_by = ''operator'', gr_reason = ''work'', gr_expires_at = 1000000000000,
      gr_revoked_by = None, gr_revoked_at = None, gr_revocation_reason = None,
      gr_record_digest = ''g'', gr_created_at = 0\<rparr>"

text \<open>The installation with an authorised agent and no task.\<close>

definition w_world :: db where
  "w_world = empty_db\<lparr>next_uuid := 10, agents := [w_agent], charters := [w_charter],
     packages := [w_package], deployments := [w_deployment], grants := [w_grant]\<rparr>"

definition w_task :: task where
  "w_task =
     \<lparr>t_id = 6, t_task_number = ''T1'', t_project = ''repo'', t_task_type = ''build'',
      t_title = ''t'', t_objective = ''o'', t_status = Queued, t_priority = 50, t_risk_level = 2,
      t_assigned_agent_id = None, t_parent_task_id = None, t_conversation_id = None,
      t_conversation_revision = None, t_mission_id = None, t_milestone_step_id = None,
      t_task_graph_node_id = None, t_created_by = ''founder'', t_input_contract = [],
      t_expected_outputs = [], t_acceptance_criteria = [], t_approval_policy = [],
      t_approval_required = True, t_plan_digest = ''plan'', t_required_capabilities = [''code''],
      t_allowed_machines = [], t_max_attempts = 3, t_attempt_count = 0, t_leased_at = None,
      t_lease_expires_at = None, t_lease_token_prefix = None, t_lease_token_digest = None,
      t_last_execution_heartbeat_at = None, t_result = [], t_failure = [], t_created_at = 0,
      t_started_at = None, t_completed_at = None, t_cancel_requested_at = None,
      t_cancel_reason = None\<rparr>"

definition w_approval :: task_approval where
  "w_approval =
     \<lparr>ap_id = 7, ap_task_id = 6, ap_status = ApprovalApproved, ap_plan_digest = ''plan'',
      ap_risk_level = 2, ap_scope = [], ap_requested_by = ''founder'',
      ap_decided_by = Some ''founder'', ap_decision_reason = Some ''ok'', ap_nonce_digest = Some ''n'',
      ap_issued_at = Some 0, ap_expires_at = Some 1000000000, ap_consumed_at = None,
      ap_created_at = 0, ap_updated_at = 0\<rparr>"

text \<open>The installation with a task whose plan is approved.\<close>

definition w_ready :: db where
  "w_ready = w_world\<lparr>tasks := [w_task], approvals := [w_approval]\<rparr>"

definition w_token :: generated_token where
  "w_token = create_task_lease_token ''key'' ''abc'' ''secret''"

lemmas w_defs = w_agent_def w_manifest_def w_charter_def w_package_def w_deployment_def w_grant_def
  w_world_def empty_db_def

lemmas ready_defs = w_defs w_task_def w_approval_def w_ready_def

lemma w_ready_safe: "safe w_ready"
  by (simp add: safe_def keys_ok_def gated_def attempts_ok_def lease_held_def active_def
      active_lease_status_def approval_of_task_def ready_defs)

section \<open>Leasing\<close>

lemma w_authority:
  assumes "agents d = agents w_world" "charters d = charters w_world" "packages d = packages w_world"
    "deployments d = deployments w_world" "grants d = grants w_world"
    and "ar_capability q = ''code''" "ar_machine q = ''vm1''" "ar_task_type q = ''build''"
    "ar_repository q = Some ''repo''" "ar_risk_level q \<le> 3" "now < 1000000000000"
  shows "ef_allowed (resolve now 1 q d)"
  using assms
  by (simp add: resolve_def Let_def get_agent_def active_charter_def active_package_def active_grant_def
      resolve_reasons_def agent_mismatch_def charter_violation_def charter_prohibits_def
      package_violation_def grant_violation_def repository_outside_def w_defs)

lemma w_request:
  "authority_request w_task w_agent ''code'' = Some
     \<lparr>ar_capability = ''code'', ar_machine = ''vm1'', ar_task_type = ''build'',
      ar_repository = Some ''repo'', ar_risk_level = 2\<rparr>"
  by (simp add: authority_request_def task_repository_def dget_def dict_get_def w_task_def w_agent_def
      valid_authority_request_def safe_name_def safe_start_def)

lemma w_expire: "now < 1000000000 \<Longrightarrow> expire_approvals now w_ready = (0, w_ready)"
  by (simp add: expire_approvals_def approval_lapsed_def ready_defs)

lemma w_candidates: "candidates 1 w_agent w_ready = [w_task]"
  by (simp add: candidates_def eligible_def valid_approval_def graph_parallelism_available_def
      mission_open_def predecessors_def ready_defs)

lemma w_resolves:
  "\<exists>s. resolve_task_authority now w_task w_agent w_ready = Inr [s] \<and> (now < 1000000000000 \<longrightarrow> ef_allowed s)"
proof -
  have "resolve_task_authority now w_task w_agent w_ready = Inr [resolve now 1
     \<lparr>ar_capability = ''code'', ar_machine = ''vm1'', ar_task_type = ''build'',
      ar_repository = Some ''repo'', ar_risk_level = 2\<rparr> w_ready]"
    using w_request by (simp add: resolve_task_authority_def w_task_def w_agent_def ebind_def)
  then show ?thesis using w_authority[of w_ready] by (simp add: w_ready_def)
qed

lemma w_paused: "paused_workflow_scopes w_ready = []" "matching_control_scopes w_agent w_ready = []"
  by (simp_all add: paused_workflow_scopes_def matching_control_scopes_def ready_defs)

lemma w_lease: "\<exists>prior d'. lease_next_task 1 w_agent 300 w_token w_ready
   = Inr (Some (leased_row 1 w_agent 300 w_token w_task, gt_token w_token, prior), d')"
proof -
  obtain s where s: "resolve_task_authority 1 w_task w_agent w_ready = Inr [s]" "ef_allowed s"
    using w_resolves[of 1] by auto
  have c: "\<exists>d1. consume_task_approval 1 w_task w_ready = Inr d1"
    by (simp add: consume_task_approval_def approval_of_task_def ready_defs)
  then obtain d1 where "consume_task_approval 1 w_task w_ready = Inr d1" ..
  then show ?thesis
    using s by (simp add: lease_next_task_def Let_def w_expire w_candidates w_paused grant_lease_def ebind_def)
qed

text \<open>The approved task of the installation is leased.\<close>

theorem lease_next_task_sound_witness:
  "\<exists>t' prior d'. safe w_ready
    \<and> lease_next_task 1 w_agent 300 w_token w_ready = Inr (Some (t', gt_token w_token, prior), d')
    \<and> t_status t' = Leased \<and> (\<exists>a. approval_of_task 6 d' = Some a \<and> ap_status a = ApprovalConsumed
         \<and> ap_plan_digest a = ''plan'')"
proof -
  obtain t' prior d' where l: "lease_next_task 1 w_agent 300 w_token w_ready
      = Inr (Some (t', gt_token w_token, prior), d')" using w_lease by blast
  from lease_next_task_sound[OF w_ready_safe l] obtain t where
    t: "t \<in> set (tasks w_ready)" "t' = leased_row 1 w_agent 300 w_token t"
    "t_approval_required t \<longrightarrow> (\<exists>a. approval_of_task (t_id t) d' = Some a
          \<and> ap_status a = ApprovalConsumed \<and> ap_plan_digest a = t_plan_digest t)"
    by (auto simp: Let_def w_expire)
  have "t = w_task" using t(1) by (simp add: w_ready_def)
  then show ?thesis using l t w_ready_safe by (simp add: leased_row_def w_task_def)
qed

definition w_held_task :: task where
  "w_held_task = leased_row 1 w_agent 300 w_token w_task"

text \<open>The installation while the agent holds the lease.\<close>

definition w_held :: db where
  "w_held = w_world\<lparr>tasks := [w_held_task],
     approvals := [w_approval\<lparr>ap_status := ApprovalConsumed\<rparr>]\<rparr>"

lemma w_held_safe: "safe w_held"
  by (simp add: safe_def keys_ok_def gated_def attempts_ok_def lease_held_def active_def
      active_lease_status_def approval_of_task_def ready_defs w_held_def w_held_task_def leased_row_def)

theorem reap_recovers_expired_witness:
  "safe w_held \<and> lease_expired 1000000000 w_held_task
   \<and> (\<exists>d'. reap_expired_leases 1000000000 w_held = Inr (1, 1, 0, d')
        \<and> tasks d' = [reaped 1000000000 w_held_task w_held_task])"
proof -
  have e: "lease_expired 1000000000 w_held_task"
    by (simp add: lease_expired_def active_lease_status_def w_held_task_def leased_row_def seconds_def)
  moreover have "tasks w_held = [w_held_task]" "t_attempt_count w_held_task < t_max_attempts w_held_task"
    by (simp_all add: w_held_def w_held_task_def leased_row_def w_task_def)
  ultimately show ?thesis
    using reap_recovers_expired[OF w_held_safe, of 1000000000] w_held_safe by auto
qed

lemma w_token_prefix: "extract_task_lease_token_prefix (gt_token w_token) = Some ''abc''"
  by (simp add: extract_task_lease_token_prefix_def extract_prefix_def w_token_def
      create_task_lease_token_def Let_def eval_nat_numeral)

lemma w_starts: "\<exists>d'. start_task ''key'' 2 w_agent 6 (gt_token w_token) ''go'' w_held = Inr d'"
proof -
  have "holds_lease ''key'' 2 w_agent (gt_token w_token) [Leased] w_held_task"
    by (simp add: holds_lease_def w_token_prefix w_held_task_def leased_row_def seconds_def)
       (simp add: w_token_def create_task_lease_token_def Let_def)
  moreover have "get_task 6 w_held = Some w_held_task"
    by (simp add: get_task_def w_held_def w_held_task_def leased_row_def w_task_def)
  ultimately have "held_task ''key'' 2 w_agent 6 (gt_token w_token) [Leased] w_held = Inr w_held_task"
    by (simp add: held_task_iff)
  then show ?thesis
    by (simp add: start_task_def Let_def ebind_def w_held_task_def leased_row_def w_task_def)
qed

theorem runtime_requires_lease_witness:
  "\<exists>d'. start_task ''key'' 2 w_agent 6 (gt_token w_token) ''go'' w_held = Inr d'
    \<and> (\<exists>t. get_task 6 w_held = Some t \<and> holds_lease ''key'' 2 w_agent (gt_token w_token) [Leased] t)"
  using w_starts runtime_requires_lease[of "''key''" 2 w_agent 6 "gt_token w_token" "''go''" w_held]
  by blast

lemma w_reap: "reap_expired_leases 1 w_ready = Inr (0, 0, 0, w_ready)"
  by (simp add: reap_expired_leases_def lease_expired_def active_lease_status_def ready_defs ebind_def)

lemma w_lease_task: "\<exists>prior d'. lease_task 1 w_agent 300 w_token w_ready
    = Inr (TaskLeased w_held_task (gt_token w_token) prior, d')"
  using w_lease by (auto simp: lease_task_def w_paused w_reap ebind_def w_held_task_def)

theorem leased_task_starts_witness:
  "\<exists>prior d' d''. lease_task 1 w_agent 300 w_token w_ready
      = Inr (TaskLeased w_held_task (gt_token w_token) prior, d')
    \<and> start_task ''key'' 2 w_agent 6 (gt_token w_token) ''go'' d' = Inr d''"
proof -
  obtain prior d' where l: "lease_task 1 w_agent 300 w_token w_ready
      = Inr (TaskLeased w_held_task (gt_token w_token) prior, d')" using w_lease_task by blast
  have t: "t_task_type w_held_task = ''build''" "t_id w_held_task = 6"
    by (simp_all add: w_held_task_def leased_row_def w_task_def)
  have "\<not> planning_announced w_held_task d'" by (simp add: planning_announced_def t)
  moreover have "if planning_announced w_held_task d'
    then start_task ''key'' 2 w_agent (t_id w_held_task) (gt_token w_token) ''go'' d' = Inl IntegrityError
    else \<exists>d'' t''. start_task ''key'' 2 w_agent (t_id w_held_task) (gt_token w_token) ''go'' d' = Inr d''
      \<and> get_task (t_id w_held_task) d'' = Some t'' \<and> t_status t'' = Running
      \<and> t_assigned_agent_id t'' = Some (a_id w_agent)"
    by (rule leased_task_starts[OF w_ready_safe _ _ _ _ l[unfolded w_token_def], folded w_token_def])
       (simp_all add: valid_lease_seconds_def t seconds_def)
  ultimately show ?thesis using l t by auto
qed

theorem lease_refused_iff_paused_witness:
  "control_scopes w_ready = []
   \<and> (\<exists>rs. lease_task 1 w_agent 300 w_token
        (run_control \<lparr>cc_at = 0, cc_scope_type = ''machine'', cc_scope_key = ''vm1'', cc_pause = True,
           cc_reason = ''maintenance'', cc_actor = ''founder''\<rparr> w_ready)
      = Inr (LeasePaused rs, run_control \<lparr>cc_at = 0, cc_scope_type = ''machine'',
           cc_scope_key = ''vm1'', cc_pause = True, cc_reason = ''maintenance'',
           cc_actor = ''founder''\<rparr> w_ready))"
proof -
  let ?c = "\<lparr>cc_at = 0, cc_scope_type = ''machine'', cc_scope_key = ''vm1'', cc_pause = True,
           cc_reason = ''maintenance'', cc_actor = ''founder''\<rparr>"
  have "control_scopes w_ready = []" by (simp add: ready_defs)
  moreover have "last_paused (''machine'', a_machine w_agent) [?c]"
    by (simp add: last_paused_def call_scope_def w_agent_def)
  ultimately show ?thesis
    using lease_refused_iff_paused[of w_ready 1 w_agent 300 w_token "[?c]"] by simp
qed

section \<open>Charters and grants\<close>

definition w_grant_request :: grant_create where
  "w_grant_request =
     \<lparr>gc_agent_id = 1, gc_charter_id = 2, gc_package_id = 3, gc_capability = ''code'',
      gc_machine = ''vm1'', gc_task_types = [''build''], gc_repositories = [''repo''],
      gc_risk_ceiling = 2, gc_accountable_owner = ''founder'', gc_granted_by = ''operator'',
      gc_reason = ''work'', gc_expires_at = 1000\<rparr>"

theorem create_grant_bounded_witness:
  "\<exists>g d'. create_grant isoformat 5 w_grant_request (w_world\<lparr>grants := []\<rparr>) = Inr (g, d')
    \<and> gr_status g = GrantActive \<and> grants d' = [g]"
proof -
  obtain g d' where c: "create_grant isoformat 5 w_grant_request (w_world\<lparr>grants := []\<rparr>) = Inr (g, d')"
    by (simp add: create_grant_def Let_def get_charter_def get_agent_def get_package_def grant_checks_def
        w_grant_request_def w_defs)
  from create_grant_bounded[OF c] show ?thesis using c by auto
qed

theorem grant_log_chain_witness:
  "(grant_step isoformat)\<^sup>*\<^sup>* w_world (revoke_grant 1 w_grant ''founder'' ''done'' w_world)
   \<and> length (grant_events (revoke_grant 1 w_grant ''founder'' ''done'' w_world)) = 1
   \<and> grant_chain_ok 5 (revoke_grant 1 w_grant ''founder'' ''done'' w_world)"
proof -
  have s: "(grant_step isoformat)\<^sup>*\<^sup>* w_world (revoke_grant 1 w_grant ''founder'' ''done'' w_world)"
    by (rule r_into_rtranclp, rule grant_step.revoke)
  moreover have "grant_events w_world = []" by (simp add: w_defs)
  moreover have "length (grant_events (revoke_grant 1 w_grant ''founder'' ''done'' w_world)) = 1"
    by (simp add: revoke_grant_def grant_event_def Let_def upd_grant_def w_defs)
  ultimately show ?thesis using grant_log_chain[OF s] by blast
qed

text \<open>A second charter of the agent, not yet active.\<close>

definition w_draft :: agent_charter where
  "w_draft = w_charter\<lparr>ch_id := 8, ch_version := ''2'', ch_manifest_digest := ''d'',
     ch_status := CharterDraft\<rparr>"

definition w_drafted :: db where
  "w_drafted = w_world\<lparr>charters := [w_charter, w_draft]\<rparr>"

lemma w_activates: "\<exists>d'. activate_charter 1 w_draft ''founder'' w_drafted = Inr d'"
  by (simp add: activate_charter_def w_draft_def)

theorem activate_charter_single_active_witness:
  "single_active w_drafted \<and> get_charter 8 w_drafted = Some w_draft
   \<and> (\<exists>d'. activate_charter 1 w_draft ''founder'' w_drafted = Inr d' \<and> single_active d')"
proof -
  have s: "single_active w_drafted" by (simp add: single_active_def w_drafted_def w_draft_def w_defs)
  have i: "ch_id w_draft = 8" by (simp add: w_draft_def)
  have g: "get_charter (ch_id w_draft) w_drafted = Some w_draft"
    unfolding i by (simp add: get_charter_def w_drafted_def w_draft_def w_charter_def)
  obtain d' where a: "activate_charter 1 w_draft ''founder'' w_drafted = Inr d'" using w_activates ..
  show ?thesis using s g a activate_charter_single_active[OF s g a] i by simp
qed

theorem activate_charter_revokes_grants_witness:
  "\<exists>d' g. activate_charter 1 w_draft ''founder'' w_drafted = Inr d' \<and> g \<in> set (grants d')
     \<and> gr_charter_id g = 2 \<and> gr_status g = GrantRevoked"
proof -
  obtain d' where a: "activate_charter 1 w_draft ''founder'' w_drafted = Inr d'" using w_activates ..
  have d: "ch_status w_draft = CharterDraft" by (simp add: w_draft_def)
  have p: "active_charter (ch_agent_id w_draft) w_drafted = Some w_charter"
    by (simp add: active_charter_def w_drafted_def w_draft_def w_charter_def)
  obtain g where g: "g \<in> set (grants d')" "gr_charter_id g = ch_id w_charter"
    using a by (auto simp: activate_charter_def w_drafted_def w_draft_def w_defs revoke_grant_def
        upd_charter_def upd_grant_def upd_row_def grant_event_def Let_def)
  from activate_charter_revokes_grants[OF a d p g] show ?thesis
    using a g by (auto simp: w_charter_def)
qed

section \<open>Evaluator routing\<close>

text \<open>Two evaluators on their own machines and a producer that shares nothing with them.\<close>

definition w_profile :: "uuid \<Rightarrow> uuid \<Rightarrow> string \<Rightarrow> evaluator_profile" where
  "w_profile i agent_id tag =
     \<lparr>ep_id = i, ep_agent_id = agent_id, ep_profile_version = ''1'', ep_status = ProfileActive,
      ep_review_kinds = [''strategy_spec'', ''causality_leakage''],
      ep_capabilities = [''alpha-strategy-review-strategy_spec'',
                         ''alpha-strategy-review-causality_leakage''],
      ep_machine = ''m'' @ tag, ep_provider = ''p'' @ tag, ep_model_family = ''f'' @ tag,
      ep_runtime = ''r'' @ tag, ep_context_group = ''c'' @ tag, ep_package_id = 3,
      ep_package_digest = ''k'' @ tag, ep_attestation = [], ep_profile_digest = ''d'' @ tag,
      ep_registered_by = ''founder'', ep_created_at = 0, ep_retired_at = None\<rparr>"

definition w_producer :: producer_identity where
  "w_producer =
     \<lparr>pi_actor = ''codex'', pi_agent_id = None, pi_machine = ''m'', pi_provider = ''p'',
      pi_model_family = ''f'', pi_runtime = ''r'', pi_context_group = ''c'',
      pi_package_digest = replicate 64 CHR ''0''\<rparr>"

definition w_route_request :: evaluation_route_create where
  "w_route_request =
     \<lparr>rc_subject_type = ''proposal'', rc_subject_id = ''s'',
      rc_subject_digest = replicate 64 CHR ''1'', rc_producer = w_producer,
      rc_excluded_producers = [], rc_required_review_kinds = [''strategy_spec'', ''causality_leakage''],
      rc_required_capabilities = [], rc_max_pairwise_shared_dimensions = 0,
      rc_requested_by = ''founder'', rc_routing_revision = 1, rc_supersedes_route_id = None\<rparr>"

lemmas corr_defs = exclusion_reasons_def producer_corr_def excluded_corr_def selected_corr_def
  correlate_def hard_conflicts_def HARD_SEPARATION_def CORRELATION_DIMENSIONS_def co_count_def
  producer_json_def profile_identity_def dget_def dict_get_def json_eq_def juuid_def option_json_def

lemma uuid_str_inj:
  assumes "uuid_str i = uuid_str j" and "i < 2 ^ 128" and "j < 2 ^ 128"
  shows "i = j"
  using assms uuid_parse_str by (metis option.inject)

lemma w_ids: "uuid_str 31 \<noteq> uuid_str 32" "uuid_str 32 \<noteq> uuid_str 31" "uuid_str 1 \<noteq> uuid_str 31"
  "uuid_str 1 \<noteq> uuid_str 32" "uuid_str 31 \<noteq> uuid_str 1" "uuid_str 32 \<noteq> uuid_str 1"
  using uuid_str_inj[of 31 32] uuid_str_inj[of 1 31] uuid_str_inj[of 1 32] by auto

abbreviation w_px :: evaluator_profile where
  "w_px \<equiv> w_profile 21 31 ''x''"

abbreviation w_py :: evaluator_profile where
  "w_py \<equiv> w_profile 22 32 ''y''"

definition w_none :: correlation where
  "w_none = \<lparr>co_shared_dimensions = [], co_hard_conflicts = []\<rparr>"

lemma w_package_digests: "replicate 64 CHR ''0'' \<noteq> ''kx''" "replicate 64 CHR ''0'' \<noteq> ''ky''"
  by (auto dest: arg_cong[of _ _ length])

lemma w_correlate:
  "correlate (profile_identity w_px) (profile_identity w_py) = w_none"
  "correlate (producer_json w_producer) (profile_identity w_px) = w_none"
  "correlate (producer_json w_producer) (profile_identity w_py) = w_none"
  by (simp_all add: corr_defs w_profile_def w_producer_def w_ids w_none_def w_package_digests)

lemma w_none_simps [simp]: "co_count w_none = 0" "co_hard_conflicts w_none = []"
  by (simp_all add: co_count_def w_none_def)

lemma w_eligible:
  assumes "k \<in> {''strategy_spec'', ''causality_leakage''}" and "p \<in> {w_px, w_py}"
  shows "exclusion_reasons w_route_request [] k p = []"
  using assms
  by (auto simp: exclusion_reasons_def Let_def producer_corr_def excluded_corr_def selected_corr_def
      w_route_request_def w_correlate) (auto simp: w_profile_def)

lemma w_eligible_y: "exclusion_reasons w_route_request [(''strategy_spec'', w_px, r)] ''causality_leakage'' w_py = []"
  by (auto simp: exclusion_reasons_def Let_def producer_corr_def excluded_corr_def selected_corr_def
      w_route_request_def w_correlate) (auto simp: w_profile_def)

lemma w_score: "correlation_score w_route_request [] w_px = 0" "correlation_score w_route_request [] w_py = 0"
  by (simp_all add: correlation_score_def producer_corr_def selected_corr_def w_route_request_def w_correlate)

text \<open>Both are free of conflicts; the tie goes to the smaller profile digest.\<close>

lemma w_first: "min_by (\<lambda>p. (correlation_score w_route_request [] p, ep_profile_digest p)) [w_px, w_py] = Some w_px"
  by (simp add: w_score) (simp add: w_profile_def)

lemma min_by_nonempty: "xs \<noteq> [] \<Longrightarrow> \<exists>x. min_by key xs = Some x"
  by (cases "min_by key xs") auto

lemma w_routed: "\<exists>sel. route_profiles [w_px, w_py] w_route_request = Inr sel"
proof -
  let ?q = w_route_request
  let ?r = "correlation_report ?q [] w_px"
  have k: "rc_required_review_kinds ?q = [''strategy_spec'', ''causality_leakage'']"
    by (simp add: w_route_request_def)
  have f1: "filter (\<lambda>p. exclusion_reasons ?q [] ''strategy_spec'' p = []) [w_px, w_py] = [w_px, w_py]"
    using w_eligible by simp
  define ys where "ys = filter (\<lambda>p. exclusion_reasons ?q [(''strategy_spec'', w_px, ?r)] ''causality_leakage'' p = []) [w_px, w_py]"
  have "w_py \<in> set ys" unfolding ys_def set_filter using w_eligible_y by simp
  then have ne: "ys \<noteq> []" by auto
  obtain p where p: "min_by (\<lambda>p. (correlation_score ?q [(''strategy_spec'', w_px, ?r)] p, ep_profile_digest p)) ys = Some p"
    using min_by_nonempty[OF ne] ..
  show ?thesis
    unfolding route_profiles_def k route_loop.simps Let_def f1 w_first append_Nil option.case
      ys_def[symmetric] p by blast
qed

theorem route_profiles_minimal_witness:
  "\<exists>sel k p rep. route_profiles [w_px, w_py] w_route_request = Inr sel \<and> sel ! 0 = (k, p, rep)
    \<and> (correlation_score w_route_request [] p, ep_profile_digest p)
        \<le> (correlation_score w_route_request [] w_py, ep_profile_digest w_py)"
proof -
  obtain sel where s: "route_profiles [w_px, w_py] w_route_request = Inr sel" using w_routed ..
  have "rc_required_review_kinds w_route_request = [''strategy_spec'', ''causality_leakage'']"
    by (simp add: w_route_request_def)
  moreover have "pairwise_separated (rc_max_pairwise_shared_dimensions w_route_request) []"
    by (simp add: pairwise_separated_def)
  ultimately have m: "map fst sel = [''strategy_spec'', ''causality_leakage'']"
    using route_loop_Inr[OF s[unfolded route_profiles_def]] by force
  obtain k p rep where e: "sel ! 0 = (k, p, rep)" by (metis prod_cases3)
  have l: "0 < length sel" using m by (cases sel) auto
  have "k = ''strategy_spec''" using m e by (cases sel) auto
  then have x: "exclusion_reasons w_route_request (take 0 sel) k w_py = []" using w_eligible by simp
  show ?thesis using route_profiles_minimal[OF s l e _ x] s e by auto
qed

text \<open>An installation with one evaluator, and a route of one review through it.\<close>

definition w_lab :: db where
  "w_lab = w_world\<lparr>agents := [w_agent\<lparr>a_id := 31, a_machine := ''mx'', a_runtime := Some ''rx'',
     a_runtime_version := None\<rparr>], profiles := [w_px]\<rparr>"

definition w_single :: evaluation_route_create where
  "w_single = w_route_request\<lparr>rc_required_review_kinds := [''strategy_spec'']\<rparr>"

lemma w_active: "active_profiles w_lab = [w_px]"
  by (simp add: active_profiles_def w_lab_def get_agent_def agent_runtime_def w_agent_def w_profile_def)

lemma w_single_reasons: "exclusion_reasons w_single [] ''strategy_spec'' w_px = []"
  using w_eligible[of "''strategy_spec''" w_px]
  by (simp add: exclusion_reasons_def w_single_def producer_corr_def excluded_corr_def selected_corr_def Let_def)

lemma w_single_routed:
  "route_profiles [w_px] w_single = Inr [(''strategy_spec'', w_px, correlation_report w_single [] w_px)]"
proof -
  have "rc_required_review_kinds w_single = [''strategy_spec'']" by (simp add: w_single_def)
  then show ?thesis by (simp add: route_profiles_def w_single_reasons)
qed

lemma w_created:
  "\<exists>d1 r a. create_route 0 w_single w_lab = Inr (10, d1) \<and> routes d1 = [r]
    \<and> assignments d1 = [a] \<and> receipts d1 = [] \<and> profiles d1 = [w_px]
    \<and> er_id r = 10 \<and> er_status r = RouteAssigned \<and> er_subject_type r = ''proposal''
    \<and> ea_route_id a = 10 \<and> ea_status a = AssignmentAssigned \<and> ea_evaluator_profile_id a = 21"
proof -
  have n: "next_uuid w_lab = 10" "routes w_lab = []" "assignments w_lab = []" "receipts w_lab = []"
    "profiles w_lab = [w_px]"
    by (simp_all add: w_lab_def w_defs)
  have q: "rc_supersedes_route_id w_single = None" "rc_subject_type w_single = ''proposal''"
    by (simp_all add: w_single_def w_route_request_def)
  have p: "ep_id w_px = 21" by (simp add: w_profile_def)
  show ?thesis
    by (simp add: create_route_def n q p w_active assign_route_def w_single_routed assign_evaluator_def
         Let_def ebind_def append_route_event_def upd_route_def upd_row_def new_route_def)
qed

text \<open>The route of one kind is assigned to the one active profile of the laboratory.\<close>

theorem route_profiles_independent_witness:
  "\<exists>d1 a. create_route 0 w_single w_lab = Inr (10, d1) \<and> assignments d1 = [a]
    \<and> ea_review_kind a = ''strategy_spec'' \<and> ea_evaluator_profile_id a = 21
    \<and> (\<exists>p \<in> set (profiles w_lab). ep_id p = 21 \<and> ep_status p = ProfileActive)"
proof -
  obtain d1 a where c: "create_route 0 w_single w_lab = Inr (10, d1)" "assignments d1 = [a]"
      "ea_evaluator_profile_id a = 21"
    using w_created by blast
  have q: "assignments w_lab = []" "rc_required_review_kinds w_single = [''strategy_spec'']"
    by (simp_all add: w_lab_def w_defs w_single_def)
  from route_profiles_independent[OF c(1)] obtain p where
      "ea_review_kind a = ''strategy_spec''" "ea_evaluator_profile_id a = ep_id p"
      "p \<in> set (profiles w_lab)" "ep_status p = ProfileActive"
    unfolding q c(2) by (auto simp: case_prod_unfold)
  then show ?thesis using c by auto
qed

definition w_review :: evaluator_assignment_complete where
  "w_review = \<lparr>ac_evaluator_agent_id = 31, ac_review_id = ''r'', ac_review_digest = ''rd'',
     ac_alpha_strategy_review = None\<rparr>"

lemma w_completed:
  assumes "routes d1 = [r]" "assignments d1 = [a]" "receipts d1 = []" "profiles d1 = [w_px]"
    "er_id r = 10" "er_status r = RouteAssigned" "er_subject_type r = ''proposal''"
    "ea_route_id a = 10" "ea_status a = AssignmentAssigned" "ea_evaluator_profile_id a = 21"
  shows "\<exists>d2 r2 c. complete_assignment 1 r a w_review d1 = Inr d2 \<and> routes d2 = [r2]
    \<and> er_id r2 = 10 \<and> er_status r2 = RouteCompleted \<and> require_independence r2 d2 = Inr c"
proof -
  have p: "get_profile 21 d1 = Some w_px" "ep_agent_id w_px = 31"
    using assms(4) by (simp_all add: get_profile_def w_profile_def)
  show ?thesis
    using assms
    by (simp add: complete_assignment_def p w_review_def checked_review_def ebind_def Let_def
        upd_assignment_def append_route_event_def upd_row_def completed_assignment_def
        route_assignments_def issue_receipt_def route_receipt_def assertion_entry_def
        upd_route_def completed_route_def require_independence_def new_receipt_def)
qed

lemma w_route_run:
  obtains d1 d2 r a r2 c where "route_step w_lab d1" and "route_step d1 d2" and "routes d2 = [r2]"
    and "er_id r2 = 10" and "require_independence r2 d2 = Inr c"
proof -
  obtain d1 r a where c: "create_route 0 w_single w_lab = Inr (10, d1)"
    and d1: "routes d1 = [r]" "assignments d1 = [a]" "receipts d1 = []" "profiles d1 = [w_px]"
    "er_id r = 10" "er_status r = RouteAssigned" "er_subject_type r = ''proposal''"
    "ea_route_id a = 10" "ea_status a = AssignmentAssigned" "ea_evaluator_profile_id a = 21"
    using w_created by blast
  obtain d2 r2 c where d2: "complete_assignment 1 r a w_review d1 = Inr d2" "routes d2 = [r2]"
    "er_id r2 = 10" "require_independence r2 d2 = Inr c"
    using w_completed[OF d1] by blast
  have "route_step d1 d2" by (rule route_step.complete[OF _ _ _ d2(1)]) (simp_all add: d1)
  with that[OF route_step.create[OF c]] d2 show ?thesis by blast
qed

theorem require_independence_complete_witness:
  "\<exists>d' r c. route_step\<^sup>*\<^sup>* w_lab d' \<and> require_independence r d' = Inr c
    \<and> er_status r = RouteCompleted
    \<and> list_all (\<lambda>a. ea_status a = AssignmentCompleted) (route_assignments (er_id r) d')"
proof -
  obtain d1 d2 r2 c where s: "route_step w_lab d1" "route_step d1 d2" and c: "require_independence r2 d2 = Inr c"
    by (rule w_route_run)
  have run: "route_step\<^sup>*\<^sup>* w_lab d2" using s by (meson converse_rtranclp_into_rtranclp r_into_rtranclp)
  have "receipts w_lab = []" "routes w_lab = []" by (simp_all add: w_lab_def w_defs)
  from require_independence_complete[OF run this c] show ?thesis using run c by blast
qed

theorem route_log_chain_witness:
  "\<exists>d'. route_step\<^sup>*\<^sup>* w_lab d' \<and> routes d' \<noteq> [] \<and> route_chain_ok 10 d'"
proof -
  obtain d1 d2 r2 c where s: "route_step w_lab d1" "route_step d1 d2" and r: "routes d2 = [r2]"
    by (rule w_route_run)
  have run: "route_step\<^sup>*\<^sup>* w_lab d2" using s by (meson converse_rtranclp_into_rtranclp r_into_rtranclp)
  have "route_events w_lab = []" by (simp add: w_lab_def w_defs)
  from route_log_chain[OF run this] show ?thesis using run r by auto
qed

theorem payload_of_new_route_witness:
  "valid_route_create w_route_request \<and> payload_of_route (new_route 0 w_route_request 10) = Some w_route_request"
proof -
  have v: "valid_route_create w_route_request"
    by (simp add: valid_route_create_def valid_subject_type_def str_between_def is_sha256_hex_def
        valid_producer_def w_route_request_def w_producer_def hex_digit_def list_all_iff)
  show ?thesis
    using v payload_of_new_route[OF v]
    by (simp add: w_route_request_def w_producer_def uuid_ok_def)
qed

text \<open>A completed route of a strategy with two approving reviews.\<close>

definition w_verdict :: alpha_strategy_review where
  "w_verdict = \<lparr>rv_subject_digest = replicate 64 CHR ''1'', rv_verdict = ''approve'',
     rv_rationale = replicate 20 CHR ''r'', rv_checks = [''causality''], rv_blockers = []\<rparr>"

definition w_alpha_producer :: dict where
  "w_alpha_producer = producer_json (w_producer\<lparr>pi_agent_id := Some 1\<rparr>)"

definition w_alpha_route :: evaluation_route where
  "w_alpha_route =
     \<lparr>er_id = 10, er_subject_type = ''alpha_strategy_qualification'', er_subject_id = ''s'',
      er_subject_digest = replicate 64 CHR ''1'', er_producer = w_alpha_producer,
      er_policy = route_policy w_route_request, er_status = RouteCompleted, er_route_digest = ''rt'',
      er_requested_by = ''founder'', er_blocked_reason = [], er_created_at = 0,
      er_completed_at = Some 1\<rparr>"

definition w_done :: "uuid \<Rightarrow> uuid \<Rightarrow> uuid \<Rightarrow> string \<Rightarrow> string \<Rightarrow> evaluator_assignment" where
  "w_done i profile_id agent_id kind tag =
     \<lparr>ea_id = i, ea_route_id = 10, ea_evaluator_profile_id = profile_id, ea_review_kind = kind,
      ea_status = AssignmentCompleted, ea_correlation_report = [], ea_assignment_digest = tag,
      ea_review_id = Some ''r'', ea_review_digest = Some (digest_json (review_json w_verdict)),
      ea_completed_by = Some (uuid_str agent_id), ea_assigned_at = 0, ea_completed_at = Some 1\<rparr>"

abbreviation w_ax :: evaluator_assignment where
  "w_ax \<equiv> w_done 41 21 31 ''strategy_spec'' ''ax''"

abbreviation w_ay :: evaluator_assignment where
  "w_ay \<equiv> w_done 42 22 32 ''causality_leakage'' ''ay''"

definition w_done_event :: "uuid \<Rightarrow> string \<Rightarrow> evaluation_route_event" where
  "w_done_event agent_id tag =
     \<lparr>ev_id = 0, ev_route_id = 10, ev_sequence = 1, ev_event_type = ''evaluation_completed'',
      ev_actor = uuid_str agent_id,
      ev_payload = [(''assignment_digest'', JStr tag),
        (''review_digest'', JStr (digest_json (review_json w_verdict))),
        (''alpha_strategy_review'', review_json w_verdict)],
      ev_previous_digest = None, ev_event_digest = '''', ev_created_at = 1\<rparr>"

definition w_entry :: "evaluator_assignment \<Rightarrow> evaluator_profile \<Rightarrow> json" where
  "w_entry a p = JObj [(''assignment_digest'', JStr (ea_assignment_digest a)),
     (''review_kind'', JStr (ea_review_kind a)), (''review_digest'', option_json JStr (ea_review_digest a)),
     (''evaluator_identity'', JObj (profile_identity p)),
     (''alpha_strategy_review'', review_json w_verdict)]"

definition w_alpha :: db where
  "w_alpha = w_world\<lparr>profiles := [w_px, w_py], assignments := [w_ax, w_ay],
     route_events := [w_done_event 31 ''ax'', w_done_event 32 ''ay''],
     receipts := [new_receipt 1 w_alpha_route [w_entry w_ax w_px, w_entry w_ay w_py] 50]\<rparr>"

lemma w_parse: "parse_review (review_json w_verdict) = Some w_verdict"
  by (simp add: parse_review_def review_json_def dict_get_def w_verdict_def valid_review_def
      is_sha256_hex_def str_between_def hex_digit_def list_all_iff)

lemma w_separated:
  "separated 0 (profile_identity w_px) w_alpha_producer" "separated 0 (profile_identity w_py) w_alpha_producer"
  "separated 0 (profile_identity w_py) (profile_identity w_px)"
  using w_package_digests[symmetric]
  by (simp_all add: separated_def corr_defs w_profile_def w_alpha_producer_def w_producer_def w_ids
      del: One_nat_def)

lemma w_matching:
  "matching_events [w_done_event 31 ''ax'', w_done_event 32 ''ay''] w_ax = [w_done_event 31 ''ax'']"
  "matching_events [w_done_event 31 ''ax'', w_done_event 32 ''ay''] w_ay = [w_done_event 32 ''ay'']"
  by (simp_all add: matching_events_def w_done_event_def w_done_def dget_def dict_get_def json_eq_def
      option_json_def)

lemma w_attesting:
  "length (attesting [w_entry w_ax w_px, w_entry w_ay w_py] w_ax w_px w_verdict) = 1"
  "length (attesting [w_entry w_ax w_px, w_entry w_ay w_py] w_ay w_py w_verdict) = 1"
  by (simp_all add: attesting_def w_entry_def w_done_def dict_get_def json_eq_def)

lemma w_reviews:
  "review_loop w_alpha_route w_alpha (replicate 64 CHR ''1'') [1] []
     [w_done_event 31 ''ax'', w_done_event 32 ''ay''] [w_entry w_ax w_px, w_entry w_ay w_py] []
     [w_ax, w_ay] = Some [w_verdict, w_verdict]"
proof -
  have c: "policy_ceiling (er_policy w_alpha_route) = 0" "er_producer w_alpha_route = w_alpha_producer"
    by (simp_all add: policy_ceiling_def w_alpha_route_def route_policy_def expected_policy_def
        w_route_request_def dict_get_def)
  have p: "get_profile 21 w_alpha = Some w_px" "get_profile 22 w_alpha = Some w_py"
    by (simp_all add: get_profile_def w_alpha_def w_profile_def)
  have a: "ea_evaluator_profile_id w_ax = 21" "ea_evaluator_profile_id w_ay = 22"
    "ea_status w_ax = AssignmentCompleted" "ea_status w_ay = AssignmentCompleted"
    "ea_completed_by w_ax = Some (uuid_str 31)" "ea_completed_by w_ay = Some (uuid_str 32)"
    "ea_review_digest w_ax = Some (digest_json (review_json w_verdict))"
    "ea_review_digest w_ay = Some (digest_json (review_json w_verdict))"
    by (simp_all add: w_done_def)
  have g: "ep_agent_id w_px = 31" "ep_agent_id w_py = 32" by (simp_all add: w_profile_def)
  have e: "dget (ev_payload (w_done_event i tag)) ''alpha_strategy_review'' = review_json w_verdict" for i tag
    by (simp add: w_done_event_def dget_def dict_get_def)
  have s: "rv_subject_digest w_verdict = replicate 64 CHR ''1''" by (simp add: w_verdict_def)
  show ?thesis
    by (simp add: p a g e s c w_matching w_ids w_parse w_attesting w_separated del: One_nat_def)
qed

theorem validated_reviews_independent_witness:
  "validated_alpha_strategy_reviews w_alpha_route (replicate 64 CHR ''1'') (Some 1) [] [] None w_alpha
     = Some [w_verdict, w_verdict]
   \<and> (\<exists>ids. list_all2 (routed_reviewer w_alpha_route [1] [] w_alpha) [w_ax, w_ay] ids
        \<and> mutually_separated 0 ids)"
proof -
  have as: "route_assignments 10 w_alpha = [w_ax, w_ay]"
    by (simp add: route_assignments_def w_alpha_def w_done_def)
  have ev: "filter (\<lambda>e. ev_route_id e = 10 \<and> ev_event_type e = ''evaluation_completed'') (route_events w_alpha)
      = [w_done_event 31 ''ax'', w_done_event 32 ''ay'']"
    by (simp add: w_alpha_def w_done_event_def)
  have k: "policy_kinds (route_policy w_route_request) = [''strategy_spec'', ''causality_leakage'']"
    by (simp add: policy_kinds_def route_policy_def expected_policy_def w_route_request_def dict_get_def)
  have adm: "route_admissible w_alpha_route (replicate 64 CHR ''1'') (Some 1)"
    by (simp add: route_admissible_def w_alpha_route_def k w_alpha_producer_def producer_json_def dget_def
        dict_get_def option_json_def)
  let ?c = "new_receipt 1 w_alpha_route [w_entry w_ax w_px, w_entry w_ay w_py] 50"
  have rc: "route_receipt 10 w_alpha = Some ?c"
    by (simp add: route_receipt_def w_alpha_def new_receipt_def w_alpha_route_def)
  have ra: "receipt_admissible w_alpha_route (replicate 64 CHR ''1'') ?c"
    "dget (ir_assertion ?c) ''assignments'' = JList [w_entry w_ax w_px, w_entry w_ay w_py]"
    by (simp_all add: receipt_admissible_def new_receipt_def independence_assertion_def dget_def
        dict_get_def json_eq_def w_alpha_route_def)
  have i: "er_id w_alpha_route = 10" "er_policy w_alpha_route = route_policy w_route_request"
    by (simp_all add: w_alpha_route_def)
  have kinds: "ea_review_kind w_ax = ''strategy_spec''" "ea_review_kind w_ay = ''causality_leakage''"
    by (simp_all add: w_done_def)
  have v: "validated_alpha_strategy_reviews w_alpha_route (replicate 64 CHR ''1'') (Some 1) [] [] None w_alpha
     = Some [w_verdict, w_verdict]"
    by (simp add: validated_alpha_strategy_reviews_def adm qualifier_admissible_def i as rc ra ev k kinds
        w_reviews Let_def del: One_nat_def review_loop.simps)
  have "policy_ceiling (er_policy w_alpha_route) = 0"
    by (simp add: i policy_ceiling_def route_policy_def expected_policy_def w_route_request_def dict_get_def)
  then show ?thesis using validated_reviews_independent[OF v] v by (simp add: i as del: One_nat_def)
qed

section \<open>Task graphs\<close>

definition w_spec :: graph_task_spec where
  "w_spec =
     \<lparr>gs_task_type = ''build'', gs_title = ''t'', gs_objective = ''o'', gs_input_contract = [],
      gs_expected_outputs = [], gs_acceptance_criteria = [], gs_required_capabilities = [''code''],
      gs_allowed_machines = [], gs_max_attempts = 1, gs_risk_level = 0\<rparr>"

definition w_node_request :: task_graph_node_create where
  "w_node_request =
     \<lparr>nc_key = ''n'', nc_role = ''engineer'', nc_node_type = ''work'', nc_depends_on = [],
      nc_input_type = ''in'', nc_output_type = ''out'', nc_task = w_spec, nc_stop_conditions = [],
      nc_compensation = None\<rparr>"

definition w_graph_request :: task_graph_create where
  "w_graph_request =
     \<lparr>gp_graph_key = ''G'', gp_project = ''repo'', gp_objective = ''o'', gp_created_by = ''founder'',
      gp_max_nodes = 1, gp_max_total_attempts = 3, gp_max_duration_seconds = 60,
      gp_max_parallelism = 1, gp_nodes = [w_node_request]\<rparr>"

theorem graph_log_chain_witness:
  "\<exists>d'. graph_step\<^sup>*\<^sup>* w_world d' \<and> length (graph_events d') = 1 \<and> graph_chain_ok 10 d'"
proof -
  obtain g d' where c: "create_graph 0 w_graph_request w_world = Inr (g, d')" "length (graph_events d') = 1"
    by (simp add: create_graph_def Let_def w_defs w_graph_request_def append_graph_event_def)
  have run: "graph_step\<^sup>*\<^sup>* w_world d'" by (rule r_into_rtranclp, rule graph_step.create[OF c(1)])
  have "graph_events w_world = []" by (simp add: w_defs)
  from graph_log_chain[OF run this] show ?thesis using run c(2) by blast
qed

text \<open>An active graph of one node and its task.\<close>

definition w_graph :: task_graph where
  "w_graph = (new_graph 0 51 w_graph_request)\<lparr>g_status := GraphActive, g_activated_at := Some 0,
     g_deadline_at := Some 60000000\<rparr>"

definition w_node :: task_graph_node where
  "w_node = (new_node 0 51 52 0 w_node_request)\<lparr>n_task_id := Some 6, n_status := NodeTask Queued\<rparr>"

definition w_graph_task :: task where
  "w_graph_task = w_task\<lparr>t_approval_required := False, t_task_graph_node_id := Some 52\<rparr>"

definition w_graph_db :: "task_status \<Rightarrow> db" where
  "w_graph_db s = w_world\<lparr>graphs := [w_graph], nodes := [w_node], tasks := [w_graph_task\<lparr>t_status := s\<rparr>]\<rparr>"

lemma w_graph_tasks: "graph_tasks 51 (w_graph_db s) = [w_graph_task\<lparr>t_status := s\<rparr>]"
  by (simp add: graph_tasks_def ordered_nodes_def graph_nodes_def node_task_def get_task_def w_graph_db_def
      w_node_def new_node_def w_graph_task_def w_task_def)


text \<open>Its queued task can be leased.\<close>

lemma w_graph_lease:
  "\<exists>d'. lease_task 1 w_agent 300 w_token (w_graph_db Queued)
    = Inr (TaskLeased (leased_row 1 w_agent 300 w_token w_graph_task) (gt_token w_token) [], d')"
proof -
  let ?d = "w_graph_db Queued"
  have t: "w_graph_task\<lparr>t_status := Queued\<rparr> = w_graph_task" by (simp add: w_graph_task_def w_task_def)
  have d: "tasks ?d = [w_graph_task]" "approvals ?d = []" "control_scopes ?d = []" "dependencies ?d = []"
    by (simp_all add: w_graph_db_def t w_defs)
  have e: "expire_approvals 1 ?d = (0, ?d)" by (simp add: expire_approvals_def d)
  have r: "reap_expired_leases 1 ?d = Inr (0, 0, 0, ?d)"
    by (simp add: reap_expired_leases_def d lease_expired_def active_lease_status_def w_graph_task_def
        w_task_def ebind_def)
  have p: "matching_control_scopes w_agent ?d = []" "paused_workflow_scopes ?d = []"
    by (simp_all add: matching_control_scopes_def paused_workflow_scopes_def d)
  have par: "graph_parallelism_available ?d w_graph_task"
    by (simp add: graph_parallelism_available_def active_graph_tasks_def active_lease_status_def
        get_node_def get_graph_def w_graph_db_def w_graph_task_def w_task_def w_node_def new_node_def
        w_graph_def new_graph_def w_graph_request_def)
  have "eligible 1 w_agent ?d w_graph_task"
    using par
    by (simp add: eligible_def valid_approval_def mission_open_def predecessors_def d)
       (simp add: w_graph_task_def w_task_def w_agent_def)
  then have c: "candidates 1 w_agent ?d = [w_graph_task]" by (simp add: candidates_def d)
  have q: "authority_request w_graph_task w_agent ''code'' = authority_request w_task w_agent ''code''"
    by (simp add: authority_request_def task_repository_def w_graph_task_def Let_def split: option.split)
  have caps: "t_required_capabilities w_graph_task = [''code'']" "a_id w_agent = 1"
    by (simp_all add: w_graph_task_def w_task_def w_agent_def)
  obtain s where s: "resolve_task_authority 1 w_graph_task w_agent ?d = Inr [s]" "ef_allowed s"
    using w_authority[of ?d _ 1]
    by (simp add: resolve_task_authority_def q w_request caps ebind_def w_graph_db_def)
  have "consume_task_approval 1 w_graph_task ?d = Inr ?d"
    by (simp add: consume_task_approval_def w_graph_task_def)
  moreover have "t_failure w_graph_task = []" by (simp add: w_graph_task_def w_task_def)
  ultimately show ?thesis
    using s by (simp add: lease_task_def p r lease_next_task_def Let_def e c grant_lease_def ebind_def)
qed

theorem graph_parallelism_bound_witness:
  "\<exists>d' t n g. lease_task 1 w_agent 300 w_token (w_graph_db Queued) = Inr (TaskLeased t (gt_token w_token) [], d')
    \<and> get_node 52 d' = Some n \<and> get_graph (n_graph_id n) d' = Some g
    \<and> t \<in> set (active_graph_tasks (g_id g) d')
    \<and> int (length (active_graph_tasks (g_id g) d')) \<le> g_max_parallelism g"
proof -
  obtain d' where l: "lease_task 1 w_agent 300 w_token (w_graph_db Queued)
    = Inr (TaskLeased (leased_row 1 w_agent 300 w_token w_graph_task) (gt_token w_token) [], d')"
    using w_graph_lease ..
  have s: "safe (w_graph_db Queued)"
    by (simp add: safe_def keys_ok_def gated_def attempts_ok_def lease_held_def active_def
      active_lease_status_def w_graph_db_def w_graph_task_def w_task_def w_defs)
  have "t_task_graph_node_id (leased_row 1 w_agent 300 w_token w_graph_task) = Some 52"
    by (simp add: w_graph_task_def)
  from graph_parallelism_bound[OF s l this] show ?thesis using l by blast
qed

section \<open>Missions\<close>

definition w_work_item :: work_item where
  "w_work_item = \<lparr>wi_id = ''W1'', wi_objective = ''o'', wi_depends_on = [], wi_allowed_paths = [''src''],
     wi_context_paths = [], wi_acceptance_criteria = [''tests''], wi_stop_conditions = []\<rparr>"

definition w_policy :: supervision_policy where
  "w_policy = \<lparr>sp_mode = ''autonomous'', sp_approval_mode = ''mission'', sp_max_auto_recoveries = 2,
     sp_retry_backoff_seconds = 30, sp_retryable_categories = [''timeout''],
     sp_rehearsal_evidence_sha256 = ''e'', sp_rehearsal_source_commit = ''s''\<rparr>"

definition w_plan :: engineering_manifest where
  "w_plan =
     \<lparr>em_schema_version = 1, em_milestone_id = ''M1'', em_project = ''repo'', em_objective = ''o'',
      em_base_ref = ''main'', em_source_references = [], em_workflow = ''w'', em_risk_level = 1,
      em_allowed_machines = [''vm1''], em_required_capabilities = [''code''],
      em_budget = \<lparr>mb_max_tasks = 1, mb_max_attempts_per_task = 2, mb_max_duration_seconds = 600,
        mb_max_files_changed = 5, mb_max_diff_lines = 100\<rparr>,
      em_work_items = [w_work_item], em_deliverables = [], em_approved_by = ''founder'',
      em_approval_reference = ''ref'', em_supervision = Some w_policy\<rparr>"

abbreviation w_signature :: string where
  "w_signature \<equiv> hmac_sha256_hex ''k'' (canonical_manifest (Engineering w_plan))"


text \<open>A supervised mission in progress.\<close>

definition w_mission :: "mission_status \<Rightarrow> supervision_status \<Rightarrow> engineering_mission" where
  "w_mission s sup_status =
     (new_mission 0 60 (Engineering w_plan) ''M1'' ''repo'' ''o'' ''founder'' ''ref'' w_signature 1 2 600
        (Some w_policy) ''founder'')\<lparr>m_status := s, m_supervision_status := Some sup_status\<rparr>"

definition w_mission_task :: "task_status \<Rightarrow> task" where
  "w_mission_task s = w_task\<lparr>t_approval_required := False, t_mission_id := Some 60, t_status := s,
     t_failure := [(''retryable'', JBool True)], t_attempt_count := 1\<rparr>"

definition w_mission_db :: "engineering_mission \<Rightarrow> task_status \<Rightarrow> db" where
  "w_mission_db m s = w_world\<lparr>missions := [m], tasks := [w_mission_task s]\<rparr>"

lemma w_mission_simps:
  "m_id (w_mission s u) = 60" "m_status (w_mission s u) = s" "m_supervision_status (w_mission s u) = Some u"
  "m_deadline_at (w_mission s u) = 600000000" "m_supervision_enabled (w_mission s u)"
  "m_next_reconcile_at (w_mission s u) = None" "m_recovery_count (w_mission s u) = 0"
  "m_supervision_policy (w_mission s u) = supervision_json w_policy"
  by (simp_all add: w_mission_def new_mission_def seconds_def)

lemma w_mission_rows:
  "get_mission 60 (w_mission_db (w_mission s u) v) = Some (w_mission s u)"
  "mission_tasks 60 (w_mission_db m v) = [w_mission_task v]"
  by (simp_all add: get_mission_def w_mission_db_def w_mission_simps mission_tasks_def w_mission_task_def)


lemma w_recovers:
  "\<exists>d'. reconcile_mission 1 (w_mission MissionActive SupervisionActive)
     (w_mission_db (w_mission MissionActive SupervisionActive) Failed) = Inr (Recovered, Some 6, d')"
proof -
  let ?m = "w_mission MissionActive SupervisionActive"
  let ?d = "w_mission_db ?m Failed"
  let ?t = "w_mission_task Failed"
  have t: "t_status ?t = Failed" "t_id ?t = 6" "t_attempt_count ?t = 1" "t_max_attempts ?t = 3"
    "t_approval_required ?t = False" "t_failure ?t = [(''retryable'', JBool True)]"
    by (simp_all add: w_mission_task_def w_task_def)
  have "tasks ?d = [?t]" by (simp add: w_mission_db_def)
  then have r: "reap_expired_leases 1 ?d = Inr (0, 0, 0, ?d)"
    by (simp add: reap_expired_leases_def lease_expired_def active_lease_status_def t ebind_def)
  obtain m' where m': "get_mission 60 (refresh_mission 1 60 ?d) = Some m'" "m_id m' = 60"
    "m_recovery_count m' = 0" "m_deadline_at m' = 600000000" "m_supervision_policy m' = supervision_json w_policy"
    using refresh_keeps[OF w_mission_rows(1)[of MissionActive SupervisionActive Failed], of 1]
    by (auto simp: w_mission_simps)
  have "mission_tasks 60 (refresh_mission 1 60 ?d) = [?t]"
    using w_mission_rows(2) by (simp add: mission_tasks_def refresh_mission_def Let_def split: option.split)
  moreover have "policy_int (supervision_json w_policy) ''max_auto_recoveries'' 0 = 2"
    by (simp add: policy_int_def supervision_json_def dict_get_def w_policy_def)
  ultimately have "\<exists>d'. supervise 1 m' (refresh_mission 1 60 ?d) = Inr (Recovered, Some 6, d')"
    by (simp add: supervise_def m' t recovery_allowed_def retryable_failure_def dget_def dict_get_def
        recover_checkpoint_def rearm_task_approval_def Let_def ebind_def)
  then show ?thesis
    by (simp add: reconcile_mission_def w_mission_simps r ebind_def Let_def m')
qed

theorem recovery_within_budget_witness:
  "\<exists>d' m'. reconcile_mission 1 (w_mission MissionActive SupervisionActive)
     (w_mission_db (w_mission MissionActive SupervisionActive) Failed) = Inr (Recovered, Some 6, d')
    \<and> get_mission 60 d' = Some m' \<and> m_recovery_count m' = 1"
proof -
  obtain d' where r: "reconcile_mission 1 (w_mission MissionActive SupervisionActive)
     (w_mission_db (w_mission MissionActive SupervisionActive) Failed) = Inr (Recovered, Some 6, d')"
    using w_recovers ..
  have "get_mission (m_id (w_mission MissionActive SupervisionActive))
      (w_mission_db (w_mission MissionActive SupervisionActive) Failed)
      = Some (w_mission MissionActive SupervisionActive)"
    using w_mission_rows(1) by (simp add: w_mission_simps)
  from recovery_within_budget[OF this r] show ?thesis using r by (auto simp: w_mission_simps)
qed

section \<open>From creation to lease\<close>

definition w_create :: task_create where
  "w_create =
     \<lparr>tc_task_number = ''T1'', tc_project = ''repo'', tc_task_type = ''build'', tc_title = ''t'',
      tc_objective = ''o'', tc_priority = 50, tc_risk_level = 2, tc_parent_task_id = None,
      tc_created_by = ''founder'', tc_input_contract = [], tc_expected_outputs = [],
      tc_acceptance_criteria = [], tc_approval_policy = [], tc_approval_required = False,
      tc_required_capabilities = [''code''], tc_allowed_machines = [], tc_max_attempts = 3\<rparr>"

definition w_pending :: db where
  "w_pending = snd (projr (create_task 0 w_create w_world))"

definition w_new :: task where
  "w_new = (build_task w_create)\<lparr>t_id := 10\<rparr>"

lemma w_valid_create: "valid_task_create w_create"
  by (simp add: valid_task_create_def str_between_def task_number_char_def w_create_def)

text \<open>The task is created pending, with its approval row.\<close>

lemma w_pending_tables:
  "create_task 0 w_create w_world = Inr (w_new, w_pending)"
  "\<exists>a. approvals w_pending = [a] \<and> ap_id a = 11 \<and> ap_task_id a = 10 \<and> ap_status a = ApprovalPending
     \<and> ap_plan_digest a = t_plan_digest w_new"
  "tasks w_pending = [w_new]" "control_scopes w_pending = []" "dependencies w_pending = []"
  "agents w_pending = agents w_world" "charters w_pending = charters w_world"
  "packages w_pending = packages w_world" "deployments w_pending = deployments w_world"
  "grants w_pending = grants w_world"
proof -
  have w: "tasks w_world = []" "approvals w_world = []" "notifications w_world = []" "next_uuid w_world = 10"
    "control_scopes w_world = []" "dependencies w_world = []"
    by (simp_all add: w_defs)
  have b: "t_approval_required (build_task w_create)" "t_created_at (build_task w_create) = 0"
    by (simp_all add: build_task_def w_create_def)
  have n: "w_new = (build_task w_create)\<lparr>t_id := 10, t_created_at := 0\<rparr>"
    by (simp add: w_new_def build_task_def Let_def)
  have p: "tc_parent_task_id w_create = None" by (simp add: w_create_def)
  note defs = create_task_def p persist_new_task_def create_approval_def enqueue_approval_gate_def
    insert_once_def new_notification_def append_approval_event_def append_task_event_def Let_def w b n
    w_pending_def
  show "create_task 0 w_create w_world = Inr (w_new, w_pending)" by (simp add: defs)
  show "\<exists>a. approvals w_pending = [a] \<and> ap_id a = 11 \<and> ap_task_id a = 10 \<and> ap_status a = ApprovalPending
     \<and> ap_plan_digest a = t_plan_digest w_new" by (simp add: defs)
  show "tasks w_pending = [w_new]" "control_scopes w_pending = []" "dependencies w_pending = []"
    "agents w_pending = agents w_world" "charters w_pending = charters w_world"
    "packages w_pending = packages w_world" "deployments w_pending = deployments w_world"
    "grants w_pending = grants w_world"
    by (simp_all add: defs)
qed

text \<open>The founder approves it.\<close>

lemma w_approved:
  "\<exists>a d2. a \<in> set (approvals w_pending) \<and> approve_task 0 ''n'' a ''founder'' ''ok'' 600 w_pending = Inr d2
    \<and> tasks d2 = [w_new\<lparr>t_status := Queued\<rparr>]
    \<and> approvals d2 = [grant_approval_row 0 ''n'' ''founder'' ''ok'' 600 a]
    \<and> ap_id a = 11 \<and> ap_task_id a = 10 \<and> ap_plan_digest a = t_plan_digest w_new
    \<and> control_scopes d2 = [] \<and> dependencies d2 = [] \<and> agents d2 = agents w_world
    \<and> charters d2 = charters w_world \<and> packages d2 = packages w_world
    \<and> deployments d2 = deployments w_world \<and> grants d2 = grants w_world"
proof -
  obtain a where a: "approvals w_pending = [a]" "ap_id a = 11" "ap_task_id a = 10"
    "ap_status a = ApprovalPending" "ap_plan_digest a = t_plan_digest w_new"
    using w_pending_tables(2) by blast
  have i: "t_id w_new = 10" "t_mission_id w_new = None" by (simp_all add: w_new_def build_task_def Let_def)
  have g: "get_task 10 w_pending = Some w_new" by (simp add: get_task_def w_pending_tables i)
  show ?thesis
    by (rule exI[of _ a])
       (simp add: approve_task_def a g i Let_def case_prod_unfold upd_approval_def upd_task_def upd_row_def
         wake_mission_def append_approval_event_def append_task_event_def enqueue_task_ready_def
         insert_once_def w_pending_tables split: option.split)
qed

text \<open>And the agent leases it.\<close>

lemma w_leases:
  assumes d: "tasks d = [w_new\<lparr>t_status := Queued\<rparr>]"
      "approvals d = [grant_approval_row 0 ''n'' ''founder'' ''ok'' 600 a]"
      "ap_id a = 11" "ap_task_id a = 10" "ap_plan_digest a = t_plan_digest w_new"
      "control_scopes d = []" "dependencies d = []" "agents d = agents w_world"
      "charters d = charters w_world" "packages d = packages w_world"
      "deployments d = deployments w_world" "grants d = grants w_world"
  shows "\<exists>prior d'. lease_task 1 w_agent 300 w_token d
    = Inr (TaskLeased (leased_row 1 w_agent 300 w_token (w_new\<lparr>t_status := Queued\<rparr>)) (gt_token w_token) prior, d')"
proof -
  let ?t = "w_new\<lparr>t_status := Queued\<rparr>"
  have t: "t_id ?t = 10" "t_approval_required ?t" "t_task_graph_node_id ?t = None" "t_mission_id ?t = None"
    "t_plan_digest ?t = t_plan_digest w_new" "t_attempt_count ?t = 0" "t_max_attempts ?t = 3"
    "t_risk_level ?t = 2" "t_required_capabilities ?t = [''code'']" "t_task_type ?t = ''build''"
    "t_allowed_machines ?t = []" "t_lease_expires_at ?t = None" "t_input_contract ?t = []"
    "t_project ?t = ''repo''" "t_status ?t = Queued"
    by (simp_all add: w_new_def build_task_def w_create_def Let_def)
  have ag: "a_risk_ceiling w_agent = 3" "a_capabilities w_agent = [''code'']" "a_id w_agent = 1"
    "a_machine w_agent = ''vm1''"
    by (simp_all add: w_agent_def)
  have e: "expire_approvals 1 d = (0, d)"
    by (simp add: expire_approvals_def d approval_lapsed_def grant_approval_row_def seconds_def)
  have r: "reap_expired_leases 1 d = Inr (0, 0, 0, d)"
    by (simp add: reap_expired_leases_def d lease_expired_def t[simplified] active_lease_status_def ebind_def)
  have p: "matching_control_scopes w_agent d = []" "paused_workflow_scopes d = []"
    by (simp_all add: matching_control_scopes_def paused_workflow_scopes_def d)
  have "eligible 1 w_agent d ?t"
    by (simp add: eligible_def valid_approval_def mission_open_def predecessors_def d t[simplified] ag
        graph_parallelism_available_def grant_approval_row_def seconds_def)
  then have c: "candidates 1 w_agent d = [?t]" by (simp add: candidates_def d)
  have q: "authority_request ?t w_agent ''code'' = authority_request w_task w_agent ''code''"
    unfolding authority_request_def task_repository_def t ag
    by (simp add: dget_def dict_get_def Let_def) (simp add: w_task_def dget_def dict_get_def)
  have caps: "t_required_capabilities w_new = [''code'']" using t(9) by simp
  obtain s where s: "resolve_task_authority 1 ?t w_agent d = Inr [s]" "ef_allowed s"
    using w_authority[of d _ 1] d
    by (simp add: resolve_task_authority_def q w_request caps ag ebind_def)
  have "\<exists>d1. consume_task_approval 1 ?t d = Inr d1"
    by (simp add: consume_task_approval_def approval_of_task_def t[simplified] d grant_approval_row_def seconds_def)
  then obtain d1 where "consume_task_approval 1 ?t d = Inr d1" ..
  then show ?thesis
    using s by (simp add: lease_task_def p r lease_next_task_def Let_def e c grant_lease_def ebind_def)
qed

end
