(* ===== verification/Authority.thy ===== *)
theory Authority
  imports Governance
begin

text \<open>
  Decision authority (\<open>services/authority.py\<close>, \<open>routes/authority.py\<close>): the active policy
  snapshot says which roles may take which decision up to which risk, which roles may veto it
  and which participants must be different people. Delegations lend a decision right for a
  bounded time, exceptions waive one separation rule for at most a day. Every resolution
  leaves a decision record; a denial is committed before it is raised, so an operation here
  returns its result together with the state that is kept.
\<close>

section \<open>Requests\<close>

record authority_resolution_request =
  rq_actor :: string
  rq_decision_type :: string
  rq_action :: string
  rq_object_type :: string
  rq_object_id :: string
  rq_object_digest :: string
  rq_scope :: dict
  rq_risk_level :: int
  rq_environment :: string
  rq_requester :: "string option"
  rq_originator :: "string option"
  rq_evaluator :: "string option"
  rq_active_veto_roles :: "string list"
  rq_exception_id :: "uuid option"

definition valid_resolution_request :: "authority_resolution_request \<Rightarrow> bool" where
  "valid_resolution_request q =
     (2 \<le> length (rq_actor q) \<and> length (rq_actor q) \<le> 150 \<and> is_sha256_hex (rq_object_digest q)
      \<and> 0 \<le> rq_risk_level q \<and> rq_risk_level q \<le> 3)"

record delegation_create =
  dg_grantor_actor :: string
  dg_grantee_actor :: string
  dg_decision_types :: "string list"
  dg_scope :: dict
  dg_max_risk :: int
  dg_environment :: string
  dg_reason :: string
  dg_expires_at :: time

record exception_create =
  xc_rule_key :: string
  xc_requester :: string
  xc_independent_reviewer :: string
  xc_reason :: string
  xc_scope :: dict
  xc_risk_level :: int
  xc_compensating_controls :: "string list"
  xc_expires_at :: time

datatype exception_action = ApproveException | RejectException | CloseException

text \<open>\<open>unique_keys\<close> of \<open>AuthorityPolicyManifest\<close>.\<close>

definition unique_keys :: "authority_policy_manifest \<Rightarrow> unit res" where
  "unique_keys m =
     (let known = map rb_role (pl_roles m) in
      if \<not> distinct known then Inl (ValueError ''role bindings must be unique'')
      else if \<not> distinct (map dc_decision_type (pl_decisions m))
      then Inl (ValueError ''decision rights must be unique'')
      else if list_ex (\<lambda>r. list_ex (\<lambda>x. x \<notin> set known) (dc_accountable_roles r @ dc_veto_roles r))
                (pl_decisions m)
      then Inl (ValueError ''decision rights reference unknown roles'')
      else if list_ex (\<lambda>(_, principal). principal \<notin> (\<Union>b \<in> set (pl_roles m). set (rb_actors b)))
                (pl_identity_aliases m)
      then Inl (ValueError ''identity aliases reference unknown principals'')
      else Inr ())"

section \<open>Rows\<close>

definition upd_policy ::
  "uuid \<Rightarrow> (authority_policy_snapshot \<Rightarrow> authority_policy_snapshot) \<Rightarrow> db \<Rightarrow> db" where
  "upd_policy i f d = d\<lparr>policies := upd_row po_id i f (policies d)\<rparr>"

definition get_policy :: "uuid \<Rightarrow> db \<Rightarrow> authority_policy_snapshot option" where
  "get_policy i d = get_row po_id (policies d) i"

definition get_delegation :: "uuid \<Rightarrow> db \<Rightarrow> authority_delegation option" where
  "get_delegation i d = get_row dl_id (delegations d) i"

definition upd_delegation ::
  "uuid \<Rightarrow> (authority_delegation \<Rightarrow> authority_delegation) \<Rightarrow> db \<Rightarrow> db" where
  "upd_delegation i f d = d\<lparr>delegations := upd_row dl_id i f (delegations d)\<rparr>"

definition get_exception :: "uuid \<Rightarrow> db \<Rightarrow> authority_exception option" where
  "get_exception i d = get_row ax_id (exceptions d) i"

definition upd_exception ::
  "uuid \<Rightarrow> (authority_exception \<Rightarrow> authority_exception) \<Rightarrow> db \<Rightarrow> db" where
  "upd_exception i f d = d\<lparr>exceptions := upd_row ax_id i f (exceptions d)\<rparr>"

section \<open>Policies\<close>

definition MAX_DELEGATION :: time where
  "MAX_DELEGATION = seconds (30 * 24 * 3600)"

definition MAX_EXCEPTION :: time where
  "MAX_EXCEPTION = seconds (24 * 3600)"

definition policy_effective :: "time \<Rightarrow> authority_policy_snapshot \<Rightarrow> bool" where
  "policy_effective now p =
     (po_status p = PolicyActive
      \<and> (case po_effective_from p of None \<Rightarrow> False | Some s \<Rightarrow> s \<le> now)
      \<and> (case po_effective_until p of None \<Rightarrow> True | Some e \<Rightarrow> now < e))"

definition active_policy :: "time \<Rightarrow> db \<Rightarrow> authority_policy_snapshot res" where
  "active_policy now d =
     (case List.find (policy_effective now) (policies d) of
        None \<Rightarrow> http 409 ''No active authority policy.''
      | Some p \<Rightarrow> Inr p)"

definition current_policy :: "db \<Rightarrow> authority_policy_snapshot option" where
  "current_policy d = List.find (\<lambda>p. po_status p = PolicyActive) (policies d)"

definition activate_policy :: "time \<Rightarrow> authority_policy_snapshot \<Rightarrow> string \<Rightarrow> db \<Rightarrow> db res" where
  "activate_policy now p actor d =
     (if po_status p \<notin> {PolicyDraft, PolicyRetired}
      then http 409 ''Policy cannot be activated from its current state.''
      else
        (let d1 = (case current_policy d of
                     None \<Rightarrow> d
                   | Some c \<Rightarrow>
                       upd_policy (po_id p) (\<lambda>p. p\<lparr>po_supersedes_id := Some (po_id c)\<rparr>)
                         (upd_policy (po_id c)
                            (\<lambda>c. c\<lparr>po_status := PolicyRetired, po_effective_until := Some now\<rparr>) d))
         in Inr (upd_policy (po_id p)
                   (\<lambda>p. p\<lparr>po_status := PolicyActive, po_effective_from := Some now,
                          po_effective_until := None, po_activated_by := Some actor,
                          po_activated_at := Some now\<rparr>) d1)))"

section \<open>Roles, principals and decision rights\<close>

definition alias_of :: "authority_policy_manifest \<Rightarrow> string \<Rightarrow> string" where
  "alias_of m actor =
     (case map_of (pl_identity_aliases m) actor of None \<Rightarrow> actor | Some p \<Rightarrow> p)"

text \<open>\<open>roles_for\<close>, as the sorted list the callers make of the set.\<close>

definition roles_for :: "authority_policy_manifest \<Rightarrow> string \<Rightarrow> string list" where
  "roles_for m actor =
     sorted_set (map rb_role (filter (\<lambda>b. alias_of m actor \<in> set (rb_actors b)) (pl_roles m)))"

definition principal_for :: "authority_policy_manifest \<Rightarrow> string option \<Rightarrow> string option" where
  "principal_for m actor =
     (case actor of None \<Rightarrow> None | Some a \<Rightarrow> if a = '''' then None else Some (alias_of m a))"

definition decision_rule :: "authority_policy_manifest \<Rightarrow> string \<Rightarrow> decision_right option" where
  "decision_rule m decision_type =
     List.find (\<lambda>r. dc_decision_type r = decision_type) (pl_decisions m)"

fun participant :: "separation_field \<Rightarrow> authority_resolution_request \<Rightarrow> string option" where
  "participant FieldRequester q = rq_requester q"
| "participant FieldOriginator q = rq_originator q"
| "participant FieldEvaluator q = rq_evaluator q"

section \<open>Resolution\<close>

definition separation_violated ::
  "authority_policy_manifest \<Rightarrow> authority_resolution_request \<Rightarrow> decision_right \<Rightarrow> string option
     \<Rightarrow> separation_rule \<Rightarrow> bool" where
  "separation_violated m q rule exception_rule s =
     (sr_minimum_risk s \<le> rq_risk_level q
      \<and> principal_for m (participant (sr_field s) q) = principal_for m (Some (rq_actor q))
      \<and> (dc_constitutional rule \<or> exception_rule \<noteq> Some (sr_rule_key s)))"

definition rule_failures ::
  "authority_policy_manifest \<Rightarrow> authority_resolution_request \<Rightarrow> decision_right \<Rightarrow> bool
     \<Rightarrow> string option \<Rightarrow> string list" where
  "rule_failures m q rule delegated exception_rule =
     (let roles = roles_for m (rq_actor q);
          vetoes = sorted_set (filter (\<lambda>v. v \<in> set (dc_veto_roles rule)) (rq_active_veto_roles q))
      in (if rq_action q \<notin> set (dc_actions rule) then [''action-not-authorized''] else [])
         @ (if dc_maximum_risk rule < rq_risk_level q then [''risk-exceeds-authority''] else [])
         @ (if ''*'' \<notin> set (dc_environments rule) \<and> rq_environment q \<notin> set (dc_environments rule)
            then [''environment-out-of-scope''] else [])
         @ (if set roles \<inter> set (dc_accountable_roles rule) = {} \<and> \<not> delegated
            then [''actor-lacks-accountable-role''] else [])
         @ (if vetoes \<noteq> [] then [''active-veto:'' @ join '','' vetoes] else [])
         @ map (\<lambda>s. ''separation:'' @ sr_rule_key s)
             (filter (separation_violated m q rule exception_rule) (dc_separation rule)))"

definition pure_resolution ::
  "authority_policy_manifest \<Rightarrow> authority_resolution_request \<Rightarrow> bool \<Rightarrow> bool \<Rightarrow> string option
     \<Rightarrow> bool \<times> string \<times> string list \<times> string list" where
  "pure_resolution m q delegated delegation_conflict exception_rule =
     (let roles = roles_for m (rq_actor q);
          conflict = (if delegation_conflict then [''conflicting-delegations''] else [])
      in case decision_rule m (rq_decision_type q) of
           None \<Rightarrow>
             (let failures = conflict @ [''decision-type-unregistered'']
              in (False, hd failures, roles, failures))
         | Some rule \<Rightarrow>
             (let failures = conflict @ rule_failures m q rule delegated exception_rule
              in (failures = [], if failures = [] then ''authorized'' else hd failures,
                  roles, failures)))"

definition applicable_delegations ::
  "time \<Rightarrow> authority_policy_snapshot \<Rightarrow> authority_resolution_request \<Rightarrow> db
     \<Rightarrow> authority_delegation list" where
  "applicable_delegations now p q d =
     filter (\<lambda>x. dl_policy_id x = po_id p \<and> dl_grantee_actor x = rq_actor q
               \<and> dl_status x = ''active'' \<and> now < dl_expires_at x
               \<and> rq_decision_type q \<in> set (dl_decision_types x) \<and> rq_risk_level q \<le> dl_max_risk x
               \<and> dl_environment x \<in> {''*'', rq_environment q}) (delegations d)"

definition delegations_for ::
  "time \<Rightarrow> authority_policy_snapshot \<Rightarrow> authority_resolution_request \<Rightarrow> db
     \<Rightarrow> authority_delegation list" where
  "delegations_for now p q d =
     (case decision_rule (po_manifest p) (rq_decision_type q) of
        None \<Rightarrow> []
      | Some rule \<Rightarrow> if dc_delegable rule then applicable_delegations now p q d else [])"

definition exception_in_force ::
  "time \<Rightarrow> authority_policy_snapshot \<Rightarrow> authority_exception \<Rightarrow> bool" where
  "exception_in_force now p x =
     (ax_policy_id x = po_id p \<and> ax_status x = ''approved''
      \<and> (case ax_effective_from x of None \<Rightarrow> False | Some s \<Rightarrow> s \<le> now)
      \<and> now < ax_expires_at x)"

definition requested_exception ::
  "time \<Rightarrow> authority_policy_snapshot \<Rightarrow> authority_resolution_request \<Rightarrow> db
     \<Rightarrow> authority_exception option" where
  "requested_exception now p q d =
     (case Option.bind (rq_exception_id q) (\<lambda>i. get_exception i d) of
        None \<Rightarrow> None
      | Some x \<Rightarrow> if exception_in_force now p x then Some x else None)"

definition resolution_body ::
  "time \<Rightarrow> authority_policy_snapshot \<Rightarrow> authority_resolution_request \<Rightarrow> bool \<Rightarrow> string
     \<Rightarrow> string list \<Rightarrow> string list \<Rightarrow> uuid option \<Rightarrow> uuid option \<Rightarrow> json" where
  "resolution_body now p q allowed reason roles failures delegation exception =
     JObj [(''policy_digest'', JStr (po_manifest_digest p)),
           (''decision_type'', JStr (rq_decision_type q)), (''action'', JStr (rq_action q)),
           (''object_type'', JStr (rq_object_type q)), (''object_id'', JStr (rq_object_id q)),
           (''object_digest'', JStr (rq_object_digest q)), (''actor'', JStr (rq_actor q)),
           (''roles'', jstrs roles), (''scope'', JObj (rq_scope q)),
           (''risk_level'', JInt (rq_risk_level q)),
           (''outcome'', JStr (if allowed then ''authorized'' else ''denied'')),
           (''reason'', JStr reason), (''failures'', jstrs failures),
           (''delegation_id'', option_json juuid delegation),
           (''exception_id'', option_json juuid exception),
           (''resolved_at'', jtime now)]"

definition decision_record ::
  "time \<Rightarrow> uuid \<Rightarrow> authority_policy_snapshot \<Rightarrow> authority_resolution_request \<Rightarrow> db
     \<Rightarrow> authority_decision_record" where
  "decision_record now i p q d =
     (let ds = delegations_for now p q d;
          delegation = (case ds of [x] \<Rightarrow> Some (dl_id x) | _ \<Rightarrow> None);
          waiver = requested_exception now p q d;
          (allowed, reason, roles, failures) =
            pure_resolution (po_manifest p) q (delegation \<noteq> None) (1 < length ds)
              (map_option ax_rule_key waiver);
          exception = (case waiver of None \<Rightarrow> None
                       | Some x \<Rightarrow> if ax_rule_key x = '''' then None else Some (ax_id x))
      in \<lparr>dr_id = i, dr_policy_id = po_id p, dr_decision_type = rq_decision_type q,
          dr_action = rq_action q, dr_object_type = rq_object_type q,
          dr_object_id = rq_object_id q, dr_object_digest = rq_object_digest q,
          dr_actor = rq_actor q, dr_effective_roles = roles, dr_scope = rq_scope q,
          dr_risk_level = rq_risk_level q,
          dr_outcome = (if allowed then ''authorized'' else ''denied''), dr_reason = reason,
          dr_evidence = [(''failures'', jstrs failures),
                         (''policy_digest'', JStr (po_manifest_digest p))],
          dr_delegation_id = delegation, dr_exception_id = exception,
          dr_record_digest =
            digest_json (resolution_body now p q allowed reason roles failures delegation exception),
          dr_created_at = now\<rparr>)"

text \<open>The result and the state that is kept: a denial commits its record before it raises.\<close>

definition resolve_authority ::
  "time \<Rightarrow> authority_resolution_request \<Rightarrow> db \<Rightarrow> authority_decision_record res \<times> db" where
  "resolve_authority now q d =
     (case active_policy now d of
        Inl e \<Rightarrow> (Inl e, d)
      | Inr p \<Rightarrow>
          (let r = decision_record now (next_uuid d) p q d;
               d1 = d\<lparr>decisions := decisions d @ [r], next_uuid := Suc (next_uuid d)\<rparr>
           in if dr_record_digest r \<in> dr_record_digest ` set (decisions d)
              then (Inl IntegrityError, d)
              else if dr_outcome r = ''authorized'' then (Inr r, d1)
              else (Inl (HTTPException 403
                           (JObj [(''reason'', JStr (dr_reason r)),
                                  (''decision_record_id'', juuid (dr_id r))])), d1)))"

text \<open>
  An operation guarded by a resolution: a refusal keeps the state of the resolution, an
  exception of the operation itself rolls the whole request back.
\<close>

definition guarded ::
  "'a res \<times> db \<Rightarrow> db \<Rightarrow> (db \<Rightarrow> ('b \<times> db) res) \<Rightarrow> 'b res \<times> db" where
  "guarded resolution d op =
     (case resolution of
        (Inl e, d1) \<Rightarrow> (Inl e, d1)
      | (Inr _, d1) \<Rightarrow> (case op d1 of Inl e \<Rightarrow> (Inl e, d) | Inr (x, d2) \<Rightarrow> (Inr x, d2)))"

definition approval_environment :: "task_approval \<Rightarrow> string res" where
  "approval_environment a =
     (case dict_get (ap_scope a) ''environment'' of
        None \<Rightarrow> Inr ''internal''
      | Some (JStr s) \<Rightarrow> Inr s
      | Some _ \<Rightarrow> Inl (ValueError ''environment''))"

definition approval_request ::
  "task_approval \<Rightarrow> string \<Rightarrow> string \<Rightarrow> uuid option \<Rightarrow> authority_resolution_request res" where
  "approval_request a actor action exception_id =
     ebind (approval_environment a) (\<lambda>env.
       (let q = \<lparr>rq_actor = actor, rq_decision_type = ''task-approval'', rq_action = action,
                 rq_object_type = ''task-approval'', rq_object_id = uuid_str (ap_id a),
                 rq_object_digest = ap_plan_digest a, rq_scope = ap_scope a,
                 rq_risk_level = ap_risk_level a, rq_environment = env,
                 rq_requester = Some (ap_requested_by a), rq_originator = None,
                 rq_evaluator = None, rq_active_veto_roles = [],
                 rq_exception_id = exception_id\<rparr>
        in if valid_resolution_request q then Inr q
           else Inl (ValueError ''AuthorityResolutionRequest'')))"

definition resolve_task_approval ::
  "time \<Rightarrow> task_approval \<Rightarrow> string \<Rightarrow> string \<Rightarrow> uuid option \<Rightarrow> db
     \<Rightarrow> authority_decision_record res \<times> db" where
  "resolve_task_approval now a actor action exception_id d =
     (case approval_request a actor action exception_id of
        Inl e \<Rightarrow> (Inl e, d)
      | Inr q \<Rightarrow> resolve_authority now q d)"

section \<open>Delegations and exceptions\<close>

definition check_delegated_type ::
  "authority_policy_manifest \<Rightarrow> authority_delegation \<Rightarrow> string \<Rightarrow> unit \<Rightarrow> unit res" where
  "check_delegated_type m x decision_type _ =
     (case decision_rule m decision_type of
        None \<Rightarrow> http 403 (''Grantor cannot delegate '' @ decision_type @ ''.'')
      | Some rule \<Rightarrow>
          if \<not> dc_delegable rule
             \<or> set (roles_for m (dl_grantor_actor x)) \<inter> set (dc_accountable_roles rule) = {}
          then http 403 (''Grantor cannot delegate '' @ decision_type @ ''.'')
          else if dc_maximum_risk rule < dl_max_risk x
          then http 422 ''Delegation exceeds the parent risk boundary.''
          else Inr ())"

definition validate_delegation :: "time \<Rightarrow> authority_delegation \<Rightarrow> db \<Rightarrow> unit res" where
  "validate_delegation now x d =
     ebind (active_policy now d) (\<lambda>p.
       if dl_grantor_actor x = dl_grantee_actor x
       then http 422 ''Self-delegation is forbidden.''
       else if dl_expires_at x \<le> now \<or> now + MAX_DELEGATION < dl_expires_at x
       then http 422 ''Delegation expiry is outside the bounded interval.''
       else efold (check_delegated_type (po_manifest p) x) (dl_decision_types x) ())"

definition known_rules :: "authority_policy_manifest \<Rightarrow> string list" where
  "known_rules m = concat (map (\<lambda>r. map sr_rule_key (dc_separation r)) (pl_decisions m))"

definition validate_exception_request ::
  "time \<Rightarrow> authority_policy_manifest \<Rightarrow> authority_exception \<Rightarrow> unit res" where
  "validate_exception_request now m x =
     (if ax_requester x = ax_independent_reviewer x
      then http 422 ''Exception review must be independent.''
      else if ax_expires_at x \<le> now \<or> now + MAX_EXCEPTION < ax_expires_at x
      then http 422 ''Exception expiry is outside the bounded interval.''
      else if ax_rule_key x \<in> set (pl_constitutional_boundaries m)
      then http 422 ''Constitutional boundaries cannot be excepted.''
      else if ax_rule_key x \<notin> set (known_rules m)
      then http 422 ''Exception rule is not registered as waivable.''
      else Inr ())"

definition delegation_lapsed :: "time \<Rightarrow> authority_delegation \<Rightarrow> bool" where
  "delegation_lapsed now x = (dl_status x = ''active'' \<and> dl_expires_at x \<le> now)"

definition exception_lapsed :: "time \<Rightarrow> authority_exception \<Rightarrow> bool" where
  "exception_lapsed now x = (ax_status x = ''approved'' \<and> ax_expires_at x \<le> now)"

definition expire_authority :: "time \<Rightarrow> db \<Rightarrow> (nat \<times> nat) \<times> db" where
  "expire_authority now d =
     ((length (filter (delegation_lapsed now) (delegations d)),
       length (filter (exception_lapsed now) (exceptions d))),
      d\<lparr>delegations := map (\<lambda>x. if delegation_lapsed now x then x\<lparr>dl_status := ''expired''\<rparr> else x)
                         (delegations d),
        exceptions := map (\<lambda>x. if exception_lapsed now x
                               then x\<lparr>ax_status := ''expired'', ax_closed_at := Some now,
                                      ax_terminal_disposition := Some ''Expired automatically.''\<rparr>
                               else x) (exceptions d)\<rparr>)"

section \<open>The endpoints (routes/authority.py)\<close>

definition separation_field_str :: "separation_field \<Rightarrow> string" where
  "separation_field_str f =
     (case f of FieldRequester \<Rightarrow> ''requester'' | FieldOriginator \<Rightarrow> ''originator''
      | FieldEvaluator \<Rightarrow> ''evaluator'')"

definition decision_right_json :: "decision_right \<Rightarrow> json" where
  "decision_right_json r =
     JObj [(''decision_type'', JStr (dc_decision_type r)), (''actions'', jstrs (dc_actions r)),
           (''accountable_roles'', jstrs (dc_accountable_roles r)),
           (''veto_roles'', jstrs (dc_veto_roles r)),
           (''environments'', jstrs (dc_environments r)),
           (''maximum_risk'', JInt (dc_maximum_risk r)), (''delegable'', JBool (dc_delegable r)),
           (''constitutional'', JBool (dc_constitutional r)),
           (''separation'',
            JList (map (\<lambda>s. JObj [(''field'', JStr (separation_field_str (sr_field s))),
                                 (''minimum_risk'', JInt (sr_minimum_risk s)),
                                 (''rule_key'', JStr (sr_rule_key s))]) (dc_separation r)))]"

definition policy_manifest_json :: "authority_policy_manifest \<Rightarrow> json" where
  "policy_manifest_json m =
     JObj [(''schema_version'', JStr (pl_schema_version m)),
           (''policy_key'', JStr (pl_policy_key m)), (''version'', JStr (pl_version m)),
           (''roles'',
            JList (map (\<lambda>b. JObj [(''role'', JStr (rb_role b)), (''actors'', jstrs (rb_actors b))])
                     (pl_roles m))),
           (''identity_aliases'', JObj (map (\<lambda>(k, v). (k, JStr v)) (pl_identity_aliases m))),
           (''decisions'', JList (map decision_right_json (pl_decisions m))),
           (''constitutional_boundaries'', jstrs (pl_constitutional_boundaries m))]"

definition create_policy ::
  "time \<Rightarrow> authority_policy_manifest \<Rightarrow> string \<Rightarrow> string \<Rightarrow> db
     \<Rightarrow> (authority_policy_snapshot \<times> db) res" where
  "create_policy now m manifest_digest created_by d =
     ebind (unique_keys m) (\<lambda>_.
       if digest_json (policy_manifest_json m) \<noteq> manifest_digest
       then http 422 ''Authority policy digest mismatch.''
       else
         (case get_row po_manifest_digest (policies d) manifest_digest of
            Some existing \<Rightarrow> Inr (existing, d)
          | None \<Rightarrow>
              if list_ex (\<lambda>p. po_policy_key p = pl_policy_key m \<and> po_version p = pl_version m) (policies d)
              then Inl IntegrityError
              else
                (let p = \<lparr>po_id = next_uuid d, po_policy_key = pl_policy_key m,
                          po_version = pl_version m, po_status = PolicyDraft, po_manifest = m,
                          po_manifest_digest = manifest_digest, po_effective_from = None,
                          po_effective_until = None, po_activated_by = None,
                          po_activated_at = None, po_supersedes_id = None,
                          po_created_by = created_by, po_created_at = now\<rparr>
                 in Inr (p, d\<lparr>policies := policies d @ [p], next_uuid := Suc (next_uuid d)\<rparr>))))"

definition activation_request ::
  "authority_policy_snapshot \<Rightarrow> string \<Rightarrow> authority_resolution_request" where
  "activation_request p actor =
     \<lparr>rq_actor = actor, rq_decision_type = ''policy-activation'', rq_action = ''activate'',
      rq_object_type = ''authority-policy'', rq_object_id = uuid_str (po_id p),
      rq_object_digest = po_manifest_digest p,
      rq_scope = [(''policy_key'', JStr (po_policy_key p)), (''version'', JStr (po_version p))],
      rq_risk_level = 3, rq_environment = ''internal'', rq_requester = Some (po_created_by p),
      rq_originator = None, rq_evaluator = None, rq_active_veto_roles = [],
      rq_exception_id = None\<rparr>"

definition activate :: "time \<Rightarrow> uuid \<Rightarrow> string \<Rightarrow> db \<Rightarrow> unit res \<times> db" where
  "activate now i actor d =
     (case get_policy i d of
        None \<Rightarrow> (http 404 ''Authority policy not found.'', d)
      | Some p \<Rightarrow>
          guarded
            (case current_policy d of
               None \<Rightarrow> (Inr (), d)
             | Some c \<Rightarrow>
                 if po_id c = po_id p then (Inr (), d)
                 else (case resolve_authority now (activation_request p actor) d of
                         (Inl e, d1) \<Rightarrow> (Inl e, d1) | (Inr _, d1) \<Rightarrow> (Inr (), d1)))
            d (\<lambda>d1. ebind (activate_policy now p actor d1) (\<lambda>d2. Inr ((), d2))))"

definition create_delegation ::
  "time \<Rightarrow> delegation_create \<Rightarrow> db \<Rightarrow> (authority_delegation \<times> db) res" where
  "create_delegation now q d =
     ebind (active_policy now d) (\<lambda>p.
       (let x = \<lparr>dl_id = next_uuid d, dl_policy_id = po_id p,
                 dl_grantor_actor = dg_grantor_actor q, dl_grantee_actor = dg_grantee_actor q,
                 dl_decision_types = dg_decision_types q, dl_scope = dg_scope q,
                 dl_max_risk = dg_max_risk q, dl_environment = dg_environment q,
                 dl_reason = dg_reason q, dl_status = ''active'', dl_expires_at = dg_expires_at q,
                 dl_revoked_at = None, dl_created_at = now\<rparr>
        in ebind (validate_delegation now x d) (\<lambda>_.
             Inr (x, d\<lparr>delegations := delegations d @ [x], next_uuid := Suc (next_uuid d)\<rparr>))))"

definition revoke_delegation :: "time \<Rightarrow> uuid \<Rightarrow> string \<Rightarrow> db \<Rightarrow> db res" where
  "revoke_delegation now i actor d =
     (case get_delegation i d of
        None \<Rightarrow> http 404 ''Delegation not found.''
      | Some x \<Rightarrow>
          if dl_status x \<noteq> ''active'' then http 409 ''Delegation is not active.''
          else
            ebind (if actor = dl_grantor_actor x then Inr True
                   else ebind (active_policy now d) (\<lambda>p.
                          Inr (''governance'' \<in> set (roles_for (po_manifest p) actor))))
              (\<lambda>ok.
                if \<not> ok then http 403 ''Actor cannot revoke this delegation.''
                else Inr (upd_delegation i
                       (\<lambda>x. x\<lparr>dl_status := ''revoked'', dl_revoked_at := Some now\<rparr>) d)))"

definition exception_create_json :: "(time \<Rightarrow> string) \<Rightarrow> exception_create \<Rightarrow> dict" where
  "exception_create_json dump_time q =
     [(''rule_key'', JStr (xc_rule_key q)), (''requester'', JStr (xc_requester q)),
      (''independent_reviewer'', JStr (xc_independent_reviewer q)),
      (''reason'', JStr (xc_reason q)), (''scope'', JObj (xc_scope q)),
      (''risk_level'', JInt (xc_risk_level q)),
      (''compensating_controls'', jstrs (xc_compensating_controls q)),
      (''expires_at'', JStr (dump_time (xc_expires_at q)))]"

definition create_exception ::
  "(time \<Rightarrow> string) \<Rightarrow> time \<Rightarrow> exception_create \<Rightarrow> db \<Rightarrow> (authority_exception \<times> db) res" where
  "create_exception dump_time now q d =
     ebind (active_policy now d) (\<lambda>p.
       (let x = \<lparr>ax_id = next_uuid d, ax_policy_id = po_id p, ax_rule_key = xc_rule_key q,
                 ax_requester = xc_requester q, ax_approver = None,
                 ax_independent_reviewer = xc_independent_reviewer q, ax_reason = xc_reason q,
                 ax_scope = xc_scope q, ax_risk_level = xc_risk_level q,
                 ax_compensating_controls = xc_compensating_controls q, ax_status = ''pending'',
                 ax_effective_from = None, ax_expires_at = xc_expires_at q, ax_closed_at = None,
                 ax_terminal_disposition = None,
                 ax_record_digest =
                   digest_json (JObj ((''policy_digest'', JStr (po_manifest_digest p))
                     # exception_create_json dump_time q)),
                 ax_created_at = now\<rparr>
        in ebind (validate_exception_request now (po_manifest p) x) (\<lambda>_.
             if ax_record_digest x \<in> ax_record_digest ` set (exceptions d) then Inl IntegrityError
             else Inr (x, d\<lparr>exceptions := exceptions d @ [x], next_uuid := Suc (next_uuid d)\<rparr>))))"

fun decided_exception ::
  "exception_action \<Rightarrow> time \<Rightarrow> string \<Rightarrow> string \<Rightarrow> authority_exception \<Rightarrow> authority_exception" where
  "decided_exception ApproveException now actor reason x =
     x\<lparr>ax_status := ''approved'', ax_approver := Some actor, ax_effective_from := Some now\<rparr>"
| "decided_exception RejectException now actor reason x =
     x\<lparr>ax_status := ''rejected'', ax_approver := Some actor, ax_closed_at := Some now,
       ax_terminal_disposition := Some reason\<rparr>"
| "decided_exception CloseException now actor reason x =
     x\<lparr>ax_status := ''closed'', ax_closed_at := Some now, ax_terminal_disposition := Some reason\<rparr>"

definition decide_exception ::
  "time \<Rightarrow> uuid \<Rightarrow> string \<Rightarrow> string \<Rightarrow> exception_action \<Rightarrow> db \<Rightarrow> db res" where
  "decide_exception now i actor reason act d =
     (case get_exception i d of
        None \<Rightarrow> http 404 ''Authority exception not found.''
      | Some x \<Rightarrow>
          if ax_status x \<notin> {''pending'', ''approved''} then http 409 ''Exception is already terminal.''
          else
            ebind (active_policy now d) (\<lambda>p.
              if ''governance'' \<notin> set (roles_for (po_manifest p) actor)
                 \<or> actor \<in> {ax_requester x, ax_independent_reviewer x}
              then http 403 ''Exception approval requires an independent governance authority.''
              else Inr (upd_exception i (decided_exception act now actor reason) d)))"

section \<open>Who is authorised\<close>

lemma sorted_set_Nil: "sorted_set xs = [] \<longleftrightarrow> xs = []"
  by (metis set_empty2 set_remdups set_sort sorted_set_def)

lemma rule_failures_empty:
  "rule_failures m q rule delegated waived = [] \<longleftrightarrow>
     rq_action q \<in> set (dc_actions rule) \<and> rq_risk_level q \<le> dc_maximum_risk rule
     \<and> (''*'' \<in> set (dc_environments rule) \<or> rq_environment q \<in> set (dc_environments rule))
     \<and> (set (roles_for m (rq_actor q)) \<inter> set (dc_accountable_roles rule) \<noteq> {} \<or> delegated)
     \<and> set (rq_active_veto_roles q) \<inter> set (dc_veto_roles rule) = {}
     \<and> list_all (\<lambda>s. \<not> separation_violated m q rule waived s) (dc_separation rule)"
  unfolding rule_failures_def Let_def append_is_Nil_conv
  by (auto simp: sorted_set_Nil filter_empty_conv list_all_iff not_less split: if_split_asm)

lemma active_policy_Inr:
  "active_policy now d = Inr p \<Longrightarrow> p \<in> set (policies d) \<and> policy_effective now p"
  by (auto simp: active_policy_def find_Some_iff split: option.splits)

lemma authorized_iff:
  "fst (pure_resolution m q delegated conflict waived) \<longleftrightarrow>
     \<not> conflict \<and> (\<exists>rule. decision_rule m (rq_decision_type q) = Some rule
        \<and> rule_failures m q rule delegated waived = [])"
  by (simp add: pure_resolution_def Let_def split: option.split)

lemma dr_outcome_decision_record:
  "dr_outcome (decision_record now i p q d) = ''authorized'' \<longleftrightarrow>
     fst (pure_resolution (po_manifest p) q (\<exists>x. delegations_for now p q d = [x])
       (1 < length (delegations_for now p q d)) (map_option ax_rule_key (requested_exception now p q d)))"
  by (simp add: decision_record_def Let_def case_prod_unfold split: list.split)

lemma requested_exception_Some:
  assumes "requested_exception now p q d = Some x"
  shows "x \<in> set (exceptions d)" "rq_exception_id q = Some (ax_id x)" "exception_in_force now p x"
  using assms get_row_Some_in
  by (fastforce simp: requested_exception_def get_exception_def bind_eq_Some_conv
      split: option.splits if_split_asm)+

lemma delegations_for_single:
  assumes "delegations_for now p q d = [x]" and "decision_rule (po_manifest p) (rq_decision_type q) = Some rule"
  shows "dc_delegable rule \<and> applicable_delegations now p q d = [x]"
  using assms by (auto simp: delegations_for_def split: if_split_asm)

lemma resolve_authority_Inr:
  assumes "resolve_authority now q d = (Inr r, d')"
  obtains p where "active_policy now d = Inr p" and "r = decision_record now (next_uuid d) p q d"
    and "dr_outcome r = ''authorized''"
    and "d' = d\<lparr>decisions := decisions d @ [r], next_uuid := Suc (next_uuid d)\<rparr>"
proof (cases "active_policy now d")
  case (Inl e)
  then show ?thesis using assms by (simp add: resolve_authority_def)
next
  case (Inr p)
  then show ?thesis using assms that[OF Inr] by (auto simp: resolve_authority_def Let_def split: if_split_asm)
qed

text \<open>
  What an authorised decision rests on: the rule \<open>rule\<close> of the policy \<open>p\<close> for the decision
  covers the request, and each separation it asks for is kept or waived.
\<close>

definition separation_waived ::
  "time \<Rightarrow> authority_policy_snapshot \<Rightarrow> decision_right \<Rightarrow> authority_resolution_request \<Rightarrow> string \<Rightarrow> db
     \<Rightarrow> bool" where
  "separation_waived now p rule q key d =
     (\<not> dc_constitutional rule
      \<and> list_ex (\<lambda>x. rq_exception_id q = Some (ax_id x) \<and> exception_in_force now p x
                   \<and> ax_rule_key x = key) (exceptions d))"

definition authorised ::
  "time \<Rightarrow> authority_policy_snapshot \<Rightarrow> decision_right \<Rightarrow> authority_resolution_request \<Rightarrow> db \<Rightarrow> bool" where
  "authorised now p rule q d =
     (p \<in> set (policies d) \<and> policy_effective now p
      \<and> decision_rule (po_manifest p) (rq_decision_type q) = Some rule
      \<and> rq_action q \<in> set (dc_actions rule) \<and> rq_risk_level q \<le> dc_maximum_risk rule
      \<and> set (dc_environments rule) \<inter> {''*'', rq_environment q} \<noteq> {}
      \<and> (set (roles_for (po_manifest p) (rq_actor q)) \<inter> set (dc_accountable_roles rule) \<noteq> {}
         \<or> dc_delegable rule \<and> length (applicable_delegations now p q d) = 1)
      \<and> set (rq_active_veto_roles q) \<inter> set (dc_veto_roles rule) = {}
      \<and> list_all (\<lambda>s. sr_minimum_risk s \<le> rq_risk_level q
           \<and> principal_for (po_manifest p) (participant (sr_field s) q)
               = principal_for (po_manifest p) (Some (rq_actor q)) \<longrightarrow>
           separation_waived now p rule q (sr_rule_key s) d) (dc_separation rule))"

lemma resolve_authorised:
  assumes "resolve_authority now q d = (Inr r, d')"
  obtains p rule where "authorised now p rule q d" and "dr_actor r = rq_actor q"
    and "dr_policy_id r = po_id p" and "dr_object_id r = rq_object_id q"
    and "dr_object_digest r = rq_object_digest q" and "dr_outcome r = ''authorized''"
    and "d' = d\<lparr>decisions := decisions d @ [r], next_uuid := Suc (next_uuid d)\<rparr>"
proof -
  obtain p where p: "active_policy now d = Inr p" and r: "r = decision_record now (next_uuid d) p q d"
    and out: "dr_outcome r = ''authorized''"
    and d': "d' = d\<lparr>decisions := decisions d @ [r], next_uuid := Suc (next_uuid d)\<rparr>"
    by (rule resolve_authority_Inr[OF assms])
  let ?w = "map_option ax_rule_key (requested_exception now p q d)"
  obtain rule where rule: "decision_rule (po_manifest p) (rq_decision_type q) = Some rule"
    and ok: "rule_failures (po_manifest p) q rule (\<exists>x. delegations_for now p q d = [x]) ?w = []"
    using out unfolding r dr_outcome_decision_record authorized_iff by blast
  have sep: "separation_waived now p rule q (sr_rule_key s) d"
    if "s \<in> set (dc_separation rule)" "sr_minimum_risk s \<le> rq_risk_level q"
      "principal_for (po_manifest p) (participant (sr_field s) q)
        = principal_for (po_manifest p) (Some (rq_actor q))" for s
  proof -
    have "\<not> dc_constitutional rule \<and> ?w = Some (sr_rule_key s)"
      using ok that unfolding rule_failures_empty list_all_iff separation_violated_def by blast
    then show ?thesis
      using requested_exception_Some by (auto simp: separation_waived_def list_ex_iff map_option_eq_Some)
  qed
  have row: "dr_actor r = rq_actor q" "dr_policy_id r = po_id p" "dr_object_id r = rq_object_id q"
      "dr_object_digest r = rq_object_digest q"
    by (simp_all add: r decision_record_def Let_def case_prod_unfold)
  have "authorised now p rule q d"
    using active_policy_Inr[OF p] rule ok delegations_for_single[OF _ rule] sep
    by (auto simp: authorised_def rule_failures_empty list_all_iff)
  then show ?thesis using that row d' out by blast
qed

text \<open>
  (C35) A decision is authorised only under the policy in force and by its rule for the
  decision: the action, the risk and the environment are within the rule; the actor holds an
  accountable role or exactly one delegation applies; no role with a veto objects; and
  whoever must be separate from the actor at this risk is another person, unless the rule is
  not constitutional and an approved exception in force waives that very separation. The
  decision is recorded.
\<close>

theorem resolve_authority_sound:
  assumes "resolve_authority now q d = (Inr r, d')"
  shows "\<exists>p rule. p \<in> set (policies d) \<and> policy_effective now p
    \<and> decision_rule (po_manifest p) (rq_decision_type q) = Some rule
    \<and> rq_action q \<in> set (dc_actions rule) \<and> rq_risk_level q \<le> dc_maximum_risk rule
    \<and> set (dc_environments rule) \<inter> {''*'', rq_environment q} \<noteq> {}
    \<and> (set (roles_for (po_manifest p) (rq_actor q)) \<inter> set (dc_accountable_roles rule) \<noteq> {}
       \<or> dc_delegable rule \<and> length (applicable_delegations now p q d) = 1)
    \<and> set (rq_active_veto_roles q) \<inter> set (dc_veto_roles rule) = {}
    \<and> (\<forall>s \<in> set (dc_separation rule).
         sr_minimum_risk s \<le> rq_risk_level q
         \<and> principal_for (po_manifest p) (participant (sr_field s) q)
             = principal_for (po_manifest p) (Some (rq_actor q)) \<longrightarrow>
         \<not> dc_constitutional rule
         \<and> (\<exists>x \<in> set (exceptions d). rq_exception_id q = Some (ax_id x)
              \<and> exception_in_force now p x \<and> ax_rule_key x = sr_rule_key s))
    \<and> dr_actor r = rq_actor q \<and> dr_policy_id r = po_id p \<and> decisions d' = decisions d @ [r]"
proof -
  obtain p rule where "authorised now p rule q d" "dr_actor r = rq_actor q" "dr_policy_id r = po_id p"
      "d' = d\<lparr>decisions := decisions d @ [r], next_uuid := Suc (next_uuid d)\<rparr>"
    by (rule resolve_authorised[OF assms])
  then show ?thesis
    by (intro exI[of _ p] exI[of _ rule])
       (auto simp: authorised_def separation_waived_def list_all_iff list_ex_iff)
qed

text \<open> No resolution is lost: under a policy in force every resolution whose record is new
  appends exactly one record and changes nothing else, whether it authorises or refuses, and
  it refuses exactly when the record says so.
\<close>

theorem resolve_authority_records:
  assumes "active_policy now d = Inr p"
    and "dr_record_digest (decision_record now (next_uuid d) p q d) \<notin> dr_record_digest ` set (decisions d)"
  shows "\<exists>r. snd (resolve_authority now q d)
        = d\<lparr>decisions := decisions d @ [r], next_uuid := Suc (next_uuid d)\<rparr>
    \<and> dr_object_id r = rq_object_id q \<and> dr_outcome r \<in> {''authorized'', ''denied''}
    \<and> (dr_outcome r = ''authorized'' \<longleftrightarrow> fst (resolve_authority now q d) = Inr r)
    \<and> (dr_outcome r = ''denied'' \<longleftrightarrow> fst (resolve_authority now q d) = Inl (HTTPException 403
         (JObj [(''reason'', JStr (dr_reason r)), (''decision_record_id'', juuid (dr_id r))])))"
proof -
  let ?r = "decision_record now (next_uuid d) p q d"
  have "dr_outcome ?r \<in> {''authorized'', ''denied''}" "dr_object_id ?r = rq_object_id q"
    by (simp_all add: decision_record_def Let_def case_prod_unfold)
  then show ?thesis
    using assms by (intro exI[of _ ?r]) (auto simp: resolve_authority_def Let_def)
qed

section \<open>Invariants of policies, delegations and exceptions\<close>

text \<open>One committed request of the authority endpoints.\<close>

inductive authority_step :: "(time \<Rightarrow> string) \<Rightarrow> db \<Rightarrow> db \<Rightarrow> bool" for dump_time where
  policy: "create_policy now m dig actor d = Inr (p, d') \<Longrightarrow> authority_step dump_time d d'"
| activate: "authority_step dump_time d (snd (activate now i actor d))"
| resolve: "authority_step dump_time d (snd (resolve_authority now q d))"
| delegate: "create_delegation now x d = Inr (r, d') \<Longrightarrow> authority_step dump_time d d'"
| revoke: "revoke_delegation now i actor d = Inr d' \<Longrightarrow> authority_step dump_time d d'"
| except: "create_exception dump_time now x d = Inr (e, d') \<Longrightarrow> authority_step dump_time d d'"
| decide: "decide_exception now i actor reason act d = Inr d' \<Longrightarrow> authority_step dump_time d d'"
| expire: "authority_step dump_time d (snd (expire_authority now d))"

definition one_active :: "authority_policy_snapshot list \<Rightarrow> bool" where
  "one_active ps =
     (\<forall>p \<in> set ps. \<forall>r \<in> set ps. po_status p = PolicyActive \<and> po_status r = PolicyActive
        \<longrightarrow> po_id p = po_id r)"

definition single_policy :: "db \<Rightarrow> bool" where
  "single_policy d =
     (distinct (map po_id (policies d)) \<and> list_all (\<lambda>i. i < next_uuid d) (map po_id (policies d))
      \<and> one_active (policies d))"

definition delegation_bounded :: "authority_delegation \<Rightarrow> bool" where
  "delegation_bounded x =
     (dl_grantor_actor x \<noteq> dl_grantee_actor x \<and> dl_created_at x < dl_expires_at x
      \<and> dl_expires_at x \<le> dl_created_at x + MAX_DELEGATION)"

definition exception_bounded :: "authority_exception \<Rightarrow> bool" where
  "exception_bounded x =
     (ax_requester x \<noteq> ax_independent_reviewer x \<and> ax_created_at x < ax_expires_at x
      \<and> ax_expires_at x \<le> ax_created_at x + MAX_EXCEPTION
      \<and> (ax_status x = ''approved'' \<longrightarrow>
          (\<exists>g. ax_approver x = Some g \<and> g \<noteq> ax_requester x \<and> g \<noteq> ax_independent_reviewer x)))"

definition exception_ids :: "db \<Rightarrow> bool" where
  "exception_ids d =
     (distinct (map ax_id (exceptions d)) \<and> list_all (\<lambda>i. i < next_uuid d) (map ax_id (exceptions d)))"

definition authority_ok :: "db \<Rightarrow> bool" where
  "authority_ok d =
     (single_policy d \<and> exception_ids d \<and> list_all delegation_bounded (delegations d)
      \<and> list_all exception_bounded (exceptions d))"

lemma one_activeD:
  assumes "one_active ps" and "p \<in> set ps" and "r \<in> set ps"
    and "po_status p = PolicyActive" and "po_status r = PolicyActive"
  shows "po_id p = po_id r"
  using assms unfolding one_active_def by blast

lemma one_active_snoc:
  assumes "one_active ps" and "po_status p \<noteq> PolicyActive"
  shows "one_active (ps @ [p])"
  unfolding one_active_def
proof (intro ballI impI)
  fix a b assume ab: "a \<in> set (ps @ [p])" "b \<in> set (ps @ [p])"
    "po_status a = PolicyActive \<and> po_status b = PolicyActive"
  then have "a \<in> set ps" "b \<in> set ps" using assms(2) by auto
  then show "po_id a = po_id b" using one_activeD[OF assms(1)] ab(3) by blast
qed

lemma ids_below: "list_all (\<lambda>i. i < n) xs \<Longrightarrow> n \<le> m \<Longrightarrow> list_all (\<lambda>i. i < m) xs" for n m :: nat
  by (auto simp: list_all_iff)

lemma single_policy_grow:
  assumes "single_policy d" and "policies d' = policies d" and "next_uuid d \<le> next_uuid d'"
  shows "single_policy d'"
  using assms ids_below[of "next_uuid d" "map po_id (policies d)" "next_uuid d'"]
  by (simp add: single_policy_def)

lemma exception_ids_grow:
  assumes "exception_ids d" and "map ax_id (exceptions d') = map ax_id (exceptions d)"
    and "next_uuid d \<le> next_uuid d'"
  shows "exception_ids d'"
  using assms ids_below[of "next_uuid d" "map ax_id (exceptions d)" "next_uuid d'"]
  by (simp add: exception_ids_def)

lemma authority_ok_cong:
  assumes "authority_ok d" and "policies d' = policies d" and "next_uuid d \<le> next_uuid d'"
    and "delegations d' = delegations d" and "exceptions d' = exceptions d"
  shows "authority_ok d'"
  using assms single_policy_grow[of d d'] exception_ids_grow[of d d'] by (simp add: authority_ok_def)

lemma resolve_authority_rows:
  "policies (snd (resolve_authority now q d)) = policies d"
  "delegations (snd (resolve_authority now q d)) = delegations d"
  "exceptions (snd (resolve_authority now q d)) = exceptions d"
  "next_uuid d \<le> next_uuid (snd (resolve_authority now q d))"
  "tasks (snd (resolve_authority now q d)) = tasks d"
  "approvals (snd (resolve_authority now q d)) = approvals d"
  by (auto simp: resolve_authority_def Let_def split: sum.split)

lemma upd_policy_rows [simp]:
  "delegations (upd_policy i f d) = delegations d" "exceptions (upd_policy i f d) = exceptions d"
  "next_uuid (upd_policy i f d) = next_uuid d"
  "policies (upd_policy i f d) = upd_row po_id i f (policies d)"
  by (simp_all add: upd_policy_def)

lemma current_policy_Some:
  "current_policy d = Some c \<Longrightarrow> c \<in> set (policies d) \<and> po_status c = PolicyActive"
  by (auto simp: current_policy_def find_Some_iff)

lemma current_policy_id:
  assumes "single_policy d" and "r \<in> set (policies d)" and "po_status r = PolicyActive"
  shows "\<exists>c. current_policy d = Some c \<and> po_id c = po_id r"
proof -
  obtain c where c: "current_policy d = Some c"
    using assms(2,3) by (cases "current_policy d") (auto simp: current_policy_def find_None_iff)
  have "one_active (policies d)" using assms(1) by (simp add: single_policy_def)
  from one_activeD[OF this _ assms(2) _ assms(3)] current_policy_Some[OF c]
  show ?thesis using c by blast
qed

lemma upd_row_other:
  assumes "r \<in> set (upd_row key i f rows)" and "\<And>x. key (f x) = key x" and "key r \<noteq> i"
  shows "r \<in> set rows"
  using assms by (auto simp: upd_row_def)

lemma upd_row_same:
  assumes "r \<in> set (upd_row key i f rows)" and "\<And>x. key (f x) = key x" and "key r = i"
  shows "\<exists>x \<in> set rows. r = f x"
  using assms by (auto simp: upd_row_def)

lemma activated_rows:
  assumes "activate_policy now p actor d = Inr d'" and "r \<in> set (policies d')"
    and "po_status r = PolicyActive" and "po_id r \<noteq> po_id p"
  shows "r \<in> set (policies d) \<and> (\<forall>c. current_policy d = Some c \<longrightarrow> po_id r \<noteq> po_id c)"
proof (cases "current_policy d")
  case None
  then have "policies d' = upd_row po_id (po_id p)
      (\<lambda>p. p\<lparr>po_status := PolicyActive, po_effective_from := Some now, po_effective_until := None,
             po_activated_by := Some actor, po_activated_at := Some now\<rparr>) (policies d)"
    using assms(1) by (auto simp: activate_policy_def split: if_split_asm)
  then show ?thesis using assms(2) None by (auto intro: upd_row_other[where key = po_id, OF _ _ assms(4)])
next
  case (Some c)
  let ?ps = "upd_row po_id (po_id c) (\<lambda>c. c\<lparr>po_status := PolicyRetired, po_effective_until := Some now\<rparr>)
    (policies d)"
  have r: "r \<in> set ?ps"
  proof -
    have "d' = upd_policy (po_id p) (\<lambda>p. p\<lparr>po_status := PolicyActive, po_effective_from := Some now,
                          po_effective_until := None, po_activated_by := Some actor,
                          po_activated_at := Some now\<rparr>)
        (upd_policy (po_id p) (\<lambda>p. p\<lparr>po_supersedes_id := Some (po_id c)\<rparr>)
          (upd_policy (po_id c) (\<lambda>c. c\<lparr>po_status := PolicyRetired, po_effective_until := Some now\<rparr>) d))"
      using assms(1) Some by (simp add: activate_policy_def Let_def split: if_split_asm)
    then have "r \<in> set (upd_row po_id (po_id p) (\<lambda>p. p\<lparr>po_supersedes_id := Some (po_id c)\<rparr>) ?ps)"
      using assms(2) by (auto intro: upd_row_other[where key = po_id, OF _ _ assms(4)])
    then show ?thesis by (rule upd_row_other[where key = po_id, OF _ _ assms(4)]) simp
  qed
  have "po_id r \<noteq> po_id c" using upd_row_same[OF r] assms(3) by fastforce
  then show ?thesis using upd_row_other[OF r] Some by simp
qed

lemma single_policy_activate:
  assumes "single_policy d" and "activate_policy now p actor d = Inr d'"
  shows "single_policy d'"
proof -
  have rows: "map po_id (policies d') = map po_id (policies d)" "next_uuid d' = next_uuid d"
    using assms(2)
    by (auto simp: activate_policy_def Let_def split: if_split_asm option.splits)
  have "po_id r = po_id p" if r: "r \<in> set (policies d')" "po_status r = PolicyActive" for r
    using activated_rows[OF assms(2) r] current_policy_id[OF assms(1) _ r(2)] by metis
  then have "one_active (policies d')" unfolding one_active_def by metis
  then show ?thesis using assms(1) rows by (simp add: single_policy_def)
qed

lemma guarded_state:
  assumes "guarded res d op = (x, d')"
  shows "d' = snd res \<or> d' = d \<or> (\<exists>y. op (snd res) = Inr (y, d'))"
  using assms by (auto simp: guarded_def split: prod.splits sum.splits)

lemma activate_policy_rows:
  assumes "activate_policy now p actor d = Inr d'"
  shows "delegations d' = delegations d" "exceptions d' = exceptions d" "next_uuid d' = next_uuid d"
  using assms by (auto simp: activate_policy_def Let_def split: if_split_asm option.splits)

lemma authority_ok_activate_policy:
  assumes "authority_ok d" and "activate_policy now p actor d = Inr d'"
  shows "authority_ok d'"
  using assms single_policy_activate[OF _ assms(2)] activate_policy_rows[OF assms(2)]
    exception_ids_grow[of d d'] by (simp add: authority_ok_def)

lemma authority_ok_resolve:
  "authority_ok d \<Longrightarrow> authority_ok (snd (resolve_authority now q d))"
  by (rule authority_ok_cong) (simp_all add: resolve_authority_rows)

text \<open>The state an activation leaves: that of the resolution it may ask for, possibly with the policy activated.\<close>

lemma activate_outcome:
  obtains p q d1 where "d1 = d \<or> d1 = snd (resolve_authority now q d)"
    and "snd (activate now i actor d) \<in> {d, d1} \<or> activate_policy now p actor d1 = Inr (snd (activate now i actor d))"
proof (cases "get_policy i d")
  case None
  then have "snd (activate now i actor d) = d" by (simp add: activate_def)
  then show ?thesis using that[of d] by simp
next
  case (Some p)
  define res where "res = (case current_policy d of None \<Rightarrow> (Inr (), d)
    | Some c \<Rightarrow> if po_id c = po_id p then (Inr (), d)
        else (case resolve_authority now (activation_request p actor) d of
                (Inl e, d1) \<Rightarrow> (Inl e, d1) | (Inr _, d1) \<Rightarrow> (Inr (), d1)))"
  let ?d' = "snd (activate now i actor d)"
  have res: "snd res = d \<or> snd res = snd (resolve_authority now (activation_request p actor) d)"
    by (auto simp: res_def split: option.split prod.split sum.split)
  have "activate now i actor d = guarded res d
      (\<lambda>d1. ebind (activate_policy now p actor d1) (\<lambda>d2. Inr ((), d2)))"
    using Some by (simp add: activate_def res_def)
  from guarded_state[OF this[symmetric, THEN trans, OF surjective_pairing]]
  have "?d' \<in> {d, snd res} \<or> activate_policy now p actor (snd res) = Inr ?d'"
    by (auto simp: ebind_Inr_iff)
  then show ?thesis by (rule that[OF res])
qed

lemma authority_ok_activate:
  assumes "authority_ok d"
  shows "authority_ok (snd (activate now i actor d))"
proof -
  obtain p q d1 where d1: "d1 = d \<or> d1 = snd (resolve_authority now q d)"
    and d': "snd (activate now i actor d) \<in> {d, d1} \<or> activate_policy now p actor d1 = Inr (snd (activate now i actor d))"
    by (rule activate_outcome)
  have "authority_ok d1" using d1 assms authority_ok_resolve[OF assms] by auto
  then show ?thesis using d' assms authority_ok_activate_policy by auto
qed

lemma activate_uuid: "next_uuid d \<le> next_uuid (snd (activate now i actor d))"
proof -
  obtain p q d1 where d1: "d1 = d \<or> d1 = snd (resolve_authority now q d)"
    and d': "snd (activate now i actor d) \<in> {d, d1} \<or> activate_policy now p actor d1 = Inr (snd (activate now i actor d))"
    by (rule activate_outcome)
  have "next_uuid d \<le> next_uuid d1" using d1 resolve_authority_rows(4) by auto
  then show ?thesis using d' activate_policy_rows(3) by force
qed

lemma single_policy_create:
  assumes "single_policy d" and "create_policy now m dig actor d = Inr (p, d')"
  shows "single_policy d'"
proof (cases "policies d' = policies d")
  case True
  then have "next_uuid d \<le> next_uuid d'" "policies d' = policies d"
    using assms(2) by (auto simp: create_policy_def Let_def ebind_Inr_iff split: if_split_asm option.splits)
  then show ?thesis using assms(1) ids_below by (auto simp: single_policy_def)
next
  case False
  then have new: "policies d' = policies d @ [p]" "po_id p = next_uuid d" "po_status p = PolicyDraft"
      "next_uuid d' = Suc (next_uuid d)"
    using assms(2) by (auto simp: create_policy_def Let_def ebind_Inr_iff split: if_split_asm option.splits)
  have "one_active (policies d')"
    using assms(1) new(3) unfolding new(1) single_policy_def by (intro one_active_snoc) simp_all
  moreover have "next_uuid d \<notin> po_id ` set (policies d)"
    using assms(1) by (auto simp: single_policy_def list_all_iff)
  moreover have "list_all (\<lambda>i. i < Suc (next_uuid d)) (map po_id (policies d))"
    using assms(1) ids_below[of "next_uuid d"] by (simp add: single_policy_def)
  ultimately show ?thesis using assms(1) new by (simp add: single_policy_def)
qed

lemma create_policy_rows:
  assumes "create_policy now m dig actor d = Inr (p, d')"
  shows "delegations d' = delegations d" "exceptions d' = exceptions d" "next_uuid d \<le> next_uuid d'"
  using assms by (auto simp: create_policy_def Let_def ebind_Inr_iff split: if_split_asm option.splits)

lemma created_delegation:
  assumes "create_delegation now q d = Inr (x, d')"
  shows "delegation_bounded x" "delegations d' = delegations d @ [x]" "policies d' = policies d"
    "exceptions d' = exceptions d" "next_uuid d' = Suc (next_uuid d)"
  using assms
  by (auto simp: create_delegation_def validate_delegation_def delegation_bounded_def Let_def
      ebind_Inr_iff split: if_split_asm)

lemma created_exception:
  assumes "create_exception dump_time now q d = Inr (x, d')"
  shows "exception_bounded x" "exceptions d' = exceptions d @ [x]" "policies d' = policies d"
    "delegations d' = delegations d" "next_uuid d' = Suc (next_uuid d)" "ax_id x = next_uuid d"
  using assms
  by (auto simp: create_exception_def validate_exception_request_def exception_bounded_def Let_def
      ebind_Inr_iff split: if_split_asm)

lemma revoked_delegation:
  assumes "revoke_delegation now i actor d = Inr d'"
  shows "d' = upd_delegation i (\<lambda>x. x\<lparr>dl_status := ''revoked'', dl_revoked_at := Some now\<rparr>) d"
  using assms by (auto simp: revoke_delegation_def ebind_Inr_iff split: if_split_asm option.splits)

lemma decided_exception_bounded:
  assumes "exception_bounded x" and "actor \<noteq> ax_requester x" and "actor \<noteq> ax_independent_reviewer x"
  shows "exception_bounded (decided_exception act now actor reason x)"
  using assms by (cases act) (simp_all add: exception_bounded_def)

lemma decide_exception_Inr:
  assumes "decide_exception now i actor reason act d = Inr d'"
  obtains x where "get_exception i d = Some x" and "actor \<noteq> ax_requester x"
    and "actor \<noteq> ax_independent_reviewer x"
    and "d' = upd_exception i (decided_exception act now actor reason) d"
  using assms by (auto simp: decide_exception_def ebind_Inr_iff split: if_split_asm option.splits)

lemma list_all_upd_first:
  assumes "list_all P rows" and "distinct (map key rows)" and "get_row key rows i = Some x"
    and "P (f x)"
  shows "list_all P (upd_row key i f rows)"
  using assms get_row_in[OF assms(2)] by (auto simp: upd_row_def list_all_iff)

lemma exception_ids_snoc:
  assumes "exception_ids d" and "exceptions d' = exceptions d @ [x]" and "ax_id x = next_uuid d"
    and "next_uuid d' = Suc (next_uuid d)"
  shows "exception_ids d'"
proof -
  have "next_uuid d \<notin> ax_id ` set (exceptions d)"
    using assms(1) by (auto simp: exception_ids_def list_all_iff)
  then show ?thesis
    using assms ids_below[of "next_uuid d" "map ax_id (exceptions d)" "Suc (next_uuid d)"]
    by (simp add: exception_ids_def)
qed

lemma authority_ok_decide:
  assumes "authority_ok d" and "decide_exception now i actor reason act d = Inr d'"
  shows "authority_ok d'"
proof -
  obtain x where x: "get_exception i d = Some x" "actor \<noteq> ax_requester x"
      "actor \<noteq> ax_independent_reviewer x"
    and d': "d' = upd_exception i (decided_exception act now actor reason) d"
    by (rule decide_exception_Inr[OF assms(2)])
  have "x \<in> set (exceptions d)" using x(1) get_row_Some_in by (fastforce simp: get_exception_def)
  then have "exception_bounded (decided_exception act now actor reason x)"
    using assms(1) x(2,3) by (intro decided_exception_bounded) (auto simp: authority_ok_def list_all_iff)
  then have "list_all exception_bounded (exceptions d')"
    using assms(1) x(1) list_all_upd_first[of exception_bounded "exceptions d" ax_id i x]
    by (simp add: d' upd_exception_def get_exception_def authority_ok_def exception_ids_def)
  moreover have keys: "ax_id (decided_exception act now actor reason y) = ax_id y" for y
    by (cases act) simp_all
  have "exception_ids d'"
    by (rule exception_ids_grow[of d]) (use assms(1) keys in \<open>simp_all add: authority_ok_def d' upd_exception_def\<close>)
  moreover have "single_policy d'"
    by (rule single_policy_grow[of d]) (use assms(1) in \<open>simp_all add: authority_ok_def d' upd_exception_def\<close>)
  ultimately show ?thesis using assms(1) by (simp add: authority_ok_def d' upd_exception_def)
qed

lemma authority_ok_expire: "authority_ok d \<Longrightarrow> authority_ok (snd (expire_authority now d))"
proof -
  assume ok: "authority_ok d"
  let ?d = "snd (expire_authority now d)"
  have ids: "map ax_id (exceptions ?d) = map ax_id (exceptions d)" by (simp add: expire_authority_def)
  have "single_policy ?d" by (rule single_policy_grow[of d]) (use ok in \<open>simp_all add: authority_ok_def expire_authority_def\<close>)
  moreover have "exception_ids ?d" 
    by (rule exception_ids_grow[of d, OF _ ids]) (use ok in \<open>simp_all add: authority_ok_def expire_authority_def\<close>)
  moreover have "list_all delegation_bounded (delegations ?d)"
    using ok by (auto simp: authority_ok_def expire_authority_def list_all_iff delegation_bounded_def)
  moreover have "list_all exception_bounded (exceptions ?d)"
    using ok by (auto simp: authority_ok_def expire_authority_def list_all_iff exception_bounded_def)
  ultimately show ?thesis by (simp add: authority_ok_def)
qed

lemma authority_ok_step:
  assumes "authority_step dump_time d d'" and "authority_ok d"
  shows "authority_ok d'"
  using assms
proof (induction rule: authority_step.induct)
  case (policy now m dig actor d p d')
  then show ?case
    using single_policy_create[OF _ policy(1)] create_policy_rows[OF policy(1)] exception_ids_grow[of d d']
    by (simp add: authority_ok_def)
next
  case (delegate now x d r d')
  then show ?case
    using created_delegation[OF delegate(1)] single_policy_grow[of d d'] exception_ids_grow[of d d']
    by (simp add: authority_ok_def)
next
  case (revoke now i actor d d')
  have "single_policy d'" "exception_ids d'"
    using revoke(2) revoked_delegation[OF revoke(1)] single_policy_grow[of d d'] exception_ids_grow[of d d']
    by (simp_all add: authority_ok_def upd_delegation_def)
  moreover have "list_all delegation_bounded (delegations d')"
    using revoke(2) revoked_delegation[OF revoke(1)]
    by (auto simp: authority_ok_def upd_delegation_def upd_row_def list_all_iff delegation_bounded_def)
  ultimately show ?case
    using revoke(2) revoked_delegation[OF revoke(1)] by (simp add: authority_ok_def upd_delegation_def)
next
  case (except now x d e d')
  then show ?case
    using created_exception[OF except(1)] single_policy_grow[of d d'] exception_ids_snoc[of d d' e]
    by (simp add: authority_ok_def)
qed (auto intro: authority_ok_activate authority_ok_resolve authority_ok_decide authority_ok_expire)

text \<open>
  (C36) In every state the authority endpoints can reach from an empty registry at most one
  policy is active; nobody delegates to himself, and no delegation lasts longer than thirty
  days; no exception lasts longer than a day, its reviewer is not its requester, and an
  approved one was approved by a third actor.
\<close>

theorem authority_invariant:
  assumes "(authority_step dump_time)\<^sup>*\<^sup>* d d'" and "policies d = []" and "delegations d = []"
    and "exceptions d = []"
  shows "(\<forall>p \<in> set (policies d'). \<forall>r \<in> set (policies d').
        po_status p = PolicyActive \<and> po_status r = PolicyActive \<longrightarrow> p = r)
    \<and> list_all (\<lambda>x. dl_grantor_actor x \<noteq> dl_grantee_actor x
        \<and> dl_expires_at x \<le> dl_created_at x + seconds 2592000) (delegations d')
    \<and> list_all (\<lambda>x. ax_requester x \<noteq> ax_independent_reviewer x
        \<and> ax_expires_at x \<le> ax_created_at x + seconds 86400
        \<and> (ax_status x = ''approved'' \<longrightarrow>
             ax_approver x \<notin> {None, Some (ax_requester x), Some (ax_independent_reviewer x)})) (exceptions d')"
proof -
  have "authority_ok d"
    using assms(2-4) by (simp add: authority_ok_def single_policy_def exception_ids_def one_active_def)
  with assms(1) have ok: "authority_ok d'"
    by (induction rule: rtranclp_induct) (auto intro: authority_ok_step)
  have "p = r" if "p \<in> set (policies d')" "r \<in> set (policies d')"
    "po_status p = PolicyActive" "po_status r = PolicyActive" for p r
    using ok one_activeD[OF _ that] inj_onD[of po_id "set (policies d')" p r] that
    by (simp add: authority_ok_def single_policy_def distinct_map)
  then show ?thesis
    using ok by (auto simp: authority_ok_def list_all_iff delegation_bounded_def exception_bounded_def
        MAX_DELEGATION_def MAX_EXCEPTION_def)
qed

end
