(* ===== verification/Approvals.thy ===== *)
theory Approvals
  imports Authority Runtime
begin

text \<open>
  The endpoints that decide approvals (\<open>routes/governance.py\<close>,
  \<open>services/approval_center.py\<close>, the decision of \<open>routes/founder_channel.py\<close>) and the
  registration of artifacts. Every decision is first resolved against the authority policy;
  the approval center also makes the actor name the digest of the review it was shown, so a
  decision taken on an outdated view is refused.
\<close>

section \<open>The review shown to the actor\<close>

fun notification_state_str :: "notification_state \<Rightarrow> string" where
  "notification_state_str NotificationPending = ''pending''"
| "notification_state_str NotificationWaiting = ''waiting''"
| "notification_state_str NotificationSuperseded = ''superseded''"
| "notification_state_str NotificationAcknowledged = ''acknowledged''"

definition prerequisites :: "task \<Rightarrow> db \<Rightarrow> task list" where
  "prerequisites t d = sort_key t_task_number (predecessors (t_id t) d)"

definition prerequisite_json :: "task \<Rightarrow> json" where
  "prerequisite_json p =
     JObj [(''task_id'', juuid (t_id p)), (''task_number'', JStr (t_task_number p)),
           (''title'', JStr (t_title p)), (''status'', JStr (task_status_str (t_status p))),
           (''satisfied'', JBool (t_status p = Succeeded))]"

definition task_mission :: "task \<Rightarrow> db \<Rightarrow> engineering_mission option" where
  "task_mission t d = (case t_mission_id t of None \<Rightarrow> None | Some i \<Rightarrow> get_mission i d)"

definition mission_ready :: "time \<Rightarrow> engineering_mission option \<Rightarrow> bool" where
  "mission_ready now m =
     (case m of None \<Rightarrow> True | Some m \<Rightarrow> m_status m = MissionActive \<and> now < m_deadline_at m)"

definition mission_view :: "time \<Rightarrow> engineering_mission option \<Rightarrow> json" where
  "mission_view now m =
     option_json (\<lambda>m.
       JObj [(''id'', juuid (m_id m)), (''milestone_id'', JStr (m_milestone_id m)),
             (''status'', JStr (mission_status_str (m_status m))),
             (''deadline_at'', jtime (m_deadline_at m)),
             (''ready'', JBool (mission_ready now (Some m)))]) m"

text \<open>The keys on which the approved scope and the task differ.\<close>

definition changed_fields :: "task_approval \<Rightarrow> task \<Rightarrow> string list" where
  "changed_fields a t =
     (let current = approval_scope t
      in sorted_set (filter (\<lambda>k. \<not> json_eq (dget (ap_scope a) k) (dget current k))
                       (map fst (ap_scope a) @ map fst current)))"

definition review_current :: "task_approval \<Rightarrow> task \<Rightarrow> bool" where
  "review_current a t = (ap_plan_digest a = t_plan_digest t \<and> changed_fields a t = [])"

definition review_executable :: "task_approval \<Rightarrow> task \<Rightarrow> bool" where
  "review_executable a t =
     (t_approval_required t \<and> t_status t = PendingApproval \<and> ap_status a = ApprovalPending
      \<and> review_current a t)"

definition review_blocked_by :: "time \<Rightarrow> task_approval \<Rightarrow> task \<Rightarrow> db \<Rightarrow> json list" where
  "review_blocked_by now a t d =
     map (\<lambda>p. JObj [(''kind'', JStr ''task_dependency''), (''reference'', JStr (t_task_number p)),
                    (''status'', JStr (task_status_str (t_status p)))])
       (filter (\<lambda>p. t_status p \<noteq> Succeeded) (prerequisites t d))
     @ (case task_mission t d of
          None \<Rightarrow> []
        | Some m \<Rightarrow>
            if mission_ready now (Some m) then []
            else [JObj [(''kind'', JStr ''mission_state''), (''reference'', JStr (m_milestone_id m)),
                        (''status'', JStr (mission_status_str (m_status m)))]])
     @ (if review_current a t then []
        else [JObj [(''kind'', JStr ''digest_mismatch''), (''reference'', JStr (t_task_number t)),
                    (''status'', JStr ''superseded'')]])"

definition open_notifications :: "task_approval \<Rightarrow> db \<Rightarrow> founder_notification list" where
  "open_notifications a d =
     filter (\<lambda>n. fn_kind n = ''approval_required'' \<and> fn_entity_id n = ap_id a
               \<and> fn_state n \<in> {NotificationPending, NotificationWaiting}) (notifications d)"

definition notification_view :: "task_approval \<Rightarrow> db \<Rightarrow> json" where
  "notification_view a d =
     option_json (\<lambda>n.
       JObj [(''id'', juuid (fn_id n)), (''state'', JStr (notification_state_str (fn_state n))),
             (''deduplication_key'', JStr (fn_deduplication_key n)),
             (''created_at'', jtime (fn_created_at n))])
       (max_row fn_created_at (open_notifications a d))"

definition policy_view :: "db \<Rightarrow> json" where
  "policy_view d =
     option_json (\<lambda>p.
       JObj [(''id'', juuid (po_id p)), (''version'', JStr (po_version p)),
             (''manifest_digest'', JStr (po_manifest_digest p))]) (current_policy d)"

definition task_view :: "task \<Rightarrow> json" where
  "task_view t =
     JObj [(''id'', juuid (t_id t)), (''task_number'', JStr (t_task_number t)),
           (''title'', JStr (t_title t)), (''objective'', JStr (t_objective t)),
           (''project'', JStr (t_project t)), (''task_type'', JStr (t_task_type t)),
           (''status'', JStr (task_status_str (t_status t))),
           (''risk_level'', JInt (t_risk_level t)), (''plan_digest'', JStr (t_plan_digest t)),
           (''input_contract'', JObj (t_input_contract t)),
           (''acceptance_criteria'', JList (t_acceptance_criteria t)),
           (''expected_outputs'', JList (t_expected_outputs t)),
           (''required_capabilities'', jstrs (t_required_capabilities t)),
           (''allowed_machines'', jstrs (t_allowed_machines t)),
           (''max_attempts'', JInt (t_max_attempts t))]"

definition notification_duplicates :: "task_approval \<Rightarrow> db \<Rightarrow> int" where
  "notification_duplicates a d = max 0 (int (length (open_notifications a d)) - 1)"

definition review_document :: "time \<Rightarrow> task_approval \<Rightarrow> task \<Rightarrow> db \<Rightarrow> json" where
  "review_document now a t d =
     JObj [(''schema_version'', JStr ''digest-safe-approval-review-v1.0.0''),
           (''approval_id'', juuid (ap_id a)),
           (''approval_status'', JStr (approval_status_str (ap_status a))),
           (''approval_updated_at'', jtime (ap_updated_at a)),
           (''plan_digest'', JStr (ap_plan_digest a)), (''scope'', JObj (ap_scope a)),
           (''task'', task_view t), (''current'', JBool (review_current a t)),
           (''executable'', JBool (review_executable a t)),
           (''prerequisites'', JList (map prerequisite_json (prerequisites t d))),
           (''mission'', mission_view now (task_mission t d)),
           (''authority_policy'', policy_view d), (''notification'', notification_view a d),
           (''notification_duplicates'', JInt (notification_duplicates a d))]"

record approval_review =
  rv_review_digest :: string
  rv_current :: bool
  rv_executable :: bool
  rv_actionable :: bool
  rv_blocked_by :: "json list"
  rv_changed_fields :: "string list"

definition approval_center_item :: "time \<Rightarrow> task_approval \<Rightarrow> db \<Rightarrow> approval_review res" where
  "approval_center_item now a d =
     (case get_task (ap_task_id a) d of
        None \<Rightarrow> http 409 ''Approval task is unavailable.''
      | Some t \<Rightarrow>
          Inr \<lparr>rv_review_digest = digest_json (review_document now a t d),
               rv_current = review_current a t, rv_executable = review_executable a t,
               rv_actionable = (review_executable a t \<and> review_blocked_by now a t d = []
                                 \<and> length (open_notifications a d) \<le> 1),
               rv_blocked_by = review_blocked_by now a t d,
               rv_changed_fields = changed_fields a t\<rparr>)"

section \<open>Decisions\<close>

definition find_approval :: "uuid \<Rightarrow> db \<Rightarrow> task_approval res" where
  "find_approval i d =
     (case get_approval i d of None \<Rightarrow> http 404 ''Approval not found.'' | Some a \<Rightarrow> Inr a)"

definition grant_approval ::
  "time \<Rightarrow> string \<Rightarrow> uuid \<Rightarrow> string \<Rightarrow> string \<Rightarrow> int \<Rightarrow> uuid option \<Rightarrow> db \<Rightarrow> unit res \<times> db" where
  "grant_approval now nonce i actor reason secs exception_id d =
     (case find_approval i d of
        Inl e \<Rightarrow> (Inl e, d)
      | Inr a \<Rightarrow>
          guarded (resolve_task_approval now a actor ''approve'' exception_id d) d
            (\<lambda>d1. ebind (approve_task now nonce a actor reason secs d1) (\<lambda>d2. Inr ((), d2))))"

definition reject_or_revoke_approval ::
  "time \<Rightarrow> uuid \<Rightarrow> string \<Rightarrow> string \<Rightarrow> decision \<Rightarrow> uuid option \<Rightarrow> db \<Rightarrow> unit res \<times> db" where
  "reject_or_revoke_approval now i actor reason act exception_id d =
     (case find_approval i d of
        Inl e \<Rightarrow> (Inl e, d)
      | Inr a \<Rightarrow>
          guarded (resolve_task_approval now a actor (decision_str act) exception_id d) d
            (\<lambda>d1. ebind (decide_task now a actor reason act d1) (\<lambda>d2. Inr ((), d2))))"

text \<open>The decision of the founder channel; the actor is fixed.\<close>

definition founder_decide_approval ::
  "time \<Rightarrow> string \<Rightarrow> uuid \<Rightarrow> bool \<Rightarrow> string \<Rightarrow> int \<Rightarrow> uuid option \<Rightarrow> db \<Rightarrow> unit res \<times> db" where
  "founder_decide_approval now nonce i approve reason secs exception_id d =
     (case find_approval i d of
        Inl e \<Rightarrow> (Inl e, d)
      | Inr a \<Rightarrow>
          if approve
          then (case approval_readiness now a d of
                  Inl e \<Rightarrow> (Inl e, d)
                | Inr (actionable, _) \<Rightarrow>
                    if \<not> actionable
                    then (http 409 ''Approval is blocked by task dependencies or mission state.'', d)
                    else guarded
                      (resolve_task_approval now a ''founder-telegram'' ''approve'' exception_id d) d
                      (\<lambda>d1. ebind (approve_task now nonce a ''founder-telegram'' reason secs d1)
                         (\<lambda>d2. Inr ((), d2))))
          else guarded
            (resolve_task_approval now a ''founder-telegram'' ''reject'' exception_id d) d
            (\<lambda>d1. ebind (decide_task now a ''founder-telegram'' reason Reject d1)
               (\<lambda>d2. Inr ((), d2))))"

record center_decision =
  cd_actor :: string
  cd_reason :: string
  cd_expected_review_digest :: string
  cd_expires_in_seconds :: int
  cd_authority_exception_id :: "uuid option"

datatype center_action = CenterApprove | CenterReject

fun center_action_str :: "center_action \<Rightarrow> string" where
  "center_action_str CenterApprove = ''approve''"
| "center_action_str CenterReject = ''reject''"

definition receipt_document :: "task_approval \<Rightarrow> center_action \<Rightarrow> center_decision \<Rightarrow> dict" where
  "receipt_document a act p =
     [(''schema_version'', JStr ''digest-safe-approval-decision-v1.0.0''),
      (''approval_id'', juuid (ap_id a)), (''task_id'', juuid (ap_task_id a)),
      (''action'', JStr (center_action_str act)), (''actor'', JStr (cd_actor p)),
      (''review_digest'', JStr (cd_expected_review_digest p)),
      (''plan_digest'', JStr (ap_plan_digest a)),
      (''decision_reason_digest'', JStr (digest_json (JStr (cd_reason p)))),
      (''expires_in_seconds'',
       if act = CenterApprove then JInt (cd_expires_in_seconds p) else JNull)]"

definition decide_in_center ::
  "time \<Rightarrow> string \<Rightarrow> task_approval \<Rightarrow> center_action \<Rightarrow> center_decision \<Rightarrow> db
     \<Rightarrow> (string \<times> db) res" where
  "decide_in_center now nonce a act p d =
     ebind (case act of
              CenterApprove \<Rightarrow> approve_task now nonce a (cd_actor p) (cd_reason p)
                                 (cd_expires_in_seconds p) d
            | CenterReject \<Rightarrow> decide_task now a (cd_actor p) (cd_reason p) Reject d)
       (\<lambda>d1.
         (let receipt_digest = digest_json (JObj (receipt_document a act p))
          in Inr (receipt_digest,
                  snd (append_approval_event now (ap_id a) ''approval_center_decision_receipt''
                    (cd_actor p) ''Digest-safe approval-center decision retained.''
                    (receipt_document a act p @ [(''receipt_digest'', JStr receipt_digest)]) d1))))"

text \<open>The checks before the resolution: the review is the one named, and an approval is actionable.\<close>

definition reviewed_approval ::
  "time \<Rightarrow> uuid \<Rightarrow> center_action \<Rightarrow> center_decision \<Rightarrow> db \<Rightarrow> task_approval res" where
  "reviewed_approval now i act p d =
     ebind (find_approval i d) (\<lambda>a. ebind (approval_center_item now a d) (\<lambda>v.
       if rv_review_digest v \<noteq> cd_expected_review_digest p
       then Inl (HTTPException 409
              (JObj [(''reason'', JStr ''approval-review-superseded''),
                     (''current_review_digest'', JStr (rv_review_digest v))]))
       else if act = CenterApprove \<and> \<not> rv_actionable v
       then Inl (HTTPException 409
              (JObj [(''reason'', JStr ''approval-not-actionable''),
                     (''blocked_by'', JList (rv_blocked_by v))]))
       else Inr a))"

definition approval_center_decision ::
  "time \<Rightarrow> string \<Rightarrow> uuid \<Rightarrow> center_action \<Rightarrow> center_decision \<Rightarrow> db \<Rightarrow> string res \<times> db" where
  "approval_center_decision now nonce i act p d =
     (case reviewed_approval now i act p d of
        Inl e \<Rightarrow> (Inl e, d)
      | Inr a \<Rightarrow>
          guarded
            (resolve_task_approval now a (cd_actor p) (center_action_str act)
               (cd_authority_exception_id p) d)
            d (decide_in_center now nonce a act p))"

section \<open>Artifacts\<close>

record artifact_create =
  ac_artifact_type :: string
  ac_name :: string
  ac_size_bytes :: int
  ac_sha256 :: string
  ac_location :: string
  ac_storage_backend :: string
  ac_workflow :: string
  ac_workflow_version :: string
  ac_source_commit :: string
  ac_confidentiality :: string
  ac_retention_class :: string
  ac_expires_at :: "time option"
  ac_metadata :: dict

text \<open>\<open>location.split("://", 1)[1]\<close> of a location with one of the two admitted prefixes.\<close>

definition location_path :: "string \<Rightarrow> string option" where
  "location_path s =
     (if prefix ''workspace://'' s then Some (drop (length ''workspace://'') s)
      else if prefix ''object://'' s then Some (drop (length ''object://'') s) else None)"

definition safe_location :: "string \<Rightarrow> bool" where
  "safe_location s =
     (length s \<le> 2000 \<and>
      (case location_path s of
         None \<Rightarrow> False
       | Some path \<Rightarrow>
           (case path of
              [] \<Rightarrow> False
            | c # cs \<Rightarrow> alphanumeric c \<and> list_all (\<lambda>x. alphanumeric x \<or> x \<in> set ''/_.-'') cs)
           \<and> ''..'' \<notin> set (split_all CHR ''/'' path) \<and> \<not> sublist ''//'' path))"

definition artifact_name :: "string \<Rightarrow> bool" where
  "artifact_name s =
     (length s \<le> 200 \<and>
      (case s of [] \<Rightarrow> False
       | c # cs \<Rightarrow> alphanumeric c \<and> list_all (\<lambda>x. alphanumeric x \<or> x \<in> set ''._-'') cs))"

definition commit_hex :: "string \<Rightarrow> bool" where
  "commit_hex s =
     (40 \<le> length s \<and> length s \<le> 64
      \<and> list_all (\<lambda>c. CHR ''0'' \<le> c \<and> c \<le> CHR ''9'' \<or> CHR ''a'' \<le> c \<and> c \<le> CHR ''f'') s)"

definition valid_artifact_create :: "artifact_create \<Rightarrow> bool" where
  "valid_artifact_create q =
     (ac_artifact_type q \<in> {''log'', ''report'', ''result'', ''evidence''}
      \<and> artifact_name (ac_name q)
      \<and> 0 \<le> ac_size_bytes q \<and> ac_size_bytes q \<le> 10000000000 \<and> is_sha256_hex (ac_sha256 q)
      \<and> safe_location (ac_location q) \<and> ac_storage_backend q \<in> {''workspace'', ''object''}
      \<and> 1 \<le> length (ac_workflow q) \<and> length (ac_workflow q) \<le> 100
      \<and> 1 \<le> length (ac_workflow_version q) \<and> length (ac_workflow_version q) \<le> 50
      \<and> commit_hex (ac_source_commit q)
      \<and> ac_confidentiality q \<in> {''internal'', ''confidential'', ''restricted''}
      \<and> ac_retention_class q \<in> {''ephemeral'', ''standard'', ''audit'', ''legal''}
      \<and> length (dumps_sep '', '' '': '' (JObj (ac_metadata q))) \<le> 16384)"

definition register_artifact ::
  "string \<Rightarrow> time \<Rightarrow> agent \<Rightarrow> uuid \<Rightarrow> string \<Rightarrow> artifact_create \<Rightarrow> db \<Rightarrow> (artifact \<times> db) res" where
  "register_artifact key now ag i token q d =
     ebind (lock_task i d) (\<lambda>t.
       ebind (verify_task_lease key t ag token [Leased, Running] now) (\<lambda>_.
         if \<not> prefix (ac_storage_backend q @ ''://'') (ac_location q)
         then http 422 ''Storage backend mismatch.''
         else
           (let x = \<lparr>at_id = next_uuid d, at_task_id = t_id t, at_agent_id = a_id ag,
                     at_attempt_number = t_attempt_count t,
                     at_artifact_type = ac_artifact_type q, at_name = ac_name q,
                     at_size_bytes = ac_size_bytes q, at_sha256 = ac_sha256 q,
                     at_location = ac_location q,
                     at_storage_backend = ac_storage_backend q, at_workflow = ac_workflow q,
                     at_workflow_version = ac_workflow_version q,
                     at_source_commit = ac_source_commit q,
                     at_confidentiality = ac_confidentiality q,
                     at_retention_class = ac_retention_class q,
                     at_verification_status = ''worker-digest'', at_expires_at = ac_expires_at q,
                     at_metadata = ac_metadata q, at_created_at = now\<rparr>
            in Inr (x, d\<lparr>artifacts := artifacts d @ [x], next_uuid := Suc (next_uuid d)\<rparr>))))"

section \<open>Every decision is authorised\<close>

lemma guarded_Inr:
  assumes "guarded res d op = (Inr x, d')"
  obtains y d1 where "res = (Inr y, d1)" and "op d1 = Inr (x, d')"
  using assms by (auto simp: guarded_def split: prod.splits sum.splits)

lemma guarded_state_safe:
  assumes "guarded res d op = (x, d')" and "safe d" and "safe (snd res)"
    and "\<And>y e. op (snd res) = Inr (y, e) \<Longrightarrow> safe e"
  shows "safe d'"
  using guarded_state[OF assms(1)] assms(2-4) by auto

lemma resolve_task_approval_rows:
  "tasks (snd (resolve_task_approval now a actor act x d)) = tasks d"
  "approvals (snd (resolve_task_approval now a actor act x d)) = approvals d"
  "next_uuid d \<le> next_uuid (snd (resolve_task_approval now a actor act x d))"
  by (simp_all add: resolve_task_approval_def resolve_authority_rows split: sum.split)

lemma safe_resolve_task_approval:
  "safe d \<Longrightarrow> safe (snd (resolve_task_approval now a actor act x d))"
  by (rule safe_tables[of d]) (simp_all add: resolve_task_approval_rows)

text \<open>The authority endpoints touch neither tasks nor approvals.\<close>

lemma safe_activate: "safe d \<Longrightarrow> safe (snd (activate now i actor d))"
proof (cases "get_policy i d")
  case (Some p)
  assume s: "safe d"
  have res: "safe (snd (resolve_authority now q d))" for q
    by (rule safe_tables[OF s]) (simp_all add: resolve_authority_rows)
  have act: "safe e'" if "safe e" "activate_policy now p actor e = Inr e'" for e e'
    using that by (intro safe_tables[OF that(1)])
      (auto simp: activate_policy_def upd_policy_def Let_def split: if_split_asm option.splits)
  show ?thesis
    using Some s res act
    by (auto simp: activate_def guarded_def ebind_Inr_iff split: option.splits prod.splits sum.splits if_split_asm)
       (metis res snd_conv act)+
qed (simp add: activate_def)

lemma safe_authority_step:
  assumes "authority_step dump_time d d'" and "safe d"
  shows "safe d'"
  using assms(1)
proof (cases rule: authority_step.cases)
  case (policy now m dig actor p)
  then show ?thesis
    by (intro safe_tables[OF assms(2)])
       (auto simp: create_policy_def Let_def ebind_Inr_iff split: if_split_asm option.splits)
next
  case (activate now i actor)
  then show ?thesis using safe_activate[OF assms(2)] by simp
next
  case (resolve now q)
  then show ?thesis by (intro safe_tables[OF assms(2)]) (simp_all add: resolve_authority_rows)
next
  case (delegate now x r)
  then show ?thesis
    by (intro safe_tables[OF assms(2)]) (auto simp: create_delegation_def Let_def ebind_Inr_iff)
next
  case (revoke now i actor)
  then show ?thesis using revoked_delegation[OF revoke]
    by (intro safe_tables[OF assms(2)]) (simp_all add: upd_delegation_def)
next
  case (except now x e)
  then show ?thesis
    by (intro safe_tables[OF assms(2)]) (auto simp: create_exception_def Let_def ebind_Inr_iff split: if_split_asm)
next
  case (decide now i actor reason act)
  then show ?thesis using assms(2)
    by (auto elim!: decide_exception_Inr intro!: safe_tables[OF assms(2)] simp: upd_exception_def)
next
  case (expire now)
  then show ?thesis by (intro safe_tables[OF assms(2)]) (simp_all add: expire_authority_def)
qed

lemma find_approval_in:
  assumes "find_approval i d = Inr a"
  shows "a \<in> set (approvals d)" "get_approval i d = Some a" "ap_id a = i"
  using assms get_row_Some_in[of ap_id "approvals d" i a]
  by (auto simp: find_approval_def get_approval_def split: option.splits)

lemma safe_grant_approval:
  assumes "safe d" and "grant_approval now nonce i actor reason secs x d = (r, d')"
  shows "safe d'"
proof (cases "find_approval i d")
  case (Inr a)
  let ?res = "resolve_task_approval now a actor ''approve'' x d"
  have "a \<in> set (approvals (snd ?res))" using find_approval_in(1)[OF Inr] by (simp add: resolve_task_approval_rows)
  then have "safe e" if "approve_task now nonce a actor reason secs (snd ?res) = Inr e" for e
    using safe_approve_task[OF safe_resolve_task_approval[OF assms(1)] _ that] by simp
  then show ?thesis
    using assms Inr safe_resolve_task_approval[OF assms(1)]
    by (auto simp: grant_approval_def ebind_Inr_iff elim!: guarded_state_safe)
qed (use assms in \<open>simp add: grant_approval_def\<close>)

lemma safe_reject_or_revoke:
  assumes "safe d" and "reject_or_revoke_approval now i actor reason act x d = (r, d')"
  shows "safe d'"
proof (cases "find_approval i d")
  case (Inr a)
  let ?res = "resolve_task_approval now a actor (decision_str act) x d"
  have "a \<in> set (approvals (snd ?res))" using find_approval_in(1)[OF Inr] by (simp add: resolve_task_approval_rows)
  then have "safe e" if "decide_task now a actor reason act (snd ?res) = Inr e" for e
    using safe_decide_task[OF safe_resolve_task_approval[OF assms(1)] _ that] by simp
  then show ?thesis
    using assms Inr safe_resolve_task_approval[OF assms(1)]
    by (auto simp: reject_or_revoke_approval_def ebind_Inr_iff elim!: guarded_state_safe)
qed (use assms in \<open>simp add: reject_or_revoke_approval_def\<close>)

text \<open>The founder channel goes the way of the operator's endpoints, once the approval is ready.\<close>

lemma founder_decides:
  "founder_decide_approval now nonce i approve reason secs x d
     = (if approve then grant_approval now nonce i ''founder-telegram'' reason secs x d
        else reject_or_revoke_approval now i ''founder-telegram'' reason Reject x d)
   \<or> (\<exists>e. founder_decide_approval now nonce i approve reason secs x d = (Inl e, d))"
  by (auto simp: founder_decide_approval_def grant_approval_def reject_or_revoke_approval_def
      split: sum.split)

lemma safe_founder_decide:
  assumes "safe d" and "founder_decide_approval now nonce i approve reason secs x d = (r, d')"
  shows "safe d'"
  using founder_decides[of now nonce i approve reason secs x d] assms
    safe_grant_approval[OF assms(1)] safe_reject_or_revoke[OF assms(1)]
  by (metis Pair_inject)

lemma center_decides:
  assumes "decide_in_center now nonce a act p d = Inr (rd, d')"
  obtains d1 where "(case act of
        CenterApprove \<Rightarrow> approve_task now nonce a (cd_actor p) (cd_reason p) (cd_expires_in_seconds p) d
      | CenterReject \<Rightarrow> decide_task now a (cd_actor p) (cd_reason p) Reject d) = Inr d1"
    and "tasks d' = tasks d1" and "approvals d' = approvals d1" and "next_uuid d' = next_uuid d1"
    and "decisions d' = decisions d1"
  using assms by (auto simp: decide_in_center_def Let_def append_approval_event_def ebind_Inr_iff)

lemma reviewed_approval_Inr:
  assumes "reviewed_approval now i act p d = Inr a"
  obtains v where "find_approval i d = Inr a" and "approval_center_item now a d = Inr v"
    and "rv_review_digest v = cd_expected_review_digest p" and "act = CenterApprove \<longrightarrow> rv_actionable v"
  using assms by (auto simp: reviewed_approval_def ebind_Inr_iff split: if_split_asm)

lemma safe_decide_in_center:
  assumes "safe d" and "a \<in> set (approvals d)" and "decide_in_center now nonce a act p d = Inr (y, d')"
  shows "safe d'"
proof -
  obtain d1 where d1: "(case act of
      CenterApprove \<Rightarrow> approve_task now nonce a (cd_actor p) (cd_reason p) (cd_expires_in_seconds p) d
    | CenterReject \<Rightarrow> decide_task now a (cd_actor p) (cd_reason p) Reject d) = Inr d1"
    and e: "tasks d' = tasks d1" "approvals d' = approvals d1" "next_uuid d' = next_uuid d1"
    by (rule center_decides[OF assms(3)])
  have "safe d1" using d1 safe_approve_task[OF assms(1,2)] safe_decide_task[OF assms(1,2)] by (cases act) auto
  then show ?thesis by (rule safe_tables) (simp_all add: e)
qed

lemma safe_center_decision:
  assumes "safe d" and "approval_center_decision now nonce i act p d = (r, d')"
  shows "safe d'"
proof (cases "reviewed_approval now i act p d")
  case (Inr a)
  let ?res = "resolve_task_approval now a (cd_actor p) (center_action_str act)
      (cd_authority_exception_id p) d"
  have s: "safe (snd ?res)" by (rule safe_resolve_task_approval[OF assms(1)])
  have "a \<in> set (approvals (snd ?res))"
    using Inr find_approval_in(1) by (auto simp: resolve_task_approval_rows elim: reviewed_approval_Inr)
  moreover have "guarded ?res d (decide_in_center now nonce a act p) = (r, d')"
    using assms(2) Inr by (simp add: approval_center_decision_def)
  ultimately show ?thesis using guarded_state_safe[OF _ assms(1) s] safe_decide_in_center[OF s] by blast
qed (use assms in \<open>simp add: approval_center_decision_def\<close>)

section \<open>What a granted approval rests on\<close>

lemma decisions_frame [simp]:
  "decisions (upd_task i f d) = decisions d" "decisions (upd_approval i g d) = decisions d"
  "decisions (append_task_event now t e m ag pl d) = decisions d"
  "decisions (snd (append_approval_event now i e2 ac rs pl2 d)) = decisions d"
  "decisions (snd (insert_once n d)) = decisions d" "decisions (wake_mission now t d) = decisions d"
  by (simp_all add: upd_task_def upd_approval_def append_task_event_def append_approval_event_def
      insert_once_def wake_mission_def upd_mission_def Let_def split: option.split)

lemma approve_task_decisions:
  assumes "approve_task now nonce a actor reason secs d = Inr d'"
  shows "decisions d' = decisions d"
proof -
  from assms obtain t n e where "d' = snd (enqueue_task_ready now t a n e)" and "decisions e = decisions d"
    unfolding approve_task_def Let_def case_prod_unfold
    by (simp split: if_split_asm option.splits) (metis decisions_frame)
  then show ?thesis by (simp add: enqueue_task_ready_def)
qed

lemma approve_task_row:
  assumes "approve_task now nonce a actor reason secs d = Inr d'" and "get_approval (ap_id a) d = Some a"
  shows "get_approval (ap_id a) d' = Some (grant_approval_row now nonce actor reason secs a)"
  using approve_task_tables[OF assms(1)] assms(2)
  by (simp add: get_approval_def get_row_upd_row grant_approval_row_def)

lemma approval_request_Inr:
  assumes "approval_request a actor act x = Inr q"
  shows "rq_actor q = actor" "rq_decision_type q = ''task-approval''" "rq_action q = act"
    "rq_object_id q = uuid_str (ap_id a)" "rq_object_digest q = ap_plan_digest a"
    "rq_risk_level q = ap_risk_level a" "rq_requester q = Some (ap_requested_by a)"
    "rq_exception_id q = x"
  using assms by (auto simp: approval_request_def ebind_Inr_iff Let_def split: if_split_asm)

text \<open>An approval endpoint that succeeds was resolved for the approval and its actor.\<close>

lemma guarded_approval:
  assumes "guarded (resolve_task_approval now a actor act x d) d op = (Inr y, d')"
  obtains q p rule r d1 where "approval_request a actor act x = Inr q" and "authorised now p rule q d"
    and "dr_actor r = actor" and "dr_object_digest r = ap_plan_digest a" and "dr_outcome r = ''authorized''"
    and "decisions d1 = decisions d @ [r]" and "approvals d1 = approvals d" and "tasks d1 = tasks d"
    and "op d1 = Inr (y, d')"
proof -
  obtain r d1 where r: "resolve_task_approval now a actor act x d = (Inr r, d1)" and op: "op d1 = Inr (y, d')"
    by (rule guarded_Inr[OF assms])
  then obtain q where q: "approval_request a actor act x = Inr q" "resolve_authority now q d = (Inr r, d1)"
    by (auto simp: resolve_task_approval_def split: sum.splits)
  obtain p rule where "authorised now p rule q d" "dr_actor r = rq_actor q"
      "dr_object_digest r = rq_object_digest q" "dr_outcome r = ''authorized''"
      "d1 = d\<lparr>decisions := decisions d @ [r], next_uuid := Suc (next_uuid d)\<rparr>"
    by (rule resolve_authorised[OF q(2)])
  then show ?thesis using approval_request_Inr[OF q(1)] by (intro that[OF q(1) _ _ _ _ _ _ _ op]) simp_all
qed

text \<open>
  The right of the actor to approve: one of the actor's roles is accountable for the rule, or the
  rule is delegable and exactly one active, unexpired delegation to the actor under the policy
  covers task approvals of this risk in this environment.
\<close>

definition may_approve ::
  "time \<Rightarrow> authority_policy_snapshot \<Rightarrow> decision_right \<Rightarrow> task_approval \<Rightarrow> string \<Rightarrow> string \<Rightarrow> db \<Rightarrow> bool" where
  "may_approve now p rule a env actor d \<longleftrightarrow>
     ''approve'' \<in> set (dc_actions rule) \<and> ap_risk_level a \<le> dc_maximum_risk rule
     \<and> set (dc_environments rule) \<inter> {''*'', env} \<noteq> {}
     \<and> (set (roles_for (po_manifest p) actor) \<inter> set (dc_accountable_roles rule) \<noteq> {}
        \<or> dc_delegable rule
          \<and> length (filter (\<lambda>x. dl_policy_id x = po_id p \<and> dl_grantee_actor x = actor
                \<and> dl_status x = ''active'' \<and> now < dl_expires_at x
                \<and> ''task-approval'' \<in> set (dl_decision_types x) \<and> ap_risk_level a \<le> dl_max_risk x
                \<and> dl_environment x \<in> {''*'', env}) (delegations d)) = 1)"

text \<open>
  The policy in force lets the actor approve, and separates the actor from whoever asked where
  it says so.
\<close>

definition four_eyes :: "time \<Rightarrow> task_approval \<Rightarrow> string \<Rightarrow> uuid option \<Rightarrow> db \<Rightarrow> bool" where
  "four_eyes now a actor x d \<longleftrightarrow>
     (\<exists>p rule env. p \<in> set (policies d) \<and> policy_effective now p
       \<and> decision_rule (po_manifest p) ''task-approval'' = Some rule
       \<and> approval_environment a = Inr env \<and> may_approve now p rule a env actor d
       \<and> list_all (\<lambda>s. sr_field s = FieldRequester \<and> sr_minimum_risk s \<le> ap_risk_level a
            \<and> principal_for (po_manifest p) (Some (ap_requested_by a))
                = principal_for (po_manifest p) (Some actor) \<longrightarrow>
            \<not> dc_constitutional rule
            \<and> list_ex (\<lambda>e. x = Some (ax_id e) \<and> exception_in_force now p e
                  \<and> ax_rule_key e = sr_rule_key s) (exceptions d)) (dc_separation rule))"

lemma authorised_may_approve:
  assumes "authorised now p rule q d" and "approval_request a actor ''approve'' x = Inr q"
  shows "may_approve now p rule a (rq_environment q) actor d"
  using assms(1) approval_request_Inr[OF assms(2)]
  by (simp add: authorised_def may_approve_def applicable_delegations_def)

lemma authorised_four_eyes:
  assumes "authorised now p rule q d" and "approval_request a actor ''approve'' x = Inr q"
  shows "four_eyes now a actor x d"
proof -
  note q = approval_request_Inr[OF assms(2)]
  have "approval_environment a = Inr (rq_environment q)"
    using assms(2) by (auto simp: approval_request_def ebind_Inr_iff Let_def split: if_split_asm)
  then show ?thesis
    using assms(1) q authorised_may_approve[OF assms] unfolding four_eyes_def
    by (intro exI[of _ p] exI[of _ rule] exI[of _ "rq_environment q"])
       (auto simp: authorised_def separation_waived_def list_all_iff list_ex_iff)
qed

text \<open>
  (C33) Four eyes on every approval: an approval granted by an operator or through the founder
  channel was pending; under the policy in force the actor holds an accountable role, or the
  one delegation, for approving tasks of its risk and environment; and from the risk on at
  which the policy separates them the person who asked for the approval is not the one who
  granted it, unless an approved exception in force waives that rule. The grant is recorded as
  a decision on the very plan digest, and names the actor.
\<close>

theorem approval_four_eyes:
  assumes "grant_approval now nonce i actor reason secs x d = (Inr (), d')
    \<or> actor = ''founder-telegram'' \<and> founder_decide_approval now nonce i True reason secs x d = (Inr (), d')"
  shows "\<exists>a a' r. get_approval i d = Some a \<and> ap_status a = ApprovalPending
    \<and> four_eyes now a actor x d
    \<and> decisions d' = decisions d @ [r] \<and> dr_outcome r = ''authorized''
    \<and> dr_actor r = actor \<and> dr_object_digest r = ap_plan_digest a
    \<and> get_approval i d' = Some a' \<and> ap_status a' = ApprovalApproved
    \<and> ap_plan_digest a' = ap_plan_digest a \<and> ap_decided_by a' = Some actor"
proof -
  have "grant_approval now nonce i actor reason secs x d = (Inr (), d')"
    using assms founder_decides[of now nonce i True reason secs x d] by auto
  then obtain a where a: "find_approval i d = Inr a"
    and g: "guarded (resolve_task_approval now a actor ''approve'' x d) d
      (\<lambda>d1. ebind (approve_task now nonce a actor reason secs d1) (\<lambda>d2. Inr ((), d2))) = (Inr (), d')"
    by (auto simp: grant_approval_def split: sum.splits)
  obtain q p rule r d1 where q: "approval_request a actor ''approve'' x = Inr q" "authorised now p rule q d"
    and r: "dr_actor r = actor" "dr_object_digest r = ap_plan_digest a" "dr_outcome r = ''authorized''"
    and d1: "decisions d1 = decisions d @ [r]" "approvals d1 = approvals d"
    and op: "ebind (approve_task now nonce a actor reason secs d1) (\<lambda>d2. Inr ((), d2)) = Inr ((), d')"
    by (rule guarded_approval[OF g])
  have ap: "approve_task now nonce a actor reason secs d1 = Inr d'" using op by (auto simp: ebind_Inr_iff)
  have "get_approval (ap_id a) d1 = Some a"
    using find_approval_in[OF a] d1(2) by (simp add: get_approval_def)
  from approve_task_row[OF ap this] approve_task_tables[OF ap] approve_task_decisions[OF ap]
  show ?thesis
    using find_approval_in(2,3)[OF a] authorised_four_eyes[OF q(2,1)] r d1(1)
    by (auto simp: grant_approval_row_def)
qed

lemma actionable_review:
  assumes "approval_center_item now a d = Inr v" and "rv_actionable v"
  obtains t where "get_task (ap_task_id a) d = Some t" and "rv_review_digest v = digest_json (review_document now a t d)"
    and "review_executable a t" and "list_all (\<lambda>u. t_status u = Succeeded) (predecessors (t_id t) d)"
    and "mission_ready now (task_mission t d)"
proof -
  obtain t where t: "get_task (ap_task_id a) d = Some t"
      "rv_review_digest v = digest_json (review_document now a t d)" "review_executable a t"
      "review_blocked_by now a t d = []"
    using assms by (auto simp: approval_center_item_def split: option.splits)
  have "list_all (\<lambda>u. t_status u = Succeeded) (predecessors (t_id t) d)"
    using t(4) by (simp add: review_blocked_by_def prerequisites_def filter_empty_conv list_all_iff)
  moreover have "mission_ready now (task_mission t d)"
    using t(4) by (simp add: review_blocked_by_def mission_ready_def split: option.splits if_split_asm)
  ultimately show ?thesis using t that by blast
qed

text \<open>
  (C34) The approval center decides on what was shown: a task is approved there only if the
  digest the actor sent is that of the review of the current rows, the approval and the task
  are still pending, plan and scope are still the approved ones, every task it depends on has
  succeeded and its mission is open; four eyes hold as for the other endpoints, and the task
  is queued.
\<close>

theorem approval_center_digest_safe:
  assumes "approval_center_decision now nonce i CenterApprove p d = (Inr rd, d')"
  shows "\<exists>a t t'. get_approval i d = Some a \<and> get_task (ap_task_id a) d = Some t
    \<and> cd_expected_review_digest p = digest_json (review_document now a t d)
    \<and> ap_status a = ApprovalPending \<and> t_status t = PendingApproval
    \<and> ap_plan_digest a = t_plan_digest t \<and> changed_fields a t = []
    \<and> list_all (\<lambda>u. t_status u = Succeeded) (predecessors (t_id t) d)
    \<and> mission_ready now (task_mission t d)
    \<and> four_eyes now a (cd_actor p) (cd_authority_exception_id p) d
    \<and> get_task (ap_task_id a) d' = Some t' \<and> t' = t\<lparr>t_status := Queued\<rparr>"
proof -
  let ?x = "cd_authority_exception_id p"
  obtain a where rev: "reviewed_approval now i CenterApprove p d = Inr a"
    and g: "guarded (resolve_task_approval now a (cd_actor p) ''approve'' ?x d) d
      (decide_in_center now nonce a CenterApprove p) = (Inr rd, d')"
    using assms by (auto simp: approval_center_decision_def split: sum.splits)
  obtain v where f: "find_approval i d = Inr a" and v: "approval_center_item now a d = Inr v"
    and dig: "rv_review_digest v = cd_expected_review_digest p"
    and act: "CenterApprove = CenterApprove \<longrightarrow> rv_actionable v"
    by (rule reviewed_approval_Inr[OF rev])
  obtain t where t: "get_task (ap_task_id a) d = Some t" "rv_review_digest v = digest_json (review_document now a t d)"
      "review_executable a t" "list_all (\<lambda>u. t_status u = Succeeded) (predecessors (t_id t) d)"
      "mission_ready now (task_mission t d)"
    using actionable_review[OF v] act by blast
  obtain q pol rule r d1 where q: "approval_request a (cd_actor p) ''approve'' ?x = Inr q" "authorised now pol rule q d"
    and d1: "tasks d1 = tasks d" and op: "decide_in_center now nonce a CenterApprove p d1 = Inr (rd, d')"
    by (rule guarded_approval[OF g])
  obtain d2 where "(case CenterApprove of
        CenterApprove \<Rightarrow> approve_task now nonce a (cd_actor p) (cd_reason p) (cd_expires_in_seconds p) d1
      | CenterReject \<Rightarrow> decide_task now a (cd_actor p) (cd_reason p) Reject d1) = Inr d2"
    and d2: "tasks d' = tasks d2"
    by (rule center_decides[OF op])
  then have ap: "approve_task now nonce a (cd_actor p) (cd_reason p) (cd_expires_in_seconds p) d1 = Inr d2" by simp
  have "get_task (ap_task_id a) d1 = Some t" using t(1) d1 by (simp add: get_task_def)
  moreover have "t_id t = ap_task_id a" using t(1) get_row_Some_in by (fastforce simp: get_task_def)
  ultimately have "get_task (ap_task_id a) d' = Some (t\<lparr>t_status := Queued\<rparr>)"
    using approve_task_tables[OF ap] d2 by (auto simp: get_task_def get_row_upd_row)
  then show ?thesis
    using t find_approval_in(2)[OF f] dig authorised_four_eyes[OF q(2,1)]
    by (auto simp: review_executable_def review_current_def)
qed

section \<open>Artifacts\<close>

lemma split_all_nonempty: "split_all c s \<noteq> []"
  by (cases s) (auto split: list.split)

text \<open>A path without a double slash has no empty segment but perhaps the first and the last.\<close>

lemma split_all_head: "hd (split_all c s) = [] \<longleftrightarrow> s = [] \<or> hd s = c"
  by (cases s) (auto split: list.split)

lemma split_all_tail:
  assumes "\<not> sublist [c, c] s"
  shows "[] \<notin> set (butlast (tl (split_all c s)))"
  using assms
proof (induction s)
  case (Cons x s)
  have sub: "\<not> sublist [c, c] s" and c: "x = c \<Longrightarrow> s = [] \<or> hd s \<noteq> c"
    using Cons.prems by (cases s; auto simp: sublist_Cons_right)+
  obtain h rest where split: "split_all c s = h # rest" using split_all_nonempty by (cases "split_all c s") auto
  have "[] \<notin> set (butlast rest)" using Cons.IH[OF sub] split by simp
  moreover have "h \<noteq> []" if "x = c" "s \<noteq> []" using split_all_head[of c s] c that split by auto
  ultimately show ?case using split by (cases "s = []") auto
qed simp

text \<open>The segments of a path that the schema accepts.\<close>

definition plain_path :: "string \<Rightarrow> bool" where
  "plain_path path = (''..'' \<notin> set (split_all CHR ''/'' path) \<and> [] \<notin> set (butlast (split_all CHR ''/'' path)))"

lemma safe_location_plain:
  assumes "safe_location s"
  obtains b path where "b \<in> {''workspace'', ''object''}" and "s = b @ ''://'' @ path" and "plain_path path"
proof -
  obtain path where path: "location_path s = Some path" "path \<noteq> []" "alphanumeric (hd path)"
      "''..'' \<notin> set (split_all CHR ''/'' path)" "\<not> sublist ''//'' path"
    using assms by (auto simp: safe_location_def split: option.splits list.splits)
  obtain h rest where split: "split_all CHR ''/'' path = h # rest"
    using split_all_nonempty by (cases "split_all CHR ''/'' path") auto
  have "hd path \<noteq> CHR ''/''" using path(3) by (auto simp: alphanumeric_def)
  then have "h \<noteq> []" using split_all_head[of "CHR ''/''" path] path(2) split by simp
  then have plain: "plain_path path"
    using split_all_tail[OF path(5)] path(4) split by (auto simp: plain_path_def)
  have "s = ''workspace'' @ ''://'' @ path \<or> s = ''object'' @ ''://'' @ path"
    using path(1) by (auto simp: location_path_def prefix_def split: if_split_asm)
  then show ?thesis using that plain by blast
qed

text \<open> An artifact is registered only by the agent that holds the lease of the task and for the
  attempt under way; its location lies in the backend it names, and no segment of its path
  climbs out of the workspace (\<open>..\<close>) or is empty, except that the path may end in a slash.
\<close>

theorem register_artifact_sound:
  assumes "register_artifact key now ag i token q d = Inr (x, d')" and "valid_artifact_create q"
  shows "\<exists>t path. get_task i d = Some t \<and> holds_lease key now ag token [Leased, Running] t
    \<and> at_task_id x = i \<and> at_agent_id x = a_id ag \<and> at_attempt_number x = t_attempt_count t
    \<and> at_sha256 x = ac_sha256 q \<and> at_verification_status x = ''worker-digest''
    \<and> at_location x = at_storage_backend x @ ''://'' @ path \<and> plain_path path
    \<and> d' = d\<lparr>artifacts := artifacts d @ [x], next_uuid := Suc (next_uuid d)\<rparr>"
proof -
  from assms(1) obtain t where t: "get_task i d = Some t" "holds_lease key now ag token [Leased, Running] t"
      "t_id t = i"
    and x: "prefix (ac_storage_backend q @ ''://'') (ac_location q)" "at_task_id x = t_id t"
      "at_agent_id x = a_id ag" "at_attempt_number x = t_attempt_count t" "at_sha256 x = ac_sha256 q"
      "at_verification_status x = ''worker-digest''" "at_location x = ac_location q"
      "at_storage_backend x = ac_storage_backend q"
      "d' = d\<lparr>artifacts := artifacts d @ [x], next_uuid := Suc (next_uuid d)\<rparr>"
    using get_row_Some_in[of t_id "tasks d" i]
    by (auto simp: register_artifact_def Let_def lock_task_def ebind_Inr_iff verify_task_lease_Inr
        holds_lease_def get_task_def split: option.splits if_split_asm)
  have safe: "safe_location (ac_location q)" and "ac_storage_backend q \<in> {''workspace'', ''object''}"
    using assms(2) by (simp_all add: valid_artifact_create_def)
  obtain b path where b: "b \<in> {''workspace'', ''object''}" "ac_location q = b @ ''://'' @ path"
      "plain_path path"
    by (rule safe_location_plain[OF safe])
  then have "b = ac_storage_backend q"
    using x(1) \<open>ac_storage_backend q \<in> {''workspace'', ''object''}\<close> by (auto simp: prefix_def)
  then show ?thesis using t x b by auto
qed

end
