(* ===== verification/PolicyWitnesses.thy ===== *)
theory PolicyWitnesses
  imports Witnesses Approvals
begin

text \<open>
  A decision policy for the sample installation of \<open>Witnesses\<close>, and the properties of
  authority, approvals and artifacts applied to it.
\<close>

section \<open>A policy\<close>

definition w_right :: decision_right where
  "w_right =
     \<lparr>dc_decision_type = ''task-approval'', dc_actions = [''approve'', ''reject''],
      dc_accountable_roles = [''governance''], dc_veto_roles = [], dc_environments = [''*''],
      dc_maximum_risk = 3, dc_delegable = True, dc_constitutional = False,
      dc_separation = [\<lparr>sr_field = FieldRequester, sr_minimum_risk = 2, sr_rule_key = ''four-eyes''\<rparr>]\<rparr>"

definition w_policy_manifest :: authority_policy_manifest where
  "w_policy_manifest =
     \<lparr>pl_schema_version = ''1'', pl_policy_key = ''company'', pl_version = ''1'',
      pl_roles = [\<lparr>rb_role = ''governance'', rb_actors = [''chief'']\<rparr>], pl_identity_aliases = [],
      pl_decisions = [w_right], pl_constitutional_boundaries = []\<rparr>"

definition w_policy :: authority_policy_snapshot where
  "w_policy =
     \<lparr>po_id = 20, po_policy_key = ''company'', po_version = ''1'', po_status = PolicyActive,
      po_manifest = w_policy_manifest, po_manifest_digest = ''m'', po_effective_from = Some 0,
      po_effective_until = None, po_activated_by = Some ''chief'', po_activated_at = Some 0,
      po_supersedes_id = None, po_created_by = ''founder'', po_created_at = 0\<rparr>"

definition w_plan :: string where
  "w_plan = replicate 64 CHR ''a''"

definition w_open_task :: task where
  "w_open_task = w_task\<lparr>t_status := PendingApproval, t_plan_digest := w_plan\<rparr>"

definition w_open_approval :: task_approval where
  "w_open_approval = w_approval\<lparr>ap_status := ApprovalPending, ap_plan_digest := w_plan,
     ap_scope := approval_scope w_open_task, ap_decided_by := None\<rparr>"

text \<open>The installation with the policy in force and a task that waits for approval.\<close>

definition w_governed :: db where
  "w_governed = w_world\<lparr>next_uuid := 30, policies := [w_policy], tasks := [w_open_task],
     approvals := [w_open_approval]\<rparr>"

definition w_question :: authority_resolution_request where
  "w_question =
     \<lparr>rq_actor = ''chief'', rq_decision_type = ''task-approval'', rq_action = ''approve'',
      rq_object_type = ''task-approval'', rq_object_id = uuid_str 7, rq_object_digest = w_plan,
      rq_scope = approval_scope w_open_task, rq_risk_level = 2, rq_environment = ''internal'',
      rq_requester = Some ''founder'', rq_originator = None, rq_evaluator = None,
      rq_active_veto_roles = [], rq_exception_id = None\<rparr>"

lemmas policy_defs = w_right_def w_policy_manifest_def w_policy_def w_question_def

lemma w_active_policy: "active_policy 5 w_governed = Inr w_policy"
  by (simp add: active_policy_def policy_effective_def w_governed_def w_policy_def)

lemma w_decision:
  "dr_outcome (decision_record 5 i w_policy w_question w_governed) = ''authorized''"
  unfolding dr_outcome_decision_record authorized_iff
  by (simp add: decision_rule_def delegations_for_def applicable_delegations_def policy_defs w_governed_def
      w_world_def empty_db_def rule_failures_empty roles_for_def alias_of_def sorted_set_def
      separation_violated_def principal_for_def)

lemma w_no_decisions: "decisions w_governed = []"
  by (simp add: w_governed_def w_world_def empty_db_def)

lemma w_authorises: "\<exists>r d'. resolve_authority 5 w_question w_governed = (Inr r, d')"
  using w_decision by (simp add: resolve_authority_def w_active_policy Let_def w_no_decisions)

theorem resolve_authority_sound_witness:
  "\<exists>r d'. resolve_authority 5 w_question w_governed = (Inr r, d') \<and> dr_actor r = ''chief''
    \<and> dr_policy_id r = 20 \<and> decisions d' = [r]"
proof -
  obtain r d' where r: "resolve_authority 5 w_question w_governed = (Inr r, d')" using w_authorises by blast
  from resolve_authority_sound[OF r] show ?thesis
    using r by (auto simp: w_governed_def w_question_def w_policy_def w_world_def empty_db_def)
qed

theorem resolve_authority_records_witness:
  "\<exists>r. snd (resolve_authority 5 (w_question\<lparr>rq_actor := ''founder''\<rparr>) w_governed)
      = w_governed\<lparr>decisions := [r], next_uuid := Suc (next_uuid w_governed)\<rparr> \<and> dr_object_id r = uuid_str 7"
  using resolve_authority_records[OF w_active_policy, of "w_question\<lparr>rq_actor := ''founder''\<rparr>"]
  by (auto simp: w_no_decisions w_question_def)

section \<open>The life of a policy\<close>

definition w_drafted_policy :: authority_policy_snapshot where
  "w_drafted_policy = w_policy\<lparr>po_id := 0, po_status := PolicyDraft,
     po_manifest_digest := digest_json (policy_manifest_json w_policy_manifest), po_effective_from := None,
     po_activated_by := None, po_activated_at := None\<rparr>"

lemma w_creates_policy:
  "create_policy 0 w_policy_manifest (digest_json (policy_manifest_json w_policy_manifest)) ''founder'' empty_db
     = Inr (w_drafted_policy, empty_db\<lparr>policies := [w_drafted_policy], next_uuid := 1\<rparr>)"
  by (simp add: create_policy_def unique_keys_def Let_def w_drafted_policy_def w_policy_def
      w_policy_manifest_def w_right_def empty_db_def ebind_def)

lemma w_activates_policy:
  "policies (snd (activate 0 0 ''chief'' (empty_db\<lparr>policies := [w_drafted_policy], next_uuid := 1\<rparr>)))
     = [w_drafted_policy\<lparr>po_status := PolicyActive, po_effective_from := Some 0,
          po_activated_by := Some ''chief'', po_activated_at := Some 0\<rparr>]"
  by (simp add: activate_def get_policy_def current_policy_def guarded_def activate_policy_def
      upd_policy_def upd_row_def w_drafted_policy_def w_policy_def Let_def ebind_def)

theorem authority_invariant_witness:
  "\<exists>d'. (authority_step isoformat)\<^sup>*\<^sup>* empty_db d' \<and> length (policies d') = 1
    \<and> (\<forall>p \<in> set (policies d'). po_status p = PolicyActive)
    \<and> list_all (\<lambda>x. dl_grantor_actor x \<noteq> dl_grantee_actor x) (delegations d')"
proof -
  let ?d1 = "empty_db\<lparr>policies := [w_drafted_policy], next_uuid := 1\<rparr>"
  let ?d2 = "snd (activate 0 0 ''chief'' ?d1)"
  have "authority_step isoformat empty_db ?d1"
    by (rule authority_step.policy[OF w_creates_policy])
  moreover have "authority_step isoformat ?d1 ?d2" by (rule authority_step.activate)
  ultimately have run: "(authority_step isoformat)\<^sup>*\<^sup>* empty_db ?d2"
    by (meson converse_rtranclp_into_rtranclp r_into_rtranclp)
  have e: "policies empty_db = []" "delegations empty_db = []" "exceptions empty_db = []"
    by (simp_all add: empty_db_def)
  have "list_all (\<lambda>x. dl_grantor_actor x \<noteq> dl_grantee_actor x) (delegations ?d2)"
    using authority_invariant[OF run e] by (auto simp: list_all_iff)
  then show ?thesis using run by (intro exI[of _ ?d2]) (simp add: w_activates_policy del: One_nat_def)
qed

section \<open>Decisions on approvals\<close>

lemma w_request_ok: "approval_request w_open_approval ''chief'' ''approve'' None = Inr w_question"
  by (simp add: approval_request_def approval_environment_def approval_scope_def dict_get_def
      valid_resolution_request_def is_sha256_hex_def hex_digit_def w_plan_def w_open_approval_def
      w_open_task_def w_approval_def w_task_def w_question_def Let_def ebind_def list_all_iff)

lemma w_find: "find_approval 7 w_governed = Inr w_open_approval"
  by (simp add: find_approval_def get_approval_def w_governed_def w_open_approval_def w_approval_def)

lemma w_open:
  "get_task 6 w_governed = Some w_open_task" "t_plan_digest w_open_task = w_plan"
  "ap_task_id w_open_approval = 6" "ap_plan_digest w_open_approval = w_plan"
  "ap_status w_open_approval = ApprovalPending"
  by (simp_all add: get_task_def w_governed_def w_open_task_def w_task_def w_open_approval_def w_approval_def)

lemma w_approves:
  assumes "tasks d = tasks w_governed"
  shows "\<exists>d'. approve_task 5 ''n'' w_open_approval ''chief'' ''ok'' 600 d = Inr d'"
proof -
  have "get_task 6 d = Some w_open_task" using assms w_open(1) by (simp add: get_task_def)
  then show ?thesis by (simp add: approve_task_def w_open Let_def case_prod_unfold)
qed

lemma w_resolved:
  "\<exists>r d1. resolve_task_approval 5 w_open_approval ''chief'' ''approve'' None w_governed = (Inr r, d1)
     \<and> tasks d1 = tasks w_governed"
proof -
  obtain r d1 where r: "resolve_authority 5 w_question w_governed = (Inr r, d1)" using w_authorises by blast
  obtain p where "d1 = w_governed\<lparr>decisions := decisions w_governed @ [r], next_uuid := Suc (next_uuid w_governed)\<rparr>"
    by (rule resolve_authority_Inr[OF r])
  then show ?thesis using r by (simp add: resolve_task_approval_def w_request_ok)
qed

lemma w_grants: "\<exists>d'. grant_approval 5 ''n'' 7 ''chief'' ''ok'' 600 None w_governed = (Inr (), d')"
proof -
  obtain r d1 where r: "resolve_task_approval 5 w_open_approval ''chief'' ''approve'' None w_governed = (Inr r, d1)"
      "tasks d1 = tasks w_governed"
    using w_resolved by blast
  then show ?thesis using w_approves[OF r(2)] by (auto simp: grant_approval_def w_find guarded_def ebind_def)
qed

theorem approval_four_eyes_witness:
  "\<exists>d' a. grant_approval 5 ''n'' 7 ''chief'' ''ok'' 600 None w_governed = (Inr (), d')
    \<and> get_approval 7 d' = Some a \<and> ap_status a = ApprovalApproved \<and> ap_decided_by a = Some ''chief''"
proof -
  obtain d' where g: "grant_approval 5 ''n'' 7 ''chief'' ''ok'' 600 None w_governed = (Inr (), d')"
    using w_grants by blast
  show ?thesis using approval_four_eyes[OF disjI1[OF g]] g by blast
qed

definition w_center :: center_decision where
  "w_center =
     \<lparr>cd_actor = ''chief'', cd_reason = ''ok'',
      cd_expected_review_digest = digest_json (review_document 5 w_open_approval w_open_task w_governed),
      cd_expires_in_seconds = 600, cd_authority_exception_id = None\<rparr>"

lemma w_review:
  "\<exists>v. approval_center_item 5 w_open_approval w_governed = Inr v
     \<and> rv_review_digest v = cd_expected_review_digest w_center \<and> rv_actionable v"
proof -
  have "changed_fields w_open_approval w_open_task = []"
    by (simp add: changed_fields_def w_open_approval_def json_eq_def sorted_set_def Let_def)
  then have "review_executable w_open_approval w_open_task"
    by (simp add: review_executable_def review_current_def w_open) (simp add: w_open_task_def w_task_def)
  moreover have "review_blocked_by 5 w_open_approval w_open_task w_governed = []"
    using \<open>changed_fields w_open_approval w_open_task = []\<close>
    by (simp add: review_blocked_by_def review_current_def w_open)
       (simp add: prerequisites_def predecessors_def task_mission_def w_governed_def w_world_def
         empty_db_def w_open_task_def w_task_def)
  moreover have "open_notifications w_open_approval w_governed = []"
    by (simp add: open_notifications_def w_governed_def w_world_def empty_db_def)
  ultimately show ?thesis by (simp add: approval_center_item_def w_open w_center_def)
qed

lemma w_centers: "\<exists>rd d'. approval_center_decision 5 ''n'' 7 CenterApprove w_center w_governed = (Inr rd, d')"
proof -
  obtain v where "approval_center_item 5 w_open_approval w_governed = Inr v"
      "rv_review_digest v = cd_expected_review_digest w_center" "rv_actionable v"
    using w_review by blast
  then have rev: "reviewed_approval 5 7 CenterApprove w_center w_governed = Inr w_open_approval"
    by (simp add: reviewed_approval_def w_find ebind_def)
  obtain r d1 where r: "resolve_task_approval 5 w_open_approval ''chief'' ''approve'' None w_governed = (Inr r, d1)"
      "tasks d1 = tasks w_governed"
    using w_resolved by blast
  have c: "cd_actor w_center = ''chief''" "cd_reason w_center = ''ok''" "cd_expires_in_seconds w_center = 600"
      "cd_authority_exception_id w_center = None" "center_action_str CenterApprove = ''approve''"
    by (simp_all add: w_center_def)
  obtain d2 where "approve_task 5 ''n'' w_open_approval ''chief'' ''ok'' 600 d1 = Inr d2"
    using w_approves[OF r(2)] by blast
  then show ?thesis
    using r(1) by (simp add: approval_center_decision_def rev c guarded_def decide_in_center_def ebind_def Let_def)
qed

theorem approval_center_digest_safe_witness:
  "\<exists>rd d' t. approval_center_decision 5 ''n'' 7 CenterApprove w_center w_governed = (Inr rd, d')
    \<and> get_task 6 d' = Some t \<and> t_status t = Queued"
proof -
  obtain rd d' where g: "approval_center_decision 5 ''n'' 7 CenterApprove w_center w_governed = (Inr rd, d')"
    using w_centers by blast
  have "get_approval 7 w_governed = Some w_open_approval" using find_approval_in[OF w_find] by simp
  then show ?thesis using approval_center_digest_safe[OF g] g w_open(3) by auto
qed

section \<open>Artifacts\<close>

definition w_artifact :: artifact_create where
  "w_artifact =
     \<lparr>ac_artifact_type = ''log'', ac_name = ''run.log'', ac_size_bytes = 10, ac_sha256 = w_plan,
      ac_location = ''workspace://t1/run.log'', ac_storage_backend = ''workspace'', ac_workflow = ''build'',
      ac_workflow_version = ''1'', ac_source_commit = replicate 40 CHR ''0'',
      ac_confidentiality = ''internal'', ac_retention_class = ''standard'', ac_expires_at = None,
      ac_metadata = []\<rparr>"

lemma w_artifact_location: "safe_location ''workspace://t1/run.log''"
  by (simp add: safe_location_def location_path_def alphanumeric_def sublist_code eval_nat_numeral)

lemma w_artifact_valid: "valid_artifact_create w_artifact"
  by (simp add: valid_artifact_create_def w_artifact_def w_artifact_location artifact_name_def alphanumeric_def
      commit_hex_def is_sha256_hex_def hex_digit_def w_plan_def list_all_iff)

lemma w_registers:
  "\<exists>x d'. register_artifact ''key'' 2 w_agent 6 (gt_token w_token) w_artifact w_held = Inr (x, d')"
proof -
  have l: "get_task 6 w_held = Some w_held_task" "t_id w_held_task = 6"
    by (simp_all add: get_task_def w_held_def w_held_task_def leased_row_def w_task_def)
  have "holds_lease ''key'' 2 w_agent (gt_token w_token) [Leased, Running] w_held_task"
    by (simp add: holds_lease_def w_token_prefix w_held_task_def leased_row_def seconds_def)
       (simp add: w_token_def create_task_lease_token_def Let_def)
  then have "held_task ''key'' 2 w_agent 6 (gt_token w_token) [Leased, Running] w_held = Inr w_held_task"
    using l by (simp add: held_task_iff)
  then obtain n where "lock_task 6 w_held = Inr w_held_task"
      "verify_task_lease ''key'' w_held_task w_agent (gt_token w_token) [Leased, Running] 2 = Inr n"
    by (auto simp: held_task_def ebind_Inr_iff)
  then show ?thesis by (simp add: register_artifact_def ebind_def Let_def w_artifact_def)
qed

theorem register_artifact_sound_witness:
  "\<exists>x d'. register_artifact ''key'' 2 w_agent 6 (gt_token w_token) w_artifact w_held = Inr (x, d')
    \<and> valid_artifact_create w_artifact \<and> at_task_id x = 6 \<and> at_agent_id x = 1"
proof -
  obtain x d' where x: "register_artifact ''key'' 2 w_agent 6 (gt_token w_token) w_artifact w_held = Inr (x, d')"
    using w_registers by blast
  show ?thesis using register_artifact_sound[OF x w_artifact_valid] x w_artifact_valid by (auto simp: w_agent_def)
qed

end
