(* ===== verification/WorkloadIdentity.thy ===== *)
theory WorkloadIdentity
  imports AgentGovernance Security
begin

text \<open>
  Agents, their credentials and workload identities (\<open>services/workload_identity.py\<close>,
  \<open>services/agents.py\<close>, \<open>services/packages.py\<close>, \<open>get_current_agent\<close> of \<open>core/security.py\<close>
  and the routes of agents and workload identities). A bearer token names a credential row;
  the row names the agent and, once enforcement is on, an identity whose scopes bound what
  the agent may call. Credentials are rotated with an overlap in which both tokens work.
  Random tokens are arguments; \<open>iso_time\<close> and \<open>dump_time\<close> are the texts a date of a request
  has under \<open>isoformat\<close> and in a pydantic dump.
\<close>

section \<open>Requests\<close>

record agent_create =
  an_slug :: string
  an_display_name :: string
  an_role :: string
  an_machine :: string
  an_hermes_profile :: string
  an_capabilities :: "string list"
  an_risk_ceiling :: int

record agent_heartbeat =
  hb_status :: string
  hb_runtime :: string
  hb_runtime_version :: "string option"
  hb_capabilities :: "string list option"
  hb_metadata :: dict

record workload_identity_create =
  ic_agent_id :: uuid
  ic_charter_id :: uuid
  ic_package_id :: uuid
  ic_version :: string
  ic_audience :: string
  ic_scopes :: "string list"
  ic_accountable_owner :: string
  ic_expires_at :: time
  ic_created_by :: string

text \<open>\<open>validate_scopes\<close>.\<close>

definition validate_scopes :: "workload_identity_create \<Rightarrow> bool" where
  "validate_scopes p =
     (ic_scopes p \<noteq> [] \<and> distinct (ic_scopes p)
      \<and> list_all (\<lambda>s. CHR ''*'' \<notin> set s) (ic_scopes p))"

record workload_authorization_request =
  wq_identity_id :: uuid
  wq_credential_prefix :: string
  wq_action :: string
  wq_required_scope :: string
  wq_context :: dict

record workload_secret_policy_create =
  sc_identity_id :: uuid
  sc_logical_name :: string
  sc_version :: string
  sc_required_scope :: string
  sc_reference :: string
  sc_rotation_due_at :: time
  sc_expires_at :: time
  sc_created_by :: string

definition validate_dates :: "workload_secret_policy_create \<Rightarrow> bool" where
  "validate_dates p = (sc_rotation_due_at p < sc_expires_at p)"

record workload_emergency_grant_create =
  ec_identity_id :: uuid
  ec_scopes :: "string list"
  ec_reason :: string
  ec_approved_by :: string
  ec_independent_reviewer :: string
  ec_approval_reference :: string
  ec_expires_at :: time

definition validate_review :: "workload_emergency_grant_create \<Rightarrow> bool" where
  "validate_review p = (ec_scopes p \<noteq> [] \<and> ec_approved_by p \<noteq> ec_independent_reviewer p)"

section \<open>Rows\<close>

definition get_identity :: "uuid \<Rightarrow> db \<Rightarrow> workload_identity option" where
  "get_identity i d = get_row wk_id (identities d) i"

definition get_credential :: "uuid \<Rightarrow> db \<Rightarrow> agent_credential option" where
  "get_credential i d = get_row cr_id (credentials d) i"

definition upd_credential :: "uuid \<Rightarrow> (agent_credential \<Rightarrow> agent_credential) \<Rightarrow> db \<Rightarrow> db" where
  "upd_credential i f d = d\<lparr>credentials := upd_row cr_id i f (credentials d)\<rparr>"

definition upd_agent :: "uuid \<Rightarrow> (agent \<Rightarrow> agent) \<Rightarrow> db \<Rightarrow> db" where
  "upd_agent i f d = d\<lparr>agents := upd_row a_id i f (agents d)\<rparr>"

section \<open>Credentials (services/agents.py)\<close>

definition calculate_presence :: "agent \<Rightarrow> time \<Rightarrow> string" where
  "calculate_presence ag now =
     (if \<not> a_is_enabled ag then ''revoked''
      else
        (case a_last_heartbeat_at ag of
           None \<Rightarrow> ''offline''
         | Some t \<Rightarrow>
             if now - t \<le> seconds 90 then ''online''
             else if now - t \<le> seconds 300 then ''degraded''
             else ''offline''))"

text \<open>The insertion of a credential row; the prefix is a unique key.\<close>

definition add_credential :: "agent_credential \<Rightarrow> db \<Rightarrow> db res" where
  "add_credential c d =
     (if cr_token_prefix c \<in> cr_token_prefix ` set (credentials d) then Inl IntegrityError
      else Inr (d\<lparr>credentials := credentials d @ [c], next_uuid := Suc (next_uuid d)\<rparr>))"

definition new_credential ::
  "time \<Rightarrow> uuid \<Rightarrow> uuid option \<Rightarrow> uuid option \<Rightarrow> generated_token \<Rightarrow> time option \<Rightarrow> db \<Rightarrow> agent_credential" where
  "new_credential now agent_id identity_id parent tok expires_at d =
     \<lparr>cr_id = next_uuid d, cr_agent_id = agent_id, cr_workload_identity_id = identity_id,
      cr_rotation_parent_id = parent, cr_rotation_state = RotationActive,
      cr_overlap_expires_at = None, cr_token_prefix = gt_prefix tok,
      cr_token_digest = gt_digest tok, cr_created_at = now, cr_last_used_at = None,
      cr_expires_at = expires_at, cr_revoked_at = None\<rparr>"

definition issue_agent_credential ::
  "time \<Rightarrow> uuid \<Rightarrow> generated_token \<Rightarrow> db \<Rightarrow> (agent_credential \<times> string \<times> db) res" where
  "issue_agent_credential now agent_id tok d =
     (let c = new_credential now agent_id None None tok None d
      in ebind (add_credential c d) (\<lambda>d1. Inr (c, gt_token tok, d1)))"

definition revoke_active_credentials :: "uuid \<Rightarrow> time \<Rightarrow> db \<Rightarrow> nat \<times> db" where
  "revoke_active_credentials agent_id now d =
     (let live = (\<lambda>c. cr_agent_id c = agent_id \<and> cr_revoked_at c = None)
      in (length (filter live (credentials d)),
          d\<lparr>credentials := map (\<lambda>c. if live c then c\<lparr>cr_revoked_at := Some now\<rparr> else c) (credentials d)\<rparr>))"

section \<open>The enforcement switch and the event log\<close>

definition POLICY_VERSION :: string where
  "POLICY_VERSION = ''workload-identity-v1.0.0''"

definition EMERGENCY_SCOPES :: "string list" where
  "EMERGENCY_SCOPES = [''health:read'', ''task:halt'', ''credential:revoke'', ''workload:isolate'']"

text \<open>\<open>control\<close>: the single row, created when it is first read.\<close>

definition control :: "time \<Rightarrow> db \<Rightarrow> workload_identity_control \<times> db" where
  "control now d =
     (case identity_control d of
        Some row \<Rightarrow> (row, d)
      | None \<Rightarrow>
          (let row = \<lparr>wc_enforcement_active = False, wc_policy_version = POLICY_VERSION,
                      wc_policy_digest =
                        digest_json (JObj [(''schema_version'', JStr POLICY_VERSION),
                          (''wildcards'', JBool False), (''secret_values_persisted'', JBool False)]),
                      wc_activated_by = None, wc_activated_at = None, wc_updated_at = now\<rparr>
           in (row, d\<lparr>identity_control := Some row\<rparr>)))"

definition identity_event_doc :: "workload_identity_event \<Rightarrow> json" where
  "identity_event_doc e =
     JObj [(''identity_id'', juuid (we_identity_id e)), (''sequence'', JInt (int (we_sequence e))),
           (''event_type'', JStr (we_event_type e)), (''actor'', JStr (we_actor e)),
           (''payload'', JObj (we_payload e)),
           (''prior_event_digest'', option_json JStr (we_prior_event_digest e))]"

definition append_identity_event ::
  "time \<times> uuid \<times> string \<times> string \<times> dict \<Rightarrow> db \<Rightarrow> db" where
  "append_identity_event x d =
     (case x of (now, identity_id, event_type, actor, payload) \<Rightarrow>
       (let log = filter (\<lambda>e. we_identity_id e = identity_id) (identity_events d);
            e = \<lparr>we_id = next_uuid d, we_identity_id = identity_id,
                 we_sequence = next_sequence we_sequence log, we_event_type = event_type,
                 we_actor = actor, we_payload = payload,
                 we_prior_event_digest = previous_digest we_sequence we_event_digest log,
                 we_event_digest = '''', we_created_at = now\<rparr>
        in d\<lparr>identity_events :=
               identity_events d @ [e\<lparr>we_event_digest := digest_json (identity_event_doc e)\<rparr>],
             next_uuid := Suc (next_uuid d)\<rparr>))"

section \<open>Identities\<close>

definition deployed :: "uuid \<Rightarrow> uuid \<Rightarrow> db \<Rightarrow> bool" where
  "deployed agent_id package_id d =
     list_ex (\<lambda>x. pd_agent_id x = agent_id \<and> pd_package_id x = package_id \<and> pd_is_active x)
       (deployments d)"

definition identity_grants ::
  "time \<Rightarrow> uuid \<Rightarrow> uuid \<Rightarrow> uuid \<Rightarrow> db \<Rightarrow> agent_capability_grant list" where
  "identity_grants now agent_id charter_id package_id d =
     filter (\<lambda>g. gr_agent_id g = agent_id \<and> gr_charter_id g = charter_id
               \<and> gr_package_id g = package_id \<and> gr_status g = GrantActive \<and> now < gr_expires_at g)
       (grants d)"

definition scopes_for_package :: "package_manifest \<Rightarrow> string list" where
  "scopes_for_package m =
     (let types = pm_task_types m
      in [''identity:read'', ''heartbeat:write'', ''control:read'', ''package:read'']
         @ (if types \<noteq> [] then [''task:lease'', ''task:execute''] else [])
         @ (if list_ex (prefix ''infrastructure_'') types then [''infrastructure:broker''] else [])
         @ (if ''founder_request'' \<in> set types then [''proposal:write''] else [])
         @ (if list_ex (prefix ''research_'') types then [''research:write''] else [])
         @ (if ''fleet_observation'' \<in> set types then [''fleet:write''] else [])
         @ (if ''operational_memory'' \<in> set types then [''notes:write''] else []))"

definition identity_subject ::
  "workload_identity_create \<Rightarrow> db \<Rightarrow> (agent \<times> agent_charter \<times> role_package) option" where
  "identity_subject p d =
     (case (get_agent (ic_agent_id p) d, get_charter (ic_charter_id p) d,
            get_package (ic_package_id p) d) of
        (Some ag, Some ch, Some pk) \<Rightarrow>
          if a_is_enabled ag \<and> ch_agent_id ch = a_id ag \<and> ch_status ch = CharterActive
             \<and> deployed (ic_agent_id p) (ic_package_id p) d
          then Some (ag, ch, pk) else None
      | _ \<Rightarrow> None)"

definition identity_manifest ::
  "(time \<Rightarrow> string) \<Rightarrow> workload_identity_create \<Rightarrow> agent \<Rightarrow> agent_charter \<Rightarrow> role_package \<Rightarrow> dict" where
  "identity_manifest iso_time p ag ch pk =
     [(''schema_version'', JStr POLICY_VERSION), (''agent_id'', juuid (a_id ag)),
      (''charter_digest'', JStr (ch_manifest_digest ch)),
      (''package_digest'', JStr (rp_manifest_digest pk)), (''machine'', JStr (a_machine ag)),
      (''audience'', JStr (ic_audience p)), (''scopes'', jstrs (sort (ic_scopes p))),
      (''accountable_owner'', JStr (ic_accountable_owner p)),
      (''expires_at'', JStr (iso_time (ic_expires_at p)))]"

definition new_identity ::
  "(time \<Rightarrow> string) \<Rightarrow> time \<Rightarrow> uuid \<Rightarrow> workload_identity_create \<Rightarrow> agent \<Rightarrow> agent_charter
     \<Rightarrow> role_package \<Rightarrow> workload_identity" where
  "new_identity iso_time now i p ag ch pk =
     \<lparr>wk_id = i, wk_agent_id = a_id ag, wk_charter_id = ch_id ch, wk_package_id = rp_id pk,
      wk_version = ic_version p, wk_machine = a_machine ag, wk_audience = ic_audience p,
      wk_scopes = sort (ic_scopes p), wk_accountable_owner = ic_accountable_owner p,
      wk_manifest = identity_manifest iso_time p ag ch pk,
      wk_manifest_digest = digest_json (JObj (identity_manifest iso_time p ag ch pk)),
      wk_status = ''active'', wk_valid_from = now, wk_expires_at = ic_expires_at p,
      wk_created_by = ic_created_by p, wk_created_at = now, wk_revoked_by = None,
      wk_revoked_at = None, wk_revocation_reason = None\<rparr>"

definition create_identity ::
  "(time \<Rightarrow> string) \<Rightarrow> time \<Rightarrow> workload_identity_create \<Rightarrow> db \<Rightarrow> (workload_identity \<times> db) res" where
  "create_identity iso_time now p d =
     (case identity_subject p d of
        None \<Rightarrow>
          http 409 ''Identity requires an enabled agent with the exact active charter and package deployment.''
      | Some (ag, ch, pk) \<Rightarrow>
          if identity_grants now (a_id ag) (ch_id ch) (rp_id pk) d = []
          then http 409 ''Identity requires active exact-package capability grants.''
          else if \<not> list_all (\<lambda>s. s \<in> set (scopes_for_package (rp_manifest pk))) (ic_scopes p)
          then http 422 ''Requested workload scope exceeds the active package authority.''
          else
            (let w = new_identity iso_time now (next_uuid d) p ag ch pk
             in if list_ex (\<lambda>x. wk_agent_id x = wk_agent_id w \<and> wk_version x = wk_version w
                              \<or> wk_manifest_digest x = wk_manifest_digest w) (identities d)
                then Inl IntegrityError
                else
                  Inr (w, append_identity_event
                     (now, wk_id w, ''created'', ic_created_by p,
                      [(''manifest_digest'', JStr (wk_manifest_digest w))])
                     (d\<lparr>identities := identities d @ [w], next_uuid := Suc (next_uuid d)\<rparr>))))"

text \<open>\<open>required_scope\<close>; the method is not looked at.\<close>

definition required_scope :: "string \<Rightarrow> string" where
  "required_scope path =
     (if suffix ''/heartbeat'' path \<and> prefix ''/v1/agent/tasks/'' path then ''task:execute''
      else if path = ''/v1/agent/heartbeat'' then ''heartbeat:write''
      else if path \<in> {''/v1/agent/me'', ''/v1/agent/control''}
      then (if suffix ''/me'' path then ''identity:read'' else ''control:read'')
      else if prefix ''/v1/agent/tasks'' path
      then (if suffix ''/lease'' path then ''task:lease''
            else if suffix ''/broker-ticket'' path then ''infrastructure:broker''
            else ''task:execute'')
      else if prefix ''/v1/agent/packages'' path then ''package:read''
      else if prefix ''/v1/agent/proposals'' path then ''proposal:write''
      else if prefix ''/v1/agent/research'' path then ''research:write''
      else if prefix ''/v1/agent/fleet'' path then ''fleet:write''
      else if prefix ''/v1/agent/operational-notes'' path then ''notes:write''
      else if prefix ''/v1/agent/governance'' path then ''governance:read''
      else ''identity:read'')"

definition identity_in_force :: "time \<Rightarrow> workload_identity \<Rightarrow> bool" where
  "identity_in_force now w =
     (wk_status w = ''active'' \<and> wk_valid_from w \<le> now \<and> now < wk_expires_at w)"

definition authority_snapshot_active :: "agent \<Rightarrow> workload_identity \<Rightarrow> db \<Rightarrow> (agent_charter \<times> role_package) option" where
  "authority_snapshot_active ag w d =
     (case (get_charter (wk_charter_id w) d, get_package (wk_package_id w) d) of
        (Some ch, Some pk) \<Rightarrow>
          if ch_status ch = CharterActive \<and> ch_agent_id ch = a_id ag
             \<and> deployed (a_id ag) (wk_package_id w) d
          then Some (ch, pk) else None
      | _ \<Rightarrow> None)"

definition granted_capabilities ::
  "time \<Rightarrow> agent \<Rightarrow> agent_charter \<Rightarrow> role_package \<Rightarrow> db \<Rightarrow> string list" where
  "granted_capabilities now ag ch pk d =
     map gr_capability (filter (\<lambda>g. gr_machine g = a_machine ag)
       (identity_grants now (a_id ag) (ch_id ch) (rp_id pk) d))"

definition active_emergency_grants :: "time \<Rightarrow> uuid \<Rightarrow> db \<Rightarrow> workload_emergency_grant list" where
  "active_emergency_grants now identity_id d =
     filter (\<lambda>g. eg_identity_id g = identity_id \<and> eg_status g = ''active''
               \<and> eg_starts_at g \<le> now \<and> now < eg_expires_at g) (emergency_grants d)"

definition check_identity ::
  "time \<Rightarrow> agent \<Rightarrow> workload_identity \<Rightarrow> string \<Rightarrow> db \<Rightarrow> unit res" where
  "check_identity now ag w path d =
     (if wk_agent_id w \<noteq> a_id ag \<or> wk_machine w \<noteq> a_machine ag
      then http 403 ''Workload identity subject or machine mismatch.''
      else
        (case authority_snapshot_active ag w d of
           None \<Rightarrow> http 403 ''Workload identity authority snapshot is no longer active.''
         | Some (ch, pk) \<Rightarrow>
             if \<not> list_all (\<lambda>c. c \<in> set (granted_capabilities now ag ch pk d))
                    (pm_required_capabilities (rp_manifest pk))
             then http 403 ''Workload identity capability grants are incomplete or expired.''
             else if required_scope path
                       \<notin> set (wk_scopes w @ concat (map eg_scopes (active_emergency_grants now (wk_id w) d)))
             then http 403 (''Workload scope denied: '' @ required_scope path @ ''.'')
             else Inr ()))"

definition validate_identity ::
  "time \<Rightarrow> agent \<Rightarrow> agent_credential \<Rightarrow> string \<Rightarrow> db \<Rightarrow> (workload_identity option \<times> db) res" where
  "validate_identity now ag c path d =
     (let (state, d1) = control now d
      in if \<not> wc_enforcement_active state then Inr (None, d1)
         else
           (case Option.bind (cr_workload_identity_id c) (\<lambda>i. get_identity i d1) of
              None \<Rightarrow> http 403 ''Active workload identity required.''
            | Some w \<Rightarrow>
                if \<not> identity_in_force now w then http 403 ''Active workload identity required.''
                else ebind (check_identity now ag w path d1) (\<lambda>_. Inr (Some w, d1))))"

section \<open>Authentication (core/security.py)\<close>

definition check_credential :: "string \<Rightarrow> time \<Rightarrow> string \<Rightarrow> db \<Rightarrow> agent_credential res" where
  "check_credential key now token d =
     (case Option.bind (extract_agent_token_prefix token) (get_row cr_token_prefix (credentials d)) of
        None \<Rightarrow> http 401 ''Invalid agent credential.''
      | Some c \<Rightarrow>
          if cr_revoked_at c \<noteq> None then http 401 ''Agent credential has been revoked.''
          else if (case cr_expires_at c of None \<Rightarrow> False | Some e \<Rightarrow> e \<le> now)
          then http 401 ''Agent credential has expired.''
          else if cr_rotation_state c = RotationOverlap
                  \<and> (case cr_overlap_expires_at c of None \<Rightarrow> False | Some e \<Rightarrow> e \<le> now)
          then http 401 ''Agent credential rotation overlap has expired.''
          else if digest_agent_token key token \<noteq> cr_token_digest c
          then http 401 ''Invalid agent credential.''
          else Inr c)"

definition get_current_agent ::
  "string \<Rightarrow> time \<Rightarrow> string option \<Rightarrow> string \<Rightarrow> db \<Rightarrow> (agent \<times> db) res" where
  "get_current_agent key now credentials_header path d =
     (case credentials_header of
        None \<Rightarrow> http 401 ''Agent credential required.''
      | Some token \<Rightarrow>
          ebind (check_credential key now token d) (\<lambda>c.
            (case get_agent (cr_agent_id c) d of
               None \<Rightarrow> http 403 ''Agent is disabled.''
             | Some ag \<Rightarrow>
                 if \<not> a_is_enabled ag then http 403 ''Agent is disabled.''
                 else ebind (validate_identity now ag c path d) (\<lambda>(_, d1).
                        Inr (ag, upd_credential (cr_id c) (\<lambda>c. c\<lparr>cr_last_used_at := Some now\<rparr>) d1)))))"

section \<open>Agents (api/routes/agents.py, api/routes/agent_runtime.py)\<close>

definition new_agent :: "time \<Rightarrow> agent_create \<Rightarrow> db \<Rightarrow> agent" where
  "new_agent now p d =
     \<lparr>a_id = next_uuid d, a_slug = an_slug p, a_display_name = an_display_name p,
      a_role = an_role p, a_machine = an_machine p, a_hermes_profile = an_hermes_profile p,
      a_runtime = None, a_runtime_version = None, a_status = ''offline'',
      a_capabilities = an_capabilities p, a_heartbeat_metadata = [],
      a_risk_ceiling = an_risk_ceiling p, a_is_enabled = True, a_last_heartbeat_at = None,
      a_created_at = now\<rparr>"

definition register_agent ::
  "time \<Rightarrow> generated_token \<Rightarrow> agent_create \<Rightarrow> db \<Rightarrow> (agent \<times> string \<times> db) res" where
  "register_agent now tok p d =
     (if an_slug p \<in> a_slug ` set (agents d) then http 409 ''An agent with this slug already exists.''
      else
        (let ag = new_agent now p d
         in case issue_agent_credential now (a_id ag) tok
                   (d\<lparr>agents := agents d @ [ag], next_uuid := Suc (next_uuid d)\<rparr>) of
              Inl _ \<Rightarrow> http 409 ''Agent registration conflicted with existing data.''
            | Inr (c, token, d1) \<Rightarrow> Inr (ag, token, d1)))"

definition rotate_agent_credential ::
  "time \<Rightarrow> generated_token \<Rightarrow> uuid \<Rightarrow> db \<Rightarrow> (string \<times> db) res" where
  "rotate_agent_credential now tok i d =
     (case get_agent i d of
        None \<Rightarrow> http 404 ''Agent not found.''
      | Some ag \<Rightarrow>
          if \<not> a_is_enabled ag then http 409 ''Cannot rotate credentials for a disabled agent.''
          else
            (let (state, d1) = control now d
             in if wc_enforcement_active state
                then http 409 ''Workload identity enforcement is active; use the scoped credential rotation lifecycle.''
                else ebind (issue_agent_credential now (a_id ag) tok
                              (snd (revoke_active_credentials (a_id ag) now d1)))
                       (\<lambda>(c, token, d2). Inr (token, d2))))"

definition revoke_agent :: "time \<Rightarrow> uuid \<Rightarrow> db \<Rightarrow> (nat \<times> db) res" where
  "revoke_agent now i d =
     (case get_agent i d of
        None \<Rightarrow> http 404 ''Agent not found.''
      | Some ag \<Rightarrow>
          (let (n, d1) = revoke_active_credentials (a_id ag) now d
           in Inr (n, upd_agent (a_id ag)
                        (\<lambda>a. a\<lparr>a_is_enabled := False, a_status := ''revoked''\<rparr>) d1)))"

text \<open>\<open>verify_agent_package_attestation\<close> (services/packages.py).\<close>

definition attested_package :: "agent \<Rightarrow> string \<Rightarrow> string \<Rightarrow> string \<Rightarrow> db \<Rightarrow> role_package option" where
  "attested_package ag dig name version d =
     List.find (\<lambda>p. rp_manifest_digest p = dig \<and> rp_name p = name \<and> rp_version p = version
                  \<and> deployed (a_id ag) (rp_id p) d) (packages d)"

definition verify_agent_package_attestation :: "agent \<Rightarrow> agent_heartbeat \<Rightarrow> db \<Rightarrow> unit res" where
  "verify_agent_package_attestation ag hb d =
     (case (dget (hb_metadata hb) ''role_package_digest'', dget (hb_metadata hb) ''role_package'',
            dget (hb_metadata hb) ''role_package_version'') of
        (JStr dig, JStr name, JStr version) \<Rightarrow>
          if attested_package ag dig name version d = None
          then http 409 ''Role-package attestation does not match an active deployment.''
          else Inr ()
      | _ \<Rightarrow> http 409 ''A complete role-package attestation is required.'')"

definition heartbeat_row :: "time \<Rightarrow> agent_heartbeat \<Rightarrow> agent \<Rightarrow> agent" where
  "heartbeat_row now hb a =
     (let a1 = a\<lparr>a_status := hb_status hb, a_runtime := Some (hb_runtime hb),
                 a_runtime_version := hb_runtime_version hb,
                 a_heartbeat_metadata := hb_metadata hb, a_last_heartbeat_at := Some now\<rparr>
      in case hb_capabilities hb of None \<Rightarrow> a1 | Some cs \<Rightarrow> a1\<lparr>a_capabilities := cs\<rparr>)"

definition receive_heartbeat :: "time \<Rightarrow> agent \<Rightarrow> agent_heartbeat \<Rightarrow> db \<Rightarrow> db res" where
  "receive_heartbeat now ag hb d =
     ebind (verify_agent_package_attestation ag hb d)
       (\<lambda>_. Inr (upd_agent (a_id ag) (heartbeat_row now hb) d))"

section \<open>Binding, enforcement and authorization\<close>

definition find_identity :: "uuid \<Rightarrow> db \<Rightarrow> workload_identity res" where
  "find_identity i d =
     (case get_identity i d of None \<Rightarrow> http 404 ''Workload identity not found.'' | Some w \<Rightarrow> Inr w)"

definition bind_credentials :: "time \<Rightarrow> workload_identity \<Rightarrow> string \<Rightarrow> db \<Rightarrow> nat \<times> db" where
  "bind_credentials now w actor d =
     (let unbound = (\<lambda>c. cr_agent_id c = wk_agent_id w \<and> cr_revoked_at c = None
                       \<and> cr_workload_identity_id c \<noteq> Some (wk_id w));
          changed = filter unbound (credentials d);
          d1 = d\<lparr>credentials :=
                   map (\<lambda>c. if unbound c then c\<lparr>cr_workload_identity_id := Some (wk_id w)\<rparr> else c)
                     (credentials d)\<rparr>
      in (length changed,
          if changed = [] then d1
          else append_identity_event
                 (now, wk_id w, ''credentials_bound'', actor,
                  [(''credential_prefixes'', jstrs (sort (map cr_token_prefix changed)))]) d1))"

definition bind_identity :: "time \<Rightarrow> uuid \<Rightarrow> string \<Rightarrow> db \<Rightarrow> (nat \<times> db) res" where
  "bind_identity now i actor d = ebind (find_identity i d) (\<lambda>w. Inr (bind_credentials now w actor d))"

definition enforceable_credentials :: "db \<Rightarrow> agent_credential list" where
  "enforceable_credentials d =
     filter (\<lambda>c. cr_revoked_at c = None
               \<and> list_ex (\<lambda>a. a_id a = cr_agent_id c \<and> a_is_enabled a
                           \<and> list_ex (\<lambda>x. pd_agent_id x = a_id a \<and> pd_is_active x) (deployments d))
                   (agents d)) (credentials d)"

definition activate_enforcement :: "time \<Rightarrow> string \<Rightarrow> db \<Rightarrow> (nat \<times> db) res" where
  "activate_enforcement now actor d =
     (let uncovered = filter (\<lambda>c. cr_workload_identity_id c = None) (enforceable_credentials d)
      in if uncovered \<noteq> []
         then http 409 (''Cannot activate: '' @ int_str (int (length uncovered))
                         @ '' active credentials lack workload identity.'')
         else
           (let (state, d1) = control now d
            in Inr (length (enforceable_credentials d),
                    d1\<lparr>identity_control :=
                         Some (state\<lparr>wc_enforcement_active := True, wc_activated_by := Some actor,
                                     wc_activated_at := Some now\<rparr>)\<rparr>)))"

definition sensitive_key :: "string \<Rightarrow> bool" where
  "sensitive_key k =
     list_ex (\<lambda>s. sublist s (map lower_char k)) [''secret'', ''token'', ''password'']"

definition safe_context :: "dict \<Rightarrow> dict" where
  "safe_context ctx = filter (\<lambda>(k, _). \<not> sensitive_key k) ctx"

definition authorize ::
  "time \<Rightarrow> string \<Rightarrow> workload_authorization_request \<Rightarrow> db
     \<Rightarrow> (workload_authorization_receipt \<times> db) res" where
  "authorize now nonce p d =
     (let found = list_ex (\<lambda>c. cr_token_prefix c = wq_credential_prefix p
                              \<and> cr_workload_identity_id c = Some (wq_identity_id p)) (credentials d)
      in ebind (find_identity (wq_identity_id p) d) (\<lambda>w.
           (let allowed = (found \<and> wk_status w = ''active'' \<and> wq_required_scope p \<in> set (wk_scopes w));
                reason = (if allowed then ''scope-authorized'' else ''subject-scope-or-credential-mismatch'');
                body = JObj [(''identity_id'', juuid (wq_identity_id p)),
                             (''credential_prefix'', JStr (wq_credential_prefix p)),
                             (''action'', JStr (wq_action p)),
                             (''required_scope'', JStr (wq_required_scope p)),
                             (''allowed'', JBool allowed), (''reason'', JStr reason),
                             (''context'', JObj (safe_context (wq_context p))),
                             (''nonce'', JStr nonce)];
                r = \<lparr>wr_id = next_uuid d, wr_identity_id = wq_identity_id p,
                     wr_credential_prefix = wq_credential_prefix p, wr_action = wq_action p,
                     wr_required_scope = wq_required_scope p, wr_allowed = allowed,
                     wr_reason = reason, wr_context = safe_context (wq_context p),
                     wr_receipt_digest = digest_json body, wr_created_at = now\<rparr>
            in if wr_receipt_digest r \<in> wr_receipt_digest ` set (authorization_receipts d)
               then Inl IntegrityError
               else Inr (r, d\<lparr>authorization_receipts := authorization_receipts d @ [r],
                              next_uuid := Suc (next_uuid d)\<rparr>))))"

section \<open>Rotation\<close>

definition rotatable :: "workload_identity \<Rightarrow> db \<Rightarrow> agent_credential option" where
  "rotatable w d =
     max_row cr_created_at
       (filter (\<lambda>c. cr_agent_id c = wk_agent_id w \<and> cr_workload_identity_id c = Some (wk_id w)
                  \<and> cr_revoked_at c = None) (credentials d))"

definition rotate_identity ::
  "time \<Rightarrow> generated_token \<Rightarrow> workload_identity \<Rightarrow> string \<Rightarrow> int \<Rightarrow> db
     \<Rightarrow> (agent_credential \<times> string \<times> agent_credential \<times> db) res" where
  "rotate_identity now tok w actor overlap_seconds d =
     (case rotatable w d of
        None \<Rightarrow> http 409 ''No active scoped credential to rotate.''
      | Some prior \<Rightarrow>
          (let overlap = now + seconds overlap_seconds;
               d1 = upd_credential (cr_id prior)
                      (\<lambda>c. c\<lparr>cr_rotation_state := RotationOverlap, cr_overlap_expires_at := Some overlap\<rparr>) d;
               new = new_credential now (wk_agent_id w) (Some (wk_id w)) (Some (cr_id prior)) tok
                       (Some (min (wk_expires_at w) (now + seconds (90 * 86400)))) d1
           in ebind (add_credential new d1) (\<lambda>d2.
                Inr (new, gt_token tok,
                     prior\<lparr>cr_rotation_state := RotationOverlap, cr_overlap_expires_at := Some overlap\<rparr>,
                     append_identity_event
                       (now, wk_id w, ''credential_rotated'', actor,
                        [(''prior_prefix'', JStr (cr_token_prefix prior)),
                         (''new_prefix'', JStr (cr_token_prefix new)),
                         (''overlap_expires_at'', jtime overlap)]) d2))))"

definition pending_rotation :: "workload_identity \<Rightarrow> db \<Rightarrow> agent_credential option" where
  "pending_rotation w d =
     max_row cr_created_at
       (filter (\<lambda>c. cr_workload_identity_id c = Some (wk_id w) \<and> cr_rotation_parent_id c \<noteq> None
                  \<and> cr_revoked_at c = None) (credentials d))"

definition finalize_rotation ::
  "time \<Rightarrow> workload_identity \<Rightarrow> string \<Rightarrow> bool \<Rightarrow> db \<Rightarrow> db res" where
  "finalize_rotation now w actor rollback d =
     (case pending_rotation w d of
        None \<Rightarrow> http 409 ''No pending rotation.''
      | Some newest \<Rightarrow>
          (case Option.bind (cr_rotation_parent_id newest) (\<lambda>i. get_credential i d) of
             None \<Rightarrow> Inl (AttributeError ''prior'')
           | Some prior \<Rightarrow>
               (let event = (\<lambda>kind. append_identity_event
                      (now, wk_id w, kind, actor,
                       [(''prior_prefix'', JStr (cr_token_prefix prior)),
                        (''new_prefix'', JStr (cr_token_prefix newest))]))
                in if rollback
                   then if (case cr_overlap_expires_at prior of None \<Rightarrow> True | Some e \<Rightarrow> e \<le> now)
                     then http 409 ''Credential rollback window has expired.''
                     else Inr (event ''credential_rotation_rolled_back''
                       (upd_credential (cr_id prior)
                          (\<lambda>c. c\<lparr>cr_rotation_state := RotationActive, cr_overlap_expires_at := None\<rparr>)
                          (upd_credential (cr_id newest)
                             (\<lambda>c. c\<lparr>cr_revoked_at := Some now, cr_rotation_state := RotationRolledBack\<rparr>) d)))
                   else Inr (event ''credential_rotation_finalized''
                     (upd_credential (cr_id prior)
                        (\<lambda>c. c\<lparr>cr_revoked_at := Some now, cr_rotation_state := RotationRevoked,
                               cr_overlap_expires_at := None\<rparr>) d)))))"

definition rotate_credential ::
  "time \<Rightarrow> generated_token \<Rightarrow> uuid \<Rightarrow> string \<Rightarrow> int \<Rightarrow> db
     \<Rightarrow> (agent_credential \<times> string \<times> agent_credential \<times> db) res" where
  "rotate_credential now tok i actor overlap_seconds d =
     ebind (find_identity i d) (\<lambda>w. rotate_identity now tok w actor overlap_seconds d)"

definition finalize :: "time \<Rightarrow> uuid \<Rightarrow> string \<Rightarrow> db \<Rightarrow> db res" where
  "finalize now i actor d = ebind (find_identity i d) (\<lambda>w. finalize_rotation now w actor False d)"

definition rollback :: "time \<Rightarrow> uuid \<Rightarrow> string \<Rightarrow> db \<Rightarrow> db res" where
  "rollback now i actor d = ebind (find_identity i d) (\<lambda>w. finalize_rotation now w actor True d)"

section \<open>Secret policies and emergency grants (api/routes/workload_identities.py)\<close>

definition secret_policy_json :: "(time \<Rightarrow> string) \<Rightarrow> workload_secret_policy_create \<Rightarrow> json" where
  "secret_policy_json dump_time p =
     JObj [(''identity_id'', juuid (sc_identity_id p)), (''logical_name'', JStr (sc_logical_name p)),
           (''version'', JStr (sc_version p)), (''required_scope'', JStr (sc_required_scope p)),
           (''reference'', JStr (sc_reference p)),
           (''rotation_due_at'', JStr (dump_time (sc_rotation_due_at p))),
           (''expires_at'', JStr (dump_time (sc_expires_at p))),
           (''created_by'', JStr (sc_created_by p))]"

definition new_secret_policy ::
  "(time \<Rightarrow> string) \<Rightarrow> time \<Rightarrow> workload_secret_policy_create \<Rightarrow> db \<Rightarrow> workload_secret_policy" where
  "new_secret_policy dump_time now p d =
     \<lparr>sp_id = next_uuid d, sp_identity_id = sc_identity_id p, sp_logical_name = sc_logical_name p,
      sp_version = sc_version p, sp_required_scope = sc_required_scope p,
      sp_reference = sc_reference p, sp_rotation_due_at = sc_rotation_due_at p,
      sp_expires_at = sc_expires_at p, sp_status = ''active'',
      sp_policy_digest = digest_json (secret_policy_json dump_time p),
      sp_created_by = sc_created_by p, sp_created_at = now\<rparr>"

definition add_secret_policy :: "workload_secret_policy \<Rightarrow> db \<Rightarrow> db res" where
  "add_secret_policy s d =
     (if list_ex (\<lambda>x. sp_identity_id x = sp_identity_id s \<and> sp_logical_name x = sp_logical_name s
                      \<and> sp_version x = sp_version s
                      \<or> sp_policy_digest x = sp_policy_digest s) (secret_policies d)
      then Inl IntegrityError
      else Inr (d\<lparr>secret_policies := secret_policies d @ [s], next_uuid := Suc (next_uuid d)\<rparr>))"

definition secret_policy ::
  "(time \<Rightarrow> string) \<Rightarrow> time \<Rightarrow> workload_secret_policy_create \<Rightarrow> db
     \<Rightarrow> (workload_secret_policy \<times> db) res" where
  "secret_policy dump_time now p d =
     (let s = new_secret_policy dump_time now p d
      in case get_identity (sc_identity_id p) d of
           None \<Rightarrow> http 422 ''Secret policy scope must belong to the workload identity.''
         | Some w \<Rightarrow>
             if sc_required_scope p \<notin> set (wk_scopes w)
             then http 422 ''Secret policy scope must belong to the workload identity.''
             else ebind (add_secret_policy s d) (\<lambda>d1.
                    Inr (s, append_identity_event
                      (now, wk_id w, ''secret_policy_registered'', sc_created_by p,
                       [(''logical_name'', JStr (sc_logical_name p)),
                        (''policy_digest'', JStr (sp_policy_digest s)),
                        (''reference_scheme'', JStr (takeWhile (\<lambda>c. c \<noteq> CHR '':'') (sc_reference p)))]) d1)))"

definition get_secret_policy :: "uuid \<Rightarrow> db \<Rightarrow> workload_secret_policy option" where
  "get_secret_policy i d = get_row sp_id (secret_policies d) i"

definition set_secret_status :: "uuid \<Rightarrow> string \<Rightarrow> db \<Rightarrow> db" where
  "set_secret_status i st d =
     d\<lparr>secret_policies := upd_row sp_id i (\<lambda>s. s\<lparr>sp_status := st\<rparr>) (secret_policies d)\<rparr>"

definition rotate_secret_policy ::
  "(time \<Rightarrow> string) \<Rightarrow> time \<Rightarrow> uuid \<Rightarrow> workload_secret_policy_create \<Rightarrow> db
     \<Rightarrow> (workload_secret_policy \<times> db) res" where
  "rotate_secret_policy dump_time now i p d =
     (case get_secret_policy i d of
        None \<Rightarrow> http 404 ''Secret policy not found.''
      | Some prior \<Rightarrow>
          if sp_status prior \<noteq> ''active'' then http 409 ''Only an active secret policy can rotate.''
          else if sc_identity_id p \<noteq> sp_identity_id prior \<or> sc_logical_name p \<noteq> sp_logical_name prior
          then http 422 ''Secret rotation must preserve workload identity and logical name.''
          else
            (case get_identity (sp_identity_id prior) d of
               None \<Rightarrow> Inl (AttributeError ''scopes'')
             | Some w \<Rightarrow>
                 if sc_required_scope p \<notin> set (wk_scopes w)
                 then http 422 ''Secret policy scope must belong to the workload identity.''
                 else
                   (let s = new_secret_policy dump_time now p d
                    in ebind (add_secret_policy s (set_secret_status i ''rotated'' d)) (\<lambda>d1.
                         Inr (s, append_identity_event
                           (now, wk_id w, ''secret_policy_rotated'', sc_created_by p,
                            [(''logical_name'', JStr (sp_logical_name prior)),
                             (''prior_policy_digest'', JStr (sp_policy_digest prior)),
                             (''replacement_policy_digest'', JStr (sp_policy_digest s))]) d1)))))"

definition revoke_secret_policy :: "time \<Rightarrow> uuid \<Rightarrow> string \<Rightarrow> string \<Rightarrow> db \<Rightarrow> db res" where
  "revoke_secret_policy now i actor reason d =
     (case get_secret_policy i d of
        None \<Rightarrow> http 404 ''Secret policy not found.''
      | Some s \<Rightarrow>
          if sp_status s \<noteq> ''active'' then http 409 ''Only an active secret policy can be revoked.''
          else
            (case get_identity (sp_identity_id s) d of
               None \<Rightarrow> Inl (AttributeError ''id'')
             | Some w \<Rightarrow>
                 Inr (append_identity_event
                   (now, wk_id w, ''secret_policy_revoked'', actor,
                    [(''logical_name'', JStr (sp_logical_name s)),
                     (''policy_digest'', JStr (sp_policy_digest s)), (''reason'', JStr reason)])
                   (set_secret_status i ''revoked'' d))))"

definition emergency_grant_json :: "(time \<Rightarrow> string) \<Rightarrow> workload_emergency_grant_create \<Rightarrow> json" where
  "emergency_grant_json dump_time p =
     JObj [(''identity_id'', juuid (ec_identity_id p)), (''scopes'', jstrs (ec_scopes p)),
           (''reason'', JStr (ec_reason p)), (''approved_by'', JStr (ec_approved_by p)),
           (''independent_reviewer'', JStr (ec_independent_reviewer p)),
           (''approval_reference'', JStr (ec_approval_reference p)),
           (''expires_at'', JStr (dump_time (ec_expires_at p)))]"

definition emergency_grant ::
  "(time \<Rightarrow> string) \<Rightarrow> (time \<Rightarrow> string) \<Rightarrow> time \<Rightarrow> workload_emergency_grant_create \<Rightarrow> db
     \<Rightarrow> (workload_emergency_grant \<times> db) res" where
  "emergency_grant iso_time dump_time now p d =
     ebind (find_identity (ec_identity_id p) d) (\<lambda>w.
       if \<not> list_all (\<lambda>s. s \<in> set EMERGENCY_SCOPES) (ec_scopes p)
       then http 422 ''Emergency access is reduction-only; requested scope is prohibited.''
       else if ec_expires_at p \<le> now \<or> now + seconds 3600 < ec_expires_at p
       then http 422 ''Emergency grant must expire within one hour.''
       else
         (let g = \<lparr>eg_id = next_uuid d, eg_identity_id = ec_identity_id p, eg_scopes = ec_scopes p,
                   eg_reason = ec_reason p, eg_approved_by = ec_approved_by p,
                   eg_independent_reviewer = ec_independent_reviewer p,
                   eg_approval_reference = ec_approval_reference p, eg_status = ''active'',
                   eg_starts_at = now, eg_expires_at = ec_expires_at p,
                   eg_record_digest = digest_json (emergency_grant_json dump_time p),
                   eg_revoked_at = None, eg_created_at = now\<rparr>
          in if eg_record_digest g \<in> eg_record_digest ` set (emergency_grants d) then Inl IntegrityError
             else Inr (g, append_identity_event
               (now, wk_id w, ''emergency_grant_issued'', ec_approved_by p,
                [(''scopes'', jstrs (sort (ec_scopes p))),
                 (''expires_at'', JStr (iso_time (ec_expires_at p))),
                 (''record_digest'', JStr (eg_record_digest g))])
               (d\<lparr>emergency_grants := emergency_grants d @ [g], next_uuid := Suc (next_uuid d)\<rparr>))))"

definition revoke_emergency_grant :: "time \<Rightarrow> uuid \<Rightarrow> string \<Rightarrow> string \<Rightarrow> db \<Rightarrow> db res" where
  "revoke_emergency_grant now i actor reason d =
     (case get_row eg_id (emergency_grants d) i of
        None \<Rightarrow> http 404 ''Emergency grant not found.''
      | Some g \<Rightarrow>
          if eg_status g \<noteq> ''active'' then http 409 ''Only an active emergency grant can be revoked.''
          else
            (case get_identity (eg_identity_id g) d of
               None \<Rightarrow> Inl (AttributeError ''id'')
             | Some w \<Rightarrow>
                 Inr (append_identity_event
                   (now, wk_id w, ''emergency_grant_revoked'', actor,
                    [(''record_digest'', JStr (eg_record_digest g)), (''reason'', JStr reason)])
                   (d\<lparr>emergency_grants := upd_row eg_id i
                        (\<lambda>g. g\<lparr>eg_status := ''revoked'', eg_revoked_at := Some now\<rparr>) (emergency_grants d)\<rparr>))))"

section \<open>What the operations leave alone\<close>

lemma append_identity_event_frame [simp]:
  "credentials (append_identity_event x d) = credentials d"
  "agents (append_identity_event x d) = agents d"
  "identities (append_identity_event x d) = identities d"
  "packages (append_identity_event x d) = packages d"
  "emergency_grants (append_identity_event x d) = emergency_grants d"
  "tasks (append_identity_event x d) = tasks d" "approvals (append_identity_event x d) = approvals d"
  "next_uuid (append_identity_event x d) = Suc (next_uuid d)"
  by (simp_all add: append_identity_event_def Let_def split: prod.split)

lemma control_frame [simp]:
  "credentials (snd (control now d)) = credentials d" "agents (snd (control now d)) = agents d"
  "identities (snd (control now d)) = identities d" "packages (snd (control now d)) = packages d"
  "emergency_grants (snd (control now d)) = emergency_grants d"
  "identity_events (snd (control now d)) = identity_events d"
  "tasks (snd (control now d)) = tasks d" "approvals (snd (control now d)) = approvals d"
  "charters (snd (control now d)) = charters d" "grants (snd (control now d)) = grants d"
  "deployments (snd (control now d)) = deployments d"
  "next_uuid (snd (control now d)) = next_uuid d"
  by (simp_all add: control_def Let_def split: option.split)

lemma upd_credential_frame [simp]:
  "credentials (upd_credential i f d) = upd_row cr_id i f (credentials d)"
  "agents (upd_credential i f d) = agents d" "identities (upd_credential i f d) = identities d"
  "packages (upd_credential i f d) = packages d"
  "emergency_grants (upd_credential i f d) = emergency_grants d"
  "identity_events (upd_credential i f d) = identity_events d"
  "tasks (upd_credential i f d) = tasks d" "approvals (upd_credential i f d) = approvals d"
  "next_uuid (upd_credential i f d) = next_uuid d"
  by (simp_all add: upd_credential_def)

lemma upd_agent_frame [simp]:
  "agents (upd_agent i f d) = upd_row a_id i f (agents d)" "credentials (upd_agent i f d) = credentials d"
  "identities (upd_agent i f d) = identities d" "packages (upd_agent i f d) = packages d"
  "emergency_grants (upd_agent i f d) = emergency_grants d"
  "identity_events (upd_agent i f d) = identity_events d"
  "tasks (upd_agent i f d) = tasks d" "approvals (upd_agent i f d) = approvals d"
  "next_uuid (upd_agent i f d) = next_uuid d"
  by (simp_all add: upd_agent_def)

lemma set_secret_status_frame [simp]:
  "credentials (set_secret_status i st d) = credentials d" "agents (set_secret_status i st d) = agents d"
  "identities (set_secret_status i st d) = identities d" "packages (set_secret_status i st d) = packages d"
  "emergency_grants (set_secret_status i st d) = emergency_grants d"
  "identity_events (set_secret_status i st d) = identity_events d"
  "tasks (set_secret_status i st d) = tasks d" "approvals (set_secret_status i st d) = approvals d"
  "next_uuid (set_secret_status i st d) = next_uuid d"
  by (simp_all add: set_secret_status_def)

section \<open>One request\<close>

text \<open>
  The requests on agents, credentials and identities. A heartbeat follows the authentication
  of its agent; the two are separate transactions of the code and separate steps here.
\<close>

inductive identity_step :: "(time \<Rightarrow> string) \<Rightarrow> (time \<Rightarrow> string) \<Rightarrow> string \<Rightarrow> db \<Rightarrow> db \<Rightarrow> bool"
  for iso_time dump_time key where
  register: "register_agent now tok p d = Inr (ag, token, d') \<Longrightarrow> identity_step iso_time dump_time key d d'"
| rotate_agent: "rotate_agent_credential now tok i d = Inr (token, d') \<Longrightarrow>
    identity_step iso_time dump_time key d d'"
| revoke_agent: "revoke_agent now i d = Inr (n, d') \<Longrightarrow> identity_step iso_time dump_time key d d'"
| authenticate: "get_current_agent key now header path d = Inr (ag, d') \<Longrightarrow>
    identity_step iso_time dump_time key d d'"
| heartbeat: "receive_heartbeat now ag hb d = Inr d' \<Longrightarrow> identity_step iso_time dump_time key d d'"
| create: "validate_scopes p \<Longrightarrow> create_identity iso_time now p d = Inr (w, d') \<Longrightarrow>
    identity_step iso_time dump_time key d d'"
| bind: "bind_identity now i actor d = Inr (n, d') \<Longrightarrow> identity_step iso_time dump_time key d d'"
| enforce: "activate_enforcement now actor d = Inr (n, d') \<Longrightarrow> identity_step iso_time dump_time key d d'"
| authorize: "authorize now nonce q d = Inr (r, d') \<Longrightarrow> identity_step iso_time dump_time key d d'"
| rotate: "rotate_credential now tok i actor secs d = Inr (c, token, prior, d') \<Longrightarrow>
    identity_step iso_time dump_time key d d'"
| finalize: "finalize now i actor d = Inr d' \<Longrightarrow> identity_step iso_time dump_time key d d'"
| rollback: "rollback now i actor d = Inr d' \<Longrightarrow> identity_step iso_time dump_time key d d'"
| secret: "validate_dates sc \<Longrightarrow> secret_policy dump_time now sc d = Inr (s, d') \<Longrightarrow>
    identity_step iso_time dump_time key d d'"
| rotate_secret: "validate_dates sc \<Longrightarrow> rotate_secret_policy dump_time now i sc d = Inr (s, d') \<Longrightarrow>
    identity_step iso_time dump_time key d d'"
| revoke_secret: "revoke_secret_policy now i actor reason d = Inr d' \<Longrightarrow>
    identity_step iso_time dump_time key d d'"
| emergency: "validate_review ec \<Longrightarrow> emergency_grant iso_time dump_time now ec d = Inr (g, d') \<Longrightarrow>
    identity_step iso_time dump_time key d d'"
| revoke_emergency: "revoke_emergency_grant now i actor reason d = Inr d' \<Longrightarrow>
    identity_step iso_time dump_time key d d'"

section \<open>Rows that only get worse\<close>

text \<open>
  \<open>evolved key bad rs rs'\<close>: the rows were changed in place, keeping their keys and never
  clearing \<open>bad\<close>, and new rows were appended.
\<close>

definition evolved :: "('r \<Rightarrow> 'k) \<Rightarrow> ('r \<Rightarrow> bool) \<Rightarrow> 'r list \<Rightarrow> 'r list \<Rightarrow> bool" where
  "evolved key bad rs rs' =
     (\<exists>f new. rs' = map f rs @ new \<and> (\<forall>r \<in> set rs. key (f r) = key r \<and> (bad r \<longrightarrow> bad (f r))))"

lemma evolved_refl: "evolved key bad rs rs"
  unfolding evolved_def by (intro exI[of _ id] exI[of _ "[]"]) simp

lemma evolved_map:
  "(\<And>r. r \<in> set rs \<Longrightarrow> key (f r) = key r \<and> (bad r \<longrightarrow> bad (f r))) \<Longrightarrow> evolved key bad rs (map f rs)"
  unfolding evolved_def by (intro exI[of _ f] exI[of _ "[]"]) simp

lemma evolved_upd_row:
  "(\<And>r. key (f r) = key r \<and> (bad r \<longrightarrow> bad (f r))) \<Longrightarrow> evolved key bad rs (upd_row k i f rs)"
  unfolding upd_row_def by (rule evolved_map) simp

lemma evolved_append: "evolved key bad rs rs' \<Longrightarrow> evolved key bad rs (rs' @ new)"
  unfolding evolved_def by force

lemma evolved_trans:
  assumes "evolved key bad rs rs'" and "evolved key bad rs' rs''"
  shows "evolved key bad rs rs''"
proof -
  obtain f new where f: "rs' = map f rs @ new" "\<forall>r \<in> set rs. key (f r) = key r \<and> (bad r \<longrightarrow> bad (f r))"
    using assms(1) unfolding evolved_def by blast
  obtain g more where g: "rs'' = map g rs' @ more" "\<forall>r \<in> set rs'. key (g r) = key r \<and> (bad r \<longrightarrow> bad (g r))"
    using assms(2) unfolding evolved_def by blast
  have "rs'' = map (g \<circ> f) rs @ (map g new @ more)" using f(1) g(1) by simp
  moreover have "\<forall>r \<in> set rs. key ((g \<circ> f) r) = key r \<and> (bad r \<longrightarrow> bad ((g \<circ> f) r))"
    using f g(2) by simp
  ultimately show ?thesis unfolding evolved_def by blast
qed

lemma evolved_get_row:
  assumes "evolved key bad rs rs'" and "get_row key rs k = Some r" and "bad r"
  shows "\<exists>r'. get_row key rs' k = Some r' \<and> bad r'"
proof -
  obtain f new where f: "rs' = map f rs @ new" "\<forall>r \<in> set rs. key (f r) = key r \<and> (bad r \<longrightarrow> bad (f r))"
    using assms(1) unfolding evolved_def by blast
  have "get_row key (map f rs) k = map_option f (get_row key rs k)"
    using f(2) by (induction rs) auto
  then have "get_row key rs' k = Some (f r)" using f(1) assms(2) by (simp add: get_row_append)
  moreover have "r \<in> set rs" using assms(2) get_row_Some_in by fastforce
  ultimately show ?thesis using f(2) assms(3) by blast
qed

text \<open>A table whose rows every step lets evolve: a row that is \<open>bad\<close> stays so.\<close>

locale evolving_table =
  fixes step :: "'d \<Rightarrow> 'd \<Rightarrow> bool"
    and rows :: "'d \<Rightarrow> 'r list"
    and key :: "'r \<Rightarrow> 'k"
    and bad :: "'r \<Rightarrow> bool"
  assumes step_evolves: "step d d' \<Longrightarrow> evolved key bad (rows d) (rows d')"
begin

lemma run_evolves: "step\<^sup>*\<^sup>* d d' \<Longrightarrow> evolved key bad (rows d) (rows d')"
  by (induction rule: rtranclp_induct) (auto intro: evolved_refl evolved_trans step_evolves)

lemma bad_stays:
  assumes "step\<^sup>*\<^sup>* d d'" and "get_row key (rows d) k = Some r" and "bad r"
  shows "\<exists>r'. get_row key (rows d') k = Some r' \<and> bad r'"
  using evolved_get_row[OF run_evolves[OF assms(1)] assms(2,3)] .

end

definition revoked :: "agent_credential \<Rightarrow> bool" where
  "revoked c = (cr_revoked_at c \<noteq> None)"

definition disabled :: "agent \<Rightarrow> bool" where
  "disabled a = (\<not> a_is_enabled a)"

lemma add_credential_Inr:
  "add_credential c d = Inr d' \<longleftrightarrow>
     cr_token_prefix c \<notin> cr_token_prefix ` set (credentials d)
     \<and> d' = d\<lparr>credentials := credentials d @ [c], next_uuid := Suc (next_uuid d)\<rparr>"
  by (auto simp: add_credential_def)

lemma issue_agent_credential_Inr:
  assumes "issue_agent_credential now i tok d = Inr (c, token, d')"
  shows "d' = d\<lparr>credentials := credentials d @ [c], next_uuid := Suc (next_uuid d)\<rparr>"
  using assms by (auto simp: issue_agent_credential_def Let_def ebind_Inr_iff add_credential_Inr)

lemma revoke_active_frame [simp]:
  "agents (snd (revoke_active_credentials i now d)) = agents d"
  "identities (snd (revoke_active_credentials i now d)) = identities d"
  "packages (snd (revoke_active_credentials i now d)) = packages d"
  "emergency_grants (snd (revoke_active_credentials i now d)) = emergency_grants d"
  "identity_events (snd (revoke_active_credentials i now d)) = identity_events d"
  "tasks (snd (revoke_active_credentials i now d)) = tasks d"
  "approvals (snd (revoke_active_credentials i now d)) = approvals d"
  "next_uuid (snd (revoke_active_credentials i now d)) = next_uuid d"
  by (simp_all add: revoke_active_credentials_def Let_def)

lemma evolved_revoke_active:
  "evolved cr_token_prefix revoked (credentials d) (credentials (snd (revoke_active_credentials i now d)))"
  by (auto simp: revoke_active_credentials_def Let_def revoked_def intro!: evolved_map)

lemma register_agent_Inr:
  assumes "register_agent now tok p d = Inr (ag, token, d')"
  obtains c where "ag = new_agent now p d"
    and "d' = d\<lparr>agents := agents d @ [ag], credentials := credentials d @ [c],
      next_uuid := Suc (Suc (next_uuid d))\<rparr>"
proof -
  from assms obtain c where "ag = new_agent now p d"
    and "issue_agent_credential now (a_id ag) tok
      (d\<lparr>agents := agents d @ [ag], next_uuid := Suc (next_uuid d)\<rparr>) = Inr (c, token, d')"
    unfolding register_agent_def Let_def by (simp split: if_split_asm sum.splits prod.splits)
  then show ?thesis using issue_agent_credential_Inr that by force
qed

lemma rotate_agent_credential_Inr:
  assumes "rotate_agent_credential now tok i d = Inr (token, d')"
  obtains ag c and d1 :: db where "get_agent i d = Some ag" and "a_is_enabled ag"
    and "d1 = snd (revoke_active_credentials (a_id ag) now (snd (control now d)))"
    and "d' = d1\<lparr>credentials := credentials d1 @ [c], next_uuid := Suc (next_uuid d1)\<rparr>"
  using assms
  by (auto simp: rotate_agent_credential_def Let_def case_prod_unfold ebind_Inr_iff
      dest!: issue_agent_credential_Inr split: if_split_asm option.splits)

lemma revoke_agent_Inr:
  assumes "revoke_agent now i d = Inr (n, d')"
  obtains ag where "get_agent i d = Some ag"
    and "d' = upd_agent (a_id ag) (\<lambda>a. a\<lparr>a_is_enabled := False, a_status := ''revoked''\<rparr>)
      (snd (revoke_active_credentials (a_id ag) now d))"
  using assms by (auto simp: revoke_agent_def Let_def case_prod_unfold split: option.splits)

lemma validate_identity_Inr:
  assumes "validate_identity now ag c path d = Inr (w, d1)"
  shows "d1 = snd (control now d)"
    and "wc_enforcement_active (fst (control now d)) \<Longrightarrow>
      \<exists>x. w = Some x \<and> Option.bind (cr_workload_identity_id c) (\<lambda>i. get_identity i d1) = Some x
        \<and> identity_in_force now x \<and> check_identity now ag x path d1 = Inr ()"
  using assms
  by (cases "Option.bind (cr_workload_identity_id c) (\<lambda>i. get_identity i (snd (control now d)))";
      auto simp: validate_identity_def Let_def case_prod_unfold ebind_Inr_iff split: if_split_asm)+

lemma get_current_agent_Inr:
  assumes "get_current_agent key now header path d = Inr (ag, d')"
  obtains token c w where "header = Some token" and "check_credential key now token d = Inr c"
    and "get_agent (cr_agent_id c) d = Some ag" and "a_is_enabled ag"
    and "validate_identity now ag c path d = Inr (w, snd (control now d))"
    and "d' = upd_credential (cr_id c) (\<lambda>c. c\<lparr>cr_last_used_at := Some now\<rparr>) (snd (control now d))"
proof -
  obtain token c w d1 where t: "header = Some token" "check_credential key now token d = Inr c"
      "get_agent (cr_agent_id c) d = Some ag" "a_is_enabled ag"
    and v: "validate_identity now ag c path d = Inr (w, d1)"
    and d': "d' = upd_credential (cr_id c) (\<lambda>c. c\<lparr>cr_last_used_at := Some now\<rparr>) d1"
    using assms
    by (auto simp: get_current_agent_def ebind_Inr_iff case_prod_unfold split: option.splits if_split_asm)
  then show ?thesis using that[OF t] validate_identity_Inr(1)[OF v] by simp
qed

lemma create_identity_Inr:
  assumes "create_identity iso_time now p d = Inr (w, d')"
  obtains ag ch pk where "identity_subject p d = Some (ag, ch, pk)"
    and "identity_grants now (a_id ag) (ch_id ch) (rp_id pk) d \<noteq> []"
    and "list_all (\<lambda>s. s \<in> set (scopes_for_package (rp_manifest pk))) (ic_scopes p)"
    and "w = new_identity iso_time now (next_uuid d) p ag ch pk"
    and "d' = append_identity_event (now, wk_id w, ''created'', ic_created_by p,
                      [(''manifest_digest'', JStr (wk_manifest_digest w))])
                     (d\<lparr>identities := identities d @ [w], next_uuid := Suc (next_uuid d)\<rparr>)"
  using assms by (auto simp: create_identity_def Let_def split: option.splits if_split_asm prod.splits)

lemma find_identity_Inr: "find_identity i d = Inr w \<longleftrightarrow> get_identity i d = Some w"
  by (auto simp: find_identity_def split: option.splits)

lemma bind_identity_Inr:
  assumes "bind_identity now i actor d = Inr (n, d')"
  obtains w where "get_identity i d = Some w" and "d' = snd (bind_credentials now w actor d)"
  using assms by (auto simp: bind_identity_def ebind_Inr_iff find_identity_Inr)

lemma bind_credentials_rows:
  "agents (snd (bind_credentials now w actor d)) = agents d"
  "identities (snd (bind_credentials now w actor d)) = identities d"
  "packages (snd (bind_credentials now w actor d)) = packages d"
  "emergency_grants (snd (bind_credentials now w actor d)) = emergency_grants d"
  "tasks (snd (bind_credentials now w actor d)) = tasks d"
  "approvals (snd (bind_credentials now w actor d)) = approvals d"
  "next_uuid d \<le> next_uuid (snd (bind_credentials now w actor d))"
  "evolved cr_token_prefix revoked (credentials d) (credentials (snd (bind_credentials now w actor d)))"
  by (auto simp: bind_credentials_def Let_def revoked_def intro!: evolved_map)

lemma activate_enforcement_Inr:
  assumes "activate_enforcement now actor d = Inr (n, d')"
  obtains s where "d' = (snd (control now d))\<lparr>identity_control := Some s\<rparr>"
  using assms by (auto simp: activate_enforcement_def Let_def case_prod_unfold split: if_split_asm)

lemma authorize_Inr:
  assumes "authorize now nonce q d = Inr (r, d')"
  shows "d' = d\<lparr>authorization_receipts := authorization_receipts d @ [r], next_uuid := Suc (next_uuid d)\<rparr>"
  using assms by (auto simp: authorize_def Let_def ebind_Inr_iff split: if_split_asm)

lemma rotate_identity_Inr:
  assumes "rotate_identity now tok w actor secs d = Inr (new, token, prior', d')"
  obtains prior x and d1 :: db where "rotatable w d = Some prior"
    and "d1 = upd_credential (cr_id prior) (\<lambda>c. c\<lparr>cr_rotation_state := RotationOverlap,
           cr_overlap_expires_at := Some (now + seconds secs)\<rparr>) d"
    and "new = new_credential now (wk_agent_id w) (Some (wk_id w)) (Some (cr_id prior)) tok
           (Some (min (wk_expires_at w) (now + seconds (90 * 86400)))) d1"
    and "gt_prefix tok \<notin> cr_token_prefix ` set (credentials d1)" and "token = gt_token tok"
    and "d' = append_identity_event x (d1\<lparr>credentials := credentials d1 @ [new], next_uuid := Suc (next_uuid d1)\<rparr>)"
    and "fst (snd x) = wk_id w"
proof -
  obtain prior where p: "rotatable w d = Some prior"
    using assms by (auto simp: rotate_identity_def split: option.splits)
  define d1 where "d1 = upd_credential (cr_id prior) (\<lambda>c. c\<lparr>cr_rotation_state := RotationOverlap,
           cr_overlap_expires_at := Some (now + seconds secs)\<rparr>) d"
  have "next_uuid d1 = next_uuid d" by (simp add: d1_def)
  then have "new = new_credential now (wk_agent_id w) (Some (wk_id w)) (Some (cr_id prior)) tok
           (Some (min (wk_expires_at w) (now + seconds (90 * 86400)))) d1"
      "gt_prefix tok \<notin> cr_token_prefix ` set (credentials d1)" "token = gt_token tok"
      "d' = append_identity_event
                       (now, wk_id w, ''credential_rotated'', actor,
                        [(''prior_prefix'', JStr (cr_token_prefix prior)),
                         (''new_prefix'', JStr (cr_token_prefix new)),
                         (''overlap_expires_at'', jtime (now + seconds secs))])
         (d1\<lparr>credentials := credentials d1 @ [new], next_uuid := Suc (next_uuid d1)\<rparr>)"
    using assms p
    by (auto simp: rotate_identity_def Let_def ebind_Inr_iff add_credential_Inr new_credential_def
        simp flip: d1_def)
  from that[OF p d1_def this] show ?thesis by simp
qed

lemma finalize_rotation_Inr:
  assumes "finalize_rotation now w actor rb d = Inr d'"
  obtains newest prior x where "pending_rotation w d = Some newest"
    and "Option.bind (cr_rotation_parent_id newest) (\<lambda>i. get_credential i d) = Some prior"
    and "fst (snd x) = wk_id w"
    and "d' = append_identity_event x (if rb
        then upd_credential (cr_id prior)
               (\<lambda>c. c\<lparr>cr_rotation_state := RotationActive, cr_overlap_expires_at := None\<rparr>)
               (upd_credential (cr_id newest)
                 (\<lambda>c. c\<lparr>cr_revoked_at := Some now, cr_rotation_state := RotationRolledBack\<rparr>) d)
        else upd_credential (cr_id prior)
               (\<lambda>c. c\<lparr>cr_revoked_at := Some now, cr_rotation_state := RotationRevoked,
                      cr_overlap_expires_at := None\<rparr>) d)"
    and "rb \<longrightarrow> (\<exists>e. cr_overlap_expires_at prior = Some e \<and> now < e)"
proof -
  obtain newest prior where p: "pending_rotation w d = Some newest"
      "Option.bind (cr_rotation_parent_id newest) (\<lambda>i. get_credential i d) = Some prior"
    using assms by (auto simp: finalize_rotation_def split: option.splits)
  let ?x = "\<lambda>kind. (now, wk_id w, kind, actor,
                       [(''prior_prefix'', JStr (cr_token_prefix prior)),
                        (''new_prefix'', JStr (cr_token_prefix newest))])"
  show ?thesis
    by (rule that[OF p, of "?x (if rb then ''credential_rotation_rolled_back''
            else ''credential_rotation_finalized'')"])
       (use assms p in \<open>auto simp: finalize_rotation_def Let_def split: if_split_asm option.splits\<close>)
qed

lemma secret_rows:
  "secret_policy dump_time now sc d = Inr (s, d') \<Longrightarrow>
     credentials d' = credentials d \<and> agents d' = agents d \<and> identities d' = identities d
     \<and> packages d' = packages d \<and> emergency_grants d' = emergency_grants d \<and> tasks d' = tasks d
     \<and> approvals d' = approvals d \<and> next_uuid d \<le> next_uuid d'"
  by (auto simp: secret_policy_def add_secret_policy_def Let_def ebind_Inr_iff split: option.splits if_split_asm)

lemma rotate_secret_rows:
  "rotate_secret_policy dump_time now i sc d = Inr (s, d') \<Longrightarrow>
     credentials d' = credentials d \<and> agents d' = agents d \<and> identities d' = identities d
     \<and> packages d' = packages d \<and> emergency_grants d' = emergency_grants d \<and> tasks d' = tasks d
     \<and> approvals d' = approvals d \<and> next_uuid d \<le> next_uuid d'"
  by (auto simp: rotate_secret_policy_def add_secret_policy_def Let_def ebind_Inr_iff
      split: option.splits if_split_asm)

lemma revoke_secret_rows:
  "revoke_secret_policy now i actor reason d = Inr d' \<Longrightarrow>
     credentials d' = credentials d \<and> agents d' = agents d \<and> identities d' = identities d
     \<and> packages d' = packages d \<and> emergency_grants d' = emergency_grants d \<and> tasks d' = tasks d
     \<and> approvals d' = approvals d \<and> next_uuid d \<le> next_uuid d'"
  by (auto simp: revoke_secret_policy_def split: option.splits if_split_asm)

lemma emergency_grant_Inr:
  assumes "emergency_grant iso_time dump_time now ec d = Inr (g, d')"
  shows "list_all (\<lambda>s. s \<in> set EMERGENCY_SCOPES) (eg_scopes g)" "eg_scopes g = ec_scopes ec"
    "now < eg_expires_at g" "eg_expires_at g \<le> now + seconds 3600" "eg_starts_at g = now"
    "eg_approved_by g = ec_approved_by ec" "eg_independent_reviewer g = ec_independent_reviewer ec"
    "emergency_grants d' = emergency_grants d @ [g]" "credentials d' = credentials d"
    "agents d' = agents d" "identities d' = identities d" "packages d' = packages d"
    "tasks d' = tasks d" "approvals d' = approvals d" "next_uuid d \<le> next_uuid d'"
  using assms by (auto simp: emergency_grant_def Let_def ebind_Inr_iff split: if_split_asm)

lemma revoke_emergency_Inr:
  assumes "revoke_emergency_grant now i actor reason d = Inr d'"
  shows "emergency_grants d' = upd_row eg_id i
      (\<lambda>g. g\<lparr>eg_status := ''revoked'', eg_revoked_at := Some now\<rparr>) (emergency_grants d)"
    "credentials d' = credentials d" "agents d' = agents d" "identities d' = identities d"
    "packages d' = packages d" "tasks d' = tasks d" "approvals d' = approvals d"
    "next_uuid d \<le> next_uuid d'"
  using assms by (auto simp: revoke_emergency_grant_def split: option.splits if_split_asm)

lemma receive_heartbeat_Inr:
  "receive_heartbeat now ag hb d = Inr d' \<Longrightarrow> d' = upd_agent (a_id ag) (heartbeat_row now hb) d"
  by (auto simp: receive_heartbeat_def ebind_Inr_iff)

lemma heartbeat_row_keeps:
  "a_id (heartbeat_row now hb a) = a_id a" "a_is_enabled (heartbeat_row now hb a) = a_is_enabled a"
  "a_machine (heartbeat_row now hb a) = a_machine a"
  by (simp_all add: heartbeat_row_def Let_def split: option.split)

lemma finalize_evolves:
  assumes "finalize_rotation now w actor rb d = Inr d'"
  shows "evolved cr_token_prefix revoked (credentials d) (credentials d')" "agents d' = agents d"
    "identities d' = identities d" "packages d' = packages d" "emergency_grants d' = emergency_grants d"
    "tasks d' = tasks d" "approvals d' = approvals d" "next_uuid d \<le> next_uuid d'"
  using assms
  by (auto elim!: finalize_rotation_Inr simp: revoked_def
      intro!: evolved_upd_row evolved_trans[OF evolved_upd_row evolved_upd_row])

lemma rotate_evolves:
  assumes "rotate_identity now tok w actor secs d = Inr (new, token, prior, d')"
  shows "evolved cr_token_prefix revoked (credentials d) (credentials d')" "agents d' = agents d"
    "identities d' = identities d" "packages d' = packages d" "emergency_grants d' = emergency_grants d"
    "tasks d' = tasks d" "approvals d' = approvals d" "next_uuid d \<le> next_uuid d'"
  using assms
  by (auto elim!: rotate_identity_Inr simp: revoked_def intro!: evolved_append evolved_upd_row)

lemmas identity_endpoints = rotate_credential_def finalize_def rollback_def ebind_Inr_iff find_identity_Inr

text \<open>What every request does to the tables other theorems rest on.\<close>

definition identity_frame :: "db \<Rightarrow> db \<Rightarrow> bool" where
  "identity_frame d d' =
     (evolved cr_token_prefix revoked (credentials d) (credentials d')
      \<and> evolved a_id disabled (agents d) (agents d')
      \<and> packages d' = packages d \<and> tasks d' = tasks d \<and> approvals d' = approvals d
      \<and> next_uuid d \<le> next_uuid d')"

lemma identity_step_frame:
  assumes "identity_step iso_time dump_time key d d'"
  shows "identity_frame d d'"
  using assms
proof (cases rule: identity_step.cases)
  case (register now tok p ag token)
  then show ?thesis
    by (auto elim!: register_agent_Inr intro!: evolved_append evolved_refl simp: identity_frame_def)
next
  case (rotate_agent now tok i token)
  obtain ag c d1 where "get_agent i d = Some ag" "a_is_enabled ag"
    and d1: "d1 = snd (revoke_active_credentials (a_id ag) now (snd (control now d)))"
    and d': "d' = d1\<lparr>credentials := credentials d1 @ [c], next_uuid := Suc (next_uuid d1)\<rparr>"
    by (rule rotate_agent_credential_Inr[OF rotate_agent])
  have "evolved cr_token_prefix revoked (credentials d) (credentials d1)"
    using evolved_revoke_active[of "snd (control now d)" "a_id ag" now] by (simp add: d1)
  then show ?thesis unfolding identity_frame_def d' by (simp add: d1 evolved_append evolved_refl)
next
  case (revoke_agent now i n)
  then show ?thesis using evolved_revoke_active
    by (auto elim!: revoke_agent_Inr intro!: evolved_upd_row simp: identity_frame_def disabled_def)
next
  case (authenticate now header path ag)
  then show ?thesis
    by (auto elim!: get_current_agent_Inr simp: revoked_def identity_frame_def intro!: evolved_upd_row evolved_refl)
next
  case (heartbeat now ag hb)
  then show ?thesis
    by (auto dest!: receive_heartbeat_Inr intro!: evolved_refl evolved_upd_row
        simp: identity_frame_def disabled_def heartbeat_row_keeps)
next
  case (create p now w)
  then show ?thesis by (auto elim!: create_identity_Inr intro: evolved_refl simp: identity_frame_def)
next
  case (bind now i actor n)
  then show ?thesis using bind_credentials_rows
    by (auto elim!: bind_identity_Inr intro: evolved_refl simp: identity_frame_def)
next
  case (enforce now actor n)
  then show ?thesis by (auto elim!: activate_enforcement_Inr intro: evolved_refl simp: identity_frame_def)
next
  case (authorize now nonce q r)
  then show ?thesis by (auto dest!: authorize_Inr intro: evolved_refl simp: identity_frame_def)
next
  case (rotate now tok i actor secs c token prior)
  then show ?thesis using rotate_evolves
    by (auto simp: identity_endpoints identity_frame_def evolved_refl)
next
  case (finalize now i actor)
  then show ?thesis using finalize_evolves by (auto simp: identity_endpoints identity_frame_def evolved_refl)
next
  case (rollback now i actor)
  then show ?thesis using finalize_evolves by (auto simp: identity_endpoints identity_frame_def evolved_refl)
next
  case (secret sc now s)
  then show ?thesis by (auto dest!: secret_rows simp: identity_frame_def evolved_refl)
next
  case (rotate_secret sc now i s)
  then show ?thesis by (auto dest!: rotate_secret_rows simp: identity_frame_def evolved_refl)
next
  case (revoke_secret now i actor reason)
  then show ?thesis by (auto dest!: revoke_secret_rows simp: identity_frame_def evolved_refl)
next
  case (emergency ec now g)
  then show ?thesis using emergency_grant_Inr(9-15)[OF emergency(2)]
    by (simp add: identity_frame_def evolved_refl)
next
  case (revoke_emergency now i actor reason)
  then show ?thesis using revoke_emergency_Inr(2-8)[OF revoke_emergency]
    by (simp add: identity_frame_def evolved_refl)
qed

interpretation credential_table: evolving_table "identity_step iso_time dump_time key" credentials
  cr_token_prefix revoked for iso_time dump_time key
  by unfold_locales (use identity_step_frame in \<open>auto simp: identity_frame_def\<close>)

interpretation agent_table: evolving_table "identity_step iso_time dump_time key" agents a_id disabled
  for iso_time dump_time key
  by unfold_locales (use identity_step_frame in \<open>auto simp: identity_frame_def\<close>)

section \<open>Revocation is final\<close>

lemma revoked_refused:
  assumes "extract_agent_token_prefix token = Some pfx" and "get_row cr_token_prefix (credentials d) pfx = Some c"
    and "revoked c"
  shows "get_current_agent key now (Some token) path d = http 401 ''Agent credential has been revoked.''"
  using assms by (simp add: get_current_agent_def check_credential_def revoked_def ebind_def)

text \<open>
  (C37) Revocation is final: whatever identity requests follow, the token of a revoked credential is
  refused as revoked at every endpoint and time, and once an agent is revoked no token ever
  authenticates as that agent again, not even one issued later.
\<close>

theorem revocation_is_final:
  assumes "(identity_step iso_time dump_time key)\<^sup>*\<^sup>* d d'"
  shows "(\<forall>token pfx c. extract_agent_token_prefix token = Some pfx
        \<and> get_row cr_token_prefix (credentials d) pfx = Some c \<and> cr_revoked_at c \<noteq> None \<longrightarrow>
        get_current_agent key now (Some token) path d' = http 401 ''Agent credential has been revoked.'')
    \<and> (\<forall>e at i n ag d''. revoke_agent at i e = Inr (n, d)
        \<and> get_current_agent key now header path d' = Inr (ag, d'') \<longrightarrow> a_id ag \<noteq> i)"
proof (intro conjI allI impI)
  fix token pfx c
  assume c: "extract_agent_token_prefix token = Some pfx
        \<and> get_row cr_token_prefix (credentials d) pfx = Some c \<and> cr_revoked_at c \<noteq> None"
  then have "revoked c" by (simp add: revoked_def)
  then obtain c' where "get_row cr_token_prefix (credentials d') pfx = Some c'" "revoked c'"
    using credential_table.bad_stays[OF assms] c by blast
  then show "get_current_agent key now (Some token) path d' = http 401 ''Agent credential has been revoked.''"
    using c revoked_refused by blast
next
  fix e at i n ag d''
  assume h: "revoke_agent at i e = Inr (n, d) \<and> get_current_agent key now header path d' = Inr (ag, d'')"
  obtain a where a: "get_agent i e = Some a"
    and d: "d = upd_agent (a_id a) (\<lambda>a. a\<lparr>a_is_enabled := False, a_status := ''revoked''\<rparr>)
      (snd (revoke_active_credentials (a_id a) at e))"
    using h by (auto elim: revoke_agent_Inr)
  have i: "a_id a = i" using a get_row_Some_in by (fastforce simp: get_agent_def)
  then have "\<exists>r. get_row a_id (agents d) i = Some r \<and> disabled r"
    using a d by (simp add: get_agent_def get_row_upd_row disabled_def)
  then obtain r where "get_row a_id (agents d') i = Some r" "\<not> a_is_enabled r"
    using agent_table.bad_stays[OF assms] by (auto simp: disabled_def)
  moreover obtain c :: agent_credential where "get_agent (cr_agent_id c) d' = Some ag" "a_is_enabled ag"
    by (rule get_current_agent_Inr[OF conjunct2[OF h]]) (rule that)
  moreover have "a_id ag = cr_agent_id c" using calculation(3) get_row_Some_in by (fastforce simp: get_agent_def)
  ultimately show "a_id ag \<noteq> i" by (auto simp: get_agent_def)
qed

section \<open>What authentication rests on\<close>

lemma check_credential_Inr:
  assumes "check_credential key now token d = Inr c"
  shows "c \<in> set (credentials d)" "extract_agent_token_prefix token = Some (cr_token_prefix c)"
    "cr_token_digest c = digest_agent_token key token" "cr_revoked_at c = None"
    "\<forall>e. cr_expires_at c = Some e \<longrightarrow> now < e"
    "\<forall>e. cr_rotation_state c = RotationOverlap \<and> cr_overlap_expires_at c = Some e \<longrightarrow> now < e"
proof -
  obtain pfx where p: "extract_agent_token_prefix token = Some pfx"
      "get_row cr_token_prefix (credentials d) pfx = Some c"
    using assms by (auto simp: check_credential_def bind_eq_Some_conv split: option.splits if_split_asm)
  then show "c \<in> set (credentials d)" "extract_agent_token_prefix token = Some (cr_token_prefix c)"
    using get_row_Some_in[OF p(2)] by auto
  show "cr_token_digest c = digest_agent_token key token" "cr_revoked_at c = None"
    "\<forall>e. cr_expires_at c = Some e \<longrightarrow> now < e"
    "\<forall>e. cr_rotation_state c = RotationOverlap \<and> cr_overlap_expires_at c = Some e \<longrightarrow> now < e"
    using assms p by (auto simp: check_credential_def split: if_split_asm option.splits)
qed

text \<open>The authority an identity carries at an instant: its subject, charter, package and grants.\<close>

definition identity_backed ::
  "time \<Rightarrow> agent \<Rightarrow> workload_identity \<Rightarrow> role_package \<Rightarrow> db \<Rightarrow> bool" where
  "identity_backed now ag w pk d =
     (identity_in_force now w \<and> wk_agent_id w = a_id ag \<and> wk_machine w = a_machine ag
      \<and> get_package (wk_package_id w) d = Some pk \<and> deployed (a_id ag) (wk_package_id w) d
      \<and> (\<exists>ch. get_charter (wk_charter_id w) d = Some ch \<and> ch_status ch = CharterActive
          \<and> ch_agent_id ch = a_id ag
          \<and> (\<forall>cap \<in> set (pm_required_capabilities (rp_manifest pk)).
               \<exists>g \<in> set (grants d). gr_capability g = cap \<and> gr_agent_id g = a_id ag
                 \<and> gr_charter_id g = ch_id ch \<and> gr_package_id g = rp_id pk
                 \<and> gr_machine g = a_machine ag \<and> gr_status g = GrantActive \<and> now < gr_expires_at g)))"

lemma check_identity_Inr:
  assumes "check_identity now ag w path d = Inr ()" and "identity_in_force now w"
  obtains pk where "identity_backed now ag w pk d"
    and "required_scope path \<in> set (wk_scopes w)
      \<or> (\<exists>g \<in> set (active_emergency_grants now (wk_id w) d). required_scope path \<in> set (eg_scopes g))"
proof -
  obtain ch pk where s: "authority_snapshot_active ag w d = Some (ch, pk)"
    and w: "wk_agent_id w = a_id ag" "wk_machine w = a_machine ag"
    and caps: "list_all (\<lambda>c. c \<in> set (granted_capabilities now ag ch pk d))
      (pm_required_capabilities (rp_manifest pk))"
    and scope: "required_scope path
      \<in> set (wk_scopes w @ concat (map eg_scopes (active_emergency_grants now (wk_id w) d)))"
    using assms(1) by (auto simp: check_identity_def split: option.splits if_split_asm)
  have "get_charter (wk_charter_id w) d = Some ch" "get_package (wk_package_id w) d = Some pk"
      "ch_status ch = CharterActive" "ch_agent_id ch = a_id ag" "deployed (a_id ag) (wk_package_id w) d"
    using s by (auto simp: authority_snapshot_active_def split: option.splits if_split_asm)
  then have "identity_backed now ag w pk d"
    using w assms(2) caps
    by (auto simp: identity_backed_def list_all_iff granted_capabilities_def identity_grants_def)
  then show ?thesis using that scope by auto
qed

lemma control_Some: "identity_control d = Some s \<Longrightarrow> control now d = (s, d)"
  by (simp add: control_def)

lemma authenticated_identity:
  assumes "get_current_agent key now header path d = Inr (ag, d')"
    and "identity_control d = Some s" and "wc_enforcement_active s"
  obtains token c w pk where "header = Some token" and "check_credential key now token d = Inr c"
    and "cr_workload_identity_id c = Some (wk_id w)" and "w \<in> set (identities d)"
    and "identity_backed now ag w pk d"
    and "required_scope path \<in> set (wk_scopes w)
      \<or> (\<exists>g \<in> set (active_emergency_grants now (wk_id w) d). required_scope path \<in> set (eg_scopes g))"
proof -
  obtain token c v where t: "header = Some token" "check_credential key now token d = Inr c"
    and v: "validate_identity now ag c path d = Inr (v, snd (control now d))"
    by (rule get_current_agent_Inr[OF assms(1)]) (rule that)
  obtain w where w: "Option.bind (cr_workload_identity_id c) (\<lambda>i. get_identity i d) = Some w"
      "identity_in_force now w" "check_identity now ag w path d = Inr ()"
    using validate_identity_Inr(2)[OF v] assms(2,3) by (auto simp: control_Some)
  have "w \<in> set (identities d)" "cr_workload_identity_id c = Some (wk_id w)"
    using w(1) get_row_Some_in by (fastforce simp: get_identity_def bind_eq_Some_conv)+
  then show ?thesis using check_identity_Inr[OF w(3,2)] that[OF t] by blast
qed

text \<open>
  (C38) A request is attributed to an agent only if its token carries the prefix of a credential
  row and its keyed digest, that credential is neither revoked nor expired nor past its rotation
  overlap, and the agent is enabled. With enforcement on, the credential is moreover bound to
  an identity in force for that agent on its machine, whose charter is active, whose package is
  deployed with a live grant for every capability the package requires, and the scope of the
  called path is one of the identity or of an emergency grant in force. Nothing but the time
  of last use changes.
\<close>

theorem get_current_agent_sound:
  assumes "get_current_agent key now header path d = Inr (ag, d')"
  shows "\<exists>token c. header = Some token \<and> c \<in> set (credentials d)
    \<and> extract_agent_token_prefix token = Some (cr_token_prefix c)
    \<and> cr_token_digest c = hmac_sha256_hex key token \<and> cr_revoked_at c = None
    \<and> (\<forall>e. cr_expires_at c = Some e \<longrightarrow> now < e)
    \<and> (\<forall>e. cr_rotation_state c = RotationOverlap \<and> cr_overlap_expires_at c = Some e \<longrightarrow> now < e)
    \<and> get_agent (cr_agent_id c) d = Some ag \<and> a_is_enabled ag
    \<and> credentials d' = upd_row cr_id (cr_id c) (\<lambda>c. c\<lparr>cr_last_used_at := Some now\<rparr>) (credentials d)
    \<and> agents d' = agents d
    \<and> (\<forall>s. identity_control d = Some s \<and> wc_enforcement_active s \<longrightarrow>
        (\<exists>w pk. w \<in> set (identities d) \<and> cr_workload_identity_id c = Some (wk_id w)
           \<and> identity_backed now ag w pk d
           \<and> (required_scope path \<in> set (wk_scopes w)
              \<or> (\<exists>g \<in> set (active_emergency_grants now (wk_id w) d).
                   required_scope path \<in> set (eg_scopes g)))))"
proof -
  obtain token c v where t: "header = Some token" "check_credential key now token d = Inr c"
    and a: "get_agent (cr_agent_id c) d = Some ag" "a_is_enabled ag"
    and d': "d' = upd_credential (cr_id c) (\<lambda>c. c\<lparr>cr_last_used_at := Some now\<rparr>) (snd (control now d))"
    by (rule get_current_agent_Inr[OF assms]) (rule that)
  have enf: "\<exists>w pk. w \<in> set (identities d) \<and> cr_workload_identity_id c = Some (wk_id w)
           \<and> identity_backed now ag w pk d
           \<and> (required_scope path \<in> set (wk_scopes w)
              \<or> (\<exists>g \<in> set (active_emergency_grants now (wk_id w) d).
                   required_scope path \<in> set (eg_scopes g)))"
    if s: "identity_control d = Some s" "wc_enforcement_active s" for s
  proof -
    obtain token' c' w pk where "header = Some token'" "check_credential key now token' d = Inr c'"
        "cr_workload_identity_id c' = Some (wk_id w)" "w \<in> set (identities d)"
        "identity_backed now ag w pk d"
        "required_scope path \<in> set (wk_scopes w)
          \<or> (\<exists>g \<in> set (active_emergency_grants now (wk_id w) d). required_scope path \<in> set (eg_scopes g))"
      by (rule authenticated_identity[OF assms s])
    then show ?thesis using t by auto
  qed
  show ?thesis
    using check_credential_Inr[OF t(2)] t(1) a d' enf
    by (intro exI[of _ token] exI[of _ c]) (simp add: digest_agent_token_def)
qed

section \<open>Least privilege\<close>

definition identity_bounded :: "db \<Rightarrow> workload_identity \<Rightarrow> bool" where
  "identity_bounded d w =
     (case get_package (wk_package_id w) d of
        None \<Rightarrow> False
      | Some pk \<Rightarrow> list_all (\<lambda>s. s \<in> set (scopes_for_package (rp_manifest pk))) (wk_scopes w))"

definition emergency_bounded :: "workload_emergency_grant \<Rightarrow> bool" where
  "emergency_bounded g =
     (list_all (\<lambda>s. s \<in> set EMERGENCY_SCOPES) (eg_scopes g) \<and> eg_approved_by g \<noteq> eg_independent_reviewer g
      \<and> eg_starts_at g < eg_expires_at g \<and> eg_expires_at g \<le> eg_starts_at g + seconds 3600)"

definition privileges_ok :: "db \<Rightarrow> bool" where
  "privileges_ok d =
     (list_all (identity_bounded d) (identities d) \<and> list_all emergency_bounded (emergency_grants d))"

lemma identity_bounded_cong: "packages d' = packages d \<Longrightarrow> identity_bounded d' w = identity_bounded d w"
  by (simp add: identity_bounded_def get_package_def)

lemma privileges_ok_cong:
  assumes "packages d' = packages d" and "identities d' = identities d"
    and "emergency_grants d' = emergency_grants d"
  shows "privileges_ok d' = privileges_ok d"
  using assms identity_bounded_cong[OF assms(1)] by (simp add: privileges_ok_def list_all_iff)

lemma new_identity_bounded:
  assumes "create_identity iso_time now p d = Inr (w, d')"
  shows "identity_bounded d w" "identities d' = identities d @ [w]"
    "emergency_grants d' = emergency_grants d" "packages d' = packages d"
proof -
  obtain ag ch pk where s: "identity_subject p d = Some (ag, ch, pk)"
    and g: "identity_grants now (a_id ag) (ch_id ch) (rp_id pk) d \<noteq> []"
    and scopes: "list_all (\<lambda>s. s \<in> set (scopes_for_package (rp_manifest pk))) (ic_scopes p)"
    and w: "w = new_identity iso_time now (next_uuid d) p ag ch pk"
    and d': "d' = append_identity_event (now, wk_id w, ''created'', ic_created_by p,
                      [(''manifest_digest'', JStr (wk_manifest_digest w))])
                     (d\<lparr>identities := identities d @ [w], next_uuid := Suc (next_uuid d)\<rparr>)"
    by (rule create_identity_Inr[OF assms])
  have "get_package (ic_package_id p) d = Some pk"
    using s by (auto simp: identity_subject_def split: option.splits if_split_asm)
  moreover from this have "rp_id pk = ic_package_id p" using get_row_Some_in by (fastforce simp: get_package_def)
  ultimately show "identity_bounded d w" using scopes by (simp add: identity_bounded_def w new_identity_def list_all_iff)
  show "identities d' = identities d @ [w]" "emergency_grants d' = emergency_grants d" "packages d' = packages d"
    by (simp_all add: d')
qed

lemma emergency_revoke_bounded:
  "list_all emergency_bounded gs \<Longrightarrow>
     list_all emergency_bounded (upd_row eg_id i (\<lambda>g. g\<lparr>eg_status := st, eg_revoked_at := t\<rparr>) gs)"
  by (auto simp: list_all_iff upd_row_def emergency_bounded_def)

lemma privileges_ok_step:
  assumes "identity_step iso_time dump_time key d d'" and "privileges_ok d"
  shows "privileges_ok d'"
  using assms
proof (induction rule: identity_step.induct)
  case (create p now d w d')
  note n = new_identity_bounded[OF create(2)]
  show ?case
    using create(3) n by (simp add: privileges_ok_def list_all_iff identity_bounded_cong[OF n(4)])
next
  case (emergency ec now d g d')
  note e = emergency_grant_Inr[OF emergency(2)]
  have "emergency_bounded g" using e(1-7) emergency(1) by (simp add: emergency_bounded_def validate_review_def)
  then show ?case
    using emergency(3) e(8,11) identity_bounded_cong[OF e(12)] by (simp add: privileges_ok_def list_all_iff)
next
  case (revoke_emergency now i actor reason d d')
  note e = revoke_emergency_Inr[OF revoke_emergency(1)]
  have "list_all emergency_bounded (emergency_grants d')"
    using revoke_emergency(2) emergency_revoke_bounded by (simp add: e(1) privileges_ok_def)
  then show ?case
    using revoke_emergency(2) e(4) identity_bounded_cong[OF e(5)] by (simp add: privileges_ok_def list_all_iff)
next
  case (register now tok p d ag token d')
  then show ?case by (auto elim!: register_agent_Inr iffD2[OF privileges_ok_cong, rotated -1])
next
  case (rotate_agent now tok i d token d')
  obtain ag c d1 where "get_agent i d = Some ag" "a_is_enabled ag"
    and d1: "d1 = snd (revoke_active_credentials (a_id ag) now (snd (control now d)))"
    and d': "d' = d1\<lparr>credentials := credentials d1 @ [c], next_uuid := Suc (next_uuid d1)\<rparr>"
    by (rule rotate_agent_credential_Inr[OF rotate_agent(1)])
  have "privileges_ok d' = privileges_ok d" by (rule privileges_ok_cong) (simp_all add: d' d1)
  then show ?case using rotate_agent(2) by simp
next
  case (revoke_agent now i d n d')
  then show ?case by (auto elim!: revoke_agent_Inr iffD2[OF privileges_ok_cong, rotated -1])
next
  case (authenticate now header path d ag d')
  then show ?case by (auto elim!: get_current_agent_Inr iffD2[OF privileges_ok_cong, rotated -1])
next
  case (heartbeat now ag hb d d')
  then show ?case by (auto dest!: receive_heartbeat_Inr elim!: iffD2[OF privileges_ok_cong, rotated -1])
next
  case (bind now i actor d n d')
  obtain w where "d' = snd (bind_credentials now w actor d)" by (rule bind_identity_Inr[OF bind(1)])
  then show ?case using bind(2) privileges_ok_cong[of d' d] by (simp add: bind_credentials_rows)
next
  case (enforce now actor d n d')
  then show ?case by (auto elim!: activate_enforcement_Inr iffD2[OF privileges_ok_cong, rotated -1])
next
  case (authorize now nonce q d r d')
  then show ?case by (auto dest!: authorize_Inr elim!: iffD2[OF privileges_ok_cong, rotated -1])
next
  case (rotate now tok i actor secs d c token prior d')
  then obtain w where "rotate_identity now tok w actor secs d = Inr (c, token, prior, d')"
    by (auto simp: identity_endpoints)
  from rotate_evolves(3-5)[OF this] show ?case using rotate(2) privileges_ok_cong[of d' d] by simp
next
  case (finalize now i actor d d')
  then obtain w where "finalize_rotation now w actor False d = Inr d'" by (auto simp: identity_endpoints)
  from finalize_evolves(3-5)[OF this] show ?case using finalize(2) privileges_ok_cong[of d' d] by simp
next
  case (rollback now i actor d d')
  then obtain w where "finalize_rotation now w actor True d = Inr d'" by (auto simp: identity_endpoints)
  from finalize_evolves(3-5)[OF this] show ?case using rollback(2) privileges_ok_cong[of d' d] by simp
next
  case (secret sc now d s d')
  then show ?case using secret_rows[OF secret(2)] privileges_ok_cong[of d' d] by simp
next
  case (rotate_secret sc now i d s d')
  then show ?case using rotate_secret_rows[OF rotate_secret(2)] privileges_ok_cong[of d' d] by simp
next
  case (revoke_secret now i actor reason d d')
  then show ?case using revoke_secret_rows[OF revoke_secret(1)] privileges_ok_cong[of d' d] by simp
qed

text \<open>No path asks for a scope that an emergency grant may carry.\<close>

lemma required_scope_no_emergency: "required_scope path \<notin> set EMERGENCY_SCOPES"
  by (simp add: required_scope_def EMERGENCY_SCOPES_def)

text \<open>
  (C39) Least privilege: in every state reached by identity requests (packages, charters, grants
  and deployments stay as they are) from a system without identities, once enforcement is on a request is served only if the scope of its path is one that a package deployed to the
  agent gives, so emergency grants never open an endpoint; in particular paths under
  \<open>/v1/agent/governance\<close> are served to no agent. Emergency grants carry reduction scopes only,
  last at most an hour and name two different people.
\<close>

theorem workload_least_privilege:
  assumes "(identity_step iso_time dump_time key)\<^sup>*\<^sup>* e d" and "identities e = []"
    and "emergency_grants e = []" and "identity_control d = Some s" and "wc_enforcement_active s"
    and "get_current_agent key now header path d = Inr (ag, d')"
  shows "(\<exists>pk \<in> set (packages d). deployed (a_id ag) (rp_id pk) d
        \<and> required_scope path \<in> set (scopes_for_package (rp_manifest pk)))
    \<and> \<not> prefix ''/v1/agent/governance'' path
    \<and> list_all (\<lambda>g. set (eg_scopes g) \<subseteq> set EMERGENCY_SCOPES \<and> eg_approved_by g \<noteq> eg_independent_reviewer g
         \<and> eg_expires_at g \<le> eg_starts_at g + seconds 3600) (emergency_grants d)"
proof -
  have "privileges_ok e" using assms(2,3) by (simp add: privileges_ok_def)
  with assms(1) have ok: "privileges_ok d"
    by (induction rule: rtranclp_induct) (auto intro: privileges_ok_step)
  obtain token c w pk where w: "w \<in> set (identities d)" "identity_backed now ag w pk d"
    and scope: "required_scope path \<in> set (wk_scopes w)
      \<or> (\<exists>g \<in> set (active_emergency_grants now (wk_id w) d). required_scope path \<in> set (eg_scopes g))"
    by (rule authenticated_identity[OF assms(6,4,5)]) (rule that)
  have "required_scope path \<notin> set (eg_scopes g)" if "g \<in> set (active_emergency_grants now (wk_id w) d)" for g
    using that ok required_scope_no_emergency
    by (auto simp: active_emergency_grants_def privileges_ok_def list_all_iff emergency_bounded_def)
  then have own: "required_scope path \<in> set (wk_scopes w)" using scope by blast
  have pk: "get_package (wk_package_id w) d = Some pk" "deployed (a_id ag) (wk_package_id w) d"
    using w(2) by (auto simp: identity_backed_def)
  then have "pk \<in> set (packages d)" "rp_id pk = wk_package_id w"
    using get_row_Some_in by (fastforce simp: get_package_def)+
  moreover have in_pk: "required_scope path \<in> set (scopes_for_package (rp_manifest pk))"
    using ok w(1) own pk(1) by (auto simp: privileges_ok_def list_all_iff identity_bounded_def)
  moreover have "\<not> prefix ''/v1/agent/governance'' path"
  proof
    assume g: "prefix ''/v1/agent/governance'' path"
    then have "required_scope path = ''governance:read''"
      by (auto simp: required_scope_def prefix_def)
    then show False using in_pk by (auto simp: scopes_for_package_def Let_def split: if_split_asm)
  qed
  moreover have "list_all (\<lambda>g. set (eg_scopes g) \<subseteq> set EMERGENCY_SCOPES
      \<and> eg_approved_by g \<noteq> eg_independent_reviewer g
      \<and> eg_expires_at g \<le> eg_starts_at g + seconds 3600) (emergency_grants d)"
    using ok by (auto simp: privileges_ok_def list_all_iff emergency_bounded_def)
  ultimately show ?thesis using pk(2) by metis
qed

section \<open>The event log of an identity\<close>

definition identity_chain_ok :: "uuid \<Rightarrow> db \<Rightarrow> bool" where
  "identity_chain_ok i d =
     linked we_prior_event_digest we_sequence we_event_digest identity_event_doc None 1
       (filter (\<lambda>e. we_identity_id e = i) (identity_events d))"

interpretation identity_log: chained_log identity_events we_identity_id we_sequence
  we_prior_event_digest we_event_digest identity_event_doc append_identity_event "\<lambda>x. fst (snd x)"
  by unfold_locales
     (auto simp: append_identity_event_def identity_event_doc_def Let_def split: prod.split)

lemma identity_chain_ok_eq: "identity_chain_ok i d = identity_log.chain_ok i d"
  by (simp add: identity_chain_ok_def identity_log.chain_ok_def identity_log.chain_of_def)

text \<open>A request appends at most one event.\<close>

definition logs_once :: "db \<Rightarrow> db \<Rightarrow> bool" where
  "logs_once d d' =
     (identity_events d' = identity_events d
      \<or> (\<exists>x (e :: db). identity_events e = identity_events d \<and> d' = append_identity_event x e))"

lemma logs_onceI: "identity_events e = identity_events d \<Longrightarrow> logs_once d (append_identity_event x e)"
  unfolding logs_once_def by blast

lemma logs_once_same: "identity_events d' = identity_events d \<Longrightarrow> logs_once d d'"
  by (simp add: logs_once_def)

lemma logs_once_credentials:
  "logs_once d (snd (bind_credentials now w actor d))"
  "rotate_identity now tok w actor secs d = Inr (c, token, prior, d') \<Longrightarrow> logs_once d d'"
  "finalize_rotation now w actor rb d = Inr d' \<Longrightarrow> logs_once d d'"
  by (auto simp: bind_credentials_def Let_def intro: logs_onceI logs_once_same)
     (auto elim!: rotate_identity_Inr finalize_rotation_Inr intro!: logs_onceI)

lemma logs_once_policies:
  "secret_policy dump_time now sc d = Inr (s, d') \<Longrightarrow> logs_once d d'"
  "rotate_secret_policy dump_time now i sc d = Inr (s, d') \<Longrightarrow> logs_once d d'"
  "revoke_secret_policy now i actor reason d = Inr d' \<Longrightarrow> logs_once d d'"
  "emergency_grant iso_time dump_time now ec d = Inr (g, d') \<Longrightarrow> logs_once d d'"
  "revoke_emergency_grant now i actor reason d = Inr d' \<Longrightarrow> logs_once d d'"
  by (auto simp: secret_policy_def rotate_secret_policy_def revoke_secret_policy_def emergency_grant_def
      revoke_emergency_grant_def add_secret_policy_def Let_def ebind_Inr_iff
      intro!: logs_onceI split: option.splits if_split_asm)

lemma logs_once_step:
  assumes "identity_step iso_time dump_time key d d'"
  shows "logs_once d d'"
  using assms
proof (cases rule: identity_step.cases)
  case (register now tok p ag token)
  then show ?thesis by (auto elim!: register_agent_Inr intro!: logs_once_same)
next
  case (rotate_agent now tok i token)
  obtain ag c d1 where "get_agent i d = Some ag" "a_is_enabled ag"
    and d1: "d1 = snd (revoke_active_credentials (a_id ag) now (snd (control now d)))"
    and d': "d' = d1\<lparr>credentials := credentials d1 @ [c], next_uuid := Suc (next_uuid d1)\<rparr>"
    by (rule rotate_agent_credential_Inr[OF rotate_agent])
  show ?thesis by (rule logs_once_same) (simp add: d' d1)
next
  case (revoke_agent now i n)
  then show ?thesis by (auto elim!: revoke_agent_Inr intro!: logs_once_same)
next
  case (authenticate now header path ag)
  then show ?thesis by (auto elim!: get_current_agent_Inr intro!: logs_once_same)
next
  case (heartbeat now ag hb)
  then show ?thesis by (auto dest!: receive_heartbeat_Inr intro!: logs_once_same)
next
  case (create p now w)
  then show ?thesis by (auto elim!: create_identity_Inr intro!: logs_onceI)
next
  case (bind now i actor n)
  then show ?thesis using logs_once_credentials(1) by (auto elim!: bind_identity_Inr)
next
  case (enforce now actor n)
  then show ?thesis by (auto elim!: activate_enforcement_Inr intro!: logs_once_same)
next
  case (authorize now nonce q r)
  then show ?thesis by (auto dest!: authorize_Inr intro!: logs_once_same)
qed (auto simp: identity_endpoints intro: logs_once_credentials logs_once_policies)

text \<open> The event log of every workload identity is a hash chain without gaps after any sequence
  of requests on agents, credentials, secret policies and emergency grants.
\<close>

theorem identity_log_chain:
  assumes "(identity_step iso_time dump_time key)\<^sup>*\<^sup>* d d'" and "identity_events d = []"
  shows "identity_chain_ok i d'"
  using assms
proof (induction rule: rtranclp_induct)
  case base
  then show ?case by (simp add: identity_chain_ok_def)
next
  case (step e e')
  have ok: "identity_log.chain_ok i e" using step by (simp add: identity_chain_ok_eq)
  from logs_once_step[OF step(2)] show ?case
    unfolding logs_once_def
  proof (elim disjE exE conjE)
    assume "identity_events e' = identity_events e"
    then show ?thesis using ok by (simp add: identity_chain_ok_def identity_chain_ok_eq[symmetric])
  next
    fix x and f :: db
    assume f: "identity_events f = identity_events e" and e': "e' = append_identity_event x f"
    have "identity_log.chain_ok i f" using ok f by (simp add: identity_chain_ok_def flip: identity_chain_ok_eq)
    then show ?thesis using identity_log.append_chain_ok by (simp add: e' identity_chain_ok_eq)
  qed
qed

section \<open>Authorization receipts\<close>

text \<open> An authorization is allowed exactly when the identity is active, carries the scope, and
  some credential with the given prefix is bound to it; whether that credential was revoked or
  the identity has expired plays no part. The receipt says so, and no key of the context it
  keeps contains \<open>secret\<close>, \<open>token\<close> or \<open>password\<close> in any case of letters.
\<close>

theorem authorize_receipt:
  assumes "authorize now nonce q d = Inr (r, d')"
  shows "(\<exists>w. get_identity (wq_identity_id q) d = Some w
        \<and> (wr_allowed r \<longleftrightarrow> wk_status w = ''active'' \<and> wq_required_scope q \<in> set (wk_scopes w)
             \<and> (\<exists>c \<in> set (credentials d). cr_token_prefix c = wq_credential_prefix q
                  \<and> cr_workload_identity_id c = Some (wq_identity_id q))))
    \<and> (wr_reason r = ''scope-authorized'' \<longleftrightarrow> wr_allowed r)
    \<and> (\<forall>k v. (k, v) \<in> set (wr_context r) \<longrightarrow> (k, v) \<in> set (wq_context q)
          \<and> \<not> sublist ''secret'' (map lower_char k) \<and> \<not> sublist ''token'' (map lower_char k)
          \<and> \<not> sublist ''password'' (map lower_char k))
    \<and> authorization_receipts d' = authorization_receipts d @ [r]"
proof -
  obtain w where w: "get_identity (wq_identity_id q) d = Some w"
    and r: "wr_allowed r \<longleftrightarrow> list_ex (\<lambda>c. cr_token_prefix c = wq_credential_prefix q
              \<and> cr_workload_identity_id c = Some (wq_identity_id q)) (credentials d)
          \<and> wk_status w = ''active'' \<and> wq_required_scope q \<in> set (wk_scopes w)"
      "wr_reason r = (if wr_allowed r then ''scope-authorized'' else ''subject-scope-or-credential-mismatch'')"
      "wr_context r = safe_context (wq_context q)"
    using assms unfolding authorize_def Let_def ebind_Inr_iff find_identity_Inr
    by (auto split: if_split_asm)
  have "wr_reason r = ''scope-authorized'' \<longleftrightarrow> wr_allowed r" using r(2) by simp
  then show ?thesis
    using w r(1,3) authorize_Inr[OF assms]
    by (auto simp: safe_context_def sensitive_key_def list_ex_iff)
qed

section \<open>Rotation of credentials\<close>

lemma get_row_map:
  assumes "\<And>r. key (f r) = key r"
  shows "get_row key (map f rows) k = map_option f (get_row key rows k)"
  using assms by (induction rows) auto

text \<open>How an update of the credential with one id shows when a token is looked up.\<close>

lemma lookup_upd_credential:
  assumes "\<And>c. cr_token_prefix (f c) = cr_token_prefix c"
    and "get_row cr_token_prefix (credentials d) pfx = Some c"
  shows "get_row cr_token_prefix (upd_row cr_id i f (credentials d)) pfx
    = Some (if cr_id c = i then f c else c)"
  using get_row_map[of cr_token_prefix "\<lambda>r. if cr_id r = i then f r else r" "credentials d" pfx] assms
  by (simp add: upd_row_def)

lemma check_credential_lookup:
  assumes "check_credential key now token d = Inr c"
  obtains pfx where "extract_agent_token_prefix token = Some pfx"
    and "get_row cr_token_prefix (credentials d) pfx = Some c"
  using assms by (auto simp: check_credential_def bind_eq_Some_conv split: option.splits if_split_asm)

text \<open>What \<open>check_credential\<close> answers for a token whose row is known.\<close>

definition credential_verdict :: "string \<Rightarrow> time \<Rightarrow> string \<Rightarrow> agent_credential \<Rightarrow> agent_credential res" where
  "credential_verdict key now token c =
     (if cr_revoked_at c \<noteq> None then http 401 ''Agent credential has been revoked.''
      else if (case cr_expires_at c of None \<Rightarrow> False | Some e \<Rightarrow> e \<le> now)
      then http 401 ''Agent credential has expired.''
      else if cr_rotation_state c = RotationOverlap
              \<and> (case cr_overlap_expires_at c of None \<Rightarrow> False | Some e \<Rightarrow> e \<le> now)
      then http 401 ''Agent credential rotation overlap has expired.''
      else if digest_agent_token key token \<noteq> cr_token_digest c
      then http 401 ''Invalid agent credential.''
      else Inr c)"

lemma check_credential_verdict:
  assumes "extract_agent_token_prefix token = Some pfx"
    and "get_row cr_token_prefix (credentials d) pfx = Some c"
  shows "check_credential key now token d = credential_verdict key now token c"
  using assms by (simp add: check_credential_def credential_verdict_def)

lemma check_credential_upd:
  assumes "check_credential key now token d = Inr c" and "\<And>c. cr_token_prefix (f c) = cr_token_prefix c"
    and "credentials d' = upd_row cr_id i f (credentials d) @ new"
  shows "check_credential key now token d'
    = credential_verdict key now token (if cr_id c = i then f c else c)"
    and "credential_verdict key now token c = Inr c"
proof -
  obtain pfx where p: "extract_agent_token_prefix token = Some pfx"
      "get_row cr_token_prefix (credentials d) pfx = Some c"
    by (rule check_credential_lookup[OF assms(1)])
  have "get_row cr_token_prefix (credentials d') pfx = Some (if cr_id c = i then f c else c)"
    using lookup_upd_credential[OF assms(2) p(2)] by (simp add: assms(3) get_row_append)
  then show "check_credential key now token d'
      = credential_verdict key now token (if cr_id c = i then f c else c)"
    by (rule check_credential_verdict[OF p(1)])
  show "credential_verdict key now token c = Inr c"
    using assms(1) check_credential_verdict[OF p] by simp
qed

lemma credential_verdict_Inr:
  "credential_verdict key now token c = Inr c' \<longleftrightarrow>
     c' = c \<and> cr_revoked_at c = None \<and> (\<forall>e. cr_expires_at c = Some e \<longrightarrow> now < e)
     \<and> (\<forall>e. cr_rotation_state c = RotationOverlap \<and> cr_overlap_expires_at c = Some e \<longrightarrow> now < e)
     \<and> digest_agent_token key token = cr_token_digest c"
  by (auto simp: credential_verdict_def split: option.splits)

lemma credential_verdict_revoked:
  "cr_revoked_at c \<noteq> None \<Longrightarrow>
     credential_verdict key now token c = http 401 ''Agent credential has been revoked.''"
  by (simp add: credential_verdict_def)

text \<open> A rotation hands over without a gap: the new token is accepted at once and until the
  credential expires (with the identity, and after at most 90 days), and a token of the prior
  credential that was accepted stays accepted during the overlap and is refused from its end on.
  All other tokens are as before.
\<close>

theorem rotation_handover:
  assumes "rotate_credential now (create_agent_token key pfx secret) i actor secs d = Inr (new, token, prior, d')"
    and "CHR ''_'' \<notin> set pfx" and "pfx \<noteq> []" and "secret \<noteq> []"
  shows "(\<exists>w. get_identity i d = Some w
        \<and> cr_expires_at new = Some (min (wk_expires_at w) (now + seconds 7776000)))
    \<and> (\<forall>t e. cr_expires_at new = Some e \<longrightarrow>
        (if t < e then check_credential key t token d' = Inr new
         else check_credential key t token d' = http 401 ''Agent credential has expired.''))
    \<and> (\<forall>t p c. check_credential key t p d = Inr c \<longrightarrow>
        (if cr_id c \<noteq> cr_id prior then check_credential key t p d' = Inr c
         else if t < now + seconds secs then (\<exists>c'. check_credential key t p d' = Inr c')
         else check_credential key t p d' = http 401 ''Agent credential rotation overlap has expired.''))"
proof -
  let ?tok = "create_agent_token key pfx secret"
  obtain w where w: "get_identity i d = Some w" and r: "rotate_identity now ?tok w actor secs d = Inr (new, token, prior, d')"
    using assms(1) by (auto simp: identity_endpoints)
  obtain old x d1 where old: "rotatable w d = Some old"
    and d1: "d1 = upd_credential (cr_id old) (\<lambda>c. c\<lparr>cr_rotation_state := RotationOverlap,
           cr_overlap_expires_at := Some (now + seconds secs)\<rparr>) d"
    and new: "new = new_credential now (wk_agent_id w) (Some (wk_id w)) (Some (cr_id old)) ?tok
           (Some (min (wk_expires_at w) (now + seconds (90 * 86400)))) d1"
    and fresh: "gt_prefix ?tok \<notin> cr_token_prefix ` set (credentials d1)" and token: "token = gt_token ?tok"
    and d': "d' = append_identity_event x (d1\<lparr>credentials := credentials d1 @ [new], next_uuid := Suc (next_uuid d1)\<rparr>)"
    by (rule rotate_identity_Inr[OF r])
  have prior: "cr_id prior = cr_id old"
    using r old by (auto simp: rotate_identity_def Let_def ebind_Inr_iff)
  have pfx: "extract_agent_token_prefix token = Some pfx" "gt_prefix ?tok = pfx"
    using extract_prefix_token[of "''ag''"] assms(2-4)
    by (simp_all add: token extract_agent_token_prefix_def create_agent_token_def Let_def)
  have exp: "cr_expires_at new = Some (min (wk_expires_at w) (now + seconds 7776000))"
    by (simp add: new new_credential_def)
  have "get_row cr_token_prefix (credentials d1) pfx = None"
    using fresh pfx(2) get_row_None_iff[of cr_token_prefix "credentials d1" pfx] by simp
  then have "get_row cr_token_prefix (credentials d') pfx = Some new"
    by (simp add: d' get_row_append) (simp add: new new_credential_def pfx(2))
  from check_credential_verdict[OF pfx(1) this]
  have acc: "if t < e then check_credential key t token d' = Inr new
      else check_credential key t token d' = http 401 ''Agent credential has expired.''"
    if "cr_expires_at new = Some e" for t e
    using that by (simp add: credential_verdict_def new new_credential_def token create_agent_token_def Let_def)
  let ?f = "\<lambda>c. c\<lparr>cr_rotation_state := RotationOverlap, cr_overlap_expires_at := Some (now + seconds secs)\<rparr>"
  have rows: "credentials d' = upd_row cr_id (cr_id old) ?f (credentials d) @ [new]" by (simp add: d' d1)
  have others: "if cr_id c \<noteq> cr_id prior then check_credential key t p d' = Inr c
         else if t < now + seconds secs then (\<exists>c'. check_credential key t p d' = Inr c')
         else check_credential key t p d' = http 401 ''Agent credential rotation overlap has expired.''"
    if c: "check_credential key t p d = Inr c" for t p c
    using check_credential_upd[OF c _ rows]
    by (auto simp: prior credential_verdict_Inr) (auto simp: credential_verdict_def split: option.splits)
  show ?thesis using w exp acc others by blast
qed

text \<open> How a rotation ends: finalizing revokes the prior credential, whose tokens are then
  refused, and leaves every other token as it was; rolling back, possible only within the
  overlap, revokes the new credential instead, and tokens of the prior one are accepted beyond
  the overlap.
\<close>

theorem rotation_settled:
  "(finalize now i actor d = Inr d' \<longrightarrow>
     (\<exists>w newest prior. get_identity i d = Some w \<and> pending_rotation w d = Some newest
        \<and> cr_rotation_parent_id newest = Some (cr_id prior) \<and> prior \<in> set (credentials d)
        \<and> (\<forall>t p c. check_credential key t p d = Inr c \<longrightarrow> check_credential key t p d' =
             (if cr_id c = cr_id prior then http 401 ''Agent credential has been revoked.'' else Inr c))))
   \<and> (rollback now i actor d = Inr d' \<longrightarrow>
     (\<exists>w newest prior. get_identity i d = Some w \<and> pending_rotation w d = Some newest
        \<and> cr_rotation_parent_id newest = Some (cr_id prior) \<and> prior \<in> set (credentials d)
        \<and> (\<exists>e. cr_overlap_expires_at prior = Some e \<and> now < e)
        \<and> (\<forall>t p c. check_credential key t p d = Inr c \<longrightarrow>
             (if cr_id c = cr_id newest
              then check_credential key t p d' = http 401 ''Agent credential has been revoked.''
              else if cr_id c = cr_id prior
              then check_credential key t p d'
                = Inr (c\<lparr>cr_rotation_state := RotationActive, cr_overlap_expires_at := None\<rparr>)
              else check_credential key t p d' = Inr c))))"
proof (intro conjI impI)
  assume "finalize now i actor d = Inr d'"
  then obtain w where w: "get_identity i d = Some w" and f: "finalize_rotation now w actor False d = Inr d'"
    by (auto simp: identity_endpoints)
  let ?f = "\<lambda>c. c\<lparr>cr_revoked_at := Some now, cr_rotation_state := RotationRevoked, cr_overlap_expires_at := None\<rparr>"
  obtain newest prior x where p: "pending_rotation w d = Some newest"
      "Option.bind (cr_rotation_parent_id newest) (\<lambda>i. get_credential i d) = Some prior"
    and "fst (snd x) = wk_id w"
    and d': "d' = append_identity_event x (if False
        then upd_credential (cr_id prior)
               (\<lambda>c. c\<lparr>cr_rotation_state := RotationActive, cr_overlap_expires_at := None\<rparr>)
               (upd_credential (cr_id newest)
                 (\<lambda>c. c\<lparr>cr_revoked_at := Some now, cr_rotation_state := RotationRolledBack\<rparr>) d)
        else upd_credential (cr_id prior) ?f d)"
    by (rule finalize_rotation_Inr[OF f])
  have rows: "credentials d' = upd_row cr_id (cr_id prior) ?f (credentials d) @ []" by (simp add: d')
  have tokens: "check_credential key t p d' =
      (if cr_id c = cr_id prior then http 401 ''Agent credential has been revoked.'' else Inr c)"
    if c: "check_credential key t p d = Inr c" for t p c
    using check_credential_upd[OF c _ rows] credential_verdict_revoked[of "?f c"] by simp
  have "cr_rotation_parent_id newest = Some (cr_id prior)" "prior \<in> set (credentials d)"
    using p(2) get_row_Some_in by (fastforce simp: get_credential_def bind_eq_Some_conv)+
  then show "\<exists>w newest prior. get_identity i d = Some w \<and> pending_rotation w d = Some newest
        \<and> cr_rotation_parent_id newest = Some (cr_id prior) \<and> prior \<in> set (credentials d)
        \<and> (\<forall>t p c. check_credential key t p d = Inr c \<longrightarrow> check_credential key t p d' =
             (if cr_id c = cr_id prior then http 401 ''Agent credential has been revoked.'' else Inr c))"
    using w p(1) tokens by blast
next
  assume "rollback now i actor d = Inr d'"
  then obtain w where w: "get_identity i d = Some w" and f: "finalize_rotation now w actor True d = Inr d'"
    by (auto simp: identity_endpoints)
  let ?g = "\<lambda>c. c\<lparr>cr_revoked_at := Some now, cr_rotation_state := RotationRolledBack\<rparr>"
  let ?f = "\<lambda>c. c\<lparr>cr_rotation_state := RotationActive, cr_overlap_expires_at := None\<rparr>"
  obtain newest prior x where p: "pending_rotation w d = Some newest"
      "Option.bind (cr_rotation_parent_id newest) (\<lambda>i. get_credential i d) = Some prior"
    and "fst (snd x) = wk_id w"
    and d': "d' = append_identity_event x (if True
        then upd_credential (cr_id prior) ?f (upd_credential (cr_id newest) ?g d)
        else upd_credential (cr_id prior)
               (\<lambda>c. c\<lparr>cr_revoked_at := Some now, cr_rotation_state := RotationRevoked,
                      cr_overlap_expires_at := None\<rparr>) d)"
    and window: "True \<longrightarrow> (\<exists>e. cr_overlap_expires_at prior = Some e \<and> now < e)"
    by (rule finalize_rotation_Inr[OF f])
  have tokens: "if cr_id c = cr_id newest
              then check_credential key t p d' = http 401 ''Agent credential has been revoked.''
              else if cr_id c = cr_id prior
              then check_credential key t p d'
                = Inr (c\<lparr>cr_rotation_state := RotationActive, cr_overlap_expires_at := None\<rparr>)
              else check_credential key t p d' = Inr c"
    if c: "check_credential key t p d = Inr c" for t p c
  proof -
    let ?d1 = "upd_credential (cr_id newest) ?g d"
    obtain pfx where q: "extract_agent_token_prefix p = Some pfx"
        "get_row cr_token_prefix (credentials d) pfx = Some c"
      by (rule check_credential_lookup[OF c])
    have ok: "credential_verdict key t p c = Inr c" using c check_credential_verdict[OF q] by simp
    let ?c1 = "if cr_id c = cr_id newest then ?g c else c"
    have "get_row cr_token_prefix (credentials ?d1) pfx = Some ?c1"
      using lookup_upd_credential[OF _ q(2), of ?g "cr_id newest"] by simp
    from lookup_upd_credential[OF _ this, of ?f "cr_id prior"]
    have "get_row cr_token_prefix (credentials d') pfx = Some (if cr_id ?c1 = cr_id prior then ?f ?c1 else ?c1)"
      by (simp add: d')
    note verdict = check_credential_verdict[OF q(1) this, of key t]
    show ?thesis
    proof (cases "cr_id c = cr_id newest")
      case True
      then show ?thesis using verdict by (simp add: credential_verdict_revoked)
    next
      case False
      then show ?thesis using verdict ok by (simp add: credential_verdict_Inr)
    qed
  qed
  have "cr_rotation_parent_id newest = Some (cr_id prior)" "prior \<in> set (credentials d)"
    using p(2) get_row_Some_in by (fastforce simp: get_credential_def bind_eq_Some_conv)+
  then show "\<exists>w newest prior. get_identity i d = Some w \<and> pending_rotation w d = Some newest
        \<and> cr_rotation_parent_id newest = Some (cr_id prior) \<and> prior \<in> set (credentials d)
        \<and> (\<exists>e. cr_overlap_expires_at prior = Some e \<and> now < e)
        \<and> (\<forall>t p c. check_credential key t p d = Inr c \<longrightarrow>
             (if cr_id c = cr_id newest
              then check_credential key t p d' = http 401 ''Agent credential has been revoked.''
              else if cr_id c = cr_id prior
              then check_credential key t p d'
                = Inr (c\<lparr>cr_rotation_state := RotationActive, cr_overlap_expires_at := None\<rparr>)
              else check_credential key t p d' = Inr c))"
    using w p(1) tokens window by (intro exI[of _ w] exI[of _ newest] exI[of _ prior]) simp
qed

end
