(* ===== verification/IdentityWitnesses.thy ===== *)
theory IdentityWitnesses
  imports Witnesses WorkloadIdentity
begin

text \<open>
  The sample installation of \<open>Witnesses\<close> with a credential of its agent, and the properties of
  credentials and workload identities applied to it.
\<close>

section \<open>An agent with a credential\<close>

definition w_agent_token :: generated_token where
  "w_agent_token = create_agent_token ''key'' ''abc'' ''secret''"

definition w_credential :: agent_credential where
  "w_credential =
     \<lparr>cr_id = 50, cr_agent_id = 1, cr_workload_identity_id = None, cr_rotation_parent_id = None,
      cr_rotation_state = RotationActive, cr_overlap_expires_at = None, cr_token_prefix = ''abc'',
      cr_token_digest = gt_digest w_agent_token, cr_created_at = 0, cr_last_used_at = None,
      cr_expires_at = None, cr_revoked_at = None\<rparr>"

definition w_enforced :: workload_identity_control where
  "w_enforced = \<lparr>wc_enforcement_active = True, wc_policy_version = ''1'', wc_policy_digest = ''p'',
     wc_activated_by = Some ''founder'', wc_activated_at = Some 0, wc_updated_at = 0\<rparr>"

text \<open>Enforcement is on, and no identity exists yet.\<close>

definition w_bare :: db where
  "w_bare = w_world\<lparr>next_uuid := 60, credentials := [w_credential], identity_control := Some w_enforced\<rparr>"

definition w_identity_request :: workload_identity_create where
  "w_identity_request =
     \<lparr>ic_agent_id = 1, ic_charter_id = 2, ic_package_id = 3, ic_version = ''1'', ic_audience = ''api'',
      ic_scopes = [''identity:read'', ''task:lease''], ic_accountable_owner = ''founder'',
      ic_expires_at = 1000000, ic_created_by = ''founder''\<rparr>"

definition w_identity :: workload_identity where
  "w_identity = new_identity isoformat 0 60 w_identity_request w_agent w_charter w_package"

lemma w_identity_simps [simp]:
  "wk_id w_identity = 60" "wk_agent_id w_identity = 1" "wk_machine w_identity = ''vm1''"
  "wk_charter_id w_identity = 2" "wk_package_id w_identity = 3" "wk_status w_identity = ''active''"
  "wk_valid_from w_identity = 0" "wk_expires_at w_identity = 1000000"
  "set (wk_scopes w_identity) = {''identity:read'', ''task:lease''}"
  by (simp_all add: w_identity_def new_identity_def w_identity_request_def w_agent_def w_charter_def w_package_def)

lemma w_bare_rows [simp]:
  "credentials w_bare = [w_credential]" "identities w_bare = []" "emergency_grants w_bare = []"
  "identity_control w_bare = Some w_enforced" "identity_events w_bare = []" "next_uuid w_bare = 60"
  "agents w_bare = [w_agent]" "charters w_bare = [w_charter]" "packages w_bare = [w_package]"
  "deployments w_bare = [w_deployment]" "grants w_bare = [w_grant]"
  by (simp_all add: w_bare_def w_world_def empty_db_def)

lemma w_creates_identity: "\<exists>d'. create_identity isoformat 0 w_identity_request w_bare = Inr (w_identity, d')
    \<and> identities d' = [w_identity] \<and> credentials d' = [w_credential] \<and> identity_control d' = Some w_enforced
    \<and> emergency_grants d' = [] \<and> agents d' = [w_agent] \<and> charters d' = [w_charter]
    \<and> packages d' = [w_package] \<and> deployments d' = [w_deployment] \<and> grants d' = [w_grant]"
proof -
  have subject: "identity_subject w_identity_request w_bare = Some (w_agent, w_charter, w_package)"
    by (simp add: identity_subject_def get_agent_def get_charter_def get_package_def deployed_def
        w_identity_request_def w_agent_def w_charter_def w_package_def w_deployment_def)
  have granted: "identity_grants 0 (a_id w_agent) (ch_id w_charter) (rp_id w_package) w_bare \<noteq> []"
    by (simp add: identity_grants_def w_agent_def w_charter_def w_package_def w_grant_def)
  have scopes: "list_all (\<lambda>s. s \<in> set (scopes_for_package (rp_manifest w_package))) (ic_scopes w_identity_request)"
    by (simp add: scopes_for_package_def w_package_def w_identity_request_def)
  show ?thesis
    by (simp add: create_identity_def subject granted scopes Let_def append_identity_event_def flip: w_identity_def)
qed

text \<open>The identity created and the credential bound to it.\<close>

definition w_bound_credential :: agent_credential where
  "w_bound_credential = w_credential\<lparr>cr_workload_identity_id := Some 60\<rparr>"

lemma w_binds:
  assumes "identities d = [w_identity]" and "credentials d = [w_credential]"
  shows "\<exists>n d'. bind_identity 1 60 ''founder'' d = Inr (n, d') \<and> credentials d' = [w_bound_credential]
    \<and> identities d' = identities d \<and> identity_control d' = identity_control d
    \<and> emergency_grants d' = emergency_grants d \<and> agents d' = agents d \<and> charters d' = charters d
    \<and> packages d' = packages d \<and> deployments d' = deployments d \<and> grants d' = grants d"
  using assms
  by (simp add: bind_identity_def find_identity_def get_identity_def bind_credentials_def Let_def
      append_identity_event_def w_credential_def w_bound_credential_def ebind_def)

abbreviation w_step :: "db \<Rightarrow> db \<Rightarrow> bool" where
  "w_step \<equiv> identity_step isoformat isoformat ''key''"

lemma w_run:
  "\<exists>d. w_step\<^sup>*\<^sup>* w_bare d \<and> credentials d = [w_bound_credential] \<and> identities d = [w_identity]
    \<and> identity_control d = Some w_enforced \<and> agents d = [w_agent] \<and> charters d = [w_charter]
    \<and> packages d = [w_package] \<and> deployments d = [w_deployment] \<and> grants d = [w_grant]
    \<and> emergency_grants d = []"
proof -
  obtain d1 where d1: "create_identity isoformat 0 w_identity_request w_bare = Inr (w_identity, d1)"
      "identities d1 = [w_identity]" "credentials d1 = [w_credential]" "identity_control d1 = Some w_enforced"
      "emergency_grants d1 = []" "agents d1 = [w_agent]" "charters d1 = [w_charter]"
      "packages d1 = [w_package]" "deployments d1 = [w_deployment]" "grants d1 = [w_grant]"
    using w_creates_identity by blast
  obtain n d2 where d2: "bind_identity 1 60 ''founder'' d1 = Inr (n, d2)" "credentials d2 = [w_bound_credential]"
      "identities d2 = identities d1" "identity_control d2 = identity_control d1"
      "emergency_grants d2 = emergency_grants d1" "agents d2 = agents d1" "charters d2 = charters d1"
      "packages d2 = packages d1" "deployments d2 = deployments d1" "grants d2 = grants d1"
    using w_binds[OF d1(2,3)] by blast
  have "validate_scopes w_identity_request" by (simp add: validate_scopes_def w_identity_request_def)
  then have s1: "w_step w_bare d1" by (rule identity_step.create[OF _ d1(1)])
  have s2: "w_step d1 d2" by (rule identity_step.bind[OF d2(1)])
  have "w_step\<^sup>*\<^sup>* w_bare d2" using s1 s2 by (meson converse_rtranclp_into_rtranclp r_into_rtranclp)
  then show ?thesis using d1 d2 by auto
qed

lemma w_agent_prefix: "extract_agent_token_prefix (gt_token w_agent_token) = Some ''abc''"
  using extract_prefix_token[of "''ag''" "''abc''" "''secret''"]
  by (simp add: extract_agent_token_prefix_def w_agent_token_def create_agent_token_def Let_def)

lemma w_accepted:
  assumes "get_row cr_token_prefix (credentials d) ''abc'' = Some c" and "cr_token_digest c = gt_digest w_agent_token"
    and "cr_revoked_at c = None" and "cr_expires_at c = None" and "cr_rotation_state c = RotationActive"
  shows "check_credential ''key'' t (gt_token w_agent_token) d = Inr c"
  using assms check_credential_verdict[OF w_agent_prefix assms(1)]
  by (simp add: credential_verdict_Inr w_agent_token_def create_agent_token_def Let_def)

lemma w_authenticates:
  assumes "credentials d = [w_bound_credential]" "identities d = [w_identity]"
    "identity_control d = Some w_enforced" "agents d = [w_agent]" "charters d = [w_charter]"
    "packages d = [w_package]" "deployments d = [w_deployment]" "grants d = [w_grant]"
    "emergency_grants d = []"
  shows "\<exists>d'. get_current_agent ''key'' 5 (Some (gt_token w_agent_token)) ''/v1/agent/me'' d = Inr (w_agent, d')"
proof -
  have c: "check_credential ''key'' 5 (gt_token w_agent_token) d = Inr w_bound_credential"
    by (rule w_accepted) (simp_all add: assms w_bound_credential_def w_credential_def)
  have snapshot: "authority_snapshot_active w_agent w_identity d = Some (w_charter, w_package)"
    by (simp add: authority_snapshot_active_def get_charter_def get_package_def deployed_def assms
        w_agent_def w_charter_def w_package_def w_deployment_def)
  have caps: "list_all (\<lambda>c. c \<in> set (granted_capabilities 5 w_agent w_charter w_package d))
      (pm_required_capabilities (rp_manifest w_package))"
    by (simp add: granted_capabilities_def identity_grants_def assms(8) w_agent_def w_charter_def
        w_package_def w_grant_def)
  have scope: "required_scope ''/v1/agent/me'' = ''identity:read''"
    by (simp add: required_scope_def suffix_def)
  have "a_id w_agent = 1" "a_machine w_agent = ''vm1''" by (simp_all add: w_agent_def)
  then have "check_identity 5 w_agent w_identity ''/v1/agent/me'' d = Inr ()"
    by (simp add: check_identity_def snapshot caps scope)
  then have "validate_identity 5 w_agent w_bound_credential ''/v1/agent/me'' d = Inr (Some w_identity, d)"
    using assms(2,3)
    by (simp add: validate_identity_def control_def w_enforced_def w_bound_credential_def get_identity_def
        identity_in_force_def ebind_def)
  moreover have "get_agent (cr_agent_id w_bound_credential) d = Some w_agent" "a_is_enabled w_agent"
    by (simp_all add: get_agent_def assms(4) w_bound_credential_def w_credential_def w_agent_def)
  ultimately show ?thesis using c by (simp add: get_current_agent_def ebind_def)
qed

theorem get_current_agent_sound_witness:
  "\<exists>d d' c. get_current_agent ''key'' 5 (Some (gt_token w_agent_token)) ''/v1/agent/me'' d = Inr (w_agent, d')
    \<and> c \<in> set (credentials d) \<and> cr_revoked_at c = None \<and> get_agent (cr_agent_id c) d = Some w_agent"
proof -
  obtain d :: db where d: "credentials d = [w_bound_credential]" "identities d = [w_identity]"
    "identity_control d = Some w_enforced" "agents d = [w_agent]" "charters d = [w_charter]"
    "packages d = [w_package]" "deployments d = [w_deployment]" "grants d = [w_grant]"
    "emergency_grants d = []" using w_run by blast
  obtain d' where a: "get_current_agent ''key'' 5 (Some (gt_token w_agent_token)) ''/v1/agent/me'' d = Inr (w_agent, d')"
    using w_authenticates[OF d] by blast
  show ?thesis using get_current_agent_sound[OF a] a by blast
qed

theorem workload_least_privilege_witness:
  "\<exists>d d'. w_step\<^sup>*\<^sup>* w_bare d
    \<and> get_current_agent ''key'' 5 (Some (gt_token w_agent_token)) ''/v1/agent/me'' d = Inr (w_agent, d')
    \<and> (\<exists>pk \<in> set (packages d). required_scope ''/v1/agent/me'' \<in> set (scopes_for_package (rp_manifest pk)))"
proof -
  obtain d :: db where run: "w_step\<^sup>*\<^sup>* w_bare d"
    and d: "credentials d = [w_bound_credential]" "identities d = [w_identity]"
    "identity_control d = Some w_enforced" "agents d = [w_agent]" "charters d = [w_charter]"
    "packages d = [w_package]" "deployments d = [w_deployment]" "grants d = [w_grant]"
    "emergency_grants d = []" using w_run by blast
  obtain d' where a: "get_current_agent ''key'' 5 (Some (gt_token w_agent_token)) ''/v1/agent/me'' d = Inr (w_agent, d')"
    using w_authenticates[OF d] by blast
  have "wc_enforcement_active w_enforced" by (simp add: w_enforced_def)
  from workload_least_privilege[OF run _ _ d(3) this a] show ?thesis using run a by auto
qed

section \<open>Revocation\<close>

theorem revocation_is_final_witness:
  "\<exists>n d. revoke_agent 3 1 w_bare = Inr (n, d)
    \<and> get_current_agent ''key'' 5 (Some (gt_token w_agent_token)) ''/v1/agent/me'' d
        = http 401 ''Agent credential has been revoked.''"
proof -
  obtain n d where d: "revoke_agent 3 1 w_bare = Inr (n, d)"
      "credentials d = [w_credential\<lparr>cr_revoked_at := Some 3\<rparr>]"
    by (simp add: revoke_agent_def get_agent_def revoke_active_credentials_def w_agent_def w_credential_def Let_def)
  have row: "get_row cr_token_prefix (credentials d) ''abc'' = Some (w_credential\<lparr>cr_revoked_at := Some 3\<rparr>)"
    by (simp add: d(2) w_credential_def)
  have "get_current_agent ''key'' 5 (Some (gt_token w_agent_token)) ''/v1/agent/me'' d
        = http 401 ''Agent credential has been revoked.''"
    using revocation_is_final[of isoformat isoformat "''key''" d d 5 "''/v1/agent/me''" None] w_agent_prefix row
    by fastforce
  then show ?thesis using d(1) by blast
qed

theorem identity_log_chain_witness:
  "\<exists>d. w_step\<^sup>*\<^sup>* w_bare d \<and> identities d = [w_identity] \<and> identity_chain_ok 60 d"
proof -
  obtain d :: db where run: "w_step\<^sup>*\<^sup>* w_bare d" "identities d = [w_identity]" using w_run by blast
  show ?thesis using identity_log_chain[OF run(1), of 60] run by auto
qed

section \<open>Authorization and rotation\<close>

definition w_authorization :: workload_authorization_request where
  "w_authorization =
     \<lparr>wq_identity_id = 60, wq_credential_prefix = ''abc'', wq_action = ''lease'',
      wq_required_scope = ''task:lease'', wq_context = [(''lease_Token'', JStr ''x''), (''task'', JStr ''T1'')]\<rparr>"

text \<open>The installation with the identity bound.\<close>

definition w_scoped :: db where
  "w_scoped = w_bare\<lparr>identities := [w_identity], credentials := [w_bound_credential], next_uuid := 70\<rparr>"

lemma w_scoped_rows [simp]:
  "identities w_scoped = [w_identity]" "credentials w_scoped = [w_bound_credential]"
  "authorization_receipts w_scoped = []"
  by (simp_all add: w_scoped_def w_bare_def w_world_def empty_db_def)

theorem authorize_receipt_witness:
  "\<exists>r d'. authorize 5 ''0.5'' w_authorization w_scoped = Inr (r, d') \<and> wr_allowed r
    \<and> authorization_receipts d' = [r]"
proof -
  obtain r d' where a: "authorize 5 ''0.5'' w_authorization w_scoped = Inr (r, d')"
    by (simp add: authorize_def find_identity_def get_identity_def w_authorization_def Let_def ebind_def)
  have "get_identity 60 w_scoped = Some w_identity" by (simp add: get_identity_def)
  then show ?thesis
    using authorize_receipt[OF a] a
    by (auto simp: w_authorization_def w_bound_credential_def w_credential_def)
qed

lemma w_scoped_identity: "get_identity 60 w_scoped = Some w_identity"
  by (simp add: get_identity_def)

lemma w_rotates:
  "\<exists>new token prior d'. rotate_credential 5 (create_agent_token ''key'' ''def'' ''fresh'') 60 ''founder'' 300 w_scoped
      = Inr (new, token, prior, d')
    \<and> cr_id prior = 50 \<and> credentials d' = [w_bound_credential\<lparr>cr_rotation_state := RotationOverlap,
        cr_overlap_expires_at := Some (5 + seconds 300)\<rparr>, new]
    \<and> identities d' = [w_identity] \<and> cr_rotation_parent_id new = Some 50
    \<and> cr_workload_identity_id new = Some 60 \<and> cr_revoked_at new = None \<and> cr_created_at new = 5
    \<and> cr_token_prefix new = ''def'' \<and> cr_id new = 70 \<and> cr_expires_at new = Some (min 1000000 (5 + seconds 7776000))"
proof -
  have "rotatable w_identity w_scoped = Some w_bound_credential"
    by (simp add: rotatable_def w_bound_credential_def w_credential_def)
  then show ?thesis
    by (simp add: rotate_credential_def find_identity_def w_scoped_identity rotate_identity_def Let_def
        add_credential_def new_credential_def create_agent_token_def upd_row_def ebind_def)
       (simp add: w_bound_credential_def w_credential_def w_scoped_def)
qed

theorem rotation_handover_witness:
  "\<exists>new token prior d'. rotate_credential 5 (create_agent_token ''key'' ''def'' ''fresh'') 60 ''founder'' 300 w_scoped
      = Inr (new, token, prior, d')
    \<and> check_credential ''key'' 6 token d' = Inr new
    \<and> (\<exists>c. check_credential ''key'' 6 (gt_token w_agent_token) d' = Inr c)"
proof -
  obtain new token prior d' where r: "rotate_credential 5 (create_agent_token ''key'' ''def'' ''fresh'') 60 ''founder'' 300 w_scoped
      = Inr (new, token, prior, d')" "cr_id prior = 50" "cr_expires_at new = Some (min 1000000 (5 + seconds 7776000))"
    using w_rotates by blast
  have old: "check_credential ''key'' 6 (gt_token w_agent_token) w_scoped = Inr w_bound_credential"
    by (rule w_accepted) (simp_all add: w_bound_credential_def w_credential_def)
  have i: "cr_id w_bound_credential = 50" by (simp add: w_bound_credential_def w_credential_def)
  note h = rotation_handover[OF r(1)]
  have "check_credential ''key'' 6 token d' = Inr new" using h r(3) by (auto simp: seconds_def)
  moreover have "\<exists>c. check_credential ''key'' 6 (gt_token w_agent_token) d' = Inr c"
    using h old i r(2) by (auto simp: seconds_def)
  ultimately show ?thesis using r(1) by blast
qed

theorem rotation_settled_witness:
  "\<exists>d d' d''. finalize 9 60 ''founder'' d = Inr d' \<and> rollback 9 60 ''founder'' d = Inr d''
    \<and> check_credential ''key'' 10 (gt_token w_agent_token) d = Inr (w_bound_credential\<lparr>cr_rotation_state := RotationOverlap,
        cr_overlap_expires_at := Some (5 + seconds 300)\<rparr>)
    \<and> check_credential ''key'' 10 (gt_token w_agent_token) d' = http 401 ''Agent credential has been revoked.''
    \<and> check_credential ''key'' 10 (gt_token w_agent_token) d'' = Inr w_bound_credential"
proof -
  let ?prior = "w_bound_credential\<lparr>cr_rotation_state := RotationOverlap, cr_overlap_expires_at := Some (5 + seconds 300)\<rparr>"
  obtain new and d :: db where d: "credentials d = [?prior, new]" "identities d = [w_identity]"
      "cr_rotation_parent_id new = Some 50" "cr_workload_identity_id new = Some 60" "cr_revoked_at new = None"
      "cr_token_prefix new = ''def''" "cr_id new = 70"
    using w_rotates by blast
  have prior: "cr_id ?prior = 50" "cr_rotation_parent_id ?prior = None" "cr_token_prefix ?prior = ''abc''"
      "cr_token_digest ?prior = gt_digest w_agent_token" "cr_revoked_at ?prior = None" "cr_expires_at ?prior = None"
    by (simp_all add: w_bound_credential_def w_credential_def)
  have i: "get_identity 60 d = Some w_identity" by (simp add: get_identity_def d(2))
  have pending: "pending_rotation w_identity d = Some new"
    using prior d by (simp add: pending_rotation_def)
  have parent: "get_credential 50 d = Some ?prior" using prior d(1) by (simp add: get_credential_def)
  have fin: "\<exists>d'. finalize 9 60 ''founder'' d = Inr d'"
    by (simp add: finalize_def find_identity_def i finalize_rotation_def pending d(3) parent ebind_def Let_def)
  have rb: "\<exists>d''. rollback 9 60 ''founder'' d = Inr d''"
    by (simp add: rollback_def find_identity_def i finalize_rotation_def pending d(3) parent ebind_def Let_def seconds_def)
  obtain d' d'' where e: "finalize 9 60 ''founder'' d = Inr d'" "rollback 9 60 ''founder'' d = Inr d''"
    using fin rb by blast
  have row: "get_row cr_token_prefix (credentials d) ''abc'' = Some ?prior" using d(1) prior by simp
  have acc: "check_credential ''key'' 10 (gt_token w_agent_token) d = Inr ?prior"
    using prior check_credential_verdict[OF w_agent_prefix row]
    by (simp add: credential_verdict_Inr w_agent_token_def create_agent_token_def Let_def seconds_def)
  note s = rotation_settled[of 9 60 "''founder''" d d' "''key''"] rotation_settled[of 9 60 "''founder''" d d'' "''key''"]
  have "check_credential ''key'' 10 (gt_token w_agent_token) d' = http 401 ''Agent credential has been revoked.''"
    using s(1) e(1) i pending d(3) acc prior(1) by auto
  moreover have "check_credential ''key'' 10 (gt_token w_agent_token) d'' = Inr w_bound_credential"
    using s(2) e(2) i pending d(3,7) acc prior(1) by (auto simp: w_bound_credential_def w_credential_def)
  ultimately show ?thesis using e acc by blast
qed

end
