(* ===== verification/PyValues.thy ===== *)
theory PyValues
  imports Prelude
begin

text \<open>
  What the research services use of Python on documents whose shape nobody has checked:
  \<open>repr\<close>, \<open>==\<close>, \<open>in\<close>, hashing, iteration and the tests \<open>isinstance(v, int)\<close> and
  \<open>math.isfinite(v)\<close>, with the exceptions they raise on values of another kind.
\<close>

abbreviation conflict :: "string \<Rightarrow> 'a res" where
  "conflict message \<equiv> Inl (Conflict message)"

section \<open>repr\<close>

definition repr_char :: "char \<Rightarrow> char \<Rightarrow> string" where
  "repr_char quote c =
     (if c = quote \<or> c = CHR 0x5C then [CHR 0x5C, c]
      else if c = CHR 0x0A then [CHR 0x5C, CHR ''n'']
      else if c = CHR 0x0D then [CHR 0x5C, CHR ''r'']
      else if c = CHR 0x09 then [CHR 0x5C, CHR ''t'']
      else if c < CHR '' '' \<or> CHR ''~'' < c \<and> c \<le> CHR 0xA0 \<or> c = CHR 0xAD
      then [CHR 0x5C, CHR ''x''] @ hex_str 2 (of_char c)
      else [c])"

definition repr_str :: "string \<Rightarrow> string" where
  "repr_str s =
     (let quote = (if CHR 0x27 \<in> set s \<and> CHR 0x22 \<notin> set s then CHR 0x22 else CHR 0x27)
      in [quote] @ concat (map (repr_char quote) s) @ [quote])"

fun py_repr :: "json \<Rightarrow> string" where
  "py_repr JNull = ''None''"
| "py_repr (JBool b) = (if b then ''True'' else ''False'')"
| "py_repr (JInt i) = int_str i"
| "py_repr (JFloat s) = s"
| "py_repr (JStr s) = repr_str s"
| "py_repr (JList xs) = ''['' @ join '', '' (map py_repr xs) @ '']''"
| "py_repr (JObj d) = ''{'' @ join '', '' (map (\<lambda>(k, v). repr_str k @ '': '' @ py_repr v) d) @ ''}''"

fun py_str :: "json \<Rightarrow> string" where
  "py_str (JStr s) = s"
| "py_str v = py_repr v"

section \<open>Numbers\<close>

text \<open>\<open>isinstance(v, int)\<close> and the value: a bool is an int.\<close>

fun as_int :: "json \<Rightarrow> int option" where
  "as_int (JInt i) = Some i"
| "as_int (JBool b) = Some (if b then 1 else 0)"
| "as_int _ = None"

text \<open>\<open>math.isfinite\<close>: an integer that rounds beyond the largest float raises.\<close>

fun finite_number :: "json \<Rightarrow> bool res" where
  "finite_number (JInt i) = (if 2 ^ 1024 - 2 ^ 970 \<le> \<bar>i\<bar> then Inl OverflowError else Inr True)"
| "finite_number (JFloat s) = Inr (s \<notin> {''nan'', ''inf'', ''-inf''})"
| "finite_number _ = Inl TypeError"

text \<open>
  The integer a float is equal to, from its \<open>repr\<close>: the decimal is read exactly and rounded
  to the 53 bits of a double.
\<close>

function bit_length :: "int \<Rightarrow> nat" where
  "bit_length n = (if n \<le> 0 then 0 else Suc (bit_length (n div 2)))"
  by pat_completeness auto
termination
  by (relation "measure nat") auto

declare bit_length.simps [simp del]

definition round_half_even :: "int \<Rightarrow> int \<Rightarrow> int" where
  "round_half_even n u =
     (let q = n div u; r = n mod u
      in if 2 * r < u \<or> 2 * r = u \<and> even q then q else q + 1)"

definition round_double :: "int \<Rightarrow> int" where
  "round_double n = (let u = 2 ^ (bit_length n - 53) in round_half_even n u * u)"

fun dec_digits :: "int \<Rightarrow> string \<Rightarrow> int option" where
  "dec_digits acc [] = Some acc"
| "dec_digits acc (c # cs) =
     (let n = of_char c :: int in if 48 \<le> n \<and> n \<le> 57 then dec_digits (acc * 10 + (n - 48)) cs else None)"

definition dec_int :: "string \<Rightarrow> int option" where
  "dec_int s =
     (if take 1 s = ''-'' then map_option uminus (dec_digits 0 (drop 1 s))
      else if take 1 s = ''+'' then dec_digits 0 (drop 1 s)
      else dec_digits 0 s)"

text \<open>The sign, the digits and the decimal exponent of a finite float.\<close>

definition float_decimal :: "string \<Rightarrow> (bool \<times> int \<times> int) option" where
  "float_decimal s =
     (let negative = (take 1 s = ''-'');
          t = (if negative then drop 1 s else s);
          mantissa = takeWhile (\<lambda>c. c \<noteq> CHR ''e'') t;
          exponent = (case dropWhile (\<lambda>c. c \<noteq> CHR ''e'') t of [] \<Rightarrow> Some 0 | _ # e \<Rightarrow> dec_int e);
          whole = takeWhile (\<lambda>c. c \<noteq> CHR ''.'') mantissa;
          fraction = drop 1 (dropWhile (\<lambda>c. c \<noteq> CHR ''.'') mantissa)
      in (case (dec_digits 0 (whole @ fraction), exponent) of
            (Some n, Some e) \<Rightarrow> Some (negative, n, e - int (length fraction))
          | _ \<Rightarrow> None))"

definition float_int :: "string \<Rightarrow> int option" where
  "float_int s =
     (case float_decimal s of
        None \<Rightarrow> None
      | Some (negative, n, p) \<Rightarrow>
          (let sign = (if negative then - 1 else 1)
           in if 0 \<le> p then Some (sign * round_double (n * 10 ^ nat p))
              else if n mod 10 ^ nat (- p) = 0 then Some (sign * round_double (n div 10 ^ nat (- p)))
              else None))"

text \<open>
  The floor of a finite float. A decimal with a fraction stands for a float without one only
  when the float is an integer, so the floor of the decimal is the floor of the float.
\<close>

definition float_floor :: "string \<Rightarrow> int" where
  "float_floor s =
     (case float_decimal s of
        None \<Rightarrow> 0
      | Some (negative, n, p) \<Rightarrow>
          (case float_int s of
             Some i \<Rightarrow> i
           | None \<Rightarrow> (if negative then - n else n) div 10 ^ nat (- p)))"

text \<open>\<open>n < v\<close> and \<open>n > v\<close> for a length \<open>n\<close>.\<close>

fun int_lt :: "int \<Rightarrow> json \<Rightarrow> bool res" where
  "int_lt n (JInt i) = Inr (n < i)"
| "int_lt n (JBool b) = Inr (n < (if b then 1 else 0))"
| "int_lt n (JFloat s) =
     Inr (if s = ''inf'' then True else if s = ''nan'' \<or> s = ''-inf'' then False
          else if float_int s = None then n \<le> float_floor s else n < float_floor s)"
| "int_lt n _ = Inl TypeError"

fun int_gt :: "int \<Rightarrow> json \<Rightarrow> bool res" where
  "int_gt n (JInt i) = Inr (i < n)"
| "int_gt n (JBool b) = Inr ((if b then 1 else 0) < n)"
| "int_gt n (JFloat s) =
     Inr (if s = ''-inf'' then True else if s = ''nan'' \<or> s = ''inf'' then False else float_floor s < n)"
| "int_gt n _ = Inl TypeError"

section \<open>Strings\<close>

definition py_lower :: "string \<Rightarrow> string" where
  "py_lower s = map lower_char s"

section \<open>Equality, membership, iteration\<close>

text \<open>The equality of two numbers, by value, and of two documents.\<close>

fun num_eq :: "json \<Rightarrow> json \<Rightarrow> bool" where
  "num_eq (JFloat s) (JFloat t) = (s \<noteq> ''nan'' \<and> (s = t \<or> {s, t} \<subseteq> {''0.0'', ''-0.0''}))"
| "num_eq (JFloat s) v = (case as_int v of None \<Rightarrow> False | Some i \<Rightarrow> float_int s = Some i)"
| "num_eq v (JFloat s) = (case as_int v of None \<Rightarrow> False | Some i \<Rightarrow> float_int s = Some i)"
| "num_eq v w = (as_int v \<noteq> None \<and> as_int v = as_int w)"

fun py_eq :: "json \<Rightarrow> json \<Rightarrow> bool" where
  "py_eq JNull w = (w = JNull)"
| "py_eq (JStr s) w = (w = JStr s)"
| "py_eq (JList xs) w = (case w of JList ys \<Rightarrow> list_all2 py_eq xs ys | _ \<Rightarrow> False)"
| "py_eq (JObj d) w =
     (case w of
        JObj e \<Rightarrow>
          length d = length e
          \<and> list_all (\<lambda>(k, v). case map_of e k of None \<Rightarrow> False | Some v' \<Rightarrow> py_eq v v') d
      | _ \<Rightarrow> False)"
| "py_eq v w = num_eq v w"

fun hashable :: "json \<Rightarrow> bool" where
  "hashable (JList _) = False"
| "hashable (JObj _) = False"
| "hashable _ = True"

text \<open>\<open>v in d\<close> and the entry found, for a dict with string keys.\<close>

definition dict_lookup :: "(string \<times> 'v) list \<Rightarrow> json \<Rightarrow> (string \<times> 'v) option res" where
  "dict_lookup d v =
     (if \<not> hashable v then Inl TypeError
      else (case v of JStr k \<Rightarrow> Inr (map_option (Pair k) (map_of d k)) | _ \<Rightarrow> Inr None))"

text \<open>The members a \<open>for\<close> loop or \<open>set(v)\<close> sees.\<close>

fun py_iter :: "json \<Rightarrow> json list res" where
  "py_iter (JList xs) = Inr xs"
| "py_iter (JObj d) = Inr (map (JStr \<circ> fst) d)"
| "py_iter (JStr s) = Inr (map (\<lambda>c. JStr [c]) s)"
| "py_iter _ = Inl TypeError"

text \<open>\<open>v in container\<close>.\<close>

fun py_in :: "json \<Rightarrow> json \<Rightarrow> bool res" where
  "py_in v (JList xs) = Inr (list_ex (py_eq v) xs)"
| "py_in v (JObj d) = ebind (dict_lookup d v) (\<lambda>found. Inr (found \<noteq> None))"
| "py_in (JStr s) (JStr t) = Inr (sublist s t)"
| "py_in v _ = Inl TypeError"

end
