(* ===== verification/ResearchModels.thy ===== *)
theory ResearchModels
  imports Prelude
begin

text \<open>
  The rows and requests of the governed research tools: factor programs
  (\<open>models/factor_language.py\<close>, \<open>schemas/factor_language.py\<close>), prompt policies
  (\<open>models/prompt_policy.py\<close>, \<open>schemas/prompt_policy.py\<close>) and symbolic searches
  (\<open>models/symbolic_search.py\<close>, \<open>schemas/symbolic_search.py\<close>). These tables share nothing
  with those of the task services; their state is a record of its own.
\<close>

section \<open>Factor programs\<close>

record field_contract =
  fl_unit :: string
  fl_domain :: string
  fl_clock :: string
  fl_availability_lag :: int

record factor_definition =
  fd_expression :: dict
  fd_output_unit :: string
  fd_missing_policy :: string

record label_definition =
  lb_field :: string
  lb_horizon :: int
  lb_kind :: string

text \<open>The mappings of the source are association lists with distinct keys.\<close>

record factor_program_source =
  fs_schema_version :: string
  fs_representation_contract_digest :: string
  fs_dataset_manifest_digest :: string
  fs_decision_clock :: string
  fs_fields :: "(string \<times> field_contract) list"
  fs_parameters :: "(string \<times> json list) list"
  fs_factors :: "(string \<times> factor_definition) list"
  fs_label :: label_definition
  fs_maximum_trials :: int

record factor_program_create =
  fp_program_key :: string
  fp_hypothesis_id :: uuid
  fp_source :: factor_program_source
  fp_supersedes_program_id :: "uuid option"
  fp_registered_by :: string

record factor_experiment_program =
  fx_id :: uuid
  fx_program_key :: string
  fx_hypothesis_id :: uuid
  fx_language_version :: string
  fx_source :: factor_program_source
  fx_source_digest :: string
  fx_semantic_digest :: string
  fx_compiled :: json
  fx_compiled_digest :: string
  fx_status :: string
  fx_supersedes_program_id :: "uuid option"
  fx_registered_by :: string
  fx_registered_at :: time

section \<open>Prompt policies\<close>

record model_binding =
  mo_provider :: string
  mo_model :: string
  mo_runtime :: string
  mo_model_version :: string

record prompt_policy_bundle_create =
  pk_bundle_key :: string
  pk_version :: string
  pk_purpose :: string
  pk_model_binding :: model_binding
  pk_prompt_template :: string
  pk_policy :: dict
  pk_input_schema :: dict
  pk_output_schema :: dict
  pk_trust_labels :: "string list"
  pk_allowed_tools :: "string list"
  pk_allowed_data_classes :: "string list"
  pk_created_by :: string

record prompt_policy_bundle =
  bd_id :: uuid
  bd_bundle_key :: string
  bd_version :: string
  bd_purpose :: string
  bd_status :: string
  bd_schema_version :: string
  bd_model_binding :: model_binding
  bd_prompt_template :: string
  bd_policy :: dict
  bd_input_schema :: dict
  bd_output_schema :: dict
  bd_trust_labels :: "string list"
  bd_allowed_tools :: "string list"
  bd_allowed_data_classes :: "string list"
  bd_bundle_digest :: string
  bd_created_by :: string
  bd_created_at :: time
  bd_activated_at :: "time option"
  bd_retired_at :: "time option"

record prompt_policy_evaluation_create =
  pe_category :: string
  pe_fixture :: dict
  pe_model_output :: json
  pe_evaluated_by :: string

record prompt_policy_evaluation =
  vl_id :: uuid
  vl_bundle_id :: uuid
  vl_category :: string
  vl_fixture_digest :: string
  vl_passed :: bool
  vl_violations :: "string list"
  vl_receipt :: json
  vl_receipt_digest :: string
  vl_evaluated_by :: string
  vl_created_at :: time

record prompt_policy_event =
  pv_id :: nat
  pv_bundle_id :: uuid
  pv_sequence :: nat
  pv_event_type :: string
  pv_actor :: string
  pv_payload :: json
  pv_previous_digest :: "string option"
  pv_event_digest :: string
  pv_created_at :: time

section \<open>Symbolic searches\<close>

record symbolic_constraints =
  ss_maximum_candidates :: int
  ss_maximum_nodes :: int
  ss_maximum_depth :: int
  ss_maximum_constants :: int
  ss_allowed_operators :: "string list"
  ss_required_fields :: "string list"
  ss_allow_parameters :: bool

text \<open>A run keeps the constraints with the digests of its base program and its policy.\<close>

record run_constraints = symbolic_constraints +
  ss_base_factor_program_digest :: string
  ss_prompt_policy_digest :: string

record symbolic_search_create =
  sq_run_key :: string
  sq_base_factor_program_id :: uuid
  sq_prompt_policy_bundle_id :: uuid
  sq_constraints :: symbolic_constraints
  sq_generated_by :: string

record generator_identity =
  si_provider :: string
  si_model :: string
  si_version :: string
  si_seed :: int
  si_candidate_index :: int

record symbolic_candidate_create =
  su_candidate_key :: string
  su_expression :: dict
  su_output_unit :: string
  su_generator :: generator_identity
  su_output_digest :: string
  su_submitted_by :: string

record symbolic_search_run =
  rs_id :: uuid
  rs_run_key :: string
  rs_base_factor_program_id :: uuid
  rs_prompt_policy_bundle_id :: uuid
  rs_constraints :: run_constraints
  rs_constraints_digest :: string
  rs_status :: string
  rs_candidate_count :: int
  rs_accepted_count :: int
  rs_closure :: dict
  rs_generated_by :: string
  rs_created_at :: time

text \<open>The stored proposal: what the generator claims to have produced.\<close>

record symbolic_proposal =
  sy_expression :: dict
  sy_output_unit :: string
  sy_generator :: generator_identity

record symbolic_search_candidate =
  ca_id :: uuid
  ca_run_id :: uuid
  ca_candidate_key :: string
  ca_proposal :: symbolic_proposal
  ca_proposal_digest :: string
  ca_semantic_digest :: "string option"
  ca_status :: string
  ca_violations :: "string list"
  ca_compiled :: dict
  ca_validation_digest :: string
  ca_submitted_by :: string
  ca_created_at :: time

section \<open>The state\<close>

text \<open>
  Of the registered hypotheses and dataset manifests only the identifier and the digest
  that the tools look up are kept.
\<close>

record rdb =
  rdb_next_uuid :: nat
  rdb_next_serial :: nat
  hypothesis_ids :: "uuid list"
  dataset_digests :: "string list"
  programs :: "factor_experiment_program list"
  bundles :: "prompt_policy_bundle list"
  evaluations :: "prompt_policy_evaluation list"
  policy_events :: "prompt_policy_event list"
  symbolic_runs :: "symbolic_search_run list"
  symbolic_candidates :: "symbolic_search_candidate list"

definition empty_rdb :: rdb where
  "empty_rdb =
    \<lparr>rdb_next_uuid = 0, rdb_next_serial = 1, hypothesis_ids = [], dataset_digests = [],
     programs = [], bundles = [], evaluations = [], policy_events = [], symbolic_runs = [],
     symbolic_candidates = []\<rparr>"

end
