(* ===== verification/FactorLanguage.thy ===== *)
theory FactorLanguage
  imports PyValues ResearchModels Sha256 "HOL-Library.Multiset"
begin

text \<open>
  The factor language (\<open>services/factor_language.py\<close>): expressions over market fields are
  JSON trees; the compiler checks their shape, infers a unit and refuses a read of a value
  before it is available. A program is a set of factors with a grid of parameters; it is
  expanded to its trials and registered under its digests.
\<close>

section \<open>The schema\<close>

definition valid_field_contract :: "field_contract \<Rightarrow> bool" where
  "valid_field_contract c =
     (fl_unit c \<noteq> '''' \<and> length (fl_unit c) \<le> 80
      \<and> fl_domain c \<in> {''real'', ''positive'', ''nonnegative'', ''boolean''}
      \<and> fl_clock c \<in> {''decision_open'', ''decision_close'', ''event_time''}
      \<and> 0 \<le> fl_availability_lag c \<and> fl_availability_lag c \<le> 100000)"

definition valid_factor_definition :: "factor_definition \<Rightarrow> bool" where
  "valid_factor_definition f =
     (fd_output_unit f \<noteq> '''' \<and> length (fd_output_unit f) \<le> 80
      \<and> fd_missing_policy f \<in> {''reject'', ''propagate''})"

definition valid_label_definition :: "label_definition \<Rightarrow> bool" where
  "valid_label_definition l =
     (1 \<le> lb_horizon l \<and> lb_horizon l \<le> 100000 \<and> lb_kind l = ''forward_return'')"

text \<open>The values \<open>int | float | str | bool\<close> of a parameter.\<close>

fun parameter_value :: "json \<Rightarrow> bool" where
  "parameter_value (JInt _) = True"
| "parameter_value (JFloat _) = True"
| "parameter_value (JStr _) = True"
| "parameter_value (JBool _) = True"
| "parameter_value _ = False"

definition valid_factor_program_source :: "factor_program_source \<Rightarrow> bool" where
  "valid_factor_program_source s =
     (fs_schema_version s = ''factor-experiment-language-v1.0.0''
      \<and> is_sha256_hex (fs_representation_contract_digest s)
      \<and> is_sha256_hex (fs_dataset_manifest_digest s)
      \<and> fs_decision_clock s \<in> {''decision_open'', ''decision_close''}
      \<and> fs_fields s \<noteq> [] \<and> distinct (map fst (fs_fields s))
      \<and> list_all (\<lambda>(_, c). valid_field_contract c) (fs_fields s)
      \<and> distinct (map fst (fs_parameters s))
      \<and> list_all (\<lambda>(_, vs). list_all parameter_value vs) (fs_parameters s)
      \<and> fs_factors s \<noteq> [] \<and> distinct (map fst (fs_factors s))
      \<and> list_all (\<lambda>(_, f). valid_factor_definition f) (fs_factors s)
      \<and> valid_label_definition (fs_label s)
      \<and> 1 \<le> fs_maximum_trials s \<and> fs_maximum_trials s \<le> 10000)"

definition valid_factor_program_create :: "factor_program_create \<Rightarrow> bool" where
  "valid_factor_program_create p =
     (3 \<le> length (fp_program_key p) \<and> length (fp_program_key p) \<le> 180
      \<and> 3 \<le> length (fp_registered_by p) \<and> length (fp_registered_by p) \<le> 150
      \<and> valid_factor_program_source (fp_source p))"

text \<open>\<open>model_dump(mode="json")\<close>.\<close>

definition field_contract_json :: "field_contract \<Rightarrow> json" where
  "field_contract_json c = JObj
     [(''unit'', JStr (fl_unit c)), (''domain'', JStr (fl_domain c)), (''clock'', JStr (fl_clock c)),
      (''availability_lag'', JInt (fl_availability_lag c))]"

definition factor_definition_json :: "factor_definition \<Rightarrow> json" where
  "factor_definition_json f = JObj
     [(''expression'', JObj (fd_expression f)), (''output_unit'', JStr (fd_output_unit f)),
      (''missing_policy'', JStr (fd_missing_policy f))]"

definition label_definition_json :: "label_definition \<Rightarrow> json" where
  "label_definition_json l = JObj
     [(''field'', JStr (lb_field l)), (''horizon'', JInt (lb_horizon l)), (''kind'', JStr (lb_kind l))]"

definition dump_map :: "('v \<Rightarrow> json) \<Rightarrow> (string \<times> 'v) list \<Rightarrow> json" where
  "dump_map f d = JObj (map (\<lambda>(k, v). (k, f v)) d)"

definition factor_program_source_json :: "factor_program_source \<Rightarrow> json" where
  "factor_program_source_json s = JObj
     [(''schema_version'', JStr (fs_schema_version s)),
      (''representation_contract_digest'', JStr (fs_representation_contract_digest s)),
      (''dataset_manifest_digest'', JStr (fs_dataset_manifest_digest s)),
      (''decision_clock'', JStr (fs_decision_clock s)),
      (''fields'', dump_map field_contract_json (fs_fields s)),
      (''parameters'', dump_map JList (fs_parameters s)),
      (''factors'', dump_map factor_definition_json (fs_factors s)),
      (''label'', label_definition_json (fs_label s)),
      (''maximum_trials'', JInt (fs_maximum_trials s))]"

section \<open>The compiler\<close>

definition BINARY :: "string list" where
  "BINARY = [''add'', ''subtract'', ''multiply'', ''divide'', ''greater'', ''less'', ''and'', ''or'']"

definition UNARY :: "string list" where
  "UNARY = [''abs'', ''log'', ''negate'']"

definition unit_for_binary :: "string \<Rightarrow> string \<Rightarrow> string \<Rightarrow> string res" where
  "unit_for_binary op left right =
     (if op \<in> {''add'', ''subtract'', ''greater'', ''less''} \<and> left \<noteq> right
      then conflict (op @ '' operands must have identical units.'')
      else if op \<in> {''and'', ''or''} \<and> (left \<noteq> ''boolean'' \<or> right \<noteq> ''boolean'')
      then conflict (op @ '' operands must be boolean.'')
      else if op \<in> {''greater'', ''less'', ''and'', ''or''} then Inr ''boolean''
      else if op \<in> {''add'', ''subtract''} then Inr left
      else if op = ''multiply''
      then (if left = ''dimensionless'' then Inr right
            else if right = ''dimensionless'' then Inr left
            else Inr (''('' @ left @ ''*'' @ right @ '')''))
      else if right = left then Inr ''dimensionless''
      else if right = ''dimensionless'' then Inr left
      else Inr (''('' @ left @ ''/'' @ right @ '')''))"

definition compile_field ::
  "(string \<times> field_contract) list \<Rightarrow> string \<Rightarrow> json list \<Rightarrow> (json \<times> string) res" where
  "compile_field flds path args =
     (case args of
        [name, lag] \<Rightarrow>
          ebind (dict_lookup flds name) (\<lambda>found.
            (case (found, as_int lag) of
               (Some (field, c), Some n) \<Rightarrow>
                 (let effective_lag = n + fl_availability_lag c
                  in if n < 0 \<or> effective_lag < 1
                     then conflict (path @ '' reads '' @ field @ '' before it is causally available.'')
                     else Inr (JObj [(''op'', JStr ''field''), (''field'', JStr field),
                                     (''effective_lag'', JInt effective_lag)], fl_unit c))
             | _ \<Rightarrow> conflict (path @ '' field requires [known_field, positive_lag].'')))
      | _ \<Rightarrow> conflict (path @ '' field requires [known_field, positive_lag].''))"

fun is_number :: "json \<Rightarrow> bool" where
  "is_number (JInt _) = True"
| "is_number (JFloat _) = True"
| "is_number _ = False"

definition compile_constant :: "string \<Rightarrow> json list \<Rightarrow> (json \<times> string) res" where
  "compile_constant path args =
     (case args of
        [v] \<Rightarrow>
          if \<not> is_number v then conflict (path @ '' constant must be one finite number.'')
          else
            ebind (finite_number v) (\<lambda>finite.
              if \<not> finite then conflict (path @ '' constant must be one finite number.'')
              else Inr (JObj [(''op'', JStr ''constant''), (''value'', v)], ''dimensionless''))
      | _ \<Rightarrow> conflict (path @ '' constant must be one finite number.''))"

definition compile_parameter ::
  "(string \<times> json list) list \<Rightarrow> string \<Rightarrow> json list \<Rightarrow> (json \<times> string) res" where
  "compile_parameter parameters path args =
     (case args of
        [v] \<Rightarrow>
          ebind (dict_lookup parameters v) (\<lambda>found.
            (case found of
               None \<Rightarrow> conflict (path @ '' references an undeclared parameter.'')
             | Some (name, _) \<Rightarrow>
                 Inr (JObj [(''op'', JStr ''parameter''), (''name'', JStr name)], ''dimensionless'')))
      | _ \<Rightarrow> conflict (path @ '' references an undeclared parameter.''))"

definition ir_node :: "string \<Rightarrow> json list \<Rightarrow> json" where
  "ir_node op args = JObj [(''op'', JStr op), (''args'', JList args)]"

text \<open>
  The operators with subexpressions; \<open>first\<close> and \<open>second\<close> compile the arguments 0 and 1.
\<close>

definition compile_lag ::
  "string \<Rightarrow> (json \<Rightarrow> (json \<times> string) res) \<Rightarrow> json list \<Rightarrow> (json \<times> string) res" where
  "compile_lag path first args =
     (case args of
        [child, k] \<Rightarrow>
          (case as_int k of
             None \<Rightarrow> conflict (path @ '' lag requires [expression, positive_integer].'')
           | Some n \<Rightarrow>
               if n < 1 then conflict (path @ '' lag requires [expression, positive_integer].'')
               else ebind (first child) (\<lambda>(c, u). Inr (ir_node ''lag'' [c, k], u)))
      | _ \<Rightarrow> conflict (path @ '' lag requires [expression, positive_integer].''))"

fun is_obj :: "json \<Rightarrow> bool" where
  "is_obj (JObj _) = True"
| "is_obj _ = False"

definition valid_window :: "json \<Rightarrow> bool" where
  "valid_window w =
     ((case as_int w of None \<Rightarrow> False | Some n \<Rightarrow> 2 \<le> n)
      \<or> (case w of JObj d \<Rightarrow> dget d ''op'' = JStr ''parameter'' | _ \<Rightarrow> False))"

definition compile_rolling_mean ::
  "string \<Rightarrow> (json \<Rightarrow> (json \<times> string) res) \<Rightarrow> (json \<Rightarrow> (json \<times> string) res) \<Rightarrow> json list
     \<Rightarrow> (json \<times> string) res" where
  "compile_rolling_mean path first second args =
     (case args of
        [child, window] \<Rightarrow>
          ebind (first child) (\<lambda>(c, u).
            if \<not> valid_window window
            then conflict (path @ '' rolling window must be >=2 or a parameter.'')
            else
              ebind (if is_obj window then ebind (second window) (\<lambda>(cw, _). Inr cw) else Inr window) (\<lambda>cw.
                Inr (ir_node ''rolling_mean'' [c, cw], u)))
      | _ \<Rightarrow> conflict (path @ '' rolling_mean requires [expression, window].''))"

definition compile_unary ::
  "string \<Rightarrow> string \<Rightarrow> (json \<Rightarrow> (json \<times> string) res) \<Rightarrow> json list \<Rightarrow> (json \<times> string) res" where
  "compile_unary path op first args =
     (case args of
        [child] \<Rightarrow>
          ebind (first child) (\<lambda>(c, u).
            if op = ''log'' \<and> u \<noteq> ''dimensionless''
            then conflict ''log requires a dimensionless expression.''
            else Inr (ir_node op [c], u))
      | _ \<Rightarrow> conflict (path @ '' '' @ op @ '' requires one argument.''))"

definition compile_binary ::
  "string \<Rightarrow> string \<Rightarrow> (json \<Rightarrow> (json \<times> string) res) \<Rightarrow> (json \<Rightarrow> (json \<times> string) res) \<Rightarrow> json list
     \<Rightarrow> (json \<times> string) res" where
  "compile_binary path op first second args =
     (case args of
        [l, r] \<Rightarrow>
          ebind (first l) (\<lambda>(cl, ul).
            ebind (second r) (\<lambda>(cr, ur).
              ebind (unit_for_binary op ul ur) (\<lambda>u. Inr (ir_node op [cl, cr], u))))
      | _ \<Rightarrow> conflict (path @ '' '' @ op @ '' requires two arguments.''))"

definition compile_operator ::
  "(string \<times> field_contract) list \<Rightarrow> (string \<times> json list) list \<Rightarrow> string
     \<Rightarrow> (json \<Rightarrow> (json \<times> string) res) \<Rightarrow> (json \<Rightarrow> (json \<times> string) res) \<Rightarrow> json \<Rightarrow> json list
     \<Rightarrow> (json \<times> string) res" where
  "compile_operator flds parameters path first second op args =
     (if op = JStr ''field'' then compile_field flds path args
      else if op = JStr ''constant'' then compile_constant path args
      else if op = JStr ''parameter'' then compile_parameter parameters path args
      else if op = JStr ''lag'' then compile_lag path first args
      else if op = JStr ''rolling_mean'' then compile_rolling_mean path first second args
      else if \<not> hashable op then Inl TypeError
      else
        (case op of
           JStr name \<Rightarrow>
             if name \<in> set UNARY then compile_unary path name first args
             else if name \<in> set BINARY then compile_binary path name first second args
             else conflict (path @ '' uses unsupported operator '' @ py_repr op @ ''.'')
         | _ \<Rightarrow> conflict (path @ '' uses unsupported operator '' @ py_repr op @ ''.'')))"

text \<open>
  \<open>_compile_expression\<close>, with the depth before the path. The recursion ends because the
  depth is limited, whatever the document.
\<close>

function compile_expression ::
  "(string \<times> field_contract) list \<Rightarrow> (string \<times> json list) list \<Rightarrow> nat \<Rightarrow> string \<Rightarrow> json
     \<Rightarrow> (json \<times> string) res" where
  "compile_expression flds parameters depth path e =
     (if 32 < depth then conflict ''Expression depth exceeds the language limit.''
      else
        (case e of
           JObj d \<Rightarrow>
             if set (map fst d) \<noteq> {''op'', ''args''}
             then conflict (path @ '' must contain exactly op and args.'')
             else
               (case dget d ''args'' of
                  JList args \<Rightarrow>
                    compile_operator flds parameters path
                      (compile_expression flds parameters (Suc depth) (path @ ''.args[0]''))
                      (compile_expression flds parameters (Suc depth) (path @ ''.args[1]''))
                      (dget d ''op'') args
                | _ \<Rightarrow> conflict (path @ ''.args must be a list.''))
         | _ \<Rightarrow> conflict (path @ '' must contain exactly op and args.'')))"
  by pat_completeness auto
termination
  by (relation "measure (\<lambda>(_, _, depth, _, _). 33 - depth)") auto

declare compile_expression.simps [simp del]

section \<open>Programs\<close>

definition check_parameter :: "string \<times> json list \<Rightarrow> unit res" where
  "check_parameter = (\<lambda>(name, values).
     if values = [] \<or> length values \<noteq> card (set (map digest_json values))
     then conflict (''Parameter '' @ name @ '' must contain distinct values.'')
     else if list_ex (\<lambda>v. case v of JFloat s \<Rightarrow> s \<in> {''nan'', ''inf'', ''-inf''} | _ \<Rightarrow> False) values
     then conflict (''Parameter '' @ name @ '' contains a non-finite value.'')
     else Inr ())"

definition check_parameters :: "(string \<times> json list) list \<Rightarrow> unit res" where
  "check_parameters parameters = efold (\<lambda>p _. check_parameter p) parameters ()"

text \<open>\<open>math.prod\<close> of the sizes of the grid; 1 for no parameters.\<close>

definition combinations :: "(string \<times> json list) list \<Rightarrow> nat" where
  "combinations parameters = prod_list (map (length \<circ> snd) parameters)"

record compiled_factor =
  cf_expression :: json
  cf_unit :: string
  cf_missing_policy :: string

definition compile_factor ::
  "(string \<times> field_contract) list \<Rightarrow> (string \<times> json list) list \<Rightarrow> string \<times> factor_definition
     \<Rightarrow> (string \<times> compiled_factor) res" where
  "compile_factor flds parameters = (\<lambda>(name, f).
     ebind (compile_expression flds parameters 0 (''factors.'' @ name) (JObj (fd_expression f)))
       (\<lambda>(expression, inferred_unit).
         if inferred_unit \<noteq> fd_output_unit f
         then conflict (''Factor '' @ name @ '' declares '' @ fd_output_unit f @ '', inferred ''
                        @ inferred_unit @ ''.'')
         else Inr (name, \<lparr>cf_expression = expression, cf_unit = inferred_unit,
                          cf_missing_policy = fd_missing_policy f\<rparr>)))"

fun compile_factors ::
  "(string \<times> field_contract) list \<Rightarrow> (string \<times> json list) list \<Rightarrow> (string \<times> factor_definition) list
     \<Rightarrow> (string \<times> compiled_factor) list res" where
  "compile_factors flds parameters [] = Inr []"
| "compile_factors flds parameters (f # fs) =
     ebind (compile_factor flds parameters f) (\<lambda>c.
       ebind (compile_factors flds parameters fs) (\<lambda>cs. Inr (c # cs)))"

text \<open>\<open>itertools.product\<close> over the parameters in the order of their names.\<close>

definition grid_assignments :: "(string \<times> json list) list \<Rightarrow> dict list" where
  "grid_assignments parameters =
     (let ordered = sort_key fst parameters
      in map (zip (map fst ordered)) (product_lists (map snd ordered)))"

record trial =
  tr_ordinal :: nat
  tr_parameters :: dict
  tr_trial_digest :: string

definition trial_digest :: "json \<Rightarrow> dict \<Rightarrow> string" where
  "trial_digest source a = digest_json (JObj [(''source'', source), (''parameters'', JObj a)])"

definition expand_trials :: "json \<Rightarrow> dict list \<Rightarrow> trial list" where
  "expand_trials source as =
     map (\<lambda>(i, a). \<lparr>tr_ordinal = i + 1, tr_parameters = a, tr_trial_digest = trial_digest source a\<rparr>)
       (enumerate 0 as)"

record compiled_program =
  cp_source_digest :: string
  cp_representation_contract_digest :: string
  cp_dataset_manifest_digest :: string
  cp_factors :: "(string \<times> compiled_factor) list"
  cp_label :: label_definition
  cp_trials :: "trial list"

definition compiled_factor_json :: "compiled_factor \<Rightarrow> json" where
  "compiled_factor_json f = JObj
     [(''expression'', cf_expression f), (''unit'', JStr (cf_unit f)),
      (''missing_policy'', JStr (cf_missing_policy f))]"

definition trial_json :: "trial \<Rightarrow> json" where
  "trial_json t = JObj
     [(''ordinal'', JInt (int (tr_ordinal t))), (''parameters'', JObj (tr_parameters t)),
      (''trial_digest'', JStr (tr_trial_digest t))]"

definition compiled_program_json :: "compiled_program \<Rightarrow> json" where
  "compiled_program_json c = JObj
     [(''schema_version'', JStr ''factor-experiment-ir-v1.0.0''),
      (''source_digest'', JStr (cp_source_digest c)),
      (''representation_contract_digest'', JStr (cp_representation_contract_digest c)),
      (''dataset_manifest_digest'', JStr (cp_dataset_manifest_digest c)),
      (''factors'', dump_map compiled_factor_json (cp_factors c)),
      (''label'', label_definition_json (cp_label c)),
      (''trial_count'', JInt (int (length (cp_trials c)))),
      (''trials'', JList (map trial_json (cp_trials c))),
      (''action_authority'', JBool False)]"

definition semantic_json :: "factor_program_create \<Rightarrow> json" where
  "semantic_json p = JObj
     [(''language_version'', JStr (fs_schema_version (fp_source p))),
      (''hypothesis_id'', juuid (fp_hypothesis_id p)),
      (''source'', factor_program_source_json (fp_source p))]"

text \<open>\<open>compile_program\<close>; the three digests it returns are those of its three documents.\<close>

definition compile_program :: "factor_program_create \<Rightarrow> (compiled_program \<times> string \<times> string \<times> string) res" where
  "compile_program p =
     (let s = fp_source p;
          source = factor_program_source_json s
      in ebind (check_parameters (fs_parameters s)) (\<lambda>_.
           if fs_maximum_trials s < int (combinations (fs_parameters s))
           then conflict ''Parameter grid exceeds maximum_trials.''
           else
             ebind (compile_factors (fs_fields s) (fs_parameters s) (sort_key fst (fs_factors s))) (\<lambda>factors.
               if lb_field (fs_label s) \<notin> set (map fst (fs_fields s))
               then conflict ''Label references an unknown field.''
               else
                 (let compiled =
                        \<lparr>cp_source_digest = digest_json source,
                         cp_representation_contract_digest = fs_representation_contract_digest s,
                         cp_dataset_manifest_digest = fs_dataset_manifest_digest s,
                         cp_factors = factors, cp_label = fs_label s,
                         cp_trials = expand_trials source (grid_assignments (fs_parameters s))\<rparr>
                  in Inr (compiled, digest_json source, digest_json (semantic_json p),
                          digest_json (compiled_program_json compiled))))))"

section \<open>Registration\<close>

text \<open>The program a new one supersedes; \<open>if payload.supersedes_program_id\<close> is false for no id.\<close>

definition superseded_program :: "factor_program_create \<Rightarrow> rdb \<Rightarrow> factor_experiment_program option res" where
  "superseded_program p d =
     (case fp_supersedes_program_id p of
        None \<Rightarrow> Inr None
      | Some i \<Rightarrow>
          (case get_row fx_id (programs d) i of
             None \<Rightarrow> conflict ''Superseded program is absent, inactive, or belongs to another hypothesis.''
           | Some prior \<Rightarrow>
               if fx_status prior \<noteq> ''active'' \<or> fx_hypothesis_id prior \<noteq> fp_hypothesis_id p
               then conflict ''Superseded program is absent, inactive, or belongs to another hypothesis.''
               else Inr (Some prior)))"

definition program_taken :: "string \<Rightarrow> string \<Rightarrow> string \<Rightarrow> string \<Rightarrow> factor_experiment_program \<Rightarrow> bool" where
  "program_taken key source_digest semantic_digest compiled_digest x =
     (fx_program_key x = key \<or> fx_source_digest x = source_digest
      \<or> fx_semantic_digest x = semantic_digest \<or> fx_compiled_digest x = compiled_digest)"

definition register_factor_program ::
  "time \<Rightarrow> factor_program_create \<Rightarrow> rdb \<Rightarrow> (factor_experiment_program \<times> rdb) res" where
  "register_factor_program now p d =
     (if fp_hypothesis_id p \<notin> set (hypothesis_ids d)
      then conflict ''A registered hypothesis is required.''
      else if fs_dataset_manifest_digest (fp_source p) \<notin> set (dataset_digests d)
      then conflict ''A registered dataset manifest is required.''
      else
        ebind (compile_program p) (\<lambda>(compiled, source_digest, semantic_digest, compiled_digest).
          ebind (superseded_program p d) (\<lambda>prior.
            (let rows = (case prior of
                           None \<Rightarrow> programs d
                         | Some x \<Rightarrow> upd_row fx_id (fx_id x) (\<lambda>r. r\<lparr>fx_status := ''superseded''\<rparr>) (programs d));
                 record = \<lparr>fx_id = rdb_next_uuid d, fx_program_key = fp_program_key p,
                           fx_hypothesis_id = fp_hypothesis_id p,
                           fx_language_version = fs_schema_version (fp_source p),
                           fx_source = fp_source p, fx_source_digest = source_digest,
                           fx_semantic_digest = semantic_digest,
                           fx_compiled = compiled_program_json compiled,
                           fx_compiled_digest = compiled_digest, fx_status = ''active'',
                           fx_supersedes_program_id = fp_supersedes_program_id p,
                           fx_registered_by = fp_registered_by p, fx_registered_at = now\<rparr>
             in if list_ex (program_taken (fp_program_key p) source_digest semantic_digest compiled_digest)
                     (programs d)
                then conflict ''Program key, source, semantics, or compiled artifact already exists.''
                else Inr (record, d\<lparr>programs := rows @ [record], rdb_next_uuid := Suc (rdb_next_uuid d)\<rparr>)))))"

text \<open>The route \<open>POST /v1/research/factor-programs\<close>: a conflict is answered with 409.\<close>

definition http_conflict :: "'a res \<Rightarrow> 'a res" where
  "http_conflict r = (case r of Inl (Conflict m) \<Rightarrow> http 409 m | _ \<Rightarrow> r)"

definition create_program ::
  "time \<Rightarrow> factor_program_create \<Rightarrow> rdb \<Rightarrow> (factor_experiment_program \<times> rdb) res" where
  "create_program now p d =
     (if \<not> valid_factor_program_create p then Inl (ValueError ''request'')
      else http_conflict (register_factor_program now p d))"

section \<open>Typing\<close>

text \<open>
  What an expression is and which unit it has, stated on its own: \<open>typed flds parameters n e u\<close>
  says that \<open>e\<close> is an expression of at most \<open>n\<close> levels with unit \<open>u\<close>.
\<close>

definition shape :: "json \<Rightarrow> (json \<times> json list) option" where
  "shape e =
     (case e of
        JObj d \<Rightarrow>
          if set (map fst d) = {''op'', ''args''}
          then (case dget d ''args'' of JList args \<Rightarrow> Some (dget d ''op'', args) | _ \<Rightarrow> None)
          else None
      | _ \<Rightarrow> None)"

definition finite_constant :: "json \<Rightarrow> bool" where
  "finite_constant v =
     (case v of
        JInt i \<Rightarrow> \<bar>i\<bar> < 2 ^ 1024 - 2 ^ 970
      | JFloat s \<Rightarrow> s \<notin> {''nan'', ''inf'', ''-inf''}
      | _ \<Rightarrow> False)"

definition product_unit :: "string \<Rightarrow> string \<Rightarrow> string" where
  "product_unit u v =
     (if u = ''dimensionless'' then v else if v = ''dimensionless'' then u
      else ''('' @ u @ ''*'' @ v @ '')'')"

definition quotient_unit :: "string \<Rightarrow> string \<Rightarrow> string" where
  "quotient_unit u v =
     (if u = v then ''dimensionless'' else if v = ''dimensionless'' then u
      else ''('' @ u @ ''/'' @ v @ '')'')"

inductive typed ::
  "(string \<times> field_contract) list \<Rightarrow> (string \<times> json list) list \<Rightarrow> nat \<Rightarrow> json \<Rightarrow> string \<Rightarrow> bool"
  for flds :: "(string \<times> field_contract) list" and parameters :: "(string \<times> json list) list"
where
  ty_field: "shape e = Some (JStr ''field'', [JStr f, k]) \<Longrightarrow> map_of flds f = Some c \<Longrightarrow> as_int k = Some n
    \<Longrightarrow> 0 \<le> n \<Longrightarrow> 1 \<le> n + fl_availability_lag c \<Longrightarrow> typed flds parameters (Suc m) e (fl_unit c)"
| ty_constant: "shape e = Some (JStr ''constant'', [v]) \<Longrightarrow> finite_constant v
    \<Longrightarrow> typed flds parameters (Suc m) e ''dimensionless''"
| ty_parameter: "shape e = Some (JStr ''parameter'', [JStr p]) \<Longrightarrow> p \<in> fst ` set parameters
    \<Longrightarrow> typed flds parameters (Suc m) e ''dimensionless''"
| ty_lag: "shape e = Some (JStr ''lag'', [a, k]) \<Longrightarrow> as_int k = Some n \<Longrightarrow> 1 \<le> n
    \<Longrightarrow> typed flds parameters m a u \<Longrightarrow> typed flds parameters (Suc m) e u"
| ty_rolling_fixed: "shape e = Some (JStr ''rolling_mean'', [a, w]) \<Longrightarrow> as_int w = Some n \<Longrightarrow> 2 \<le> n
    \<Longrightarrow> typed flds parameters m a u \<Longrightarrow> typed flds parameters (Suc m) e u"
| ty_rolling_parameter: "shape e = Some (JStr ''rolling_mean'', [a, w]) \<Longrightarrow> shape w = Some (JStr ''parameter'', ps)
    \<Longrightarrow> typed flds parameters m w v \<Longrightarrow> typed flds parameters m a u \<Longrightarrow> typed flds parameters (Suc m) e u"
| ty_keep_unit: "shape e = Some (JStr op, [a]) \<Longrightarrow> op \<in> {''abs'', ''negate''}
    \<Longrightarrow> typed flds parameters m a u \<Longrightarrow> typed flds parameters (Suc m) e u"
| ty_log: "shape e = Some (JStr ''log'', [a]) \<Longrightarrow> typed flds parameters m a ''dimensionless''
    \<Longrightarrow> typed flds parameters (Suc m) e ''dimensionless''"
| ty_sum: "shape e = Some (JStr op, [a, b]) \<Longrightarrow> op \<in> {''add'', ''subtract''}
    \<Longrightarrow> typed flds parameters m a u \<Longrightarrow> typed flds parameters m b u \<Longrightarrow> typed flds parameters (Suc m) e u"
| ty_compare: "shape e = Some (JStr op, [a, b]) \<Longrightarrow> op \<in> {''greater'', ''less''}
    \<Longrightarrow> typed flds parameters m a u \<Longrightarrow> typed flds parameters m b u
    \<Longrightarrow> typed flds parameters (Suc m) e ''boolean''"
| ty_logic: "shape e = Some (JStr op, [a, b]) \<Longrightarrow> op \<in> {''and'', ''or''}
    \<Longrightarrow> typed flds parameters m a ''boolean'' \<Longrightarrow> typed flds parameters m b ''boolean''
    \<Longrightarrow> typed flds parameters (Suc m) e ''boolean''"
| ty_times: "shape e = Some (JStr ''multiply'', [a, b]) \<Longrightarrow> typed flds parameters m a u
    \<Longrightarrow> typed flds parameters m b v \<Longrightarrow> typed flds parameters (Suc m) e (product_unit u v)"
| ty_over: "shape e = Some (JStr ''divide'', [a, b]) \<Longrightarrow> typed flds parameters m a u
    \<Longrightarrow> typed flds parameters m b v \<Longrightarrow> typed flds parameters (Suc m) e (quotient_unit u v)"

inductive_cases typed_0E: "typed flds parameters 0 e u"
inductive_cases typed_SucE: "typed flds parameters (Suc m) e u"

text \<open>When each operator compiles, and to what.\<close>

lemma dict_lookup_Inr: "dict_lookup d v = Inr (Some (k, x)) \<longleftrightarrow> v = JStr k \<and> map_of d k = Some x"
  by (cases v) (auto simp: dict_lookup_def)

lemma map_of_key: "map_of d k = Some x \<Longrightarrow> k \<in> fst ` set d"
  by (metis map_of_eq_None_iff option.distinct(1))

lemma compile_field_Inr:
  "compile_field flds path args = Inr (c, u) \<longleftrightarrow>
     (\<exists>f k n x. args = [JStr f, k] \<and> map_of flds f = Some x \<and> as_int k = Some n \<and> 0 \<le> n
        \<and> 1 \<le> n + fl_availability_lag x \<and> u = fl_unit x
        \<and> c = JObj [(''op'', JStr ''field''), (''field'', JStr f), (''effective_lag'', JInt (n + fl_availability_lag x))])"
  (is "?l \<longleftrightarrow> ?r")
proof
  assume l: ?l
  then obtain name k where args: "args = [name, k]"
    by (auto simp: compile_field_def split: list.split_asm)
  with l obtain found where found: "dict_lookup flds name = Inr found"
    by (auto simp: compile_field_def ebind_Inr_iff)
  with l args obtain f x where fx: "found = Some (f, x)"
    by (auto simp: compile_field_def split: option.split_asm)
  with l args found obtain n where "as_int k = Some n"
    by (auto simp: compile_field_def split: option.split_asm)
  then show ?r
    using l args found fx by (auto simp: compile_field_def Let_def dict_lookup_Inr split: if_split_asm)
next
  assume ?r
  then show ?l by (auto simp: compile_field_def dict_lookup_def)
qed

lemma compile_constant_Inr:
  "compile_constant path args = Inr (c, u) \<longleftrightarrow>
     (\<exists>v. args = [v] \<and> finite_constant v \<and> u = ''dimensionless''
        \<and> c = JObj [(''op'', JStr ''constant''), (''value'', v)])"
proof -
  have "is_number v \<and> finite_number v = Inr True \<longleftrightarrow> finite_constant v" for v
    by (cases v) (auto simp: finite_constant_def)
  moreover have "is_number v \<and> finite_number v = Inr b \<longrightarrow> b \<or> \<not> finite_constant v" for v b
    by (cases v) (auto simp: finite_constant_def)
  ultimately show ?thesis
    by (auto simp: compile_constant_def ebind_Inr_iff split: list.splits if_split_asm)
qed

lemma compile_parameter_Inr:
  "compile_parameter parameters path args = Inr (c, u) \<longleftrightarrow>
     (\<exists>p. args = [JStr p] \<and> p \<in> fst ` set parameters \<and> u = ''dimensionless''
        \<and> c = JObj [(''op'', JStr ''parameter''), (''name'', JStr p)])"
  (is "?l \<longleftrightarrow> ?r")
proof
  assume ?l
  then show ?r
    by (auto simp: compile_parameter_def ebind_Inr_iff dict_lookup_Inr dest: map_of_key
          split: list.split_asm option.split_asm prod.split_asm)
next
  assume ?r
  then obtain p where p: "args = [JStr p]" "p \<in> fst ` set parameters" "u = ''dimensionless''"
    "c = JObj [(''op'', JStr ''parameter''), (''name'', JStr p)]"
    by blast
  then obtain x where "map_of parameters p = Some x"
    by (metis map_of_eq_None_iff not_None_eq)
  then show ?l using p by (simp add: compile_parameter_def dict_lookup_def)
qed

lemma compile_lag_Inr:
  "compile_lag path first args = Inr (c, u) \<longleftrightarrow>
     (\<exists>a k n c'. args = [a, k] \<and> as_int k = Some n \<and> 1 \<le> n \<and> first a = Inr (c', u)
        \<and> c = ir_node ''lag'' [c', k])"
  by (auto simp: compile_lag_def ebind_Inr_iff split: list.splits option.splits if_split_asm prod.splits)

lemma compile_unary_Inr:
  "compile_unary path op first args = Inr (c, u) \<longleftrightarrow>
     (\<exists>a c'. args = [a] \<and> first a = Inr (c', u) \<and> (op = ''log'' \<longrightarrow> u = ''dimensionless'')
        \<and> c = ir_node op [c'])"
  by (auto simp: compile_unary_def ebind_Inr_iff split: list.splits if_split_asm prod.splits)

lemma compile_binary_Inr:
  "compile_binary path op first second args = Inr (c, u) \<longleftrightarrow>
     (\<exists>a b c1 c2 u1 u2. args = [a, b] \<and> first a = Inr (c1, u1) \<and> second b = Inr (c2, u2)
        \<and> unit_for_binary op u1 u2 = Inr u \<and> c = ir_node op [c1, c2])"
  by (auto simp: compile_binary_def ebind_Inr_iff split: list.splits prod.splits)

lemma compile_rolling_mean_Inr:
  "compile_rolling_mean path first second args = Inr (c, u) \<longleftrightarrow>
     (\<exists>a w c'. args = [a, w] \<and> first a = Inr (c', u)
        \<and> ((\<exists>n. as_int w = Some n \<and> 2 \<le> n \<and> c = ir_node ''rolling_mean'' [c', w])
           \<or> (\<exists>d cw v. w = JObj d \<and> dget d ''op'' = JStr ''parameter'' \<and> second w = Inr (cw, v)
                \<and> c = ir_node ''rolling_mean'' [c', cw])))"
proof -
  have window: "valid_window w \<and> (if is_obj w then ebind (second w) (\<lambda>(cw, _). Inr cw) else Inr w) = Inr cw
    \<longleftrightarrow> (\<exists>n. as_int w = Some n \<and> 2 \<le> n \<and> cw = w)
       \<or> (\<exists>d v. w = JObj d \<and> dget d ''op'' = JStr ''parameter'' \<and> second w = Inr (cw, v))" for w cw
    by (cases w) (auto simp: valid_window_def ebind_Inr_iff split: if_splits)
  have pair: "compile_rolling_mean path first second [a, w] = Inr (c, u) \<longleftrightarrow>
    (\<exists>c' cw. first a = Inr (c', u)
       \<and> (valid_window w \<and> (if is_obj w then ebind (second w) (\<lambda>(cw, _). Inr cw) else Inr w) = Inr cw)
       \<and> c = ir_node ''rolling_mean'' [c', cw])" for a w
    unfolding compile_rolling_mean_def by (cases "valid_window w") (auto simp: ebind_Inr_iff)
  have args: "\<exists>a w. args = [a, w]" if "compile_rolling_mean path first second args = Inr (c, u)"
    using that by (auto simp: compile_rolling_mean_def split: list.split_asm)
  show ?thesis
  proof (cases "\<exists>a w. args = [a, w]")
    case True
    then obtain a w where aw: "args = [a, w]" by blast
    show ?thesis unfolding aw pair window by auto
  next
    case False
    then show ?thesis using args by auto
  qed
qed

lemma unit_for_binary_simps:
  "unit_for_binary ''multiply'' u v = Inr (product_unit u v)"
  "unit_for_binary ''divide'' u v = Inr (quotient_unit u v)"
  "op \<in> {''add'', ''subtract''} \<Longrightarrow>
     unit_for_binary op u v = (if u = v then Inr u else conflict (op @ '' operands must have identical units.''))"
  "op \<in> {''greater'', ''less''} \<Longrightarrow>
     unit_for_binary op u v =
       (if u = v then Inr ''boolean'' else conflict (op @ '' operands must have identical units.''))"
  "op \<in> {''and'', ''or''} \<Longrightarrow>
     unit_for_binary op u v =
       (if u = ''boolean'' \<and> v = ''boolean'' then Inr ''boolean'' else conflict (op @ '' operands must be boolean.''))"
      apply (simp add: unit_for_binary_def product_unit_def)
     apply (simp add: unit_for_binary_def quotient_unit_def eq_commute)
    apply (elim insertE emptyE; simp add: unit_for_binary_def)
   apply (elim insertE emptyE; simp add: unit_for_binary_def)
  apply (elim insertE emptyE; simp add: unit_for_binary_def)
  done

lemma unit_for_binary_Inr:
  assumes "op \<in> set BINARY"
  shows "unit_for_binary op u v = Inr w \<longleftrightarrow>
    op \<in> {''add'', ''subtract''} \<and> u = v \<and> w = u
    \<or> op \<in> {''greater'', ''less''} \<and> u = v \<and> w = ''boolean''
    \<or> op \<in> {''and'', ''or''} \<and> u = ''boolean'' \<and> v = ''boolean'' \<and> w = ''boolean''
    \<or> op = ''multiply'' \<and> w = product_unit u v
    \<or> op = ''divide'' \<and> w = quotient_unit u v"
proof -
  from assms consider (sum) "op \<in> {''add'', ''subtract''}" | (compare) "op \<in> {''greater'', ''less''}"
    | (logic) "op \<in> {''and'', ''or''}" | (times) "op = ''multiply''" | (over) "op = ''divide''"
    by (simp add: BINARY_def) (elim disjE; simp)
  then show ?thesis
  proof cases
    case sum
    then have "op \<notin> {''greater'', ''less''}" "op \<notin> {''and'', ''or''}" "op \<noteq> ''multiply''" "op \<noteq> ''divide''"
      by auto
    then show ?thesis using sum unit_for_binary_simps(3)[OF sum, of u v] by simp blast
  next
    case compare
    then have "op \<notin> {''add'', ''subtract''}" "op \<notin> {''and'', ''or''}" "op \<noteq> ''multiply''" "op \<noteq> ''divide''"
      by auto
    then show ?thesis using compare unit_for_binary_simps(4)[OF compare, of u v] by simp blast
  next
    case logic
    then have "op \<notin> {''add'', ''subtract''}" "op \<notin> {''greater'', ''less''}" "op \<noteq> ''multiply''" "op \<noteq> ''divide''"
      by auto
    then show ?thesis using logic unit_for_binary_simps(5)[OF logic, of u v] by simp blast
  next
    case times
    then show ?thesis by (simp add: unit_for_binary_simps eq_commute)
  next
    case over
    then show ?thesis by (simp add: unit_for_binary_simps eq_commute)
  qed
qed

lemma compile_operator_Inr:
  assumes "compile_operator flds parameters path first second op args = Inr r"
  obtains (field) "op = JStr ''field''" "compile_field flds path args = Inr r"
  | (const) "op = JStr ''constant''" "compile_constant path args = Inr r"
  | (parameter) "op = JStr ''parameter''" "compile_parameter parameters path args = Inr r"
  | (lag) "op = JStr ''lag''" "compile_lag path first args = Inr r"
  | (rolling) "op = JStr ''rolling_mean''" "compile_rolling_mean path first second args = Inr r"
  | (unary) name where "op = JStr name" "name \<in> set UNARY" "compile_unary path name first args = Inr r"
  | (binary) name where "op = JStr name" "name \<in> set BINARY"
      "compile_binary path name first second args = Inr r"
proof -
  note run = assms[unfolded compile_operator_def]
  consider "op = JStr ''field''" | "op = JStr ''constant''" | "op = JStr ''parameter''" | "op = JStr ''lag''"
    | "op = JStr ''rolling_mean''"
    | "op \<noteq> JStr ''field''" "op \<noteq> JStr ''constant''" "op \<noteq> JStr ''parameter''" "op \<noteq> JStr ''lag''"
      "op \<noteq> JStr ''rolling_mean''"
    by blast
  then show thesis
  proof cases
    case 1 then show thesis using run field by simp
  next
    case 2 then show thesis using run const by simp
  next
    case 3 then show thesis using run parameter by simp
  next
    case 4 then show thesis using run lag by simp
  next
    case 5 then show thesis using run rolling by simp
  next
    case 6
    with run have "hashable op" by (cases "hashable op") simp_all
    with run 6 obtain name where name: "op = JStr name" by (cases op) simp_all
    show thesis
    proof (cases "name \<in> set UNARY")
      case True then show thesis using run 6 name unary by simp
    next
      case False
      then have "name \<in> set BINARY" using run 6 name by (cases "name \<in> set BINARY") simp_all
      then show thesis using run 6 name False binary by simp
    qed
  qed
qed

lemma compile_operator_simps:
  "compile_operator flds parameters path first second (JStr ''field'') args = compile_field flds path args"
  "compile_operator flds parameters path first second (JStr ''constant'') args = compile_constant path args"
  "compile_operator flds parameters path first second (JStr ''parameter'') args =
     compile_parameter parameters path args"
  "compile_operator flds parameters path first second (JStr ''lag'') args = compile_lag path first args"
  "compile_operator flds parameters path first second (JStr ''rolling_mean'') args =
     compile_rolling_mean path first second args"
  "name \<in> set UNARY \<Longrightarrow> compile_operator flds parameters path first second (JStr name) args =
     compile_unary path name first args"
  "name \<in> set BINARY \<Longrightarrow> compile_operator flds parameters path first second (JStr name) args =
     compile_binary path name first second args"
proof -
  assume "name \<in> set UNARY"
  then have "name = ''abs'' \<or> name = ''log'' \<or> name = ''negate''" by (simp add: UNARY_def)
  then show "compile_operator flds parameters path first second (JStr name) args =
     compile_unary path name first args"
    by (elim disjE) (simp_all add: compile_operator_def UNARY_def)
next
  assume "name \<in> set BINARY"
  then have "name = ''add'' \<or> name = ''subtract'' \<or> name = ''multiply'' \<or> name = ''divide''
    \<or> name = ''greater'' \<or> name = ''less'' \<or> name = ''and'' \<or> name = ''or''" by (simp add: BINARY_def)
  then show "compile_operator flds parameters path first second (JStr name) args =
     compile_binary path name first second args"
    by (elim disjE) (simp_all add: compile_operator_def UNARY_def BINARY_def)
qed (simp_all add: compile_operator_def)

lemma compile_expression_Inr:
  "compile_expression flds parameters depth path e = Inr r \<longleftrightarrow>
     depth \<le> 32 \<and> (\<exists>op args. shape e = Some (op, args)
       \<and> compile_operator flds parameters path
           (compile_expression flds parameters (Suc depth) (path @ ''.args[0]''))
           (compile_expression flds parameters (Suc depth) (path @ ''.args[1]'')) op args = Inr r)"
  by (subst compile_expression.simps) (auto simp: shape_def split: json.splits if_split_asm)

lemma shape_op: "shape (JObj d) = Some (op, args) \<Longrightarrow> op = dget d ''op''"
  by (auto simp: shape_def split: if_split_asm json.split_asm)

text \<open>An operator that compiles is typed if its arguments are.\<close>

lemma rolling_mean_typed:
  assumes run: "compile_rolling_mean path first second args = Inr (c, u)"
    and e: "shape e = Some (JStr ''rolling_mean'', args)"
    and first: "\<And>a c u. first a = Inr (c, u) \<Longrightarrow> typed flds parameters n a u"
    and second: "\<And>a c u. second a = Inr (c, u) \<Longrightarrow> typed flds parameters n a u \<and> shape a \<noteq> None"
  shows "typed flds parameters (Suc n) e u"
proof -
  from run obtain a w c' where a: "args = [a, w]" "first a = Inr (c', u)"
    and w: "(\<exists>k. as_int w = Some k \<and> 2 \<le> k)
      \<or> (\<exists>d cw v. w = JObj d \<and> dget d ''op'' = JStr ''parameter'' \<and> second w = Inr (cw, v))"
    unfolding compile_rolling_mean_Inr by blast
  from w show ?thesis
  proof (elim disjE exE conjE)
    fix k assume "as_int w = Some k" "2 \<le> k"
    then show ?thesis by (rule ty_rolling_fixed[OF e[unfolded a(1)] _ _ first[OF a(2)]])
  next
    fix d cw v assume d: "w = JObj d" "dget d ''op'' = JStr ''parameter''" and s: "second w = Inr (cw, v)"
    obtain op' ps where op': "shape w = Some (op', ps)" using second[OF s] by auto
    then have "op' = JStr ''parameter''" using shape_op d by metis
    then show ?thesis
      using ty_rolling_parameter[OF e[unfolded a(1)] _ _ first[OF a(2)]] second[OF s] op' by simp
  qed
qed

lemma unary_typed:
  assumes run: "compile_unary path name first args = Inr (c, u)" and name: "name \<in> set UNARY"
    and e: "shape e = Some (JStr name, args)"
    and first: "\<And>a c u. first a = Inr (c, u) \<Longrightarrow> typed flds parameters n a u"
  shows "typed flds parameters (Suc n) e u"
proof -
  from run obtain a c' where a: "args = [a]" "first a = Inr (c', u)" "name = ''log'' \<longrightarrow> u = ''dimensionless''"
    by (auto simp: compile_unary_Inr)
  show ?thesis
  proof (cases "name = ''log''")
    case True
    then show ?thesis using a first[OF a(2)] e ty_log by simp
  next
    case False
    then have "name \<in> {''abs'', ''negate''}" using name by (simp add: UNARY_def)
    then show ?thesis by (rule ty_keep_unit[OF e[unfolded a(1)] _ first[OF a(2)]])
  qed
qed

lemma binary_typed:
  assumes run: "compile_binary path name first second args = Inr (c, u)" and name: "name \<in> set BINARY"
    and e: "shape e = Some (JStr name, args)"
    and first: "\<And>a c u. first a = Inr (c, u) \<Longrightarrow> typed flds parameters n a u"
    and second: "\<And>a c u. second a = Inr (c, u) \<Longrightarrow> typed flds parameters n a u"
  shows "typed flds parameters (Suc n) e u"
proof -
  from run obtain a b c1 c2 u1 u2 where a: "args = [a, b]" "first a = Inr (c1, u1)" "second b = Inr (c2, u2)"
    and u: "unit_for_binary name u1 u2 = Inr u"
    unfolding compile_binary_Inr by blast
  note e = e[unfolded a(1)] and ab = first[OF a(2)] second[OF a(3)]
  from u[unfolded unit_for_binary_Inr[OF name]] show ?thesis
  proof (elim disjE conjE)
    assume "name \<in> {''add'', ''subtract''}" "u1 = u2" "u = u1"
    then show ?thesis using ty_sum[OF e _ ab(1)] ab(2) by simp
  next
    assume "name \<in> {''greater'', ''less''}" "u1 = u2" "u = ''boolean''"
    then show ?thesis using ty_compare[OF e _ ab(1)] ab(2) by simp
  next
    assume "name \<in> {''and'', ''or''}" "u1 = ''boolean''" "u2 = ''boolean''" "u = ''boolean''"
    then show ?thesis using ty_logic[OF e] ab by simp
  next
    assume "name = ''multiply''" "u = product_unit u1 u2"
    then show ?thesis using ty_times[OF _ ab] e by simp
  next
    assume "name = ''divide''" "u = quotient_unit u1 u2"
    then show ?thesis using ty_over[OF _ ab] e by simp
  qed
qed

lemma operator_typed:
  assumes run: "compile_operator flds parameters path first second op args = Inr (c, u)"
    and e: "shape e = Some (op, args)"
    and first: "\<And>a c u. first a = Inr (c, u) \<Longrightarrow> typed flds parameters n a u"
    and second: "\<And>a c u. second a = Inr (c, u) \<Longrightarrow> typed flds parameters n a u \<and> shape a \<noteq> None"
  shows "typed flds parameters (Suc n) e u"
  using run
proof (cases rule: compile_operator_Inr)
  case field
  then show ?thesis using e by (auto simp: compile_field_Inr intro: ty_field)
next
  case const
  then show ?thesis using e by (auto simp: compile_constant_Inr intro: ty_constant)
next
  case parameter
  then obtain p where "args = [JStr p]" "p \<in> fst ` set parameters" "u = ''dimensionless''"
    by (auto simp: compile_parameter_Inr)
  then show ?thesis using e parameter(1) ty_parameter by simp
next
  case lag
  then show ?thesis using e first by (auto simp: compile_lag_Inr intro: ty_lag)
next
  case rolling
  show ?thesis using rolling_mean_typed[OF rolling(2) e[unfolded rolling(1)] first second] .
next
  case (unary name)
  show ?thesis using unary_typed[OF unary(3,2) e[unfolded unary(1)] first] .
next
  case (binary name)
  show ?thesis
    by (rule binary_typed[OF binary(3,2) e[unfolded binary(1)]]) (auto dest: first second)
qed

lemma compile_typed:
  "compile_expression flds parameters depth path e = Inr (c, u) \<Longrightarrow> typed flds parameters (33 - depth) e u"
proof (induction "33 - depth" arbitrary: depth path e c u)
  case 0
  then show ?case by (simp add: compile_expression_Inr)
next
  case (Suc n)
  have n: "33 - depth = Suc n" and n': "n = 33 - Suc depth" using Suc.hyps(2) by auto
  note sub = Suc.hyps(1)[OF n', folded n']
  obtain op args where e: "shape e = Some (op, args)"
    and run: "compile_operator flds parameters path
        (compile_expression flds parameters (Suc depth) (path @ ''.args[0]''))
        (compile_expression flds parameters (Suc depth) (path @ ''.args[1]'')) op args = Inr (c, u)"
    using Suc.prems by (auto simp: compile_expression_Inr)
  have "shape a \<noteq> None" if "compile_expression flds parameters (Suc depth) p a = Inr r" for p a r
    using that by (auto simp: compile_expression_Inr)
  then show ?case
    unfolding n by (intro operator_typed[OF run e] conjI sub)
qed

lemma binary_names:
  "op \<in> {''add'', ''subtract''} \<Longrightarrow> op \<in> set BINARY"
  "op \<in> {''greater'', ''less''} \<Longrightarrow> op \<in> set BINARY"
  "op \<in> {''and'', ''or''} \<Longrightarrow> op \<in> set BINARY"
  by (elim insertE emptyE; simp add: BINARY_def)+

lemma binary_compiles:
  assumes e: "shape e = Some (JStr op, [a, b])" and op: "op \<in> set BINARY" and "depth \<le> 32"
    and a: "\<And>path. \<exists>c. compile_expression flds parameters (Suc depth) path a = Inr (c, u1)"
    and b: "\<And>path. \<exists>c. compile_expression flds parameters (Suc depth) path b = Inr (c, u2)"
    and u: "unit_for_binary op u1 u2 = Inr u"
  shows "\<exists>c. compile_expression flds parameters depth path e = Inr (c, u)"
proof -
  obtain c1 where "compile_expression flds parameters (Suc depth) (path @ ''.args[0]'') a = Inr (c1, u1)"
    using a by blast
  moreover obtain c2 where "compile_expression flds parameters (Suc depth) (path @ ''.args[1]'') b = Inr (c2, u2)"
    using b by blast
  ultimately show ?thesis
    using e u \<open>depth \<le> 32\<close> compile_operator_simps(7)[OF op]
    by (simp add: compile_expression_Inr[of _ _ depth] compile_binary_def)
qed

lemma rolling_compiles:
  assumes e: "shape e = Some (JStr ''rolling_mean'', [a, w])" and "depth \<le> 32"
    and a: "\<And>path. \<exists>c. compile_expression flds parameters (Suc depth) path a = Inr (c, u)"
    and w: "(\<exists>n. as_int w = Some n \<and> 2 \<le> n)
      \<or> (\<exists>d v. w = JObj d \<and> dget d ''op'' = JStr ''parameter''
            \<and> (\<forall>path. \<exists>c. compile_expression flds parameters (Suc depth) path w = Inr (c, v)))"
  shows "\<exists>c. compile_expression flds parameters depth path e = Inr (c, u)"
proof -
  obtain c where "compile_expression flds parameters (Suc depth) (path @ ''.args[0]'') a = Inr (c, u)"
    using a by blast
  then have "\<exists>c'. compile_rolling_mean path
      (compile_expression flds parameters (Suc depth) (path @ ''.args[0]''))
      (compile_expression flds parameters (Suc depth) (path @ ''.args[1]'')) [a, w] = Inr (c', u)"
    unfolding compile_rolling_mean_Inr using w by blast
  then show ?thesis
    using e \<open>depth \<le> 32\<close> by (simp add: compile_expression_Inr[of _ _ depth] compile_operator_simps)
qed

lemma typed_compiles:
  "typed flds parameters n e u \<Longrightarrow> n = 33 - depth
     \<Longrightarrow> \<exists>c. compile_expression flds parameters depth path e = Inr (c, u)"
proof (induction arbitrary: depth path rule: typed.induct)
  case (ty_field e f k c n m)
  then show ?case by (auto simp: compile_expression_Inr compile_operator_simps compile_field_Inr)
next
  case (ty_constant e v m)
  then show ?case by (auto simp: compile_expression_Inr compile_operator_simps compile_constant_Inr)
next
  case (ty_parameter e p m)
  then show ?case by (simp add: compile_expression_Inr compile_operator_simps compile_parameter_Inr)
next
  case (ty_lag e a k n m u)
  then have "m = 33 - Suc depth" by simp
  with ty_lag show ?case
    by (simp add: compile_expression_Inr[of _ _ depth] compile_operator_simps compile_lag_Inr)
next
  case (ty_rolling_fixed e a w n m u)
  then have m: "m = 33 - Suc depth" "depth \<le> 32" by simp_all
  show ?case
    by (rule rolling_compiles[OF ty_rolling_fixed.hyps(1) m(2) ty_rolling_fixed.IH[OF m(1)]])
      (use ty_rolling_fixed.hyps(2,3) in blast)
next
  case (ty_rolling_parameter e a w ps m v u)
  then have m: "m = 33 - Suc depth" "depth \<le> 32" by simp_all
  obtain d where "w = JObj d" "dget d ''op'' = JStr ''parameter''"
    using ty_rolling_parameter.hyps(2) by (cases w) (auto simp: shape_def split: if_split_asm json.split_asm)
  then show ?case
    using rolling_compiles[OF ty_rolling_parameter.hyps(1) m(2) ty_rolling_parameter.IH(2)[OF m(1)]]
      ty_rolling_parameter.IH(1)[OF m(1)]
    by blast
next
  case (ty_keep_unit e op a m u)
  then have "m = 33 - Suc depth" and "op \<in> set UNARY" and "op \<noteq> ''log''" by (auto simp: UNARY_def)
  with ty_keep_unit show ?case
    by (simp add: compile_expression_Inr[of _ _ depth] compile_operator_simps compile_unary_Inr)
next
  case (ty_log e a m)
  then have "m = 33 - Suc depth" and "''log'' \<in> set UNARY" by (auto simp: UNARY_def)
  with ty_log show ?case
    by (simp add: compile_expression_Inr[of _ _ depth] compile_operator_simps compile_unary_Inr)
next
  case (ty_sum e op a b m u)
  then have m: "m = 33 - Suc depth" "depth \<le> 32" by simp_all
  show ?case
    by (rule binary_compiles[OF ty_sum.hyps(1) _ m(2) ty_sum.IH[OF m(1)]])
      (use ty_sum.hyps(2) in \<open>simp_all add: unit_for_binary_simps binary_names\<close>)
next
  case (ty_compare e op a b m u)
  then have m: "m = 33 - Suc depth" "depth \<le> 32" by simp_all
  show ?case
    by (rule binary_compiles[OF ty_compare.hyps(1) _ m(2) ty_compare.IH[OF m(1)]])
      (use ty_compare.hyps(2) in \<open>simp_all add: unit_for_binary_simps binary_names\<close>)
next
  case (ty_logic e op a b m)
  then have m: "m = 33 - Suc depth" "depth \<le> 32" by simp_all
  show ?case
    by (rule binary_compiles[OF ty_logic.hyps(1) _ m(2) ty_logic.IH[OF m(1)]])
      (use ty_logic.hyps(2) in \<open>simp_all add: unit_for_binary_simps binary_names\<close>)
next
  case (ty_times e a b m u v)
  then have m: "m = 33 - Suc depth" "depth \<le> 32" by simp_all
  show ?case
    by (rule binary_compiles[OF ty_times.hyps(1) _ m(2) ty_times.IH[OF m(1)]])
      (simp_all add: unit_for_binary_simps BINARY_def)
next
  case (ty_over e a b m u v)
  then have m: "m = 33 - Suc depth" "depth \<le> 32" by simp_all
  show ?case
    by (rule binary_compiles[OF ty_over.hyps(1) _ m(2) ty_over.IH[OF m(1)]])
      (simp_all add: unit_for_binary_simps BINARY_def)
qed

lemma compiles_iff_typed:
  "(\<exists>c. compile_expression flds parameters 0 path e = Inr (c, u)) \<longleftrightarrow> typed flds parameters 33 e u"
  using compile_typed[of flds parameters 0 path e _ u] typed_compiles[of flds parameters 33 e u 0 path]
  by auto

section \<open>Causality\<close>

text \<open>
  \<open>reads ir f k\<close>: the value of a compiled expression at a decision time needs the value of
  field \<open>f\<close> as of \<open>k\<close> steps earlier. A lag shifts the reads of its argument, a rolling mean
  repeats them over its window; the window may be a parameter, so any length is allowed there.
\<close>

inductive reads :: "json \<Rightarrow> string \<Rightarrow> int \<Rightarrow> bool" where
  rd_field: "reads (JObj [(''op'', JStr ''field''), (''field'', JStr f), (''effective_lag'', JInt k)]) f k"
| rd_lag: "reads c f k \<Longrightarrow> as_int n = Some i \<Longrightarrow> reads (ir_node ''lag'' [c, n]) f (k + i)"
| rd_rolling: "reads c f k \<Longrightarrow> 0 \<le> i \<Longrightarrow> as_int w = Some n \<longrightarrow> i < n
    \<Longrightarrow> reads (ir_node ''rolling_mean'' [c, w]) f (k + i)"
| rd_argument: "reads c f k \<Longrightarrow> c \<in> set args \<Longrightarrow> op \<in> set UNARY \<union> set BINARY \<Longrightarrow> reads (ir_node op args) f k"

definition causal :: "(string \<times> field_contract) list \<Rightarrow> json \<Rightarrow> bool" where
  "causal flds ir \<longleftrightarrow>
     (\<forall>f k. reads ir f k \<longrightarrow> (\<exists>c. map_of flds f = Some c \<and> 1 \<le> k \<and> fl_availability_lag c \<le> k))"

inductive_cases reads_fieldE:
  "reads (JObj [(''op'', JStr ''field''), (''field'', JStr g), (''effective_lag'', JInt l)]) f k"
inductive_cases reads_constantE: "reads (JObj [(''op'', JStr ''constant''), (''value'', v)]) f k"
inductive_cases reads_parameterE: "reads (JObj [(''op'', JStr ''parameter''), (''name'', v)]) f k"

lemma causalD:
  "causal flds ir \<Longrightarrow> reads ir f k \<Longrightarrow> \<exists>c. map_of flds f = Some c \<and> 1 \<le> k \<and> fl_availability_lag c \<le> k"
  by (simp add: causal_def)

lemma causal_field:
  assumes "map_of flds f = Some c" "0 \<le> n" "1 \<le> n + fl_availability_lag c"
  shows "causal flds (JObj [(''op'', JStr ''field''), (''field'', JStr f),
           (''effective_lag'', JInt (n + fl_availability_lag c))])"
  unfolding causal_def using assms by (auto elim!: reads_fieldE simp: ir_node_def)

lemma causal_leaf:
  "causal flds (JObj [(''op'', JStr ''constant''), (''value'', v)])"
  "causal flds (JObj [(''op'', JStr ''parameter''), (''name'', v)])"
  unfolding causal_def by (auto elim: reads_constantE reads_parameterE simp: ir_node_def)

text \<open>A node reads what its arguments read, or earlier values.\<close>

lemma causal_node:
  assumes args: "\<And>c. c \<in> set args \<Longrightarrow> is_obj c \<Longrightarrow> causal flds c"
    and lag: "op = ''lag'' \<Longrightarrow> \<exists>c n i. args = [c, n] \<and> as_int n = Some i \<and> 0 \<le> i"
  shows "causal flds (ir_node op args)"
  unfolding causal_def
proof (intro allI impI)
  have obj: "is_obj c" if "reads c f k" for c f k
    using that by cases (simp_all add: ir_node_def)
  fix f k assume "reads (ir_node op args) f k"
  then have "\<exists>c \<in> set args. \<exists>l \<le> k. reads c f l"
    by (cases rule: reads.cases) (use lag in \<open>auto simp: ir_node_def\<close>)
  then show "\<exists>c. map_of flds f = Some c \<and> 1 \<le> k \<and> fl_availability_lag c \<le> k"
    using args obj by (meson causalD order_trans)
qed

lemma operator_causal:
  assumes run: "compile_operator flds parameters path first second op args = Inr (ir, u)"
    and first: "\<And>a c u. first a = Inr (c, u) \<Longrightarrow> causal flds c"
    and second: "\<And>a c u. second a = Inr (c, u) \<Longrightarrow> causal flds c"
  shows "causal flds ir"
  using run
proof (cases rule: compile_operator_Inr)
  case field
  then show ?thesis by (auto simp: compile_field_Inr intro: causal_field)
next
  case const
  then show ?thesis by (auto simp: compile_constant_Inr intro: causal_leaf)
next
  case parameter
  then obtain p where "ir = JObj [(''op'', JStr ''parameter''), (''name'', JStr p)]"
    by (auto simp: compile_parameter_Inr)
  then show ?thesis by (simp add: causal_leaf)
next
  case lag
  then obtain a k n c where "args = [a, k]" "as_int k = Some n" "1 \<le> n" "first a = Inr (c, u)"
    "ir = ir_node ''lag'' [c, k]"
    by (auto simp: compile_lag_Inr)
  moreover from this(2) have "\<not> is_obj k" by (cases k) simp_all
  ultimately show ?thesis using first by (auto intro!: causal_node)
next
  case rolling
  from rolling(2) obtain a w c cw where "first a = Inr (c, u)" "ir = ir_node ''rolling_mean'' [c, cw]"
    and w: "as_int cw \<noteq> None \<or> (\<exists>v. second w = Inr (cw, v))"
    unfolding compile_rolling_mean_Inr by blast
  moreover have "causal flds cw" if "is_obj cw"
    using w that second by (cases cw) auto
  ultimately show ?thesis using first by (auto intro!: causal_node)
next
  case (unary name)
  then have "name \<noteq> ''lag''" by (auto simp: UNARY_def)
  with unary show ?thesis using first by (auto simp: compile_unary_Inr intro!: causal_node)
next
  case (binary name)
  then have "name \<noteq> ''lag''" by (simp add: BINARY_def) (elim disjE; simp)
  moreover from binary(3) obtain a b c1 c2 u1 u2 where "first a = Inr (c1, u1)" "second b = Inr (c2, u2)"
    "ir = ir_node name [c1, c2]"
    unfolding compile_binary_Inr by blast
  ultimately show ?thesis using first second by (auto intro!: causal_node)
qed

lemma compile_causal:
  "compile_expression flds parameters depth path e = Inr (ir, u) \<Longrightarrow> causal flds ir"
proof (induction "33 - depth" arbitrary: depth path e ir u)
  case 0
  then show ?case by (simp add: compile_expression_Inr)
next
  case (Suc n)
  then have n: "n = 33 - Suc depth" by simp
  from Suc.prems show ?case
    by (auto simp: compile_expression_Inr[of _ _ depth] dest!: operator_causal[OF _ Suc.hyps(1)[OF n] Suc.hyps(1)[OF n]])
qed

lemma compile_factor_Inr:
  "compile_factor flds parameters (name, f) = Inr c \<longleftrightarrow>
     (\<exists>ir. compile_expression flds parameters 0 (''factors.'' @ name) (JObj (fd_expression f)) = Inr (ir, fd_output_unit f)
        \<and> c = (name, \<lparr>cf_expression = ir, cf_unit = fd_output_unit f, cf_missing_policy = fd_missing_policy f\<rparr>))"
  by (auto simp: compile_factor_def ebind_Inr_iff split: if_split_asm)

lemma compile_factors_Inr:
  "compile_factors flds parameters fs = Inr cs \<longleftrightarrow>
     list_all2 (\<lambda>f c. compile_factor flds parameters f = Inr c) fs cs"
proof (induction fs arbitrary: cs)
  case (Cons f fs)
  then show ?case by (cases cs) (auto simp: ebind_Inr_iff)
qed (simp add: eq_commute)

lemma compile_factors_mem:
  assumes "compile_factors flds parameters fs = Inr cs" and "c \<in> set cs"
  shows "\<exists>g \<in> set fs. compile_factor flds parameters g = Inr c"
  using assms unfolding compile_factors_Inr by (induction rule: list_all2_induct) auto

lemma compile_program_Inr:
  assumes "compile_program p = Inr (compiled, digests)"
  obtains factors where "check_parameters (fs_parameters (fp_source p)) = Inr ()"
    and "int (combinations (fs_parameters (fp_source p))) \<le> fs_maximum_trials (fp_source p)"
    and "compile_factors (fs_fields (fp_source p)) (fs_parameters (fp_source p))
           (sort_key fst (fs_factors (fp_source p))) = Inr factors"
    and "lb_field (fs_label (fp_source p)) \<in> fst ` set (fs_fields (fp_source p))"
    and "cp_factors compiled = factors"
    and "cp_trials compiled = expand_trials (factor_program_source_json (fp_source p))
           (grid_assignments (fs_parameters (fp_source p)))"
  using assms by (auto simp: compile_program_def Let_def ebind_Inr_iff not_less split: if_split_asm)

text \<open>
  No look-ahead (C19): whatever a compiled factor reads, it reads a declared field, at least one
  step before the decision and not before the value is available.
\<close>

theorem compiled_factor_causal:
  assumes "compile_program p = Inr (compiled, digests)"
    and "(name, f) \<in> set (cp_factors compiled)" and "reads (cf_expression f) field k"
  shows "\<exists>c. map_of (fs_fields (fp_source p)) field = Some c \<and> 1 \<le> k \<and> fl_availability_lag c \<le> k"
proof -
  from assms(1) have "compile_factors (fs_fields (fp_source p)) (fs_parameters (fp_source p))
      (sort_key fst (fs_factors (fp_source p))) = Inr (cp_factors compiled)"
    by (rule compile_program_Inr) simp
  from compile_factors_mem[OF this assms(2)] obtain n g
    where "compile_factor (fs_fields (fp_source p)) (fs_parameters (fp_source p)) (n, g) = Inr (name, f)"
    by auto
  then obtain path e u where "compile_expression (fs_fields (fp_source p)) (fs_parameters (fp_source p)) 0 path e
      = Inr (cf_expression f, u)"
    by (auto simp: compile_factor_Inr)
  then have "causal (fs_fields (fp_source p)) (cf_expression f)" by (rule compile_causal)
  then show ?thesis using assms(3) by (rule causalD)
qed

section \<open>Acceptance\<close>

definition grid_parameter :: "json list \<Rightarrow> bool" where
  "grid_parameter vs \<longleftrightarrow>
     vs \<noteq> [] \<and> distinct (map digest_json vs)
     \<and> list_all (\<lambda>v. v \<notin> {JFloat ''nan'', JFloat ''inf'', JFloat ''-inf''}) vs"

lemma check_parameter_Inr: "check_parameter (name, vs) = Inr () \<longleftrightarrow> grid_parameter vs"
proof -
  have "length vs = card (set (map digest_json vs)) \<longleftrightarrow> distinct (map digest_json vs)"
    by (metis card_distinct distinct_card length_map)
  moreover have "list_ex (\<lambda>v. case v of JFloat s \<Rightarrow> s \<in> {''nan'', ''inf'', ''-inf''} | _ \<Rightarrow> False) vs
    \<longleftrightarrow> \<not> list_all (\<lambda>v. v \<notin> {JFloat ''nan'', JFloat ''inf'', JFloat ''-inf''}) vs"
    by (induction vs) (auto split: json.split)
  ultimately show ?thesis by (auto simp: check_parameter_def grid_parameter_def)
qed

lemma check_parameters_Inr: "check_parameters ps = Inr () \<longleftrightarrow> list_all (\<lambda>(_, vs). grid_parameter vs) ps"
  unfolding check_parameters_def
  by (induction ps) (auto simp: ebind_Inr_iff check_parameter_Inr)

lemma compile_factors_ok:
  "(\<exists>cs. compile_factors flds parameters fs = Inr cs) \<longleftrightarrow>
     list_all (\<lambda>(_, f). typed flds parameters 33 (JObj (fd_expression f)) (fd_output_unit f)) fs"
proof (induction fs)
  case (Cons f fs)
  obtain name g where f: "f = (name, g)" by (cases f)
  have "(\<exists>c. compile_factor flds parameters f = Inr c)
    \<longleftrightarrow> typed flds parameters 33 (JObj (fd_expression g)) (fd_output_unit g)"
    by (simp add: f compile_factor_Inr compiles_iff_typed[symmetric, where path = "''factors.'' @ name"])
  then show ?case using Cons.IH by (auto simp: f ebind_Inr_iff)
qed simp

text \<open>
  Acceptance of a program (C18): the compiler accepts exactly the programs whose parameters are
  nonempty sets of distinct finite values, whose grid fits the budget, whose factors are typed with
  the unit they declare and whose label is a declared field.
\<close>

theorem compile_program_accepts_iff:
  "(\<exists>r. compile_program p = Inr r) \<longleftrightarrow>
     list_all (\<lambda>(_, vs). grid_parameter vs) (fs_parameters (fp_source p))
     \<and> int (combinations (fs_parameters (fp_source p))) \<le> fs_maximum_trials (fp_source p)
     \<and> list_all (\<lambda>(_, f). typed (fs_fields (fp_source p)) (fs_parameters (fp_source p)) 33
                   (JObj (fd_expression f)) (fd_output_unit f)) (fs_factors (fp_source p))
     \<and> lb_field (fs_label (fp_source p)) \<in> fst ` set (fs_fields (fp_source p))"
proof -
  have "(\<exists>cs. compile_factors flds parameters (sort_key fst fs) = Inr cs) \<longleftrightarrow>
     list_all (\<lambda>(_, f). typed flds parameters 33 (JObj (fd_expression f)) (fd_output_unit f)) fs"
    for flds parameters and fs :: "(string \<times> factor_definition) list"
    by (simp add: compile_factors_ok list_all_iff)
  then show ?thesis
    by (auto simp: compile_program_def Let_def ebind_Inr_iff check_parameters_Inr[symmetric] not_less)
qed

section \<open>Trials\<close>

lemma combinations_sort: "combinations (sort_key fst ps) = combinations ps"
  unfolding combinations_def by (metis mset_map mset_sort prod_mset_prod_list)

lemma length_product: "length (product_lists xss) = prod_list (map length xss)"
  by (induction xss) (simp_all add: length_concat comp_def sum_list_triv)

lemma distinct_assignments:
  assumes "\<forall>xs \<in> set xss. distinct xs" and "length names = length xss"
  shows "distinct (map (zip names) (product_lists xss))"
proof -
  have "inj_on (zip names) (set (product_lists xss))"
    by (rule inj_on_inverseI[of _ "map snd"])
      (use assms(2) in \<open>auto simp: in_set_product_lists_length\<close>)
  then show ?thesis using assms(1) by (simp add: distinct_map distinct_product_lists)
qed

text \<open>The points of a grid: one value for every parameter, in the order of the names.\<close>

definition grid_point :: "(string \<times> json list) list \<Rightarrow> dict \<Rightarrow> bool" where
  "grid_point ps a \<longleftrightarrow>
     map fst a = sort (map fst ps) \<and> list_all (\<lambda>(k, v). \<exists>vs. map_of ps k = Some vs \<and> v \<in> set vs) a"

lemma map_fst_sort: "map fst (sort_key fst ps) = sort (map fst ps)"
  by (rule properties_for_sort[symmetric]) simp_all

lemma map_of_sort: "distinct (map fst ps) \<Longrightarrow> map_of (sort_key fst ps) = map_of ps"
  by (rule map_of_inject_set[THEN iffD2]) (simp_all add: map_fst_sort)

lemma choices_iff:
  assumes d: "distinct (map fst qs)"
  shows "(\<exists>xs. list_all2 (\<lambda>x ys. x \<in> set ys) xs (map snd qs) \<and> a = zip (map fst qs) xs) \<longleftrightarrow>
    map fst a = map fst qs \<and> list_all (\<lambda>(k, v). \<exists>vs. map_of qs k = Some vs \<and> v \<in> set vs) a"
  (is "?l \<longleftrightarrow> ?r")
proof -
  have lookup: "map_of qs (fst (qs ! i)) = Some (snd (qs ! i))" if "i < length qs" for i
    using d that by simp
  show ?thesis
  proof
    assume ?l
    then obtain xs where "list_all2 (\<lambda>x ys. x \<in> set ys) xs (map snd qs)" and a: "a = zip (map fst qs) xs"
      by blast
    then have "length xs = length qs" "\<And>i. i < length qs \<Longrightarrow> xs ! i \<in> set (snd (qs ! i))"
      by (auto simp: list_all2_conv_all_nth)
    then show ?r using lookup by (auto simp: a list_all_length)
  next
    assume r: ?r
    then have "length a = length qs" by (metis length_map)
    moreover have "snd (a ! i) \<in> set (snd (qs ! i))" if i: "i < length qs" for i
    proof -
      have "fst (a ! i) = fst (qs ! i)" using arg_cong[OF conjunct1[OF r], of "\<lambda>xs. xs ! i"] i \<open>length a = length qs\<close> by simp
      moreover have "case a ! i of (k, v) \<Rightarrow> \<exists>vs. map_of qs k = Some vs \<and> v \<in> set vs"
        using r i \<open>length a = length qs\<close> by (simp add: list_all_length)
      ultimately show ?thesis using lookup[OF i] by (cases "a ! i") simp
    qed
    ultimately have "list_all2 (\<lambda>x ys. x \<in> set ys) (map snd a) (map snd qs)"
      by (simp add: list_all2_conv_all_nth)
    moreover have "a = zip (map fst qs) (map snd a)" using r by (metis zip_map_fst_snd)
    ultimately show ?l by blast
  qed
qed

lemma grid_assignments_set:
  assumes "distinct (map fst ps)"
  shows "a \<in> set (grid_assignments ps) \<longleftrightarrow> grid_point ps a"
proof -
  have "distinct (map fst (sort_key fst ps))" using assms by (simp add: map_fst_sort)
  from choices_iff[OF this, of a] show ?thesis
    using map_of_sort[OF assms]
    by (auto simp: grid_assignments_def Let_def product_lists_set map_fst_sort grid_point_def)
qed

lemma expand_trials_ordinals: "map tr_ordinal (expand_trials source as) = [1..<Suc (length as)]"
proof -
  have "map tr_ordinal (expand_trials source as) = map (Suc \<circ> fst) (enumerate 0 as)"
    by (simp add: expand_trials_def comp_def case_prod_beta)
  also have "\<dots> = map Suc (map fst (enumerate 0 as))" by (simp only: map_map)
  also have "\<dots> = map Suc [0..<length as]" by (simp only: map_fst_enumerate) simp
  finally show ?thesis by (simp add: map_Suc_upt)
qed

lemma expand_trials_parameters: "map tr_parameters (expand_trials source as) = as"
proof -
  have "map tr_parameters (expand_trials source as) = map snd (enumerate 0 as)"
    by (simp add: expand_trials_def comp_def case_prod_beta)
  then show ?thesis by simp
qed

text \<open>
  The trials of a program: they are exactly the points of its grid, each once, numbered from 1;
  their number is the product of the numbers of values and within the declared budget.
\<close>

theorem compile_program_trials:
  assumes "compile_program p = Inr (compiled, digests)"
    and "distinct (map fst (fs_parameters (fp_source p)))"
  shows "map tr_ordinal (cp_trials compiled) = [1..<Suc (combinations (fs_parameters (fp_source p)))]
    \<and> int (combinations (fs_parameters (fp_source p))) \<le> fs_maximum_trials (fp_source p)
    \<and> distinct (map tr_parameters (cp_trials compiled))
    \<and> set (map tr_parameters (cp_trials compiled)) = {a. grid_point (fs_parameters (fp_source p)) a}"
proof -
  let ?ps = "fs_parameters (fp_source p)"
  obtain factors where check: "check_parameters ?ps = Inr ()"
    and budget: "int (combinations ?ps) \<le> fs_maximum_trials (fp_source p)"
    and trials: "cp_trials compiled = expand_trials (factor_program_source_json (fp_source p)) (grid_assignments ?ps)"
    by (rule compile_program_Inr[OF assms(1)]) (rule that)
  have "length (grid_assignments ?ps) = combinations ?ps"
    using combinations_sort[of ?ps]
    by (simp add: grid_assignments_def Let_def length_product combinations_def comp_def)
  moreover have "distinct vs" if "(k, vs) \<in> set ?ps" for k vs
    using check that by (auto simp: check_parameters_Inr list_all_iff grid_parameter_def distinct_map)
  then have "distinct (grid_assignments ?ps)"
    by (auto simp: grid_assignments_def Let_def intro!: distinct_assignments)
  ultimately show ?thesis
    using budget grid_assignments_set[OF assms(2)] by (auto simp: trials expand_trials_ordinals expand_trials_parameters simp del: set_map)
qed

section \<open>Lineage\<close>

text \<open>
  The lineages of programs: a program is superseded exactly when a later program of the same
  hypothesis names it, and only one does; so a lineage is a line with one active head.
\<close>

definition superseded_ids :: "factor_experiment_program list \<Rightarrow> uuid list" where
  "superseded_ids xs = List.map_filter fx_supersedes_program_id xs"

definition succeeds :: "factor_experiment_program list \<Rightarrow> factor_experiment_program \<Rightarrow> bool" where
  "succeeds xs y =
     (case fx_supersedes_program_id y of
        None \<Rightarrow> True
      | Some i \<Rightarrow> list_ex (\<lambda>x. fx_id x = i \<and> i < fx_id y \<and> fx_hypothesis_id x = fx_hypothesis_id y) xs)"

definition lineage_ok :: "factor_experiment_program list \<Rightarrow> bool" where
  "lineage_ok xs \<longleftrightarrow>
     distinct (map fx_id xs) \<and> distinct (superseded_ids xs) \<and> list_all (succeeds xs) xs
     \<and> list_all (\<lambda>x. fx_status x = (if fx_id x \<in> set (superseded_ids xs) then ''superseded'' else ''active'')) xs"

definition programs_ok :: "rdb \<Rightarrow> bool" where
  "programs_ok d \<longleftrightarrow> lineage_ok (programs d) \<and> list_all (\<lambda>x. fx_id x < rdb_next_uuid d) (programs d)"

lemma register_factor_program_Inr:
  assumes "register_factor_program now p d = Inr (r, d')"
  obtains prior where "superseded_program p d = Inr prior"
    and "programs d' = (case prior of None \<Rightarrow> programs d
           | Some x \<Rightarrow> upd_row fx_id (fx_id x) (\<lambda>r. r\<lparr>fx_status := ''superseded''\<rparr>) (programs d)) @ [r]"
    and "fx_id r = rdb_next_uuid d" and "fx_status r = ''active''"
    and "fx_supersedes_program_id r = fp_supersedes_program_id p"
    and "fx_hypothesis_id r = fp_hypothesis_id p"
    and "d' = d\<lparr>programs := programs d', rdb_next_uuid := Suc (rdb_next_uuid d)\<rparr>"
  using assms
  by (auto simp: register_factor_program_def Let_def ebind_Inr_iff split: if_split_asm prod.split_asm)

lemma superseded_program_None: "superseded_program p d = Inr None \<longleftrightarrow> fp_supersedes_program_id p = None"
  by (auto simp: superseded_program_def split: option.split)

lemma superseded_program_Some:
  assumes "superseded_program p d = Inr (Some x)"
  shows "fp_supersedes_program_id p = Some (fx_id x) \<and> x \<in> set (programs d)
    \<and> fx_status x = ''active'' \<and> fx_hypothesis_id x = fp_hypothesis_id p"
  using assms by (auto simp: superseded_program_def dest: get_row_Some_in split: option.split_asm if_split_asm)

lemma superseded_ids_append:
  "superseded_ids (xs @ [r]) = superseded_ids xs @ (case fx_supersedes_program_id r of None \<Rightarrow> [] | Some i \<Rightarrow> [i])"
  by (simp add: superseded_ids_def map_filter_def split: option.split)

lemma superseded_ids_map:
  "(\<And>x. fx_supersedes_program_id (f x) = fx_supersedes_program_id x) \<Longrightarrow> superseded_ids (map f xs) = superseded_ids xs"
  by (simp add: superseded_ids_def map_filter_def comp_def filter_map)

lemma succeeds_mono: "succeeds xs y \<Longrightarrow> succeeds (xs @ ys) y"
  by (auto simp: succeeds_def split: option.split)

lemma succeeds_map:
  assumes "\<And>x. fx_id (f x) = fx_id x" "\<And>x. fx_hypothesis_id (f x) = fx_hypothesis_id x"
    "\<And>x. fx_supersedes_program_id (f x) = fx_supersedes_program_id x"
  shows "succeeds (map f xs) (f y) = succeeds xs y"
  by (simp add: succeeds_def assms list_ex_iff split: option.split)

lemma superseded_ids_exist:
  assumes "list_all (succeeds xs) xs" and "i \<in> set (superseded_ids xs)"
  shows "i \<in> fx_id ` set xs"
proof -
  from assms(2) obtain y where "y \<in> set xs" "fx_supersedes_program_id y = Some i"
    by (auto simp: superseded_ids_def map_filter_def)
  then have "succeeds xs y" using assms(1) by (simp add: list_all_iff)
  with \<open>fx_supersedes_program_id y = Some i\<close> show ?thesis by (auto simp: succeeds_def list_ex_iff)
qed

lemma lineage_ok_new:
  assumes ok: "lineage_ok xs" and ids: "list_all (\<lambda>x. fx_id x < fx_id r) xs"
    and r: "fx_supersedes_program_id r = None" "fx_status r = ''active''"
  shows "lineage_ok (xs @ [r])"
proof -
  have "fx_id r \<notin> fx_id ` set xs" using ids by (auto simp: list_all_iff)
  moreover have "fx_id r \<notin> set (superseded_ids xs)"
    using superseded_ids_exist[of xs "fx_id r"] ok calculation by (auto simp: lineage_ok_def)
  moreover have "succeeds (xs @ [r]) r" by (simp add: succeeds_def r)
  ultimately show ?thesis
    using ok r by (simp add: lineage_ok_def superseded_ids_append list_all_iff succeeds_mono)
qed

lemma lineage_ok_supersede:
  assumes ok: "lineage_ok xs" and ids: "list_all (\<lambda>x. fx_id x < fx_id r) xs"
    and x: "x \<in> set xs" "fx_status x = ''active''" "fx_hypothesis_id x = fx_hypothesis_id r"
    and r: "fx_supersedes_program_id r = Some (fx_id x)" "fx_status r = ''active''"
  shows "lineage_ok (upd_row fx_id (fx_id x) (\<lambda>r. r\<lparr>fx_status := ''superseded''\<rparr>) xs @ [r])"
proof -
  define f where "f y = (if fx_id y = fx_id x then y\<lparr>fx_status := ''superseded''\<rparr> else y)" for y :: factor_experiment_program
  have f: "fx_id (f y) = fx_id y" "fx_supersedes_program_id (f y) = fx_supersedes_program_id y"
    "fx_hypothesis_id (f y) = fx_hypothesis_id y"
    "fx_status (f y) = (if fx_id y = fx_id x then ''superseded'' else fx_status y)" for y
    by (simp_all add: f_def)
  have rows: "upd_row fx_id (fx_id x) (\<lambda>r. r\<lparr>fx_status := ''superseded''\<rparr>) xs = map f xs"
    by (simp add: upd_row_def f_def)
  have links: "superseded_ids (map f xs) = superseded_ids xs" by (rule superseded_ids_map) (rule f)
  have succ: "list_all (succeeds (map f xs)) (map f xs)"
    using ok succeeds_map[of f xs] by (simp add: lineage_ok_def list_all_iff f)
  have fresh: "fx_id r \<notin> fx_id ` set xs" "fx_id x < fx_id r" using ids x(1) by (auto simp: list_all_iff)
  have "fx_id r \<notin> set (superseded_ids xs)"
    using superseded_ids_exist[of xs "fx_id r"] ok fresh by (auto simp: lineage_ok_def)
  moreover have "fx_id x \<notin> set (superseded_ids xs)"
    using ok x(1,2) by (auto simp: lineage_ok_def list_all_iff split: if_split_asm)
  moreover have "succeeds (map f xs @ [r]) r"
    using x fresh by (auto simp: succeeds_def r list_ex_iff f)
  moreover have "distinct (map fx_id (map f xs @ [r]))"
    using ok fresh by (simp add: lineage_ok_def comp_def f)
  moreover have "list_all (\<lambda>y. fx_status y = (if fx_id y \<in> insert (fx_id x) (set (superseded_ids xs))
      then ''superseded'' else ''active'')) (map f xs)"
    using ok by (simp add: lineage_ok_def list_all_iff f)
  ultimately show ?thesis
    using ok succ fresh unfolding lineage_ok_def rows superseded_ids_append links
    by (simp add: r list_all_iff succeeds_mono)
qed

lemma programs_ok_register:
  assumes "register_factor_program now p d = Inr (r, d')" and ok: "programs_ok d"
  shows "programs_ok d'"
proof -
  from assms(1) obtain prior where prior: "superseded_program p d = Inr prior"
    and rows: "programs d' = (case prior of None \<Rightarrow> programs d
        | Some x \<Rightarrow> upd_row fx_id (fx_id x) (\<lambda>r. r\<lparr>fx_status := ''superseded''\<rparr>) (programs d)) @ [r]"
    and r: "fx_id r = rdb_next_uuid d" "fx_status r = ''active''"
      "fx_supersedes_program_id r = fp_supersedes_program_id p" "fx_hypothesis_id r = fp_hypothesis_id p"
    and d': "d' = d\<lparr>programs := programs d', rdb_next_uuid := Suc (rdb_next_uuid d)\<rparr>"
    by (rule register_factor_program_Inr)
  have ids: "list_all (\<lambda>x. fx_id x < fx_id r) (programs d)" and lin: "lineage_ok (programs d)"
    using ok r(1) by (simp_all add: programs_ok_def)
  have "lineage_ok (programs d')"
  proof (cases prior)
    case None
    then show ?thesis using prior rows r lineage_ok_new[OF lin ids] by (simp add: superseded_program_None)
  next
    case (Some x)
    with superseded_program_Some[of p d x] prior
    have "fp_supersedes_program_id p = Some (fx_id x)" "x \<in> set (programs d)" "fx_status x = ''active''"
      "fx_hypothesis_id x = fp_hypothesis_id p"
      by auto
    then show ?thesis using Some rows r lineage_ok_supersede[OF lin ids, of x] by simp
  qed
  moreover have "rdb_next_uuid d' = Suc (rdb_next_uuid d)" by (subst d') simp
  moreover have "list_all (\<lambda>x. fx_id x < Suc (rdb_next_uuid d)) (programs d')"
    using ids r(1) by (auto simp: rows list_all_iff upd_row_def less_Suc_eq split: option.split)
  ultimately show ?thesis by (simp add: programs_ok_def)
qed

end
