(* ===== verification/PromptPolicy.thy ===== *)
theory PromptPolicy
  imports PyValues ResearchModels HashChain
begin

text \<open>
  The registry of prompt policies (\<open>services/prompt_policy.py\<close>, \<open>schemas/prompt_policy.py\<close>,
  \<open>api/routes/prompt_policies.py\<close>): a bundle of a prompt, a model and the schema of its outputs is
  registered as a draft, evaluated on fixtures and promoted to active once the evidence is there.
  Every change is an event of the hash-chained log of the bundle.

  The order in which Python visits a set of strings is not determined by the program; it is the
  parameter \<open>order\<close> of the definitions that depend on it.
\<close>

section \<open>The schema of requests\<close>

definition key_char :: "char \<Rightarrow> bool" where
  "key_char c = (c \<in> set ''abcdefghijklmnopqrstuvwxyz0123456789._-'')"

text \<open>The patterns \<open>^[a-z0-9][a-z0-9._-]{0,99}$\<close> and \<open>^[0-9]+\.[0-9]+\.[0-9]+$\<close>.\<close>

definition valid_bundle_key :: "string \<Rightarrow> bool" where
  "valid_bundle_key s =
     (s \<noteq> [] \<and> length s \<le> 100 \<and> hd s \<in> set ''abcdefghijklmnopqrstuvwxyz0123456789''
      \<and> list_all key_char (tl s))"

definition digits :: "string \<Rightarrow> bool" where
  "digits s = (s \<noteq> [] \<and> list_all (\<lambda>c. c \<in> set ''0123456789'') s)"

definition valid_version :: "string \<Rightarrow> bool" where
  "valid_version s =
     (let major = takeWhile (\<lambda>c. c \<noteq> CHR ''.'') s;
          rest = drop 1 (dropWhile (\<lambda>c. c \<noteq> CHR ''.'') s);
          minor = takeWhile (\<lambda>c. c \<noteq> CHR ''.'') rest;
          patch = drop 1 (dropWhile (\<lambda>c. c \<noteq> CHR ''.'') rest)
      in digits major \<and> digits minor \<and> digits patch)"

definition valid_model_binding :: "model_binding \<Rightarrow> bool" where
  "valid_model_binding b =
     (text_between 1 80 (mo_provider b) \<and> text_between 1 120 (mo_model b)
      \<and> text_between 1 120 (mo_runtime b) \<and> text_between 1 120 (mo_model_version b))"

text \<open>The model validator \<open>validate_contract\<close>.\<close>

definition validate_contract :: "prompt_policy_bundle_create \<Rightarrow> unit res" where
  "validate_contract p =
     (if dget (pk_input_schema p) ''type'' \<noteq> JStr ''object''
      then Inl (ValueError ''input_schema must declare an object root'')
      else if dget (pk_input_schema p) ''additionalProperties'' \<noteq> JBool False
      then Inl (ValueError ''input_schema must fail closed on additional properties'')
      else if dget (pk_output_schema p) ''type'' \<noteq> JStr ''object''
      then Inl (ValueError ''output_schema must declare an object root'')
      else if dget (pk_output_schema p) ''additionalProperties'' \<noteq> JBool False
      then Inl (ValueError ''output_schema must fail closed on additional properties'')
      else if \<not> {''instruction_precedence'', ''injection_response'', ''secret_handling'', ''output_authority''}
                  \<subseteq> set (map fst (pk_policy p))
      then Inl (ValueError ''policy is missing a required trust-boundary control'')
      else if dget (pk_policy p) ''output_authority'' \<noteq> JStr ''data_only''
      then Inl (ValueError ''model output must remain data_only'')
      else Inr ())"

definition trust_label :: "string \<Rightarrow> bool" where
  "trust_label s = (s \<in> {''trusted_system'', ''trusted_operator'', ''untrusted_corpus'', ''untrusted_external''})"

definition valid_bundle_create :: "prompt_policy_bundle_create \<Rightarrow> unit res" where
  "valid_bundle_create p =
     (if valid_bundle_key (pk_bundle_key p) \<and> valid_version (pk_version p)
         \<and> text_between 1 2000 (pk_purpose p) \<and> valid_model_binding (pk_model_binding p)
         \<and> text_between 1 100000 (pk_prompt_template p)
         \<and> pk_trust_labels p \<noteq> [] \<and> list_all trust_label (pk_trust_labels p)
         \<and> length (pk_allowed_tools p) \<le> 50 \<and> length (pk_allowed_data_classes p) \<le> 50
         \<and> text_between 1 150 (pk_created_by p)
      then validate_contract p
      else Inl (ValueError ''request''))"

definition CATEGORIES :: "string list" where
  "CATEGORIES = [''valid_output'', ''prompt_injection'', ''secret_exfiltration'', ''malformed_output'',
     ''instruction_collision'']"

definition REQUIRED_ADVERSARIAL :: "string list" where
  "REQUIRED_ADVERSARIAL = [''prompt_injection'', ''secret_exfiltration'', ''malformed_output'', ''instruction_collision'']"

definition valid_evaluation_create :: "prompt_policy_evaluation_create \<Rightarrow> bool" where
  "valid_evaluation_create q = (pe_category q \<in> set CATEGORIES \<and> text_between 1 150 (pe_evaluated_by q))"

definition model_binding_json :: "model_binding \<Rightarrow> json" where
  "model_binding_json b = JObj
     [(''provider'', JStr (mo_provider b)), (''model'', JStr (mo_model b)), (''runtime'', JStr (mo_runtime b)),
      (''model_version'', JStr (mo_model_version b))]"

definition bundle_create_json :: "prompt_policy_bundle_create \<Rightarrow> json" where
  "bundle_create_json p = JObj
     [(''bundle_key'', JStr (pk_bundle_key p)), (''version'', JStr (pk_version p)),
      (''purpose'', JStr (pk_purpose p)), (''model_binding'', model_binding_json (pk_model_binding p)),
      (''prompt_template'', JStr (pk_prompt_template p)), (''policy'', JObj (pk_policy p)),
      (''input_schema'', JObj (pk_input_schema p)), (''output_schema'', JObj (pk_output_schema p)),
      (''trust_labels'', jstrs (pk_trust_labels p)), (''allowed_tools'', jstrs (pk_allowed_tools p)),
      (''allowed_data_classes'', jstrs (pk_allowed_data_classes p)), (''created_by'', JStr (pk_created_by p))]"

section \<open>Events\<close>

definition policy_event_doc :: "prompt_policy_event \<Rightarrow> json" where
  "policy_event_doc e = JObj
     [(''bundle_id'', juuid (pv_bundle_id e)), (''sequence'', JInt (int (pv_sequence e))),
      (''event_type'', JStr (pv_event_type e)), (''actor'', JStr (pv_actor e)), (''payload'', pv_payload e),
      (''previous_digest'', option_json JStr (pv_previous_digest e))]"

definition append_policy_event :: "time \<Rightarrow> uuid \<Rightarrow> string \<Rightarrow> string \<Rightarrow> json \<Rightarrow> rdb \<Rightarrow> rdb" where
  "append_policy_event now bundle kind actor payload d =
     (let log = filter (\<lambda>e. pv_bundle_id e = bundle) (policy_events d);
          e = \<lparr>pv_id = rdb_next_serial d, pv_bundle_id = bundle,
               pv_sequence = next_sequence pv_sequence log, pv_event_type = kind, pv_actor = actor,
               pv_payload = payload,
               pv_previous_digest = previous_digest pv_sequence pv_event_digest log,
               pv_event_digest = '''', pv_created_at = now\<rparr>
      in d\<lparr>policy_events := policy_events d @ [e\<lparr>pv_event_digest := digest_json (policy_event_doc e)\<rparr>],
           rdb_next_serial := Suc (rdb_next_serial d)\<rparr>)"

section \<open>Bundles\<close>

definition new_bundle :: "time \<Rightarrow> prompt_policy_bundle_create \<Rightarrow> rdb \<Rightarrow> prompt_policy_bundle" where
  "new_bundle now p d =
     \<lparr>bd_id = rdb_next_uuid d, bd_bundle_key = pk_bundle_key p, bd_version = pk_version p,
      bd_purpose = pk_purpose p, bd_status = ''draft'', bd_schema_version = ''prompt-policy-bundle-v1.0.0'',
      bd_model_binding = pk_model_binding p, bd_prompt_template = pk_prompt_template p,
      bd_policy = pk_policy p, bd_input_schema = pk_input_schema p, bd_output_schema = pk_output_schema p,
      bd_trust_labels = pk_trust_labels p, bd_allowed_tools = pk_allowed_tools p,
      bd_allowed_data_classes = pk_allowed_data_classes p,
      bd_bundle_digest = digest_json (bundle_create_json p), bd_created_by = pk_created_by p,
      bd_created_at = now, bd_activated_at = None, bd_retired_at = None\<rparr>"

definition create_bundle ::
  "time \<Rightarrow> prompt_policy_bundle_create \<Rightarrow> rdb \<Rightarrow> (prompt_policy_bundle \<times> rdb) res" where
  "create_bundle now p d =
     (let b = new_bundle now p d
      in if list_ex (\<lambda>x. bd_bundle_key x = bd_bundle_key b \<and> bd_version x = bd_version b
                         \<or> bd_bundle_digest x = bd_bundle_digest b) (bundles d)
         then Inl IntegrityError
         else Inr (b, append_policy_event now (bd_id b) ''bundle_registered'' (pk_created_by p)
                     (JObj [(''bundle_digest'', JStr (bd_bundle_digest b))])
                     (d\<lparr>bundles := bundles d @ [b], rdb_next_uuid := Suc (rdb_next_uuid d)\<rparr>)))"

section \<open>Validation of outputs\<close>

text \<open>The test \<open>isinstance(value, checks[expected])\<close>; for numbers a bool is not accepted.\<close>

definition type_names :: "string list" where
  "type_names = [''object'', ''array'', ''string'', ''integer'', ''number'', ''boolean'']"

fun has_type :: "string \<Rightarrow> json \<Rightarrow> bool" where
  "has_type t (JObj _) = (t = ''object'')"
| "has_type t (JList _) = (t = ''array'')"
| "has_type t (JStr _) = (t = ''string'')"
| "has_type t (JInt _) = (t \<in> {''integer'', ''number''})"
| "has_type t (JFloat _) = (t = ''number'')"
| "has_type t (JBool _) = (t = ''boolean'')"
| "has_type t JNull = False"

text \<open>The members of a set built from a document: they have to be hashable.\<close>

definition py_set :: "json \<Rightarrow> json list res" where
  "py_set v = ebind (py_iter v) (\<lambda>xs. if list_all hashable xs then Inr xs else Inl TypeError)"

fun strings_of :: "json list \<Rightarrow> string list" where
  "strings_of [] = []"
| "strings_of (JStr s # vs) = s # strings_of vs"
| "strings_of (_ # vs) = strings_of vs"

text \<open>
  \<open>sorted\<close> of a set of hashable members, as texts. Members that are not strings cannot be ordered
  against strings; two numbers, which Python would order, are refused as well.
\<close>

definition sorted_names :: "json list \<Rightarrow> string list res" where
  "sorted_names vs =
     (if length (strings_of vs) = length vs then Inr (sorted_set (strings_of vs))
      else if length vs = 1 then Inr (map py_str vs)
      else Inl TypeError)"

text \<open>A loop that collects violations and may raise.\<close>

fun econcat :: "('a \<Rightarrow> 'b list res) \<Rightarrow> 'a list \<Rightarrow> 'b list res" where
  "econcat f [] = Inr []"
| "econcat f (x # xs) = ebind (f x) (\<lambda>ys. ebind (econcat f xs) (\<lambda>zs. Inr (ys @ zs)))"

lemma econcat_cong [fundef_cong]:
  "xs = ys \<Longrightarrow> (\<And>x. x \<in> set ys \<Longrightarrow> f x = g x) \<Longrightarrow> econcat f xs = econcat g ys"
  by (induction ys arbitrary: xs) auto

definition member :: "dict \<Rightarrow> string \<Rightarrow> json" where
  "member d k = (case map_of d k of None \<Rightarrow> JNull | Some v \<Rightarrow> v)"

definition dget_default :: "dict \<Rightarrow> string \<Rightarrow> json \<Rightarrow> json" where
  "dget_default d k v = (case map_of d k of None \<Rightarrow> v | Some w \<Rightarrow> w)"

definition enum_violations :: "dict \<Rightarrow> json \<Rightarrow> string \<Rightarrow> string list res" where
  "enum_violations s val path =
     (case map_of s ''enum'' of
        None \<Rightarrow> Inr []
      | Some enum \<Rightarrow>
          ebind (py_in val enum) (\<lambda>found. Inr (if found then [] else [path @ '': value is not in enum''])))"

definition required_violations :: "dict \<Rightarrow> dict \<Rightarrow> string \<Rightarrow> string list res" where
  "required_violations s d path =
     ebind (py_set (dget_default s ''required'' (JList []))) (\<lambda>required.
       ebind (sorted_names (filter (\<lambda>r. r \<notin> JStr ` set (map fst d)) required)) (\<lambda>names.
         Inr (map (\<lambda>k. path @ ''.'' @ k @ '': required'') names)))"

definition additional_violations :: "dict \<Rightarrow> dict \<Rightarrow> string \<Rightarrow> string list res" where
  "additional_violations s d path =
     (if dget s ''additionalProperties'' = JBool False
      then
        ebind (py_set (dget_default s ''properties'' (JObj []))) (\<lambda>properties.
          Inr (map (\<lambda>k. path @ ''.'' @ k @ '': additional property'')
                 (sorted_set (filter (\<lambda>k. JStr k \<notin> set properties) (map fst d)))))
      else Inr [])"

text \<open>The keys of the value that the schema describes, in the order in which the set is visited.\<close>

definition shared_keys :: "(string list \<Rightarrow> string list) \<Rightarrow> dict \<Rightarrow> dict \<Rightarrow> string list res" where
  "shared_keys order s d =
     ebind (py_set (dget_default s ''properties'' (JObj []))) (\<lambda>properties.
       Inr (order (filter (\<lambda>k. JStr k \<in> set properties) (map fst d))))"

definition property_schema :: "dict \<Rightarrow> string \<Rightarrow> json res" where
  "property_schema s k =
     (case dget_default s ''properties'' (JObj []) of JObj p \<Rightarrow> Inr (member p k) | _ \<Rightarrow> Inl TypeError)"

definition length_violations :: "dict \<Rightarrow> nat \<Rightarrow> string \<Rightarrow> string list res" where
  "length_violations s n path =
     ebind (int_lt (int n) (dget_default s ''minItems'' (JInt 0))) (\<lambda>few.
       ebind (case map_of s ''maxItems'' of None \<Rightarrow> Inr False | Some m \<Rightarrow> int_gt (int n) m) (\<lambda>many.
         Inr ((if few then [path @ '': fewer than minItems''] else [])
              @ (if many then [path @ '': more than maxItems''] else []))))"

definition text_violations :: "dict \<Rightarrow> string \<Rightarrow> string \<Rightarrow> string list res" where
  "text_violations s t path =
     ebind (case map_of s ''maxLength'' of None \<Rightarrow> Inr False | Some m \<Rightarrow> int_gt (int (length t)) m) (\<lambda>long.
       Inr (if long then [path @ '': exceeds maxLength''] else []))"

lemma size_member: "size (member d k) < size (JObj d)"
proof (cases "map_of d k")
  case (Some v)
  then have "(k, v) \<in> set d" by (rule map_of_SomeD)
  then have "size v < size (JObj d)" by (induction d) auto
  then show ?thesis using Some by (simp add: member_def)
qed (simp add: member_def)

lemma size_item: "v \<in> set xs \<Longrightarrow> size v < size (JList xs)"
  by (induction xs) auto

text \<open>\<open>_validate\<close>: the violations of a schema by a value. It recurs into the parts of the value.\<close>

function validate :: "(string list \<Rightarrow> string list) \<Rightarrow> json \<Rightarrow> json \<Rightarrow> string \<Rightarrow> string list res" where
  "validate order schema val path =
     (case schema of
        JObj s \<Rightarrow>
          (let expected = dget s ''type''
           in if \<not> hashable expected then Inl TypeError
              else if (\<exists>t \<in> set type_names. expected = JStr t \<and> \<not> has_type t val)
              then Inr [path @ '': expected '' @ py_str expected]
              else
                ebind (enum_violations s val path) (\<lambda>v1.
                  ebind
                    (case val of
                       JObj d \<Rightarrow>
                         if expected \<noteq> JStr ''object'' then Inr []
                         else
                           ebind (required_violations s d path) (\<lambda>missing.
                             ebind (additional_violations s d path) (\<lambda>extra.
                               ebind (shared_keys order s d) (\<lambda>ks.
                                 ebind (econcat (\<lambda>k. ebind (property_schema s k) (\<lambda>p.
                                          validate order p (member d k) (path @ ''.'' @ k))) ks) (\<lambda>inner.
                                   Inr (missing @ extra @ inner)))))
                     | JList xs \<Rightarrow>
                         if expected \<noteq> JStr ''array'' then Inr []
                         else
                           ebind (length_violations s (length xs) path) (\<lambda>bounds.
                             ebind
                               (case map_of s ''items'' of
                                  None \<Rightarrow> Inr []
                                | Some item_schema \<Rightarrow>
                                    econcat (\<lambda>(i, item). validate order item_schema item
                                               (path @ ''['' @ nat_str i @ '']'')) (enumerate 0 xs)) (\<lambda>inner.
                               Inr (bounds @ inner)))
                     | JStr t \<Rightarrow> if expected \<noteq> JStr ''string'' then Inr [] else text_violations s t path
                     | _ \<Rightarrow> Inr []) (\<lambda>v2.
                    Inr (v1 @ v2))))
      | _ \<Rightarrow> Inl (AttributeError ''get''))"
  by pat_completeness auto
termination
  by (relation "measure (\<lambda>(_, _, val, _). size val)")
    (auto simp: size_member[simplified] in_set_enumerate_eq intro!: size_item[simplified])

declare validate.simps [simp del]

section \<open>Evaluation\<close>

text \<open>\<open>_strings\<close>: the texts in a value, in the order of a traversal.\<close>

fun strings :: "json \<Rightarrow> string list" where
  "strings (JStr s) = [s]"
| "strings (JObj d) = concat (map (\<lambda>(_, v). strings v) d)"
| "strings (JList xs) = concat (map strings xs)"
| "strings _ = []"

definition pattern_violations :: "dict \<Rightarrow> string \<Rightarrow> string list res" where
  "pattern_violations policy rendered =
     ebind (py_iter (dget_default policy ''forbidden_output_patterns'' (JList []))) (\<lambda>patterns.
       econcat (\<lambda>p. case p of
                      JStr t \<Rightarrow> Inr (if sublist (py_lower t) rendered
                                     then [''output contains forbidden pattern: '' @ t] else [])
                    | _ \<Rightarrow> Inl (AttributeError ''lower'')) patterns)"

definition field_violations :: "dict \<Rightarrow> json \<Rightarrow> string list res" where
  "field_violations policy output =
     (case output of
        JObj d \<Rightarrow>
          ebind (py_set (dget_default policy ''forbidden_output_fields'' (JList []))) (\<lambda>forbidden.
            Inr (map (\<lambda>k. ''$.'' @ k @ '': authority-bearing field is forbidden'')
                   (sorted_set (filter (\<lambda>k. JStr k \<in> set forbidden) (map fst d)))))
      | _ \<Rightarrow> Inr [])"

definition output_violations ::
  "(string list \<Rightarrow> string list) \<Rightarrow> prompt_policy_bundle \<Rightarrow> json \<Rightarrow> string list res" where
  "output_violations order b output =
     ebind (validate order (JObj (bd_output_schema b)) output ''$'') (\<lambda>v1.
       ebind (pattern_violations (bd_policy b) (py_lower (join [CHR 0x0A] (strings output)))) (\<lambda>v2.
         ebind (field_violations (bd_policy b) output) (\<lambda>v3. Inr (v1 @ v2 @ v3))))"

definition evaluation_receipt :: "prompt_policy_bundle \<Rightarrow> string \<Rightarrow> bool \<Rightarrow> bool \<Rightarrow> string list \<Rightarrow> json" where
  "evaluation_receipt b category accepted passed violations = JObj
     [(''schema_version'', JStr ''prompt-policy-evaluation-v1.0.0''),
      (''bundle_digest'', JStr (bd_bundle_digest b)), (''category'', JStr category),
      (''accepted'', JBool accepted), (''passed'', JBool passed), (''violations'', jstrs violations),
      (''model_binding'', model_binding_json (bd_model_binding b))]"

definition fixture_digest :: "prompt_policy_evaluation_create \<Rightarrow> string" where
  "fixture_digest q = digest_json (JObj
     [(''category'', JStr (pe_category q)), (''fixture'', JObj (pe_fixture q)), (''model_output'', pe_model_output q)])"

definition new_evaluation ::
  "time \<Rightarrow> prompt_policy_bundle \<Rightarrow> prompt_policy_evaluation_create \<Rightarrow> string list \<Rightarrow> rdb \<Rightarrow> prompt_policy_evaluation" where
  "new_evaluation now b q found d =
     (let accepted = (found = []);
          passed = (accepted = (pe_category q = ''valid_output''));
          violations = (if pe_category q \<noteq> ''valid_output'' \<and> accepted
                        then [''adversarial fixture was not rejected''] else found);
          receipt = evaluation_receipt b (pe_category q) accepted passed violations
      in \<lparr>vl_id = rdb_next_uuid d, vl_bundle_id = bd_id b, vl_category = pe_category q,
          vl_fixture_digest = fixture_digest q, vl_passed = passed, vl_violations = violations,
          vl_receipt = receipt, vl_receipt_digest = digest_json receipt,
          vl_evaluated_by = pe_evaluated_by q, vl_created_at = now\<rparr>)"

definition evaluate ::
  "(string list \<Rightarrow> string list) \<Rightarrow> time \<Rightarrow> prompt_policy_bundle \<Rightarrow> prompt_policy_evaluation_create \<Rightarrow> rdb
     \<Rightarrow> (prompt_policy_evaluation \<times> rdb) res" where
  "evaluate order now b q d =
     ebind (output_violations order b (pe_model_output q)) (\<lambda>found.
       (let v = new_evaluation now b q found d
        in if list_ex (\<lambda>w. vl_bundle_id w = vl_bundle_id v \<and> vl_fixture_digest w = vl_fixture_digest v
                           \<or> vl_receipt_digest w = vl_receipt_digest v) (evaluations d)
           then Inl IntegrityError
           else Inr (v, append_policy_event now (bd_id b) ''evaluation_recorded'' (pe_evaluated_by q)
                       (JObj [(''category'', JStr (pe_category q)), (''passed'', JBool (vl_passed v)),
                              (''receipt_digest'', JStr (vl_receipt_digest v))])
                       (d\<lparr>evaluations := evaluations d @ [v], rdb_next_uuid := Suc (rdb_next_uuid d)\<rparr>))))"

section \<open>Promotion\<close>

definition allowed_promotion :: "string \<Rightarrow> string \<Rightarrow> bool" where
  "allowed_promotion status target =
     ((status, target) \<in> {(''draft'', ''rehearsed''), (''rehearsed'', ''approved''), (''approved'', ''active''),
                          (''active'', ''retired'')})"

definition bundle_evaluations :: "uuid \<Rightarrow> rdb \<Rightarrow> prompt_policy_evaluation list" where
  "bundle_evaluations i d = filter (\<lambda>v. vl_bundle_id v = i) (evaluations d)"

definition passed_categories :: "prompt_policy_evaluation list \<Rightarrow> string list" where
  "passed_categories vs = map vl_category (filter vl_passed vs)"

definition evidence_complete :: "prompt_policy_evaluation list \<Rightarrow> bool" where
  "evidence_complete vs =
     (set REQUIRED_ADVERSARIAL \<subseteq> set (passed_categories vs) \<and> ''valid_output'' \<in> set (passed_categories vs))"

definition upd_bundle :: "uuid \<Rightarrow> (prompt_policy_bundle \<Rightarrow> prompt_policy_bundle) \<Rightarrow> rdb \<Rightarrow> rdb" where
  "upd_bundle i f d = d\<lparr>bundles := upd_row bd_id i f (bundles d)\<rparr>"

text \<open>The loop over the active bundles of the same key that a new active bundle replaces.\<close>

definition retire_prior :: "time \<Rightarrow> string \<Rightarrow> string \<Rightarrow> prompt_policy_bundle \<Rightarrow> rdb \<Rightarrow> rdb" where
  "retire_prior now actor digest prior d =
     append_policy_event now (bd_id prior) ''bundle_superseded'' actor
       (JObj [(''replacement_digest'', JStr digest)])
       (upd_bundle (bd_id prior) (\<lambda>b. b\<lparr>bd_status := ''retired'', bd_retired_at := Some now\<rparr>) d)"

definition active_priors :: "prompt_policy_bundle \<Rightarrow> rdb \<Rightarrow> prompt_policy_bundle list" where
  "active_priors b d =
     filter (\<lambda>x. bd_bundle_key x = bd_bundle_key b \<and> bd_status x = ''active'' \<and> bd_id x \<noteq> bd_id b) (bundles d)"

definition promotion_checks :: "prompt_policy_bundle \<Rightarrow> string \<Rightarrow> string \<Rightarrow> rdb \<Rightarrow> unit res" where
  "promotion_checks b actor target d =
     (let vs = bundle_evaluations (bd_id b) d
      in if \<not> allowed_promotion (bd_status b) target
         then http 409 (''Invalid promotion from '' @ bd_status b @ '' to '' @ target @ ''.'')
         else if target \<in> {''approved'', ''active''} \<and> \<not> evidence_complete vs
         then http 409 ''Required valid and adversarial evaluation evidence is incomplete.''
         else if target \<in> {''approved'', ''active''}
                 \<and> (actor = bd_created_by b \<or> \<not> list_ex (\<lambda>v. vl_evaluated_by v \<noteq> bd_created_by b) vs)
         then http 409 ''Independent review is required before approval or activation.''
         else Inr ())"

definition promote :: "time \<Rightarrow> prompt_policy_bundle \<Rightarrow> string \<Rightarrow> string \<Rightarrow> string \<Rightarrow> rdb \<Rightarrow> rdb res" where
  "promote now b actor target reason d =
     ebind (promotion_checks b actor target d) (\<lambda>_.
       (let d1 = (if target = ''active''
                  then foldl (\<lambda>d x. retire_prior now actor (bd_bundle_digest b) x d) d (active_priors b d)
                  else d);
            d2 = upd_bundle (bd_id b) (\<lambda>x. x\<lparr>bd_status := target,
                   bd_activated_at := (if target = ''active'' then Some now else bd_activated_at x),
                   bd_retired_at := (if target = ''retired'' then Some now else bd_retired_at x)\<rparr>) d1
        in Inr (append_policy_event now (bd_id b) ''bundle_promoted'' actor
                  (JObj [(''from'', JStr (bd_status b)), (''to'', JStr target), (''reason'', JStr reason)]) d2)))"

section \<open>Routes\<close>

definition locked_bundle :: "uuid \<Rightarrow> rdb \<Rightarrow> prompt_policy_bundle res" where
  "locked_bundle i d =
     (case get_row bd_id (bundles d) i of
        None \<Rightarrow> http 404 ''Prompt-policy bundle not found.''
      | Some b \<Rightarrow> Inr b)"

definition create_policy_bundle ::
  "time \<Rightarrow> prompt_policy_bundle_create \<Rightarrow> rdb \<Rightarrow> (prompt_policy_bundle \<times> rdb) res" where
  "create_policy_bundle now p d =
     ebind (valid_bundle_create p) (\<lambda>_.
       on_integrity ''Bundle version or digest already exists.'' (create_bundle now p d))"

definition run_evaluation ::
  "(string list \<Rightarrow> string list) \<Rightarrow> time \<Rightarrow> uuid \<Rightarrow> prompt_policy_evaluation_create \<Rightarrow> rdb
     \<Rightarrow> (prompt_policy_evaluation \<times> rdb) res" where
  "run_evaluation order now i q d =
     (if \<not> valid_evaluation_create q then Inl (ValueError ''request'')
      else
        ebind (locked_bundle i d) (\<lambda>b.
          on_integrity ''This exact evaluation fixture was already recorded.'' (evaluate order now b q d)))"

definition promote_bundle ::
  "time \<Rightarrow> uuid \<Rightarrow> string \<Rightarrow> string \<Rightarrow> string \<Rightarrow> rdb \<Rightarrow> rdb res" where
  "promote_bundle now i target actor reason d =
     (if \<not> (text_between 1 150 actor \<and> text_between 1 2000 reason) then Inl (ValueError ''request'')
      else ebind (locked_bundle i d) (\<lambda>b. promote now b actor target reason d))"

inductive policy_step :: "(string list \<Rightarrow> string list) \<Rightarrow> rdb \<Rightarrow> rdb \<Rightarrow> bool"
  for order :: "string list \<Rightarrow> string list"
where
  policy_create: "create_policy_bundle now p d = Inr (b, d') \<Longrightarrow> policy_step order d d'"
| policy_evaluate: "run_evaluation order now i q d = Inr (v, d') \<Longrightarrow> policy_step order d d'"
| policy_promote: "promote_bundle now i target actor reason d = Inr d' \<Longrightarrow> policy_step order d d'"

interpretation policy_log: chained_log policy_events pv_bundle_id pv_sequence
  pv_previous_digest pv_event_digest policy_event_doc
  "\<lambda>(now, bundle, kind, actor, payload). append_policy_event now bundle kind actor payload"
  "\<lambda>(now, bundle, kind, actor, payload). bundle"
  by unfold_locales (auto simp: append_policy_event_def Let_def policy_event_doc_def)

section \<open>What validation decides\<close>

text \<open>The schemas the validator is meant for, and the conformance of a value to one.\<close>

definition property_of :: "dict \<Rightarrow> string \<Rightarrow> json option" where
  "property_of s k = (case map_of s ''properties'' of Some (JObj p) \<Rightarrow> map_of p k | _ \<Rightarrow> None)"

definition int_bound :: "dict \<Rightarrow> string \<Rightarrow> bool" where
  "int_bound s k = (case map_of s k of None \<Rightarrow> True | Some (JInt _) \<Rightarrow> True | _ \<Rightarrow> False)"

definition wf_keywords :: "dict \<Rightarrow> bool" where
  "wf_keywords s =
     ((case map_of s ''type'' of None \<Rightarrow> True | Some (JStr _) \<Rightarrow> True | _ \<Rightarrow> False)
      \<and> (case map_of s ''enum'' of None \<Rightarrow> True | Some (JList _) \<Rightarrow> True | _ \<Rightarrow> False)
      \<and> (case map_of s ''required'' of
           None \<Rightarrow> True | Some (JList rs) \<Rightarrow> list_all (\<lambda>r. r \<in> range JStr) rs | _ \<Rightarrow> False)
      \<and> (case map_of s ''properties'' of None \<Rightarrow> True | Some (JObj _) \<Rightarrow> True | _ \<Rightarrow> False)
      \<and> int_bound s ''minItems'' \<and> int_bound s ''maxItems'' \<and> int_bound s ''maxLength'')"

inductive wf_schema :: "json \<Rightarrow> bool" where
  wf_schema: "wf_keywords s \<Longrightarrow> (\<And>k p. property_of s k = Some p \<Longrightarrow> wf_schema p)
    \<Longrightarrow> (\<And>p. map_of s ''items'' = Some p \<Longrightarrow> wf_schema p) \<Longrightarrow> wf_schema (JObj s)"

definition type_ok :: "dict \<Rightarrow> json \<Rightarrow> bool" where
  "type_ok s v = (\<forall>t \<in> set type_names. dget s ''type'' = JStr t \<longrightarrow> has_type t v)"

definition enum_ok :: "dict \<Rightarrow> json \<Rightarrow> bool" where
  "enum_ok s v = (case map_of s ''enum'' of Some (JList ws) \<Rightarrow> list_ex (py_eq v) ws | _ \<Rightarrow> True)"

definition required_ok :: "dict \<Rightarrow> dict \<Rightarrow> bool" where
  "required_ok s d =
     (case map_of s ''required'' of Some (JList rs) \<Rightarrow> set rs \<subseteq> JStr ` fst ` set d | _ \<Rightarrow> True)"

definition closed_ok :: "dict \<Rightarrow> dict \<Rightarrow> bool" where
  "closed_ok s d =
     (dget s ''additionalProperties'' = JBool False \<longrightarrow> (\<forall>k \<in> fst ` set d. property_of s k \<noteq> None))"

definition at_least :: "dict \<Rightarrow> string \<Rightarrow> nat \<Rightarrow> bool" where
  "at_least s k n = (case map_of s k of Some (JInt l) \<Rightarrow> l \<le> int n | _ \<Rightarrow> True)"

definition at_most :: "dict \<Rightarrow> string \<Rightarrow> nat \<Rightarrow> bool" where
  "at_most s k n = (case map_of s k of Some (JInt h) \<Rightarrow> int n \<le> h | _ \<Rightarrow> True)"

inductive conforms :: "json \<Rightarrow> json \<Rightarrow> bool" where
  conforms_object: "type_ok s (JObj d) \<Longrightarrow> enum_ok s (JObj d)
    \<Longrightarrow> (dget s ''type'' = JStr ''object'' \<Longrightarrow> required_ok s d \<and> closed_ok s d)
    \<Longrightarrow> (\<And>k p. dget s ''type'' = JStr ''object'' \<Longrightarrow> k \<in> fst ` set d \<Longrightarrow> property_of s k = Some p
           \<Longrightarrow> conforms p (member d k))
    \<Longrightarrow> conforms (JObj s) (JObj d)"
| conforms_array: "type_ok s (JList xs) \<Longrightarrow> enum_ok s (JList xs)
    \<Longrightarrow> (dget s ''type'' = JStr ''array'' \<Longrightarrow> at_least s ''minItems'' (length xs) \<and> at_most s ''maxItems'' (length xs))
    \<Longrightarrow> (\<And>p x. dget s ''type'' = JStr ''array'' \<Longrightarrow> map_of s ''items'' = Some p \<Longrightarrow> x \<in> set xs \<Longrightarrow> conforms p x)
    \<Longrightarrow> conforms (JObj s) (JList xs)"
| conforms_string: "type_ok s (JStr t) \<Longrightarrow> enum_ok s (JStr t)
    \<Longrightarrow> (dget s ''type'' = JStr ''string'' \<Longrightarrow> at_most s ''maxLength'' (length t))
    \<Longrightarrow> conforms (JObj s) (JStr t)"
| conforms_scalar: "type_ok s v \<Longrightarrow> enum_ok s v \<Longrightarrow> v \<notin> range JObj \<Longrightarrow> v \<notin> range JList \<Longrightarrow> v \<notin> range JStr
    \<Longrightarrow> conforms (JObj s) v"

inductive_simps conforms_object_iff: "conforms (JObj s) (JObj d)"
inductive_simps conforms_array_iff: "conforms (JObj s) (JList xs)"
inductive_simps conforms_string_iff: "conforms (JObj s) (JStr t)"
inductive_cases wf_schemaE: "wf_schema p"

lemma econcat_ok:
  assumes "\<And>x. x \<in> set xs \<Longrightarrow> \<exists>ys. f x = Inr ys \<and> (ys = [] \<longleftrightarrow> P x)"
  shows "\<exists>zs. econcat f xs = Inr zs \<and> (zs = [] \<longleftrightarrow> (\<forall>x \<in> set xs. P x))"
  using assms
proof (induction xs)
  case (Cons x xs)
  obtain ys where "f x = Inr ys" "ys = [] \<longleftrightarrow> P x" using Cons.prems[of x] by auto
  moreover obtain zs where "econcat f xs = Inr zs" "zs = [] \<longleftrightarrow> (\<forall>x \<in> set xs. P x)"
    using Cons.IH Cons.prems by auto
  ultimately show ?case by simp
qed simp

lemma strings_of_all: "list_all (\<lambda>r. r \<in> range JStr) rs \<Longrightarrow> map JStr (strings_of rs) = rs"
  by (induction rs) auto

lemma strings_of_map: "strings_of (map JStr ns) = ns"
  by (induction ns) auto

lemma sorted_set_Nil_iff: "sorted_set xs = [] \<longleftrightarrow> xs = []"
  by (metis set_empty2 set_remdups set_sort sorted_set_def)

text \<open>The keywords of a well-formed schema, one by one.\<close>

lemma wf_type: "wf_keywords s \<Longrightarrow> hashable (dget s ''type'')"
  by (auto simp: wf_keywords_def dget_def dict_get_def split: option.split_asm json.split_asm)

lemma wf_enum:
  assumes "wf_keywords s"
  obtains "map_of s ''enum'' = None" | ws where "map_of s ''enum'' = Some (JList ws)"
proof -
  have "case map_of s ''enum'' of None \<Rightarrow> True | Some (JList _) \<Rightarrow> True | _ \<Rightarrow> False"
    using assms unfolding wf_keywords_def by blast
  then show thesis using that by (auto split: option.split_asm json.split_asm)
qed

lemma wf_required:
  assumes "wf_keywords s"
  obtains "map_of s ''required'' = None" | rs where "map_of s ''required'' = Some (JList (map JStr rs))"
proof -
  have "case map_of s ''required'' of
      None \<Rightarrow> True | Some (JList rs) \<Rightarrow> list_all (\<lambda>r. r \<in> range JStr) rs | _ \<Rightarrow> False"
    using assms unfolding wf_keywords_def by blast
  then show thesis using that strings_of_all[symmetric] by (auto split: option.split_asm json.split_asm)
qed

lemma wf_properties:
  assumes "wf_keywords s"
  obtains "map_of s ''properties'' = None" | p where "map_of s ''properties'' = Some (JObj p)"
proof -
  have "case map_of s ''properties'' of None \<Rightarrow> True | Some (JObj _) \<Rightarrow> True | _ \<Rightarrow> False"
    using assms unfolding wf_keywords_def by blast
  then show thesis using that by (auto split: option.split_asm json.split_asm)
qed

lemma wf_bounds:
  "wf_keywords s \<Longrightarrow> int_bound s ''minItems''" "wf_keywords s \<Longrightarrow> int_bound s ''maxItems''"
  "wf_keywords s \<Longrightarrow> int_bound s ''maxLength''"
  by (simp_all add: wf_keywords_def)

lemma int_boundE:
  assumes "int_bound s k"
  obtains "map_of s k = None" | i where "map_of s k = Some (JInt i)"
  using assms that by (auto simp: int_bound_def split: option.split_asm json.split_asm)

text \<open>Each check of the validator returns, and finds nothing exactly when its condition holds.\<close>

lemma enum_violations_ok:
  assumes "wf_keywords s"
  shows "\<exists>vs. enum_violations s v path = Inr vs \<and> (vs = [] \<longleftrightarrow> enum_ok s v)"
  using assms by (rule wf_enum) (simp_all add: enum_violations_def enum_ok_def)

lemma required_violations_ok:
  assumes "wf_keywords s"
  shows "\<exists>vs. required_violations s d path = Inr vs \<and> (vs = [] \<longleftrightarrow> required_ok s d)"
proof -
  have run: "required_violations s d path
      = Inr (map (\<lambda>k. path @ ''.'' @ k @ '': required'') (sorted_set (filter (\<lambda>k. k \<notin> fst ` set d) rs)))"
    if "dget_default s ''required'' (JList []) = JList (map JStr rs)" for rs
  proof -
    have "filter (\<lambda>r. r \<notin> JStr ` set (map fst d)) (map JStr rs) = map JStr (filter (\<lambda>k. k \<notin> fst ` set d) rs)"
      by (induction rs) auto
    moreover have "list_all hashable (map JStr rs)" by (induction rs) auto
    ultimately show ?thesis
      by (simp add: required_violations_def py_set_def that sorted_names_def strings_of_map)
  qed
  from assms show ?thesis
  proof (rule wf_required)
    assume "map_of s ''required'' = None"
    then show ?thesis using run[of "[]"] by (simp add: dget_default_def required_ok_def sorted_set_def)
  next
    fix rs assume rs: "map_of s ''required'' = Some (JList (map JStr rs))"
    have "(\<forall>k \<in> set rs. k \<in> fst ` set d) \<longleftrightarrow> required_ok s d" by (auto simp: required_ok_def rs)
    then show ?thesis
      using run[of rs] rs by (simp add: dget_default_def sorted_set_Nil_iff filter_empty_conv)
  qed
qed

lemma py_set_properties:
  assumes "wf_keywords s"
  shows "\<exists>ps. py_set (dget_default s ''properties'' (JObj [])) = Inr ps
    \<and> (\<forall>k. JStr k \<in> set ps \<longleftrightarrow> property_of s k \<noteq> None)"
proof -
  have hash: "list_all hashable (map (JStr \<circ> fst) p)" for p :: dict by (induction p) auto
  from assms show ?thesis
  proof (rule wf_properties)
    assume none: "map_of s ''properties'' = None"
    show ?thesis by (simp add: py_set_def dget_default_def property_of_def none)
  next
    fix p assume p: "map_of s ''properties'' = Some (JObj p)"
    have "JStr k \<in> set (map (JStr \<circ> fst) p) \<longleftrightarrow> map_of p k \<noteq> None" for k
      by (auto simp: map_of_eq_None_iff)
    then show ?thesis using hash[of p] by (simp add: py_set_def dget_default_def property_of_def p)
  qed
qed

lemma additional_violations_ok:
  assumes "wf_keywords s"
  shows "\<exists>vs. additional_violations s d path = Inr vs \<and> (vs = [] \<longleftrightarrow> closed_ok s d)"
proof -
  obtain ps where "py_set (dget_default s ''properties'' (JObj [])) = Inr ps"
    "\<And>k. JStr k \<in> set ps \<longleftrightarrow> property_of s k \<noteq> None"
    using py_set_properties[OF assms] by blast
  then show ?thesis
    by (simp add: additional_violations_def closed_ok_def sorted_set_Nil_iff filter_empty_conv)
qed

lemma few_ok: "int_bound s k \<Longrightarrow> int_lt (int n) (dget_default s k (JInt 0)) = Inr (\<not> at_least s k n)"
  by (erule int_boundE) (auto simp: dget_default_def at_least_def)

lemma many_ok:
  "int_bound s k \<Longrightarrow> (case map_of s k of None \<Rightarrow> Inr False | Some m \<Rightarrow> int_gt (int n) m) = Inr (\<not> at_most s k n)"
  by (erule int_boundE) (auto simp: at_most_def)

lemma length_violations_ok:
  assumes "wf_keywords s"
  shows "\<exists>vs. length_violations s n path = Inr vs
    \<and> (vs = [] \<longleftrightarrow> at_least s ''minItems'' n \<and> at_most s ''maxItems'' n)"
  using wf_bounds[OF assms] by (simp add: length_violations_def few_ok many_ok)

lemma text_violations_ok:
  assumes "wf_keywords s"
  shows "\<exists>vs. text_violations s t path = Inr vs \<and> (vs = [] \<longleftrightarrow> at_most s ''maxLength'' (length t))"
  using wf_bounds[OF assms] by (simp add: text_violations_def many_ok)

lemma conforms_type: "conforms (JObj s) v \<Longrightarrow> type_ok s v \<and> enum_ok s v"
  by (cases rule: conforms.cases) auto

text \<open>The parts of a value that is an object or an array, given what the recursive calls decide.\<close>

definition value_violations ::
  "(string list \<Rightarrow> string list) \<Rightarrow> dict \<Rightarrow> json \<Rightarrow> string \<Rightarrow> string list res" where
  "value_violations order s val path =
     (case val of
        JObj d \<Rightarrow>
          if dget s ''type'' \<noteq> JStr ''object'' then Inr []
          else
            ebind (required_violations s d path) (\<lambda>missing.
              ebind (additional_violations s d path) (\<lambda>extra.
                ebind (shared_keys order s d) (\<lambda>ks.
                  ebind (econcat (\<lambda>k. ebind (property_schema s k) (\<lambda>p.
                           validate order p (member d k) (path @ ''.'' @ k))) ks) (\<lambda>inner.
                    Inr (missing @ extra @ inner)))))
      | JList xs \<Rightarrow>
          if dget s ''type'' \<noteq> JStr ''array'' then Inr []
          else
            ebind (length_violations s (length xs) path) (\<lambda>bounds.
              ebind
                (case map_of s ''items'' of
                   None \<Rightarrow> Inr []
                 | Some item_schema \<Rightarrow>
                     econcat (\<lambda>(i, item). validate order item_schema item
                                (path @ ''['' @ nat_str i @ '']'')) (enumerate 0 xs)) (\<lambda>inner.
                Inr (bounds @ inner)))
      | JStr t \<Rightarrow> if dget s ''type'' \<noteq> JStr ''string'' then Inr [] else text_violations s t path
      | _ \<Rightarrow> Inr [])"

lemma validate_step:
  assumes "wf_keywords s"
  shows "validate order (JObj s) val path =
    (if \<not> type_ok s val then Inr [path @ '': expected '' @ py_str (dget s ''type'')]
     else ebind (enum_violations s val path) (\<lambda>v1. ebind (value_violations order s val path) (\<lambda>v2. Inr (v1 @ v2))))"
proof -
  have "(\<exists>t \<in> set type_names. dget s ''type'' = JStr t \<and> \<not> has_type t val) \<longleftrightarrow> \<not> type_ok s val"
    by (auto simp: type_ok_def)
  then show ?thesis
    using wf_type[OF assms] by (subst validate.simps) (simp add: Let_def value_violations_def cong: json.case_cong)
qed

lemma object_violations_ok:
  assumes order: "\<And>xs. set (order xs) = set xs" and wf: "wf_keywords s"
    and sub: "\<And>k p path. k \<in> fst ` set d \<Longrightarrow> property_of s k = Some p
      \<Longrightarrow> \<exists>vs. validate order p (member d k) path = Inr vs \<and> (vs = [] \<longleftrightarrow> conforms p (member d k))"
    and t: "dget s ''type'' = JStr ''object''"
  shows "\<exists>vs. value_violations order s (JObj d) path = Inr vs \<and> (vs = [] \<longleftrightarrow> required_ok s d \<and> closed_ok s d
    \<and> (\<forall>k p. k \<in> fst ` set d \<longrightarrow> property_of s k = Some p \<longrightarrow> conforms p (member d k)))"
proof -
  obtain ps where ps: "py_set (dget_default s ''properties'' (JObj [])) = Inr ps"
    "\<And>k. JStr k \<in> set ps \<longleftrightarrow> property_of s k \<noteq> None"
    using py_set_properties[OF wf] by blast
  define ks where "ks = order (filter (\<lambda>k. JStr k \<in> set ps) (map fst d))"
  have shared: "shared_keys order s d = Inr ks" by (simp add: shared_keys_def ps(1) ks_def)
  have ks: "k \<in> set ks \<longleftrightarrow> k \<in> fst ` set d \<and> property_of s k \<noteq> None" for k
    by (auto simp: ks_def order ps(2))
  let ?P = "\<lambda>k. \<forall>p. property_of s k = Some p \<longrightarrow> conforms p (member d k)"
  have each: "\<exists>vs. ebind (property_schema s k) (\<lambda>p. validate order p (member d k) (path @ ''.'' @ k)) = Inr vs
      \<and> (vs = [] \<longleftrightarrow> ?P k)" if "k \<in> set ks" for k
  proof -
    obtain p where p: "k \<in> fst ` set d" "property_of s k = Some p" using \<open>k \<in> set ks\<close> ks by auto
    then have "property_schema s k = Inr p"
      by (auto simp: property_of_def property_schema_def dget_default_def member_def split: option.split_asm json.split_asm)
    then show ?thesis using sub[OF p, of "path @ ''.'' @ k"] p(2) by simp
  qed
  obtain inner where inner: "econcat (\<lambda>k. ebind (property_schema s k) (\<lambda>p.
        validate order p (member d k) (path @ ''.'' @ k))) ks = Inr inner" "inner = [] \<longleftrightarrow> (\<forall>k \<in> set ks. ?P k)"
    using econcat_ok[of ks _ ?P, OF each] by blast
  have all: "(\<forall>k \<in> set ks. ?P k) \<longleftrightarrow> (\<forall>k p. k \<in> fst ` set d \<longrightarrow> property_of s k = Some p \<longrightarrow> conforms p (member d k))"
    using ks by auto
  obtain missing where "required_violations s d path = Inr missing" "missing = [] \<longleftrightarrow> required_ok s d"
    using required_violations_ok[OF wf] by blast
  moreover obtain extra where "additional_violations s d path = Inr extra" "extra = [] \<longleftrightarrow> closed_ok s d"
    using additional_violations_ok[OF wf] by blast
  ultimately show ?thesis
    using inner(1) inner(2)[unfolded all] by (simp add: value_violations_def t shared)
qed

lemma array_violations_ok:
  assumes wf: "wf_keywords s"
    and sub: "\<And>p x path. map_of s ''items'' = Some p \<Longrightarrow> x \<in> set xs
      \<Longrightarrow> \<exists>vs. validate order p x path = Inr vs \<and> (vs = [] \<longleftrightarrow> conforms p x)"
    and t: "dget s ''type'' = JStr ''array''"
  shows "\<exists>vs. value_violations order s (JList xs) path = Inr vs \<and> (vs = [] \<longleftrightarrow>
    (at_least s ''minItems'' (length xs) \<and> at_most s ''maxItems'' (length xs))
    \<and> (\<forall>p x. map_of s ''items'' = Some p \<longrightarrow> x \<in> set xs \<longrightarrow> conforms p x))"
proof (cases "map_of s ''items''")
  case None
  then show ?thesis
    using length_violations_ok[OF wf, of "length xs" path] by (auto simp: value_violations_def t)
next
  case (Some p)
  have each: "\<exists>vs. (case ix of (i, item) \<Rightarrow> validate order p item (path @ ''['' @ nat_str i @ '']'')) = Inr vs
      \<and> (vs = [] \<longleftrightarrow> conforms p (snd ix))" if "ix \<in> set (enumerate 0 xs)" for ix
    using sub[OF Some, of "snd ix"] that by (cases ix) (auto simp: in_set_enumerate_eq)
  obtain inner where inner: "econcat (\<lambda>(i, item). validate order p item (path @ ''['' @ nat_str i @ '']''))
        (enumerate 0 xs) = Inr inner" "inner = [] \<longleftrightarrow> (\<forall>ix \<in> set (enumerate 0 xs). conforms p (snd ix))"
    using econcat_ok[of "enumerate 0 xs" _ "\<lambda>ix. conforms p (snd ix)", OF each] by blast
  moreover have "(\<forall>ix \<in> set (enumerate 0 xs). conforms p (snd ix)) \<longleftrightarrow> (\<forall>x \<in> set xs. conforms p x)"
    by (metis (no_types, lifting) imageE image_eqI list.set_map map_snd_enumerate)
  ultimately show ?thesis
    using length_violations_ok[OF wf, of "length xs" path] by (auto simp: value_violations_def t Some)
qed

lemma value_violations_ok:
  assumes order: "\<And>xs. set (order xs) = set xs" and wf: "wf_keywords s" and ok: "type_ok s val"
    and sub: "\<And>k p d path. val = JObj d \<Longrightarrow> k \<in> fst ` set d \<Longrightarrow> property_of s k = Some p
      \<Longrightarrow> \<exists>vs. validate order p (member d k) path = Inr vs \<and> (vs = [] \<longleftrightarrow> conforms p (member d k))"
    "\<And>p xs x path. val = JList xs \<Longrightarrow> map_of s ''items'' = Some p \<Longrightarrow> x \<in> set xs
      \<Longrightarrow> \<exists>vs. validate order p x path = Inr vs \<and> (vs = [] \<longleftrightarrow> conforms p x)"
  shows "\<exists>vs. value_violations order s val path = Inr vs
    \<and> (enum_ok s val \<and> vs = [] \<longleftrightarrow> conforms (JObj s) val)"
proof (cases val)
  case (JObj d)
  show ?thesis
  proof (cases "dget s ''type'' = JStr ''object''")
    case True
    have "\<exists>vs. value_violations order s (JObj d) path = Inr vs \<and> (vs = [] \<longleftrightarrow> required_ok s d \<and> closed_ok s d
        \<and> (\<forall>k p. k \<in> fst ` set d \<longrightarrow> property_of s k = Some p \<longrightarrow> conforms p (member d k)))"
      by (rule object_violations_ok[OF order wf sub(1)[OF JObj] True])
    then show ?thesis using ok JObj True by (auto simp: conforms_object_iff)
  next
    case False
    then show ?thesis using ok JObj by (simp add: value_violations_def conforms_object_iff)
  qed
next
  case (JList xs)
  show ?thesis
  proof (cases "dget s ''type'' = JStr ''array''")
    case True
    have "\<exists>vs. value_violations order s (JList xs) path = Inr vs \<and> (vs = [] \<longleftrightarrow>
        (at_least s ''minItems'' (length xs) \<and> at_most s ''maxItems'' (length xs))
        \<and> (\<forall>p x. map_of s ''items'' = Some p \<longrightarrow> x \<in> set xs \<longrightarrow> conforms p x))"
      by (rule array_violations_ok[OF wf sub(2)[OF JList] True])
    then show ?thesis using ok JList True by (auto simp: conforms_array_iff)
  next
    case False
    then show ?thesis using ok JList by (simp add: value_violations_def conforms_array_iff)
  qed
next
  case (JStr t)
  then show ?thesis
    using text_violations_ok[OF wf, of t path] ok by (auto simp: value_violations_def conforms_string_iff)
qed (use ok in \<open>auto simp: value_violations_def intro: conforms_scalar dest: conforms_type\<close>)

lemma validate_ok:
  assumes order: "\<And>xs. set (order xs) = set xs"
  shows "wf_schema schema \<Longrightarrow> \<exists>vs. validate order schema val path = Inr vs \<and> (vs = [] \<longleftrightarrow> conforms schema val)"
proof (induction val arbitrary: schema path rule: measure_induct_rule[of size])
  case (less val)
  obtain s where s: "schema = JObj s" and wf: "wf_keywords s"
    and sub: "\<And>k p. property_of s k = Some p \<Longrightarrow> wf_schema p" "\<And>p. map_of s ''items'' = Some p \<Longrightarrow> wf_schema p"
    using less.prems by (auto elim: wf_schemaE)
  note step = validate_step[OF wf, of order val path]
  show ?case
  proof (cases "type_ok s val")
    case False
    then show ?thesis using step conforms_type s by auto
  next
    case True
    have parts: "size (member d k) < size val" if "val = JObj d" for d k
      using size_member[of d k] that by simp
    have items: "size x < size val" if "val = JList xs" "x \<in> set xs" for x xs
      using size_item[OF that(2)] that(1) by simp
    have "\<exists>vs. value_violations order s val path = Inr vs
        \<and> (enum_ok s val \<and> vs = [] \<longleftrightarrow> conforms (JObj s) val)"
    proof (rule value_violations_ok[OF order wf True])
      fix k p d path assume "val = JObj d" "k \<in> fst ` set d" "property_of s k = Some p"
      then show "\<exists>vs. validate order p (member d k) path = Inr vs \<and> (vs = [] \<longleftrightarrow> conforms p (member d k))"
        using less.IH[OF parts sub(1)] by blast
    next
      fix p xs x path assume "val = JList xs" "map_of s ''items'' = Some p" "x \<in> set xs"
      then show "\<exists>vs. validate order p x path = Inr vs \<and> (vs = [] \<longleftrightarrow> conforms p x)"
        using less.IH[OF items sub(2)] by blast
    qed
    then show ?thesis
      using enum_violations_ok[OF wf, of val path] True by (auto simp: s step)
  qed
qed

text \<open>
  Validation of model outputs (C20): on a well-formed schema the validator returns, and it finds no
  violation exactly when the output conforms, in whatever order sets are visited.
\<close>

theorem validate_iff_conforms:
  assumes "wf_schema schema" and "\<And>xs. set (order xs) = set xs"
  shows "\<exists>vs. validate order schema val path = Inr vs \<and> (vs = [] \<longleftrightarrow> conforms schema val)"
  using assms by (intro validate_ok)

section \<open>The promotion invariant\<close>

text \<open>
  Approved and active bundles have the evidence they were promoted on, and at most one bundle of a
  key is active. Every bundle keeps its outputs to data and its schemas closed.
\<close>

definition reviewed :: "rdb \<Rightarrow> prompt_policy_bundle \<Rightarrow> bool" where
  "reviewed d b \<longleftrightarrow>
     evidence_complete (bundle_evaluations (bd_id b) d)
     \<and> list_ex (\<lambda>v. vl_evaluated_by v \<noteq> bd_created_by b) (bundle_evaluations (bd_id b) d)"

definition data_only_bundle :: "prompt_policy_bundle \<Rightarrow> bool" where
  "data_only_bundle b \<longleftrightarrow>
     dget (bd_policy b) ''output_authority'' = JStr ''data_only''
     \<and> dget (bd_output_schema b) ''type'' = JStr ''object''
     \<and> dget (bd_output_schema b) ''additionalProperties'' = JBool False"

definition one_active_bundle :: "prompt_policy_bundle list \<Rightarrow> bool" where
  "one_active_bundle bs \<longleftrightarrow>
     (\<forall>x \<in> set bs. \<forall>y \<in> set bs. bd_status x = ''active'' \<longrightarrow> bd_status y = ''active''
        \<longrightarrow> bd_bundle_key x = bd_bundle_key y \<longrightarrow> x = y)"

definition policy_ok :: "rdb \<Rightarrow> bool" where
  "policy_ok d \<longleftrightarrow>
     distinct (map bd_id (bundles d)) \<and> list_all (\<lambda>b. bd_id b < rdb_next_uuid d) (bundles d)
     \<and> one_active_bundle (bundles d) \<and> list_all data_only_bundle (bundles d)
     \<and> list_all (\<lambda>b. bd_status b \<in> {''approved'', ''active''} \<longrightarrow> reviewed d b) (bundles d)"

lemma append_policy_event_frame [frame]:
  "bundles (append_policy_event now i k a p d) = bundles d"
  "evaluations (append_policy_event now i k a p d) = evaluations d"
  "programs (append_policy_event now i k a p d) = programs d"
  "symbolic_runs (append_policy_event now i k a p d) = symbolic_runs d"
  "symbolic_candidates (append_policy_event now i k a p d) = symbolic_candidates d"
  "rdb_next_uuid (append_policy_event now i k a p d) = rdb_next_uuid d"
  by (simp_all add: append_policy_event_def Let_def)

lemma upd_bundle_frame [frame]:
  "bundles (upd_bundle i f d) = upd_row bd_id i f (bundles d)"
  "evaluations (upd_bundle i f d) = evaluations d"
  "programs (upd_bundle i f d) = programs d"
  "symbolic_runs (upd_bundle i f d) = symbolic_runs d"
  "symbolic_candidates (upd_bundle i f d) = symbolic_candidates d"
  "rdb_next_uuid (upd_bundle i f d) = rdb_next_uuid d"
  "policy_events (upd_bundle i f d) = policy_events d"
  by (simp_all add: upd_bundle_def)

definition retired_row :: "time \<Rightarrow> uuid set \<Rightarrow> prompt_policy_bundle \<Rightarrow> prompt_policy_bundle" where
  "retired_row now js x = (if bd_id x \<in> js then x\<lparr>bd_status := ''retired'', bd_retired_at := Some now\<rparr> else x)"

lemma retired_row_none: "map (retired_row now {}) bs = bs"
  by (simp add: retired_row_def map_idI)

lemma fold_retire_frame:
  "bundles (foldl (\<lambda>d x. retire_prior now actor dig x d) d ps) = map (retired_row now (bd_id ` set ps)) (bundles d)
   \<and> evaluations (foldl (\<lambda>d x. retire_prior now actor dig x d) d ps) = evaluations d
   \<and> programs (foldl (\<lambda>d x. retire_prior now actor dig x d) d ps) = programs d
   \<and> symbolic_runs (foldl (\<lambda>d x. retire_prior now actor dig x d) d ps) = symbolic_runs d
   \<and> symbolic_candidates (foldl (\<lambda>d x. retire_prior now actor dig x d) d ps) = symbolic_candidates d
   \<and> rdb_next_uuid (foldl (\<lambda>d x. retire_prior now actor dig x d) d ps) = rdb_next_uuid d"
proof (induction ps arbitrary: d)
  case Nil
  then show ?case by (simp add: retired_row_def)
next
  case (Cons p ps)
  have "map (retired_row now (bd_id ` set ps)) (bundles (retire_prior now actor dig p d))
    = map (retired_row now (bd_id ` set (p # ps))) (bundles d)"
    by (auto simp: retire_prior_def frame upd_row_def retired_row_def)
  then show ?case using Cons.IH[of "retire_prior now actor dig p d"] by (simp add: retire_prior_def frame)
qed

lemma promotion_checks_Inr:
  "promotion_checks b actor target d = Inr () \<longleftrightarrow>
     allowed_promotion (bd_status b) target
     \<and> (target \<in> {''approved'', ''active''} \<longrightarrow> reviewed d b \<and> actor \<noteq> bd_created_by b)"
  by (auto simp: promotion_checks_def Let_def reviewed_def)

definition promoted_row ::
  "time \<Rightarrow> uuid \<Rightarrow> string \<Rightarrow> uuid set \<Rightarrow> prompt_policy_bundle \<Rightarrow> prompt_policy_bundle" where
  "promoted_row now i target js x =
     (let y = retired_row now js x
      in if bd_id x = i
         then y\<lparr>bd_status := target,
                bd_activated_at := (if target = ''active'' then Some now else bd_activated_at y),
                bd_retired_at := (if target = ''retired'' then Some now else bd_retired_at y)\<rparr>
         else y)"

lemma promoted_row_keeps:
  "bd_id (promoted_row now i target js x) = bd_id x"
  "bd_bundle_key (promoted_row now i target js x) = bd_bundle_key x"
  "bd_created_by (promoted_row now i target js x) = bd_created_by x"
  "bd_policy (promoted_row now i target js x) = bd_policy x"
  "bd_output_schema (promoted_row now i target js x) = bd_output_schema x"
  "bd_status (promoted_row now i target js x) =
     (if bd_id x = i then target else if bd_id x \<in> js then ''retired'' else bd_status x)"
  by (simp_all add: promoted_row_def retired_row_def Let_def)

lemma promote_Inr:
  assumes "promote now b actor target reason d = Inr d'"
  shows "promotion_checks b actor target d = Inr ()
    \<and> bundles d' = map (promoted_row now (bd_id b) target
        (if target = ''active'' then bd_id ` set (active_priors b d) else {})) (bundles d)
    \<and> evaluations d' = evaluations d \<and> programs d' = programs d \<and> symbolic_runs d' = symbolic_runs d
    \<and> symbolic_candidates d' = symbolic_candidates d \<and> rdb_next_uuid d' = rdb_next_uuid d"
proof -
  define d1 where "d1 = (if target = ''active''
    then foldl (\<lambda>d x. retire_prior now actor (bd_bundle_digest b) x d) d (active_priors b d) else d)"
  define js where "js = (if target = ''active'' then bd_id ` set (active_priors b d) else {})"
  define f where "f x = x\<lparr>bd_status := target,
      bd_activated_at := (if target = ''active'' then Some now else bd_activated_at x),
      bd_retired_at := (if target = ''retired'' then Some now else bd_retired_at x)\<rparr>" for x :: prompt_policy_bundle
  have d1: "bundles d1 = map (retired_row now js) (bundles d)" "evaluations d1 = evaluations d"
    "programs d1 = programs d" "symbolic_runs d1 = symbolic_runs d"
    "symbolic_candidates d1 = symbolic_candidates d" "rdb_next_uuid d1 = rdb_next_uuid d"
    using fold_retire_frame[of now actor "bd_bundle_digest b" d "active_priors b d"]
    by (simp_all add: d1_def js_def retired_row_none)
  have row: "(if bd_id (retired_row now js x) = bd_id b then f (retired_row now js x) else retired_row now js x)
      = promoted_row now (bd_id b) target js x" for x
    by (simp add: promoted_row_def f_def retired_row_def Let_def)
  have run: "promotion_checks b actor target d = Inr ()" "d' = append_policy_event now (bd_id b) ''bundle_promoted'' actor
      (JObj [(''from'', JStr (bd_status b)), (''to'', JStr target), (''reason'', JStr reason)]) (upd_bundle (bd_id b) f d1)"
    using assms unfolding promote_def Let_def ebind_Inr_iff d1_def[symmetric] f_def by auto
  then show ?thesis unfolding js_def[symmetric] by (simp add: frame d1 upd_row_def row)
qed

lemma bundle_evaluations_grow:
  "evaluations d' = evaluations d @ vs \<Longrightarrow> reviewed d b \<Longrightarrow> reviewed d' b"
  by (auto simp: reviewed_def bundle_evaluations_def evidence_complete_def passed_categories_def)

lemma policy_ok_cong:
  "bundles d' = bundles d \<Longrightarrow> evaluations d' = evaluations d \<Longrightarrow> rdb_next_uuid d \<le> rdb_next_uuid d'
     \<Longrightarrow> policy_ok d \<Longrightarrow> policy_ok d'"
  by (auto simp: policy_ok_def list_all_iff reviewed_def bundle_evaluations_def)

lemma create_policy_bundle_Inr:
  assumes "create_policy_bundle now p d = Inr (b, d')"
  shows "validate_contract p = Inr () \<and> b = new_bundle now p d \<and> bundles d' = bundles d @ [b]
    \<and> evaluations d' = evaluations d \<and> rdb_next_uuid d' = Suc (rdb_next_uuid d)"
proof -
  from assms have "valid_bundle_create p = Inr ()" "create_bundle now p d = Inr (b, d')"
    by (auto simp: create_policy_bundle_def ebind_Inr_iff)
  then show ?thesis
    by (auto simp: create_bundle_def Let_def frame valid_bundle_create_def split: if_split_asm)
qed

lemma run_evaluation_Inr:
  assumes "run_evaluation order now i q d = Inr (v, d')"
  shows "\<exists>b found. b \<in> set (bundles d) \<and> bd_id b = i \<and> output_violations order b (pe_model_output q) = Inr found
    \<and> v = new_evaluation now b q found d \<and> evaluations d' = evaluations d @ [v] \<and> bundles d' = bundles d
    \<and> rdb_next_uuid d' = Suc (rdb_next_uuid d)"
proof -
  from assms obtain b where b: "get_row bd_id (bundles d) i = Some b" "evaluate order now b q d = Inr (v, d')"
    by (auto simp: run_evaluation_def locked_bundle_def ebind_Inr_iff split: if_split_asm option.split_asm)
  then show ?thesis
    by (auto simp: evaluate_def Let_def ebind_Inr_iff frame dest!: get_row_Some_in split: if_split_asm)
qed

lemma policy_ok_create:
  assumes "create_policy_bundle now p d = Inr (b, d')" and ok: "policy_ok d"
  shows "policy_ok d'"
proof -
  note r = create_policy_bundle_Inr[OF assms(1)]
  have "bd_id b = rdb_next_uuid d" "bd_status b = ''draft''" "data_only_bundle b"
    using r by (auto simp: new_bundle_def data_only_bundle_def validate_contract_def split: if_split_asm)
  then show ?thesis
    using ok r bundle_evaluations_grow[of d' d "[]"]
    by (auto simp: policy_ok_def list_all_iff one_active_bundle_def less_Suc_eq)
qed

lemma policy_ok_evaluate:
  assumes "run_evaluation order now i q d = Inr (v, d')" and ok: "policy_ok d"
  shows "policy_ok d'"
  using run_evaluation_Inr[OF assms(1)] ok bundle_evaluations_grow[of d' d "[v]"]
  by (auto simp: policy_ok_def list_all_iff less_Suc_eq)

lemma one_active_bundle_promote:
  assumes ok: "one_active_bundle bs" "distinct (map bd_id bs)" and b: "b \<in> set bs"
    and js: "js = (if target = ''active''
      then bd_id ` {x \<in> set bs. bd_bundle_key x = bd_bundle_key b \<and> bd_status x = ''active'' \<and> bd_id x \<noteq> bd_id b} else {})"
  shows "one_active_bundle (map (promoted_row now (bd_id b) target js) bs)"
proof -
  have inj: "x = y" if "x \<in> set bs" "y \<in> set bs" "bd_id x = bd_id y" for x y
    using ok(2) that by (simp add: distinct_map inj_on_def)
  have "x = y" if xy: "x \<in> set bs" "y \<in> set bs" and key: "bd_bundle_key x = bd_bundle_key y"
    and act: "bd_status (promoted_row now (bd_id b) target js x) = ''active''"
      "bd_status (promoted_row now (bd_id b) target js y) = ''active''" for x y
  proof (rule ccontr)
    assume ne: "x \<noteq> y"
    have other: False if "u \<in> set bs" "u \<noteq> b" "bd_bundle_key u = bd_bundle_key b" "target = ''active''"
      "bd_status (promoted_row now (bd_id b) target js u) = ''active''" for u
      using that inj[of u b] b js by (auto simp: promoted_row_keeps split: if_split_asm)
    consider "x = b" | "y = b" | "x \<noteq> b" "y \<noteq> b" by blast
    then show False
    proof cases
      case 1
      then show ?thesis using other[of y] ne xy key act by (auto simp: promoted_row_keeps)
    next
      case 2
      then show ?thesis using other[of x] ne xy key act by (auto simp: promoted_row_keeps)
    next
      case 3
      then have "bd_status x = ''active''" "bd_status y = ''active''"
        using act inj[of x b] inj[of y b] xy b by (auto simp: promoted_row_keeps split: if_split_asm)
      then show ?thesis using ok(1) xy key ne by (auto simp: one_active_bundle_def)
    qed
  qed
  then show ?thesis
    unfolding one_active_bundle_def by (auto simp: promoted_row_keeps(2))
qed

lemma policy_ok_promote:
  assumes "promote_bundle now i target actor reason d = Inr d'" and ok: "policy_ok d"
  shows "policy_ok d'"
proof -
  from assms(1) obtain b where g: "get_row bd_id (bundles d) i = Some b" and p: "promote now b actor target reason d = Inr d'"
    by (auto simp: promote_bundle_def locked_bundle_def ebind_Inr_iff split: if_split_asm option.split_asm)
  have b: "b \<in> set (bundles d)" using get_row_Some_in[OF g] by simp
  define js where "js = (if target = ''active'' then bd_id ` set (active_priors b d) else {})"
  have rows: "bundles d' = map (promoted_row now (bd_id b) target js) (bundles d)"
    and evs: "evaluations d' = evaluations d" and next_id: "rdb_next_uuid d' = rdb_next_uuid d"
    and checks: "target \<in> {''approved'', ''active''} \<longrightarrow> reviewed d b"
    using promote_Inr[OF p] by (auto simp: js_def promotion_checks_Inr)
  have same: "reviewed d' (promoted_row now (bd_id b) target js x) = reviewed d x" for x
    by (simp add: reviewed_def bundle_evaluations_def promoted_row_keeps evs)
  have "one_active_bundle (bundles d')"
    unfolding rows using ok b
    by (intro one_active_bundle_promote) (auto simp: policy_ok_def js_def active_priors_def)
  moreover have "reviewed d x" if "x \<in> set (bundles d)"
    "bd_status (promoted_row now (bd_id b) target js x) \<in> {''approved'', ''active''}" for x
  proof (cases "bd_id x = bd_id b")
    case True
    then have "x = b" using ok b that(1) by (auto simp: policy_ok_def distinct_map inj_on_def)
    then show ?thesis using checks that(2) by (auto simp: promoted_row_keeps)
  next
    case False
    then show ?thesis
      using ok that by (auto simp: policy_ok_def list_all_iff promoted_row_keeps split: if_split_asm)
  qed
  ultimately show ?thesis
    using ok
    by (auto simp: policy_ok_def rows next_id list_all_iff same comp_def promoted_row_keeps data_only_bundle_def)
qed

lemma policy_ok_step: "policy_step order d d' \<Longrightarrow> policy_ok d \<Longrightarrow> policy_ok d'"
  by (induction rule: policy_step.induct) (blast intro: policy_ok_create policy_ok_evaluate policy_ok_promote)+

section \<open>The log\<close>

lemma policy_chain_cong:
  "policy_events d' = policy_events d \<Longrightarrow> policy_log.chain_ok i d' = policy_log.chain_ok i d"
  by (simp add: policy_log.chain_ok_def policy_log.chain_of_def)

lemma policy_chain_append: "policy_log.chain_ok i d \<Longrightarrow> policy_log.chain_ok i (append_policy_event now j kind actor p d)"
  using policy_log.append_chain_ok[of i d "(now, j, kind, actor, p)"] by simp

lemma policy_chain_retire: "policy_log.chain_ok i d \<Longrightarrow> policy_log.chain_ok i (retire_prior now actor dig x d)"
  unfolding retire_prior_def by (rule policy_chain_append) (simp add: policy_chain_cong[of "upd_bundle _ _ d" d] frame)

lemma policy_chain_fold:
  "policy_log.chain_ok i d \<Longrightarrow> policy_log.chain_ok i (foldl (\<lambda>d x. retire_prior now actor dig x d) d ps)"
  by (induction ps arbitrary: d) (simp_all add: policy_chain_retire)

lemma policy_chain_step:
  assumes "policy_step order d d'" and ok: "policy_log.chain_ok i d"
  shows "policy_log.chain_ok i d'"
  using assms(1)
proof cases
  case (policy_create now p b)
  then have "create_bundle now p d = Inr (b, d')" by (auto simp: create_policy_bundle_def ebind_Inr_iff)
  then show ?thesis
    using ok policy_chain_cong[of "d\<lparr>bundles := bundles d @ [new_bundle now p d], rdb_next_uuid := Suc (rdb_next_uuid d)\<rparr>" d]
    by (auto simp: create_bundle_def Let_def intro!: policy_chain_append split: if_split_asm)
next
  case (policy_evaluate now j q v)
  then obtain b where "evaluate order now b q d = Inr (v, d')"
    by (auto simp: run_evaluation_def ebind_Inr_iff split: if_split_asm)
  then show ?thesis
    using ok policy_chain_cong[of "d\<lparr>evaluations := evaluations d @ [v], rdb_next_uuid := Suc (rdb_next_uuid d)\<rparr>" d]
    by (auto simp: evaluate_def Let_def ebind_Inr_iff intro!: policy_chain_append split: if_split_asm)
next
  case (policy_promote now j target actor reason)
  then obtain b where "promote now b actor target reason d = Inr d'"
    by (auto simp: promote_bundle_def ebind_Inr_iff split: if_split_asm)
  then obtain f d1 where d': "d' = append_policy_event now (bd_id b) ''bundle_promoted'' actor
      (JObj [(''from'', JStr (bd_status b)), (''to'', JStr target), (''reason'', JStr reason)]) (upd_bundle (bd_id b) f d1)"
    and d1: "d1 = (if target = ''active''
      then foldl (\<lambda>d x. retire_prior now actor (bd_bundle_digest b) x d) d (active_priors b d) else d)"
    unfolding promote_def Let_def ebind_Inr_iff by blast
  have "policy_log.chain_ok i d1" using ok by (simp add: d1 policy_chain_fold)
  then show ?thesis
    unfolding d' by (intro policy_chain_append) (simp add: policy_chain_cong[of "upd_bundle _ _ d1" d1] frame)
qed

section \<open>A second evaluation with the same outcome\<close>

lemma new_evaluation_receipt:
  "pe_category q' = pe_category q \<Longrightarrow>
     vl_receipt_digest (new_evaluation now' b q' found d') = vl_receipt_digest (new_evaluation now b q found d)"
  by (simp add: new_evaluation_def Let_def)

text \<open>
  Repeated outcomes: once an evaluation of a bundle is recorded, a further one of the same
  category with the same violations is refused as if its fixture had been recorded, whatever the
  fixture and the evaluator: the receipt, whose digest is unique, names neither of them.
\<close>

theorem repeated_outcome_refused:
  assumes "run_evaluation order now i q d = Inr (v, d')" and "get_row bd_id (bundles d) i = Some b"
    and "valid_evaluation_create q'" and "pe_category q' = pe_category q"
    and "output_violations order b (pe_model_output q') = output_violations order b (pe_model_output q)"
  shows "run_evaluation order now' i q' d' = http 409 ''This exact evaluation fixture was already recorded.''"
proof -
  have "evaluate order now b q d = Inr (v, d')"
    using assms(1,2) by (auto simp: run_evaluation_def locked_bundle_def ebind_Inr_iff split: if_split_asm)
  then obtain found where found: "output_violations order b (pe_model_output q) = Inr found"
    and v: "v = new_evaluation now b q found d" and evs: "evaluations d' = evaluations d @ [v]"
    and same: "bundles d' = bundles d"
    by (auto simp: evaluate_def Let_def ebind_Inr_iff frame split: if_split_asm)
  have "vl_receipt_digest v = vl_receipt_digest (new_evaluation now' b q' found d')"
    unfolding v by (rule new_evaluation_receipt[OF assms(4), symmetric])
  then have "evaluate order now' b q' d' = Inl IntegrityError"
    using assms(5) found by (simp add: evaluate_def Let_def evs)
  then show ?thesis
    using assms(2,3) by (simp add: run_evaluation_def locked_bundle_def same on_integrity_def)
qed

end
