(* ===== verification/SymbolicSearch.thy ===== *)
theory SymbolicSearch
  imports FactorLanguage PromptPolicy
begin

text \<open>
  Symbolic search (\<open>services/symbolic_search.py\<close>, \<open>schemas/symbolic_search.py\<close>,
  \<open>api/routes/symbolic_search.py\<close>): a run fixes a grammar, a budget and the base program; a
  generator proposes expressions, each is checked, compiled, normalised and compared with what is
  known, and recorded as accepted, duplicate or rejected.
\<close>

section \<open>The schema\<close>

definition ALLOWED_OPERATORS :: "string list" where
  "ALLOWED_OPERATORS = [''field'', ''constant'', ''parameter'', ''lag'', ''rolling_mean'', ''abs'', ''log'', ''negate'',
     ''add'', ''subtract'', ''multiply'', ''divide'', ''greater'', ''less'', ''and'', ''or'']"

text \<open>The model validator \<open>grammar\<close>.\<close>

definition valid_grammar :: "symbolic_constraints \<Rightarrow> unit res" where
  "valid_grammar c =
     (if \<not> distinct (ss_allowed_operators c) then Inl (ValueError ''allowed operators must be unique'')
      else if \<not> set (ss_allowed_operators c) \<subseteq> set ALLOWED_OPERATORS
      then Inl (ValueError ''grammar contains an unsupported operator'')
      else if ''field'' \<notin> set (ss_allowed_operators c)
      then Inl (ValueError ''grammar must permit field terminals'')
      else if \<not> distinct (ss_required_fields c) then Inl (ValueError ''required fields must be unique'')
      else Inr ())"

definition valid_constraints :: "symbolic_constraints \<Rightarrow> unit res" where
  "valid_constraints c =
     (if 1 \<le> ss_maximum_candidates c \<and> ss_maximum_candidates c \<le> 10000
         \<and> 1 \<le> ss_maximum_nodes c \<and> ss_maximum_nodes c \<le> 1000
         \<and> 1 \<le> ss_maximum_depth c \<and> ss_maximum_depth c \<le> 32
         \<and> 0 \<le> ss_maximum_constants c \<and> ss_maximum_constants c \<le> 100
         \<and> ss_allowed_operators c \<noteq> [] \<and> length (ss_allowed_operators c) \<le> 20
         \<and> length (ss_required_fields c) \<le> 100
      then valid_grammar c
      else Inl (ValueError ''request''))"

definition valid_search_create :: "symbolic_search_create \<Rightarrow> unit res" where
  "valid_search_create p =
     (if text_between 3 180 (sq_run_key p) \<and> text_between 3 150 (sq_generated_by p)
      then valid_constraints (sq_constraints p)
      else Inl (ValueError ''request''))"

definition valid_generator :: "generator_identity \<Rightarrow> bool" where
  "valid_generator g =
     (text_between 1 80 (si_provider g) \<and> text_between 1 120 (si_model g) \<and> text_between 1 120 (si_version g)
      \<and> 0 \<le> si_seed g \<and> si_seed g \<le> 2 ^ 63 - 1 \<and> 0 \<le> si_candidate_index g \<and> si_candidate_index g \<le> 1000000)"

definition valid_candidate_create :: "symbolic_candidate_create \<Rightarrow> bool" where
  "valid_candidate_create q =
     (text_between 3 180 (su_candidate_key q) \<and> text_between 1 80 (su_output_unit q)
      \<and> valid_generator (su_generator q) \<and> is_sha256_hex (su_output_digest q)
      \<and> text_between 3 150 (su_submitted_by q))"

definition generator_json :: "generator_identity \<Rightarrow> json" where
  "generator_json g = JObj
     [(''provider'', JStr (si_provider g)), (''model'', JStr (si_model g)), (''version'', JStr (si_version g)),
      (''seed'', JInt (si_seed g)), (''candidate_index'', JInt (si_candidate_index g))]"

definition constraints_json :: "run_constraints \<Rightarrow> json" where
  "constraints_json c = JObj
     [(''maximum_candidates'', JInt (ss_maximum_candidates c)), (''maximum_nodes'', JInt (ss_maximum_nodes c)),
      (''maximum_depth'', JInt (ss_maximum_depth c)), (''maximum_constants'', JInt (ss_maximum_constants c)),
      (''allowed_operators'', jstrs (ss_allowed_operators c)), (''required_fields'', jstrs (ss_required_fields c)),
      (''allow_parameters'', JBool (ss_allow_parameters c)),
      (''base_factor_program_digest'', JStr (ss_base_factor_program_digest c)),
      (''prompt_policy_digest'', JStr (ss_prompt_policy_digest c))]"

section \<open>Expressions\<close>

definition COMMUTATIVE :: "string list" where
  "COMMUTATIVE = [''add'', ''multiply'', ''and'', ''or'']"

definition SAFE_GENERATOR_TOOLS :: "string list" where
  "SAFE_GENERATOR_TOOLS = [''research.retrieve'']"

text \<open>What a traversal counts: nodes, the greatest depth, constants, the operators and the fields.\<close>

record walk_result =
  wa_nodes :: nat
  wa_depth :: nat
  wa_constants :: nat
  wa_operators :: "string list"
  wa_fields :: "string list"

definition combine_walks :: "nat \<Rightarrow> json \<Rightarrow> json list \<Rightarrow> walk_result list \<Rightarrow> walk_result" where
  "combine_walks depth op args rs =
     \<lparr>wa_nodes = Suc (sum_list (map wa_nodes rs)),
      wa_depth = foldl max depth (map wa_depth rs),
      wa_constants = (if op = JStr ''constant'' then 1 else 0) + sum_list (map wa_constants rs),
      wa_operators = py_str op # concat (map wa_operators rs),
      wa_fields = (case args of JStr f # _ \<Rightarrow> if op = JStr ''field'' then [f] else [] | _ \<Rightarrow> [])
                  @ concat (map wa_fields rs)\<rparr>"

lemma size_shape_arg: "shape e = Some (op, args) \<Longrightarrow> a \<in> set args \<Longrightarrow> size a < size e"
proof -
  assume "shape e = Some (op, args)" "a \<in> set args"
  then obtain d where "e = JObj d" "dget d ''args'' = JList args"
    by (auto simp: shape_def split: json.split_asm if_split_asm)
  then have "map_of d ''args'' = Some (JList args)"
    by (auto simp: dget_def dict_get_def split: option.split_asm)
  then have "size (JList args) < size (JObj d)"
    using size_member[of d "''args''"] by (simp add: member_def)
  moreover have "size a < size (JList args)" using \<open>a \<in> set args\<close> by (rule size_item)
  ultimately show ?thesis using \<open>e = JObj d\<close> by simp
qed

text \<open>\<open>_walk\<close>: the arguments that are objects are visited, the others are left alone.\<close>

function walk :: "nat \<Rightarrow> json \<Rightarrow> walk_result res" where
  "walk depth e =
     (case shape e of
        None \<Rightarrow> conflict ''Expression nodes must contain exactly op and list args.''
      | Some (op, args) \<Rightarrow>
          ebind (econcat (\<lambda>c. ebind (walk (Suc depth) c) (\<lambda>r. Inr [r])) (filter is_obj args)) (\<lambda>rs.
            Inr (combine_walks depth op args rs)))"
  by pat_completeness auto
termination
  by (relation "measure (\<lambda>(_, e). size e)") (auto intro: size_shape_arg)

declare walk.simps [simp del]

text \<open>\<open>_normalize\<close>: the arguments of commutative operators are ordered by their digests.\<close>

lemma size_args: "dget_default d ''args'' (JList []) = JList xs \<Longrightarrow> x \<in> set xs \<Longrightarrow> size x < size (JObj d)"
proof -
  assume a: "dget_default d ''args'' (JList []) = JList xs" "x \<in> set xs"
  then have "member d ''args'' = JList xs"
    by (auto simp: dget_default_def member_def split: option.split_asm)
  then show ?thesis using size_member[of d "''args''"] size_item[OF a(2)] by simp
qed

function normalize_expr :: "json \<Rightarrow> json res" where
  "normalize_expr e =
     (case e of
        JObj d \<Rightarrow>
          ebind
            (case dget_default d ''args'' (JList []) of
               JList xs \<Rightarrow> econcat (\<lambda>x. ebind (normalize_expr x) (\<lambda>y. Inr [y])) xs
             | v \<Rightarrow> py_iter v) (\<lambda>args.
            (let op = dget d ''op''
             in if \<not> hashable op then Inl TypeError
                else Inr (JObj [(''op'', op),
                       (''args'', JList (if (\<exists>c \<in> set COMMUTATIVE. op = JStr c)
                                         then sort_key digest_json args else args))])))
      | _ \<Rightarrow> Inr e)"
  by pat_completeness auto
termination
  by (relation "measure size") (auto intro: size_args[simplified])

declare normalize_expr.simps [simp del]

definition semantic_digest_of :: "json \<Rightarrow> string \<Rightarrow> string res" where
  "semantic_digest_of e u =
     ebind (normalize_expr e) (\<lambda>n. Inr (digest_json (JObj [(''expression'', n), (''output_unit'', JStr u)])))"

section \<open>Runs\<close>

definition register_symbolic_search ::
  "time \<Rightarrow> symbolic_search_create \<Rightarrow> rdb \<Rightarrow> (symbolic_search_run \<times> rdb) res" where
  "register_symbolic_search now p d =
     (case get_row fx_id (programs d) (sq_base_factor_program_id p) of
        None \<Rightarrow> conflict ''An active DISC-003 factor program is required.''
      | Some program \<Rightarrow>
          if fx_status program \<noteq> ''active'' then conflict ''An active DISC-003 factor program is required.''
          else
            (case get_row bd_id (bundles d) (sq_prompt_policy_bundle_id p) of
               None \<Rightarrow> conflict ''An active AGT-004 prompt policy is required.''
             | Some policy \<Rightarrow>
                 if bd_status policy \<noteq> ''active'' then conflict ''An active AGT-004 prompt policy is required.''
                 else
                   (let unsafe = sorted_set (filter (\<lambda>t. t \<notin> set SAFE_GENERATOR_TOOLS) (bd_allowed_tools policy));
                        c = sq_constraints p;
                        unknown = sorted_set (filter (\<lambda>f. f \<notin> set (map fst (fs_fields (fx_source program))))
                                    (ss_required_fields c));
                        constraints = symbolic_constraints.extend c
                          \<lparr>ss_base_factor_program_digest = fx_compiled_digest program,
                           ss_prompt_policy_digest = bd_bundle_digest policy\<rparr>;
                        dig = digest_json (constraints_json constraints)
                    in if dget (bd_policy policy) ''output_authority'' \<noteq> JStr ''data_only'' \<or> unsafe \<noteq> []
                       then conflict (''Generator policy must be data-only and contains unsafe tools: ''
                              @ py_repr (jstrs unsafe))
                       else if unknown \<noteq> []
                       then conflict (''Required fields are absent from the base program: '' @ py_repr (jstrs unknown))
                       else
                         (case List.find (\<lambda>r. rs_run_key r = sq_run_key p \<or> rs_constraints_digest r = dig)
                                 (symbolic_runs d) of
                            Some existing \<Rightarrow>
                              if rs_constraints_digest existing = dig then Inr (existing, d)
                              else conflict ''Run key already has different constraints.''
                          | None \<Rightarrow>
                              (let run = \<lparr>rs_id = rdb_next_uuid d, rs_run_key = sq_run_key p,
                                          rs_base_factor_program_id = fx_id program,
                                          rs_prompt_policy_bundle_id = bd_id policy,
                                          rs_constraints = constraints, rs_constraints_digest = dig,
                                          rs_status = ''active'', rs_candidate_count = 0, rs_accepted_count = 0,
                                          rs_closure = [], rs_generated_by = sq_generated_by p, rs_created_at = now\<rparr>
                               in Inr (run, d\<lparr>symbolic_runs := symbolic_runs d @ [run],
                                              rdb_next_uuid := Suc (rdb_next_uuid d)\<rparr>))))))"

section \<open>Candidates\<close>

definition proposal_json :: "symbolic_proposal \<Rightarrow> json" where
  "proposal_json p = JObj
     [(''expression'', JObj (sy_expression p)), (''output_unit'', JStr (sy_output_unit p)),
      (''generator'', generator_json (sy_generator p))]"

definition proposal_of :: "symbolic_candidate_create \<Rightarrow> symbolic_proposal" where
  "proposal_of q =
     \<lparr>sy_expression = su_expression q, sy_output_unit = su_output_unit q, sy_generator = su_generator q\<rparr>"

definition proposal_digest_of :: "symbolic_search_run \<Rightarrow> symbolic_candidate_create \<Rightarrow> string" where
  "proposal_digest_of run q = digest_json (JObj
     [(''run_constraints_digest'', JStr (rs_constraints_digest run)),
      (''proposal'', proposal_json (proposal_of q)),
      (''claimed_output_digest'', JStr (su_output_digest q))])"

text \<open>The same generator identity must have produced the same output.\<close>

definition nondeterministic :: "symbolic_search_candidate list \<Rightarrow> symbolic_proposal \<Rightarrow> bool" where
  "nondeterministic prior p =
     list_ex (\<lambda>c. sy_generator (ca_proposal c) = sy_generator p
                  \<and> (\<not> py_eq (JObj (sy_expression (ca_proposal c))) (JObj (sy_expression p))
                     \<or> sy_output_unit (ca_proposal c) \<noteq> sy_output_unit p)) prior"

definition flagged :: "bool \<Rightarrow> string \<Rightarrow> string list" where
  "flagged b s = (if b then [s] else [])"

text \<open>The violations of the grammar and the limits of the run, in the order of the code.\<close>

definition grammar_violations :: "run_constraints \<Rightarrow> symbolic_candidate_create \<Rightarrow> walk_result \<Rightarrow> string list" where
  "grammar_violations c q w =
     (let disallowed = sorted_set (filter (\<lambda>op. op \<notin> set (ss_allowed_operators c)) (wa_operators w));
          missing = sorted_set (filter (\<lambda>f. f \<notin> set (wa_fields w)) (ss_required_fields c))
      in flagged (digest_json (proposal_json (proposal_of q)) \<noteq> su_output_digest q) ''generator_output_digest_mismatch''
         @ flagged (disallowed \<noteq> []) (''disallowed_operators:'' @ join '','' disallowed)
         @ flagged (\<not> ss_allow_parameters c \<and> ''parameter'' \<in> set (wa_operators w)) ''parameters_forbidden''
         @ flagged (ss_maximum_nodes c < int (wa_nodes w)) ''maximum_nodes_exceeded''
         @ flagged (ss_maximum_depth c < int (wa_depth w)) ''maximum_depth_exceeded''
         @ flagged (ss_maximum_constants c < int (wa_constants w)) ''maximum_constants_exceeded''
         @ flagged (missing \<noteq> []) (''required_fields_missing:'' @ join '','' missing))"

definition base_digests :: "factor_experiment_program \<Rightarrow> string list res" where
  "base_digests program =
     emap (\<lambda>(_, f). semantic_digest_of (JObj (fd_expression f)) (fd_output_unit f))
       (fs_factors (fx_source program))"

definition accepted_digests :: "symbolic_search_candidate list \<Rightarrow> string option list" where
  "accepted_digests prior = map ca_semantic_digest (filter (\<lambda>c. ca_status c = ''accepted'') prior)"

text \<open>What the assessment of a proposal yields: violations, the semantic digest and the compiled document.\<close>

type_synonym assessment = "string list \<times> string option \<times> dict"

text \<open>The \<open>except\<close> clause: a conflict becomes a violation, any other exception goes on.\<close>

definition rejected_as :: "string list \<Rightarrow> exn \<Rightarrow> assessment res" where
  "rejected_as violations e =
     (case e of Conflict m \<Rightarrow> Inr (violations @ [''compiler_rejection:'' @ m], None, []) | _ \<Rightarrow> Inl e)"

definition assess_compiled ::
  "factor_experiment_program \<Rightarrow> symbolic_search_candidate list \<Rightarrow> symbolic_candidate_create \<Rightarrow> walk_result
     \<Rightarrow> json \<Rightarrow> string \<Rightarrow> assessment res" where
  "assess_compiled program prior q w ir u =
     (if u \<noteq> su_output_unit q then Inr ([''unit_mismatch:'' @ u], None, [])
      else
        ebind (semantic_digest_of (JObj (su_expression q)) u) (\<lambda>dig.
          ebind (base_digests program) (\<lambda>base.
            if dig \<in> set base \<or> Some dig \<in> set (accepted_digests prior)
            then Inr ([''semantic_duplicate''], Some dig, [])
            else Inr ([], Some dig,
                   [(''expression'', ir), (''unit'', JStr u), (''nodes'', JInt (int (wa_nodes w))),
                    (''depth'', JInt (int (wa_depth w))), (''constants'', JInt (int (wa_constants w))),
                    (''action_authority'', JBool False)]))))"

definition assess_candidate ::
  "symbolic_search_run \<Rightarrow> factor_experiment_program option \<Rightarrow> symbolic_search_candidate list
     \<Rightarrow> symbolic_candidate_create \<Rightarrow> assessment res" where
  "assess_candidate run found prior q =
     (let c = rs_constraints run;
          v0 = flagged (nondeterministic prior (proposal_of q)) ''nondeterministic_generator_output''
      in case walk 1 (JObj (su_expression q)) of
           Inl e \<Rightarrow> rejected_as v0 e
         | Inr w \<Rightarrow>
             (let v1 = v0 @ grammar_violations c q w
              in case found of
                   None \<Rightarrow> Inl (AttributeError ''source'')
                 | Some program \<Rightarrow>
                     if v1 \<noteq> [] then Inr (v1, None, [])
                     else
                       (case compile_expression (fs_fields (fx_source program))
                               (if ss_allow_parameters c then fs_parameters (fx_source program) else [])
                               0 ''expression'' (JObj (su_expression q)) of
                          Inl e \<Rightarrow> rejected_as v1 e
                        | Inr (ir, u) \<Rightarrow> assess_compiled program prior q w ir u)))"

definition candidate_status :: "string list \<Rightarrow> string" where
  "candidate_status violations =
     (if ''semantic_duplicate'' \<in> set violations then ''duplicate''
      else if violations \<noteq> [] then ''rejected'' else ''accepted'')"

definition validation_json :: "symbolic_search_run \<Rightarrow> string \<Rightarrow> assessment \<Rightarrow> json" where
  "validation_json run proposal_digest = (\<lambda>(violations, semantic, compiled). JObj
     [(''proposal_digest'', JStr proposal_digest), (''semantic_digest'', option_json JStr semantic),
      (''status'', JStr (candidate_status violations)), (''violations'', jstrs violations),
      (''compiled'', JObj compiled), (''constraints_digest'', JStr (rs_constraints_digest run))])"

definition new_candidate ::
  "time \<Rightarrow> symbolic_search_run \<Rightarrow> symbolic_candidate_create \<Rightarrow> assessment \<Rightarrow> rdb \<Rightarrow> symbolic_search_candidate" where
  "new_candidate now run q a d =
     (case a of
        (violations, semantic, compiled) \<Rightarrow>
          \<lparr>ca_id = rdb_next_uuid d, ca_run_id = rs_id run, ca_candidate_key = su_candidate_key q,
           ca_proposal = proposal_of q, ca_proposal_digest = proposal_digest_of run q,
           ca_semantic_digest = semantic, ca_status = candidate_status violations,
           ca_violations = violations, ca_compiled = compiled,
           ca_validation_digest = digest_json (validation_json run (proposal_digest_of run q) a),
           ca_submitted_by = su_submitted_by q, ca_created_at = now\<rparr>)"

text \<open>The counters of the run after a candidate; the run is complete when the budget is used up.\<close>

definition counted_run :: "symbolic_search_candidate \<Rightarrow> symbolic_search_run \<Rightarrow> symbolic_search_run" where
  "counted_run c r =
     (let n = rs_candidate_count r + 1
      in r\<lparr>rs_candidate_count := n,
           rs_accepted_count := rs_accepted_count r + (if ca_status c = ''accepted'' then 1 else 0),
           rs_status := (if n = ss_maximum_candidates (rs_constraints r) then ''complete'' else rs_status r)\<rparr>)"

definition prior_candidates :: "uuid \<Rightarrow> rdb \<Rightarrow> symbolic_search_candidate list" where
  "prior_candidates i d = filter (\<lambda>c. ca_run_id c = i) (symbolic_candidates d)"

definition active_run :: "uuid \<Rightarrow> rdb \<Rightarrow> symbolic_search_run res" where
  "active_run i d =
     (case get_row rs_id (symbolic_runs d) i of
        None \<Rightarrow> conflict ''An active symbolic-search run is required.''
      | Some run \<Rightarrow>
          if rs_status run \<noteq> ''active'' then conflict ''An active symbolic-search run is required.''
          else Inr run)"

definition validate_candidate ::
  "time \<Rightarrow> uuid \<Rightarrow> symbolic_candidate_create \<Rightarrow> rdb \<Rightarrow> (symbolic_search_candidate \<times> rdb) res" where
  "validate_candidate now i q d =
     ebind (active_run i d) (\<lambda>run.
       (let prior = prior_candidates (rs_id run) d
        in case List.find (\<lambda>c. ca_proposal_digest c = proposal_digest_of run q) prior of
             Some existing \<Rightarrow> Inr (existing, d)
           | None \<Rightarrow>
               if list_ex (\<lambda>c. ca_candidate_key c = su_candidate_key q) prior
               then conflict ''Candidate key already has different content.''
               else if ss_maximum_candidates (rs_constraints run) \<le> int (length prior)
               then conflict ''Symbolic-search candidate budget is exhausted.''
               else
                 ebind (assess_candidate run (get_row fx_id (programs d) (rs_base_factor_program_id run)) prior q) (\<lambda>a.
                   (let c = new_candidate now run q a d
                    in if list_ex (\<lambda>x. ca_proposal_digest x = ca_proposal_digest c
                                       \<or> ca_validation_digest x = ca_validation_digest c) (symbolic_candidates d)
                       then Inl IntegrityError
                       else Inr (c, d\<lparr>symbolic_candidates := symbolic_candidates d @ [c],
                                      symbolic_runs := upd_row rs_id i (counted_run c) (symbolic_runs d),
                                      rdb_next_uuid := Suc (rdb_next_uuid d)\<rparr>)))))"

definition quarantine_run :: "uuid \<Rightarrow> string \<Rightarrow> string \<Rightarrow> rdb \<Rightarrow> rdb res" where
  "quarantine_run i actor reason d =
     ebind (active_run i d) (\<lambda>run.
       Inr (d\<lparr>symbolic_runs := upd_row rs_id i (\<lambda>r. r\<lparr>rs_status := ''quarantined'',
              rs_closure := [(''actor'', JStr actor), (''reason'', JStr reason),
                             (''candidate_count'', JInt (rs_candidate_count r)),
                             (''accepted_count'', JInt (rs_accepted_count r)),
                             (''lineage_retained'', JBool True), (''action_authority'', JBool False)]\<rparr>)
              (symbolic_runs d)\<rparr>))"

section \<open>Routes\<close>

definition create_run :: "time \<Rightarrow> symbolic_search_create \<Rightarrow> rdb \<Rightarrow> (symbolic_search_run \<times> rdb) res" where
  "create_run now p d =
     ebind (valid_search_create p) (\<lambda>_. http_conflict (register_symbolic_search now p d))"

definition submit_candidate ::
  "time \<Rightarrow> uuid \<Rightarrow> symbolic_candidate_create \<Rightarrow> rdb \<Rightarrow> (symbolic_search_candidate \<times> rdb) res" where
  "submit_candidate now i q d =
     (if \<not> valid_candidate_create q then Inl (ValueError ''request'')
      else http_conflict (validate_candidate now i q d))"

definition quarantine :: "uuid \<Rightarrow> string \<Rightarrow> string \<Rightarrow> rdb \<Rightarrow> rdb res" where
  "quarantine i actor reason d =
     (if \<not> (text_between 3 150 actor \<and> text_between 10 1000 reason) then Inl (ValueError ''request'')
      else http_conflict (quarantine_run i actor reason d))"

section \<open>All requests of the research tools\<close>

text \<open>Hypotheses and dataset manifests are registered by services outside this model.\<close>

inductive research_step :: "(string list \<Rightarrow> string list) \<Rightarrow> rdb \<Rightarrow> rdb \<Rightarrow> bool"
  for order :: "string list \<Rightarrow> string list"
where
  step_program: "create_program now p d = Inr (x, d') \<Longrightarrow> research_step order d d'"
| step_policy: "policy_step order d d' \<Longrightarrow> research_step order d d'"
| step_run: "create_run now s d = Inr (r, d') \<Longrightarrow> research_step order d d'"
| step_candidate: "submit_candidate now i q d = Inr (c, d') \<Longrightarrow> research_step order d d'"
| step_quarantine: "quarantine i actor reason d = Inr d' \<Longrightarrow> research_step order d d'"
| step_hypothesis: "research_step order d (d\<lparr>hypothesis_ids := hs\<rparr>)"
| step_dataset: "research_step order d (d\<lparr>dataset_digests := ds\<rparr>)"

definition research_reachable :: "(string list \<Rightarrow> string list) \<Rightarrow> rdb \<Rightarrow> bool" where
  "research_reachable order d = (research_step order)\<^sup>*\<^sup>* empty_rdb d"

section \<open>Accepted candidates\<close>

definition within_grammar :: "run_constraints \<Rightarrow> walk_result \<Rightarrow> bool" where
  "within_grammar c w \<longleftrightarrow>
     set (wa_operators w) \<subseteq> set (ss_allowed_operators c)
     \<and> (''parameter'' \<in> set (wa_operators w) \<longrightarrow> ss_allow_parameters c)
     \<and> int (wa_nodes w) \<le> ss_maximum_nodes c \<and> int (wa_depth w) \<le> ss_maximum_depth c
     \<and> int (wa_constants w) \<le> ss_maximum_constants c
     \<and> set (ss_required_fields c) \<subseteq> set (wa_fields w)"

lemma flagged_Nil [simp]: "flagged b s = [] \<longleftrightarrow> \<not> b"
  by (simp add: flagged_def)

lemma grammar_violations_Nil:
  "grammar_violations c q w = [] \<longleftrightarrow>
     digest_json (proposal_json (proposal_of q)) = su_output_digest q \<and> within_grammar c w"
  by (auto simp: grammar_violations_def Let_def within_grammar_def sorted_set_Nil_iff filter_empty_conv)

lemma http_conflict_Inr [simp]: "http_conflict r = Inr x \<longleftrightarrow> r = Inr x"
  by (auto simp: http_conflict_def split: sum.split exn.split)

lemma active_run_Inr:
  "active_run i d = Inr run \<longleftrightarrow> get_row rs_id (symbolic_runs d) i = Some run \<and> rs_status run = ''active''"
  by (auto simp: active_run_def split: option.split)

text \<open>A request that adds a row: the assessment it rests on and the new state.\<close>

lemma validate_candidate_new:
  assumes "validate_candidate now i q d = Inr (c, d')" and "symbolic_candidates d' \<noteq> symbolic_candidates d"
  obtains run a where "get_row rs_id (symbolic_runs d) i = Some run" and "rs_status run = ''active''"
    and "int (length (prior_candidates i d)) < ss_maximum_candidates (rs_constraints run)"
    and "assess_candidate run (get_row fx_id (programs d) (rs_base_factor_program_id run)) (prior_candidates i d) q = Inr a"
    and "c = new_candidate now run q a d"
    and "d' = d\<lparr>symbolic_candidates := symbolic_candidates d @ [c],
              symbolic_runs := upd_row rs_id i (counted_run c) (symbolic_runs d),
              rdb_next_uuid := Suc (rdb_next_uuid d)\<rparr>"
proof -
  from assms(1) obtain run where run: "get_row rs_id (symbolic_runs d) i = Some run" "rs_status run = ''active''"
    by (auto simp: validate_candidate_def ebind_Inr_iff active_run_Inr)
  then have i: "rs_id run = i" using get_row_Some_in[OF run(1)] by simp
  have active: "active_run i d = Inr run" using run by (simp add: active_run_Inr)
  note v = assms(1)[unfolded validate_candidate_def active ebind_simps(2) Let_def i]
  have none: "List.find (\<lambda>c. ca_proposal_digest c = proposal_digest_of run q) (prior_candidates i d) = None"
    using v assms(2) by (cases "List.find (\<lambda>c. ca_proposal_digest c = proposal_digest_of run q) (prior_candidates i d)") auto
  note v = v[unfolded none option.case]
  have budget: "int (length (prior_candidates i d)) < ss_maximum_candidates (rs_constraints run)"
    using v by (simp add: not_le split: if_split_asm)
  from v obtain a where a: "assess_candidate run (get_row fx_id (programs d) (rs_base_factor_program_id run))
      (prior_candidates i d) q = Inr a"
    by (simp add: ebind_Inr_iff split: if_split_asm) blast
  have "c = new_candidate now run q a d \<and> d' = d\<lparr>symbolic_candidates := symbolic_candidates d @ [new_candidate now run q a d],
      symbolic_runs := upd_row rs_id i (counted_run (new_candidate now run q a d)) (symbolic_runs d),
      rdb_next_uuid := Suc (rdb_next_uuid d)\<rparr>"
    using v unfolding a ebind_simps(2) by (simp split: if_split_asm) blast
  then show thesis using that[OF run budget a] by blast
qed

lemma candidate_status_accepted: "candidate_status vs = ''accepted'' \<longleftrightarrow> vs = []"
  by (simp add: candidate_status_def)

lemma rejected_as_Nil: "rejected_as v e \<noteq> Inr ([], x)"
  by (auto simp: rejected_as_def split: exn.split)

lemma assess_compiled_clean:
  assumes "assess_compiled program prior q w ir u = Inr ([], semantic, compiled)"
  obtains dig base where "u = su_output_unit q" and "semantic_digest_of (JObj (su_expression q)) u = Inr dig"
    and "base_digests program = Inr base" and "dig \<notin> set base" and "Some dig \<notin> set (accepted_digests prior)"
    and "semantic = Some dig" and "dget compiled ''expression'' = ir"
  using assms by (auto simp: assess_compiled_def ebind_Inr_iff dget_def dict_get_def split: if_split_asm)

lemma assess_candidate_clean:
  assumes "assess_candidate run found prior q = Inr ([], semantic, compiled)"
  obtains program w ir u where "found = Some program" and "walk 1 (JObj (su_expression q)) = Inr w"
    and "\<not> nondeterministic prior (proposal_of q)" and "grammar_violations (rs_constraints run) q w = []"
    and "compile_expression (fs_fields (fx_source program))
        (if ss_allow_parameters (rs_constraints run) then fs_parameters (fx_source program) else [])
        0 ''expression'' (JObj (su_expression q)) = Inr (ir, u)"
    and "assess_compiled program prior q w ir u = Inr ([], semantic, compiled)"
proof -
  from assms obtain w where w: "walk 1 (JObj (su_expression q)) = Inr w"
    by (auto simp: assess_candidate_def Let_def rejected_as_Nil split: sum.split_asm)
  with assms obtain program where p: "found = Some program"
    by (auto simp: assess_candidate_def Let_def split: option.split_asm)
  with assms w have clean: "flagged (nondeterministic prior (proposal_of q)) ''nondeterministic_generator_output''
      @ grammar_violations (rs_constraints run) q w = []"
    by (auto simp: assess_candidate_def Let_def split: if_split_asm)
  obtain ir u where "compile_expression (fs_fields (fx_source program))
      (if ss_allow_parameters (rs_constraints run) then fs_parameters (fx_source program) else [])
      0 ''expression'' (JObj (su_expression q)) = Inr (ir, u)"
    using assms w p clean by (auto simp: assess_candidate_def Let_def rejected_as_Nil split: sum.split_asm prod.split_asm)
  then show thesis
    using that p w clean assms by (simp add: assess_candidate_def Let_def)
qed

text \<open>
  Soundness of acceptance (C17): an accepted candidate is an expression within the grammar and the
  limits of its run, typed over the fields of the base program with the unit it claims, with the
  output digest the generator claims; its compiled form reads no value before it is available, and
  its normal form is neither a factor of the base program nor an accepted candidate of the run.
\<close>

theorem accepted_candidate_sound:
  assumes "submit_candidate now i q d = Inr (c, d')" and "symbolic_candidates d' \<noteq> symbolic_candidates d"
    and "ca_status c = ''accepted''"
  shows "\<exists>run program w dig base. get_row rs_id (symbolic_runs d) i = Some run \<and> rs_status run = ''active''
    \<and> get_row fx_id (programs d) (rs_base_factor_program_id run) = Some program
    \<and> walk 1 (JObj (su_expression q)) = Inr w \<and> within_grammar (rs_constraints run) w
    \<and> digest_json (proposal_json (proposal_of q)) = su_output_digest q
    \<and> typed (fs_fields (fx_source program))
        (if ss_allow_parameters (rs_constraints run) then fs_parameters (fx_source program) else []) 33
        (JObj (su_expression q)) (su_output_unit q)
    \<and> causal (fs_fields (fx_source program)) (dget (ca_compiled c) ''expression'')
    \<and> semantic_digest_of (JObj (su_expression q)) (su_output_unit q) = Inr dig \<and> ca_semantic_digest c = Some dig
    \<and> base_digests program = Inr base \<and> dig \<notin> set base
    \<and> Some dig \<notin> set (accepted_digests (prior_candidates i d))"
proof -
  have "validate_candidate now i q d = Inr (c, d')"
    using assms(1) by (simp add: submit_candidate_def split: if_split_asm)
  then obtain run a where run: "get_row rs_id (symbolic_runs d) i = Some run" "rs_status run = ''active''"
    and a: "assess_candidate run (get_row fx_id (programs d) (rs_base_factor_program_id run)) (prior_candidates i d) q = Inr a"
    and c: "c = new_candidate now run q a d"
    by (rule validate_candidate_new[OF _ assms(2)])
  obtain semantic compiled where "a = ([], semantic, compiled)"
    using assms(3) c by (cases a) (auto simp: new_candidate_def candidate_status_accepted)
  with a c have clean: "assess_candidate run (get_row fx_id (programs d) (rs_base_factor_program_id run))
      (prior_candidates i d) q = Inr ([], semantic, compiled)"
    and c': "ca_semantic_digest c = semantic" "ca_compiled c = compiled"
    by (simp_all add: new_candidate_def)
  obtain program w ir u where pw: "get_row fx_id (programs d) (rs_base_factor_program_id run) = Some program"
      "walk 1 (JObj (su_expression q)) = Inr w" "grammar_violations (rs_constraints run) q w = []"
    and comp: "compile_expression (fs_fields (fx_source program))
        (if ss_allow_parameters (rs_constraints run) then fs_parameters (fx_source program) else [])
        0 ''expression'' (JObj (su_expression q)) = Inr (ir, u)"
    and verdict: "assess_compiled program (prior_candidates i d) q w ir u = Inr ([], semantic, compiled)"
    by (rule assess_candidate_clean[OF clean]) (rule that)
  obtain dig base where dig: "u = su_output_unit q" "semantic_digest_of (JObj (su_expression q)) u = Inr dig"
    "base_digests program = Inr base" "dig \<notin> set base" "Some dig \<notin> set (accepted_digests (prior_candidates i d))"
    "semantic = Some dig" "dget compiled ''expression'' = ir"
    by (rule assess_compiled_clean[OF verdict])
  have "typed (fs_fields (fx_source program))
      (if ss_allow_parameters (rs_constraints run) then fs_parameters (fx_source program) else []) 33
      (JObj (su_expression q)) (su_output_unit q)"
    using compile_typed[OF comp] dig(1) by simp
  moreover have "causal (fs_fields (fx_source program)) (dget (ca_compiled c) ''expression'')"
    using compile_causal[OF comp] dig(7) c'(2) by simp
  ultimately show ?thesis
    using run pw dig c' by (auto simp: grammar_violations_Nil)
qed

section \<open>The invariant of runs\<close>

text \<open>
  The counters of a run are the numbers of its candidates and of the accepted ones, the budget is
  never exceeded and is left while the run is active, and accepted candidates differ in meaning.
\<close>

definition accepted_in :: "symbolic_search_candidate list \<Rightarrow> nat" where
  "accepted_in cs = length (filter (\<lambda>c. ca_status c = ''accepted'') cs)"

definition run_ok :: "symbolic_search_candidate list \<Rightarrow> symbolic_search_run \<Rightarrow> bool" where
  "run_ok cs r \<longleftrightarrow>
     rs_candidate_count r = int (length cs) \<and> rs_accepted_count r = int (accepted_in cs)
     \<and> int (length cs) \<le> ss_maximum_candidates (rs_constraints r)
     \<and> (rs_status r = ''active'' \<longrightarrow> int (length cs) < ss_maximum_candidates (rs_constraints r))
     \<and> distinct (accepted_digests cs) \<and> None \<notin> set (accepted_digests cs)"

definition symbolic_ok :: "rdb \<Rightarrow> bool" where
  "symbolic_ok d \<longleftrightarrow>
     distinct (map rs_id (symbolic_runs d)) \<and> list_all (\<lambda>r. rs_id r < rdb_next_uuid d) (symbolic_runs d)
     \<and> list_all (\<lambda>c. ca_run_id c < rdb_next_uuid d) (symbolic_candidates d)
     \<and> list_all (\<lambda>r. run_ok (prior_candidates (rs_id r) d) r) (symbolic_runs d)"

lemma symbolic_ok_cong:
  "symbolic_runs d' = symbolic_runs d \<Longrightarrow> symbolic_candidates d' = symbolic_candidates d
     \<Longrightarrow> rdb_next_uuid d \<le> rdb_next_uuid d' \<Longrightarrow> symbolic_ok d \<Longrightarrow> symbolic_ok d'"
  by (auto simp: symbolic_ok_def list_all_iff prior_candidates_def)

lemma register_run_new:
  assumes "register_symbolic_search now p d = Inr (r, d')"
  shows "d' = d \<or> (rs_id r = rdb_next_uuid d \<and> rs_candidate_count r = 0 \<and> rs_accepted_count r = 0
      \<and> ss_maximum_candidates (rs_constraints r) = ss_maximum_candidates (sq_constraints p)
      \<and> d' = d\<lparr>symbolic_runs := symbolic_runs d @ [r], rdb_next_uuid := Suc (rdb_next_uuid d)\<rparr>)"
  using assms
  by (auto simp: register_symbolic_search_def Let_def symbolic_constraints.defs split: option.split_asm if_split_asm)

lemma symbolic_ok_create_run:
  assumes "create_run now p d = Inr (r, d')" and ok: "symbolic_ok d"
  shows "symbolic_ok d'"
proof -
  from assms(1) have valid: "valid_search_create p = Inr ()" and reg: "register_symbolic_search now p d = Inr (r, d')"
    by (auto simp: create_run_def ebind_Inr_iff)
  have budget: "1 \<le> ss_maximum_candidates (sq_constraints p)"
    using valid by (auto simp: valid_search_create_def valid_constraints_def split: if_split_asm)
  from register_run_new[OF reg] show ?thesis
  proof (elim disjE conjE)
    assume "d' = d" then show ?thesis using ok by simp
  next
    assume r: "rs_id r = rdb_next_uuid d" "rs_candidate_count r = 0" "rs_accepted_count r = 0"
        "ss_maximum_candidates (rs_constraints r) = ss_maximum_candidates (sq_constraints p)"
      and d': "d' = d\<lparr>symbolic_runs := symbolic_runs d @ [r], rdb_next_uuid := Suc (rdb_next_uuid d)\<rparr>"
    have "prior_candidates (rdb_next_uuid d) d = []"
      using ok by (auto simp: prior_candidates_def symbolic_ok_def list_all_iff filter_empty_conv)
    then have "run_ok (prior_candidates (rs_id r) d) r"
      using r budget by (simp add: run_ok_def accepted_in_def accepted_digests_def)
    moreover have "prior_candidates j d' = prior_candidates j d" for j by (simp add: d' prior_candidates_def)
    ultimately show ?thesis
      using ok r(1) by (auto simp: symbolic_ok_def d' list_all_iff less_Suc_eq)
  qed
qed

lemma accepted_append:
  "accepted_digests (cs @ [c]) = accepted_digests cs @ (if ca_status c = ''accepted'' then [ca_semantic_digest c] else [])"
  "accepted_in (cs @ [c]) = accepted_in cs + (if ca_status c = ''accepted'' then 1 else 0)"
  by (simp_all add: accepted_digests_def accepted_in_def)

lemma run_ok_counted:
  assumes ok: "run_ok cs r" "int (length cs) < ss_maximum_candidates (rs_constraints r)"
    and new: "ca_status c = ''accepted'' \<longrightarrow> (\<exists>dig. ca_semantic_digest c = Some dig \<and> Some dig \<notin> set (accepted_digests cs))"
  shows "run_ok (cs @ [c]) (counted_run c r)"
  using assms by (auto simp: run_ok_def counted_run_def Let_def accepted_append)

lemma accepted_digest_new:
  assumes a: "assess_candidate run found prior q = Inr a" and c: "c = new_candidate now run q a d"
    and "ca_status c = ''accepted''"
  shows "\<exists>dig. ca_semantic_digest c = Some dig \<and> Some dig \<notin> set (accepted_digests prior)"
proof -
  obtain semantic compiled where s: "a = ([], semantic, compiled)"
    using assms(3) c by (cases a) (auto simp: new_candidate_def candidate_status_accepted)
  obtain program w ir u where "assess_compiled program prior q w ir u = Inr ([], semantic, compiled)"
    by (rule assess_candidate_clean[OF a[unfolded s]]) (rule that)
  then obtain dig where "semantic = Some dig" "Some dig \<notin> set (accepted_digests prior)"
    by (rule assess_compiled_clean) (rule that)
  then show ?thesis using c s by (simp add: new_candidate_def)
qed

lemma symbolic_ok_submit:
  assumes "submit_candidate now i q d = Inr (c, d')" and ok: "symbolic_ok d"
  shows "symbolic_ok d'"
proof -
  have v: "validate_candidate now i q d = Inr (c, d')"
    using assms(1) by (simp add: submit_candidate_def split: if_split_asm)
  show ?thesis
  proof (cases "symbolic_candidates d' = symbolic_candidates d")
    case True
    have "d' = d"
      using v True
      by (auto simp: validate_candidate_def ebind_Inr_iff Let_def split: option.split_asm if_split_asm)
    then show ?thesis using ok by simp
  next
    case False
    obtain run a where run: "get_row rs_id (symbolic_runs d) i = Some run"
      and budget: "int (length (prior_candidates i d)) < ss_maximum_candidates (rs_constraints run)"
      and a: "assess_candidate run (get_row fx_id (programs d) (rs_base_factor_program_id run)) (prior_candidates i d) q = Inr a"
      and c: "c = new_candidate now run q a d"
      and d': "d' = d\<lparr>symbolic_candidates := symbolic_candidates d @ [c],
              symbolic_runs := upd_row rs_id i (counted_run c) (symbolic_runs d), rdb_next_uuid := Suc (rdb_next_uuid d)\<rparr>"
      by (rule validate_candidate_new[OF v False]) (rule that)
    have i: "rs_id run = i" "run \<in> set (symbolic_runs d)" using get_row_Some_in[OF run] by auto
    have cid: "ca_run_id c = i" using c i by (simp add: new_candidate_def split: prod.split)
    have new: "ca_status c = ''accepted'' \<longrightarrow>
        (\<exists>dig. ca_semantic_digest c = Some dig \<and> Some dig \<notin> set (accepted_digests (prior_candidates i d)))"
      using accepted_digest_new[OF a c] by simp
    have prior: "prior_candidates j d' = (if j = i then prior_candidates i d @ [c] else prior_candidates j d)" for j
      by (simp add: d' prior_candidates_def cid)
    define g where "g r = (if rs_id r = i then counted_run c r else r)" for r
    have "run_ok (prior_candidates (rs_id r) d') (g r)"
      if r: "r \<in> set (symbolic_runs d)" for r
    proof (cases "rs_id r = i")
      case True
      then have "r = run" using r i ok by (auto simp: symbolic_ok_def distinct_map inj_on_def)
      moreover have "run_ok (prior_candidates i d) run" using ok i by (auto simp: symbolic_ok_def list_all_iff)
      ultimately show ?thesis using run_ok_counted[OF _ budget new] True by (simp add: prior g_def)
    next
      case False
      then show ?thesis using ok r by (simp add: prior g_def symbolic_ok_def list_all_iff)
    qed
    moreover have id: "rs_id (g r) = rs_id r" for r by (simp add: g_def counted_run_def Let_def)
    moreover have "symbolic_runs d' = map g (symbolic_runs d)" "symbolic_candidates d' = symbolic_candidates d @ [c]"
      "rdb_next_uuid d' = Suc (rdb_next_uuid d)"
      by (simp_all add: d' upd_row_def g_def)
    moreover have "i < rdb_next_uuid d" using ok i by (auto simp: symbolic_ok_def list_all_iff)
    ultimately show ?thesis
      using ok cid by (simp add: symbolic_ok_def list_all_iff comp_def id less_Suc_eq)
  qed
qed

lemma symbolic_ok_quarantine:
  assumes "quarantine i actor reason d = Inr d'" and ok: "symbolic_ok d"
  shows "symbolic_ok d'"
proof -
  define f where "f r = r\<lparr>rs_status := ''quarantined'',
      rs_closure := [(''actor'', JStr actor), (''reason'', JStr reason), (''candidate_count'', JInt (rs_candidate_count r)),
        (''accepted_count'', JInt (rs_accepted_count r)), (''lineage_retained'', JBool True),
        (''action_authority'', JBool False)]\<rparr>" for r :: symbolic_search_run
  have d': "d' = d\<lparr>symbolic_runs := upd_row rs_id i f (symbolic_runs d)\<rparr>"
    using assms(1) unfolding f_def
    by (auto simp: quarantine_def quarantine_run_def ebind_Inr_iff split: if_split_asm)
  have f: "rs_id (f r) = rs_id r" "run_ok cs r \<Longrightarrow> run_ok cs (f r)" for r cs
    by (simp_all add: f_def run_ok_def)
  define g where "g r = (if rs_id r = i then f r else r)" for r
  have g: "rs_id (g r) = rs_id r" "run_ok cs r \<Longrightarrow> run_ok cs (g r)" for r cs
    using f by (simp_all add: g_def)
  have rows: "symbolic_runs d' = map g (symbolic_runs d)" by (simp add: d' upd_row_def g_def)
  have rest: "symbolic_candidates d' = symbolic_candidates d" "rdb_next_uuid d' = rdb_next_uuid d"
    "prior_candidates j d' = prior_candidates j d" for j
    by (simp_all add: d' prior_candidates_def)
  show ?thesis
    using ok g(2) by (simp add: symbolic_ok_def rows rest list_all_iff comp_def g(1))
qed

lemma policy_step_frame:
  assumes "policy_step order d d'"
  shows "symbolic_runs d' = symbolic_runs d \<and> symbolic_candidates d' = symbolic_candidates d
    \<and> programs d' = programs d \<and> rdb_next_uuid d \<le> rdb_next_uuid d'"
  using assms
proof cases
  case (policy_create now p b)
  then have "create_bundle now p d = Inr (b, d')" by (auto simp: create_policy_bundle_def ebind_Inr_iff)
  then show ?thesis by (auto simp: create_bundle_def Let_def frame split: if_split_asm)
next
  case (policy_evaluate now j q v)
  then obtain b where "evaluate order now b q d = Inr (v, d')"
    by (auto simp: run_evaluation_def ebind_Inr_iff split: if_split_asm)
  then show ?thesis by (auto simp: evaluate_def Let_def ebind_Inr_iff frame split: if_split_asm)
next
  case (policy_promote now j target actor reason)
  then obtain b where p: "promote now b actor target reason d = Inr d'"
    by (auto simp: promote_bundle_def ebind_Inr_iff split: if_split_asm)
  show ?thesis using promote_Inr[OF p] by simp
qed

lemma symbolic_ok_step:
  assumes "research_step order d d'" and ok: "symbolic_ok d"
  shows "symbolic_ok d'"
  using assms(1)
proof cases
  case (step_program now p x)
  then have "register_factor_program now p d = Inr (x, d')"
    by (simp add: create_program_def split: if_split_asm)
  then obtain xs where "d' = d\<lparr>programs := xs, rdb_next_uuid := Suc (rdb_next_uuid d)\<rparr>"
    by (rule register_factor_program_Inr) blast
  then show ?thesis using symbolic_ok_cong[of d' d] ok by simp
next
  case step_policy
  then show ?thesis using policy_step_frame[OF step_policy] symbolic_ok_cong[of d' d] ok by simp
next
  case (step_run now s r)
  then show ?thesis using ok by (rule symbolic_ok_create_run)
next
  case (step_candidate now i q c)
  then show ?thesis using ok by (rule symbolic_ok_submit)
next
  case (step_quarantine i actor reason)
  then show ?thesis using ok by (rule symbolic_ok_quarantine)
next
  case (step_hypothesis hs)
  then show ?thesis using symbolic_ok_cong[of d' d] ok by simp
next
  case (step_dataset ds)
  then show ?thesis using symbolic_ok_cong[of d' d] ok by simp
qed

lemma registry_ok_step:
  assumes "research_step order d d'" and ok: "programs_ok d" "policy_ok d"
  shows "programs_ok d' \<and> policy_ok d'"
  using assms(1)
proof cases
  case (step_program now p x)
  then have r: "register_factor_program now p d = Inr (x, d')"
    by (simp add: create_program_def split: if_split_asm)
  then obtain xs where "d' = d\<lparr>programs := xs, rdb_next_uuid := Suc (rdb_next_uuid d)\<rparr>"
    by (rule register_factor_program_Inr) blast
  then show ?thesis using programs_ok_register[OF r] policy_ok_cong[of d' d] ok by simp
next
  case step_policy
  then show ?thesis
    using policy_step_frame[OF step_policy] policy_ok_step[OF step_policy] ok
    by (auto simp: programs_ok_def list_all_iff intro: less_le_trans)
next
  case (step_run now s r)
  then have "register_symbolic_search now s d = Inr (r, d')" by (auto simp: create_run_def ebind_Inr_iff)
  from register_run_new[OF this] show ?thesis
    using policy_ok_cong[of d' d] ok by (auto simp: programs_ok_def list_all_iff less_Suc_eq)
next
  case (step_candidate now i q c)
  then have v: "validate_candidate now i q d = Inr (c, d')"
    by (simp add: submit_candidate_def split: if_split_asm)
  have "d' = d \<or> (\<exists>cs rs. d' = d\<lparr>symbolic_candidates := cs, symbolic_runs := rs, rdb_next_uuid := Suc (rdb_next_uuid d)\<rparr>)"
    using v by (auto simp: validate_candidate_def ebind_Inr_iff Let_def split: option.split_asm if_split_asm)
  then show ?thesis
    using policy_ok_cong[of d' d] ok by (auto simp: programs_ok_def list_all_iff less_Suc_eq)
next
  case (step_quarantine i actor reason)
  then obtain rs where "d' = d\<lparr>symbolic_runs := rs\<rparr>"
    by (auto simp: quarantine_def quarantine_run_def ebind_Inr_iff split: if_split_asm)
  then show ?thesis using policy_ok_cong[of d' d] ok by (auto simp: programs_ok_def)
next
  case (step_hypothesis hs)
  then show ?thesis using policy_ok_cong[of d' d] ok by (simp add: programs_ok_def)
next
  case (step_dataset ds)
  then show ?thesis using policy_ok_cong[of d' d] ok by (simp add: programs_ok_def)
qed

lemma registry_ok: "research_reachable order d \<Longrightarrow> programs_ok d \<and> policy_ok d"
  unfolding research_reachable_def
proof (induction rule: rtranclp_induct)
  case base
  show ?case
    by (simp add: empty_rdb_def programs_ok_def lineage_ok_def superseded_ids_def map_filter_def policy_ok_def
          one_active_bundle_def)
next
  case (step d d')
  then show ?case using registry_ok_step by blast
qed

text \<open>
  Lineages of factor programs: in every reachable state a program is superseded exactly when a
  later program of the same hypothesis names it, no two programs name the same one, and every other
  program is active.
\<close>

theorem program_lineage_invariant:
  assumes "research_reachable order d"
  shows "lineage_ok (programs d)"
  using registry_ok[OF assms] by (simp add: programs_ok_def)

text \<open>The event log of a bundle as a hash chain, and that every request keeps it one.\<close>

definition policy_chain_ok :: "uuid \<Rightarrow> rdb \<Rightarrow> bool" where
  "policy_chain_ok i d =
     linked pv_previous_digest pv_sequence pv_event_digest policy_event_doc None 1
       (filter (\<lambda>e. pv_bundle_id e = i) (policy_events d))"

lemma policy_chain_ok_log: "policy_chain_ok i d = policy_log.chain_ok i d"
  by (simp add: policy_chain_ok_def policy_log.chain_ok_def policy_log.chain_of_def)

lemma research_step_events:
  assumes "research_step order d d'"
  shows "policy_step order d d' \<or> policy_events d' = policy_events d"
  using assms
proof cases
  case (step_program now p x)
  then have "register_factor_program now p d = Inr (x, d')"
    by (simp add: create_program_def split: if_split_asm)
  then obtain xs where "d' = d\<lparr>programs := xs, rdb_next_uuid := Suc (rdb_next_uuid d)\<rparr>"
    by (rule register_factor_program_Inr) blast
  then show ?thesis by simp
next
  case (step_run now s r)
  then have "register_symbolic_search now s d = Inr (r, d')" by (auto simp: create_run_def ebind_Inr_iff)
  from register_run_new[OF this] show ?thesis by auto
next
  case (step_candidate now i q c)
  then have "validate_candidate now i q d = Inr (c, d')"
    by (simp add: submit_candidate_def split: if_split_asm)
  then show ?thesis
    by (auto simp: validate_candidate_def ebind_Inr_iff Let_def split: option.split_asm if_split_asm)
next
  case (step_quarantine i actor reason)
  then show ?thesis by (auto simp: quarantine_def quarantine_run_def ebind_Inr_iff split: if_split_asm)
qed simp_all

lemma policy_chain_reachable: "research_reachable order d \<Longrightarrow> policy_chain_ok i d"
  unfolding research_reachable_def
proof (induction rule: rtranclp_induct)
  case base
  show ?case by (simp add: policy_chain_ok_def empty_rdb_def)
next
  case (step d d')
  then show ?case
    using research_step_events[OF step(2)] policy_chain_step[of order d d' i] policy_chain_cong[of d' d i]
    by (auto simp: policy_chain_ok_log)
qed

text \<open>
  Promotion of prompt policies (C21): in every reachable state an approved or active bundle has passed
  every adversarial category and the valid output and has an evaluation by somebody other than its
  creator, at most one bundle of a key is active, all bundles are data-only with closed schemas, and
  the event log of every bundle is a valid hash chain.
\<close>

theorem policy_promotion_invariant:
  assumes "research_reachable order d"
  shows "one_active_bundle (bundles d) \<and> list_all data_only_bundle (bundles d)
    \<and> list_all (\<lambda>b. bd_status b \<in> {''approved'', ''active''} \<longrightarrow> reviewed d b) (bundles d)
    \<and> (\<forall>i. policy_chain_ok i d)"
  using registry_ok[OF assms] policy_chain_reachable[OF assms] by (simp add: policy_ok_def)

text \<open>
  Runs of symbolic search: whatever requests follow on a state that has it, such as the empty
  one, the counters of a run agree with its candidates, the number of candidates is within the
  budget, and the accepted candidates of a run have pairwise different semantic digests.
\<close>

theorem symbolic_run_invariant:
  assumes "(research_step order)\<^sup>*\<^sup>* d d'" and "symbolic_ok d"
  shows "symbolic_ok d' \<and> symbolic_ok empty_rdb"
proof
  show "symbolic_ok d'" using assms by (induction rule: rtranclp_induct) (auto intro: symbolic_ok_step)
  show "symbolic_ok empty_rdb" by (simp add: symbolic_ok_def empty_rdb_def)
qed

section \<open>Normal forms\<close>

lemma econcat_single: "econcat (\<lambda>x. ebind (f x) (\<lambda>y. Inr [y])) xs = emap f xs"
  by (induction xs) (auto simp: ebind_assoc)

definition normal_args :: "dict \<Rightarrow> json list res" where
  "normal_args d =
     (case dget_default d ''args'' (JList []) of JList xs \<Rightarrow> emap normalize_expr xs | v \<Rightarrow> py_iter v)"

definition ordered_args :: "json \<Rightarrow> json list \<Rightarrow> json list" where
  "ordered_args op args = (if (\<exists>c \<in> set COMMUTATIVE. op = JStr c) then sort_key digest_json args else args)"

lemma normalize_obj:
  "normalize_expr (JObj d) =
     ebind (normal_args d) (\<lambda>args.
       if \<not> hashable (dget d ''op'') then Inl TypeError
       else Inr (JObj [(''op'', dget d ''op''), (''args'', JList (ordered_args (dget d ''op'') args))]))"
  by (subst normalize_expr.simps)
    (simp add: normal_args_def ordered_args_def econcat_single Let_def cong: json.case_cong if_cong)

lemma normalize_leaf: "\<not> is_obj e \<Longrightarrow> normalize_expr e = Inr e"
  by (subst normalize_expr.simps) (cases e; simp)

lemma ordered_args_set: "set (ordered_args op args) = set args"
  by (simp add: ordered_args_def)

lemma ordered_args_idem: "ordered_args op (ordered_args op args) = ordered_args op args"
  by (simp add: ordered_args_def sort_key_id_if_sorted)

lemma emap_fixed: "(\<And>y. y \<in> set ys \<Longrightarrow> f y = Inr y) \<Longrightarrow> emap f ys = Inr ys"
  by (induction ys) auto

lemma normal_args_fixed:
  assumes "normal_args d = Inr ns"
    and sub: "\<And>x y xs. dget_default d ''args'' (JList []) = JList xs \<Longrightarrow> x \<in> set xs \<Longrightarrow> normalize_expr x = Inr y
      \<Longrightarrow> normalize_expr y = Inr y"
    and y: "y \<in> set ns"
  shows "normalize_expr y = Inr y"
proof (cases "\<exists>xs. dget_default d ''args'' (JList []) = JList xs")
  case True
  then obtain xs where xs: "dget_default d ''args'' (JList []) = JList xs" by blast
  then have "list_all2 (\<lambda>x y. normalize_expr x = Inr y) xs ns"
    using assms(1) by (simp add: normal_args_def emap_Inr)
  then obtain x where "x \<in> set xs" "normalize_expr x = Inr y"
    using y by (induction rule: list_all2_induct) auto
  then show ?thesis by (rule sub[OF xs])
next
  case False
  then have "py_iter (dget_default d ''args'' (JList [])) = Inr ns"
    using assms(1) by (auto simp: normal_args_def split: json.split_asm)
  then have "\<not> is_obj y"
    using y False by (cases "dget_default d ''args'' (JList [])") auto
  then show ?thesis by (rule normalize_leaf)
qed

text \<open>A normal form is its own normal form.\<close>

lemma normalize_idem: "normalize_expr e = Inr n \<Longrightarrow> normalize_expr n = Inr n"
proof (induction e arbitrary: n rule: measure_induct_rule[of size])
  case (less e)
  show ?case
  proof (cases "is_obj e")
    case False
    then show ?thesis using less.prems normalize_leaf[of e] by simp
  next
    case True
    then obtain d where d: "e = JObj d" by (cases e) auto
    from less.prems obtain ns where ns: "normal_args d = Inr ns" and h: "hashable (dget d ''op'')"
      and n: "n = JObj [(''op'', dget d ''op''), (''args'', JList (ordered_args (dget d ''op'') ns))]"
      by (auto simp: d normalize_obj ebind_Inr_iff split: if_split_asm)
    have "normalize_expr y = Inr y" if "y \<in> set ns" for y
      using less.IH size_args[of d] by (intro normal_args_fixed[OF ns _ that]) (auto simp: d)
    then have "emap normalize_expr (ordered_args (dget d ''op'') ns) = Inr (ordered_args (dget d ''op'') ns)"
      by (intro emap_fixed) (simp add: ordered_args_set)
    then show ?thesis
      using h by (simp add: n normalize_obj normal_args_def dget_default_def dget_def[of "[_, _]"] dict_get_def ordered_args_idem)
  qed
qed

text \<open>
  Semantic duplicates: expressions whose operator is commutative and whose arguments are, up to
  their normal forms, a permutation of each other have the same normal form, which is its own
  normal form, and the same semantic digest; so a reordered expression is a duplicate. The digests
  of different arguments must not collide.
\<close>

theorem commutative_same_digest:
  assumes "op \<in> set COMMUTATIVE"
    and "emap normalize_expr args = Inr ns" and "emap normalize_expr args' = Inr ns'"
    and "mset ns' = mset ns" and "inj_on digest_json (set ns)"
  shows "\<exists>n. normalize_expr (ir_node op args) = Inr n \<and> normalize_expr (ir_node op args') = Inr n \<and> normalize_expr n = Inr n
    \<and> semantic_digest_of (ir_node op args') u = semantic_digest_of (ir_node op args) u"
proof -
  have node: "normalize_expr (ir_node op as) = Inr (ir_node op (sort_key digest_json ms))"
    if "emap normalize_expr as = Inr ms" for as ms
    using assms(1) that
    by (simp add: ir_node_def normalize_obj normal_args_def dget_default_def dget_def dict_get_def ordered_args_def)
  define n where "n = ir_node op (sort_key digest_json ns)"
  have "set ns' = set ns" using assms(4) by (rule mset_eq_setD)
  then have "sort_key digest_json ns' = sort_key digest_json ns"
    using assms(4,5) by (intro sort_key_inj_key_eq) simp_all
  then have n: "normalize_expr (ir_node op args) = Inr n" "normalize_expr (ir_node op args') = Inr n"
    using node[OF assms(2)] node[OF assms(3)] by (simp_all add: n_def)
  have "semantic_digest_of (ir_node op args') u = semantic_digest_of (ir_node op args) u"
    by (simp only: semantic_digest_of_def n)
  then show ?thesis using n normalize_idem[OF n(1)] by blast
qed

end
