(* ===== verification/ResearchWitnesses.thy ===== *)
theory ResearchWitnesses
  imports SymbolicSearch
begin

text \<open>A sample factor program, prompt policy and symbolic search on which the properties of the research tools are applied.\<close>

section \<open>A factor program\<close>

definition w_close :: field_contract where
  "w_close = \<lparr>fl_unit = ''usd'', fl_domain = ''positive'', fl_clock = ''decision_close'', fl_availability_lag = 1\<rparr>"

definition w_field :: dict where
  "w_field = [(''op'', JStr ''field''), (''args'', JList [JStr ''close'', JInt 2])]"

definition w_mean :: dict where
  "w_mean = [(''op'', JStr ''rolling_mean''),
     (''args'', JList [JObj w_field, JObj [(''op'', JStr ''parameter''), (''args'', JList [JStr ''window''])]])]"

definition w_source :: factor_program_source where
  "w_source = \<lparr>fs_schema_version = ''factor-experiment-language-v1.0.0'',
     fs_representation_contract_digest = replicate 64 CHR ''a'',
     fs_dataset_manifest_digest = replicate 64 CHR ''b'', fs_decision_clock = ''decision_open'',
     fs_fields = [(''close'', w_close)], fs_parameters = [(''window'', [JInt 5])],
     fs_factors = [(''trend'', \<lparr>fd_expression = w_mean, fd_output_unit = ''usd'', fd_missing_policy = ''reject''\<rparr>)],
     fs_label = \<lparr>lb_field = ''close'', lb_horizon = 1, lb_kind = ''forward_return''\<rparr>, fs_maximum_trials = 4\<rparr>"

definition w_program :: factor_program_create where
  "w_program = \<lparr>fp_program_key = ''DISC-1'', fp_hypothesis_id = 7, fp_source = w_source,
     fp_supersedes_program_id = None, fp_registered_by = ''researcher''\<rparr>"

definition w_read :: json where
  "w_read = JObj [(''op'', JStr ''field''), (''field'', JStr ''close''), (''effective_lag'', JInt 3)]"

definition w_ir :: json where
  "w_ir = ir_node ''rolling_mean'' [w_read, JObj [(''op'', JStr ''parameter''), (''name'', JStr ''window'')]]"

lemma w_compiles_field: "compile_expression [(''close'', w_close)] ps 1 path (JObj w_field) = Inr (w_read, ''usd'')"
  by (subst compile_expression.simps)
    (simp add: w_field_def dget_def dict_get_def compile_operator_def compile_field_def dict_lookup_def w_close_def w_read_def)

lemma w_compiles: "compile_expression [(''close'', w_close)] [(''window'', [JInt 5])] 0 path (JObj w_mean) = Inr (w_ir, ''usd'')"
proof -
  have p: "compile_expression [(''close'', w_close)] [(''window'', [JInt 5])] (Suc 0) q
      (JObj [(''op'', JStr ''parameter''), (''args'', JList [JStr ''window''])])
      = Inr (JObj [(''op'', JStr ''parameter''), (''name'', JStr ''window'')], ''dimensionless'')" for q
    by (subst compile_expression.simps)
      (simp add: dget_def dict_get_def compile_operator_def compile_parameter_def dict_lookup_def)
  show ?thesis
    by (subst compile_expression.simps)
      (simp add: w_mean_def dget_def dict_get_def compile_operator_def compile_rolling_mean_def valid_window_def
        w_compiles_field[unfolded One_nat_def] p w_ir_def)
qed

definition w_factor :: compiled_factor where
  "w_factor = \<lparr>cf_expression = w_ir, cf_unit = ''usd'', cf_missing_policy = ''reject''\<rparr>"

lemma w_program_compiles:
  "\<exists>compiled digests. compile_program w_program = Inr (compiled, digests) \<and> cp_factors compiled = [(''trend'', w_factor)]"
  by (simp add: compile_program_def Let_def w_program_def w_source_def check_parameters_def check_parameter_def combinations_def
      compile_factor_def w_compiles w_factor_def)

theorem compiled_factor_causal_witness:
  "\<exists>compiled digests f k c. compile_program w_program = Inr (compiled, digests)
     \<and> (''trend'', f) \<in> set (cp_factors compiled) \<and> reads (cf_expression f) ''close'' k
     \<and> map_of (fs_fields (fp_source w_program)) ''close'' = Some c \<and> 1 \<le> k \<and> fl_availability_lag c \<le> k"
proof -
  obtain compiled digests where c: "compile_program w_program = Inr (compiled, digests)"
    and f: "(''trend'', w_factor) \<in> set (cp_factors compiled)"
    using w_program_compiles by auto
  have "reads w_read ''close'' 3" unfolding w_read_def by (rule rd_field)
  then have "reads (ir_node ''rolling_mean'' [w_read, JObj [(''op'', JStr ''parameter''), (''name'', JStr ''window'')]])
      ''close'' (3 + 4)"
    by (rule rd_rolling) simp_all
  then have r: "reads (cf_expression w_factor) ''close'' 7" by (simp add: w_factor_def w_ir_def)
  show ?thesis using c f r compiled_factor_causal[OF c f r] by blast
qed

theorem compile_program_trials_witness:
  "\<exists>compiled digests. compile_program w_program = Inr (compiled, digests)
     \<and> map tr_ordinal (cp_trials compiled) = [1]
     \<and> set (map tr_parameters (cp_trials compiled)) = {a. grid_point [(''window'', [JInt 5])] a}"
proof -
  obtain compiled digests where c: "compile_program w_program = Inr (compiled, digests)"
    using w_program_compiles by auto
  have ps: "fs_parameters (fp_source w_program) = [(''window'', [JInt 5])]" by (simp add: w_program_def w_source_def)
  have "distinct (map fst (fs_parameters (fp_source w_program)))" by (simp add: ps)
  from compile_program_trials[OF c this] c show ?thesis
    by (intro exI[of _ compiled] exI[of _ digests]) (simp add: ps combinations_def)
qed

section \<open>A reachable state\<close>

lemma w_bounds: "is_sha256_hex (replicate 64 CHR ''a'')" "is_sha256_hex (replicate 64 CHR ''b'')"
  by (simp_all add: is_sha256_hex_def hex_digit_def list_all_iff)

lemma w_program_valid: "valid_factor_program_create w_program"
  by (simp add: valid_factor_program_create_def valid_factor_program_source_def w_program_def w_source_def w_bounds
      valid_field_contract_def w_close_def valid_factor_definition_def valid_label_definition_def)

definition w_known :: rdb where
  "w_known = empty_rdb\<lparr>hypothesis_ids := [7], dataset_digests := [replicate 64 CHR ''b'']\<rparr>"

lemma w_known_reachable: "research_reachable order w_known"
proof -
  have "research_step order empty_rdb (empty_rdb\<lparr>hypothesis_ids := [7]\<rparr>)" by (rule step_hypothesis)
  moreover have "research_step order (empty_rdb\<lparr>hypothesis_ids := [7]\<rparr>) w_known"
    unfolding w_known_def by (rule step_dataset)
  ultimately show ?thesis unfolding research_reachable_def by (meson rtranclp.simps)
qed

lemma w_registered: "\<exists>x d. create_program 0 w_program w_known = Inr (x, d) \<and> programs d = [x] \<and> bundles d = []
    \<and> symbolic_runs d = []"
proof -
  obtain compiled digests where "compile_program w_program = Inr (compiled, digests)"
    using w_program_compiles by auto
  moreover have "fp_hypothesis_id w_program = 7" "fs_dataset_manifest_digest (fp_source w_program) = replicate 64 CHR ''b''"
    "superseded_program w_program w_known = Inr None"
    by (simp_all add: w_program_def w_source_def superseded_program_def)
  moreover have "programs w_known = []" "hypothesis_ids w_known = [7]" "dataset_digests w_known = [replicate 64 CHR ''b'']"
    "bundles w_known = []" "symbolic_runs w_known = []"
    by (simp_all add: w_known_def empty_rdb_def)
  ultimately show ?thesis
    by (cases digests) (simp add: create_program_def http_conflict_def w_program_valid register_factor_program_def Let_def)
qed

lemma w_reachable: "\<exists>x d. research_reachable order d \<and> programs d = [x] \<and> bundles d = [] \<and> symbolic_runs d = []"
  using w_registered w_known_reachable[of order] step_program[of 0 w_program w_known _ _ order]
  unfolding research_reachable_def by (metis rtranclp.rtrancl_into_rtrancl)

theorem program_lineage_invariant_witness:
  "\<exists>d x. research_reachable id d \<and> programs d = [x] \<and> lineage_ok (programs d)"
  using w_reachable[of id] program_lineage_invariant[of id] by blast

section \<open>A prompt policy\<close>

definition w_schema :: dict where
  "w_schema = [(''type'', JStr ''object''), (''additionalProperties'', JBool False),
     (''required'', JList [JStr ''answer'']),
     (''properties'', JObj [(''answer'', JObj [(''type'', JStr ''string''), (''maxLength'', JInt 5)])])]"

definition w_policy :: dict where
  "w_policy = [(''instruction_precedence'', JStr ''system''), (''injection_response'', JStr ''refuse''),
     (''secret_handling'', JStr ''redact''), (''output_authority'', JStr ''data_only'')]"

definition w_bundle_create :: prompt_policy_bundle_create where
  "w_bundle_create = \<lparr>pk_bundle_key = ''factor.generator'', pk_version = ''1.0.0'', pk_purpose = ''search'',
     pk_model_binding = \<lparr>mo_provider = ''p'', mo_model = ''m'', mo_runtime = ''r'', mo_model_version = ''1''\<rparr>,
     pk_prompt_template = ''propose'', pk_policy = w_policy, pk_input_schema = w_schema, pk_output_schema = w_schema,
     pk_trust_labels = [''trusted_system''], pk_allowed_tools = [''research.retrieve''], pk_allowed_data_classes = [],
     pk_created_by = ''author''\<rparr>"

lemma w_bundle_valid: "valid_bundle_create w_bundle_create = Inr ()"
  by (simp add: valid_bundle_create_def w_bundle_create_def valid_bundle_key_def key_char_def valid_version_def digits_def
      text_between_def valid_model_binding_def trust_label_def validate_contract_def w_schema_def w_policy_def
      dget_def dict_get_def)

definition w_bundle :: prompt_policy_bundle where
  "w_bundle = new_bundle 0 w_bundle_create w_known"

lemma w_created_bundle: "\<exists>d. create_policy_bundle 0 w_bundle_create w_known = Inr (w_bundle, d) \<and> bundles d = [w_bundle]
    \<and> evaluations d = []"
  by (simp add: create_policy_bundle_def w_bundle_valid create_bundle_def Let_def on_integrity_def w_bundle_def frame
      w_known_def empty_rdb_def)

theorem policy_promotion_invariant_witness:
  "\<exists>d. research_reachable id d \<and> bundles d = [w_bundle] \<and> one_active_bundle (bundles d)
     \<and> list_all data_only_bundle (bundles d) \<and> policy_chain_ok (bd_id w_bundle) d"
proof -
  obtain d where c: "create_policy_bundle 0 w_bundle_create w_known = Inr (w_bundle, d)" and b: "bundles d = [w_bundle]"
    using w_created_bundle by blast
  have "research_reachable id d"
    using w_known_reachable[of id] step_policy[OF policy_create[OF c]]
    unfolding research_reachable_def by (rule rtranclp.rtrancl_into_rtrancl)
  then show ?thesis using b policy_promotion_invariant by blast
qed

lemma w_wf_schema: "wf_schema (JObj w_schema)"
proof (rule wf_schema.intros)
  show "wf_keywords w_schema" by (simp add: wf_keywords_def int_bound_def w_schema_def)
next
  fix k p assume "property_of w_schema k = Some p"
  then have "p = JObj [(''type'', JStr ''string''), (''maxLength'', JInt 5)]"
    by (auto simp: property_of_def w_schema_def split: if_split_asm)
  moreover have "wf_schema (JObj [(''type'', JStr ''string''), (''maxLength'', JInt 5)])"
    by (rule wf_schema.intros) (auto simp: wf_keywords_def int_bound_def property_of_def)
  ultimately show "wf_schema p" by simp
next
  fix p assume "map_of w_schema ''items'' = Some p"
  then show "wf_schema p" by (simp add: w_schema_def)
qed

definition w_output :: json where
  "w_output = JObj [(''answer'', JStr ''short'')]"

lemma w_valid_output: "validate id (JObj w_schema) w_output path = Inr []"
proof -
  have inner: "validate id (JObj [(''type'', JStr ''string''), (''maxLength'', JInt 5)]) (JStr ''short'') q = Inr []" for q
    by (subst validate.simps)
      (simp add: dget_def dict_get_def type_names_def enum_violations_def text_violations_def Let_def)
  show ?thesis
    by (subst validate.simps)
      (simp add: w_schema_def w_output_def dget_def dict_get_def type_names_def enum_violations_def Let_def
        required_violations_def additional_violations_def shared_keys_def property_schema_def dget_default_def
        py_set_def sorted_names_def sorted_set_def member_def inner)
qed

theorem validate_iff_conforms_witness:
  "validate id (JObj w_schema) w_output ''$'' = Inr [] \<and> conforms (JObj w_schema) w_output"
  using validate_iff_conforms[of "JObj w_schema" id w_output "''$''"] w_wf_schema w_valid_output by simp

section \<open>An evaluation and its repetition\<close>

definition w_evaluation :: prompt_policy_evaluation_create where
  "w_evaluation = \<lparr>pe_category = ''valid_output'', pe_fixture = [], pe_model_output = w_output, pe_evaluated_by = ''author''\<rparr>"

definition w_review :: prompt_policy_evaluation_create where
  "w_review = \<lparr>pe_category = ''valid_output'', pe_fixture = [(''case'', JInt 2)], pe_model_output = w_output,
     pe_evaluated_by = ''reviewer''\<rparr>"

lemma w_no_violations: "output_violations id w_bundle w_output = Inr []"
proof -
  have b: "bd_output_schema w_bundle = w_schema" "bd_policy w_bundle = w_policy"
    by (simp_all add: w_bundle_def new_bundle_def w_bundle_create_def)
  have "pattern_violations w_policy t = Inr []" for t
    by (simp add: pattern_violations_def w_policy_def dget_default_def)
  moreover have "field_violations w_policy w_output = Inr []"
    by (simp add: field_violations_def w_policy_def dget_default_def w_output_def py_set_def sorted_set_def)
  ultimately show ?thesis by (simp add: output_violations_def b w_valid_output)
qed

theorem repeated_outcome_refused_witness:
  "\<exists>d v d'. run_evaluation id 1 (bd_id w_bundle) w_evaluation d = Inr (v, d') \<and> pe_fixture w_review \<noteq> pe_fixture w_evaluation
     \<and> run_evaluation id 2 (bd_id w_bundle) w_review d' = http 409 ''This exact evaluation fixture was already recorded.''"
proof -
  obtain d :: rdb where b: "bundles d = [w_bundle]" and e: "evaluations d = []" using w_created_bundle by blast
  have g: "get_row bd_id (bundles d) (bd_id w_bundle) = Some w_bundle" by (simp add: b)
  have valid: "valid_evaluation_create w_evaluation" "valid_evaluation_create w_review"
    by (simp_all add: valid_evaluation_create_def CATEGORIES_def text_between_def w_evaluation_def w_review_def)
  have out: "pe_model_output w_evaluation = w_output" "pe_model_output w_review = w_output"
    by (simp_all add: w_evaluation_def w_review_def)
  obtain v d' where r: "run_evaluation id 1 (bd_id w_bundle) w_evaluation d = Inr (v, d')"
    by (simp add: run_evaluation_def locked_bundle_def g valid evaluate_def out w_no_violations e Let_def on_integrity_def)
  have "run_evaluation id 2 (bd_id w_bundle) w_review d' = http 409 ''This exact evaluation fixture was already recorded.''"
    by (rule repeated_outcome_refused[OF r g valid(2)]) (simp_all add: w_evaluation_def w_review_def)
  moreover have "pe_fixture w_review \<noteq> pe_fixture w_evaluation" by (simp add: w_evaluation_def w_review_def)
  ultimately show ?thesis using r by blast
qed

section \<open>A symbolic search\<close>

definition w_row :: factor_experiment_program where
  "w_row = \<lparr>fx_id = 1, fx_program_key = ''DISC-1'', fx_hypothesis_id = 7,
     fx_language_version = ''factor-experiment-language-v1.0.0'', fx_source = w_source\<lparr>fs_factors := []\<rparr>,
     fx_source_digest = ''s'', fx_semantic_digest = ''m'', fx_compiled = JNull, fx_compiled_digest = ''c'',
     fx_status = ''active'', fx_supersedes_program_id = None, fx_registered_by = ''researcher'', fx_registered_at = 0\<rparr>"

definition w_limits :: run_constraints where
  "w_limits = \<lparr>ss_maximum_candidates = 2, ss_maximum_nodes = 4, ss_maximum_depth = 3, ss_maximum_constants = 0,
     ss_allowed_operators = [''field''], ss_required_fields = [''close''], ss_allow_parameters = False,
     ss_base_factor_program_digest = ''c'', ss_prompt_policy_digest = ''p''\<rparr>"

definition w_run :: symbolic_search_run where
  "w_run = \<lparr>rs_id = 3, rs_run_key = ''SR-1'', rs_base_factor_program_id = 1, rs_prompt_policy_bundle_id = 2,
     rs_constraints = w_limits, rs_constraints_digest = ''l'', rs_status = ''active'', rs_candidate_count = 0,
     rs_accepted_count = 0, rs_closure = [], rs_generated_by = ''generator'', rs_created_at = 0\<rparr>"

definition w_search :: rdb where
  "w_search = empty_rdb\<lparr>rdb_next_uuid := 4, programs := [w_row], symbolic_runs := [w_run]\<rparr>"

definition w_proposal :: symbolic_proposal where
  "w_proposal = \<lparr>sy_expression = w_field, sy_output_unit = ''usd'',
     sy_generator = \<lparr>si_provider = ''p'', si_model = ''m'', si_version = ''1'', si_seed = 0, si_candidate_index = 0\<rparr>\<rparr>"

definition w_candidate :: symbolic_candidate_create where
  "w_candidate = \<lparr>su_candidate_key = ''cand-1'', su_expression = sy_expression w_proposal,
     su_output_unit = sy_output_unit w_proposal, su_generator = sy_generator w_proposal,
     su_output_digest = digest_json (proposal_json w_proposal), su_submitted_by = ''generator''\<rparr>"

lemma w_proposal_of: "proposal_of w_candidate = w_proposal"
  by (simp add: proposal_of_def w_candidate_def)

lemma w_walk: "walk 1 (JObj w_field) = Inr \<lparr>wa_nodes = 1, wa_depth = 1, wa_constants = 0, wa_operators = [''field''],
    wa_fields = [''close'']\<rparr>"
  by (subst walk.simps) (simp add: shape_def w_field_def dget_def dict_get_def combine_walks_def)

lemma w_semantic: "\<exists>dig. semantic_digest_of (JObj w_field) u = Inr dig"
  by (simp add: semantic_digest_of_def normalize_obj normal_args_def dget_default_def dget_def dict_get_def w_field_def
      normalize_leaf)

lemma w_compiles_top: "compile_expression [(''close'', w_close)] ps 0 path (JObj w_field) = Inr (w_read, ''usd'')"
  by (subst compile_expression.simps)
    (simp add: w_field_def dget_def dict_get_def compile_operator_def compile_field_def dict_lookup_def w_close_def w_read_def)

lemma w_assessed: "\<exists>dig compiled. assess_candidate w_run (Some w_row) [] w_candidate = Inr ([], Some dig, compiled)"
proof -
  obtain dig where dig: "semantic_digest_of (JObj w_field) ''usd'' = Inr dig" using w_semantic by blast
  have fields: "su_expression w_candidate = w_field" "su_output_unit w_candidate = ''usd''"
    "su_output_digest w_candidate = digest_json (proposal_json w_proposal)"
    by (simp_all add: w_candidate_def w_proposal_def)
  have "grammar_violations w_limits w_candidate \<lparr>wa_nodes = 1, wa_depth = 1, wa_constants = 0,
      wa_operators = [''field''], wa_fields = [''close'']\<rparr> = []"
    by (simp add: grammar_violations_Nil w_proposal_of fields within_grammar_def w_limits_def)
  then show ?thesis
    by (simp add: assess_candidate_def Let_def fields w_walk nondeterministic_def w_compiles_top assess_compiled_def dig
        base_digests_def w_row_def w_source_def w_run_def accepted_digests_def flagged_def del: One_nat_def)
qed

lemma w_submits: "\<exists>c d'. submit_candidate 1 3 w_candidate w_search = Inr (c, d') \<and> symbolic_candidates d' = [c]
    \<and> ca_status c = ''accepted''"
proof -
  obtain dig compiled where a: "assess_candidate w_run (Some w_row) [] w_candidate = Inr ([], Some dig, compiled)"
    using w_assessed by blast
  have valid: "valid_candidate_create w_candidate"
    by (simp add: valid_candidate_create_def w_candidate_def w_proposal_def text_between_def valid_generator_def
        digest_json_format)
  have rows: "get_row rs_id (symbolic_runs w_search) 3 = Some w_run" "symbolic_candidates w_search = []"
    "get_row fx_id (programs w_search) 1 = Some w_row" "rs_id w_run = 3" "rs_status w_run = ''active''"
    "rs_base_factor_program_id w_run = 1" "ss_maximum_candidates (rs_constraints w_run) = 2"
    by (simp_all add: w_search_def empty_rdb_def w_run_def w_row_def w_limits_def)
  show ?thesis
    by (simp add: submit_candidate_def valid http_conflict_def validate_candidate_def active_run_def rows
        prior_candidates_def a Let_def new_candidate_def candidate_status_def del: One_nat_def)
qed

theorem accepted_candidate_sound_witness:
  "\<exists>c d' program dig. submit_candidate 1 3 w_candidate w_search = Inr (c, d') \<and> ca_status c = ''accepted''
     \<and> program \<in> set (programs w_search)
     \<and> typed (fs_fields (fx_source program)) [] 33 (JObj w_field) ''usd'' \<and> ca_semantic_digest c = Some dig"
proof -
  obtain c d' where s: "submit_candidate 1 3 w_candidate w_search = Inr (c, d')" and n: "symbolic_candidates d' = [c]"
    and a: "ca_status c = ''accepted''"
    using w_submits by blast
  have "symbolic_candidates d' \<noteq> symbolic_candidates w_search" by (simp add: n w_search_def empty_rdb_def)
  from accepted_candidate_sound[OF s this a] obtain run program dig where
    run: "get_row rs_id (symbolic_runs w_search) 3 = Some run"
    and p: "get_row fx_id (programs w_search) (rs_base_factor_program_id run) = Some program"
    and t: "typed (fs_fields (fx_source program))
        (if ss_allow_parameters (rs_constraints run) then fs_parameters (fx_source program) else []) 33
        (JObj (su_expression w_candidate)) (su_output_unit w_candidate)"
    and dig: "ca_semantic_digest c = Some dig"
    by blast
  have "run = w_run" using run by (simp add: w_search_def w_run_def)
  then have "typed (fs_fields (fx_source program)) [] 33 (JObj w_field) ''usd''"
    using t by (simp add: w_run_def w_limits_def w_candidate_def w_proposal_def)
  moreover have "program \<in> set (programs w_search)" using get_row_Some_in[OF p] by simp
  ultimately show ?thesis using s a dig by blast
qed

lemma w_search_ok: "symbolic_ok w_search"
  by (simp add: symbolic_ok_def w_search_def empty_rdb_def w_run_def run_ok_def prior_candidates_def accepted_in_def
      accepted_digests_def w_limits_def)

theorem symbolic_run_invariant_witness:
  "\<exists>d c. (research_step id)\<^sup>*\<^sup>* w_search d \<and> symbolic_candidates d = [c] \<and> symbolic_ok d"
proof -
  obtain c d' where s: "submit_candidate 1 3 w_candidate w_search = Inr (c, d')" and n: "symbolic_candidates d' = [c]"
    using w_submits by blast
  have "(research_step id)\<^sup>*\<^sup>* w_search d'" using step_candidate[OF s] by blast
  then show ?thesis using n symbolic_run_invariant[OF _ w_search_ok] by blast
qed

section \<open>A reordered expression\<close>

text \<open>The same read with its members in another order has the same normal form.\<close>

definition w_field' :: dict where
  "w_field' = [(''args'', JList [JStr ''close'', JInt 2]), (''op'', JStr ''field'')]"

lemma w_normal: "normalize_expr (JObj w_field) = Inr (JObj w_field)" "normalize_expr (JObj w_field') = Inr (JObj w_field)"
  by (simp_all add: normalize_obj normal_args_def dget_default_def dget_def dict_get_def w_field_def w_field'_def
      normalize_leaf ordered_args_def COMMUTATIVE_def)

theorem commutative_same_digest_witness:
  "w_field \<noteq> w_field' \<and> semantic_digest_of (ir_node ''add'' [JObj w_field', JObj w_field]) ''usd''
     = semantic_digest_of (ir_node ''add'' [JObj w_field, JObj w_field']) ''usd''"
proof -
  have "\<exists>n. normalize_expr (ir_node ''add'' [JObj w_field, JObj w_field']) = Inr n
    \<and> normalize_expr (ir_node ''add'' [JObj w_field', JObj w_field]) = Inr n \<and> normalize_expr n = Inr n
    \<and> semantic_digest_of (ir_node ''add'' [JObj w_field', JObj w_field]) ''usd''
      = semantic_digest_of (ir_node ''add'' [JObj w_field, JObj w_field']) ''usd''"
    by (rule commutative_same_digest[of _ _ "[JObj w_field, JObj w_field]" _ "[JObj w_field, JObj w_field]"])
      (simp_all add: COMMUTATIVE_def w_normal)
  moreover have "w_field \<noteq> w_field'" by (simp add: w_field_def w_field'_def)
  ultimately show ?thesis by blast
qed

end
