(* ===== verification/IsoTime.thy ===== *)
theory IsoTime
  imports Prelude
begin

text \<open>
  Aware instants as requests carry them, with the offset of their text, and
  \<open>datetime.fromisoformat\<close> on the texts \<open>datetime.isoformat\<close> writes. The basic and the week
  forms of ISO 8601, which nothing in the repository writes, are left out.
\<close>

section \<open>Aware instants\<close>

text \<open>An instant and the UTC offset, in minutes, of the text it was sent with.\<close>

type_synonym aware = "time \<times> int"

definition offset_str :: "int \<Rightarrow> string" where
  "offset_str off =
     (if off < 0 then ''-'' else ''+'') @ zero_pad 2 (int_str (\<bar>off\<bar> div 60)) @ '':'' @ zero_pad 2 (int_str (\<bar>off\<bar> mod 60))"

text \<open>\<open>isoformat()\<close> of an aware instant: the local time and the offset.\<close>

definition aware_iso :: "aware \<Rightarrow> string" where
  "aware_iso a = (let s = isoformat (fst a + seconds (60 * snd a)) in take (length s - 6) s @ offset_str (snd a))"

lemma offset_str_0: "offset_str 0 = ''+00:00''"
  by code_simp

text \<open>A time sent in UTC prints as the column read back from the database does.\<close>

lemma isoformat_suffix: "\<exists>x. isoformat t = x @ ''+00:00''"
  unfolding isoformat_def isoformat_sep_def Let_def case_prod_unfold by (metis append_assoc)

lemma aware_iso_utc: "aware_iso (t, 0) = isoformat t"
  using isoformat_suffix[of t] by (auto simp: aware_iso_def offset_str_0 Let_def seconds_def)

section \<open>Parsing\<close>

text \<open>A number of exactly \<open>n\<close> decimal digits at the head of a text.\<close>

definition number :: "nat \<Rightarrow> string \<Rightarrow> (int \<times> string) option" where
  "number n s =
     (let h = take n s
      in if length h = n \<and> list_all (\<lambda>c. c \<in> set ''0123456789'') h
         then Some (foldl (\<lambda>a c. 10 * a + (of_char c - 48)) 0 h, drop n s) else None)"

text \<open>The number after one given character.\<close>

definition number_after :: "char \<Rightarrow> nat \<Rightarrow> string \<Rightarrow> (int \<times> string) option" where
  "number_after c n s = (case s of [] \<Rightarrow> None | x # xs \<Rightarrow> if x = c then number n xs else None)"

definition leap_year :: "int \<Rightarrow> bool" where
  "leap_year y = (y mod 4 = 0 \<and> (y mod 100 \<noteq> 0 \<or> y mod 400 = 0))"

definition days_in_month :: "int \<Rightarrow> int \<Rightarrow> int" where
  "days_in_month y m = (if m = 2 then (if leap_year y then 29 else 28) else if m \<in> {4, 6, 9, 11} then 30 else 31)"

text \<open>The day number of a civil date, counted from 1970-01-01.\<close>

definition days_from_civil :: "int \<Rightarrow> int \<Rightarrow> int \<Rightarrow> int" where
  "days_from_civil y m d =
     (let y' = (if m \<le> 2 then y - 1 else y);
          mp = (if m \<le> 2 then m + 9 else m - 3)
      in 365 * y' + y' div 4 - y' div 100 + y' div 400 + (153 * mp + 2) div 5 + d - 1 - 719468)"

text \<open>The day, and the time of day in microseconds; up to six digits of a fraction count.\<close>

definition parse_date :: "string \<Rightarrow> (int \<times> string) option" where
  "parse_date s =
     Option.bind (number 4 s) (\<lambda>(y, s1).
       Option.bind (number_after CHR ''-'' 2 s1) (\<lambda>(m, s2).
         Option.bind (number_after CHR ''-'' 2 s2) (\<lambda>(d, s3).
           if 1 \<le> y \<and> 1 \<le> m \<and> m \<le> 12 \<and> 1 \<le> d \<and> d \<le> days_in_month y m
           then Some (days_from_civil y m d, s3) else None)))"

definition parse_fraction :: "string \<Rightarrow> (int \<times> string) option" where
  "parse_fraction s =
     (case s of
        [] \<Rightarrow> Some (0, s)
      | x # xs \<Rightarrow>
          if x = CHR ''.'' \<or> x = CHR '',''
          then (let ds = takeWhile (\<lambda>c. c \<in> set ''0123456789'') xs;
                    six = take 6 (ds @ replicate 6 CHR ''0'')
                in if ds = [] then None
                   else map_option (\<lambda>(n, _). (n, drop (length ds) xs)) (number 6 six))
          else Some (0, s))"

definition parse_clock :: "string \<Rightarrow> (time \<times> string) option" where
  "parse_clock s =
     Option.bind (number 2 s) (\<lambda>(h, s1).
       Option.bind (number_after CHR '':'' 2 s1) (\<lambda>(m, s2).
         Option.bind (number_after CHR '':'' 2 s2) (\<lambda>(sec, s3).
           Option.bind (parse_fraction s3) (\<lambda>(f, s4).
             if h < 24 \<and> m < 60 \<and> sec < 60
             then Some (seconds (3600 * h + 60 * m + sec) + f, s4) else None))))"

text \<open>The offset: none for a naive time.\<close>

definition parse_offset :: "string \<Rightarrow> int option option" where
  "parse_offset s =
     (case s of
        [] \<Rightarrow> Some None
      | x # xs \<Rightarrow>
          if x = CHR ''+'' \<or> x = CHR ''-''
          then Option.bind (number 2 xs) (\<lambda>(h, s1).
                 Option.bind (number_after CHR '':'' 2 s1) (\<lambda>(m, s2).
                   if s2 = [] \<and> h < 24 \<and> m < 60
                   then Some (Some ((if x = CHR ''-'' then - 1 else 1) * (60 * h + m))) else None))
          else None)"

text \<open>\<open>datetime.fromisoformat\<close>: a \<open>ValueError\<close>, a naive time, or the instant.\<close>

definition fromisoformat :: "string \<Rightarrow> time option res" where
  "fromisoformat s =
     (case parse_date s of
        None \<Rightarrow> Inl (ValueError ''Invalid isoformat string'')
      | Some (days, []) \<Rightarrow> Inr None
      | Some (days, _ # s1) \<Rightarrow>
          (case parse_clock s1 of
             None \<Rightarrow> Inl (ValueError ''Invalid isoformat string'')
           | Some (t, s2) \<Rightarrow>
               (case parse_offset s2 of
                  None \<Rightarrow> Inl (ValueError ''Invalid isoformat string'')
                | Some None \<Rightarrow> Inr None
                | Some (Some off) \<Rightarrow> Inr (Some (seconds (86400 * days) + t - seconds (60 * off))))))"

end
