(* ===== verification/EventSourcing.thy ===== *)
theory EventSourcing
  imports Prelude "HOL-Library.Multiset"
begin

text \<open>
  Event-sourced tables: each row is the result of replaying the events it owns. An event says
  what it found and what it left; committing it appends it to the log and moves its row. The
  locale \<open>event_sourced\<close> is the contract; the lifecycles interpret it.
\<close>

fun replays :: "('e \<Rightarrow> 's) \<Rightarrow> ('e \<Rightarrow> 's) \<Rightarrow> 's \<Rightarrow> 'e list \<Rightarrow> 's option" where
  "replays before after s [] = Some s"
| "replays before after s (e # es) = (if before e = s then replays before after (after e) es else None)"

lemma replays_snoc:
  "replays before after s (es @ [e]) =
     (case replays before after s es of
        None \<Rightarrow> None
      | Some t \<Rightarrow> if before e = t then Some (after e) else None)"
  by (induction es arbitrary: s) auto

text \<open>A variant that goes down with every event bounds the length of a history.\<close>

lemma replays_variant:
  assumes "replays before after s es = Some t"
    and "\<And>e. e \<in> set es \<Longrightarrow> rank (after e) < (rank (before e) :: nat)"
  shows "length es + rank t \<le> rank s"
  using assms
proof (induction es arbitrary: s)
  case (Cons e es)
  then have "replays before after (after e) es = Some t" "before e = s"
    by (simp_all split: if_split_asm)
  with Cons.IH[of "after e"] Cons.prems(2) have "length es + rank t \<le> rank (after e)" by auto
  moreover have "rank (after e) < rank s" using Cons.prems(2)[of e] \<open>before e = s\<close> by simp
  ultimately show ?case by simp
qed simp

locale event_sourced =
  fixes rows :: "'d \<Rightarrow> 'p list" and key :: "'p \<Rightarrow> 'k" and initial :: "'p \<Rightarrow> 's" and snapshot :: "'p \<Rightarrow> 's"
    and events :: "'d \<Rightarrow> 'e list" and owner :: "'e \<Rightarrow> 'k" and before :: "'e \<Rightarrow> 's" and after :: "'e \<Rightarrow> 's"
    and proper :: "'e \<Rightarrow> bool" and moved :: "'t \<Rightarrow> 'e \<Rightarrow> 'p \<Rightarrow> 'p" and commit :: "'t \<Rightarrow> 'e \<Rightarrow> 'd \<Rightarrow> 'd"
  assumes events_commit: "events (commit t e d) = events d @ [e]"
    and rows_commit: "rows (commit t e d) = upd_row key (owner e) (moved t e) (rows d)"
    and key_moved: "key (moved t e p) = key p"
    and initial_moved: "initial (moved t e p) = initial p"
    and snapshot_moved: "proper e \<Longrightarrow> before e = snapshot p \<Longrightarrow> snapshot (moved t e p) = after e"
begin

definition history :: "'p \<Rightarrow> 'd \<Rightarrow> 'e list" where
  "history p d = filter (\<lambda>e. owner e = key p) (events d)"

definition consistent :: "'d \<Rightarrow> bool" where
  "consistent d \<longleftrightarrow> (\<forall>p \<in> set (rows d). replays before after (initial p) (history p d) = Some (snapshot p))"

lemma consistent_cong: "rows d' = rows d \<Longrightarrow> events d' = events d \<Longrightarrow> consistent d' = consistent d"
  by (simp add: consistent_def history_def)

lemma history_moved: "history (moved t e p) (commit t e d) = (if owner e = key p then history p d @ [e] else history p d)"
  by (simp add: history_def events_commit key_moved)

lemma history_other: "owner e \<noteq> key p \<Longrightarrow> history p (commit t e d) = history p d"
  by (simp add: history_def events_commit)

lemma consistent_commit:
  assumes ok: "consistent d" and e: "proper e"
    and found: "\<And>p. p \<in> set (rows d) \<Longrightarrow> key p = owner e \<Longrightarrow> before e = snapshot p"
  shows "consistent (commit t e d)"
  unfolding consistent_def
proof
  fix p' assume "p' \<in> set (rows (commit t e d))"
  then obtain p where p: "p \<in> set (rows d)" and p': "p' = (if key p = owner e then moved t e p else p)"
    by (auto simp: rows_commit upd_row_def)
  have r: "replays before after (initial p) (history p d) = Some (snapshot p)"
    using ok p by (simp add: consistent_def)
  show "replays before after (initial p') (history p' (commit t e d)) = Some (snapshot p')"
  proof (cases "key p = owner e")
    case True
    with p' found[OF p] r e show ?thesis
      by (simp add: history_moved initial_moved snapshot_moved replays_snoc)
  next
    case False
    with p' r show ?thesis by (simp add: history_other)
  qed
qed

text \<open>New rows without events of their own start at their initial snapshot.\<close>

lemma consistent_insert:
  assumes "consistent d" and "rows d' = rows d @ ps" and "events d' = events d"
    and "\<And>p. p \<in> set ps \<Longrightarrow> snapshot p = initial p"
    and "\<And>p e. p \<in> set ps \<Longrightarrow> e \<in> set (events d) \<Longrightarrow> owner e \<noteq> key p"
  shows "consistent d'"
proof -
  have "history p d' = []" if "p \<in> set ps" for p
    using assms(3,5) that by (auto simp: history_def filter_empty_conv)
  then show ?thesis using assms(1-4) by (auto simp: consistent_def history_def)
qed

end

text \<open>A query ordered by a time that grows along the log, then by another key, returns the log.\<close>

lemma query_in_log_order:
  assumes "sorted_wrt (<) (map f xs)"
  shows "sort_key f (sort_key g xs) = (xs :: 'a list)"
proof -
  have "sorted (map f xs)" "distinct (map f xs)" using assms unfolding strict_sorted_iff by simp_all
  then show ?thesis by (intro sort_key_inj_key_eq) (simp_all add: distinct_map)
qed

end
