(* ===== verification/Lifecycle.thy ===== *)
theory Lifecycle
  imports Authority PyValues IsoTime EventSourcing
begin

text \<open>
  Institutional lifecycles (\<open>services/institutional_lifecycle.py\<close>,
  \<open>services/candidate_lifecycle_gate.py\<close>, \<open>schemas/institutional_lifecycle.py\<close>,
  \<open>api/routes/institutional_lifecycle.py\<close>): every subject has four orthogonal dimensions, each a
  state machine whose projection is the replay of a log of events; a transition is checked
  against the version, the machine and the states of the other dimensions, is authorised by the
  decision authority and recorded with the digest of its predecessor.
\<close>

section \<open>Rows\<close>

datatype dimension = Research | Evidence | Operations | Capital

fun dimension_str :: "dimension \<Rightarrow> string" where
  "dimension_str Research = ''research''"
| "dimension_str Evidence = ''evidence''"
| "dimension_str Operations = ''operations''"
| "dimension_str Capital = ''capital''"

record lifecycle_projection =
  pj_id :: uuid
  pj_subject_type :: string
  pj_subject_id :: string
  pj_subject_digest :: string
  pj_dimension :: dimension
  pj_state :: string
  pj_version :: int
  pj_last_event_digest :: "string option"
  pj_updated_at :: time

record lifecycle_event =
  lv_id :: uuid
  lv_projection_id :: uuid
  lv_command_id :: uuid
  lv_dimension :: dimension
  lv_command :: string
  lv_prior_state :: string
  lv_resulting_state :: string
  lv_actor :: string
  lv_authority_decision_id :: uuid
  lv_expected_version :: int
  lv_resulting_version :: int
  lv_reason :: string
  lv_evidence :: "string list"
  lv_prior_event_digest :: "string option"
  lv_record_digest :: string
  lv_effective_at :: time
  lv_created_at :: time

record lifecycle_consequence =
  lc_id :: uuid
  lc_event_id :: uuid
  lc_command_id :: uuid
  lc_action :: string
  lc_status :: string
  lc_prior_state :: string
  lc_resulting_state :: string
  lc_rollback_state :: string
  lc_approvers :: "string list"
  lc_affected_descendants :: "string list"
  lc_evidence_epoch :: time
  lc_expires_at :: time
  lc_reversed_by_id :: "uuid option"
  lc_reversal_of_id :: "uuid option"
  lc_reason :: string
  lc_record_digest :: string
  lc_created_at :: time

text \<open>The columns of a producer receipt that the admission gate reads.\<close>

record producer_receipt =
  qp_milestone :: string
  qp_receipt_digest :: string
  qp_receipt :: dict

text \<open>The control plane's own tables and those of the lifecycles; new identifiers come from the former.\<close>

record ldb =
  core :: db
  projections :: "lifecycle_projection list"
  lifecycle_events :: "lifecycle_event list"
  consequences :: "lifecycle_consequence list"
  producer_receipts :: "producer_receipt list"

definition empty_ldb :: ldb where
  "empty_ldb = \<lparr>core = empty_db, projections = [], lifecycle_events = [], consequences = [], producer_receipts = []\<rparr>"

section \<open>Requests\<close>

record lifecycle_subject_create =
  lq_subject_type :: string
  lq_subject_id :: string
  lq_subject_digest :: string

record transition_create =
  tq_command_id :: uuid
  tq_actor :: string
  tq_dimension :: dimension
  tq_command :: string
  tq_expected_version :: int
  tq_subject_digest :: string
  tq_evidence :: "string list"
  tq_reason :: string
  tq_risk_level :: int
  tq_environment :: string
  tq_requester :: "string option"
  tq_originator :: "string option"
  tq_evaluator :: "string option"
  tq_active_veto_roles :: "string list"
  tq_authority_exception_id :: "uuid option"
  tq_effective_at :: aware

definition lower_alpha :: "char \<Rightarrow> bool" where
  "lower_alpha c = (c \<in> set ''abcdefghijklmnopqrstuvwxyz'')"

definition alnum :: "char \<Rightarrow> bool" where
  "alnum c = (c \<in> set ''abcdefghijklmnopqrstuvwxyzABCDEFGHIJKLMNOPQRSTUVWXYZ0123456789'')"

text \<open>The patterns \<open>[a-z][a-z0-9-]{1,79}\<close> and \<open>[A-Za-z0-9][A-Za-z0-9._:-]{0,199}\<close>.\<close>

definition kebab_name :: "string \<Rightarrow> bool" where
  "kebab_name s =
     (text_between 2 80 s \<and> lower_alpha (hd s)
      \<and> list_all (\<lambda>c. lower_alpha c \<or> c \<in> set ''0123456789-'') (tl s))"

definition subject_name :: "string \<Rightarrow> bool" where
  "subject_name s =
     (text_between 1 200 s \<and> alnum (hd s) \<and> list_all (\<lambda>c. alnum c \<or> c \<in> set ''._:-'') (tl s))"

definition valid_subject_create :: "lifecycle_subject_create \<Rightarrow> bool" where
  "valid_subject_create p =
     (kebab_name (lq_subject_type p) \<and> subject_name (lq_subject_id p) \<and> is_sha256_hex (lq_subject_digest p))"

definition valid_transition_create :: "transition_create \<Rightarrow> bool" where
  "valid_transition_create q =
     (text_between 2 150 (tq_actor q) \<and> kebab_name (tq_command q) \<and> 0 \<le> tq_expected_version q
      \<and> is_sha256_hex (tq_subject_digest q) \<and> length (tq_evidence q) \<le> 100
      \<and> text_between 10 2000 (tq_reason q) \<and> 0 \<le> tq_risk_level q \<and> tq_risk_level q \<le> 3
      \<and> length (tq_environment q) \<le> 80)"

section \<open>The state machines\<close>

fun initial_state :: "dimension \<Rightarrow> string" where
  "initial_state Research = ''proposed''"
| "initial_state Evidence = ''unassessed''"
| "initial_state Operations = ''not-considered''"
| "initial_state Capital = ''no-authority''"

definition INITIAL_STATES :: "(dimension \<times> string) list" where
  "INITIAL_STATES = map (\<lambda>d. (d, initial_state d)) [Research, Evidence, Operations, Capital]"

fun TRANSITIONS :: "dimension \<Rightarrow> ((string \<times> string) \<times> string) list" where
  "TRANSITIONS Research =
     [((''proposed'', ''register''), ''registered''), ((''registered'', ''start''), ''running''),
      ((''running'', ''succeed''), ''succeeded''), ((''running'', ''fail''), ''failed''),
      ((''proposed'', ''reject''), ''rejected''), ((''registered'', ''reject''), ''rejected'')]"
| "TRANSITIONS Evidence =
     [((''unassessed'', ''admit''), ''admissible''), ((''unassessed'', ''dispute''), ''disputed''),
      ((''unassessed'', ''invalidate''), ''invalid''), ((''disputed'', ''admit''), ''admissible''),
      ((''disputed'', ''invalidate''), ''invalid''), ((''admissible'', ''retract''), ''retracted''),
      ((''admissible'', ''retire''), ''retired'')]"
| "TRANSITIONS Operations =
     [((''not-considered'', ''nominate''), ''candidate''), ((''candidate'', ''approve''), ''approved''),
      ((''approved'', ''start-shadow''), ''shadow''), ((''shadow'', ''start-demo''), ''demo''),
      ((''demo'', ''start-live''), ''live''), ((''candidate'', ''reject''), ''rejected''),
      ((''approved'', ''revoke''), ''revoked''), ((''shadow'', ''suspend''), ''suspended''),
      ((''demo'', ''suspend''), ''suspended''), ((''live'', ''suspend''), ''suspended''),
      ((''suspended'', ''retire''), ''retired'')]"
| "TRANSITIONS Capital =
     [((''no-authority'', ''qualify''), ''eligible''), ((''eligible'', ''allocate''), ''allocated''),
      ((''allocated'', ''reduce''), ''reduced''), ((''allocated'', ''halt''), ''revoked''),
      ((''reduced'', ''halt''), ''revoked''), ((''eligible'', ''revoke''), ''revoked'')]"

fun AUTHORITY_ACTIONS :: "dimension \<Rightarrow> string \<times> string" where
  "AUTHORITY_ACTIONS Research = (''experiment-execution'', ''authorize'')"
| "AUTHORITY_ACTIONS Evidence = (''evidence-admissibility'', ''admit'')"
| "AUTHORITY_ACTIONS Operations = (''production-eligibility'', ''approve'')"
| "AUTHORITY_ACTIONS Capital = (''capital-allocation'', ''allocate'')"

definition COMMAND_AUTHORITY_ACTIONS :: "((dimension \<times> string) \<times> (string \<times> string)) list" where
  "COMMAND_AUTHORITY_ACTIONS =
     [((Research, ''fail''), (''experiment-execution'', ''halt'')),
      ((Research, ''reject''), (''research-program-charter'', ''reject'')),
      ((Evidence, ''dispute''), (''evidence-admissibility'', ''quarantine'')),
      ((Evidence, ''invalidate''), (''evidence-admissibility'', ''reject'')),
      ((Evidence, ''retract''), (''evidence-admissibility'', ''reject'')),
      ((Evidence, ''retire''), (''evidence-admissibility'', ''reject'')),
      ((Operations, ''reject''), (''production-eligibility'', ''revoke'')),
      ((Operations, ''revoke''), (''production-eligibility'', ''revoke'')),
      ((Operations, ''suspend''), (''production-eligibility'', ''revoke'')),
      ((Operations, ''retire''), (''production-eligibility'', ''revoke'')),
      ((Capital, ''reduce''), (''capital-allocation'', ''reduce'')),
      ((Capital, ''halt''), (''capital-allocation'', ''halt'')),
      ((Capital, ''revoke''), (''capital-allocation'', ''halt''))]"

definition next_state :: "dimension \<Rightarrow> string \<Rightarrow> string \<Rightarrow> string res" where
  "next_state dim state command =
     (case map_of (TRANSITIONS dim) (state, command) of
        None \<Rightarrow> Inl (HTTPException 409 (JObj
                  [(''reason'', JStr ''invalid-transition''), (''dimension'', JStr (dimension_str dim)),
                   (''state'', JStr state), (''command'', JStr command)]))
      | Some s \<Rightarrow> Inr s)"

definition validate_expected_version :: "int \<Rightarrow> int \<Rightarrow> unit res" where
  "validate_expected_version current expected =
     (if current \<noteq> expected
      then Inl (HTTPException 409 (JObj [(''reason'', JStr ''stale-version''), (''current_version'', JInt current)]))
      else Inr ())"

text \<open>\<open>states[dim] != wanted\<close> raises the given detail, a missing key a \<open>KeyError\<close>.\<close>

definition require_state :: "(dimension \<times> string) list \<Rightarrow> dimension \<Rightarrow> string \<Rightarrow> string \<Rightarrow> unit res" where
  "require_state states dim wanted detail =
     (case map_of states dim of
        None \<Rightarrow> Inl (KeyError (dimension_str dim))
      | Some s \<Rightarrow> if s \<noteq> wanted then http 409 detail else Inr ())"

definition operations_commands :: "string list" where
  "operations_commands = [''nominate'', ''approve'', ''start-shadow'', ''start-demo'', ''start-live'']"

definition validate_cross_dimension_guard :: "dimension \<Rightarrow> string \<Rightarrow> (dimension \<times> string) list \<Rightarrow> unit res" where
  "validate_cross_dimension_guard dim command states =
     (if dim = Operations \<and> command \<in> set operations_commands
      then (let detail = ''Operations progression requires succeeded research and admissible evidence.''
            in ebind (require_state states Research ''succeeded'' detail) (\<lambda>_.
                 require_state states Evidence ''admissible'' detail))
      else if dim = Capital \<and> command \<in> {''qualify'', ''allocate''}
      then (let detail = ''Capital progression requires live operations and admissible evidence.''
            in ebind (require_state states Operations ''live'' detail) (\<lambda>_.
                 require_state states Evidence ''admissible'' detail))
      else Inr ())"

section \<open>The admission gate\<close>

text \<open>\<open>s.replace("Z", "+00:00")\<close>.\<close>

definition replace_zulu :: "string \<Rightarrow> string" where
  "replace_zulu s = concat (map (\<lambda>c. if c = CHR ''Z'' then ''+00:00'' else [c]) s)"

text \<open>The body of the loop: whether the receipt is a fresh recommendation for the very subject and action.\<close>

definition receipt_matches :: "time \<Rightarrow> string \<Rightarrow> string \<Rightarrow> producer_receipt \<Rightarrow> bool res" where
  "receipt_matches now subject_digest requested_action r =
     (case (case dict_get (qp_receipt r) ''result'' of None \<Rightarrow> JObj [] | Some v \<Rightarrow> v) of
        JObj result \<Rightarrow>
          ebind (fromisoformat (replace_zulu (py_str
                   (case dict_get result ''expires_at'' of None \<Rightarrow> JStr '''' | Some v \<Rightarrow> v)))) (\<lambda>expires_at.
            if dget result ''candidate_digest'' = JStr subject_digest
               \<and> dget result ''requested_action'' = JStr requested_action
               \<and> dget result ''eligible_for_authority_review'' = JBool True
            then (case expires_at of None \<Rightarrow> Inl TypeError | Some t \<Rightarrow> Inr (now < t))
            else Inr False)
      | _ \<Rightarrow> Inl (AttributeError ''get''))"

fun count_matches :: "(producer_receipt \<Rightarrow> bool res) \<Rightarrow> producer_receipt list \<Rightarrow> nat res" where
  "count_matches f [] = Inr 0"
| "count_matches f (r # rs) =
     ebind (f r) (\<lambda>b. ebind (count_matches f rs) (\<lambda>n. Inr (if b then Suc n else n)))"

definition require_risk004_evidence ::
  "time \<Rightarrow> string \<Rightarrow> string \<Rightarrow> string \<Rightarrow> string list \<Rightarrow> ldb \<Rightarrow> unit res" where
  "require_risk004_evidence now subject_type subject_digest requested_action evidence L =
     (if subject_type \<noteq> ''portfolio-candidate'' then Inr ()
      else
        ebind (count_matches (receipt_matches now subject_digest requested_action)
                 (filter (\<lambda>r. qp_milestone r = ''RISK-004'' \<and> qp_receipt_digest r \<in> set evidence)
                    (producer_receipts L))) (\<lambda>n.
          if n \<noteq> 1
          then http 409 ''Candidate lifecycle transition requires one fresh, exact RISK-004 receipt.''
          else Inr ()))"

section \<open>Subjects\<close>

definition of_subject :: "string \<Rightarrow> string \<Rightarrow> lifecycle_projection \<Rightarrow> bool" where
  "of_subject st si p = (pj_subject_type p = st \<and> pj_subject_id p = si)"

text \<open>\<open>_projections\<close>: the rows of a subject by the name of their dimension.\<close>

definition projections_of :: "string \<Rightarrow> string \<Rightarrow> ldb \<Rightarrow> lifecycle_projection list" where
  "projections_of st si L = sort_key (dimension_str \<circ> pj_dimension) (filter (of_subject st si) (projections L))"

definition new_projection :: "time \<Rightarrow> uuid \<Rightarrow> lifecycle_subject_create \<Rightarrow> dimension \<Rightarrow> lifecycle_projection" where
  "new_projection now i p dim =
     \<lparr>pj_id = i, pj_subject_type = lq_subject_type p, pj_subject_id = lq_subject_id p,
      pj_subject_digest = lq_subject_digest p, pj_dimension = dim, pj_state = initial_state dim,
      pj_version = 0, pj_last_event_digest = None, pj_updated_at = now\<rparr>"

text \<open>
  \<open>create_subject\<close>. Its handler for a concurrent registration of the same subject is not needed here: a
  request is one step, and the uniqueness of the rows holds by the first check.
\<close>

definition create_subject ::
  "time \<Rightarrow> lifecycle_subject_create \<Rightarrow> ldb \<Rightarrow> (lifecycle_projection list \<times> ldb) res" where
  "create_subject now p L =
     (let existing = projections_of (lq_subject_type p) (lq_subject_id p) L
      in if existing \<noteq> []
         then if list_ex (\<lambda>x. pj_subject_digest x \<noteq> lq_subject_digest p) existing
              then http 409 ''Lifecycle subject digest is immutable.''
              else Inr (existing, L)
         else (let n = next_uuid (core L);
                   rows = map2 (\<lambda>i (dim, _). new_projection now i p dim) [n..<n + 4] INITIAL_STATES;
                   L' = L\<lparr>projections := projections L @ rows, core := (core L)\<lparr>next_uuid := n + 4\<rparr>\<rparr>
               in Inr (projections_of (lq_subject_type p) (lq_subject_id p) L', L')))"

section \<open>Transitions\<close>

text \<open>A command that was recorded before is answered with its event, if it is the same command.\<close>

definition replayed ::
  "string \<Rightarrow> string \<Rightarrow> transition_create \<Rightarrow> lifecycle_event \<Rightarrow> ldb \<Rightarrow> (lifecycle_projection \<times> lifecycle_event) res" where
  "replayed st si q e L =
     (case get_row pj_id (projections L) (lv_projection_id e) of
        None \<Rightarrow> http 409 ''Command identity was reused with different content.''
      | Some p \<Rightarrow>
          if pj_subject_type p \<noteq> st \<or> pj_subject_id p \<noteq> si \<or> lv_dimension e \<noteq> tq_dimension q
             \<or> lv_command e \<noteq> tq_command q \<or> lv_expected_version e \<noteq> tq_expected_version q
          then http 409 ''Command identity was reused with different content.''
          else Inr (p, e))"

definition current_states :: "string \<Rightarrow> string \<Rightarrow> ldb \<Rightarrow> (dimension \<times> string) list" where
  "current_states st si L = map (\<lambda>p. (pj_dimension p, pj_state p)) (projections_of st si L)"

definition find_projection :: "string \<Rightarrow> string \<Rightarrow> dimension \<Rightarrow> ldb \<Rightarrow> lifecycle_projection option" where
  "find_projection st si dim L = List.find (\<lambda>p. of_subject st si p \<and> pj_dimension p = dim) (projections L)"

text \<open>The guards of \<open>transition\<close> before the decision authority is asked, in the order of the code.\<close>

definition transition_checks ::
  "time \<Rightarrow> string \<Rightarrow> string \<Rightarrow> transition_create \<Rightarrow> ldb \<Rightarrow> (lifecycle_projection \<times> string) res" where
  "transition_checks now st si q L =
     (case find_projection st si (tq_dimension q) L of
        None \<Rightarrow> http 404 ''Lifecycle subject or dimension not found.''
      | Some p \<Rightarrow>
          if pj_subject_digest p \<noteq> tq_subject_digest q then http 409 ''Lifecycle subject digest changed.''
          else
            ebind (validate_expected_version (pj_version p) (tq_expected_version q)) (\<lambda>_.
              if now + seconds 30 < fst (tq_effective_at q)
              then http 422 ''Lifecycle event cannot take effect in the future.''
              else if list_ex (\<lambda>s. \<not> is_sha256_hex s) (tq_evidence q)
              then http 422 ''Evidence references must be SHA-256 digests.''
              else
                ebind (next_state (tq_dimension q) (pj_state p) (tq_command q)) (\<lambda>resulting.
                  ebind (if tq_dimension q = Capital \<and> tq_command q \<in> {''qualify'', ''allocate''}
                         then require_risk004_evidence now st (tq_subject_digest q) ''allocate'' (tq_evidence q) L
                         else Inr ()) (\<lambda>_.
                    ebind (validate_cross_dimension_guard (tq_dimension q) (tq_command q) (current_states st si L)) (\<lambda>_.
                      if tq_dimension q \<noteq> Research \<and> (tq_originator q = None \<or> tq_originator q = Some '''')
                      then http 422 (dimension_str (tq_dimension q) @ '' transitions require an explicit originator.'')
                      else Inr (p, resulting))))))"

definition transition_authority :: "dimension \<Rightarrow> string \<Rightarrow> string \<times> string" where
  "transition_authority dim command =
     (case map_of COMMAND_AUTHORITY_ACTIONS (dim, command) of None \<Rightarrow> AUTHORITY_ACTIONS dim | Some a \<Rightarrow> a)"

definition transition_request :: "string \<Rightarrow> string \<Rightarrow> transition_create \<Rightarrow> authority_resolution_request" where
  "transition_request st si q =
     \<lparr>rq_actor = tq_actor q, rq_decision_type = fst (transition_authority (tq_dimension q) (tq_command q)),
      rq_action = snd (transition_authority (tq_dimension q) (tq_command q)),
      rq_object_type = st, rq_object_id = si, rq_object_digest = tq_subject_digest q,
      rq_scope = [(''dimension'', JStr (dimension_str (tq_dimension q))), (''command'', JStr (tq_command q))],
      rq_risk_level = tq_risk_level q, rq_environment = tq_environment q, rq_requester = tq_requester q,
      rq_originator = tq_originator q, rq_evaluator = tq_evaluator q,
      rq_active_veto_roles = tq_active_veto_roles q, rq_exception_id = tq_authority_exception_id q\<rparr>"

text \<open>The document an event's digest is taken of; \<open>effective\<close> is the text of the effective time.\<close>

definition event_document :: "lifecycle_projection \<Rightarrow> lifecycle_event \<Rightarrow> string \<Rightarrow> json" where
  "event_document p e effective = JObj
     [(''command_id'', juuid (lv_command_id e)), (''subject_type'', JStr (pj_subject_type p)),
      (''subject_id'', JStr (pj_subject_id p)), (''subject_digest'', JStr (pj_subject_digest p)),
      (''dimension'', JStr (dimension_str (lv_dimension e))), (''command'', JStr (lv_command e)),
      (''prior_state'', JStr (lv_prior_state e)), (''resulting_state'', JStr (lv_resulting_state e)),
      (''expected_version'', JInt (lv_expected_version e)), (''resulting_version'', JInt (lv_resulting_version e)),
      (''actor'', JStr (lv_actor e)), (''authority_decision_id'', juuid (lv_authority_decision_id e)),
      (''evidence'', jstrs (lv_evidence e)), (''reason'', JStr (lv_reason e)),
      (''prior_event_digest'', option_json JStr (lv_prior_event_digest e)), (''effective_at'', JStr effective)]"

text \<open>The event before its digest is known.\<close>

definition transition_event ::
  "time \<Rightarrow> uuid \<Rightarrow> transition_create \<Rightarrow> lifecycle_projection \<Rightarrow> string \<Rightarrow> authority_decision_record \<Rightarrow> lifecycle_event" where
  "transition_event now i q p resulting r =
     (let e = \<lparr>lv_id = i, lv_projection_id = pj_id p, lv_command_id = tq_command_id q, lv_dimension = tq_dimension q,
               lv_command = tq_command q, lv_prior_state = pj_state p, lv_resulting_state = resulting,
               lv_actor = tq_actor q, lv_authority_decision_id = dr_id r, lv_expected_version = pj_version p,
               lv_resulting_version = pj_version p + 1, lv_reason = tq_reason q, lv_evidence = tq_evidence q,
               lv_prior_event_digest = pj_last_event_digest p, lv_record_digest = [],
               lv_effective_at = fst (tq_effective_at q), lv_created_at = now\<rparr>
      in e\<lparr>lv_record_digest := digest_json (event_document p e (aware_iso (tq_effective_at q)))\<rparr>)"

definition advanced :: "time \<Rightarrow> lifecycle_event \<Rightarrow> lifecycle_projection \<Rightarrow> lifecycle_projection" where
  "advanced now e p =
     p\<lparr>pj_state := lv_resulting_state e, pj_version := pj_version p + 1,
       pj_last_event_digest := Some (lv_record_digest e), pj_updated_at := now\<rparr>"

text \<open>The event is added and its projection follows.\<close>

definition record_event :: "time \<Rightarrow> lifecycle_event \<Rightarrow> ldb \<Rightarrow> ldb" where
  "record_event now e L =
     L\<lparr>lifecycle_events := lifecycle_events L @ [e],
       projections := upd_row pj_id (lv_projection_id e) (advanced now e) (projections L),
       core := (core L)\<lparr>next_uuid := Suc (next_uuid (core L))\<rparr>\<rparr>"

text \<open>
  \<open>transition\<close>. A refusal of the authority keeps its decision record; every other exception leaves
  the state as it was.
\<close>

definition transition ::
  "time \<Rightarrow> string \<Rightarrow> string \<Rightarrow> transition_create \<Rightarrow> ldb \<Rightarrow> (lifecycle_projection \<times> lifecycle_event) res \<times> ldb" where
  "transition now st si q L =
     (case List.find (\<lambda>e. lv_command_id e = tq_command_id q) (lifecycle_events L) of
        Some e \<Rightarrow> (replayed st si q e L, L)
      | None \<Rightarrow>
          (case transition_checks now st si q L of
             Inl x \<Rightarrow> (Inl x, L)
           | Inr (p, resulting) \<Rightarrow>
               if \<not> valid_resolution_request (transition_request st si q)
               then (Inl (ValueError ''AuthorityResolutionRequest''), L)
               else
                 (case resolve_authority now (transition_request st si q) (core L) of
                    (Inl x, d) \<Rightarrow> (Inl x, L\<lparr>core := d\<rparr>)
                  | (Inr r, d) \<Rightarrow>
                      (let e = transition_event now (next_uuid d) q p resulting r
                       in if lv_record_digest e \<in> lv_record_digest ` set (lifecycle_events L)
                          then (Inl IntegrityError, L)
                          else (Inr (advanced now e p, e), record_event now e (L\<lparr>core := d\<rparr>))))))"

section \<open>Dossiers\<close>

text \<open>\<open>_event_material\<close>: the document rebuilt from the rows.\<close>

definition event_material :: "lifecycle_projection \<Rightarrow> lifecycle_event \<Rightarrow> json" where
  "event_material p e = event_document p e (isoformat (lv_effective_at e))"

definition check_event_digest :: "lifecycle_projection list \<Rightarrow> lifecycle_event \<Rightarrow> unit res" where
  "check_event_digest ps e =
     (case get_row pj_id ps (lv_projection_id e) of
        None \<Rightarrow> Inr ()
      | Some p \<Rightarrow>
          if digest_json (event_material p e) \<noteq> lv_record_digest e
          then http 409 ''Lifecycle event digest is invalid.'' else Inr ())"

text \<open>State, version and last digest of a projection; before and after an event.\<close>

type_synonym snapshot = "string \<times> int \<times> string option"

definition snapshot_of :: "lifecycle_projection \<Rightarrow> snapshot" where
  "snapshot_of p = (pj_state p, pj_version p, pj_last_event_digest p)"

definition before_event :: "lifecycle_event \<Rightarrow> snapshot" where
  "before_event e = (lv_prior_state e, lv_expected_version e, lv_prior_event_digest e)"

definition after_event :: "lifecycle_event \<Rightarrow> snapshot" where
  "after_event e = (lv_resulting_state e, lv_resulting_version e, Some (lv_record_digest e))"

fun replay_events :: "snapshot \<Rightarrow> lifecycle_event list \<Rightarrow> snapshot res" where
  "replay_events s [] = Inr s"
| "replay_events s (e # es) =
     (if before_event e \<noteq> s then http 409 ''Lifecycle event history is not replayable.''
      else replay_events (after_event e) es)"

definition check_projection :: "lifecycle_event list \<Rightarrow> lifecycle_projection \<Rightarrow> unit res" where
  "check_projection es p =
     ebind (replay_events (initial_state (pj_dimension p), 0, None)
              (filter (\<lambda>e. lv_dimension e = pj_dimension p) es)) (\<lambda>s.
       if snapshot_of p \<noteq> s then http 409 ''Lifecycle projection does not match event history.'' else Inr ())"

definition verify_replay :: "lifecycle_projection list \<Rightarrow> lifecycle_event list \<Rightarrow> unit res" where
  "verify_replay ps es =
     ebind (efold (\<lambda>e _. check_event_digest ps e) es ()) (\<lambda>_. efold (\<lambda>p _. check_projection es p) ps ())"

text \<open>The events of a subject by creation time, then identifier.\<close>

definition subject_events :: "lifecycle_projection list \<Rightarrow> ldb \<Rightarrow> lifecycle_event list" where
  "subject_events ps L =
     sort_key lv_created_at (sort_key lv_id
       (filter (\<lambda>e. lv_projection_id e \<in> pj_id ` set ps) (lifecycle_events L)))"

record dossier =
  do_projections :: "lifecycle_projection list"
  do_events :: "lifecycle_event list"
  do_digest :: string

definition dossier_json :: "string \<Rightarrow> string \<Rightarrow> lifecycle_projection list \<Rightarrow> lifecycle_event list \<Rightarrow> json" where
  "dossier_json st si ps es = JObj
     [(''subject_type'', JStr st), (''subject_id'', JStr si), (''subject_digest'', JStr (pj_subject_digest (hd ps))),
      (''projections'', JList (map (\<lambda>p. JObj
         [(''dimension'', JStr (dimension_str (pj_dimension p))), (''state'', JStr (pj_state p)),
          (''version'', JInt (pj_version p)), (''last_event_digest'', option_json JStr (pj_last_event_digest p))]) ps)),
      (''events'', jstrs (map lv_record_digest es))]"

definition lifecycle_dossier :: "string \<Rightarrow> string \<Rightarrow> ldb \<Rightarrow> dossier res" where
  "lifecycle_dossier st si L =
     (let ps = projections_of st si L;
          es = subject_events ps L
      in if ps = [] then http 404 ''Lifecycle subject not found.''
         else ebind (verify_replay ps es) (\<lambda>_.
                Inr \<lparr>do_projections = ps, do_events = es, do_digest = digest_json (dossier_json st si ps es)\<rparr>))"

section \<open>Routes\<close>

text \<open>Both routes commit before the dossier is read, so an error of the latter does not undo them.\<close>

definition register_subject :: "time \<Rightarrow> lifecycle_subject_create \<Rightarrow> ldb \<Rightarrow> dossier res \<times> ldb" where
  "register_subject now p L =
     (if \<not> valid_subject_create p then (Inl (ValueError ''request''), L)
      else
        (case create_subject now p L of
           Inl e \<Rightarrow> (Inl e, L)
         | Inr (_, L') \<Rightarrow> (lifecycle_dossier (lq_subject_type p) (lq_subject_id p) L', L')))"

definition transition_subject ::
  "time \<Rightarrow> string \<Rightarrow> string \<Rightarrow> transition_create \<Rightarrow> ldb \<Rightarrow> dossier res \<times> ldb" where
  "transition_subject now st si q L =
     (if \<not> valid_transition_create q then (Inl (ValueError ''request''), L)
      else
        (case transition now st si q L of
           (Inl e, L') \<Rightarrow> (Inl e, L')
         | (Inr _, L') \<Rightarrow> (lifecycle_dossier st si L', L')))"

section \<open>Lifecycles as an event-sourced table\<close>

definition initial_snapshot :: "lifecycle_projection \<Rightarrow> snapshot" where
  "initial_snapshot p = (initial_state (pj_dimension p), 0, None)"

definition proper_event :: "lifecycle_event \<Rightarrow> bool" where
  "proper_event e \<longleftrightarrow> lv_resulting_version e = lv_expected_version e + 1"

interpretation lifecycle_log: event_sourced projections pj_id initial_snapshot snapshot_of
  lifecycle_events lv_projection_id before_event after_event proper_event advanced record_event
  by unfold_locales
    (auto simp: record_event_def advanced_def initial_snapshot_def snapshot_of_def before_event_def
      after_event_def proper_event_def)

lemma replay_events_replays:
  "replay_events s es =
     (case replays before_event after_event s es of
        None \<Rightarrow> http 409 ''Lifecycle event history is not replayable.''
      | Some t \<Rightarrow> Inr t)"
  by (induction es arbitrary: s) auto

section \<open>The invariant of the log\<close>

text \<open>
  Subjects come whole: identifiers and places are unique, and a subject has all four dimensions, all with
  its digest.
\<close>

definition place :: "lifecycle_projection \<Rightarrow> string \<times> string \<times> dimension" where
  "place p = (pj_subject_type p, pj_subject_id p, pj_dimension p)"

definition sibling :: "lifecycle_projection \<Rightarrow> dimension \<Rightarrow> lifecycle_projection \<Rightarrow> bool" where
  "sibling p dim q \<longleftrightarrow>
     of_subject (pj_subject_type p) (pj_subject_id p) q \<and> pj_dimension q = dim
     \<and> pj_subject_digest q = pj_subject_digest p"

definition subjects_ok :: "ldb \<Rightarrow> bool" where
  "subjects_ok L \<longleftrightarrow>
     distinct (map pj_id (projections L)) \<and> distinct (map place (projections L))
     \<and> (\<forall>p \<in> set (projections L). pj_id p < next_uuid (core L)
          \<and> (\<forall>dim. \<exists>q \<in> set (projections L). sibling p dim q))"

text \<open>Each event belongs to a projection of its dimension; the log is ordered in time.\<close>

definition events_ok :: "bool \<Rightarrow> time \<Rightarrow> ldb \<Rightarrow> bool" where
  "events_ok utc t L \<longleftrightarrow>
     (\<forall>e \<in> set (lifecycle_events L).
        lv_id e < next_uuid (core L) \<and> lv_created_at e \<le> t \<and> proper_event e
        \<and> (\<exists>p \<in> set (projections L). pj_id p = lv_projection_id e \<and> pj_dimension p = lv_dimension e
             \<and> (utc \<longrightarrow> lv_record_digest e = digest_json (event_material p e))))
     \<and> distinct (map lv_id (lifecycle_events L)) \<and> distinct (map lv_command_id (lifecycle_events L))
     \<and> sorted_wrt (<) (map lv_created_at (lifecycle_events L))"

definition log_ok :: "bool \<Rightarrow> time \<Rightarrow> ldb \<Rightarrow> bool" where
  "log_ok utc t L \<longleftrightarrow> subjects_ok L \<and> events_ok utc t L \<and> lifecycle_log.consistent L"

text \<open>What an event must be for \<open>record_event\<close> to keep the invariant.\<close>

definition appendable :: "bool \<Rightarrow> time \<Rightarrow> lifecycle_event \<Rightarrow> ldb \<Rightarrow> bool" where
  "appendable utc now e L \<longleftrightarrow>
     proper_event e \<and> lv_id e = next_uuid (core L) \<and> lv_created_at e = now
     \<and> lv_command_id e \<notin> lv_command_id ` set (lifecycle_events L)
     \<and> (\<exists>p \<in> set (projections L). pj_id p = lv_projection_id e \<and> pj_dimension p = lv_dimension e
          \<and> before_event e = snapshot_of p
          \<and> (utc \<longrightarrow> lv_record_digest e = digest_json (event_material p e)))"

lemma advanced_simps [simp]:
  "pj_id (advanced now e p) = pj_id p" "pj_dimension (advanced now e p) = pj_dimension p"
  "pj_subject_type (advanced now e p) = pj_subject_type p" "pj_subject_id (advanced now e p) = pj_subject_id p"
  "pj_subject_digest (advanced now e p) = pj_subject_digest p" "place (advanced now e p) = place p"
  "of_subject st si (advanced now e p) = of_subject st si p" "pj_state (advanced now e p) = lv_resulting_state e"
  "event_document (advanced now e p) = event_document p" "event_material (advanced now e p) = event_material p"
  "pj_version (advanced now e p) = pj_version p + 1"
  by (auto simp: advanced_def place_def of_subject_def event_document_def event_material_def fun_eq_iff)

lemma sibling_advanced [simp]:
  "sibling (advanced now e p) dim q = sibling p dim q" "sibling p dim (advanced now e q) = sibling p dim q"
  by (simp_all add: sibling_def)

lemma record_event_simps [simp]:
  "lifecycle_events (record_event now e L) = lifecycle_events L @ [e]"
  "projections (record_event now e L) = upd_row pj_id (lv_projection_id e) (advanced now e) (projections L)"
  "next_uuid (core (record_event now e L)) = Suc (next_uuid (core L))"
  "consequences (record_event now e L) = consequences L"
  "producer_receipts (record_event now e L) = producer_receipts L"
  "decisions (core (record_event now e L)) = decisions (core L)"
  by (simp_all add: record_event_def)

lemma in_upd_row: "q \<in> set (upd_row key k f rows) \<longleftrightarrow> (\<exists>p \<in> set rows. q = (if key p = k then f p else p))"
  unfolding upd_row_def set_map by blast

lemma upd_row_memI: "p \<in> set rows \<Longrightarrow> (if key p = k then f p else p) \<in> set (upd_row key k f rows)"
  by (simp add: upd_row_def)

lemma map_upd_row_same: "(\<And>r. g (f r) = g r) \<Longrightarrow> map g (upd_row key k f rows) = map g rows"
  by (simp add: upd_row_def)

lemma subjects_ok_record:
  assumes "subjects_ok L"
  shows "subjects_ok (record_event now e L)"
proof -
  have sib: "\<exists>q \<in> set (upd_row pj_id i (advanced now e) (projections L)). sibling p dim q"
    if "p \<in> set (projections L)" for p dim i
  proof -
    have "\<exists>q \<in> set (projections L). sibling p dim q" using assms that by (simp add: subjects_ok_def)
    then obtain q where "q \<in> set (projections L)" "sibling p dim q" ..
    then have "(if pj_id q = i then advanced now e q else q) \<in> set (upd_row pj_id i (advanced now e) (projections L))"
        "sibling p dim (if pj_id q = i then advanced now e q else q)"
      by (simp_all add: upd_row_memI)
    then show ?thesis by (rule bexI[rotated])
  qed
  have "\<exists>q \<in> set (upd_row pj_id i (advanced now e) (projections L)). sibling p' dim q"
    if p': "p' \<in> set (upd_row pj_id i (advanced now e) (projections L))" for p' dim i
  proof -
    from p' obtain p where "p \<in> set (projections L)" "p' = (if pj_id p = i then advanced now e p else p)"
      by (auto simp: in_upd_row)
    then show ?thesis using sib[of p i dim] by (cases "pj_id p = i") simp_all
  qed
  moreover have "pj_id p' < Suc (next_uuid (core L))"
    if p': "p' \<in> set (upd_row pj_id i (advanced now e) (projections L))" for p' i
  proof -
    obtain p where "p \<in> set (projections L)" "pj_id p' = pj_id p"
      using p' by (auto simp: in_upd_row)
    then show ?thesis using assms by (simp add: subjects_ok_def less_SucI)
  qed
  ultimately show ?thesis
    using assms by (simp add: subjects_ok_def map_upd_row_same)
qed

lemma owner_after_record:
  assumes "p \<in> set (projections L)"
  shows "\<exists>p' \<in> set (projections (record_event now e L)).
    pj_id p' = pj_id p \<and> pj_dimension p' = pj_dimension p \<and> event_material p' = event_material p"
proof (rule bexI)
  let ?p = "if pj_id p = lv_projection_id e then advanced now e p else p"
  show "?p \<in> set (projections (record_event now e L))"
    unfolding record_event_simps(2) using assms by (rule upd_row_memI)
  show "pj_id ?p = pj_id p \<and> pj_dimension ?p = pj_dimension p \<and> event_material ?p = event_material p" by simp
qed

lemma events_ok_record:
  assumes ok: "events_ok utc t L" and e: "appendable utc now e L" and t: "t < now"
  shows "events_ok utc now (record_event now e L)"
proof -
  have own: "\<exists>p' \<in> set (projections (record_event now e L)). pj_id p' = lv_projection_id x \<and> pj_dimension p' = lv_dimension x
      \<and> (utc \<longrightarrow> lv_record_digest x = digest_json (event_material p' x))"
    if "p \<in> set (projections L)" "pj_id p = lv_projection_id x" "pj_dimension p = lv_dimension x"
      "utc \<longrightarrow> lv_record_digest x = digest_json (event_material p x)" for p x
    using owner_after_record[OF that(1), of now e] that by metis
  have owned: "\<exists>p' \<in> set (projections (record_event now e L)). pj_id p' = lv_projection_id x \<and> pj_dimension p' = lv_dimension x
      \<and> (utc \<longrightarrow> lv_record_digest x = digest_json (event_material p' x))"
    if x: "x \<in> set (lifecycle_events L @ [e])" for x
  proof -
    obtain p where "p \<in> set (projections L)" "pj_id p = lv_projection_id x" "pj_dimension p = lv_dimension x"
      "utc \<longrightarrow> lv_record_digest x = digest_json (event_material p x)"
      using x ok e by (auto simp: events_ok_def appendable_def)
    then show ?thesis by (rule own)
  qed
  have earlier: "lv_created_at x < now" if "x \<in> set (lifecycle_events L)" for x
    using ok t that by (force simp: events_ok_def)
  have row: "lv_id x < Suc (next_uuid (core L)) \<and> lv_created_at x \<le> now \<and> proper_event x"
    if "x \<in> set (lifecycle_events L @ [e])" for x
    using ok e that earlier[of x] by (auto simp: events_ok_def appendable_def intro: less_SucI)
  have "distinct (map lv_id (lifecycle_events L @ [e]))" "distinct (map lv_command_id (lifecycle_events L @ [e]))"
    using ok e by (auto simp: events_ok_def appendable_def)
  moreover have "sorted_wrt (<) (map lv_created_at (lifecycle_events L @ [e]))"
    using ok e earlier by (auto simp: events_ok_def appendable_def sorted_wrt_append)
  ultimately show ?thesis
    unfolding events_ok_def record_event_simps(1,3) using row owned by simp
qed

lemma event_owner:
  assumes "events_ok utc t L" and "e \<in> set (lifecycle_events L)"
  obtains p where "p \<in> set (projections L)" "pj_id p = lv_projection_id e" "pj_dimension p = lv_dimension e"
    "utc \<longrightarrow> lv_record_digest e = digest_json (event_material p e)"
proof -
  have "\<exists>p \<in> set (projections L). pj_id p = lv_projection_id e \<and> pj_dimension p = lv_dimension e
      \<and> (utc \<longrightarrow> lv_record_digest e = digest_json (event_material p e))"
    using assms by (simp add: events_ok_def)
  then show ?thesis using that by blast
qed

lemma unique_projection:
  "subjects_ok L \<Longrightarrow> p \<in> set (projections L) \<Longrightarrow> q \<in> set (projections L) \<Longrightarrow> pj_id p = pj_id q \<Longrightarrow> p = q"
  by (auto simp: subjects_ok_def distinct_map inj_on_def)

lemma log_ok_record:
  assumes ok: "log_ok utc t L" and e: "appendable utc now e L" and t: "t < now"
  shows "log_ok utc now (record_event now e L)"
proof -
  obtain o' where "o' \<in> set (projections L)" "pj_id o' = lv_projection_id e" "before_event e = snapshot_of o'"
    using e by (auto simp: appendable_def)
  then have "before_event e = snapshot_of p" if "p \<in> set (projections L)" "pj_id p = lv_projection_id e" for p
    using unique_projection[of L p o'] ok that by (simp add: log_ok_def)
  then have "lifecycle_log.consistent (record_event now e L)"
    using ok e by (auto simp: log_ok_def appendable_def intro!: lifecycle_log.consistent_commit)
  then show ?thesis
    using ok e t by (auto simp: log_ok_def intro: subjects_ok_record events_ok_record)
qed

text \<open>Requests that only use identifiers or append decision records keep it.\<close>

lemma log_ok_core:
  assumes "log_ok utc t L" and "projections L' = projections L" and "lifecycle_events L' = lifecycle_events L"
    and "next_uuid (core L) \<le> next_uuid (core L')" and "t \<le> now"
  shows "log_ok utc now L'"
proof -
  have "subjects_ok L'"
    using assms(1,2,4) unfolding log_ok_def subjects_ok_def by (auto intro: less_le_trans)
  moreover have "events_ok utc now L'"
    using assms unfolding log_ok_def events_ok_def by (auto intro: less_le_trans order_trans)
  ultimately show ?thesis
    using assms(1) lifecycle_log.consistent_cong[OF assms(2,3)] by (simp add: log_ok_def)
qed

section \<open>Transitions and the log\<close>

lemma find_projection_Some:
  "find_projection st si dim L = Some p \<Longrightarrow> p \<in> set (projections L) \<and> of_subject st si p \<and> pj_dimension p = dim"
  by (auto simp: find_projection_def find_Some_iff)

lemma require_state_Inr: "require_state states dim s x = Inr u \<longleftrightarrow> map_of states dim = Some s"
  by (auto simp: require_state_def split: option.split)

lemma guard_Inr:
  "validate_cross_dimension_guard dim command states = Inr u \<longleftrightarrow>
     (dim = Operations \<and> command \<in> set operations_commands \<longrightarrow>
        map_of states Research = Some ''succeeded'' \<and> map_of states Evidence = Some ''admissible'')
     \<and> (dim = Capital \<and> command \<in> {''qualify'', ''allocate''} \<longrightarrow>
          map_of states Operations = Some ''live'' \<and> map_of states Evidence = Some ''admissible'')"
  by (auto simp: validate_cross_dimension_guard_def Let_def ebind_Inr_iff require_state_Inr)

lemma version_Inr: "validate_expected_version a b = Inr u \<longleftrightarrow> a = b"
  by (simp add: validate_expected_version_def)

lemma next_state_Inr: "next_state dim s c = Inr s' \<longleftrightarrow> map_of (TRANSITIONS dim) (s, c) = Some s'"
  by (simp add: next_state_def split: option.split)

lemma current_states_SomeD:
  assumes "map_of (current_states st si L) dim = Some s"
  shows "\<exists>p \<in> set (projections L). of_subject st si p \<and> pj_dimension p = dim \<and> pj_state p = s"
  using map_of_SomeD[OF assms] by (auto simp: current_states_def projections_of_def)

text \<open>What the guards of a transition establish.\<close>

definition transition_admitted :: "time \<Rightarrow> string \<Rightarrow> string \<Rightarrow> transition_create \<Rightarrow> ldb \<Rightarrow> lifecycle_projection \<Rightarrow> string \<Rightarrow> bool" where
  "transition_admitted now st si q L p resulting \<longleftrightarrow>
     find_projection st si (tq_dimension q) L = Some p
     \<and> pj_subject_digest p = tq_subject_digest q \<and> pj_version p = tq_expected_version q
     \<and> fst (tq_effective_at q) \<le> now + seconds 30 \<and> list_all is_sha256_hex (tq_evidence q)
     \<and> map_of (TRANSITIONS (tq_dimension q)) (pj_state p, tq_command q) = Some resulting
     \<and> (tq_dimension q = Capital \<and> tq_command q \<in> {''qualify'', ''allocate''} \<longrightarrow>
          require_risk004_evidence now st (tq_subject_digest q) ''allocate'' (tq_evidence q) L = Inr ())
     \<and> validate_cross_dimension_guard (tq_dimension q) (tq_command q) (current_states st si L) = Inr ()
     \<and> (tq_dimension q \<noteq> Research \<longrightarrow> tq_originator q \<notin> {None, Some ''''})"

lemma check_Inr: "(if b then Inl e else m) = Inr x \<longleftrightarrow> \<not> b \<and> m = Inr x"
  by simp

lemma when_Inr: "(if b then m else Inr ()) = Inr u \<longleftrightarrow> (b \<longrightarrow> m = Inr ())"
  by simp

lemma transition_checks_Inr:
  "transition_checks now st si q L = Inr (p, resulting) \<longleftrightarrow> transition_admitted now st si q L p resulting"
proof (cases "find_projection st si (tq_dimension q) L")
  case None
  then show ?thesis by (simp add: transition_checks_def transition_admitted_def)
next
  case (Some p')
  then show ?thesis
    by (auto simp: transition_checks_def transition_admitted_def check_Inr when_Inr ebind_Inr_iff version_Inr
          next_state_Inr not_less list_ex_iff list_all_iff
        simp del: insert_iff if_split split del: if_split)
qed

lemma transition_outcome:
  assumes "transition now st si q L = (r, L')"
  obtains (replay) e where "e \<in> set (lifecycle_events L)" "lv_command_id e = tq_command_id q"
      "r = replayed st si q e L" "L' = L"
      "List.find (\<lambda>e. lv_command_id e = tq_command_id q) (lifecycle_events L) = Some e"
    | (error) x where "r = Inl x" "L' = L"
    | (refused) x d where "r = Inl x" "L' = L\<lparr>core := d\<rparr>"
        "d = snd (resolve_authority now (transition_request st si q) (core L))"
    | (recorded) p resulting a d e where
        "tq_command_id q \<notin> lv_command_id ` set (lifecycle_events L)"
        "transition_admitted now st si q L p resulting"
        "resolve_authority now (transition_request st si q) (core L) = (Inr a, d)"
        "e = transition_event now (next_uuid d) q p resulting a"
        "r = Inr (advanced now e p, e)" "L' = record_event now e (L\<lparr>core := d\<rparr>)"
proof (cases "List.find (\<lambda>e. lv_command_id e = tq_command_id q) (lifecycle_events L)")
  case (Some e)
  then have "e \<in> set (lifecycle_events L)" "lv_command_id e = tq_command_id q"
    by (auto simp: find_Some_iff)
  moreover have "r = replayed st si q e L" "L' = L" using assms Some by (auto simp: transition_def)
  ultimately show ?thesis using Some by (rule replay)
next
  case None
  then have new: "tq_command_id q \<notin> lv_command_id ` set (lifecycle_events L)" by (auto simp: find_None_iff)
  show ?thesis
  proof (cases "transition_checks now st si q L")
    case (Inl x)
    then have "r = Inl x" "L' = L" using assms None by (simp_all add: transition_def)
    then show ?thesis by (rule error)
  next
    case (Inr y)
    obtain p resulting where y: "y = (p, resulting)" by (cases y)
    with Inr have adm: "transition_admitted now st si q L p resulting" by (simp add: transition_checks_Inr)
    obtain ar d where auth: "resolve_authority now (transition_request st si q) (core L) = (ar, d)"
      by (cases "resolve_authority now (transition_request st si q) (core L)")
    show ?thesis
    proof (cases ar)
      case Left: (Inl x)
      then show ?thesis using assms None Inr y auth refused error
        by (auto simp: transition_def split: if_split_asm)
    next
      case Right: (Inr a)
      then show ?thesis using assms None Inr y auth error recorded[OF new adm]
        by (auto simp: transition_def Let_def split: if_split_asm)
    qed
  qed
qed

lemma transition_event_simps [simp]:
  "lv_id (transition_event now i q p s a) = i" "lv_projection_id (transition_event now i q p s a) = pj_id p"
  "lv_command_id (transition_event now i q p s a) = tq_command_id q"
  "lv_dimension (transition_event now i q p s a) = tq_dimension q"
  "lv_command (transition_event now i q p s a) = tq_command q"
  "lv_resulting_state (transition_event now i q p s a) = s"
  "lv_created_at (transition_event now i q p s a) = now"
  "lv_expected_version (transition_event now i q p s a) = pj_version p"
  "lv_resulting_version (transition_event now i q p s a) = pj_version p + 1"
  "lv_prior_state (transition_event now i q p s a) = pj_state p"
  "lv_authority_decision_id (transition_event now i q p s a) = dr_id a"
  "lv_actor (transition_event now i q p s a) = tq_actor q"
  "before_event (transition_event now i q p s a) = snapshot_of p"
  by (simp_all add: transition_event_def Let_def before_event_def snapshot_of_def)

lemma transition_event_digest:
  assumes "snd (tq_effective_at q) = 0"
  shows "lv_record_digest (transition_event now i q p s a) = digest_json (event_material p (transition_event now i q p s a))"
proof -
  have "tq_effective_at q = (fst (tq_effective_at q), 0)" using assms by (metis prod.collapse)
  then have "aware_iso (tq_effective_at q) = isoformat (fst (tq_effective_at q))" by (metis aware_iso_utc)
  then show ?thesis by (simp add: transition_event_def Let_def event_material_def event_document_def)
qed

lemma appendable_transition:
  assumes "transition_admitted now st si q L p resulting"
    and "tq_command_id q \<notin> lv_command_id ` set (lifecycle_events L)" and "utc \<longrightarrow> snd (tq_effective_at q) = 0"
  shows "appendable utc now (transition_event now (next_uuid d) q p resulting a) (L\<lparr>core := d\<rparr>)"
proof -
  have "p \<in> set (projections L)" "pj_dimension p = tq_dimension q"
    using assms(1) find_projection_Some by (auto simp: transition_admitted_def)
  then show ?thesis
    using assms(2,3) transition_event_digest[of q]
    by (auto simp: appendable_def proper_event_def intro!: bexI[of _ p])
qed

lemma resolve_authority_grows:
  assumes "resolve_authority now q d = (r, d')"
  shows "next_uuid d \<le> next_uuid d'" and "\<exists>rs. decisions d' = decisions d @ rs"
  using assms by (auto simp: resolve_authority_def Let_def split: sum.split_asm if_split_asm)

lemma log_ok_transition:
  assumes "log_ok utc t L" and "t < now" and "utc \<longrightarrow> snd (tq_effective_at q) = 0"
    and "transition now st si q L = (r, L')"
  shows "log_ok utc now L'"
  using assms(4)
proof (cases rule: transition_outcome)
  case (refused x d)
  then show ?thesis
    using log_ok_core[OF assms(1), of L' now] assms(2) resolve_authority_grows(1)[of now "transition_request st si q" "core L"]
    by (simp add: prod_eq_iff)
next
  case (recorded p resulting a d e)
  have "log_ok utc t (L\<lparr>core := d\<rparr>)"
    using log_ok_core[OF assms(1), of "L\<lparr>core := d\<rparr>" t] resolve_authority_grows(1)[OF recorded(3)] by simp
  moreover have "appendable utc now e (L\<lparr>core := d\<rparr>)"
    using appendable_transition recorded(1,2,4) assms(3) by blast
  ultimately show ?thesis using recorded(6) assms(2) by (simp add: log_ok_record)
qed (use log_ok_core[OF assms(1)] assms(2) in simp_all)

section \<open>Subjects and the log\<close>

lemma of_subject_place:
  "of_subject st si p \<Longrightarrow> of_subject st si q \<Longrightarrow> pj_dimension p = pj_dimension q \<Longrightarrow> place p = place q"
  by (simp add: of_subject_def place_def)

lemma unique_place:
  "subjects_ok L \<Longrightarrow> p \<in> set (projections L) \<Longrightarrow> q \<in> set (projections L) \<Longrightarrow> place p = place q \<Longrightarrow> p = q"
  by (auto simp: subjects_ok_def distinct_map inj_on_def)

definition subject_rows :: "time \<Rightarrow> uuid \<Rightarrow> lifecycle_subject_create \<Rightarrow> lifecycle_projection list" where
  "subject_rows now n p =
     [new_projection now n p Research, new_projection now (n + 1) p Evidence,
      new_projection now (n + 2) p Operations, new_projection now (n + 3) p Capital]"

lemma create_subject_rows:
  "map2 (\<lambda>i (dim, _). new_projection now i p dim) [n..<n + 4] INITIAL_STATES = subject_rows now n p"
proof -
  have "[n..<n + 4] = [n, n + 1, n + 2, n + 3]" by (simp add: upt_rec)
  then show ?thesis by (simp add: INITIAL_STATES_def subject_rows_def)
qed

lemma create_subject_outcome:
  assumes "create_subject now p L = Inr (ps, L')"
  obtains (same) "L' = L" "projections_of (lq_subject_type p) (lq_subject_id p) L \<noteq> []"
    | (new) n where "n = next_uuid (core L)" "\<And>x. x \<in> set (projections L) \<Longrightarrow> \<not> of_subject (lq_subject_type p) (lq_subject_id p) x"
        "L' = L\<lparr>projections := projections L @ subject_rows now n p, core := (core L)\<lparr>next_uuid := n + 4\<rparr>\<rparr>"
proof (cases "projections_of (lq_subject_type p) (lq_subject_id p) L = []")
  case True
  then have "set (projections_of (lq_subject_type p) (lq_subject_id p) L) = {}" by simp
  then have "\<not> of_subject (lq_subject_type p) (lq_subject_id p) x" if "x \<in> set (projections L)" for x
    using that unfolding projections_of_def set_sort by auto
  moreover have "L' = L\<lparr>projections := projections L @ subject_rows now (next_uuid (core L)) p,
      core := (core L)\<lparr>next_uuid := next_uuid (core L) + 4\<rparr>\<rparr>"
    using assms True by (simp add: create_subject_def Let_def create_subject_rows)
  ultimately show ?thesis using new by blast
next
  case False
  then show ?thesis using assms same by (auto simp: create_subject_def Let_def split: if_split_asm)
qed

lemma subject_rows_simps:
  assumes "x \<in> set (subject_rows now n p)"
  shows "n \<le> pj_id x" "pj_id x < n + 4" "of_subject (lq_subject_type p) (lq_subject_id p) x"
    "snapshot_of x = initial_snapshot x" "\<exists>y \<in> set (subject_rows now n p). sibling x dim y"
  using assms
  by (cases dim; auto simp: subject_rows_def new_projection_def of_subject_def snapshot_of_def initial_snapshot_def sibling_def)+

lemma distinct_subject_rows:
  "distinct (map pj_id (subject_rows now n p))" "distinct (map place (subject_rows now n p))"
  by (simp_all add: subject_rows_def new_projection_def place_def)

lemma subjects_ok_create:
  assumes ok: "subjects_ok L" and n: "n = next_uuid (core L)"
    and new: "\<And>x. x \<in> set (projections L) \<Longrightarrow> \<not> of_subject (lq_subject_type p) (lq_subject_id p) x"
    and L': "L' = L\<lparr>projections := projections L @ subject_rows now n p, core := (core L)\<lparr>next_uuid := n + 4\<rparr>\<rparr>"
  shows "subjects_ok L'"
proof -
  let ?new = "subject_rows now n p"
  have old: "pj_id x < n" "\<exists>q \<in> set (projections L). sibling x dim q" if "x \<in> set (projections L)" for x dim
    using ok n that by (simp_all add: subjects_ok_def)
  have "pj_id x \<noteq> pj_id y" if "x \<in> set (projections L)" "y \<in> set ?new" for x y
    using old(1)[OF that(1)] subject_rows_simps(1)[OF that(2)] by simp
  then have "pj_id ` set (projections L) \<inter> pj_id ` set ?new = {}" by blast
  then have "distinct (map pj_id (projections L @ ?new))"
    using ok distinct_subject_rows(1) by (simp add: subjects_ok_def)
  moreover have "place x \<noteq> place y" if "x \<in> set (projections L)" "y \<in> set ?new" for x y
    using new[OF that(1)] subject_rows_simps(3)[OF that(2)] by (auto simp: place_def of_subject_def)
  then have "place ` set (projections L) \<inter> place ` set ?new = {}" by blast
  then have "distinct (map place (projections L @ ?new))"
    using ok distinct_subject_rows(2) by (simp add: subjects_ok_def)
  moreover have "pj_id x < n + 4" if "x \<in> set (projections L @ ?new)" for x
    using that old(1)[of x] subject_rows_simps(2)[of x] by auto
  moreover have "\<exists>q \<in> set (projections L @ ?new). sibling x dim q" if "x \<in> set (projections L @ ?new)" for x dim
  proof (cases "x \<in> set (projections L)")
    case True
    then obtain q where "q \<in> set (projections L)" "sibling x dim q" using old(2) by blast
    then show ?thesis by auto
  next
    case False
    then have "x \<in> set ?new" using that by simp
    then obtain q where "q \<in> set ?new" "sibling x dim q" using subject_rows_simps(5) by blast
    then show ?thesis by auto
  qed
  ultimately show ?thesis unfolding subjects_ok_def L' by simp
qed

lemma log_ok_create_subject:
  assumes ok: "log_ok utc t L" and t: "t < now" and c: "create_subject now p L = Inr (ps, L')"
  shows "log_ok utc now L'"
  using c
proof (cases rule: create_subject_outcome)
  case same
  then show ?thesis using log_ok_core[OF ok] t by simp
next
  case (new n)
  have owner: "lv_projection_id e < n" if "e \<in> set (lifecycle_events L)" for e
  proof -
    have "events_ok utc t L" using ok by (simp add: log_ok_def)
    from event_owner[OF this that] obtain x where "x \<in> set (projections L)" "pj_id x = lv_projection_id e" .
    then show ?thesis using ok new(1) by (auto simp: log_ok_def subjects_ok_def)
  qed
  have "lifecycle_log.consistent L'"
  proof (rule lifecycle_log.consistent_insert)
    show "lifecycle_log.consistent L" using ok by (simp add: log_ok_def)
    show "projections L' = projections L @ subject_rows now n p" "lifecycle_events L' = lifecycle_events L"
      using new(3) by simp_all
    show "snapshot_of x = initial_snapshot x" if "x \<in> set (subject_rows now n p)" for x
      using that by (rule subject_rows_simps)
    show "lv_projection_id e \<noteq> pj_id x" if "x \<in> set (subject_rows now n p)" "e \<in> set (lifecycle_events L)" for x e
      using owner[OF that(2)] subject_rows_simps(1)[OF that(1)] by simp
  qed
  moreover have "events_ok utc now L'"
    using ok t new(1,3) by (auto simp: log_ok_def events_ok_def trans_less_add1)
  moreover have "subjects_ok L'"
    using subjects_ok_create[OF _ new] ok by (simp add: log_ok_def)
  ultimately show ?thesis by (simp add: log_ok_def)
qed

section \<open>Dossiers\<close>

lemma efold_unit: "efold (\<lambda>x _. f x) xs () = Inr () \<longleftrightarrow> (\<forall>x \<in> set xs. f x = Inr ())"
  by (induction xs) (auto simp: ebind_Inr_iff)

text \<open>The order of the query is the order of the log.\<close>

lemma subject_events_order:
  assumes "events_ok utc t L"
  shows "subject_events ps L = filter (\<lambda>e. lv_projection_id e \<in> pj_id ` set ps) (lifecycle_events L)"
proof -
  let ?es = "filter (\<lambda>e. lv_projection_id e \<in> pj_id ` set ps) (lifecycle_events L)"
  have "sorted_wrt (<) (map lv_created_at ?es)"
    using assms by (simp add: events_ok_def sorted_wrt_map sorted_wrt_filter)
  then show ?thesis unfolding subject_events_def by (rule query_in_log_order)
qed

lemma subject_history:
  assumes "log_ok utc t L" and "p \<in> set (projections_of st si L)"
  shows "filter (\<lambda>e. lv_dimension e = pj_dimension p) (subject_events (projections_of st si L) L)
    = lifecycle_log.history p L"
proof -
  let ?ps = "projections_of st si L"
  have mem: "x \<in> set ?ps \<longleftrightarrow> x \<in> set (projections L) \<and> of_subject st si x" for x
    by (auto simp: projections_of_def)
  have s: "subjects_ok L" using assms(1) by (simp add: log_ok_def)
  have "lv_projection_id e \<in> pj_id ` set ?ps \<and> lv_dimension e = pj_dimension p \<longleftrightarrow> lv_projection_id e = pj_id p"
    if "e \<in> set (lifecycle_events L)" for e
  proof -
    have "events_ok utc t L" using assms(1) by (simp add: log_ok_def)
    from event_owner[OF this that] obtain x
      where x: "x \<in> set (projections L)" "pj_id x = lv_projection_id e" "pj_dimension x = lv_dimension e" .
    show ?thesis
    proof
      assume a: "lv_projection_id e \<in> pj_id ` set ?ps \<and> lv_dimension e = pj_dimension p"
      then obtain y where y: "y \<in> set ?ps" "pj_id y = lv_projection_id e" by auto
      then have "y = x" using unique_projection[OF s] x mem by metis
      then have "x = p"
        using y a x assms(2) mem unique_place[OF s, of x p] of_subject_place[of st si x p] by simp
      then show "lv_projection_id e = pj_id p" using x by simp
    next
      assume "lv_projection_id e = pj_id p"
      moreover from this have "x = p" using unique_projection[OF s x(1), of p] assms(2) mem x(2) by simp
      ultimately show "lv_projection_id e \<in> pj_id ` set ?ps \<and> lv_dimension e = pj_dimension p"
        using x(3) assms(2) by simp
    qed
  qed
  then show ?thesis
    using assms(1) by (simp add: subject_events_order[of utc t] log_ok_def lifecycle_log.history_def conj_commute cong: filter_cong)
qed

lemma dossier_available:
  assumes ok: "log_ok True t L" and p: "p \<in> set (projections L)"
  shows "lifecycle_dossier (pj_subject_type p) (pj_subject_id p) L
    = (let ps = projections_of (pj_subject_type p) (pj_subject_id p) L; es = subject_events ps L
       in Inr \<lparr>do_projections = ps, do_events = es,
               do_digest = digest_json (dossier_json (pj_subject_type p) (pj_subject_id p) ps es)\<rparr>)"
proof -
  define ps where "ps = projections_of (pj_subject_type p) (pj_subject_id p) L"
  have mem: "x \<in> set ps \<longleftrightarrow> x \<in> set (projections L) \<and> of_subject (pj_subject_type p) (pj_subject_id p) x" for x
    by (auto simp: ps_def projections_of_def)
  have "p \<in> set ps" using p by (simp add: mem of_subject_def)
  then have ne: "ps \<noteq> []" by auto
  have s: "subjects_ok L" and e: "events_ok True t L" using ok by (simp_all add: log_ok_def)
  have digests: "check_event_digest ps x = Inr ()" if x: "x \<in> set (subject_events ps L)" for x
  proof (cases "get_row pj_id ps (lv_projection_id x)")
    case (Some y)
    then have y: "y \<in> set (projections L)" "pj_id y = lv_projection_id x"
      using get_row_Some_in get_row_key mem by fastforce+
    have "x \<in> set (lifecycle_events L)" using x by (simp add: subject_events_def)
    from event_owner[OF e this] obtain z where "z \<in> set (projections L)" "pj_id z = lv_projection_id x"
        "True \<longrightarrow> lv_record_digest x = digest_json (event_material z x)" .
    then show ?thesis using unique_projection[OF s y(1)] y(2) Some by (simp add: check_event_digest_def)
  qed (simp add: check_event_digest_def)
  have replay: "check_projection (subject_events ps L) x = Inr ()" if "x \<in> set ps" for x
  proof -
    have "replays before_event after_event (initial_snapshot x) (lifecycle_log.history x L) = Some (snapshot_of x)"
      using ok that mem by (simp add: log_ok_def lifecycle_log.consistent_def)
    then show ?thesis
      using subject_history[OF ok that[unfolded ps_def]]
      by (simp add: check_projection_def replay_events_replays initial_snapshot_def ps_def)
  qed
  have "verify_replay ps (subject_events ps L) = Inr ()"
    using efold_unit[of "check_event_digest ps" "subject_events ps L"] digests
      efold_unit[of "check_projection (subject_events ps L)" ps] replay
    by (simp add: verify_replay_def)
  then show ?thesis using ne by (simp add: lifecycle_dossier_def ps_def[symmetric])
qed

section \<open>Soundness of transitions\<close>

lemma resolve_authority_record:
  assumes "resolve_authority now q d = (Inr r, d')"
  shows "decisions d' = decisions d @ [r]" "dr_outcome r = ''authorized''" "dr_object_digest r = rq_object_digest q"
    "dr_actor r = rq_actor q"
  using resolve_authorised[OF assms] by (metis (no_types, lifting) db.select_convs(34) db.surjective db.update_convs(1,34))+

text \<open>
  What makes a receipt a fresh recommendation for the subject: it is a RISK-004 receipt whose
  result names the subject's very digest, recommends its allocation for the authority's review
  and has an expiry that is still to come.
\<close>

definition fresh_admission :: "time \<Rightarrow> string \<Rightarrow> producer_receipt \<Rightarrow> bool" where
  "fresh_admission now dig r \<longleftrightarrow> qp_milestone r = ''RISK-004''
     \<and> (\<exists>result v t. dict_get (qp_receipt r) ''result'' = Some (JObj result)
          \<and> dict_get result ''candidate_digest'' = Some (JStr dig)
          \<and> dict_get result ''requested_action'' = Some (JStr ''allocate'')
          \<and> dict_get result ''eligible_for_authority_review'' = Some (JBool True)
          \<and> dict_get result ''expires_at'' = Some v
          \<and> fromisoformat (replace_zulu (py_str v)) = Inr (Some t) \<and> now < t)"

lemma count_matches_length:
  "count_matches f rs = Inr n \<Longrightarrow> n = length (filter (\<lambda>r. f r = Inr True) rs)"
  by (induction rs arbitrary: n) (auto simp: ebind_Inr_iff)

lemma dget_eq_iff: "v \<noteq> JNull \<Longrightarrow> dget d k = v \<longleftrightarrow> dict_get d k = Some v"
  by (simp add: dget_def split: option.split)

lemma no_date: "fromisoformat (replace_zulu (py_str (JStr ''''))) \<noteq> Inr x"
  by (simp add: replace_zulu_def fromisoformat_def parse_date_def number_def)

lemma receipt_matches_fresh:
  "qp_milestone r = ''RISK-004'' \<Longrightarrow>
     receipt_matches now dig ''allocate'' r = Inr True \<longleftrightarrow> fresh_admission now dig r"
  using no_date
  by (auto simp: receipt_matches_def fresh_admission_def dget_eq_iff ebind_Inr_iff dict_get_def[of "[]"]
      split: option.splits json.splits if_split_asm)

lemma risk004_evidence_receipt:
  assumes "require_risk004_evidence now ''portfolio-candidate'' dig ''allocate'' evidence L = Inr ()"
  shows "length (filter (\<lambda>r. qp_receipt_digest r \<in> set evidence \<and> fresh_admission now dig r)
    (producer_receipts L)) = 1"
proof -
  let ?rs = "filter (\<lambda>r. qp_milestone r = ''RISK-004'' \<and> qp_receipt_digest r \<in> set evidence) (producer_receipts L)"
  have "count_matches (receipt_matches now dig ''allocate'') ?rs = Inr 1"
    using assms by (auto simp: require_risk004_evidence_def ebind_Inr_iff simp del: filter_filter split: if_split_asm)
  then have "length (filter (\<lambda>r. receipt_matches now dig ''allocate'' r = Inr True) ?rs) = 1"
    by (rule count_matches_length[symmetric])
  moreover have "filter (\<lambda>r. receipt_matches now dig ''allocate'' r = Inr True) ?rs
      = filter (\<lambda>r. qp_receipt_digest r \<in> set evidence \<and> fresh_admission now dig r) (producer_receipts L)"
    unfolding filter_filter
  proof (rule filter_cong[OF refl])
    fix r
    have "qp_milestone r = ''RISK-004''" if "fresh_admission now dig r" using that by (simp add: fresh_admission_def)
    then show "(qp_milestone r = ''RISK-004'' \<and> qp_receipt_digest r \<in> set evidence)
        \<and> receipt_matches now dig ''allocate'' r = Inr True
      \<longleftrightarrow> qp_receipt_digest r \<in> set evidence \<and> fresh_admission now dig r"
      using receipt_matches_fresh[of r now dig] by argo
  qed
  ultimately show ?thesis by simp
qed

text \<open>
  A transition (C22) that is not the repetition of a command moves the projection of its dimension along an
  edge of the dimension's machine, from the version and the digest its author saw; operations advance
  only on succeeded research and admissible evidence, and capital only on live operations and
  admissible evidence, and for a portfolio candidate only on exactly one fresh admission receipt
  among the evidence; the policy in force authorises the actor and the decision's record is kept;
  the event says what was found and what was left, and nothing else changes: of the core tables
  only the decision records (and the source of identifiers), of the lifecycle only the moved
  projection and the log.
\<close>

theorem transition_sound:
  assumes "transition now st si q L = (Inr (p', e), L')"
    and "tq_command_id q \<notin> lv_command_id ` set (lifecycle_events L)"
  shows "\<exists>p r. find_projection st si (tq_dimension q) L = Some p
    \<and> pj_version p = tq_expected_version q \<and> pj_subject_digest p = tq_subject_digest q
    \<and> map_of (TRANSITIONS (tq_dimension q)) (pj_state p, tq_command q) = Some (pj_state p')
    \<and> (tq_dimension q = Operations \<and> tq_command q \<in> set operations_commands \<longrightarrow>
         map_of (current_states st si L) Research = Some ''succeeded''
         \<and> map_of (current_states st si L) Evidence = Some ''admissible'')
    \<and> (tq_dimension q = Capital \<and> tq_command q \<in> {''qualify'', ''allocate''} \<longrightarrow>
         map_of (current_states st si L) Operations = Some ''live''
         \<and> map_of (current_states st si L) Evidence = Some ''admissible''
         \<and> (st = ''portfolio-candidate'' \<longrightarrow>
              length (filter (\<lambda>r. qp_receipt_digest r \<in> set (tq_evidence q)
                \<and> fresh_admission now (tq_subject_digest q) r) (producer_receipts L)) = 1))
    \<and> (\<exists>pol rule. authorised now pol rule (transition_request st si q) (core L))
    \<and> dr_outcome r = ''authorized'' \<and> dr_actor r = tq_actor q
    \<and> dr_object_digest r = pj_subject_digest p \<and> lv_authority_decision_id e = dr_id r
    \<and> before_event e = snapshot_of p \<and> after_event e = snapshot_of p' \<and> p' = advanced now e p
    \<and> L' = L\<lparr>core := (core L)\<lparr>decisions := decisions (core L) @ [r],
                               next_uuid := Suc (Suc (next_uuid (core L)))\<rparr>,
            projections := upd_row pj_id (pj_id p) (advanced now e) (projections L),
            lifecycle_events := lifecycle_events L @ [e]\<rparr>"
  using assms(1)
proof (cases rule: transition_outcome)
  case (replay x)
  then show ?thesis using assms(2) by (metis imageI)
next
  case (recorded p resulting a d e')
  have e: "e' = e" "p' = advanced now e p" using recorded(5) by simp_all
  have "after_event e = snapshot_of p'"
    using e recorded(4) by (auto simp: after_event_def snapshot_of_def advanced_def)
  moreover have "dr_object_digest a = pj_subject_digest p"
    using resolve_authority_record[OF recorded(3)] recorded(2) by (simp add: transition_request_def transition_admitted_def)
  moreover obtain pol rule where "authorised now pol rule (transition_request st si q) (core L)"
    and d: "d = (core L)\<lparr>decisions := decisions (core L) @ [a], next_uuid := Suc (next_uuid (core L))\<rparr>"
    by (rule resolve_authorised[OF recorded(3)])
  moreover have "L' = L\<lparr>core := (core L)\<lparr>decisions := decisions (core L) @ [a],
                               next_uuid := Suc (Suc (next_uuid (core L)))\<rparr>,
            projections := upd_row pj_id (pj_id p) (advanced now e) (projections L),
            lifecycle_events := lifecycle_events L @ [e]\<rparr>"
    using recorded(4,6) e d by (simp add: record_event_def)
  moreover note adm = recorded(2)[unfolded transition_admitted_def guard_Inr]
  moreover have "length (filter (\<lambda>r. qp_receipt_digest r \<in> set (tq_evidence q)
      \<and> fresh_admission now (tq_subject_digest q) r) (producer_receipts L)) = 1"
    if "tq_dimension q = Capital \<and> tq_command q \<in> {''qualify'', ''allocate''}" "st = ''portfolio-candidate''"
    using adm that risk004_evidence_receipt by (simp del: insert_iff)
  moreover have "dr_actor a = tq_actor q"
    using resolve_authority_record(4)[OF recorded(3)] by (simp add: transition_request_def)
  ultimately show ?thesis
    using recorded(4) e resolve_authority_record(2)[OF recorded(3)]
    by (intro exI[of _ p] exI[of _ a]) (simp del: insert_iff, blast)
qed simp_all

lemma find_snoc: "(\<And>x. x \<in> set xs \<Longrightarrow> \<not> P x) \<Longrightarrow> P y \<Longrightarrow> List.find P (xs @ [y]) = Some y"
  by (induction xs) auto

lemma transition_repeated:
  assumes ok: "subjects_ok L" and first: "transition now st si q L = (Inr x, L')"
  shows "transition now' st si q L' = (Inr x, L')"
  using first
proof (cases rule: transition_outcome)
  case (replay e)
  then show ?thesis by (simp add: transition_def)
next
  case (recorded p resulting a d e)
  have id: "lv_command_id e = tq_command_id q" "lv_projection_id e = pj_id p" using recorded(4) by simp_all
  have "lv_command_id x \<noteq> tq_command_id q" if "x \<in> set (lifecycle_events L)" for x
    using recorded(1) that by force
  then have find: "List.find (\<lambda>e. lv_command_id e = tq_command_id q) (lifecycle_events L') = Some e"
    using recorded(6) id find_snoc[of "lifecycle_events L" "\<lambda>e. lv_command_id e = tq_command_id q" e] by simp
  have p: "p \<in> set (projections L)" "of_subject st si p" "pj_dimension p = tq_dimension q"
    using find_projection_Some recorded(2) by (auto simp: transition_admitted_def)
  have "get_row pj_id (projections L) (pj_id p) = Some p"
    using ok p(1) by (simp add: subjects_ok_def get_row_in)
  then have "get_row pj_id (projections L') (lv_projection_id e) = Some (advanced now e p)"
    using recorded(6) id by (simp add: get_row_upd_row)
  then have "replayed st si q e L' = Inr (advanced now e p, e)"
    using p(2) recorded(2,4) by (simp add: replayed_def of_subject_def transition_admitted_def)
  then show ?thesis using find recorded(5) by (simp add: transition_def)
qed simp_all

end
