(* ===== verification/Consequences.thy ===== *)
theory Consequences
  imports Lifecycle
begin

text \<open>
  Lifecycle consequences (\<open>services/lifecycle_consequence.py\<close>, \<open>schemas/lifecycle_consequence.py\<close>,
  \<open>api/routes/lifecycle_consequence.py\<close>): promotions, demotions, quarantines, retirements and
  reinstatements that move a projection outside its ordinary machine for a bounded time, and
  their reversal and expiry. Then the lifecycles as a step relation and their invariants.
\<close>

section \<open>Requests\<close>

record consequence_create =
  cq_command_id :: uuid
  cq_actor :: string
  cq_action :: string
  cq_dimension :: dimension
  cq_expected_version :: int
  cq_subject_digest :: string
  cq_evidence :: "string list"
  cq_evidence_epoch :: aware
  cq_approvers :: "string list"
  cq_affected_descendants :: "string list"
  cq_expires_at :: aware
  cq_reason :: string
  cq_risk_level :: int
  cq_environment :: string
  cq_originator :: "string option"
  cq_evaluator :: "string option"
  cq_active_veto_roles :: "string list"

record consequence_reverse =
  vq_command_id :: uuid
  vq_actor :: string
  vq_expected_version :: int
  vq_reason :: string
  vq_risk_level :: int
  vq_environment :: string
  vq_originator :: string
  vq_evaluator :: string
  vq_active_veto_roles :: "string list"

text \<open>A participant that is named, by a nonempty text.\<close>

definition named_in :: "string option \<Rightarrow> string list \<Rightarrow> bool" where
  "named_in a xs = (case a of None \<Rightarrow> False | Some s \<Rightarrow> s \<in> set xs)"

text \<open>The model validator \<open>bounded_and_independent\<close>, at the instant of the request.\<close>

definition bounded_and_independent :: "time \<Rightarrow> consequence_create \<Rightarrow> unit res" where
  "bounded_and_independent now q =
     (if now + seconds 30 < fst (cq_evidence_epoch q) \<or> fst (cq_evidence_epoch q) < now - seconds (7 * 86400)
      then Inl (ValueError ''evidence epoch is stale or in the future'')
      else if fst (cq_expires_at q) \<le> now \<or> now + seconds (30 * 86400) < fst (cq_expires_at q)
      then Inl (ValueError ''consequence expiry is outside the bounded interval'')
      else if \<not> distinct (cq_approvers q) \<or> cq_actor q \<notin> set (cq_approvers q)
      then Inl (ValueError ''approvers must be unique and include the accountable actor'')
      else if cq_action q \<in> {''promote'', ''reinstate''}
              \<and> (length (cq_approvers q) < 2 \<or> cq_originator q \<in> {None, Some ''''} \<or> cq_evaluator q \<in> {None, Some ''''}
                 \<or> named_in (cq_originator q) (cq_approvers q) \<or> \<not> named_in (cq_evaluator q) (cq_approvers q))
      then Inl (ValueError ''promotion and reinstatement require independent approval'')
      else Inr ())"

definition valid_consequence_create :: "time \<Rightarrow> consequence_create \<Rightarrow> unit res" where
  "valid_consequence_create now q =
     (if text_between 2 150 (cq_actor q)
         \<and> cq_action q \<in> {''promote'', ''demote'', ''quarantine'', ''retire'', ''reinstate''}
         \<and> 0 \<le> cq_expected_version q \<and> is_sha256_hex (cq_subject_digest q)
         \<and> 1 \<le> length (cq_evidence q) \<and> length (cq_evidence q) \<le> 100 \<and> list_all is_sha256_hex (cq_evidence q)
         \<and> 1 \<le> length (cq_approvers q) \<and> length (cq_approvers q) \<le> 20
         \<and> length (cq_affected_descendants q) \<le> 500 \<and> text_between 20 2000 (cq_reason q)
         \<and> 0 \<le> cq_risk_level q \<and> cq_risk_level q \<le> 3 \<and> length (cq_environment q) \<le> 80
      then bounded_and_independent now q
      else Inl (ValueError ''request''))"

definition valid_consequence_reverse :: "consequence_reverse \<Rightarrow> bool" where
  "valid_consequence_reverse q =
     (text_between 2 150 (vq_actor q) \<and> 0 \<le> vq_expected_version q \<and> text_between 20 2000 (vq_reason q)
      \<and> 0 \<le> vq_risk_level q \<and> vq_risk_level q \<le> 3 \<and> text_between 2 150 (vq_originator q)
      \<and> text_between 2 150 (vq_evaluator q) \<and> vq_actor q \<notin> {vq_originator q, vq_evaluator q})"

section \<open>The machine of consequences\<close>

fun CONSEQUENCE_STATES :: "dimension \<Rightarrow> ((string \<times> string) \<times> string) list" where
  "CONSEQUENCE_STATES Research =
     [((''proposed'', ''quarantine''), ''rejected''), ((''registered'', ''quarantine''), ''rejected''),
      ((''running'', ''quarantine''), ''failed''), ((''succeeded'', ''retire''), ''retired''),
      ((''failed'', ''retire''), ''retired''), ((''rejected'', ''retire''), ''retired''),
      ((''rejected'', ''reinstate''), ''proposed''), ((''retired'', ''reinstate''), ''proposed'')]"
| "CONSEQUENCE_STATES Evidence =
     [((''unassessed'', ''quarantine''), ''disputed''), ((''admissible'', ''quarantine''), ''disputed''),
      ((''admissible'', ''retire''), ''retired''), ((''disputed'', ''retire''), ''retired''),
      ((''retracted'', ''retire''), ''retired''), ((''disputed'', ''reinstate''), ''admissible''),
      ((''retracted'', ''reinstate''), ''admissible''), ((''retired'', ''reinstate''), ''admissible'')]"
| "CONSEQUENCE_STATES Operations =
     [((''candidate'', ''promote''), ''approved''), ((''approved'', ''promote''), ''shadow''),
      ((''shadow'', ''promote''), ''demo''), ((''demo'', ''promote''), ''live''),
      ((''live'', ''demote''), ''demo''), ((''demo'', ''demote''), ''shadow''),
      ((''shadow'', ''demote''), ''approved''), ((''approved'', ''demote''), ''candidate''),
      ((''candidate'', ''quarantine''), ''suspended''), ((''approved'', ''quarantine''), ''suspended''),
      ((''shadow'', ''quarantine''), ''suspended''), ((''demo'', ''quarantine''), ''suspended''),
      ((''live'', ''quarantine''), ''suspended''), ((''suspended'', ''retire''), ''retired''),
      ((''candidate'', ''retire''), ''retired''), ((''approved'', ''retire''), ''retired''),
      ((''shadow'', ''retire''), ''retired''), ((''demo'', ''retire''), ''retired''),
      ((''live'', ''retire''), ''retired''), ((''suspended'', ''reinstate''), ''candidate''),
      ((''retired'', ''reinstate''), ''candidate''), ((''revoked'', ''reinstate''), ''candidate'')]"
| "CONSEQUENCE_STATES Capital =
     [((''allocated'', ''demote''), ''reduced''), ((''eligible'', ''quarantine''), ''revoked''),
      ((''allocated'', ''quarantine''), ''revoked''), ((''reduced'', ''retire''), ''revoked''),
      ((''eligible'', ''retire''), ''revoked''), ((''allocated'', ''retire''), ''revoked''),
      ((''reduced'', ''reinstate''), ''eligible''), ((''revoked'', ''reinstate''), ''eligible'')]"

definition consequence_state :: "dimension \<Rightarrow> string \<Rightarrow> string \<Rightarrow> string res" where
  "consequence_state dim state action =
     (case map_of (CONSEQUENCE_STATES dim) (state, action) of
        None \<Rightarrow> Inl (HTTPException 409 (JObj
                  [(''reason'', JStr ''invalid-consequence''), (''dimension'', JStr (dimension_str dim)),
                   (''state'', JStr state), (''action'', JStr action)]))
      | Some s \<Rightarrow> Inr s)"

fun AUTHORITY :: "dimension \<Rightarrow> string \<times> string" where
  "AUTHORITY Research = (''research-program-charter'', ''approve'')"
| "AUTHORITY Evidence = (''evidence-admissibility'', ''quarantine'')"
| "AUTHORITY Operations = (''candidate-maturity'', ''promote'')"
| "AUTHORITY Capital = (''capital-allocation'', ''allocate'')"

definition authority_for :: "dimension \<Rightarrow> string \<Rightarrow> string \<times> string" where
  "authority_for dim action =
     (if dim = Operations \<and> action = ''quarantine'' then (''emergency-containment'', ''quarantine'')
      else if action \<in> {''demote'', ''quarantine'', ''retire''}
      then (fst (AUTHORITY dim),
            case dim of
              Research \<Rightarrow> ''reject''
            | Evidence \<Rightarrow> ''quarantine''
            | Operations \<Rightarrow> if action = ''retire'' then ''retire'' else ''demote''
            | Capital \<Rightarrow> ''reduce'')
      else if dim = Evidence then (fst (AUTHORITY dim), ''admit'')
      else AUTHORITY dim)"

section \<open>Events\<close>

text \<open>\<open>_event\<close>: the event that moves a projection to \<open>resulting\<close>, and the state after it.\<close>

definition consequence_event ::
  "time \<Rightarrow> uuid \<Rightarrow> lifecycle_projection \<Rightarrow> uuid \<Rightarrow> string \<Rightarrow> string \<Rightarrow> string \<Rightarrow> uuid \<Rightarrow> string list \<Rightarrow> string
     \<Rightarrow> lifecycle_event" where
  "consequence_event now i p command_id command resulting actor authority_id evidence reason =
     (let e = \<lparr>lv_id = i, lv_projection_id = pj_id p, lv_command_id = command_id, lv_dimension = pj_dimension p,
               lv_command = command, lv_prior_state = pj_state p, lv_resulting_state = resulting,
               lv_actor = actor, lv_authority_decision_id = authority_id, lv_expected_version = pj_version p,
               lv_resulting_version = pj_version p + 1, lv_reason = reason, lv_evidence = evidence,
               lv_prior_event_digest = pj_last_event_digest p, lv_record_digest = [],
               lv_effective_at = now, lv_created_at = now\<rparr>
      in e\<lparr>lv_record_digest := digest_json (event_document p e (isoformat now))\<rparr>)"

text \<open>The flush of the event: commands and digests are unique.\<close>

definition flush_event :: "time \<Rightarrow> lifecycle_event \<Rightarrow> ldb \<Rightarrow> ldb res" where
  "flush_event now e L =
     (if list_ex (\<lambda>x. lv_command_id x = lv_command_id e \<or> lv_record_digest x = lv_record_digest e)
           (lifecycle_events L)
      then Inl IntegrityError else Inr (record_event now e L))"

definition add_consequence :: "lifecycle_consequence \<Rightarrow> ldb \<Rightarrow> ldb res" where
  "add_consequence c L =
     (if list_ex (\<lambda>x. lc_event_id x = lc_event_id c \<or> lc_command_id x = lc_command_id c
                     \<or> lc_record_digest x = lc_record_digest c) (consequences L)
      then Inl IntegrityError
      else Inr (L\<lparr>consequences := consequences L @ [c], core := (core L)\<lparr>next_uuid := Suc (next_uuid (core L))\<rparr>\<rparr>))"

text \<open>A consequence that has ended, by the one that ended it.\<close>

definition ended_by :: "string \<Rightarrow> uuid \<Rightarrow> lifecycle_consequence \<Rightarrow> lifecycle_consequence" where
  "ended_by status i c = c\<lparr>lc_status := status, lc_reversed_by_id := Some i\<rparr>"

definition upd_consequence :: "uuid \<Rightarrow> (lifecycle_consequence \<Rightarrow> lifecycle_consequence) \<Rightarrow> ldb \<Rightarrow> ldb" where
  "upd_consequence i f L = L\<lparr>consequences := upd_row lc_id i f (consequences L)\<rparr>"

section \<open>Applying a consequence\<close>

definition repeated_consequence ::
  "string \<Rightarrow> string \<Rightarrow> consequence_create \<Rightarrow> lifecycle_consequence \<Rightarrow> ldb \<Rightarrow> lifecycle_consequence res" where
  "repeated_consequence st si q c L =
     (case get_row lv_id (lifecycle_events L) (lc_event_id c) of
        None \<Rightarrow> Inl (AttributeError ''projection_id'')
      | Some e \<Rightarrow>
          (case get_row pj_id (projections L) (lv_projection_id e) of
             None \<Rightarrow> Inl (AttributeError ''subject_type'')
           | Some p \<Rightarrow>
               if lc_action c \<noteq> cq_action q \<or> lv_dimension e \<noteq> cq_dimension q
                  \<or> lv_expected_version e \<noteq> cq_expected_version q \<or> pj_subject_type p \<noteq> st
                  \<or> pj_subject_id p \<noteq> si \<or> pj_subject_digest p \<noteq> cq_subject_digest q
               then http 409 ''Consequence command identity changed.''
               else Inr c))"

text \<open>The guards before the decision authority is asked.\<close>

definition consequence_checks ::
  "time \<Rightarrow> string \<Rightarrow> string \<Rightarrow> consequence_create \<Rightarrow> ldb \<Rightarrow> (lifecycle_projection \<times> string) res" where
  "consequence_checks now st si q L =
     (case find_projection st si (cq_dimension q) L of
        None \<Rightarrow> http 404 ''Lifecycle projection not found.''
      | Some p \<Rightarrow>
          if pj_subject_digest p \<noteq> cq_subject_digest q then http 409 ''Lifecycle subject digest changed.''
          else
            ebind (validate_expected_version (pj_version p) (cq_expected_version q)) (\<lambda>_.
              ebind (consequence_state (cq_dimension q) (pj_state p) (cq_action q)) (\<lambda>resulting.
                ebind (if cq_dimension q = Operations
                       then require_risk004_evidence now st (cq_subject_digest q)
                              (if cq_action q \<in> {''promote'', ''reinstate''} then ''admit'' else cq_action q)
                              (cq_evidence q) L
                       else Inr ()) (\<lambda>_.
                  ebind (if cq_action q \<in> {''promote'', ''reinstate''}
                         then validate_cross_dimension_guard (cq_dimension q)
                                (if cq_dimension q = Operations then ''nominate'' else ''qualify'')
                                (current_states st si L)
                         else Inr ()) (\<lambda>_. Inr (p, resulting))))))"

definition consequence_request :: "string \<Rightarrow> string \<Rightarrow> consequence_create \<Rightarrow> authority_resolution_request" where
  "consequence_request st si q =
     \<lparr>rq_actor = cq_actor q, rq_decision_type = fst (authority_for (cq_dimension q) (cq_action q)),
      rq_action = snd (authority_for (cq_dimension q) (cq_action q)),
      rq_object_type = st, rq_object_id = si, rq_object_digest = cq_subject_digest q,
      rq_scope = [(''dimension'', JStr (dimension_str (cq_dimension q))), (''consequence'', JStr (cq_action q)),
                  (''approvers'', jstrs (cq_approvers q))],
      rq_risk_level = cq_risk_level q, rq_environment = cq_environment q, rq_requester = None,
      rq_originator = cq_originator q, rq_evaluator = cq_evaluator q,
      rq_active_veto_roles = cq_active_veto_roles q, rq_exception_id = None\<rparr>"

text \<open>The latest active consequence that led to the present state of a projection.\<close>

definition prior_consequence :: "lifecycle_projection \<Rightarrow> ldb \<Rightarrow> lifecycle_consequence option" where
  "prior_consequence p L =
     max_row lc_created_at
       (filter (\<lambda>c. list_ex (\<lambda>e. lv_id e = lc_event_id c \<and> lv_projection_id e = pj_id p) (lifecycle_events L)
                   \<and> lc_status c = ''active'' \<and> lc_resulting_state c = pj_state p) (consequences L))"

definition consequence_json :: "consequence_create \<Rightarrow> lifecycle_event \<Rightarrow> json" where
  "consequence_json q e = JObj
     [(''command_id'', juuid (cq_command_id q)), (''event_digest'', JStr (lv_record_digest e)),
      (''action'', JStr (cq_action q)), (''prior_state'', JStr (lv_prior_state e)),
      (''resulting_state'', JStr (lv_resulting_state e)), (''rollback_state'', JStr (lv_prior_state e)),
      (''approvers'', jstrs (cq_approvers q)), (''affected_descendants'', jstrs (cq_affected_descendants q)),
      (''evidence_epoch'', JStr (aware_iso (cq_evidence_epoch q))), (''expires_at'', JStr (aware_iso (cq_expires_at q)))]"

definition new_consequence ::
  "time \<Rightarrow> uuid \<Rightarrow> consequence_create \<Rightarrow> lifecycle_event \<Rightarrow> lifecycle_consequence option \<Rightarrow> lifecycle_consequence" where
  "new_consequence now i q e prior =
     \<lparr>lc_id = i, lc_event_id = lv_id e, lc_command_id = cq_command_id q, lc_action = cq_action q,
      lc_status = ''active'', lc_prior_state = lv_prior_state e, lc_resulting_state = lv_resulting_state e,
      lc_rollback_state = lv_prior_state e, lc_approvers = cq_approvers q,
      lc_affected_descendants = cq_affected_descendants q, lc_evidence_epoch = fst (cq_evidence_epoch q),
      lc_expires_at = fst (cq_expires_at q), lc_reversed_by_id = None,
      lc_reversal_of_id = (case prior of
                             None \<Rightarrow> None
                           | Some x \<Rightarrow> if lv_resulting_state e = lc_rollback_state x then Some (lc_id x) else None),
      lc_reason = cq_reason q, lc_record_digest = digest_json (consequence_json q e), lc_created_at = now\<rparr>"

text \<open>What is written once the authority has agreed.\<close>

definition commit_consequence ::
  "time \<Rightarrow> consequence_create \<Rightarrow> lifecycle_projection \<Rightarrow> string \<Rightarrow> authority_decision_record \<Rightarrow> ldb
     \<Rightarrow> (lifecycle_consequence \<times> ldb) res" where
  "commit_consequence now q p resulting r L =
     (let prior = prior_consequence p L;
          e = consequence_event now (next_uuid (core L)) p (cq_command_id q) (cq_action q) resulting
                (cq_actor q) (dr_id r) (cq_evidence q) (cq_reason q)
      in ebind (flush_event now e L) (\<lambda>L1.
           (let c = new_consequence now (next_uuid (core L1)) q e prior
            in ebind (add_consequence c L1) (\<lambda>L2.
                 Inr (c, case prior of
                           None \<Rightarrow> L2
                         | Some x \<Rightarrow> upd_consequence (lc_id x) (ended_by ''superseded'' (lc_id c)) L2)))))"

definition apply_consequence ::
  "time \<Rightarrow> string \<Rightarrow> string \<Rightarrow> consequence_create \<Rightarrow> ldb \<Rightarrow> lifecycle_consequence res \<times> ldb" where
  "apply_consequence now st si q L =
     (case List.find (\<lambda>c. lc_command_id c = cq_command_id q) (consequences L) of
        Some c \<Rightarrow> (repeated_consequence st si q c L, L)
      | None \<Rightarrow>
          (case consequence_checks now st si q L of
             Inl x \<Rightarrow> (Inl x, L)
           | Inr (p, resulting) \<Rightarrow>
               if \<not> valid_resolution_request (consequence_request st si q)
               then (Inl (ValueError ''AuthorityResolutionRequest''), L)
               else
                 (case resolve_authority now (consequence_request st si q) (core L) of
                    (Inl x, d) \<Rightarrow> (Inl x, L\<lparr>core := d\<rparr>)
                  | (Inr r, d) \<Rightarrow>
                      (case commit_consequence now q p resulting r (L\<lparr>core := d\<rparr>) of
                         Inl x \<Rightarrow> (Inl x, L)
                       | Inr (c, L') \<Rightarrow> (Inr c, L')))))"

section \<open>Reversal and expiry\<close>

text \<open>The guards of a reversal: the consequence, and the projection that is still where it put it.\<close>

definition reversal_checks ::
  "uuid \<Rightarrow> consequence_reverse \<Rightarrow> ldb \<Rightarrow> (lifecycle_consequence \<times> lifecycle_projection) res" where
  "reversal_checks i q L =
     (case get_row lc_id (consequences L) i of
        None \<Rightarrow> http 404 ''Consequence not found.''
      | Some c \<Rightarrow>
          if lc_status c \<noteq> ''active'' then http 409 ''Consequence is not active.''
          else
            (case get_row lv_id (lifecycle_events L) (lc_event_id c) of
               None \<Rightarrow> Inl (AttributeError ''projection_id'')
             | Some e \<Rightarrow>
                 (case get_row pj_id (projections L) (lv_projection_id e) of
                    None \<Rightarrow> Inl (AttributeError ''version'')
                  | Some p \<Rightarrow>
                      ebind (validate_expected_version (pj_version p) (vq_expected_version q)) (\<lambda>_.
                        if pj_state p \<noteq> lc_resulting_state c
                        then http 409 ''Projection moved after the consequence.''
                        else Inr (c, p)))))"

definition reverse_action :: "lifecycle_consequence \<Rightarrow> string" where
  "reverse_action c = (if lc_action c \<in> {''promote'', ''reinstate''} then ''demote'' else ''reinstate'')"

definition reversal_request ::
  "lifecycle_consequence \<Rightarrow> lifecycle_projection \<Rightarrow> consequence_reverse \<Rightarrow> authority_resolution_request" where
  "reversal_request c p q =
     \<lparr>rq_actor = vq_actor q, rq_decision_type = fst (authority_for (pj_dimension p) (reverse_action c)),
      rq_action = snd (authority_for (pj_dimension p) (reverse_action c)),
      rq_object_type = pj_subject_type p, rq_object_id = pj_subject_id p, rq_object_digest = pj_subject_digest p,
      rq_scope = [(''reverse_consequence_id'', juuid (lc_id c))],
      rq_risk_level = vq_risk_level q, rq_environment = vq_environment q, rq_requester = None,
      rq_originator = Some (vq_originator q), rq_evaluator = Some (vq_evaluator q),
      rq_active_veto_roles = vq_active_veto_roles q, rq_exception_id = None\<rparr>"

definition reversal_json :: "consequence_reverse \<Rightarrow> lifecycle_consequence \<Rightarrow> lifecycle_event \<Rightarrow> json" where
  "reversal_json q c e = JObj
     [(''command_id'', juuid (vq_command_id q)), (''event_digest'', JStr (lv_record_digest e)),
      (''action'', JStr ''reverse''), (''reversal_of'', juuid (lc_id c)),
      (''resulting_state'', JStr (lc_rollback_state c))]"

definition new_reversal ::
  "time \<Rightarrow> uuid \<Rightarrow> consequence_reverse \<Rightarrow> lifecycle_consequence \<Rightarrow> lifecycle_event \<Rightarrow> lifecycle_consequence" where
  "new_reversal now i q c e =
     \<lparr>lc_id = i, lc_event_id = lv_id e, lc_command_id = vq_command_id q, lc_action = lc_action c,
      lc_status = ''reversal'', lc_prior_state = lc_resulting_state c, lc_resulting_state = lc_rollback_state c,
      lc_rollback_state = lc_resulting_state c, lc_approvers = [vq_actor q],
      lc_affected_descendants = lc_affected_descendants c, lc_evidence_epoch = now,
      lc_expires_at = lc_expires_at c, lc_reversed_by_id = None, lc_reversal_of_id = Some (lc_id c),
      lc_reason = vq_reason q, lc_record_digest = digest_json (reversal_json q c e), lc_created_at = now\<rparr>"

definition commit_reversal ::
  "time \<Rightarrow> string \<Rightarrow> consequence_reverse \<Rightarrow> lifecycle_consequence \<Rightarrow> lifecycle_projection \<Rightarrow> authority_decision_record
     \<Rightarrow> ldb \<Rightarrow> (lifecycle_consequence \<times> ldb) res" where
  "commit_reversal now terminal_status q c p r L =
     (let e = consequence_event now (next_uuid (core L)) p (vq_command_id q) (''reverse-'' @ lc_action c)
                (lc_rollback_state c) (vq_actor q) (dr_id r) [lc_record_digest c] (vq_reason q)
      in ebind (flush_event now e L) (\<lambda>L1.
           (let x = new_reversal now (next_uuid (core L1)) q c e
            in ebind (add_consequence x L1) (\<lambda>L2.
                 Inr (x, upd_consequence (lc_id c) (ended_by terminal_status (lc_id x)) L2)))))"

definition reverse_consequence ::
  "time \<Rightarrow> string \<Rightarrow> uuid \<Rightarrow> consequence_reverse \<Rightarrow> ldb \<Rightarrow> lifecycle_consequence res \<times> ldb" where
  "reverse_consequence now terminal_status i q L =
     (case List.find (\<lambda>c. lc_command_id c = vq_command_id q) (consequences L) of
        Some x \<Rightarrow>
          (if lc_status x \<noteq> ''reversal'' \<or> lc_reversal_of_id x \<noteq> Some i
           then (http 409 ''Reversal command identity changed.'', L)
           else (Inr x, L))
      | None \<Rightarrow>
          (case reversal_checks i q L of
             Inl x \<Rightarrow> (Inl x, L)
           | Inr (c, p) \<Rightarrow>
               if \<not> valid_resolution_request (reversal_request c p q)
               then (Inl (ValueError ''AuthorityResolutionRequest''), L)
               else
                 (case resolve_authority now (reversal_request c p q) (core L) of
                    (Inl x, d) \<Rightarrow> (Inl x, L\<lparr>core := d\<rparr>)
                  | (Inr r, d) \<Rightarrow>
                      (case commit_reversal now terminal_status q c p r (L\<lparr>core := d\<rparr>) of
                         Inl x \<Rightarrow> (Inl x, L)
                       | Inr (x, L') \<Rightarrow> (Inr x, L')))))"

definition expire_consequence ::
  "time \<Rightarrow> uuid \<Rightarrow> consequence_reverse \<Rightarrow> ldb \<Rightarrow> lifecycle_consequence res \<times> ldb" where
  "expire_consequence now i q L =
     (case get_row lc_id (consequences L) i of
        None \<Rightarrow> (http 404 ''Consequence not found.'', L)
      | Some c \<Rightarrow>
          if now < lc_expires_at c then (http 409 ''Consequence has not expired.'', L)
          else reverse_consequence now ''expired'' i q L)"

section \<open>Routes\<close>

definition create_consequence ::
  "time \<Rightarrow> string \<Rightarrow> string \<Rightarrow> consequence_create \<Rightarrow> ldb \<Rightarrow> lifecycle_consequence res \<times> ldb" where
  "create_consequence now st si q L =
     (case valid_consequence_create now q of
        Inl e \<Rightarrow> (Inl e, L)
      | Inr _ \<Rightarrow> apply_consequence now st si q L)"

definition reverse :: "time \<Rightarrow> uuid \<Rightarrow> consequence_reverse \<Rightarrow> ldb \<Rightarrow> lifecycle_consequence res \<times> ldb" where
  "reverse now i q L =
     (if \<not> valid_consequence_reverse q then (Inl (ValueError ''request''), L)
      else reverse_consequence now ''reversed'' i q L)"

definition expire_now :: "time \<Rightarrow> uuid \<Rightarrow> consequence_reverse \<Rightarrow> ldb \<Rightarrow> lifecycle_consequence res \<times> ldb" where
  "expire_now now i q L =
     (if \<not> valid_consequence_reverse q then (Inl (ValueError ''request''), L)
      else expire_consequence now i q L)"

section \<open>What the operations write\<close>

lemma consequence_event_simps [simp]:
  "lv_id (consequence_event now i p k c s a b ev x) = i"
  "lv_projection_id (consequence_event now i p k c s a b ev x) = pj_id p"
  "lv_command_id (consequence_event now i p k c s a b ev x) = k"
  "lv_dimension (consequence_event now i p k c s a b ev x) = pj_dimension p"
  "lv_prior_state (consequence_event now i p k c s a b ev x) = pj_state p"
  "lv_resulting_state (consequence_event now i p k c s a b ev x) = s"
  "lv_created_at (consequence_event now i p k c s a b ev x) = now"
  "before_event (consequence_event now i p k c s a b ev x) = snapshot_of p"
  "proper_event (consequence_event now i p k c s a b ev x)"
  by (simp_all add: consequence_event_def Let_def before_event_def snapshot_of_def proper_event_def)

lemma consequence_event_digest:
  "lv_record_digest (consequence_event now i p k c s a b ev x)
    = digest_json (event_material p (consequence_event now i p k c s a b ev x))"
  by (simp add: consequence_event_def Let_def event_material_def event_document_def)

lemma appendable_consequence:
  assumes "p \<in> set (projections L)" and "k \<notin> lv_command_id ` set (lifecycle_events L)"
  shows "appendable utc now (consequence_event now (next_uuid (core L)) p k c s a b ev x) L"
  using assms by (auto simp: appendable_def consequence_event_digest intro!: bexI[of _ p])

lemma flush_event_Inr:
  "flush_event now e L = Inr L' \<longleftrightarrow>
     lv_command_id e \<notin> lv_command_id ` set (lifecycle_events L)
     \<and> lv_record_digest e \<notin> lv_record_digest ` set (lifecycle_events L) \<and> L' = record_event now e L"
proof -
  have "list_ex (\<lambda>x. lv_command_id x = lv_command_id e \<or> lv_record_digest x = lv_record_digest e) (lifecycle_events L)
      \<longleftrightarrow> lv_command_id e \<in> lv_command_id ` set (lifecycle_events L)
        \<or> lv_record_digest e \<in> lv_record_digest ` set (lifecycle_events L)"
    unfolding list_ex_iff image_iff by metis
  then show ?thesis by (auto simp: flush_event_def)
qed

lemma add_consequence_Inr:
  assumes "add_consequence c L = Inr L'"
  shows "L' = L\<lparr>consequences := consequences L @ [c], core := (core L)\<lparr>next_uuid := Suc (next_uuid (core L))\<rparr>\<rparr>"
  using assms by (simp add: add_consequence_def split: if_split_asm)

text \<open>The rows after an event, a ledger entry for it, and the end of an earlier entry.\<close>

definition settled :: "time \<Rightarrow> lifecycle_event \<Rightarrow> lifecycle_consequence list \<Rightarrow> ldb \<Rightarrow> ldb" where
  "settled now e cs L =
     (record_event now e L)\<lparr>consequences := cs, core := (core L)\<lparr>next_uuid := Suc (Suc (next_uuid (core L)))\<rparr>\<rparr>"

lemma settled_simps [simp]:
  "projections (settled now e cs L) = projections (record_event now e L)"
  "lifecycle_events (settled now e cs L) = lifecycle_events L @ [e]"
  "consequences (settled now e cs L) = cs" "next_uuid (core (settled now e cs L)) = Suc (Suc (next_uuid (core L)))"
  "producer_receipts (settled now e cs L) = producer_receipts L"
  "decisions (core (settled now e cs L)) = decisions (core L)"
  by (simp_all add: settled_def)

definition ended_entries :: "string \<Rightarrow> uuid \<Rightarrow> lifecycle_consequence \<Rightarrow> lifecycle_consequence list \<Rightarrow> lifecycle_consequence list" where
  "ended_entries status i c cs = upd_row lc_id i (ended_by status (lc_id c)) (cs @ [c])"

lemma commit_consequence_Inr:
  assumes "commit_consequence now q p s a L = Inr (c, L')"
  obtains e where "e = consequence_event now (next_uuid (core L)) p (cq_command_id q) (cq_action q) s
      (cq_actor q) (dr_id a) (cq_evidence q) (cq_reason q)"
    "cq_command_id q \<notin> lv_command_id ` set (lifecycle_events L)"
    "c = new_consequence now (Suc (next_uuid (core L))) q e (prior_consequence p L)"
    "L' = settled now e (case prior_consequence p L of
                           None \<Rightarrow> consequences L @ [c]
                         | Some x \<Rightarrow> ended_entries ''superseded'' (lc_id x) c (consequences L)) L"
proof -
  define e where "e = consequence_event now (next_uuid (core L)) p (cq_command_id q) (cq_action q) s
      (cq_actor q) (dr_id a) (cq_evidence q) (cq_reason q)"
  obtain L1 L2 where L1: "flush_event now e L = Inr L1"
    and c: "c = new_consequence now (next_uuid (core L1)) q e (prior_consequence p L)"
    and L2: "add_consequence c L1 = Inr L2"
    and L': "L' = (case prior_consequence p L of
                     None \<Rightarrow> L2
                   | Some x \<Rightarrow> upd_consequence (lc_id x) (ended_by ''superseded'' (lc_id c)) L2)"
    using assms by (auto simp: commit_consequence_def Let_def ebind_Inr_iff e_def)
  have L1': "L1 = record_event now e L" "cq_command_id q \<notin> lv_command_id ` set (lifecycle_events L)"
    using L1 by (simp_all add: flush_event_Inr e_def)
  have "L' = settled now e (case prior_consequence p L of
                           None \<Rightarrow> consequences L @ [c]
                         | Some x \<Rightarrow> ended_entries ''superseded'' (lc_id x) c (consequences L)) L"
    using add_consequence_Inr[OF L2] L'
    by (simp add: L1' settled_def ended_entries_def upd_consequence_def record_event_def split: option.split)
  then show ?thesis using that e_def L1' c by simp
qed

lemma commit_reversal_Inr:
  assumes "commit_reversal now status q c p a L = Inr (x, L')"
  obtains e where "e = consequence_event now (next_uuid (core L)) p (vq_command_id q) (''reverse-'' @ lc_action c)
      (lc_rollback_state c) (vq_actor q) (dr_id a) [lc_record_digest c] (vq_reason q)"
    "vq_command_id q \<notin> lv_command_id ` set (lifecycle_events L)"
    "x = new_reversal now (Suc (next_uuid (core L))) q c e"
    "L' = settled now e (ended_entries status (lc_id c) x (consequences L)) L"
proof -
  define e where "e = consequence_event now (next_uuid (core L)) p (vq_command_id q) (''reverse-'' @ lc_action c)
      (lc_rollback_state c) (vq_actor q) (dr_id a) [lc_record_digest c] (vq_reason q)"
  obtain L1 L2 where L1: "flush_event now e L = Inr L1"
    and x: "x = new_reversal now (next_uuid (core L1)) q c e" and L2: "add_consequence x L1 = Inr L2"
    and L': "L' = upd_consequence (lc_id c) (ended_by status (lc_id x)) L2"
    using assms by (auto simp: commit_reversal_def Let_def ebind_Inr_iff e_def)
  have L1': "L1 = record_event now e L" "vq_command_id q \<notin> lv_command_id ` set (lifecycle_events L)"
    using L1 by (simp_all add: flush_event_Inr e_def)
  have "L' = settled now e (ended_entries status (lc_id c) x (consequences L)) L"
    using add_consequence_Inr[OF L2] L'
    by (simp add: L1' settled_def ended_entries_def upd_consequence_def record_event_def)
  then show ?thesis using that e_def L1' x by simp
qed

lemma apply_outcome:
  assumes "apply_consequence now st si q L = (r, L')"
  obtains (same) "L' = L" "\<And>x. r = Inr x \<Longrightarrow> x \<in> set (consequences L)"
    | (refused) x d where "r = Inl x" "L' = L\<lparr>core := d\<rparr>"
        "d = snd (resolve_authority now (consequence_request st si q) (core L))"
    | (committed) p s a d c where "consequence_checks now st si q L = Inr (p, s)"
        "resolve_authority now (consequence_request st si q) (core L) = (Inr a, d)"
        "commit_consequence now q p s a (L\<lparr>core := d\<rparr>) = Inr (c, L')" "r = Inr c"
        "cq_command_id q \<notin> lc_command_id ` set (consequences L)"
proof (cases "List.find (\<lambda>c. lc_command_id c = cq_command_id q) (consequences L)")
  case (Some c)
  then have "c \<in> set (consequences L)" by (auto simp: find_Some_iff)
  moreover have "r = repeated_consequence st si q c L" "L' = L" using assms Some by (auto simp: apply_consequence_def)
  ultimately show ?thesis
    using same by (auto simp: repeated_consequence_def split: option.split_asm if_split_asm)
next
  case None
  then have new: "cq_command_id q \<notin> lc_command_id ` set (consequences L)" by (auto simp: find_None_iff)
  show ?thesis
  proof (cases "consequence_checks now st si q L")
    case (Inl x)
    then show ?thesis using assms None same by (auto simp: apply_consequence_def)
  next
    case (Inr y)
    obtain p s where y: "y = (p, s)" by (cases y)
    obtain ar d where auth: "resolve_authority now (consequence_request st si q) (core L) = (ar, d)"
      by (cases "resolve_authority now (consequence_request st si q) (core L)")
    show ?thesis
    proof (cases ar)
      case Left: (Inl x)
      then show ?thesis using assms None Inr y auth same refused
        by (auto simp: apply_consequence_def split: if_split_asm)
    next
      case Right: (Inr a)
      then show ?thesis
        using assms None Inr y auth new same committed[of p s a d]
        by (auto simp: apply_consequence_def split: if_split_asm sum.split_asm)
    qed
  qed
qed

lemma reverse_outcome:
  assumes "reverse_consequence now status i q L = (r, L')"
  obtains (same) "L' = L" "\<And>x. r = Inr x \<Longrightarrow> x \<in> set (consequences L)"
    | (refused) x c p d where "r = Inl x" "L' = L\<lparr>core := d\<rparr>"
        "d = snd (resolve_authority now (reversal_request c p q) (core L))"
    | (committed) c p a d x where "reversal_checks i q L = Inr (c, p)"
        "resolve_authority now (reversal_request c p q) (core L) = (Inr a, d)"
        "commit_reversal now status q c p a (L\<lparr>core := d\<rparr>) = Inr (x, L')" "r = Inr x"
        "vq_command_id q \<notin> lc_command_id ` set (consequences L)"
proof (cases "List.find (\<lambda>c. lc_command_id c = vq_command_id q) (consequences L)")
  case (Some c)
  then have "c \<in> set (consequences L)" by (auto simp: find_Some_iff)
  then show ?thesis using assms Some same by (auto simp: reverse_consequence_def split: if_split_asm)
next
  case None
  then have new: "vq_command_id q \<notin> lc_command_id ` set (consequences L)" by (auto simp: find_None_iff)
  show ?thesis
  proof (cases "reversal_checks i q L")
    case (Inl x)
    then show ?thesis using assms None same by (auto simp: reverse_consequence_def)
  next
    case (Inr y)
    obtain c p where y: "y = (c, p)" by (cases y)
    obtain ar d where auth: "resolve_authority now (reversal_request c p q) (core L) = (ar, d)"
      by (cases "resolve_authority now (reversal_request c p q) (core L)")
    show ?thesis
    proof (cases ar)
      case Left: (Inl x)
      show ?thesis
      proof (cases "valid_resolution_request (reversal_request c p q)")
        case True
        then have "r = Inl x" "L' = L\<lparr>core := d\<rparr>" "d = snd (resolve_authority now (reversal_request c p q) (core L))"
          using assms None Inr y auth Left by (simp_all add: reverse_consequence_def)
        then show ?thesis by (rule refused)
      next
        case False
        then have "L' = L" "\<And>x. r \<noteq> Inr x" using assms None Inr y by (auto simp: reverse_consequence_def)
        then show ?thesis using same by simp
      qed
    next
      case Right: (Inr a)
      then show ?thesis
        using assms None Inr y auth new same committed[of c p a d]
        by (auto simp: reverse_consequence_def split: if_split_asm sum.split_asm)
    qed
  qed
qed

section \<open>The log and the ledger\<close>

lemma log_ok_settled:
  assumes "log_ok utc t L" and "appendable utc now e L" and "t < now"
  shows "log_ok utc now (settled now e cs L)"
  using log_ok_core[OF log_ok_record[OF assms], of "settled now e cs L" now] by simp

text \<open>
  An entry of the ledger belongs to an event with its states, and how it ended is recorded on both
  sides: a reversed or expired entry names its reversal and the reversal names it.
\<close>

definition entry_event :: "ldb \<Rightarrow> lifecycle_consequence \<Rightarrow> bool" where
  "entry_event L c \<longleftrightarrow>
     lc_id c < next_uuid (core L) \<and> lc_rollback_state c = lc_prior_state c
     \<and> (\<exists>e \<in> set (lifecycle_events L). lv_id e = lc_event_id c \<and> lv_command_id e = lc_command_id c
          \<and> lv_prior_state e = lc_prior_state c \<and> lv_resulting_state e = lc_resulting_state c)"

definition reversal_of :: "lifecycle_consequence \<Rightarrow> lifecycle_consequence \<Rightarrow> bool" where
  "reversal_of x c \<longleftrightarrow>
     lc_status x = ''reversal'' \<and> lc_reversal_of_id x = Some (lc_id c) \<and> lc_reversed_by_id c = Some (lc_id x)
     \<and> lc_status c \<in> {''reversed'', ''expired''}
     \<and> lc_prior_state x = lc_resulting_state c \<and> lc_resulting_state x = lc_prior_state c"

definition entry_status :: "lifecycle_consequence list \<Rightarrow> lifecycle_consequence \<Rightarrow> bool" where
  "entry_status cs c \<longleftrightarrow>
     lc_status c = ''active'' \<and> lc_reversed_by_id c = None
     \<or> lc_status c = ''superseded''
       \<and> (\<exists>x \<in> set cs. lc_reversed_by_id c = Some (lc_id x) \<and> lc_prior_state x = lc_resulting_state c)
     \<or> (\<exists>x \<in> set cs. reversal_of x c)
     \<or> lc_reversed_by_id c = None \<and> (\<exists>x \<in> set cs. reversal_of c x)"

definition ledger_ok :: "ldb \<Rightarrow> bool" where
  "ledger_ok L \<longleftrightarrow>
     distinct (map lc_id (consequences L))
     \<and> (\<forall>c \<in> set (consequences L). entry_event L c \<and> entry_status (consequences L) c)"

lemma entry_status_cases:
  assumes "entry_status cs c"
  obtains (active) "lc_status c = ''active''" "lc_reversed_by_id c = None"
    | (superseded) x where "x \<in> set cs" "lc_status c = ''superseded''" "lc_reversed_by_id c = Some (lc_id x)"
        "lc_prior_state x = lc_resulting_state c"
    | (ended) x where "x \<in> set cs" "reversal_of x c"
    | (reversal) x where "x \<in> set cs" "reversal_of c x" "lc_reversed_by_id c = None"
  using assms unfolding entry_status_def
  by (elim disjE conjE bexE) (rule active superseded ended reversal, assumption+)+

lemma entry_event_mono:
  assumes "entry_event L c" and "set (lifecycle_events L) \<subseteq> set (lifecycle_events L')"
    and "next_uuid (core L) \<le> next_uuid (core L')"
  shows "entry_event L' c"
  using assms by (auto simp: entry_event_def)

lemma ledger_ok_mono:
  assumes "ledger_ok L" and "consequences L' = consequences L"
    and "set (lifecycle_events L) \<subseteq> set (lifecycle_events L')" and "next_uuid (core L) \<le> next_uuid (core L')"
  shows "ledger_ok L'"
  using assms entry_event_mono by (auto simp: ledger_ok_def)

lemma ended_by_simps [simp]:
  "lc_id (ended_by s i c) = lc_id c" "lc_prior_state (ended_by s i c) = lc_prior_state c"
  "lc_resulting_state (ended_by s i c) = lc_resulting_state c" "lc_status (ended_by s i c) = s"
  "lc_reversed_by_id (ended_by s i c) = Some i" "lc_reversal_of_id (ended_by s i c) = lc_reversal_of_id c"
  "entry_event L (ended_by s i c) = entry_event L c"
  by (simp_all add: ended_by_def entry_event_def)

text \<open>Entries that are not the one that ends keep their status: nobody refers to an active entry as ended.\<close>

lemma entry_status_other:
  assumes ok: "entry_status cs y" and old: "lc_status old = ''active''" "y \<noteq> old"
    and unique: "\<And>x. x \<in> set cs \<Longrightarrow> lc_id x = lc_id old \<Longrightarrow> x = old"
  shows "entry_status (ended_entries status (lc_id old) c cs) y"
proof -
  let ?cs = "ended_entries status (lc_id old) c cs"
  have keep: "x \<in> set ?cs" if "x \<in> set cs" "x \<noteq> old" for x
    using that unique upd_row_memI[of x "cs @ [c]" lc_id "lc_id old" "ended_by status (lc_id c)"]
    by (auto simp: ended_entries_def split: if_split_asm)
  have ended: "ended_by status (lc_id c) old \<in> set ?cs" if "old \<in> set cs"
    using that upd_row_memI[of old "cs @ [c]" lc_id "lc_id old" "ended_by status (lc_id c)"]
    by (simp add: ended_entries_def)
  have sup: "\<exists>x' \<in> set ?cs. lc_id x' = lc_id x \<and> lc_prior_state x' = lc_prior_state x" if "x \<in> set cs" for x
  proof (cases "x = old")
    case True
    then show ?thesis using ended that by (intro bexI[of _ "ended_by status (lc_id c) old"]) simp_all
  next
    case False
    then show ?thesis using keep that by blast
  qed
  have rev: "x \<noteq> old" if "reversal_of x y \<or> reversal_of y x" for x
    using that old(1) by (auto simp: reversal_of_def)
  from ok show ?thesis
  proof (cases rule: entry_status_cases)
    case active
    then show ?thesis by (simp add: entry_status_def)
  next
    case (superseded x)
    then show ?thesis using sup[of x] by (metis entry_status_def)
  next
    case (ended x)
    then have "x \<in> set ?cs" using keep rev by blast
    then show ?thesis using ended by (auto simp: entry_status_def)
  next
    case (reversal x)
    then have "x \<in> set ?cs" using keep rev by blast
    then show ?thesis using reversal by (auto simp: entry_status_def)
  qed
qed

text \<open>A new entry that ends an active one.\<close>

definition replaces :: "string \<Rightarrow> lifecycle_consequence \<Rightarrow> lifecycle_consequence \<Rightarrow> bool" where
  "replaces status old c \<longleftrightarrow>
     lc_reversed_by_id c = None \<and> lc_prior_state c = lc_resulting_state old
     \<and> (status = ''superseded'' \<and> lc_status c = ''active''
        \<or> status \<in> {''reversed'', ''expired''} \<and> lc_status c = ''reversal'' \<and> lc_reversal_of_id c = Some (lc_id old)
          \<and> lc_resulting_state c = lc_prior_state old)"

lemma entry_status_ended:
  assumes "replaces status old c" and "c \<in> set cs"
  shows "entry_status cs (ended_by status (lc_id c) old)"
  using assms unfolding replaces_def entry_status_def reversal_of_def by (elim conjE disjE) auto

lemma entry_status_new:
  assumes "replaces status old c" and "ended_by status (lc_id c) old \<in> set cs"
  shows "entry_status cs c"
proof -
  have "reversal_of c (ended_by status (lc_id c) old)" if "lc_status c = ''reversal''"
    using assms(1) that by (auto simp: replaces_def reversal_of_def)
  then show ?thesis using assms by (auto simp: replaces_def entry_status_def)
qed

lemma ledger_ok_ended:
  assumes ok: "ledger_ok L" and old: "old \<in> set (consequences L)" "lc_status old = ''active''"
    and c: "replaces status old c" "entry_event L' c" "next_uuid (core L) \<le> lc_id c"
    and events: "set (lifecycle_events L) \<subseteq> set (lifecycle_events L')" "next_uuid (core L) \<le> next_uuid (core L')"
    and L': "consequences L' = ended_entries status (lc_id old) c (consequences L)"
  shows "ledger_ok L'"
proof -
  have below: "lc_id x < lc_id c" if "x \<in> set (consequences L)" for x
    using ok that c(3) by (auto simp: ledger_ok_def entry_event_def)
  have unique: "x = old" if "x \<in> set (consequences L)" "lc_id x = lc_id old" for x
    using ok old(1) that by (auto simp: ledger_ok_def distinct_map inj_on_def)
  have mem: "x \<in> set (consequences L') \<longleftrightarrow>
      x = c \<or> x = ended_by status (lc_id c) old \<or> x \<in> set (consequences L) \<and> x \<noteq> old" for x
  proof -
    define f where "f y = (if lc_id y = lc_id old then ended_by status (lc_id c) y else y)"
      for y :: lifecycle_consequence
    have "set (consequences L) = insert old (set (consequences L) - {old})" using old(1) by blast
    then have "set (consequences L') = f ` insert c (insert old (set (consequences L) - {old}))"
      unfolding L' ended_entries_def upd_row_def f_def by simp
    moreover have "f c = c" "f old = ended_by status (lc_id c) old" using below[OF old(1)] by (simp_all add: f_def)
    moreover have "f y = y" if "y \<in> set (consequences L) - {old}" for y
      using unique[of y] that by (auto simp: f_def)
    then have "f ` (set (consequences L) - {old}) = set (consequences L) - {old}" by simp
    ultimately have "set (consequences L') = insert c (insert (ended_by status (lc_id c) old) (set (consequences L) - {old}))"
      unfolding image_insert by (simp only:)
    then show ?thesis by blast
  qed
  have "entry_event L' x \<and> entry_status (consequences L') x" if "x \<in> set (consequences L')" for x
    using that[unfolded mem]
  proof (elim disjE conjE)
    assume "x = c"
    then show ?thesis using c(2) entry_status_new[OF c(1)] mem by simp
  next
    assume "x = ended_by status (lc_id c) old"
    moreover have "entry_event L' old"
      using ok old(1) events by (auto simp: ledger_ok_def intro: entry_event_mono)
    ultimately show ?thesis using entry_status_ended[OF c(1)] mem by simp
  next
    assume x: "x \<in> set (consequences L)" "x \<noteq> old"
    then have "entry_event L x" "entry_status (consequences L) x" using ok by (simp_all add: ledger_ok_def)
    then show ?thesis
      using entry_status_other[OF _ old(2) x(2)] unique events entry_event_mono by (simp add: L')
  qed
  moreover have "lc_id c \<notin> lc_id ` set (consequences L)" using below by force
  then have "distinct (map lc_id (consequences L'))"
    using ok by (simp add: L' ended_entries_def ledger_ok_def map_upd_row_same)
  ultimately show ?thesis by (simp add: ledger_ok_def)
qed

lemma ledger_ok_new:
  assumes ok: "ledger_ok L" and c: "lc_status c = ''active''" "lc_reversed_by_id c = None" "entry_event L' c"
      "next_uuid (core L) \<le> lc_id c"
    and events: "set (lifecycle_events L) \<subseteq> set (lifecycle_events L')" "next_uuid (core L) \<le> next_uuid (core L')"
    and L': "consequences L' = consequences L @ [c]"
  shows "ledger_ok L'"
proof -
  have below: "lc_id x < lc_id c" if "x \<in> set (consequences L)" for x
    using ok that c(4) by (auto simp: ledger_ok_def entry_event_def)
  then have "lc_id c \<notin> lc_id ` set (consequences L)" by force
  then have "distinct (map lc_id (consequences L'))"
    using ok by (simp add: L' ledger_ok_def)
  moreover have "entry_event L' x \<and> entry_status (consequences L') x" if x: "x \<in> set (consequences L')" for x
  proof (cases "x = c")
    case True
    then show ?thesis using c by (simp add: entry_status_def)
  next
    case False
    then have "entry_event L x" "entry_status (consequences L) x" using ok x by (simp_all add: ledger_ok_def L')
    then show ?thesis using events entry_event_mono by (auto simp: L' entry_status_def)
  qed
  ultimately show ?thesis by (simp add: ledger_ok_def)
qed

section \<open>The lifecycles as a step relation\<close>

definition lifecycle_ok :: "bool \<Rightarrow> time \<Rightarrow> ldb \<Rightarrow> bool" where
  "lifecycle_ok utc t L \<longleftrightarrow> log_ok utc t L \<and> ledger_ok L"

text \<open>
  One committed request at instant \<open>now\<close>. \<open>utc\<close> says that effective times are sent in UTC. The requests that
  move a projection forward, and with them reversals, expiries, the requests of the decision
  authority and the registration of producer receipts by services outside the model.
\<close>

inductive forward_step :: "bool \<Rightarrow> time \<Rightarrow> ldb \<Rightarrow> ldb \<Rightarrow> bool" for utc where
  subject: "forward_step utc now L (snd (register_subject now p L))"
| transit: "(utc \<longrightarrow> snd (tq_effective_at q) = 0) \<Longrightarrow> forward_step utc now L (snd (transition_subject now st si q L))"
| consequence: "forward_step utc now L (snd (create_consequence now st si q L))"

inductive lifecycle_step :: "(time \<Rightarrow> string) \<Rightarrow> bool \<Rightarrow> time \<Rightarrow> ldb \<Rightarrow> ldb \<Rightarrow> bool" for dump_time utc where
  forward: "forward_step utc now L L' \<Longrightarrow> lifecycle_step dump_time utc now L L'"
| reverse: "lifecycle_step dump_time utc now L (snd (reverse now i q L))"
| expire: "lifecycle_step dump_time utc now L (snd (expire_now now i q L))"
| authority: "authority_step dump_time (core L) d \<Longrightarrow> lifecycle_step dump_time utc now L (L\<lparr>core := d\<rparr>)"
| receipts: "lifecycle_step dump_time utc now L (L\<lparr>producer_receipts := rs\<rparr>)"

text \<open>The states that requests at increasing instants lead to, with the last instant.\<close>

inductive lifecycle_run :: "(time \<Rightarrow> string) \<Rightarrow> bool \<Rightarrow> time \<Rightarrow> ldb \<Rightarrow> bool" for dump_time utc where
  init: "lifecycle_run dump_time utc t empty_ldb"
| step: "lifecycle_run dump_time utc t L \<Longrightarrow> t < now \<Longrightarrow> lifecycle_step dump_time utc now L L'
    \<Longrightarrow> lifecycle_run dump_time utc now L'"

lemma lifecycle_ok_core:
  assumes "lifecycle_ok utc t L" and "projections L' = projections L" and "lifecycle_events L' = lifecycle_events L"
    and "consequences L' = consequences L" and "next_uuid (core L) \<le> next_uuid (core L')" and "t \<le> now"
  shows "lifecycle_ok utc now L'"
  using assms log_ok_core[of utc t L L' now] ledger_ok_mono[of L L'] by (simp add: lifecycle_ok_def)

lemma lifecycle_ok_resolve:
  assumes "lifecycle_ok utc t L" and "resolve_authority now q (core L) = (r, d)" and "t \<le> t'"
  shows "lifecycle_ok utc t' (L\<lparr>core := d\<rparr>)"
  using lifecycle_ok_core[OF assms(1), of "L\<lparr>core := d\<rparr>" t'] resolve_authority_grows(1)[OF assms(2)] assms(3) by simp

lemma lifecycle_ok_register:
  assumes "lifecycle_ok utc t L" and "t < now"
  shows "lifecycle_ok utc now (snd (register_subject now p L))"
proof -
  have same: "lifecycle_ok utc now L" using lifecycle_ok_core[OF assms(1), of L now] assms(2) by simp
  show ?thesis
  proof (cases "valid_subject_create p \<and> (\<exists>x. create_subject now p L = Inr x)")
    case True
    then obtain ps L' where c: "create_subject now p L = Inr (ps, L')" by auto
    have "ledger_ok L'"
      using c by (cases rule: create_subject_outcome)
        (use assms(1) ledger_ok_mono[of L L'] in \<open>simp_all add: lifecycle_ok_def\<close>)
    then show ?thesis
      using True c log_ok_create_subject[OF _ assms(2) c] assms(1) by (auto simp: register_subject_def lifecycle_ok_def)
  next
    case False
    then show ?thesis using same by (auto simp: register_subject_def split: sum.split)
  qed
qed

lemma lifecycle_ok_transit:
  assumes "lifecycle_ok utc t L" and "t < now" and "utc \<longrightarrow> snd (tq_effective_at q) = 0"
  shows "lifecycle_ok utc now (snd (transition_subject now st si q L))"
proof -
  obtain r L' where tr: "transition now st si q L = (r, L')" by (cases "transition now st si q L")
  have "ledger_ok L'"
    using tr
  proof (cases rule: transition_outcome)
    case (refused x d)
    then show ?thesis
      using ledger_ok_mono[of L L'] assms(1) resolve_authority_grows(1)[of now "transition_request st si q" "core L" _ d]
      by (simp add: lifecycle_ok_def prod_eq_iff)
  next
    case (recorded p s a d e)
    then show ?thesis
      using ledger_ok_mono[of L L'] assms(1) resolve_authority_grows(1)[OF recorded(3)]
      by (auto simp: lifecycle_ok_def)
  qed (use assms(1) in \<open>simp_all add: lifecycle_ok_def\<close>)
  moreover have "log_ok utc now L'"
    using log_ok_transition[OF _ assms(2,3) tr] assms(1) by (simp add: lifecycle_ok_def)
  ultimately have "lifecycle_ok utc now L'" by (simp add: lifecycle_ok_def)
  moreover have "lifecycle_ok utc now L" using lifecycle_ok_core[OF assms(1), of L now] assms(2) by simp
  ultimately show ?thesis using tr by (auto simp: transition_subject_def split: sum.split)
qed

lemma new_consequence_simps [simp]:
  "lc_id (new_consequence now i q e x) = i" "lc_event_id (new_consequence now i q e x) = lv_id e"
  "lc_command_id (new_consequence now i q e x) = cq_command_id q" "lc_status (new_consequence now i q e x) = ''active''"
  "lc_prior_state (new_consequence now i q e x) = lv_prior_state e"
  "lc_rollback_state (new_consequence now i q e x) = lv_prior_state e"
  "lc_resulting_state (new_consequence now i q e x) = lv_resulting_state e"
  "lc_reversed_by_id (new_consequence now i q e x) = None"
  by (simp_all add: new_consequence_def)

lemma new_reversal_simps [simp]:
  "lc_id (new_reversal now i q c e) = i" "lc_event_id (new_reversal now i q c e) = lv_id e"
  "lc_command_id (new_reversal now i q c e) = vq_command_id q" "lc_status (new_reversal now i q c e) = ''reversal''"
  "lc_prior_state (new_reversal now i q c e) = lc_resulting_state c"
  "lc_rollback_state (new_reversal now i q c e) = lc_resulting_state c"
  "lc_resulting_state (new_reversal now i q c e) = lc_rollback_state c"
  "lc_reversed_by_id (new_reversal now i q c e) = None" "lc_reversal_of_id (new_reversal now i q c e) = Some (lc_id c)"
  by (simp_all add: new_reversal_def)

lemma prior_consequence_Some:
  assumes "prior_consequence p L = Some x"
  shows "x \<in> set (consequences L) \<and> lc_status x = ''active'' \<and> lc_resulting_state x = pj_state p"
  using max_row_Some_in[OF assms[unfolded prior_consequence_def]] by simp

lemma consequence_checks_projection:
  "consequence_checks now st si q L = Inr (p, s) \<Longrightarrow> find_projection st si (cq_dimension q) L = Some p"
  by (auto simp: consequence_checks_def check_Inr ebind_Inr_iff split: option.split_asm simp del: if_split)

lemma lifecycle_ok_apply:
  assumes ok: "lifecycle_ok utc t L" and t: "t < now" and ap: "apply_consequence now st si q L = (r, L')"
  shows "lifecycle_ok utc now L'"
  using ap
proof (cases rule: apply_outcome)
  case same
  then show ?thesis using lifecycle_ok_core[OF ok, of L now] t by simp
next
  case (refused x d)
  then show ?thesis using lifecycle_ok_resolve[OF ok, of now _ _ d now] t by (simp add: prod_eq_iff)
next
  case (committed p s a d c)
  define M where "M = L\<lparr>core := d\<rparr>"
  have M: "lifecycle_ok utc t M" using lifecycle_ok_resolve[OF ok committed(2), of t] by (simp add: M_def)
  have p: "p \<in> set (projections M)"
    using find_projection_Some[OF consequence_checks_projection[OF committed(1)]] by (simp add: M_def)
  from committed(3) obtain e where e: "e = consequence_event now (next_uuid (core M)) p (cq_command_id q) (cq_action q) s
      (cq_actor q) (dr_id a) (cq_evidence q) (cq_reason q)"
    and new: "cq_command_id q \<notin> lv_command_id ` set (lifecycle_events M)"
    and c: "c = new_consequence now (Suc (next_uuid (core M))) q e (prior_consequence p M)"
    and L': "L' = settled now e (case prior_consequence p M of
                           None \<Rightarrow> consequences M @ [c]
                         | Some x \<Rightarrow> ended_entries ''superseded'' (lc_id x) c (consequences M)) M"
    unfolding M_def[symmetric] by (rule commit_consequence_Inr)
  have "log_ok utc now L'"
    unfolding L' using M t appendable_consequence[OF p new] by (intro log_ok_settled) (simp_all add: e lifecycle_ok_def)
  moreover have entry: "entry_event L' c"
    by (simp add: entry_event_def c L' e)
  have "ledger_ok L'"
  proof (cases "prior_consequence p M")
    case None
    then show ?thesis
      using M entry by (intro ledger_ok_new[of M c L']) (auto simp: lifecycle_ok_def c L')
  next
    case (Some x)
    have "replaces ''superseded'' x c"
      using prior_consequence_Some[OF Some] by (simp add: replaces_def c e)
    then show ?thesis
      using M entry prior_consequence_Some[OF Some] Some
      by (intro ledger_ok_ended[of M x "''superseded''" c L']) (auto simp: lifecycle_ok_def c L')
  qed
  ultimately show ?thesis by (simp add: lifecycle_ok_def)
qed

lemma reversal_checks_Inr:
  assumes "reversal_checks i q L = Inr (c, p)"
  shows "c \<in> set (consequences L) \<and> lc_id c = i \<and> lc_status c = ''active'' \<and> p \<in> set (projections L)
    \<and> pj_version p = vq_expected_version q \<and> pj_state p = lc_resulting_state c
    \<and> (\<exists>e \<in> set (lifecycle_events L). lv_id e = lc_event_id c \<and> lv_projection_id e = pj_id p)"
  using assms
  by (auto simp: reversal_checks_def check_Inr ebind_Inr_iff version_Inr simp del: if_split split: option.split_asm
      dest: get_row_Some_in get_row_key)
    (metis get_row_Some_in get_row_key)

lemma lifecycle_ok_reverse:
  assumes ok: "lifecycle_ok utc t L" and t: "t < now" and status: "status \<in> {''reversed'', ''expired''}"
    and rv: "reverse_consequence now status i q L = (r, L')"
  shows "lifecycle_ok utc now L'"
  using rv
proof (cases rule: reverse_outcome)
  case same
  then show ?thesis using lifecycle_ok_core[OF ok, of L now] t by simp
next
  case (refused x c p d)
  then show ?thesis using lifecycle_ok_resolve[OF ok, of now _ _ d now] t by (simp add: prod_eq_iff)
next
  case (committed c p a d x)
  define M where "M = L\<lparr>core := d\<rparr>"
  have M: "lifecycle_ok utc t M" using lifecycle_ok_resolve[OF ok committed(2), of t] by (simp add: M_def)
  have checks: "c \<in> set (consequences M)" "lc_status c = ''active''" "p \<in> set (projections M)" "pj_state p = lc_resulting_state c"
    using reversal_checks_Inr[OF committed(1)] by (simp_all add: M_def)
  from committed(3) obtain e where e: "e = consequence_event now (next_uuid (core M)) p (vq_command_id q)
      (''reverse-'' @ lc_action c) (lc_rollback_state c) (vq_actor q) (dr_id a) [lc_record_digest c] (vq_reason q)"
    and new: "vq_command_id q \<notin> lv_command_id ` set (lifecycle_events M)"
    and x: "x = new_reversal now (Suc (next_uuid (core M))) q c e"
    and L': "L' = settled now e (ended_entries status (lc_id c) x (consequences M)) M"
    unfolding M_def[symmetric] by (rule commit_reversal_Inr)
  have rb: "lc_rollback_state c = lc_prior_state c"
    using M checks(1) by (simp add: lifecycle_ok_def ledger_ok_def entry_event_def)
  have "log_ok utc now L'"
    unfolding L' using M t appendable_consequence[OF checks(3) new] by (intro log_ok_settled) (simp_all add: e lifecycle_ok_def)
  moreover have "entry_event L' x"
    using checks(4) by (simp add: entry_event_def x L' e)
  moreover have "replaces status c x" using status rb by (simp add: replaces_def x)
  ultimately show ?thesis
    using M checks ledger_ok_ended[of M c status x L'] by (auto simp: lifecycle_ok_def x L')
qed

lemma authority_step_uuid: "authority_step dump_time d d' \<Longrightarrow> next_uuid d \<le> next_uuid d'"
proof (induction rule: authority_step.induct)
  case (policy now m dig actor d p d')
  then show ?case using create_policy_rows by simp
next
  case (activate d now i actor)
  then show ?case by (rule activate_uuid)
next
  case (resolve d now q)
  then show ?case by (simp add: resolve_authority_rows)
next
  case (delegate now x d r d')
  then show ?case using created_delegation by fastforce
next
  case (revoke now i actor d d')
  then show ?case
    by (auto simp: revoke_delegation_def upd_delegation_def ebind_Inr_iff split: option.split_asm if_split_asm)
next
  case (except now x d e d')
  then show ?case using created_exception by fastforce
next
  case (decide now i actor reason act d d')
  then show ?case by (auto simp: decide_exception_def ebind_Inr_iff upd_exception_def split: option.split_asm if_split_asm)
next
  case (expire d now)
  then show ?case by (simp add: expire_authority_def Let_def)
qed

lemma lifecycle_ok_forward:
  assumes "forward_step utc now L L'" and "lifecycle_ok utc t L" and "t < now"
  shows "lifecycle_ok utc now L'"
  using assms(1)
proof cases
  case (subject p)
  then show ?thesis using lifecycle_ok_register[OF assms(2,3)] by simp
next
  case (transit q st si)
  then show ?thesis using lifecycle_ok_transit[OF assms(2,3)] by simp
next
  case (consequence st si q)
  obtain r L1 where ap: "apply_consequence now st si q L = (r, L1)" by (cases "apply_consequence now st si q L")
  show ?thesis
    using lifecycle_ok_apply[OF assms(2,3) ap] lifecycle_ok_core[OF assms(2), of L now] assms(3) ap consequence
    by (auto simp: create_consequence_def split: sum.split)
qed

lemma lifecycle_ok_step:
  assumes "lifecycle_step dump_time utc now L L'" and "lifecycle_ok utc t L" and "t < now"
  shows "lifecycle_ok utc now L'"
  using assms(1)
proof cases
  case forward
  then show ?thesis using lifecycle_ok_forward assms(2,3) by blast
next
  case (reverse i q)
  obtain r L1 where rv: "reverse_consequence now ''reversed'' i q L = (r, L1)" by (cases "reverse_consequence now ''reversed'' i q L")
  show ?thesis
    using lifecycle_ok_reverse[OF assms(2,3) _ rv] lifecycle_ok_core[OF assms(2), of L now] assms(3) rv reverse
    by (simp add: reverse_def split: if_split)
next
  case (expire i q)
  obtain r L1 where rv: "reverse_consequence now ''expired'' i q L = (r, L1)" by (cases "reverse_consequence now ''expired'' i q L")
  show ?thesis
    using lifecycle_ok_reverse[OF assms(2,3) _ rv] lifecycle_ok_core[OF assms(2), of L now] assms(3) rv expire
    by (simp add: expire_now_def expire_consequence_def split: if_split option.split)
next
  case (authority d)
  then show ?thesis
    using lifecycle_ok_core[OF assms(2), of L' now] authority_step_uuid assms(3) by simp
next
  case (receipts rs)
  then show ?thesis using lifecycle_ok_core[OF assms(2), of L' now] assms(3) by simp
qed

lemma lifecycle_ok_run: "lifecycle_run dump_time utc t L \<Longrightarrow> lifecycle_ok utc t L"
proof (induction rule: lifecycle_run.induct)
  case (init t)
  show ?case
    by (simp add: empty_ldb_def lifecycle_ok_def log_ok_def subjects_ok_def events_ok_def ledger_ok_def
        lifecycle_log.consistent_def)
next
  case (step t L now L')
  then show ?case using lifecycle_ok_step by blast
qed

section \<open>Properties of all histories\<close>

text \<open>
  The dossier (C24) of a registered subject can always be read, when effective times are sent in UTC: no
  event fails its digest check, and the replay of the events of each dimension from its initial
  state yields exactly the stored state, version and last digest.
\<close>

theorem lifecycle_replayable:
  assumes "lifecycle_run dump_time True t L" and "p \<in> set (projections L)"
  shows "\<exists>x. lifecycle_dossier (pj_subject_type p) (pj_subject_id p) L = Inr x \<and> p \<in> set (do_projections x)
    \<and> replay_events (initial_state (pj_dimension p), 0, None)
        (filter (\<lambda>e. lv_dimension e = pj_dimension p) (do_events x)) = Inr (snapshot_of p)"
proof -
  have ok: "log_ok True t L" using lifecycle_ok_run[OF assms(1)] by (simp add: lifecycle_ok_def)
  have p: "p \<in> set (projections_of (pj_subject_type p) (pj_subject_id p) L)"
    using assms(2) by (simp add: projections_of_def of_subject_def)
  have "replays before_event after_event (initial_snapshot p) (lifecycle_log.history p L) = Some (snapshot_of p)"
    using ok assms(2) by (simp add: log_ok_def lifecycle_log.consistent_def)
  then show ?thesis
    using dossier_available[OF ok assms(2)] p subject_history[OF ok p]
    by (simp add: Let_def replay_events_replays initial_snapshot_def)
qed

text \<open>
  Repeating a transition: in every reachable state a command that was recorded is answered again with the same
  event and changes nothing, at whatever later instant it is sent.
\<close>

theorem transition_idempotent:
  assumes "lifecycle_run dump_time utc t L" and "transition now st si q L = (Inr x, L')"
  shows "transition now' st si q L' = (Inr x, L')"
  using lifecycle_ok_run[OF assms(1)] transition_repeated[OF _ assms(2)]
  by (simp add: lifecycle_ok_def log_ok_def)

text \<open>
  The ledger (C26): in every reachable state an entry is active; or it was superseded by an entry that
  started from its state; or it was reversed or expired by exactly one reversal, which names it and
  swaps its states; or it is such a reversal. Each entry has an event with its states.
\<close>

theorem consequence_ledger:
  assumes "lifecycle_run dump_time utc t L" and "c \<in> set (consequences L)"
  shows "(\<exists>e \<in> set (lifecycle_events L). lv_id e = lc_event_id c \<and> lv_command_id e = lc_command_id c
        \<and> lv_prior_state e = lc_prior_state c \<and> lv_resulting_state e = lc_resulting_state c)
    \<and> (lc_status c = ''active'' \<and> lc_reversed_by_id c = None
       \<or> lc_status c = ''superseded'' \<and> (\<exists>x \<in> set (consequences L). lc_reversed_by_id c = Some (lc_id x)
            \<and> lc_prior_state x = lc_resulting_state c)
       \<or> lc_status c \<in> {''reversed'', ''expired''} \<and> (\<exists>!x. x \<in> set (consequences L) \<and> reversal_of x c)
       \<or> lc_status c = ''reversal'' \<and> (\<exists>!x. x \<in> set (consequences L) \<and> reversal_of c x))"
proof -
  have ok: "ledger_ok L" using lifecycle_ok_run[OF assms(1)] by (simp add: lifecycle_ok_def)
  have same: "x = y" if "x \<in> set (consequences L)" "y \<in> set (consequences L)" "lc_id x = lc_id y" for x y
    using ok that by (auto simp: ledger_ok_def distinct_map inj_on_def)
  have "entry_status (consequences L) c" using ok assms(2) by (simp add: ledger_ok_def)
  then have "lc_status c = ''active'' \<and> lc_reversed_by_id c = None
       \<or> lc_status c = ''superseded'' \<and> (\<exists>x \<in> set (consequences L). lc_reversed_by_id c = Some (lc_id x)
            \<and> lc_prior_state x = lc_resulting_state c)
       \<or> lc_status c \<in> {''reversed'', ''expired''} \<and> (\<exists>!x. x \<in> set (consequences L) \<and> reversal_of x c)
       \<or> lc_status c = ''reversal'' \<and> (\<exists>!x. x \<in> set (consequences L) \<and> reversal_of c x)"
  proof (cases rule: entry_status_cases)
    case (ended x)
    then have "\<exists>!x. x \<in> set (consequences L) \<and> reversal_of x c"
      using same by (intro ex1I[of _ x]) (auto simp: reversal_of_def)
    then show ?thesis using ended(2) unfolding reversal_of_def by blast
  next
    case (reversal x)
    then have "\<exists>!x. x \<in> set (consequences L) \<and> reversal_of c x"
      using same by (intro ex1I[of _ x]) (auto simp: reversal_of_def)
    then show ?thesis using reversal(2) unfolding reversal_of_def by blast
  qed auto
  moreover have "entry_event L c" using ok assms(2) by (simp add: ledger_ok_def)
  ultimately show ?thesis unfolding entry_event_def by blast
qed

section \<open>Progress is guarded\<close>

lemma moved_projection:
  assumes "subjects_ok L" and "p \<in> set (projections L)" and "own \<in> set (projections L)"
    and "p' \<in> set (upd_row pj_id (pj_id own) (advanced now e) (projections L))" and "pj_id p' = pj_id p"
    and "pj_state p' \<noteq> pj_state p"
  shows "p = own \<and> pj_state p' = lv_resulting_state e"
proof -
  obtain x where x: "x \<in> set (projections L)" "p' = (if pj_id x = pj_id own then advanced now e x else x)"
    using assms(4) by (auto simp: in_upd_row)
  then have "pj_id x = pj_id p" using assms(5) by (auto split: if_split_asm)
  then have "x = p" using unique_projection[OF assms(1) x(1) assms(2)] by simp
  then have "pj_id p = pj_id own" "pj_state p' = lv_resulting_state e"
    using x(2) assms(6) by (auto split: if_split_asm)
  then show ?thesis using unique_projection[OF assms(1,2,3)] by simp
qed

lemma unmoved_projection:
  assumes "subjects_ok L" and "p \<in> set (projections L)" and "p' \<in> set (projections L)" and "pj_id p' = pj_id p"
  shows "p' = p"
  using unique_projection[OF assms(1,3,2,4)] .

lemma commit_consequence_moves:
  assumes "commit_consequence now q p s a L = Inr (c, L')"
  shows "\<exists>e. lv_projection_id e = pj_id p \<and> lv_resulting_state e = s
    \<and> projections L' = upd_row pj_id (pj_id p) (advanced now e) (projections L)"
proof -
  from assms obtain e where "lv_projection_id e = pj_id p \<and> lv_resulting_state e = s"
      and "\<exists>cs. L' = settled now e cs L"
    by (rule commit_consequence_Inr) (metis consequence_event_simps(2,6))
  then show ?thesis by (intro exI[of _ e]) auto
qed

text \<open>A forward request that changes a state is an admitted transition or an admitted consequence of that projection.\<close>

lemma forward_move:
  assumes "forward_step utc now L L'" and ok: "subjects_ok L" and p: "p \<in> set (projections L)"
    and p': "p' \<in> set (projections L')" "pj_id p' = pj_id p" "pj_state p' \<noteq> pj_state p"
  obtains (transition) st si q where "transition_admitted now st si q L p (pj_state p')"
    | (consequence) st si q where "consequence_checks now st si q L = Inr (p, pj_state p')"
  using assms(1)
proof cases
  case (subject s)
  show ?thesis
  proof (cases "valid_subject_create s \<and> (\<exists>x. create_subject now s L = Inr x)")
    case True
    then obtain ps where c: "create_subject now s L = Inr (ps, L')"
      using subject by (auto simp: register_subject_def)
    from c show ?thesis
    proof (cases rule: create_subject_outcome)
      case same
      then show ?thesis using unmoved_projection[OF ok p _ p'(2)] p'(1,3) by simp
    next
      case (new n)
      have "p' \<notin> set (subject_rows now n s)"
        using subject_rows_simps(1)[of p' now n s] p'(2) ok p new(1) by (auto simp: subjects_ok_def)
      then show ?thesis using unmoved_projection[OF ok p _ p'(2)] p'(1,3) new(3) by auto
    qed
  next
    case False
    then have "L' = L" using subject by (auto simp: register_subject_def split: sum.split)
    then show ?thesis using unmoved_projection[OF ok p _ p'(2)] p'(1,3) by simp
  qed
next
  case (transit q st si)
  have moved: "projections L' \<noteq> projections L"
    using unmoved_projection[OF ok p _ p'(2)] p'(1,3) by metis
  then have tr: "transition now st si q L = (fst (transition now st si q L), L')"
    using transit by (auto simp: transition_subject_def prod_eq_iff split: prod.split sum.split)
  from tr show ?thesis
  proof (cases rule: transition_outcome)
    case (recorded x s a d e)
    have x: "x \<in> set (projections L)" using recorded(2) find_projection_Some by (auto simp: transition_admitted_def)
    have "p = x \<and> pj_state p' = lv_resulting_state e"
      using p' recorded(4,6) by (intro moved_projection[OF ok p x]) simp_all
    then show ?thesis using recorded(2,4) transition by simp
  qed (use moved in simp_all)
next
  case (consequence st si q)
  have moved: "projections L' \<noteq> projections L"
    using unmoved_projection[OF ok p _ p'(2)] p'(1,3) by metis
  then have ap: "apply_consequence now st si q L = (fst (apply_consequence now st si q L), L')"
    using consequence by (auto simp: create_consequence_def prod_eq_iff split: sum.split_asm)
  from ap show ?thesis
  proof (cases rule: apply_outcome)
    case (committed x s a d c)
    have x: "x \<in> set (projections L)"
      using find_projection_Some[OF consequence_checks_projection[OF committed(1)]] by simp
    obtain e where "lv_projection_id e = pj_id x" "lv_resulting_state e = s"
        "projections L' = upd_row pj_id (pj_id x) (advanced now e) (projections L)"
      using commit_consequence_moves[OF committed(3)] by auto
    then have "p = x \<and> pj_state p' = s"
      using p' moved_projection[OF ok p x] by metis
    then show ?thesis using committed(1) that(2) by simp
  qed (use moved in simp_all)
qed

lemma consequence_checks_Inr:
  assumes "consequence_checks now st si q L = Inr (p, s)"
  shows "map_of (CONSEQUENCE_STATES (cq_dimension q)) (pj_state p, cq_action q) = Some s"
    and "cq_action q \<in> {''promote'', ''reinstate''} \<Longrightarrow>
      validate_cross_dimension_guard (cq_dimension q) (if cq_dimension q = Operations then ''nominate'' else ''qualify'')
        (current_states st si L) = Inr ()"
  using assms
  by (auto simp: consequence_checks_def check_Inr when_Inr ebind_Inr_iff consequence_state_def
      simp del: insert_iff if_split split: option.split_asm)

lemma capital_edges:
  "map_of (TRANSITIONS Capital) (s, c) = Some s' \<Longrightarrow> s' \<in> {''eligible'', ''allocated''} \<Longrightarrow> c \<in> {''qualify'', ''allocate''}"
  "map_of (CONSEQUENCE_STATES Capital) (s, c) = Some s' \<Longrightarrow> s' \<in> {''eligible'', ''allocated''} \<Longrightarrow> c = ''reinstate''"
  by (auto split: if_split_asm)

lemma live_edges:
  "map_of (TRANSITIONS Operations) (s, c) = Some ''live'' \<Longrightarrow> c \<in> set operations_commands"
  "map_of (CONSEQUENCE_STATES Operations) (s, c) = Some ''live'' \<Longrightarrow> c = ''promote''"
  by (auto simp: operations_commands_def split: if_split_asm)

text \<open>A dimension of the subject of a projection is in the given state.\<close>

definition subject_state :: "ldb \<Rightarrow> lifecycle_projection \<Rightarrow> dimension \<Rightarrow> string \<Rightarrow> bool" where
  "subject_state L p dim s \<longleftrightarrow>
     (\<exists>o' \<in> set (projections L). of_subject (pj_subject_type p) (pj_subject_id p) o' \<and> pj_dimension o' = dim
        \<and> pj_state o' = s)"

lemma forward_guard:
  assumes ok: "subjects_ok L" and "forward_step utc now L L'"
    and "p \<in> set (projections L)" and "p' \<in> set (projections L')" and "pj_id p' = pj_id p" and "pj_state p' \<noteq> pj_state p"
    and "pj_dimension p = Operations \<and> pj_state p' = ''live'' \<and> dim = Research \<and> s = ''succeeded''
      \<or> pj_dimension p = Operations \<and> pj_state p' = ''live'' \<and> dim = Evidence \<and> s = ''admissible''
      \<or> pj_dimension p = Capital \<and> pj_state p' \<in> {''eligible'', ''allocated''} \<and> dim = Operations \<and> s = ''live''
      \<or> pj_dimension p = Capital \<and> pj_state p' \<in> {''eligible'', ''allocated''} \<and> dim = Evidence \<and> s = ''admissible''"
  shows "subject_state L p dim s"
proof -
  from assms(2) ok assms(3-6) show ?thesis
  proof (cases rule: forward_move)
    case (transition st si q)
    then have q: "of_subject st si p" "pj_dimension p = tq_dimension q"
        "map_of (TRANSITIONS (tq_dimension q)) (pj_state p, tq_command q) = Some (pj_state p')"
        "validate_cross_dimension_guard (tq_dimension q) (tq_command q) (current_states st si L) = Inr ()"
      using find_projection_Some by (auto simp: transition_admitted_def)
    have "map_of (current_states st si L) dim = Some s"
      using assms(7) q(2,3) q(4)[unfolded guard_Inr] capital_edges(1) live_edges(1) by metis
    then show ?thesis using q(1) current_states_SomeD by (simp add: of_subject_def subject_state_def)
  next
    case (consequence st si q)
    have q: "of_subject st si p" "pj_dimension p = cq_dimension q"
      using find_projection_Some[OF consequence_checks_projection[OF consequence]] by simp_all
    note edge = consequence_checks_Inr(1)[OF consequence]
    have "cq_action q \<in> {''promote'', ''reinstate''}"
      using assms(7) q(2) edge capital_edges(2) live_edges(2) by (metis insertI1 insertI2)
    from consequence_checks_Inr(2)[OF consequence this]
    have "map_of (current_states st si L) dim = Some s"
      using assms(7) q(2) by (auto simp: guard_Inr operations_commands_def)
    then show ?thesis using q(1) current_states_SomeD by (simp add: of_subject_def subject_state_def)
  qed
qed

text \<open>
  Cross-dimension progress (C23): where every subject has its four dimensions, as in every reachable state,
  whatever transition or consequence makes operations live, the subject's research has succeeded and
  its evidence is admissible at that moment; whatever makes capital eligible or allocated, its
  operations are live and its evidence is admissible. Reversal and expiry, which restore an earlier
  state, are not among these steps.
\<close>

theorem progress_guarded:
  assumes "subjects_ok L" and "forward_step utc now L L'"
    and "p \<in> set (projections L)" and "p' \<in> set (projections L')" and "pj_id p' = pj_id p" and "pj_state p' \<noteq> pj_state p"
  shows "(pj_dimension p = Operations \<and> pj_state p' = ''live'' \<longrightarrow>
        subject_state L p Research ''succeeded'' \<and> subject_state L p Evidence ''admissible'')
    \<and> (pj_dimension p = Capital \<and> pj_state p' \<in> {''eligible'', ''allocated''} \<longrightarrow>
        subject_state L p Operations ''live'' \<and> subject_state L p Evidence ''admissible'')"
  using forward_guard[OF assms] by simp

section \<open>Termination\<close>

text \<open>The greatest number of transitions that are left in a state.\<close>

fun remaining :: "dimension \<Rightarrow> string \<Rightarrow> nat" where
  "remaining Research s =
     (if s = ''proposed'' then 3 else if s = ''registered'' then 2 else if s = ''running'' then 1 else 0)"
| "remaining Evidence s =
     (if s = ''unassessed'' then 3 else if s = ''disputed'' then 2 else if s = ''admissible'' then 1 else 0)"
| "remaining Operations s =
     (if s = ''not-considered'' then 7 else if s = ''candidate'' then 6 else if s = ''approved'' then 5
      else if s = ''shadow'' then 4 else if s = ''demo'' then 3 else if s = ''live'' then 2
      else if s = ''suspended'' then 1 else 0)"
| "remaining Capital s =
     (if s = ''no-authority'' then 4 else if s = ''eligible'' then 3 else if s = ''allocated'' then 2
      else if s = ''reduced'' then 1 else 0)"

lemma remaining_decreases:
  "map_of (TRANSITIONS dim) (s, c) = Some s' \<Longrightarrow> remaining dim s' < remaining dim s"
  by (cases dim) (auto split: if_split_asm)

text \<open>Without consequences every event is an edge of its machine.\<close>

definition edges_only :: "ldb \<Rightarrow> bool" where
  "edges_only L \<longleftrightarrow>
     (\<forall>e \<in> set (lifecycle_events L).
        map_of (TRANSITIONS (lv_dimension e)) (lv_prior_state e, lv_command e) = Some (lv_resulting_state e))"

lemma ended_entries_nonempty: "ended_entries status i c cs \<noteq> []"
  by (simp add: ended_entries_def upd_row_def)

lemma apply_without_ledger:
  assumes "apply_consequence now st si q L = (r, L')" and "consequences L' = []"
  shows "lifecycle_events L' = lifecycle_events L \<and> consequences L = []"
  using assms(1)
proof (cases rule: apply_outcome)
  case (committed p s a d c)
  from committed(3) show ?thesis
    by (rule commit_consequence_Inr) (use assms(2) ended_entries_nonempty in \<open>simp split: option.split_asm\<close>)
qed (use assms(2) in simp_all)

lemma reverse_without_ledger:
  assumes "reverse_consequence now status i q L = (r, L')" and "consequences L' = []"
  shows "lifecycle_events L' = lifecycle_events L \<and> consequences L = []"
  using assms(1)
proof (cases rule: reverse_outcome)
  case (committed c p a d x)
  from committed(3) show ?thesis
    by (rule commit_reversal_Inr) (use assms(2) ended_entries_nonempty in simp)
qed (use assms(2) in simp_all)

lemma edges_only_transition:
  assumes "transition now st si q L = (r, L')" and "edges_only L"
  shows "edges_only L' \<and> consequences L' = consequences L"
  using assms(1)
proof (cases rule: transition_outcome)
  case (recorded p s a d e)
  have "map_of (TRANSITIONS (lv_dimension e)) (lv_prior_state e, lv_command e) = Some (lv_resulting_state e)"
    using recorded(2,4) by (simp add: transition_admitted_def)
  then show ?thesis using assms(2) recorded(6) by (simp add: edges_only_def)
qed (use assms(2) in \<open>simp_all add: edges_only_def\<close>)

lemma edges_only_cong: "lifecycle_events L' = lifecycle_events L \<Longrightarrow> edges_only L' = edges_only L"
  by (simp add: edges_only_def)

lemma edges_only_forward:
  assumes "forward_step utc now L L'" and "consequences L' = []" and "consequences L = [] \<Longrightarrow> edges_only L"
  shows "edges_only L'"
  using assms(1)
proof cases
  case (subject p)
  have "lifecycle_events L' = lifecycle_events L \<and> consequences L' = consequences L"
    using subject by (auto simp: register_subject_def create_subject_def Let_def split: sum.split if_split_asm)
  then show ?thesis using assms(2,3) edges_only_cong[of L' L] by simp
next
  case (transit q st si)
  obtain r L1 where tr: "transition now st si q L = (r, L1)" by (cases "transition now st si q L")
  then have "L' = L \<or> L' = L1" using transit by (auto simp: transition_subject_def split: sum.split)
  moreover have "consequences L = []"
    using tr assms(2) calculation by (cases rule: transition_outcome) auto
  ultimately show ?thesis using edges_only_transition[OF tr] assms(3) by auto
next
  case (consequence st si q)
  obtain r L1 where ap: "apply_consequence now st si q L = (r, L1)" by (cases "apply_consequence now st si q L")
  then have "L' = L \<or> L' = L1" using consequence by (auto simp: create_consequence_def split: sum.split)
  then show ?thesis using apply_without_ledger[OF ap] assms(2,3) edges_only_cong[of L' L] by auto
qed

lemma edges_only_run: "lifecycle_run dump_time utc t L \<Longrightarrow> consequences L = [] \<Longrightarrow> edges_only L"
proof (induction rule: lifecycle_run.induct)
  case (init t)
  show ?case by (simp add: edges_only_def empty_ldb_def)
next
  case (step t L now L')
  from step.hyps(3) show ?case
  proof cases
    case forward
    then show ?thesis using edges_only_forward step.IH step.prems by blast
  next
    case (reverse i q)
    obtain r L1 where rv: "reverse_consequence now ''reversed'' i q L = (r, L1)"
      by (cases "reverse_consequence now ''reversed'' i q L")
    then have "L' = L \<or> L' = L1" using reverse by (auto simp: reverse_def)
    then show ?thesis using reverse_without_ledger[OF rv] step.IH step.prems edges_only_cong[of L' L] by auto
  next
    case (expire i q)
    obtain r L1 where rv: "reverse_consequence now ''expired'' i q L = (r, L1)"
      by (cases "reverse_consequence now ''expired'' i q L")
    then have "L' = L \<or> L' = L1" using expire by (auto simp: expire_now_def expire_consequence_def split: option.split)
    then show ?thesis using reverse_without_ledger[OF rv] step.IH step.prems edges_only_cong[of L' L] by auto
  qed (use step.IH step.prems edges_only_cong[of L' L] in auto)
qed

text \<open>
  Termination of a lifecycle (C25): as long as no consequence is applied, a dimension takes at most three
  transitions in research and evidence, seven in operations and four in capital, whatever commands
  are sent; after that many, every command is refused.
\<close>

theorem lifecycle_terminates:
  assumes "lifecycle_run dump_time utc t L" and "consequences L = []" and "p \<in> set (projections L)"
  shows "length (filter (\<lambda>e. lv_projection_id e = pj_id p) (lifecycle_events L))
      \<le> (case pj_dimension p of Research \<Rightarrow> 3 | Evidence \<Rightarrow> 3 | Operations \<Rightarrow> 7 | Capital \<Rightarrow> 4)
    \<and> (length (filter (\<lambda>e. lv_projection_id e = pj_id p) (lifecycle_events L))
         = (case pj_dimension p of Research \<Rightarrow> 3 | Evidence \<Rightarrow> 3 | Operations \<Rightarrow> 7 | Capital \<Rightarrow> 4) \<longrightarrow>
       (\<forall>command. \<exists>x. next_state (pj_dimension p) (pj_state p) command = Inl x))"
proof -
  let ?n = "(case pj_dimension p of Research \<Rightarrow> 3 | Evidence \<Rightarrow> 3 | Operations \<Rightarrow> 7 | Capital \<Rightarrow> 4) :: nat"
  let ?es = "filter (\<lambda>e. lv_projection_id e = pj_id p) (lifecycle_events L)"
  have ok: "log_ok utc t L" using lifecycle_ok_run[OF assms(1)] by (simp add: lifecycle_ok_def)
  have "replays before_event after_event (initial_snapshot p) ?es = Some (snapshot_of p)"
    using ok assms(3) by (simp add: log_ok_def lifecycle_log.consistent_def lifecycle_log.history_def)
  moreover have "remaining (pj_dimension p) (fst (after_event e)) < remaining (pj_dimension p) (fst (before_event e))"
    if e: "e \<in> set ?es" for e
  proof -
    have "events_ok utc t L" "e \<in> set (lifecycle_events L)" using ok e by (simp_all add: log_ok_def)
    from event_owner[OF this] obtain x where "x \<in> set (projections L)" "pj_id x = lv_projection_id e"
        "pj_dimension x = lv_dimension e" .
    then have "pj_dimension p = lv_dimension e"
      using unique_projection[of L x p] ok assms(3) e by (simp add: log_ok_def)
    moreover have "map_of (TRANSITIONS (lv_dimension e)) (lv_prior_state e, lv_command e) = Some (lv_resulting_state e)"
      using edges_only_run[OF assms(1,2)] e by (simp add: edges_only_def)
    ultimately show ?thesis using remaining_decreases by (simp add: after_event_def before_event_def)
  qed
  ultimately have "length ?es + remaining (pj_dimension p) (fst (snapshot_of p))
      \<le> remaining (pj_dimension p) (fst (initial_snapshot p))"
    by (rule replays_variant)
  moreover have "remaining (pj_dimension p) (fst (initial_snapshot p)) = ?n"
    by (cases "pj_dimension p") (simp_all add: initial_snapshot_def)
  ultimately have le: "length ?es + remaining (pj_dimension p) (pj_state p) \<le> ?n" by (simp add: snapshot_of_def)
  moreover have "\<exists>x. next_state (pj_dimension p) (pj_state p) command = Inl x" if "length ?es = ?n" for command
  proof (cases "map_of (TRANSITIONS (pj_dimension p)) (pj_state p, command)")
    case None
    then show ?thesis by (simp add: next_state_def)
  next
    case (Some s')
    from remaining_decreases[OF this] show ?thesis using le that by simp
  qed
  ultimately show ?thesis by simp
qed

section \<open>Reversal undoes a consequence\<close>

lemma upd_row_twice: "(\<And>r. key (f r) = key r) \<Longrightarrow> upd_row key k g (upd_row key k f rows) = upd_row key k (g \<circ> f) rows"
  by (auto simp: upd_row_def)

lemma upd_row_map_same:
  assumes "\<And>r. r \<in> set rows \<Longrightarrow> key r = k \<Longrightarrow> h (f r) = h r"
  shows "map h (upd_row key k f rows) = map h rows"
  using assms by (simp add: upd_row_def)

text \<open>What a consequence leaves to its reversal: the entry, its event and the projection.\<close>

lemma applied_consequence:
  assumes ok: "lifecycle_ok utc t L" and t: "t < now" and ap: "apply_consequence now st si q L = (Inr c, L1)"
    and new: "c \<notin> set (consequences L)"
  obtains p e where "p \<in> set (projections L)" "lv_id e = lc_event_id c" "lv_projection_id e = pj_id p"
    "e \<in> set (lifecycle_events L1)" "lc_rollback_state c = pj_state p" "c \<in> set (consequences L1)"
    "projections L1 = upd_row pj_id (pj_id p) (advanced now e) (projections L)"
  using ap
proof (cases rule: apply_outcome)
  case same
  then show ?thesis using new by simp
next
  case (committed p s a d c')
  define M where "M = L\<lparr>core := d\<rparr>"
  have M: "lifecycle_ok utc t M" using lifecycle_ok_resolve[OF ok committed(2), of t] by (simp add: M_def)
  have p: "p \<in> set (projections L)"
    using find_projection_Some[OF consequence_checks_projection[OF committed(1)]] by simp
  have c': "c' = c" using committed(4) by simp
  from committed(3) obtain e where e: "e = consequence_event now (next_uuid (core M)) p (cq_command_id q) (cq_action q) s
      (cq_actor q) (dr_id a) (cq_evidence q) (cq_reason q)"
    and c: "c = new_consequence now (Suc (next_uuid (core M))) q e (prior_consequence p M)"
    and L1: "L1 = settled now e (case prior_consequence p M of
                           None \<Rightarrow> consequences M @ [c]
                         | Some x \<Rightarrow> ended_entries ''superseded'' (lc_id x) c (consequences M)) M"
    unfolding M_def[symmetric] c' by (rule commit_consequence_Inr)
  have fresh: "lc_id x \<noteq> lc_id c" if "x \<in> set (consequences M)" for x
  proof -
    have "lc_id x < next_uuid (core M)" using M that by (simp add: lifecycle_ok_def ledger_ok_def entry_event_def)
    then show ?thesis by (simp add: c)
  qed
  have "c \<in> set (consequences L1)"
  proof (cases "prior_consequence p M")
    case None
    then show ?thesis by (simp add: L1)
  next
    case (Some x)
    from prior_consequence_Some[OF Some] have "x \<in> set (consequences M)" by simp
    from fresh[OF this] have "lc_id c \<noteq> lc_id x" by simp
    then show ?thesis
      using upd_row_memI[of c "consequences M @ [c]" lc_id "lc_id x" "ended_by ''superseded'' (lc_id c)"]
      by (simp add: L1 Some ended_entries_def)
  qed
  then show ?thesis
    using that[OF p, of e] e c L1 by (simp add: M_def)
qed simp_all

text \<open>
  Round trip: the reversal of a consequence just applied puts every projection back into the state it
  had before, whatever happened to the guards in between, and ends the consequence.
\<close>

lemma consequence_round_trip:
  assumes "lifecycle_run dump_time utc t L" and "t < now" and "apply_consequence now st si q L = (Inr c, L1)"
    and "c \<notin> set (consequences L)" and "reverse_consequence now' status (lc_id c) v L1 = (Inr x, L2)"
    and "x \<notin> set (consequences L1)"
  shows "map pj_state (projections L2) = map pj_state (projections L)
    \<and> map pj_id (projections L2) = map pj_id (projections L)
    \<and> ended_by status (lc_id x) c \<in> set (consequences L2) \<and> x \<in> set (consequences L2)"
proof -
  have ok: "lifecycle_ok utc t L" by (rule lifecycle_ok_run[OF assms(1)])
  have ok1: "lifecycle_ok utc now L1" by (rule lifecycle_ok_apply[OF ok assms(2,3)])
  obtain p e where p: "p \<in> set (projections L)" and e: "lv_id e = lc_event_id c" "lv_projection_id e = pj_id p"
      "e \<in> set (lifecycle_events L1)" and c: "lc_rollback_state c = pj_state p" "c \<in> set (consequences L1)"
    and L1: "projections L1 = upd_row pj_id (pj_id p) (advanced now e) (projections L)"
    by (rule applied_consequence[OF ok assms(2-4)])
  from assms(5) show ?thesis
  proof (cases rule: reverse_outcome)
    case same
    then show ?thesis using assms(6) by simp
  next
    case (committed c' p1 a d x')
    obtain e' where r: "c' \<in> set (consequences L1)" "lc_id c' = lc_id c"
        "e' \<in> set (lifecycle_events L1)" "lv_id e' = lc_event_id c'" "lv_projection_id e' = pj_id p1"
      using reversal_checks_Inr[OF committed(1)] by auto
    have c': "c' = c"
      using r(1,2) c(2) ok1 by (auto simp: lifecycle_ok_def ledger_ok_def distinct_map inj_on_def)
    have "e' = e"
      using r(3,4) e(1,3) c' ok1 by (auto simp: lifecycle_ok_def log_ok_def events_ok_def distinct_map inj_on_def)
    then have p1: "pj_id p1 = pj_id p" using r(5) e(2) by simp
    have x': "x' = x" using committed(4) by simp
    define M where "M = L1\<lparr>core := d\<rparr>"
    from committed(3) obtain e2 where e2': "e2 = consequence_event now' (next_uuid (core M)) p1 (vq_command_id v)
        (''reverse-'' @ lc_action c) (lc_rollback_state c) (vq_actor v) (dr_id a) [lc_record_digest c] (vq_reason v)"
      and x'': "x = new_reversal now' (Suc (next_uuid (core M))) v c e2"
      and L2: "L2 = settled now' e2 (ended_entries status (lc_id c) x (consequences M)) M"
      unfolding M_def[symmetric] c' x' by (rule commit_reversal_Inr)
    have e2: "lv_projection_id e2 = pj_id p1 \<and> lv_resulting_state e2 = lc_rollback_state c" by (simp add: e2')
    have x: "lc_id x = Suc (next_uuid (core M))" by (simp add: x'')
    have proj: "projections L2 = upd_row pj_id (pj_id p) (advanced now' e2 \<circ> advanced now e) (projections L)"
      using L2 e2 p1 L1 by (simp add: M_def upd_row_twice)
    have "pj_state (advanced now' e2 r) = pj_state r'" if "r' \<in> set (projections L)" "pj_id r' = pj_id p" for r r'
      using unique_projection[of L r' p] that p ok e2 c(1) by (simp add: lifecycle_ok_def log_ok_def)
    then have "map pj_state (projections L2) = map pj_state (projections L)"
      unfolding proj by (intro upd_row_map_same) simp
    moreover have "lc_id c < lc_id x"
      using c(2) ok1 x resolve_authority_grows(1)[OF committed(2)]
      by (auto simp: lifecycle_ok_def ledger_ok_def entry_event_def M_def)
    then have "ended_by status (lc_id x) c \<in> set (consequences L2) \<and> x \<in> set (consequences L2)"
      using c(2) upd_row_memI[of c "consequences L1 @ [x]" lc_id "lc_id c" "ended_by status (lc_id x)"]
        upd_row_memI[of x "consequences L1 @ [x]" lc_id "lc_id c" "ended_by status (lc_id x)"]
      by (simp add: L2 M_def ended_entries_def)
    ultimately show ?thesis by (simp add: proj map_upd_row_same)
  qed simp_all
qed

end
