(* ===== verification/LifecycleWitnesses.thy ===== *)
theory LifecycleWitnesses
  imports Consequences
begin

text \<open>
  A policy for lifecycle decisions, a run that registers a subject under it, and the properties of
  lifecycles and consequences applied to them.
\<close>

section \<open>A run\<close>

definition lw_right :: "string \<Rightarrow> string \<Rightarrow> decision_right" where
  "lw_right decision_type action =
     \<lparr>dc_decision_type = decision_type, dc_actions = [action], dc_accountable_roles = [''investment''],
      dc_veto_roles = [], dc_environments = [''*''], dc_maximum_risk = 2, dc_delegable = False,
      dc_constitutional = False,
      dc_separation = [\<lparr>sr_field = FieldOriginator, sr_minimum_risk = 1, sr_rule_key = ''four-eyes''\<rparr>]\<rparr>"

definition lw_manifest :: authority_policy_manifest where
  "lw_manifest =
     \<lparr>pl_schema_version = ''1'', pl_policy_key = ''institution'', pl_version = ''1'',
      pl_roles = [\<lparr>rb_role = ''investment'', rb_actors = [''chief'']\<rparr>], pl_identity_aliases = [],
      pl_decisions = [lw_right ''experiment-execution'' ''authorize'', lw_right ''research-program-charter'' ''reject'',
                      lw_right ''capital-allocation'' ''allocate''],
      pl_constitutional_boundaries = []\<rparr>"

definition lw_draft :: authority_policy_snapshot where
  "lw_draft =
     \<lparr>po_id = 0, po_policy_key = ''institution'', po_version = ''1'', po_status = PolicyDraft,
      po_manifest = lw_manifest, po_manifest_digest = digest_json (policy_manifest_json lw_manifest),
      po_effective_from = None, po_effective_until = None, po_activated_by = None, po_activated_at = None,
      po_supersedes_id = None, po_created_by = ''founder'', po_created_at = 1\<rparr>"

definition lw_policy :: authority_policy_snapshot where
  "lw_policy = lw_draft\<lparr>po_status := PolicyActive, po_effective_from := Some 2,
     po_activated_by := Some ''chief'', po_activated_at := Some 2\<rparr>"

definition lw_drafted :: db where
  "lw_drafted = empty_db\<lparr>policies := [lw_draft], next_uuid := Suc 0\<rparr>"

lemma lw_create_policy:
  "create_policy 1 lw_manifest (digest_json (policy_manifest_json lw_manifest)) ''founder'' empty_db
     = Inr (lw_draft, lw_drafted)"
  by (simp add: create_policy_def unique_keys_def Let_def lw_draft_def lw_drafted_def lw_manifest_def lw_right_def
      empty_db_def ebind_def)

lemma lw_activate: "snd (activate 2 0 ''chief'' lw_drafted) = lw_drafted\<lparr>policies := [lw_policy]\<rparr>"
  by (simp add: activate_def get_policy_def current_policy_def guarded_def activate_policy_def lw_drafted_def
      upd_policy_def upd_row_def lw_draft_def lw_policy_def Let_def ebind_def)

definition lw_digest :: string where
  "lw_digest = replicate 64 CHR ''a''"

lemma lw_digest_hex: "is_sha256_hex lw_digest"
  by (simp add: lw_digest_def is_sha256_hex_def hex_digit_def list_all_iff)

definition lw_subject :: lifecycle_subject_create where
  "lw_subject = \<lparr>lq_subject_type = ''strategy'', lq_subject_id = ''alpha-1'', lq_subject_digest = lw_digest\<rparr>"

definition lw_rows :: "lifecycle_projection list" where
  "lw_rows = [new_projection 3 1 lw_subject Research, new_projection 3 2 lw_subject Evidence,
              new_projection 3 3 lw_subject Operations, new_projection 3 4 lw_subject Capital]"

definition lw_registered :: ldb where
  "lw_registered = empty_ldb\<lparr>core := lw_drafted\<lparr>policies := [lw_policy], next_uuid := 5\<rparr>, projections := lw_rows\<rparr>"

lemma lw_valid_subject: "valid_subject_create lw_subject"
  using lw_digest_hex
  by (simp add: valid_subject_create_def lw_subject_def kebab_name_def subject_name_def text_between_def
      lower_alpha_def alnum_def)

lemma lw_register:
  "snd (register_subject 3 lw_subject (empty_ldb\<lparr>core := lw_drafted\<lparr>policies := [lw_policy]\<rparr>\<rparr>)) = lw_registered"
proof -
  have "[Suc 0..<Suc 0 + 4] = [1, 2, 3, 4]" by (simp add: upt_rec)
  then show ?thesis
    by (simp add: register_subject_def lw_valid_subject create_subject_def projections_of_def empty_ldb_def Let_def
        lw_registered_def lw_rows_def lw_drafted_def INITIAL_STATES_def)
qed

lemma lw_run: "lifecycle_run isoformat True 3 lw_registered"
proof -
  have r0: "lifecycle_run isoformat True 0 empty_ldb" by (rule lifecycle_run.init)
  have s1: "lifecycle_step isoformat True 1 empty_ldb (empty_ldb\<lparr>core := lw_drafted\<rparr>)"
    using authority_step.policy[OF lw_create_policy, of isoformat]
    by (intro lifecycle_step.authority) (simp add: empty_ldb_def)
  have r1: "lifecycle_run isoformat True 1 (empty_ldb\<lparr>core := lw_drafted\<rparr>)"
    by (rule lifecycle_run.step[OF r0 _ s1]) simp
  have s2: "lifecycle_step isoformat True 2 (empty_ldb\<lparr>core := lw_drafted\<rparr>)
      (empty_ldb\<lparr>core := lw_drafted\<lparr>policies := [lw_policy]\<rparr>\<rparr>)"
    using lifecycle_step.authority[OF authority_step.activate, of isoformat True 2 "empty_ldb\<lparr>core := lw_drafted\<rparr>" 2 0 "''chief''"]
    by (simp add: lw_activate)
  have r2: "lifecycle_run isoformat True 2 (empty_ldb\<lparr>core := lw_drafted\<lparr>policies := [lw_policy]\<rparr>\<rparr>)"
    by (rule lifecycle_run.step[OF r1 _ s2]) simp
  have s3: "lifecycle_step isoformat True 3 (empty_ldb\<lparr>core := lw_drafted\<lparr>policies := [lw_policy]\<rparr>\<rparr>) lw_registered"
    using lifecycle_step.forward[OF forward_step.subject] lw_register by metis
  show ?thesis by (rule lifecycle_run.step[OF r2 _ s3]) simp
qed

text \<open>The policy authorises \<open>chief\<close> wherever a right of the manifest covers the request.\<close>

lemma lw_active: "2 < now \<Longrightarrow> policies d = [lw_policy] \<Longrightarrow> active_policy now d = Inr lw_policy"
  by (simp add: active_policy_def policy_effective_def lw_policy_def lw_draft_def)

lemma lw_authorises:
  assumes "2 < now" and "policies d = [lw_policy]" and "decisions d = []"
    and "rq_actor q = ''chief''" and "rq_risk_level q = 0" and "rq_active_veto_roles q = []"
    and "decision_rule lw_manifest (rq_decision_type q) = Some (lw_right (rq_decision_type q) (rq_action q))"
  shows "\<exists>r. resolve_authority now q d = (Inr r, d\<lparr>decisions := [r], next_uuid := Suc (next_uuid d)\<rparr>)"
proof -
  have m: "po_manifest lw_policy = lw_manifest" by (simp add: lw_policy_def lw_draft_def)
  have "roles_for lw_manifest ''chief'' = [''investment'']"
    by (simp add: roles_for_def alias_of_def lw_manifest_def sorted_set_def)
  then have "rule_failures lw_manifest q (lw_right (rq_decision_type q) (rq_action q)) delegated waived = []"
    for delegated waived
    using assms(4-6) by (simp add: rule_failures_empty lw_right_def separation_violated_def)
  moreover have "delegations_for now lw_policy q d = []"
    using assms(7) by (simp add: delegations_for_def m lw_right_def)
  ultimately have "dr_outcome (decision_record now i lw_policy q d) = ''authorized''" for i
    unfolding dr_outcome_decision_record authorized_iff m using assms(7) by simp
  then show ?thesis using lw_active[OF assms(1,2)] assms(3) by (simp add: resolve_authority_def Let_def)
qed

lemma lw_registered_simps [simp]:
  "projections lw_registered = lw_rows" "lifecycle_events lw_registered = []" "consequences lw_registered = []"
  "policies (core lw_registered) = [lw_policy]" "decisions (core lw_registered) = []"
  "next_uuid (core lw_registered) = 5"
  by (simp_all add: lw_registered_def empty_ldb_def lw_drafted_def empty_db_def)

theorem lifecycle_replayable_witness:
  "\<exists>x. lifecycle_dossier ''strategy'' ''alpha-1'' lw_registered = Inr x \<and> length (do_projections x) = 4"
proof -
  have p: "new_projection 3 2 lw_subject Evidence \<in> set (projections lw_registered)" by (simp add: lw_rows_def)
  from lifecycle_replayable[OF lw_run this] obtain x
    where x: "lifecycle_dossier ''strategy'' ''alpha-1'' lw_registered = Inr x"
    by (auto simp: new_projection_def lw_subject_def)
  then have "do_projections x = projections_of ''strategy'' ''alpha-1'' lw_registered"
    by (auto simp: lifecycle_dossier_def Let_def ebind_Inr_iff split: if_split_asm)
  then show ?thesis
    using x by (simp add: projections_of_def lw_rows_def of_subject_def new_projection_def lw_subject_def)
qed

theorem lifecycle_terminates_witness:
  "length (filter (\<lambda>e. lv_projection_id e = 3) (lifecycle_events lw_registered)) \<le> 7"
proof -
  have "new_projection 3 3 lw_subject Operations \<in> set (projections lw_registered)" by (simp add: lw_rows_def)
  from lifecycle_terminates[OF lw_run _ this] show ?thesis by (simp add: new_projection_def)
qed

section \<open>Transitions\<close>

definition lw_start :: transition_create where
  "lw_start =
     \<lparr>tq_command_id = 50, tq_actor = ''chief'', tq_dimension = Research, tq_command = ''register'',
      tq_expected_version = 0, tq_subject_digest = lw_digest, tq_evidence = [], tq_reason = ''a first registration'',
      tq_risk_level = 0, tq_environment = ''internal'', tq_requester = None, tq_originator = None,
      tq_evaluator = None, tq_active_veto_roles = [], tq_authority_exception_id = None, tq_effective_at = (4, 0)\<rparr>"

lemma lw_transition:
  assumes "transition_checks 4 ''strategy'' ''alpha-1'' q L = Inr (p, s)" and "lifecycle_events L = []"
    and "policies (core L) = [lw_policy]" and "decisions (core L) = []" and "tq_actor q = ''chief''"
    and "tq_risk_level q = 0" and "tq_active_veto_roles q = []" and "tq_subject_digest q = lw_digest"
    and "transition_authority (tq_dimension q) (tq_command q)
      \<in> {(''experiment-execution'', ''authorize''), (''capital-allocation'', ''allocate'')}"
  shows "\<exists>e L'. transition 4 ''strategy'' ''alpha-1'' q L = (Inr (advanced 4 e p, e), L') \<and> lv_projection_id e = pj_id p
    \<and> lv_resulting_state e = s \<and> projections L' = upd_row pj_id (pj_id p) (advanced 4 e) (projections L)"
proof -
  let ?r = "transition_request ''strategy'' ''alpha-1'' q"
  have v: "valid_resolution_request ?r"
    using assms lw_digest_hex by (simp add: valid_resolution_request_def transition_request_def)
  have "decision_rule lw_manifest (rq_decision_type ?r) = Some (lw_right (rq_decision_type ?r) (rq_action ?r))"
    using assms(9) by (auto simp: transition_request_def decision_rule_def lw_manifest_def) (simp_all add: lw_right_def)
  then obtain r where "resolve_authority 4 ?r (core L) = (Inr r, (core L)\<lparr>decisions := [r], next_uuid := Suc (next_uuid (core L))\<rparr>)"
    using lw_authorises[of 4 "core L" ?r] assms by (auto simp: transition_request_def)
  then show ?thesis
    using assms(1,2) v by (simp add: transition_def Let_def)
qed

lemma lw_starts: "\<exists>x L'. transition 4 ''strategy'' ''alpha-1'' lw_start lw_registered = (Inr x, L')"
proof -
  have "transition_checks 4 ''strategy'' ''alpha-1'' lw_start lw_registered
      = Inr (new_projection 3 1 lw_subject Research, ''registered'')"
    by (simp add: transition_checks_def find_projection_def lw_rows_def of_subject_def new_projection_def lw_subject_def
        lw_start_def validate_expected_version_def seconds_def next_state_def validate_cross_dimension_guard_def ebind_def)
  then show ?thesis
    using lw_transition[of lw_start lw_registered]
    by (auto simp: lw_start_def transition_authority_def COMMAND_AUTHORITY_ACTIONS_def)
qed

theorem transition_idempotent_witness:
  "\<exists>x L'. transition 4 ''strategy'' ''alpha-1'' lw_start lw_registered = (Inr x, L')
    \<and> transition 9 ''strategy'' ''alpha-1'' lw_start L' = (Inr x, L')"
proof -
  obtain x L' where x: "transition 4 ''strategy'' ''alpha-1'' lw_start lw_registered = (Inr x, L')"
    using lw_starts by blast
  from transition_idempotent[OF lw_run x, of 9] x show ?thesis by blast
qed

text \<open>A subject whose operations are live and whose evidence is admissible, and its qualification for capital.\<close>

definition lw_live_rows :: "lifecycle_projection list" where
  "lw_live_rows = [new_projection 3 1 lw_subject Research,
     new_projection 3 2 lw_subject Evidence\<lparr>pj_state := ''admissible''\<rparr>,
     new_projection 3 3 lw_subject Operations\<lparr>pj_state := ''live''\<rparr>, new_projection 3 4 lw_subject Capital]"

definition lw_live :: ldb where
  "lw_live = lw_registered\<lparr>projections := lw_live_rows\<rparr>"

definition lw_qualify :: transition_create where
  "lw_qualify = lw_start\<lparr>tq_dimension := Capital, tq_command := ''qualify'', tq_originator := Some ''analyst''\<rparr>"

lemma lw_live_simps [simp]:
  "projections lw_live = lw_live_rows" "lifecycle_events lw_live = []" "consequences lw_live = []"
  "policies (core lw_live) = [lw_policy]" "decisions (core lw_live) = []" "next_uuid (core lw_live) = 5"
  by (simp_all add: lw_live_def)

lemma lw_live_states:
  "map_of (current_states ''strategy'' ''alpha-1'' lw_live) Operations = Some ''live''"
  "map_of (current_states ''strategy'' ''alpha-1'' lw_live) Evidence = Some ''admissible''"
  by (simp_all add: current_states_def projections_of_def lw_live_rows_def of_subject_def new_projection_def lw_subject_def)

lemma lw_qualifies:
  "\<exists>e L'. transition 4 ''strategy'' ''alpha-1'' lw_qualify lw_live
     = (Inr (advanced 4 e (new_projection 3 4 lw_subject Capital), e), L')
     \<and> lv_resulting_state e = ''eligible'' \<and> projections L' = upd_row pj_id 4 (advanced 4 e) lw_live_rows"
proof -
  have "transition_checks 4 ''strategy'' ''alpha-1'' lw_qualify lw_live
      = Inr (new_projection 3 4 lw_subject Capital, ''eligible'')"
    using lw_live_states
    by (simp add: transition_checks_def find_projection_def lw_live_rows_def of_subject_def new_projection_def
        lw_subject_def lw_start_def lw_qualify_def validate_expected_version_def seconds_def next_state_def
        validate_cross_dimension_guard_def require_risk004_evidence_def require_state_def Let_def ebind_def)
  then show ?thesis
    using lw_transition[of lw_qualify lw_live "new_projection 3 4 lw_subject Capital" "''eligible''"]
    by (auto simp: lw_start_def lw_qualify_def transition_authority_def COMMAND_AUTHORITY_ACTIONS_def new_projection_def)
qed

theorem transition_sound_witness:
  "\<exists>p e L' r. transition 4 ''strategy'' ''alpha-1'' lw_qualify lw_live = (Inr (p, e), L') \<and> pj_state p = ''eligible''
    \<and> decisions (core L') = [r] \<and> dr_outcome r = ''authorized'' \<and> lifecycle_events L' = [e]"
proof -
  obtain e L' where q: "transition 4 ''strategy'' ''alpha-1'' lw_qualify lw_live
      = (Inr (advanced 4 e (new_projection 3 4 lw_subject Capital), e), L')" "lv_resulting_state e = ''eligible''"
    using lw_qualifies by blast
  have "tq_command_id lw_qualify \<notin> lv_command_id ` set (lifecycle_events lw_live)" by simp
  from transition_sound[OF q(1) this] obtain r where
      "decisions (core L') = [r] \<and> dr_outcome r = ''authorized'' \<and> lifecycle_events L' = [e]" by auto
  then show ?thesis using q by fastforce
qed

lemma lw_live_subjects: "subjects_ok lw_live"
proof -
  have "\<exists>q \<in> set lw_live_rows. sibling p dim q" if "p \<in> set lw_live_rows" for p dim
    using that by (cases dim) (auto simp: lw_live_rows_def sibling_def of_subject_def new_projection_def lw_subject_def)
  then show ?thesis
    by (simp add: subjects_ok_def) (simp add: lw_live_rows_def place_def new_projection_def)
qed

theorem progress_guarded_witness:
  "\<exists>L' p'. forward_step True 4 lw_live L' \<and> p' \<in> set (projections L') \<and> pj_dimension p' = Capital
    \<and> pj_state p' = ''eligible'' \<and> subject_state lw_live p' Operations ''live''"
proof -
  let ?p = "new_projection 3 4 lw_subject Capital"
  obtain e L' where q: "transition 4 ''strategy'' ''alpha-1'' lw_qualify lw_live = (Inr (advanced 4 e ?p, e), L')"
      "lv_resulting_state e = ''eligible''" "projections L' = upd_row pj_id 4 (advanced 4 e) lw_live_rows"
    using lw_qualifies by blast
  have "valid_transition_create lw_qualify"
    using lw_digest_hex
    by (simp add: valid_transition_create_def lw_qualify_def lw_start_def text_between_def kebab_name_def lower_alpha_def)
  then have "L' = snd (transition_subject 4 ''strategy'' ''alpha-1'' lw_qualify lw_live)"
    using q(1) by (simp add: transition_subject_def)
  then have f: "forward_step True 4 lw_live L'"
    using forward_step.transit[of True lw_qualify 4 lw_live "''strategy''" "''alpha-1''"]
    by (simp add: lw_qualify_def lw_start_def)
  have p: "?p \<in> set (projections lw_live)" by (simp add: lw_live_rows_def)
  have p': "advanced 4 e ?p \<in> set (projections L')"
    using upd_row_memI[of ?p lw_live_rows pj_id 4 "advanced 4 e"] p q(3) by (simp add: new_projection_def)
  have d: "pj_dimension ?p = Capital" "pj_state ?p = ''no-authority''" by (simp_all add: new_projection_def)
  have "subject_state lw_live ?p Operations ''live''"
    using progress_guarded[OF lw_live_subjects f p p'] d q(2) by simp
  then show ?thesis using f p' d q(2) by (auto simp: subject_state_def intro!: exI[of _ L'] bexI)
qed

section \<open>Consequences\<close>

definition lw_quarantine :: consequence_create where
  "lw_quarantine =
     \<lparr>cq_command_id = 60, cq_actor = ''chief'', cq_action = ''quarantine'', cq_dimension = Research,
      cq_expected_version = 0, cq_subject_digest = lw_digest, cq_evidence = [lw_digest], cq_evidence_epoch = (4, 0),
      cq_approvers = [''chief''], cq_affected_descendants = [], cq_expires_at = (seconds 60, 0),
      cq_reason = ''leakage in the training set'', cq_risk_level = 0, cq_environment = ''internal'',
      cq_originator = None, cq_evaluator = None, cq_active_veto_roles = []\<rparr>"

lemma lw_valid_quarantine: "valid_consequence_create 4 lw_quarantine = Inr ()"
  using lw_digest_hex
  by (simp add: valid_consequence_create_def lw_quarantine_def text_between_def bounded_and_independent_def seconds_def)

lemma lw_quarantined:
  "\<exists>c L'. create_consequence 4 ''strategy'' ''alpha-1'' lw_quarantine lw_registered = (Inr c, L') \<and> consequences L' = [c]"
proof -
  let ?r = "consequence_request ''strategy'' ''alpha-1'' lw_quarantine"
  have "consequence_checks 4 ''strategy'' ''alpha-1'' lw_quarantine lw_registered
      = Inr (new_projection 3 1 lw_subject Research, ''rejected'')"
    by (simp add: consequence_checks_def find_projection_def lw_rows_def of_subject_def new_projection_def lw_subject_def
        lw_quarantine_def validate_expected_version_def consequence_state_def ebind_def)
  moreover have "valid_resolution_request ?r"
    using lw_digest_hex by (simp add: valid_resolution_request_def consequence_request_def lw_quarantine_def)
  moreover have "decision_rule lw_manifest (rq_decision_type ?r) = Some (lw_right (rq_decision_type ?r) (rq_action ?r))"
    by (simp add: consequence_request_def decision_rule_def lw_manifest_def authority_for_def lw_quarantine_def)
       (simp add: lw_right_def)
  then obtain r where "resolve_authority 4 ?r (core lw_registered)
      = (Inr r, (core lw_registered)\<lparr>decisions := [r], next_uuid := Suc (next_uuid (core lw_registered))\<rparr>)"
    using lw_authorises[of 4 "core lw_registered" ?r] by (auto simp: consequence_request_def lw_quarantine_def)
  ultimately show ?thesis
    by (simp add: create_consequence_def lw_valid_quarantine apply_consequence_def commit_consequence_def Let_def
        prior_consequence_def flush_event_def add_consequence_def ebind_def)
qed

theorem consequence_ledger_witness:
  "\<exists>c L'. create_consequence 4 ''strategy'' ''alpha-1'' lw_quarantine lw_registered = (Inr c, L')
    \<and> c \<in> set (consequences L') \<and> (\<exists>e \<in> set (lifecycle_events L'). lv_id e = lc_event_id c)"
proof -
  obtain c L' where c: "create_consequence 4 ''strategy'' ''alpha-1'' lw_quarantine lw_registered = (Inr c, L')"
      "consequences L' = [c]"
    using lw_quarantined by blast
  have s: "lifecycle_step isoformat True 4 lw_registered L'"
    using lifecycle_step.forward[OF forward_step.consequence[of True 4 lw_registered "''strategy''" "''alpha-1''" lw_quarantine],
        of isoformat] c(1) by simp
  have run: "lifecycle_run isoformat True 4 L'" by (rule lifecycle_run.step[OF lw_run _ s]) simp
  have m: "c \<in> set (consequences L')" using c(2) by simp
  have "\<exists>e \<in> set (lifecycle_events L'). lv_id e = lc_event_id c" using consequence_ledger[OF run m] by blast
  then show ?thesis using c(1) m by blast
qed

end
