(* ===== verification/IpNetwork.thy ===== *)
theory IpNetwork
  imports PyValues
begin

text \<open>
  \<open>ipaddress.ip_network(v, strict=True)\<close> of the standard library, which the parameter checks of
  runbook operations call on values from documents: the version and the prefix length of the
  network, or nothing where it raises \<open>ValueError\<close>.
\<close>

section \<open>IPv4\<close>

definition ascii_digits :: "string \<Rightarrow> bool" where
  "ascii_digits s = (s \<noteq> [] \<and> list_all (\<lambda>c. c \<in> set ''0123456789'') s)"

text \<open>An octet has at most three digits, no leading zero, and is at most 255.\<close>

definition parse_octet :: "string \<Rightarrow> int option" where
  "parse_octet s =
     (if \<not> ascii_digits s \<or> 3 < length s \<or> s \<noteq> ''0'' \<and> take 1 s = ''0'' then None
      else (case dec_digits 0 s of None \<Rightarrow> None | Some n \<Rightarrow> if 255 < n then None else Some n))"

definition ipv4_int :: "string \<Rightarrow> int option" where
  "ipv4_int s =
     (case map parse_octet (split_all CHR ''.'' s) of
        [Some a, Some b, Some c, Some d] \<Rightarrow> Some (((a * 256 + b) * 256 + c) * 256 + d)
      | _ \<Rightarrow> None)"

text \<open>A prefix length in decimal, at most the width of an address.\<close>

definition prefix_string :: "nat \<Rightarrow> string \<Rightarrow> nat option" where
  "prefix_string width s =
     (if \<not> ascii_digits s then None
      else (case dec_digits 0 s of None \<Rightarrow> None | Some n \<Rightarrow> if int width < n then None else Some (nat n)))"

text \<open>The prefix length of a netmask, ones followed by zeros.\<close>

definition netmask_prefix :: "int \<Rightarrow> nat option" where
  "netmask_prefix n = List.find (\<lambda>p. n = (2 ^ p - 1) * 2 ^ (32 - p)) [0..<33]"

definition ipv4_mask :: "string \<Rightarrow> nat option" where
  "ipv4_mask s =
     (case prefix_string 32 s of
        Some p \<Rightarrow> Some p
      | None \<Rightarrow>
          (case ipv4_int s of
             None \<Rightarrow> None
           | Some n \<Rightarrow>
               (case netmask_prefix n of Some p \<Rightarrow> Some p | None \<Rightarrow> netmask_prefix (2 ^ 32 - 1 - n))))"

text \<open>No bit is set after the prefix.\<close>

definition no_host_bits :: "nat \<Rightarrow> nat \<Rightarrow> int \<Rightarrow> bool" where
  "no_host_bits width p n = (n mod 2 ^ (width - p) = 0)"

section \<open>IPv6\<close>

definition parse_hextet :: "string \<Rightarrow> int option" where
  "parse_hextet s = (if s = [] \<or> 4 < length s then None else hex_int 0 s)"

fun hextets :: "int \<Rightarrow> string list \<Rightarrow> int option" where
  "hextets acc [] = Some acc"
| "hextets acc (s # ss) =
     (case parse_hextet s of None \<Rightarrow> None | Some n \<Rightarrow> hextets (acc * 65536 + n) ss)"

text \<open>An IPv4 suffix is written as two hextets.\<close>

definition expand_suffix :: "string list \<Rightarrow> string list option" where
  "expand_suffix parts =
     (if CHR ''.'' \<notin> set (last parts) then Some parts
      else (case ipv4_int (last parts) of
              None \<Rightarrow> None
            | Some n \<Rightarrow> Some (butlast parts @ [base_digits 16 (n div 65536), base_digits 16 (n mod 65536)])))"

text \<open>The places of empty parts, the ends apart.\<close>

definition skips :: "string list \<Rightarrow> nat list" where
  "skips parts = filter (\<lambda>i. parts ! i = []) [1..<length parts - 1]"

definition ipv6_parts :: "string list \<Rightarrow> int option" where
  "ipv6_parts parts =
     (if 9 < length parts then None
      else
        (case skips parts of
           [] \<Rightarrow> if length parts \<noteq> 8 then None else hextets 0 parts
         | [k] \<Rightarrow>
             (let hi = (if hd parts = [] then k - 1 else k);
                  lo = (if last parts = [] then length parts - k - 2 else length parts - k - 1)
              in if hd parts = [] \<and> hi \<noteq> 0 \<or> last parts = [] \<and> lo \<noteq> 0 \<or> 8 \<le> hi + lo then None
                 else (case hextets 0 (take hi parts) of
                         None \<Rightarrow> None
                       | Some n \<Rightarrow> hextets (n * 65536 ^ (8 - (hi + lo))) (drop (length parts - lo) parts)))
         | _ \<Rightarrow> None))"

text \<open>A scope after \<open>%\<close> is allowed once and must not be empty.\<close>

definition ipv6_int :: "string \<Rightarrow> int option" where
  "ipv6_int text =
     (let (s, scope) = (takeWhile (\<lambda>c. c \<noteq> CHR ''%'') text, dropWhile (\<lambda>c. c \<noteq> CHR ''%'') text);
          parts = split_all CHR '':'' s
      in if scope \<noteq> [] \<and> (tl scope = [] \<or> CHR ''%'' \<in> set (tl scope)) then None
         else if s = [] \<or> length parts < 3 then None
         else (case expand_suffix parts of None \<Rightarrow> None | Some parts \<Rightarrow> ipv6_parts parts))"

section \<open>Networks\<close>

text \<open>The address and the optional mask of a text.\<close>

definition split_mask :: "string \<Rightarrow> (string \<times> string option) option" where
  "split_mask s =
     (case split_all CHR ''/'' s of
        [a] \<Rightarrow> Some (a, None)
      | [a, m] \<Rightarrow> Some (a, Some m)
      | _ \<Rightarrow> None)"

text \<open>\<open>Inr\<close> a network, \<open>Inl True\<close> an address with host bits, which is not tried as another version.\<close>

definition network_of ::
  "nat \<Rightarrow> nat \<Rightarrow> (string \<Rightarrow> int option) \<Rightarrow> (string \<Rightarrow> nat option) \<Rightarrow> json \<Rightarrow> bool + nat \<times> nat" where
  "network_of version width address netmask v =
     (case as_int v of
        Some n \<Rightarrow> if n < 0 \<or> 2 ^ width \<le> n then Inl False else Inr (version, width)
      | None \<Rightarrow>
          (case split_mask (py_str v) of
             None \<Rightarrow> Inl False
           | Some (a, m) \<Rightarrow>
               (case (address a, case m of None \<Rightarrow> Some width | Some t \<Rightarrow> netmask t) of
                  (Some n, Some p) \<Rightarrow> if no_host_bits width p n then Inr (version, p) else Inl True
                | _ \<Rightarrow> Inl False)))"

definition ip_network :: "json \<Rightarrow> (nat \<times> nat) option" where
  "ip_network v =
     (case network_of 4 32 ipv4_int ipv4_mask v of
        Inr n \<Rightarrow> Some n
      | Inl True \<Rightarrow> None
      | Inl False \<Rightarrow>
          (case network_of 6 128 ipv6_int (prefix_string 128) v of Inr n \<Rightarrow> Some n | Inl _ \<Rightarrow> None))"

text \<open>
  A network no broader than the runbooks allow: at least eight fixed bits of an IPv4 address,
  thirty-two of an IPv6 address.
\<close>

definition narrow_network :: "nat \<times> nat \<Rightarrow> bool" where
  "narrow_network n = ((if fst n = 4 then 8 else 32) \<le> snd n)"

lemma ip_network_bounds: "ip_network v = Some (version, p) \<Longrightarrow> (version = 4 \<and> p \<le> 32) \<or> (version = 6 \<and> p \<le> 128)"
proof -
  have "p \<le> w" if "network_of ver w address netmask v = Inr (ver', p)" "\<And>t p. netmask t = Some p \<Longrightarrow> p \<le> w"
    for ver w address netmask ver'
    using that by (auto simp: network_of_def split: option.split_asm if_split_asm prod.split_asm)
  moreover have "ver' = ver" if "network_of ver w address netmask v = Inr (ver', p)" for ver w address netmask ver'
    using that by (auto simp: network_of_def split: option.split_asm if_split_asm prod.split_asm)
  moreover have pre: "prefix_string w t = Some p \<Longrightarrow> p \<le> w" for w t p
    by (auto simp: prefix_string_def split: option.split_asm if_split_asm)
  have "netmask_prefix n = Some p \<Longrightarrow> p \<le> 32" for n p
    by (auto simp: netmask_prefix_def find_Some_iff simp del: upt_Suc)
  then have "ipv4_mask t = Some p \<Longrightarrow> p \<le> 32" for t p
    using pre[of 32] by (auto simp: ipv4_mask_def split: option.split_asm)
  ultimately show "ip_network v = Some (version, p) \<Longrightarrow> ?thesis"
    using pre[of 128] by (auto simp: ip_network_def split: sum.split_asm bool.split_asm)
qed

end
