(* ===== verification/RunbookPackages.thy ===== *)
theory RunbookPackages
  imports Approvals IpNetwork EventSourcing
begin

text \<open>
  The registry of runbook packages (\<open>schemas/runbook_package.py\<close>,
  \<open>services/runbook_packages.py\<close>, \<open>api/routes/runbook_packages.py\<close>): signed manifests of the
  privileged operations of a machine, and their promotion from draft to deployed, a chain of
  records per package. The JSON column of a manifest holds what the schema dumps, so it is the
  manifest itself here.
\<close>

section \<open>Manifests\<close>

record parameter_definition =
  pd_type :: string
  pd_required :: bool
  pd_secret :: bool
  pd_minimum :: "int option"
  pd_maximum :: "int option"
  pd_allowed_values :: "string list"

record target_profile =
  tp_name :: string
  tp_machine :: string
  tp_environment :: string
  tp_service_class :: string
  tp_writable_roots :: "string list"
  tp_private_endpoint :: "string option"
  tp_dns_name :: "string option"

record preflight_contract =
  pf_checks :: "string list"
  pf_failure_mode :: string

record rehearsal_contract =
  rh_required :: bool
  rh_target_profile :: string
  rh_max_evidence_age_hours :: int
  rh_required_evidence :: "string list"

record rollback_definition =
  rb_operation :: string
  rb_triggers :: "string list"
  rb_timeout_seconds :: int
  rb_required_evidence :: "string list"

record packaged_operation =
  oq_name :: string
  oq_category :: string
  oq_task_type :: string
  oq_target_profile :: string
  oq_risk_level :: int
  oq_approval_required :: bool
  oq_parameters :: "(string \<times> parameter_definition) list"
  oq_preflight :: preflight_contract
  oq_evidence :: "string list"
  oq_rollback :: "rollback_definition option"

record package_manifest =
  km_schema_version :: int
  km_name :: string
  km_version :: string
  km_description :: string
  km_target_profiles :: "target_profile list"
  km_rehearsal :: rehearsal_contract
  km_operations :: "packaged_operation list"

text \<open>The patterns of names and versions.\<close>

definition lower_alnum :: "char \<Rightarrow> bool" where
  "lower_alnum c = (c \<in> set ''abcdefghijklmnopqrstuvwxyz0123456789'')"

definition package_name :: "string \<Rightarrow> bool" where
  "package_name s = list_all (\<lambda>part. part \<noteq> [] \<and> list_all lower_alnum part) (split_all CHR ''-'' s)"

definition package_version :: "string \<Rightarrow> bool" where
  "package_version s = (let parts = split_all CHR ''.'' s in length parts = 3 \<and> list_all ascii_digits parts)"

definition sized :: "nat \<Rightarrow> nat \<Rightarrow> 'a list \<Rightarrow> bool" where
  "sized l u xs = (l \<le> length xs \<and> length xs \<le> u)"

definition valid_parameter_definition :: "parameter_definition \<Rightarrow> bool" where
  "valid_parameter_definition p =
     (pd_type p \<in> {''string'', ''integer'', ''boolean'', ''cidr-list''} \<and> sized 0 50 (pd_allowed_values p)
      \<and> (pd_type p \<noteq> ''integer'' \<longrightarrow> pd_minimum p = None \<and> pd_maximum p = None)
      \<and> (case (pd_minimum p, pd_maximum p) of (Some l, Some u) \<Rightarrow> l \<le> u | _ \<Rightarrow> True)
      \<and> (pd_type p \<noteq> ''string'' \<longrightarrow> pd_allowed_values p = []))"

definition valid_target_profile :: "target_profile \<Rightarrow> bool" where
  "valid_target_profile t =
     (package_name (tp_name t) \<and> package_name (tp_machine t)
      \<and> tp_environment t \<in> {''rehearsal'', ''staging'', ''production''}
      \<and> tp_service_class t
          \<in> {''platform'', ''docker'', ''redis'', ''postgres'', ''storage'', ''certificate'', ''backup'', ''health''}
      \<and> sized 0 20 (tp_writable_roots t)
      \<and> (case tp_private_endpoint t of None \<Rightarrow> True | Some s \<Rightarrow> length s \<le> 255)
      \<and> (case tp_dns_name t of None \<Rightarrow> True | Some s \<Rightarrow> length s \<le> 253))"

definition valid_rollback :: "rollback_definition \<Rightarrow> bool" where
  "valid_rollback r =
     (package_name (rb_operation r) \<and> sized 1 20 (rb_triggers r) \<and> 1 \<le> rb_timeout_seconds r
      \<and> rb_timeout_seconds r \<le> 3600 \<and> sized 1 20 (rb_required_evidence r))"

text \<open>An operation that changes anything needs approval and a way back.\<close>

definition valid_packaged_operation :: "packaged_operation \<Rightarrow> bool" where
  "valid_packaged_operation q =
     (package_name (oq_name q)
      \<and> oq_category q \<in> {''docker'', ''redis'', ''postgres'', ''storage'', ''certificate'', ''backup'', ''health''}
      \<and> oq_task_type q \<in> {''infrastructure_observation'', ''infrastructure_operation''}
      \<and> package_name (oq_target_profile q) \<and> 0 \<le> oq_risk_level q \<and> oq_risk_level q \<le> 5
      \<and> list_all (\<lambda>(_, p). valid_parameter_definition p) (oq_parameters q)
      \<and> sized 1 30 (pf_checks (oq_preflight q)) \<and> pf_failure_mode (oq_preflight q) = ''block''
      \<and> sized 1 30 (oq_evidence q) \<and> (case oq_rollback q of None \<Rightarrow> True | Some r \<Rightarrow> valid_rollback r)
      \<and> (oq_task_type q = ''infrastructure_operation'' \<longrightarrow> oq_approval_required q \<and> oq_rollback q \<noteq> None))"

definition valid_rehearsal :: "rehearsal_contract \<Rightarrow> bool" where
  "valid_rehearsal r =
     (package_name (rh_target_profile r) \<and> 1 \<le> rh_max_evidence_age_hours r \<and> rh_max_evidence_age_hours r \<le> 720
      \<and> sized 1 30 (rh_required_evidence r))"

definition valid_package_manifest :: "package_manifest \<Rightarrow> bool" where
  "valid_package_manifest m =
     (let targets = map tp_name (km_target_profiles m)
      in km_schema_version m = 1 \<and> package_name (km_name m) \<and> package_version (km_version m)
         \<and> text_between 1 300 (km_description m) \<and> sized 1 20 (km_target_profiles m)
         \<and> list_all valid_target_profile (km_target_profiles m) \<and> valid_rehearsal (km_rehearsal m)
         \<and> sized 1 50 (km_operations m) \<and> list_all valid_packaged_operation (km_operations m)
         \<and> distinct targets \<and> rh_target_profile (km_rehearsal m) \<in> set targets
         \<and> distinct (map oq_name (km_operations m))
         \<and> list_all (\<lambda>q. oq_target_profile q \<in> set targets) (km_operations m))"

text \<open>\<open>model_dump(mode="json")\<close>.\<close>

definition parameter_json :: "parameter_definition \<Rightarrow> json" where
  "parameter_json p = JObj
     [(''type'', JStr (pd_type p)), (''required'', JBool (pd_required p)), (''secret'', JBool (pd_secret p)),
      (''minimum'', option_json JInt (pd_minimum p)), (''maximum'', option_json JInt (pd_maximum p)),
      (''allowed_values'', jstrs (pd_allowed_values p))]"

definition profile_json :: "target_profile \<Rightarrow> json" where
  "profile_json t = JObj
     [(''name'', JStr (tp_name t)), (''machine'', JStr (tp_machine t)), (''environment'', JStr (tp_environment t)),
      (''service_class'', JStr (tp_service_class t)), (''writable_roots'', jstrs (tp_writable_roots t)),
      (''private_endpoint'', option_json JStr (tp_private_endpoint t)), (''dns_name'', option_json JStr (tp_dns_name t))]"

definition rollback_json :: "rollback_definition \<Rightarrow> json" where
  "rollback_json r = JObj
     [(''operation'', JStr (rb_operation r)), (''triggers'', jstrs (rb_triggers r)),
      (''timeout_seconds'', JInt (rb_timeout_seconds r)), (''required_evidence'', jstrs (rb_required_evidence r))]"

definition operation_json :: "packaged_operation \<Rightarrow> json" where
  "operation_json q = JObj
     [(''name'', JStr (oq_name q)), (''category'', JStr (oq_category q)), (''task_type'', JStr (oq_task_type q)),
      (''target_profile'', JStr (oq_target_profile q)), (''risk_level'', JInt (oq_risk_level q)),
      (''approval_required'', JBool (oq_approval_required q)),
      (''parameters'', JObj (map (\<lambda>(k, p). (k, parameter_json p)) (oq_parameters q))),
      (''preflight'', JObj [(''checks'', jstrs (pf_checks (oq_preflight q))),
                            (''failure_mode'', JStr (pf_failure_mode (oq_preflight q)))]),
      (''evidence'', jstrs (oq_evidence q)), (''rollback'', option_json rollback_json (oq_rollback q))]"

definition rehearsal_json :: "rehearsal_contract \<Rightarrow> json" where
  "rehearsal_json r = JObj
     [(''required'', JBool (rh_required r)), (''target_profile'', JStr (rh_target_profile r)),
      (''max_evidence_age_hours'', JInt (rh_max_evidence_age_hours r)),
      (''required_evidence'', jstrs (rh_required_evidence r))]"

definition package_json :: "package_manifest \<Rightarrow> json" where
  "package_json m = JObj
     [(''schema_version'', JInt (km_schema_version m)), (''name'', JStr (km_name m)),
      (''version'', JStr (km_version m)), (''description'', JStr (km_description m)),
      (''target_profiles'', JList (map profile_json (km_target_profiles m))),
      (''rehearsal'', rehearsal_json (km_rehearsal m)),
      (''operations'', JList (map operation_json (km_operations m)))]"

section \<open>Rows\<close>

record runbook_package =
  rk_id :: uuid
  rk_name :: string
  rk_version :: string
  rk_manifest :: package_manifest
  rk_manifest_digest :: string
  rk_signature :: string
  rk_source_repository :: string
  rk_source_commit :: string
  rk_created_by :: string
  rk_created_at :: time

record runbook_promotion =
  rm_id :: uuid
  rm_package_id :: uuid
  rm_state :: string
  rm_evidence_digest :: "string option"
  rm_approval_reference :: "string option"
  rm_previous_record_digest :: "string option"
  rm_record_digest :: string
  rm_recorded_by :: string
  rm_recorded_at :: time

text \<open>The control plane's own tables and the two of the registry.\<close>

record bdb =
  base :: db
  runbook_packages :: "runbook_package list"
  runbook_promotions :: "runbook_promotion list"

record package_create =
  kq_manifest :: package_manifest
  kq_manifest_digest :: string
  kq_signature :: string
  kq_source_repository :: string
  kq_source_commit :: string
  kq_created_by :: string

record promotion_create =
  mq_state :: string
  mq_evidence_digest :: "string option"
  mq_approval_reference :: "string option"
  mq_recorded_by :: string

definition actor_name :: "string \<Rightarrow> bool" where
  "actor_name s =
     (case s of [] \<Rightarrow> False | c # cs \<Rightarrow> alphanumeric c \<and> list_all (\<lambda>x. alphanumeric x \<or> x \<in> set ''._-'') cs)"

definition valid_package_create :: "package_create \<Rightarrow> bool" where
  "valid_package_create q =
     (valid_package_manifest (kq_manifest q) \<and> is_sha256_hex (kq_manifest_digest q)
      \<and> text_between 64 128 (kq_signature q) \<and> package_name (kq_source_repository q)
      \<and> commit_hex (kq_source_commit q) \<and> actor_name (kq_created_by q))"

definition valid_promotion_create :: "promotion_create \<Rightarrow> bool" where
  "valid_promotion_create q =
     (mq_state q \<in> {''draft'', ''rehearsed'', ''approved'', ''deployed''}
      \<and> (case mq_evidence_digest q of None \<Rightarrow> True | Some s \<Rightarrow> is_sha256_hex s)
      \<and> (case mq_approval_reference q of None \<Rightarrow> True | Some s \<Rightarrow> text_between 1 150 s)
      \<and> actor_name (mq_recorded_by q))"

section \<open>Registration\<close>

text \<open>\<open>hmac.compare_digest\<close> of two texts raises on characters beyond ASCII.\<close>

definition compare_digest :: "string \<Rightarrow> string \<Rightarrow> bool res" where
  "compare_digest a b =
     (if list_ex (\<lambda>c. 128 \<le> (of_char c :: nat)) (a @ b) then Inl TypeError else Inr (a = b))"

definition canonical_package :: "package_manifest \<Rightarrow> string" where
  "canonical_package m = dumps (package_json m)"

definition verify_runbook_package :: "package_create \<Rightarrow> string \<Rightarrow> unit res" where
  "verify_runbook_package q secret =
     ebind (compare_digest (sha256_hex (canonical_package (kq_manifest q))) (kq_manifest_digest q)) (\<lambda>same.
       if \<not> same then http 422 ''Runbook manifest digest mismatch.''
       else ebind (compare_digest (hmac_sha256_hex secret (canonical_package (kq_manifest q))) (kq_signature q)) (\<lambda>signed.
         if \<not> signed then http 422 ''Runbook signature is invalid.'' else Inr ()))"

definition new_package :: "time \<Rightarrow> uuid \<Rightarrow> package_create \<Rightarrow> runbook_package" where
  "new_package now i q =
     \<lparr>rk_id = i, rk_name = km_name (kq_manifest q), rk_version = km_version (kq_manifest q),
      rk_manifest = kq_manifest q, rk_manifest_digest = kq_manifest_digest q, rk_signature = kq_signature q,
      rk_source_repository = kq_source_repository q, rk_source_commit = kq_source_commit q,
      rk_created_by = kq_created_by q, rk_created_at = now\<rparr>"

definition bump :: "db \<Rightarrow> db" where
  "bump d = d\<lparr>next_uuid := Suc (next_uuid d)\<rparr>"

definition register_runbook_package ::
  "time \<Rightarrow> string \<Rightarrow> package_create \<Rightarrow> bdb \<Rightarrow> (runbook_package \<times> bdb) res" where
  "register_runbook_package now secret q B =
     (if \<not> valid_package_create q then Inl (ValueError ''request'')
      else ebind (verify_runbook_package q secret) (\<lambda>_.
        (let p = new_package now (next_uuid (base B)) q
         in if list_ex (\<lambda>x. rk_name x = rk_name p \<and> rk_version x = rk_version p
                          \<or> rk_manifest_digest x = rk_manifest_digest p) (runbook_packages B)
            then http 409 ''Runbook package name/version or digest already exists.''
            else Inr (p, B\<lparr>runbook_packages := runbook_packages B @ [p], base := bump (base B)\<rparr>))))"

section \<open>Promotion\<close>

definition STATES :: "string list" where
  "STATES = [''draft'', ''rehearsed'', ''approved'', ''deployed'']"

text \<open>The promotions of a package by time, then identifier.\<close>

definition promotions_of :: "uuid \<Rightarrow> bdb \<Rightarrow> runbook_promotion list" where
  "promotions_of i B =
     sort_key rm_recorded_at (sort_key rm_id (filter (\<lambda>m. rm_package_id m = i) (runbook_promotions B)))"

definition promotion_json :: "runbook_package \<Rightarrow> runbook_promotion \<Rightarrow> json" where
  "promotion_json p m = JObj
     [(''package_id'', juuid (rk_id p)), (''manifest_digest'', JStr (rk_manifest_digest p)),
      (''state'', JStr (rm_state m)), (''evidence_digest'', option_json JStr (rm_evidence_digest m)),
      (''approval_reference'', option_json JStr (rm_approval_reference m)),
      (''previous_record_digest'', option_json JStr (rm_previous_record_digest m)),
      (''recorded_by'', JStr (rm_recorded_by m)), (''recorded_at'', jtime (rm_recorded_at m))]"

definition new_promotion ::
  "time \<Rightarrow> uuid \<Rightarrow> runbook_package \<Rightarrow> promotion_create \<Rightarrow> runbook_promotion list \<Rightarrow> runbook_promotion" where
  "new_promotion now i p q earlier =
     (let m = \<lparr>rm_id = i, rm_package_id = rk_id p, rm_state = mq_state q, rm_evidence_digest = mq_evidence_digest q,
               rm_approval_reference = mq_approval_reference q,
               rm_previous_record_digest = (if earlier = [] then None else Some (rm_record_digest (last earlier))),
               rm_record_digest = [], rm_recorded_by = mq_recorded_by q, rm_recorded_at = now\<rparr>
      in m\<lparr>rm_record_digest := digest_json (promotion_json p m)\<rparr>)"

definition promote_runbook_package ::
  "time \<Rightarrow> runbook_package \<Rightarrow> promotion_create \<Rightarrow> bdb \<Rightarrow> (runbook_promotion \<times> bdb) res" where
  "promote_runbook_package now p q B =
     (let earlier = promotions_of (rk_id p) B;
          m = new_promotion now (next_uuid (base B)) p q earlier
      in if map rm_state earlier \<noteq> take (length earlier) STATES then http 409 ''Promotion chain is invalid.''
         else if length STATES \<le> length earlier \<or> mq_state q \<noteq> STATES ! length earlier
         then http 409 ''Promotion must be sequential.''
         else if mq_state q \<noteq> ''draft'' \<and> mq_evidence_digest q = None then http 422 ''Promotion evidence is required.''
         else if mq_state q \<in> {''approved'', ''deployed''} \<and> mq_approval_reference q \<in> {None, Some ''''}
         then http 422 ''Approval reference is required.''
         else if list_ex (\<lambda>x. rm_package_id x = rm_package_id m \<and> rm_state x = rm_state m
                            \<or> rm_record_digest x = rm_record_digest m) (runbook_promotions B)
         then Inl IntegrityError
         else Inr (m, B\<lparr>runbook_promotions := runbook_promotions B @ [m], base := bump (base B)\<rparr>))"

definition promote_runbook :: "time \<Rightarrow> uuid \<Rightarrow> promotion_create \<Rightarrow> bdb \<Rightarrow> (runbook_promotion \<times> bdb) res" where
  "promote_runbook now i q B =
     (if \<not> valid_promotion_create q then Inl (ValueError ''request'')
      else (case get_row rk_id (runbook_packages B) i of
              None \<Rightarrow> http 404 ''Runbook package not found.''
            | Some p \<Rightarrow> promote_runbook_package now p q B))"

section \<open>The registry as a step relation\<close>

inductive registry_step :: "time \<Rightarrow> bdb \<Rightarrow> bdb \<Rightarrow> bool" where
  register: "register_runbook_package now secret q B = Inr (p, B') \<Longrightarrow> registry_step now B B'"
| promote: "promote_runbook now i q B = Inr (m, B') \<Longrightarrow> registry_step now B B'"
| control_plane: "next_uuid (base B) \<le> next_uuid d \<Longrightarrow> registry_step now B (B\<lparr>base := d\<rparr>)"

inductive registry_run :: "time \<Rightarrow> bdb \<Rightarrow> bool" where
  init: "runbook_packages B = [] \<Longrightarrow> runbook_promotions B = [] \<Longrightarrow> registry_run t B"
| step: "registry_run t B \<Longrightarrow> t < now \<Longrightarrow> registry_step now B B' \<Longrightarrow> registry_run now B'"

text \<open>A package as it was signed and dumped.\<close>

definition package_ok :: "runbook_package \<Rightarrow> bool" where
  "package_ok p \<longleftrightarrow>
     valid_package_manifest (rk_manifest p) \<and> rk_name p = km_name (rk_manifest p)
     \<and> rk_version p = km_version (rk_manifest p) \<and> rk_manifest_digest p = sha256_hex (canonical_package (rk_manifest p))"

definition promotion_ok :: "runbook_promotion \<Rightarrow> bool" where
  "promotion_ok m \<longleftrightarrow>
     (rm_state m \<noteq> ''draft'' \<longrightarrow> rm_evidence_digest m \<noteq> None)
     \<and> (rm_state m \<in> {''approved'', ''deployed''} \<longrightarrow> rm_approval_reference m \<notin> {None, Some ''''})"

text \<open>The place of a state in the sequence of promotions, counted from one.\<close>

definition promotion_rank :: "runbook_promotion \<Rightarrow> nat" where
  "promotion_rank m = Suc (length (takeWhile (\<lambda>s. s \<noteq> rm_state m) STATES))"

definition promotion_chain :: "runbook_package \<Rightarrow> runbook_promotion list \<Rightarrow> bool" where
  "promotion_chain p ms \<longleftrightarrow>
     linked rm_previous_record_digest promotion_rank rm_record_digest (promotion_json p) None 1 ms
     \<and> map rm_state ms = take (length ms) STATES \<and> list_all promotion_ok ms"

definition registry_ok :: "time \<Rightarrow> bdb \<Rightarrow> bool" where
  "registry_ok t B \<longleftrightarrow>
     distinct (map rk_id (runbook_packages B))
     \<and> (\<forall>p \<in> set (runbook_packages B). rk_id p < next_uuid (base B) \<and> package_ok p
          \<and> promotion_chain p (filter (\<lambda>m. rm_package_id m = rk_id p) (runbook_promotions B)))
     \<and> (\<forall>m \<in> set (runbook_promotions B). rm_recorded_at m \<le> t \<and> rm_package_id m \<in> rk_id ` set (runbook_packages B))
     \<and> sorted_wrt (<) (map rm_recorded_at (runbook_promotions B))"

lemma registered:
  assumes "register_runbook_package now secret q B = Inr (p, B')"
  shows "p = new_package now (next_uuid (base B)) q \<and> valid_package_create q
    \<and> sha256_hex (canonical_package (kq_manifest q)) = kq_manifest_digest q
    \<and> hmac_sha256_hex secret (canonical_package (kq_manifest q)) = kq_signature q
    \<and> B' = B\<lparr>runbook_packages := runbook_packages B @ [p], base := bump (base B)\<rparr>"
  using assms
  by (auto simp: register_runbook_package_def verify_runbook_package_def compare_digest_def ebind_Inr_iff Let_def
      split: if_split_asm)

lemma promotions_of_order:
  assumes "registry_ok t B"
  shows "promotions_of i B = filter (\<lambda>m. rm_package_id m = i) (runbook_promotions B)"
proof -
  have "sorted_wrt (<) (map rm_recorded_at (filter (\<lambda>m. rm_package_id m = i) (runbook_promotions B)))"
    using assms by (simp add: registry_ok_def sorted_wrt_map sorted_wrt_filter)
  then show ?thesis unfolding promotions_of_def by (rule query_in_log_order)
qed

lemma promoted:
  assumes "promote_runbook_package now p q B = Inr (m, B')"
  defines "earlier \<equiv> promotions_of (rk_id p) B"
  shows "m = new_promotion now (next_uuid (base B)) p q earlier"
    "map rm_state earlier = take (length earlier) STATES" "length earlier < length STATES"
    "mq_state q = STATES ! length earlier" "promotion_ok m"
    "B' = B\<lparr>runbook_promotions := runbook_promotions B @ [m], base := bump (base B)\<rparr>"
  using assms(1) unfolding promote_runbook_package_def earlier_def[symmetric] Let_def
  by (auto simp: promotion_ok_def new_promotion_def Let_def split: if_split_asm simp del: insert_iff)

lemma new_promotion_simps [simp]:
  "rm_id (new_promotion now i p q ms) = i" "rm_package_id (new_promotion now i p q ms) = rk_id p"
  "rm_state (new_promotion now i p q ms) = mq_state q" "rm_recorded_at (new_promotion now i p q ms) = now"
  "rm_record_digest (new_promotion now i p q ms) = digest_json (promotion_json p (new_promotion now i p q ms))"
  by (simp_all add: new_promotion_def Let_def promotion_json_def)

lemma promotion_rank_nth: "n < 4 \<Longrightarrow> rm_state m = STATES ! n \<Longrightarrow> promotion_rank m = Suc n"
  by (auto simp: promotion_rank_def STATES_def numeral_eq_Suc less_Suc_eq)

lemma promotion_chain_snoc:
  assumes "promotion_chain p ms" and "promotion_ok (new_promotion now i p q ms)" and "length ms < length STATES"
    and "mq_state q = STATES ! length ms"
  shows "promotion_chain p (ms @ [new_promotion now i p q ms])"
proof -
  let ?m = "new_promotion now i p q ms"
  have "promotion_rank ?m = Suc (length ms)"
    using promotion_rank_nth[of "length ms" ?m] assms(3,4) by (simp add: STATES_def)
  moreover have "rm_previous_record_digest ?m = last_digest rm_record_digest None ms"
    by (simp add: new_promotion_def last_digest_def Let_def)
  moreover have "take (Suc (length ms)) STATES = take (length ms) STATES @ [mq_state q]"
    using assms(3,4) by (simp add: take_Suc_conv_app_nth)
  ultimately show ?thesis using assms(1,2) by (simp add: promotion_chain_def linked_append)
qed

lemma registry_ok_register:
  assumes ok: "registry_ok t B" and t: "t < now" and h: "register_runbook_package now secret q B = Inr (p, B')"
  shows "registry_ok now B'"
proof -
  note r = registered[OF h]
  have p: "rk_id p = next_uuid (base B)" "package_ok p"
    using r by (simp_all add: new_package_def package_ok_def valid_package_create_def)
  have none: "filter (\<lambda>m. rm_package_id m = rk_id p) (runbook_promotions B) = []"
    using ok p(1) by (fastforce simp: registry_ok_def filter_empty_conv)
  have "promotion_chain p []" by (simp add: promotion_chain_def)
  moreover have "rk_id x \<noteq> rk_id p" "rk_id x < Suc (next_uuid (base B))" if "x \<in> set (runbook_packages B)" for x
    using ok that p(1) by (auto simp: registry_ok_def)
  moreover have "rm_recorded_at m \<le> now" if "m \<in> set (runbook_promotions B)" for m
    using ok that t by (force simp: registry_ok_def)
  ultimately show ?thesis
    using ok r p none by (auto simp: registry_ok_def bump_def)
qed

lemma registry_ok_promote:
  assumes ok: "registry_ok t B" and t: "t < now" and h: "promote_runbook now i q B = Inr (m, B')"
  shows "registry_ok now B'"
proof -
  obtain p where p: "p \<in> set (runbook_packages B)" and pr: "promote_runbook_package now p q B = Inr (m, B')"
    using h by (auto simp: promote_runbook_def split: if_split_asm option.split_asm dest: get_row_Some_in)
  define ms where "ms = filter (\<lambda>m. rm_package_id m = rk_id p) (runbook_promotions B)"
  note pm = promoted[OF pr, unfolded promotions_of_order[OF ok] ms_def[symmetric]]
  have "promotion_chain p ms" using ok p by (simp add: registry_ok_def ms_def)
  then have new: "promotion_chain p (ms @ [m])"
    using promotion_chain_snoc[of p ms now "next_uuid (base B)" q] pm(1,3-5) by simp
  have B': "runbook_packages B' = runbook_packages B" "runbook_promotions B' = runbook_promotions B @ [m]"
      "next_uuid (base B') = Suc (next_uuid (base B))"
    using pm(6) by (simp_all add: bump_def)
  have m: "rm_package_id m = rk_id p" "rm_recorded_at m = now" using pm(1) by simp_all
  have "promotion_chain x (filter (\<lambda>y. rm_package_id y = rk_id x) (runbook_promotions B'))"
    if x: "x \<in> set (runbook_packages B)" for x
  proof (cases "rk_id x = rk_id p")
    case True
    then have "x = p" using ok p x by (auto simp: registry_ok_def distinct_map inj_on_def)
    then show ?thesis using new B'(2) m(1) by (simp add: ms_def)
  next
    case False
    then show ?thesis using ok x B'(2) m(1) by (simp add: registry_ok_def)
  qed
  moreover have "rk_id x < Suc (next_uuid (base B))" if "x \<in> set (runbook_packages B)" for x
    using ok that by (force simp: registry_ok_def)
  moreover have before: "rm_recorded_at y < now" if "y \<in> set (runbook_promotions B)" for y
    using ok that t by (force simp: registry_ok_def)
  then have "rm_recorded_at y \<le> now" if "y \<in> set (runbook_promotions B)" for y
    using that by force
  ultimately show ?thesis
    using ok p m before by (simp add: registry_ok_def B' sorted_wrt_append)
qed

lemma registry_ok_run: "registry_run t B \<Longrightarrow> registry_ok t B"
proof (induction rule: registry_run.induct)
  case (init B t)
  then show ?case by (simp add: registry_ok_def)
next
  case (step t B now B')
  from step.hyps(3) show ?case
  proof cases
    case (register secret q p)
    then show ?thesis using registry_ok_register step.IH step.hyps(2) by blast
  next
    case (promote i q m)
    then show ?thesis using registry_ok_promote step.IH step.hyps(2) by blast
  next
    case (control_plane d)
    have "rk_id p < next_uuid d" if "p \<in> set (runbook_packages B)" for p
      using step.IH that control_plane(2) by (force simp: registry_ok_def)
    moreover have "rm_recorded_at m \<le> now" if "m \<in> set (runbook_promotions B)" for m
      using step.IH that step.hyps(2) by (force simp: registry_ok_def)
    ultimately show ?thesis using step.IH control_plane(1) by (simp add: registry_ok_def)
  qed
qed

text \<open>
  Promotion (C30) follows the sequence: in every reachable registry the promotions of a package, in the
  order in which they are read, are the first of draft, rehearsed, approved and deployed, each with
  the digest of its predecessor and of its own document over the digest of the very manifest, and
  with evidence and, from approved on, a reference to the approval.
\<close>

theorem promotion_sequence:
  assumes "registry_run t B" and "p \<in> set (runbook_packages B)"
  shows "rk_manifest_digest p = sha256_hex (canonical_package (rk_manifest p))
    \<and> map rm_state (promotions_of (rk_id p) B) = take (length (promotions_of (rk_id p) B)) STATES
    \<and> (\<forall>k < length (promotions_of (rk_id p) B).
         let m = promotions_of (rk_id p) B ! k
         in rm_record_digest m = digest_json (promotion_json p m)
            \<and> rm_previous_record_digest m
                = (if k = 0 then None else Some (rm_record_digest (promotions_of (rk_id p) B ! (k - 1))))
            \<and> (0 < k \<longrightarrow> rm_evidence_digest m \<noteq> None)
            \<and> (1 < k \<longrightarrow> rm_approval_reference m \<noteq> None))"
proof -
  have ok: "registry_ok t B" by (rule registry_ok_run[OF assms(1)])
  define ms where "ms = promotions_of (rk_id p) B"
  have chain: "promotion_chain p ms"
    using ok assms(2) promotions_of_order[OF ok] by (simp add: registry_ok_def ms_def)
  have states: "map rm_state ms = take (length ms) STATES" using chain by (simp add: promotion_chain_def)
  have len: "length ms \<le> 4"
    using arg_cong[OF states, of length] by (simp add: STATES_def)
  have "let m = ms ! k
         in rm_record_digest m = digest_json (promotion_json p m)
            \<and> rm_previous_record_digest m = (if k = 0 then None else Some (rm_record_digest (ms ! (k - 1))))
            \<and> (0 < k \<longrightarrow> rm_evidence_digest m \<noteq> None) \<and> (1 < k \<longrightarrow> rm_approval_reference m \<noteq> None)"
    if k: "k < length ms" for k
  proof -
    have "rm_record_digest (ms ! k) = digest_json (promotion_json p (ms ! k))
        \<and> rm_previous_record_digest (ms ! k) = (if k = 0 then None else Some (rm_record_digest (ms ! (k - 1))))"
      using chain k by (intro linked_nth[where seq = promotion_rank and n = 1]) (simp_all add: promotion_chain_def)
    moreover have s: "rm_state (ms ! k) = STATES ! k"
      using k states nth_map[of k ms rm_state] by simp
    have "promotion_ok (ms ! k)" using chain k by (simp add: promotion_chain_def list_all_length)
    moreover have "0 < k \<longrightarrow> rm_state (ms ! k) \<noteq> ''draft''" "1 < k \<longrightarrow> rm_state (ms ! k) \<in> {''approved'', ''deployed''}"
    proof -
      have "k = 0 \<or> k = 1 \<or> k = 2 \<or> k = 3" using len k by linarith
      then show "0 < k \<longrightarrow> rm_state (ms ! k) \<noteq> ''draft''"
          "1 < k \<longrightarrow> rm_state (ms ! k) \<in> {''approved'', ''deployed''}"
        using s by (auto simp: STATES_def)
    qed
    ultimately show ?thesis unfolding Let_def promotion_ok_def by (simp del: not_None_eq) blast
  qed
  moreover have "rk_manifest_digest p = sha256_hex (canonical_package (rk_manifest p))"
    using ok assms(2) by (simp add: registry_ok_def package_ok_def)
  ultimately show ?thesis using states unfolding ms_def by blast
qed

end
