(* ===== verification/BrokerTickets.thy ===== *)
theory BrokerTickets
  imports RunbookPackages
begin

text \<open>
  Broker tickets (\<open>schemas/infrastructure.py\<close>, \<open>services/broker_tickets.py\<close>, the ticket endpoint
  of \<open>api/routes/task_runtime.py\<close>): the agent that runs an approved infrastructure task gets a
  signed permission, good for a minute, that the privileged broker of its machine accepts once.
\<close>

section \<open>Contracts\<close>

record infrastructure_contract =
  ic_runbook :: string
  ic_runbook_version :: string
  ic_operation :: string
  ic_target :: string
  ic_parameters :: dict
  ic_package_name :: "string option"
  ic_package_version :: "string option"
  ic_package_digest :: "string option"

definition RUNBOOKS :: "string list" where
  "RUNBOOKS = [''vm2-infrastructure'', ''vm2-postgres-deployment'', ''vm2-platform-operations'']"

definition OPERATIONS :: "string list" where
  "OPERATIONS =
     [''observe-control-plane'', ''restart-control-plane-api'', ''preflight-invariance-postgres'',
      ''stage-invariance-postgres'', ''start-invariance-postgres-private'', ''initialize-invariance-schema'',
      ''configure-invariance-backups'', ''verify-invariance-postgres'', ''prepare-invariance-cutover'',
      ''verify-docker-service'', ''restart-docker-service'', ''verify-redis'', ''verify-storage'',
      ''verify-certificate'', ''verify-backup'', ''verify-service-health'']"

definition TARGETS :: "string list" where
  "TARGETS = [''vm2-control-plane'', ''vm2-invariance-postgres'', ''vm2-production'']"

definition given :: "string option \<Rightarrow> bool" where
  "given v \<longleftrightarrow> v \<noteq> None \<and> v \<noteq> Some ''''"

text \<open>The model validator.\<close>

definition attested :: "infrastructure_contract \<Rightarrow> bool" where
  "attested c =
     ((ic_runbook c \<noteq> ''vm2-platform-operations'' \<longrightarrow> ic_parameters c = [])
      \<and> (if ic_runbook c = ''vm2-platform-operations''
         then given (ic_package_name c) \<and> given (ic_package_version c) \<and> given (ic_package_digest c)
              \<and> ic_package_name c = Some (ic_runbook c)
         else \<not> given (ic_package_name c) \<and> \<not> given (ic_package_version c) \<and> \<not> given (ic_package_digest c)))"

definition optional_match :: "(string \<Rightarrow> bool) \<Rightarrow> string option \<Rightarrow> bool" where
  "optional_match P v = (case v of None \<Rightarrow> True | Some s \<Rightarrow> P s)"

definition valid_contract :: "infrastructure_contract \<Rightarrow> bool" where
  "valid_contract c =
     (ic_runbook c \<in> set RUNBOOKS \<and> ic_runbook_version c = ''1.0.0'' \<and> ic_operation c \<in> set OPERATIONS
      \<and> ic_target c \<in> set TARGETS
      \<and> optional_match (\<lambda>s. s \<noteq> [] \<and> list_all (\<lambda>x. lower_alnum x \<or> x = CHR ''-'') s) (ic_package_name c)
      \<and> optional_match package_version (ic_package_version c) \<and> optional_match is_sha256_hex (ic_package_digest c)
      \<and> attested c)"

text \<open>The fields of a document: a text, a text or \<open>null\<close> with the default \<open>null\<close>, an object with the default \<open>{}\<close>.\<close>

definition text_field :: "dict \<Rightarrow> string \<Rightarrow> string option" where
  "text_field d k = (case dict_get d k of Some (JStr s) \<Rightarrow> Some s | _ \<Rightarrow> None)"

definition optional_text_field :: "dict \<Rightarrow> string \<Rightarrow> string option option" where
  "optional_text_field d k =
     (case dict_get d k of
        None \<Rightarrow> Some None | Some JNull \<Rightarrow> Some None | Some (JStr s) \<Rightarrow> Some (Some s) | _ \<Rightarrow> None)"

definition object_field :: "dict \<Rightarrow> string \<Rightarrow> dict option" where
  "object_field d k = (case dict_get d k of None \<Rightarrow> Some [] | Some (JObj o') \<Rightarrow> Some o' | _ \<Rightarrow> None)"

definition CONTRACT_FIELDS :: "string list" where
  "CONTRACT_FIELDS = [''runbook'', ''runbook_version'', ''operation'', ''target'', ''parameters'', ''package_name'',
     ''package_version'', ''package_digest'']"

text \<open>\<open>InfrastructureContract.model_validate\<close>, nothing where it raises; unknown fields are refused.\<close>

definition contract_of :: "dict \<Rightarrow> infrastructure_contract option" where
  "contract_of d =
     (if \<not> set (map fst d) \<subseteq> set CONTRACT_FIELDS then None
      else
        (case (text_field d ''runbook'', text_field d ''runbook_version'', text_field d ''operation'',
               text_field d ''target'', object_field d ''parameters'', optional_text_field d ''package_name'',
               optional_text_field d ''package_version'', optional_text_field d ''package_digest'') of
           (Some r, Some v, Some op, Some t, Some ps, Some n, Some pv, Some g) \<Rightarrow>
             (let c = \<lparr>ic_runbook = r, ic_runbook_version = v, ic_operation = op, ic_target = t, ic_parameters = ps,
                       ic_package_name = n, ic_package_version = pv, ic_package_digest = g\<rparr>
              in if valid_contract c then Some c else None)
         | _ \<Rightarrow> None))"

definition contract_json :: "infrastructure_contract \<Rightarrow> json" where
  "contract_json c = JObj
     [(''runbook'', JStr (ic_runbook c)), (''runbook_version'', JStr (ic_runbook_version c)),
      (''operation'', JStr (ic_operation c)), (''target'', JStr (ic_target c)), (''parameters'', JObj (ic_parameters c)),
      (''package_name'', option_json JStr (ic_package_name c)),
      (''package_version'', option_json JStr (ic_package_version c)),
      (''package_digest'', option_json JStr (ic_package_digest c))]"

section \<open>Tickets\<close>

record ticket_payload =
  bt_schema_version :: int
  bt_task_id :: uuid
  bt_task_number :: string
  bt_attempt_number :: int
  bt_agent_id :: uuid
  bt_machine :: string
  bt_task_type :: string
  bt_risk_level :: int
  bt_plan_digest :: string
  bt_contract :: infrastructure_contract
  bt_nonce :: string
  bt_issued_at :: time
  bt_expires_at :: time

record broker_ticket =
  tk_payload :: ticket_payload
  tk_signature :: string

definition OBSERVATIONS :: "string list" where
  "OBSERVATIONS =
     [''observe-control-plane'', ''preflight-invariance-postgres'', ''verify-invariance-postgres'',
      ''prepare-invariance-cutover'', ''verify-docker-service'', ''verify-redis'', ''verify-storage'',
      ''verify-certificate'', ''verify-backup'', ''verify-service-health'']"

definition safe_task_number :: "string \<Rightarrow> bool" where
  "safe_task_number s = (length s \<le> 100 \<and> actor_name s)"

text \<open>The schema of a payload; its validator ties the task type to the operation.\<close>

definition valid_payload :: "ticket_payload \<Rightarrow> bool" where
  "valid_payload p =
     (bt_schema_version p = 1 \<and> safe_task_number (bt_task_number p) \<and> 1 \<le> bt_attempt_number p
      \<and> bt_machine p = ''vm2-deployment''
      \<and> bt_task_type p \<in> {''infrastructure_observation'', ''infrastructure_operation''}
      \<and> 0 \<le> bt_risk_level p \<and> bt_risk_level p \<le> 5 \<and> is_sha256_hex (bt_plan_digest p)
      \<and> valid_contract (bt_contract p) \<and> is_sha256_hex (bt_nonce p)
      \<and> bt_task_type p = (if ic_operation (bt_contract p) \<in> set OBSERVATIONS
                          then ''infrastructure_observation'' else ''infrastructure_operation'')
      \<and> bt_issued_at p < bt_expires_at p)"

text \<open>The text that is signed; \<open>dump_time\<close> is pydantic's text of an instant.\<close>

definition payload_json :: "(time \<Rightarrow> string) \<Rightarrow> ticket_payload \<Rightarrow> json" where
  "payload_json dump_time p = JObj
     [(''schema_version'', JInt (bt_schema_version p)), (''task_id'', juuid (bt_task_id p)),
      (''task_number'', JStr (bt_task_number p)), (''attempt_number'', JInt (bt_attempt_number p)),
      (''agent_id'', juuid (bt_agent_id p)), (''machine'', JStr (bt_machine p)), (''task_type'', JStr (bt_task_type p)),
      (''risk_level'', JInt (bt_risk_level p)), (''plan_digest'', JStr (bt_plan_digest p)),
      (''contract'', contract_json (bt_contract p)), (''nonce'', JStr (bt_nonce p)),
      (''issued_at'', JStr (dump_time (bt_issued_at p))), (''expires_at'', JStr (dump_time (bt_expires_at p)))]"

definition canonical_ticket :: "(time \<Rightarrow> string) \<Rightarrow> ticket_payload \<Rightarrow> string" where
  "canonical_ticket dump_time p = dumps (payload_json dump_time p)"

section \<open>Parameters of packaged operations\<close>

definition forbidden_chars :: "char list" where
  "forbidden_chars = [CHR 0x0A, CHR 0x0D] @ '';&|'' @ [CHR 0x60] @ ''$<>''"

definition validate_packaged_parameter :: "parameter_definition \<Rightarrow> json \<Rightarrow> unit res" where
  "validate_packaged_parameter p v =
     (if pd_type p = ''string''
      then (case v of
              JStr s \<Rightarrow>
                if s = [] \<or> list_ex (\<lambda>c. c \<in> set s) forbidden_chars then http 422 ''Unsafe string parameter.''
                else if pd_allowed_values p \<noteq> [] \<and> s \<notin> set (pd_allowed_values p)
                then http 422 ''Parameter is not allowlisted.'' else Inr ()
            | _ \<Rightarrow> http 422 ''Unsafe string parameter.'')
      else if pd_type p = ''boolean''
      then (case v of JBool _ \<Rightarrow> Inr () | _ \<Rightarrow> http 422 ''Boolean parameter required.'')
      else if pd_type p = ''integer''
      then (case v of
              JInt i \<Rightarrow>
                if (case pd_minimum p of None \<Rightarrow> False | Some l \<Rightarrow> i < l)
                   \<or> (case pd_maximum p of None \<Rightarrow> False | Some u \<Rightarrow> u < i)
                then http 422 ''Integer parameter out of range.'' else Inr ()
            | _ \<Rightarrow> http 422 ''Integer parameter required.'')
      else if pd_type p = ''cidr-list''
      then (case py_iter v of
              Inl _ \<Rightarrow> http 422 ''Invalid CIDR parameter.''
            | Inr items \<Rightarrow>
                if list_ex (\<lambda>x. ip_network x = None) items then http 422 ''Invalid CIDR parameter.''
                else if items = [] \<or> list_ex (\<lambda>x. \<not> narrow_network (the (ip_network x))) items
                then http 422 ''CIDR parameter is too broad.'' else Inr ())
      else http 422 ''Unknown parameter type.'')"

definition validate_packaged_parameters :: "(string \<times> parameter_definition) list \<Rightarrow> dict \<Rightarrow> unit res" where
  "validate_packaged_parameters definitions supplied =
     (if \<not> set (map fst supplied) \<subseteq> set (map fst definitions) then http 422 ''Unknown operation parameter.''
      else if list_ex (\<lambda>(name, p). pd_required p \<and> name \<notin> set (map fst supplied)) definitions
      then http 422 ''Required operation parameter missing.''
      else efold (\<lambda>(name, v) _.
             (case map_of definitions name of
                None \<Rightarrow> Inl (KeyError name) | Some p \<Rightarrow> validate_packaged_parameter p v)) supplied ())"

section \<open>Packaged operations\<close>

definition find_package :: "infrastructure_contract \<Rightarrow> bdb \<Rightarrow> runbook_package option" where
  "find_package c B =
     List.find (\<lambda>p. Some (rk_name p) = ic_package_name c \<and> Some (rk_version p) = ic_package_version c
                 \<and> Some (rk_manifest_digest p) = ic_package_digest c) (runbook_packages B)"

definition latest_promotion :: "uuid \<Rightarrow> bdb \<Rightarrow> runbook_promotion option" where
  "latest_promotion i B = (let ms = promotions_of i B in if ms = [] then None else Some (last ms))"

definition rehearsal_of :: "uuid \<Rightarrow> bdb \<Rightarrow> runbook_promotion option" where
  "rehearsal_of i B = List.find (\<lambda>m. rm_package_id m = i \<and> rm_state m = ''rehearsed'') (runbook_promotions B)"

definition operation_named :: "string \<Rightarrow> package_manifest \<Rightarrow> packaged_operation option" where
  "operation_named name m = map_of (rev (map (\<lambda>q. (oq_name q, q)) (km_operations m))) name"

definition validate_packaged_operation ::
  "infrastructure_contract \<Rightarrow> task \<Rightarrow> time \<Rightarrow> bdb \<Rightarrow> unit res" where
  "validate_packaged_operation c t now B =
     (case find_package c B of
        None \<Rightarrow> http 409 ''Runbook package is not registered.''
      | Some p \<Rightarrow>
          if (case latest_promotion (rk_id p) B of None \<Rightarrow> True | Some m \<Rightarrow> rm_state m \<notin> {''approved'', ''deployed''})
          then http 409 ''Runbook package is not approved.''
          else if (case rehearsal_of (rk_id p) B of
                     None \<Rightarrow> True
                   | Some m \<Rightarrow>
                       rm_recorded_at m + seconds (rh_max_evidence_age_hours (km_rehearsal (rk_manifest p)) * 3600) \<le> now)
          then http 409 ''Runbook rehearsal is stale.''
          else
            (case operation_named (ic_operation c) (rk_manifest p) of
               None \<Rightarrow> http 422 ''Operation is not in the package.''
             | Some q \<Rightarrow>
                 if oq_target_profile q \<noteq> ic_target c \<or> oq_task_type q \<noteq> t_task_type t \<or> oq_risk_level q \<noteq> t_risk_level t
                 then http 422 ''Task does not match package policy.''
                 else validate_packaged_parameters (oq_parameters q) (ic_parameters c)))"

section \<open>Issuing a ticket\<close>

definition risk_zero_operations :: "string list" where
  "risk_zero_operations =
     [''observe-control-plane'', ''preflight-invariance-postgres'', ''verify-invariance-postgres'',
      ''prepare-invariance-cutover'']"

definition risk_two_operations :: "string list" where
  "risk_two_operations = [''stage-invariance-postgres'']"

definition packaged :: "infrastructure_contract \<Rightarrow> bool" where
  "packaged c = (ic_runbook c = ''vm2-platform-operations'')"

definition ticket_risk :: "infrastructure_contract \<Rightarrow> task \<Rightarrow> unit res" where
  "ticket_risk c t =
     (if ic_operation c \<in> set risk_zero_operations
         \<and> t_risk_level t \<notin> (if packaged c then {0, 1} else {0})
      then http 422 ''Observation must use risk zero.''
      else if ic_operation c \<in> set risk_two_operations \<and> t_risk_level t \<noteq> 2
      then http 422 ''Operation must use risk two.''
      else if ic_operation c \<notin> set risk_zero_operations \<union> set risk_two_operations \<and> \<not> packaged c \<and> t_risk_level t \<noteq> 3
      then http 422 ''Operation must use risk three.''
      else Inr ())"

text \<open>A consumed, unexpired approval of the very plan.\<close>

definition plan_approved :: "time \<Rightarrow> task \<Rightarrow> db \<Rightarrow> bool" where
  "plan_approved now t d =
     (case List.find (\<lambda>a. ap_task_id a = t_id t) (approvals d) of
        None \<Rightarrow> False
      | Some a \<Rightarrow>
          ap_status a = ApprovalConsumed \<and> ap_plan_digest a = t_plan_digest t \<and> ap_consumed_at a \<noteq> None
          \<and> (case ap_expires_at a of None \<Rightarrow> False | Some e \<Rightarrow> now < e))"

definition ticket_nonce :: "uuid \<Rightarrow> int \<Rightarrow> string \<Rightarrow> string" where
  "ticket_nonce i attempt plan = sha256_hex (uuid_str i @ '':'' @ int_str attempt @ '':'' @ plan)"

definition new_payload :: "time \<Rightarrow> task \<Rightarrow> agent \<Rightarrow> infrastructure_contract \<Rightarrow> time \<Rightarrow> ticket_payload" where
  "new_payload now t ag c lease_expires =
     \<lparr>bt_schema_version = 1, bt_task_id = t_id t, bt_task_number = t_task_number t,
      bt_attempt_number = t_attempt_count t, bt_agent_id = a_id ag, bt_machine = a_machine ag,
      bt_task_type = t_task_type t, bt_risk_level = t_risk_level t, bt_plan_digest = t_plan_digest t,
      bt_contract = c, bt_nonce = ticket_nonce (t_id t) (t_attempt_count t) (t_plan_digest t), bt_issued_at = now,
      bt_expires_at = min lease_expires (now + seconds 60)\<rparr>"

definition signed_ticket :: "(time \<Rightarrow> string) \<Rightarrow> string \<Rightarrow> ticket_payload \<Rightarrow> broker_ticket" where
  "signed_ticket dump_time secret p =
     \<lparr>tk_payload = p, tk_signature = hmac_sha256_hex secret (canonical_ticket dump_time p)\<rparr>"

definition issue_broker_ticket ::
  "(time \<Rightarrow> string) \<Rightarrow> string \<Rightarrow> time \<Rightarrow> task \<Rightarrow> agent \<Rightarrow> bdb \<Rightarrow> broker_ticket res" where
  "issue_broker_ticket dump_time secret now t ag B =
     (if t_task_type t \<notin> {''infrastructure_observation'', ''infrastructure_operation''}
      then http 422 ''Task type cannot use the broker.''
      else
        (case contract_of (t_input_contract t) of
           None \<Rightarrow> http 422 ''Infrastructure contract is invalid.''
         | Some c \<Rightarrow>
             if 5 < t_risk_level t then http 422 ''Broker risk ceiling exceeded.''
             else
               ebind (if packaged c then validate_packaged_operation c t now B else Inr ()) (\<lambda>_.
                 ebind (ticket_risk c t) (\<lambda>_.
                   if 2 \<le> t_risk_level t \<and> \<not> plan_approved now t (base B)
                   then http 409 ''A consumed approval for this exact plan is required.''
                   else
                     (case t_lease_expires_at t of
                        None \<Rightarrow> http 409 ''Task lease has expired.''
                      | Some e \<Rightarrow>
                          if e \<le> now then http 409 ''Task lease has expired.''
                          else (let p = new_payload now t ag c e
                                in if \<not> valid_payload p then Inl (ValueError ''BrokerTicketPayload'')
                                   else Inr (signed_ticket dump_time secret p)))))))"

definition get_broker_ticket ::
  "(time \<Rightarrow> string) \<Rightarrow> string \<Rightarrow> string \<Rightarrow> time \<Rightarrow> agent \<Rightarrow> uuid \<Rightarrow> string \<Rightarrow> bdb \<Rightarrow> (broker_ticket \<times> bdb) res" where
  "get_broker_ticket dump_time key secret now ag i token B =
     (if token = '''' then Inl (ValueError ''lease_token'')
      else
        ebind (held_task key now ag i token [Running] (base B)) (\<lambda>t.
          ebind (issue_broker_ticket dump_time secret now t ag B) (\<lambda>tk.
            Inr (tk, B\<lparr>base := append_task_event now t ''broker_ticket_issued''
                         ''Issued a bounded infrastructure broker ticket.'' (Some (a_id ag))
                         [(''operation'', JStr (ic_operation (bt_contract (tk_payload tk)))),
                          (''expires_at'', jtime (bt_expires_at (tk_payload tk)))] (base B)\<rparr>))))"

section \<open>What a ticket stands for\<close>

text \<open>A package in force covers the operation of a contract.\<close>

definition package_covers :: "infrastructure_contract \<Rightarrow> task \<Rightarrow> time \<Rightarrow> bdb \<Rightarrow> runbook_package \<Rightarrow> packaged_operation \<Rightarrow> bool" where
  "package_covers c t now B p q \<longleftrightarrow>
     p \<in> set (runbook_packages B) \<and> ic_package_digest c = Some (rk_manifest_digest p)
     \<and> (\<exists>m. latest_promotion (rk_id p) B = Some m \<and> rm_state m \<in> {''approved'', ''deployed''})
     \<and> (\<exists>m. rehearsal_of (rk_id p) B = Some m
          \<and> now < rm_recorded_at m + seconds (rh_max_evidence_age_hours (km_rehearsal (rk_manifest p)) * 3600))
     \<and> q \<in> set (km_operations (rk_manifest p)) \<and> oq_name q = ic_operation c \<and> oq_target_profile q = ic_target c
     \<and> oq_task_type q = t_task_type t \<and> oq_risk_level q = t_risk_level t
     \<and> validate_packaged_parameters (oq_parameters q) (ic_parameters c) = Inr ()"

text \<open>An approval backs the plan of a task at an instant.\<close>

definition backs_plan :: "time \<Rightarrow> task \<Rightarrow> task_approval \<Rightarrow> bool" where
  "backs_plan now t a \<longleftrightarrow>
     ap_task_id a = t_id t \<and> ap_status a = ApprovalConsumed \<and> ap_plan_digest a = t_plan_digest t
     \<and> (\<exists>e. ap_expires_at a = Some e \<and> now < e)"

lemma plan_approved_backed: "plan_approved now t d \<Longrightarrow> \<exists>a\<in>set (approvals d). backs_plan now t a"
  by (auto simp: plan_approved_def backs_plan_def find_Some_iff split: option.split_asm)

lemma operation_named_Some: "operation_named name m = Some q \<Longrightarrow> q \<in> set (km_operations m) \<and> oq_name q = name"
  unfolding operation_named_def by (drule map_of_SomeD) auto

lemma packaged_operation_covered:
  assumes "validate_packaged_operation c t now B = Inr ()"
  shows "\<exists>p q. package_covers c t now B p q"
proof -
  obtain p m r q where p: "find_package c B = Some p" and m: "latest_promotion (rk_id p) B = Some m"
      "rm_state m \<in> {''approved'', ''deployed''}"
    and r: "rehearsal_of (rk_id p) B = Some r"
      "now < rm_recorded_at r + seconds (rh_max_evidence_age_hours (km_rehearsal (rk_manifest p)) * 3600)"
    and q: "operation_named (ic_operation c) (rk_manifest p) = Some q"
    and ok: "oq_target_profile q = ic_target c" "oq_task_type q = t_task_type t" "oq_risk_level q = t_risk_level t"
      "validate_packaged_parameters (oq_parameters q) (ic_parameters c) = Inr ()"
    using assms by (auto simp: validate_packaged_operation_def not_le simp del: insert_iff
        split: option.split_asm if_split_asm)
  have "p \<in> set (runbook_packages B)" "ic_package_digest c = Some (rk_manifest_digest p)"
    using p by (auto simp: find_package_def find_Some_iff)
  then show ?thesis unfolding package_covers_def using m r operation_named_Some[OF q] ok by blast
qed

lemma contract_of_valid: "contract_of d = Some c \<Longrightarrow> valid_contract c"
  by (auto simp: contract_of_def Let_def split: if_split_asm option.split_asm)

lemma issue_broker_ticket_Inr:
  assumes "issue_broker_ticket dump_time secret now t ag B = Inr tk"
  obtains c e where "contract_of (t_input_contract t) = Some c" "t_lease_expires_at t = Some e" "now < e"
    "packaged c \<longrightarrow> validate_packaged_operation c t now B = Inr ()" "ticket_risk c t = Inr ()"
    "2 \<le> t_risk_level t \<longrightarrow> plan_approved now t (base B)" "valid_payload (new_payload now t ag c e)"
    "tk = signed_ticket dump_time secret (new_payload now t ag c e)"
  using assms unfolding issue_broker_ticket_def
  by (auto simp: ebind_Inr_iff Let_def split: if_split_asm option.split_asm)

text \<open>
  Tickets (C27): a ticket is issued only to the agent that runs the task and holds its unexpired lease,
  for the contract of the task; it ends with the lease and after a minute at the latest and is
  signed. A consumed approval of the very plan backs it from risk two on, and whenever it is for an
  operation of the built-in runbooks that is not an observation. A packaged operation is part of a registered
  and approved package with a fresh rehearsal and has the target, type, risk and parameters the
  package declares.
\<close>

theorem ticket_sound:
  assumes "get_broker_ticket dump_time key secret now ag i token B = Inr (tk, B')"
  shows "\<exists>t c e. get_task i (base B) = Some t \<and> t_status t = Running \<and> t_assigned_agent_id t = Some (a_id ag)
    \<and> t_lease_token_digest t = Some (digest_task_lease_token key token) \<and> t_lease_expires_at t = Some e
    \<and> contract_of (t_input_contract t) = Some c
    \<and> tk = signed_ticket dump_time secret (new_payload now t ag c e)
    \<and> now < bt_expires_at (tk_payload tk) \<and> bt_expires_at (tk_payload tk) \<le> min e (now + seconds 60)
    \<and> (2 \<le> t_risk_level t \<longrightarrow> (\<exists>a\<in>set (approvals (base B)). backs_plan now t a))
    \<and> (\<not> packaged c \<longrightarrow> ic_parameters c = []
         \<and> (ic_operation c \<notin> set OBSERVATIONS \<longrightarrow> (\<exists>a\<in>set (approvals (base B)). backs_plan now t a)))
    \<and> (packaged c \<longrightarrow> (\<exists>p q. package_covers c t now B p q))
    \<and> tasks (base B') = tasks (base B) \<and> approvals (base B') = approvals (base B)"
proof -
  obtain t where held: "held_task key now ag i token [Running] (base B) = Inr t"
    and iss: "issue_broker_ticket dump_time secret now t ag B = Inr tk"
    and B': "tasks (base B') = tasks (base B)" "approvals (base B') = approvals (base B)"
    using assms by (auto simp: get_broker_ticket_def ebind_Inr_iff append_task_event_def split: if_split_asm)
  from iss obtain c e where c: "contract_of (t_input_contract t) = Some c" and e: "t_lease_expires_at t = Some e" "now < e"
    and p: "packaged c \<longrightarrow> validate_packaged_operation c t now B = Inr ()" and risk: "ticket_risk c t = Inr ()"
    and ap: "2 \<le> t_risk_level t \<longrightarrow> plan_approved now t (base B)" and vp: "valid_payload (new_payload now t ag c e)"
    and tk: "tk = signed_ticket dump_time secret (new_payload now t ag c e)"
    by (rule issue_broker_ticket_Inr)
  have lease: "get_task i (base B) = Some t" "t_status t = Running" "t_assigned_agent_id t = Some (a_id ag)"
      "t_lease_token_digest t = Some (digest_task_lease_token key token)"
    using held by (auto simp: held_task_iff holds_lease_def)
  have legacy: "ic_parameters c = []" if "\<not> packaged c"
    using contract_of_valid[OF c] that by (simp add: valid_contract_def attested_def packaged_def)
  have "2 \<le> t_risk_level t" if "\<not> packaged c" "ic_operation c \<notin> set OBSERVATIONS"
  proof -
    have "ic_operation c \<notin> set risk_zero_operations" using that(2) by (auto simp: OBSERVATIONS_def risk_zero_operations_def)
    then show ?thesis using risk that(1) by (auto simp: ticket_risk_def split: if_split_asm)
  qed
  then show ?thesis
    using lease e c tk plan_approved_backed[of now t "base B"] ap legacy packaged_operation_covered[of c t now B] p B'
    by (intro exI[of _ t] exI[of _ c] exI[of _ e]) (simp add: signed_ticket_def new_payload_def seconds_def)
qed

end
