(* ===== verification/Broker.thy ===== *)
theory Broker
  imports BrokerTickets
begin

text \<open>
  The privileged side of infrastructure operations in the worker
  (\<open>swarm_worker/infrastructure/broker.py\<close>, \<open>packages.py\<close>, the admission of \<open>service.py\<close> and the
  ticket schemas of \<open>models.py\<close>): the broker runs as root, accepts a ticket signed by the control
  plane once, and keeps the consumed tickets in a ledger file that survives restarts. What an
  admitted operation then does to the machine is not part of the model; \<open>parse\<close> is pydantic's
  reading of the fields of a document, and \<open>files\<close> says what the YAML file of a package contains.
\<close>

section \<open>Schemas of the worker\<close>

definition worker_attested :: "infrastructure_contract \<Rightarrow> bool" where
  "worker_attested c =
     ((ic_runbook c \<noteq> ''vm2-platform-operations'' \<longrightarrow> ic_parameters c = [])
      \<and> (if ic_runbook c = ''vm2-platform-operations''
         then list_all given [ic_package_name c, ic_package_version c, ic_package_digest c]
              \<and> ic_package_name c = Some (ic_runbook c)
         else \<not> list_ex given [ic_package_name c, ic_package_version c, ic_package_digest c]))"

definition worker_valid_contract :: "infrastructure_contract \<Rightarrow> bool" where
  "worker_valid_contract c =
     (ic_runbook c \<in> {''vm2-infrastructure'', ''vm2-postgres-deployment'', ''vm2-platform-operations''}
      \<and> ic_runbook_version c = ''1.0.0''
      \<and> ic_operation c
          \<in> {''observe-control-plane'', ''restart-control-plane-api'', ''preflight-invariance-postgres'',
             ''stage-invariance-postgres'', ''start-invariance-postgres-private'', ''initialize-invariance-schema'',
             ''configure-invariance-backups'', ''verify-invariance-postgres'', ''prepare-invariance-cutover'',
             ''verify-docker-service'', ''restart-docker-service'', ''verify-redis'', ''verify-storage'',
             ''verify-certificate'', ''verify-backup'', ''verify-service-health''}
      \<and> ic_target c \<in> {''vm2-control-plane'', ''vm2-invariance-postgres'', ''vm2-production''}
      \<and> optional_match (\<lambda>s. s \<noteq> [] \<and> list_all (\<lambda>x. lower_alnum x \<or> x = CHR ''-'') s) (ic_package_name c)
      \<and> optional_match package_version (ic_package_version c) \<and> optional_match is_sha256_hex (ic_package_digest c)
      \<and> worker_attested c)"

definition worker_valid_payload :: "ticket_payload \<Rightarrow> bool" where
  "worker_valid_payload p =
     (bt_schema_version p = 1 \<and> length (bt_task_number p) \<le> 100 \<and> actor_name (bt_task_number p)
      \<and> 1 \<le> bt_attempt_number p \<and> bt_machine p = ''vm2-deployment''
      \<and> bt_task_type p \<in> {''infrastructure_observation'', ''infrastructure_operation''}
      \<and> 0 \<le> bt_risk_level p \<and> bt_risk_level p \<le> 5 \<and> is_sha256_hex (bt_plan_digest p)
      \<and> worker_valid_contract (bt_contract p) \<and> is_sha256_hex (bt_nonce p)
      \<and> bt_task_type p
          = (if ic_operation (bt_contract p)
                \<in> {''observe-control-plane'', ''preflight-invariance-postgres'', ''verify-invariance-postgres'',
                   ''prepare-invariance-cutover'', ''verify-docker-service'', ''verify-redis'', ''verify-storage'',
                   ''verify-certificate'', ''verify-backup'', ''verify-service-health''}
             then ''infrastructure_observation'' else ''infrastructure_operation'')
      \<and> bt_issued_at p < bt_expires_at p)"

text \<open>An observation of the worker's packages has risk zero or one.\<close>

definition worker_valid_operation :: "packaged_operation \<Rightarrow> bool" where
  "worker_valid_operation q =
     (valid_packaged_operation q \<and> (oq_task_type q \<noteq> ''infrastructure_operation'' \<longrightarrow> oq_risk_level q \<le> 1))"

definition worker_valid_manifest :: "package_manifest \<Rightarrow> bool" where
  "worker_valid_manifest m = (valid_package_manifest m \<and> list_all worker_valid_operation (km_operations m))"

section \<open>Packages\<close>

text \<open>The manifest of a verified package; its digest is taken of its canonical text.\<close>

definition load_runbook_package :: "(string \<Rightarrow> package_manifest option) \<Rightarrow> string \<Rightarrow> package_manifest res" where
  "load_runbook_package files name =
     (if \<not> package_name name then conflict ''Runbook package name is unsafe.''
      else
        (case files name of
           None \<Rightarrow> conflict ''Runbook package is unavailable or invalid.''
         | Some m \<Rightarrow>
             if \<not> worker_valid_manifest m then conflict ''Runbook package is unavailable or invalid.''
             else if km_name m \<noteq> name then conflict ''Runbook package name does not match its file.''
             else Inr m))"

definition manifest_digest :: "package_manifest \<Rightarrow> string" where
  "manifest_digest m = sha256_hex (canonical_package m)"

definition safe_value :: "string \<Rightarrow> bool" where
  "safe_value s =
     (case s of
        [] \<Rightarrow> False
      | c # cs \<Rightarrow> alphanumeric c \<and> list_all (\<lambda>x. alphanumeric x \<or> x \<in> set ''._:/-'') cs \<and> length cs \<le> 254)"

definition parameter_error :: "string \<Rightarrow> string \<Rightarrow> unit res" where
  "parameter_error name problem = conflict (''Parameter '' @ repr_str name @ problem)"

definition validate_parameter :: "string \<Rightarrow> parameter_definition \<Rightarrow> json \<Rightarrow> unit res" where
  "validate_parameter name p v =
     (if pd_type p = ''boolean''
      then (case v of JBool _ \<Rightarrow> Inr () | _ \<Rightarrow> parameter_error name '' must be boolean.'')
      else if pd_type p = ''integer''
      then (case v of
              JInt i \<Rightarrow>
                if (case pd_minimum p of None \<Rightarrow> False | Some l \<Rightarrow> i < l) then parameter_error name '' is below its minimum.''
                else if (case pd_maximum p of None \<Rightarrow> False | Some u \<Rightarrow> u < i)
                then parameter_error name '' exceeds its maximum.'' else Inr ()
            | _ \<Rightarrow> parameter_error name '' must be an integer.'')
      else if pd_type p = ''cidr-list''
      then (case v of
              JList items \<Rightarrow>
                if items = [] then parameter_error name '' must be a CIDR list.''
                else if list_ex (\<lambda>x. ip_network x = None) items then parameter_error name '' contains invalid CIDR.''
                else if list_ex (\<lambda>x. \<not> narrow_network (the (ip_network x))) items
                then parameter_error name '' is too broad.'' else Inr ()
            | _ \<Rightarrow> parameter_error name '' must be a CIDR list.'')
      else (case v of
              JStr s \<Rightarrow>
                if \<not> safe_value s then parameter_error name '' is unsafe.''
                else if pd_allowed_values p \<noteq> [] \<and> s \<notin> set (pd_allowed_values p)
                then parameter_error name '' is not allowlisted.'' else Inr ()
            | _ \<Rightarrow> parameter_error name '' is unsafe.''))"

text \<open>The normalised parameters that the function returns are not used by its callers.\<close>

definition validate_parameters :: "packaged_operation \<Rightarrow> dict \<Rightarrow> unit res" where
  "validate_parameters q supplied =
     (if \<not> set (map fst supplied) \<subseteq> set (map fst (oq_parameters q))
         \<or> list_ex (\<lambda>(name, p). pd_required p \<and> name \<notin> set (map fst supplied)) (oq_parameters q)
      then conflict ''Operation parameters do not match the contract.''
      else efold (\<lambda>(name, v) _.
             (case map_of (oq_parameters q) name of
                None \<Rightarrow> Inl (KeyError name) | Some p \<Rightarrow> validate_parameter name p v)) supplied ())"

section \<open>Offline promotion records\<close>

record promotion_record =
  pr_package_name :: string
  pr_package_version :: string
  pr_manifest_digest :: string
  pr_state :: string
  pr_recorded_at :: time
  pr_recorded_by :: string
  pr_evidence_digest :: "string option"
  pr_approval_reference :: "string option"
  pr_previous_record_digest :: "string option"

definition valid_promotion_record :: "promotion_record \<Rightarrow> bool" where
  "valid_promotion_record r =
     (package_name (pr_package_name r) \<and> package_version (pr_package_version r) \<and> is_sha256_hex (pr_manifest_digest r)
      \<and> pr_state r \<in> {''draft'', ''rehearsed'', ''approved'', ''deployed''} \<and> text_between 1 100 (pr_recorded_by r)
      \<and> optional_match is_sha256_hex (pr_evidence_digest r) \<and> optional_match (text_between 1 150) (pr_approval_reference r)
      \<and> optional_match is_sha256_hex (pr_previous_record_digest r)
      \<and> (pr_state r \<noteq> ''draft'' \<longrightarrow> pr_evidence_digest r \<noteq> None)
      \<and> (pr_state r \<in> {''approved'', ''deployed''} \<longrightarrow> given (pr_approval_reference r)))"

definition promotion_record_json :: "(time \<Rightarrow> string) \<Rightarrow> promotion_record \<Rightarrow> json" where
  "promotion_record_json dump_time r = JObj
     [(''package_name'', JStr (pr_package_name r)), (''package_version'', JStr (pr_package_version r)),
      (''manifest_digest'', JStr (pr_manifest_digest r)), (''state'', JStr (pr_state r)),
      (''recorded_at'', JStr (dump_time (pr_recorded_at r))), (''recorded_by'', JStr (pr_recorded_by r)),
      (''evidence_digest'', option_json JStr (pr_evidence_digest r)),
      (''approval_reference'', option_json JStr (pr_approval_reference r)),
      (''previous_record_digest'', option_json JStr (pr_previous_record_digest r))]"

definition promotion_digest :: "(time \<Rightarrow> string) \<Rightarrow> promotion_record \<Rightarrow> string" where
  "promotion_digest dump_time r = digest_json (promotion_record_json dump_time r)"

text \<open>\<open>states[states.index(previous) + 1]\<close> for a state that is not the last.\<close>

definition next_promotion :: "string \<Rightarrow> string" where
  "next_promotion s = STATES ! Suc (length (takeWhile (\<lambda>x. x \<noteq> s) STATES))"

definition promote_package ::
  "(time \<Rightarrow> string) \<Rightarrow> package_manifest \<Rightarrow> string \<Rightarrow> time \<Rightarrow> string \<Rightarrow> promotion_record option \<Rightarrow> string option \<Rightarrow> string option
     \<Rightarrow> promotion_record res" where
  "promote_package dump_time m state recorded_at recorded_by previous evidence reference =
     (if (case previous of None \<Rightarrow> False | Some r \<Rightarrow> pr_state r = ''deployed'')
      then conflict ''A deployed package has no further promotion state.''
      else if state \<noteq> (case previous of None \<Rightarrow> ''draft'' | Some r \<Rightarrow> next_promotion (pr_state r))
      then conflict ''Runbook package promotion must be sequential.''
      else if (case previous of
                 None \<Rightarrow> False
               | Some r \<Rightarrow> pr_package_name r \<noteq> km_name m \<or> pr_package_version r \<noteq> km_version m
                   \<or> pr_manifest_digest r \<noteq> manifest_digest m)
      then conflict ''Promotion record does not match package digest.''
      else (let r = \<lparr>pr_package_name = km_name m, pr_package_version = km_version m, pr_manifest_digest = manifest_digest m,
                     pr_state = state, pr_recorded_at = recorded_at, pr_recorded_by = recorded_by,
                     pr_evidence_digest = evidence, pr_approval_reference = reference,
                     pr_previous_record_digest = map_option (promotion_digest dump_time) previous\<rparr>
            in if valid_promotion_record r then Inr r else Inl (ValueError ''PromotionRecord'')))"

text \<open>A record follows the state before it, names the digest of that record and carries its evidence.\<close>

lemma next_promotion_nth: "k < 3 \<Longrightarrow> next_promotion (STATES ! k) = STATES ! Suc k"
  by (auto simp: next_promotion_def STATES_def less_Suc_eq numeral_3_eq_3)

lemma promote_package_Inr:
  assumes "promote_package dump_time m state at who previous evidence reference = Inr r"
  shows "pr_state r = (case previous of None \<Rightarrow> ''draft'' | Some p \<Rightarrow> next_promotion (pr_state p))
    \<and> pr_previous_record_digest r = map_option (promotion_digest dump_time) previous
    \<and> (\<forall>p. previous = Some p \<longrightarrow> pr_manifest_digest p = pr_manifest_digest r \<and> pr_state p \<noteq> ''deployed'')
    \<and> pr_manifest_digest r = manifest_digest m \<and> valid_promotion_record r"
  using assms by (cases previous) (auto simp: promote_package_def Let_def simp del: insert_iff split: if_split_asm)

section \<open>The broker\<close>

text \<open>The consumed nonces in memory, and the content of the ledger file.\<close>

record broker =
  br_consumed :: "string list"
  br_ledger :: "json option"

definition json_text :: "json \<Rightarrow> string option" where
  "json_text v = (case v of JStr s \<Rightarrow> Some s | _ \<Rightarrow> None)"

definition load_ledger :: "json option \<Rightarrow> string list res" where
  "load_ledger file =
     (case file of
        None \<Rightarrow> Inr []
      | Some (JList xs) \<Rightarrow>
          if list_ex (\<lambda>v. json_text v = None) xs then conflict ''Broker replay ledger is invalid.''
          else Inr (remdups (map (the \<circ> json_text) xs))
      | Some _ \<Rightarrow> conflict ''Broker replay ledger is invalid.'')"

text \<open>The constructor, for the user that runs the process and the ledger it finds.\<close>

definition start_broker :: "int \<Rightarrow> string \<Rightarrow> json option \<Rightarrow> broker res" where
  "start_broker uid secret content =
     (if length secret < 32 then conflict ''Broker secret is unavailable or too short.''
      else if uid \<noteq> 0 then conflict ''Infrastructure broker must run as root.''
      else ebind (load_ledger content) (\<lambda>ns. Inr \<lparr>br_consumed = ns, br_ledger = content\<rparr>))"

text \<open>
  \<open>_consume\<close>: the ledger is written to another file that then replaces it; where that fails the
  nonce is consumed in memory only.
\<close>

definition consume :: "bool \<Rightarrow> string \<Rightarrow> broker \<Rightarrow> unit res \<times> broker" where
  "consume written nonce b =
     (let consumed = (if nonce \<in> set (br_consumed b) then br_consumed b else br_consumed b @ [nonce])
      in if written then (Inr (), \<lparr>br_consumed = consumed, br_ledger = Some (jstrs (sort consumed))\<rparr>)
         else (Inl OSError, b\<lparr>br_consumed := consumed\<rparr>))"

definition LEGACY_OPERATIONS :: "(string \<times> string \<times> int) list" where
  "LEGACY_OPERATIONS =
     [(''observe-control-plane'', ''infrastructure_observation'', 0),
      (''restart-control-plane-api'', ''infrastructure_operation'', 3),
      (''preflight-invariance-postgres'', ''infrastructure_observation'', 0),
      (''stage-invariance-postgres'', ''infrastructure_operation'', 2),
      (''start-invariance-postgres-private'', ''infrastructure_operation'', 3),
      (''initialize-invariance-schema'', ''infrastructure_operation'', 3),
      (''configure-invariance-backups'', ''infrastructure_operation'', 3),
      (''verify-invariance-postgres'', ''infrastructure_observation'', 0),
      (''prepare-invariance-cutover'', ''infrastructure_observation'', 0)]"

definition validate_operation :: "(string \<Rightarrow> package_manifest option) \<Rightarrow> ticket_payload \<Rightarrow> unit res" where
  "validate_operation files p =
     (let c = bt_contract p
      in if ic_runbook c = ''vm2-platform-operations''
         then
           (case load_runbook_package files (case ic_package_name c of None \<Rightarrow> '''' | Some n \<Rightarrow> n) of
              Inl _ \<Rightarrow> conflict ''Packaged operation is not locally approved.''
            | Inr m \<Rightarrow>
                (case List.find (\<lambda>q. oq_name q = ic_operation c) (km_operations m) of
                   None \<Rightarrow> conflict ''Packaged operation is not locally approved.''
                 | Some q \<Rightarrow>
                     (case validate_parameters q (ic_parameters c) of
                        Inl _ \<Rightarrow> conflict ''Packaged operation is not locally approved.''
                      | Inr _ \<Rightarrow>
                          if ic_package_version c \<noteq> Some (km_version m) \<or> ic_package_digest c \<noteq> Some (manifest_digest m)
                             \<or> ic_target c \<noteq> oq_target_profile q \<or> bt_machine p \<noteq> ''vm2-deployment''
                             \<or> bt_task_type p \<noteq> oq_task_type q \<or> bt_risk_level p \<noteq> oq_risk_level q
                          then conflict ''Ticket does not match packaged operation policy.'' else Inr ())))
         else
           (case map_of LEGACY_OPERATIONS (ic_operation c) of
              None \<Rightarrow> Inl (KeyError (ic_operation c))
            | Some (task_type, risk) \<Rightarrow>
                if bt_machine p \<noteq> ''vm2-deployment'' \<or> bt_task_type p \<noteq> task_type \<or> bt_risk_level p \<noteq> risk
                   \<or> ic_parameters c \<noteq> []
                then conflict ''Ticket does not match the reviewed operation.'' else Inr ()))"

text \<open>
  \<open>execute\<close>: the answer is the payload whose operation is then run; \<open>written\<close> says whether the ledger
  can be written.
\<close>

definition execute ::
  "(time \<Rightarrow> string) \<Rightarrow> (json \<Rightarrow> broker_ticket option) \<Rightarrow> (string \<Rightarrow> package_manifest option) \<Rightarrow> bool \<Rightarrow> string \<Rightarrow> time \<Rightarrow> json
     \<Rightarrow> broker \<Rightarrow> ticket_payload res \<times> broker" where
  "execute dump_time parse files written secret now doc b =
     (case parse doc of
        None \<Rightarrow> (conflict ''Broker ticket is invalid.'', b)
      | Some tk \<Rightarrow>
          (let p = tk_payload tk
           in if \<not> worker_valid_payload p \<or> \<not> is_sha256_hex (tk_signature tk)
              then (conflict ''Broker ticket is invalid.'', b)
              else if hmac_sha256_hex secret (dumps (payload_json dump_time p)) \<noteq> tk_signature tk
              then (conflict ''Broker ticket signature is invalid.'', b)
              else if bt_expires_at p \<le> now then (conflict ''Broker ticket has expired.'', b)
              else if bt_nonce p \<in> set (br_consumed b) then (conflict ''Broker ticket was already consumed.'', b)
              else
                (case validate_operation files p of
                   Inl x \<Rightarrow> (Inl x, b)
                 | Inr _ \<Rightarrow>
                     (case consume written (bt_nonce p) b of
                        (Inl x, b') \<Rightarrow> (Inl x, b')
                      | (Inr _, b') \<Rightarrow> (Inr p, b')))))"

section \<open>The unprivileged service\<close>

record operation_definition =
  od_name :: string
  od_task_type :: string
  od_target :: string
  od_risk_level :: int

text \<open>What the service knows of itself: the role package, and the identity at the control plane.\<close>

record infrastructure_service =
  is_task_types :: "string list"
  is_operations :: "operation_definition list"
  is_packages :: "string list"
  is_capabilities :: "string list"
  is_risk_ceiling :: int

text \<open>The operations of the attested packages; a later entry replaces an earlier one of the same name.\<close>

fun packaged_operations ::
  "(string \<Rightarrow> package_manifest option) \<Rightarrow> string list \<Rightarrow> ((string \<times> packaged_operation \<times> package_manifest) list) res" where
  "packaged_operations files [] = Inr []"
| "packaged_operations files (name # names) =
     ebind (load_runbook_package files name) (\<lambda>m.
       ebind (packaged_operations files names) (\<lambda>rest.
         Inr (rest @ rev (map (\<lambda>q. (oq_name q, q, m)) (km_operations m)))))"

definition policy_mismatch :: "infrastructure_contract \<Rightarrow> task \<Rightarrow> packaged_operation \<Rightarrow> package_manifest \<Rightarrow> bool" where
  "policy_mismatch c t q m \<longleftrightarrow>
     ic_package_name c \<noteq> Some (km_name m) \<or> ic_package_version c \<noteq> Some (km_version m)
     \<or> ic_package_digest c \<noteq> Some (manifest_digest m) \<or> ic_target c \<noteq> oq_target_profile q
     \<or> t_task_type t \<noteq> oq_task_type q \<or> t_risk_level t \<noteq> oq_risk_level q"

text \<open>The type and risk that the operation of a contract has to have.\<close>

definition expected_policy ::
  "(string \<times> packaged_operation \<times> package_manifest) list \<Rightarrow> infrastructure_contract \<Rightarrow> task \<Rightarrow> (string \<times> int) res" where
  "expected_policy ops c t =
     (if ic_runbook c = ''vm2-platform-operations''
      then
        (case map_of ops (ic_operation c) of
           None \<Rightarrow> conflict ''Packaged operation is unavailable.''
         | Some (q, m) \<Rightarrow>
             if policy_mismatch c t q m then conflict ''Task does not match packaged operation policy.''
             else (case validate_parameters q (ic_parameters c) of
                     Inl _ \<Rightarrow> conflict ''Packaged operation parameters are invalid.''
                   | Inr _ \<Rightarrow> Inr (oq_task_type q, oq_risk_level q)))
      else
        (case map_of LEGACY_OPERATIONS (ic_operation c) of
           None \<Rightarrow> conflict ''Operation requires an attested runbook package.''
         | Some e \<Rightarrow> Inr e))"

text \<open>The definition that a runbook of the role gives, or for packages the expectation itself.\<close>

definition runbook_definition ::
  "infrastructure_service \<Rightarrow> infrastructure_contract \<Rightarrow> string \<times> int \<Rightarrow> (string \<times> int \<times> string) option" where
  "runbook_definition s c expected =
     (if ic_runbook c = ''vm2-platform-operations'' then Some (fst expected, snd expected, ic_target c)
      else map_of (rev (map (\<lambda>d. (od_name d, od_task_type d, od_risk_level d, od_target d)) (is_operations s))) (ic_operation c))"

definition validate_task ::
  "(string \<times> packaged_operation \<times> package_manifest) list \<Rightarrow> infrastructure_service \<Rightarrow> task \<Rightarrow> infrastructure_contract res" where
  "validate_task ops s t =
     (if t_task_type t \<notin> set (is_task_types s) then conflict ''Task type is not in role package.''
      else
        (case contract_of (t_input_contract t) of
           None \<Rightarrow> conflict ''Infrastructure contract is invalid.''
         | Some c \<Rightarrow>
             ebind (expected_policy ops c t) (\<lambda>expected.
               if runbook_definition s c expected \<noteq> Some (fst expected, snd expected, ic_target c)
                  \<or> t_task_type t \<noteq> fst expected \<or> t_risk_level t \<noteq> snd expected
                  \<or> t_allowed_machines t \<noteq> [''vm2-deployment'']
                  \<or> \<not> set (t_required_capabilities t) \<subseteq> set (is_capabilities s)
                  \<or> is_risk_ceiling s < t_risk_level t \<or> t_attempt_count t < 1
               then conflict ''Task does not match operation policy.'' else Inr c)))"

section \<open>The two schemas agree\<close>

lemma worker_schema_agrees: "worker_valid_payload p = valid_payload p"
proof -
  have "worker_attested c = attested c" for c by (auto simp: worker_attested_def attested_def)
  then have "worker_valid_contract c = valid_contract c" for c
    unfolding worker_valid_contract_def valid_contract_def RUNBOOKS_def OPERATIONS_def TARGETS_def by simp
  then show ?thesis
    unfolding worker_valid_payload_def valid_payload_def safe_task_number_def OBSERVATIONS_def by auto
qed

lemma load_ledger_written: "load_ledger (Some (jstrs ns)) = Inr (remdups ns)"
proof -
  have "\<not> list_ex (\<lambda>v. json_text v = None) (map JStr ns)" by (induction ns) (simp_all add: json_text_def)
  moreover have "map (the \<circ> json_text) (map JStr ns) = ns" by (induction ns) (simp_all add: json_text_def)
  ultimately show ?thesis by (simp add: load_ledger_def jstrs_def)
qed

lemma start_broker_Inr:
  "start_broker uid secret content = Inr b \<longleftrightarrow>
     32 \<le> length secret \<and> uid = 0
     \<and> (\<exists>ns. load_ledger content = Inr ns \<and> b = \<lparr>br_consumed = ns, br_ledger = content\<rparr>)"
  by (auto simp: start_broker_def ebind_Inr_iff)

section \<open>A ticket is executed at most once\<close>

text \<open>Requests and restarts; the trace are the payloads whose operations were run.\<close>

inductive broker_run ::
  "(time \<Rightarrow> string) \<Rightarrow> (json \<Rightarrow> broker_ticket option) \<Rightarrow> string \<Rightarrow> broker \<Rightarrow> ticket_payload list \<Rightarrow> bool"
  for dump_time parse secret where
  start: "start_broker uid secret content = Inr b \<Longrightarrow> broker_run dump_time parse secret b []"
| request: "broker_run dump_time parse secret b ps \<Longrightarrow>
    execute dump_time parse files written secret now doc b = (r, b') \<Longrightarrow>
    broker_run dump_time parse secret b' (case r of Inl _ \<Rightarrow> ps | Inr p \<Rightarrow> ps @ [p])"
| restart: "broker_run dump_time parse secret b ps \<Longrightarrow> start_broker uid secret (br_ledger b) = Inr b' \<Longrightarrow>
    broker_run dump_time parse secret b' ps"

text \<open>A payload whose operation is reviewed: with the type and the risk of the table or of a local package.\<close>

definition reviewed_payload :: "ticket_payload \<Rightarrow> bool" where
  "reviewed_payload p \<longleftrightarrow>
     worker_valid_payload p
     \<and> (if packaged (bt_contract p)
        then \<exists>m q. worker_valid_manifest m \<and> ic_package_digest (bt_contract p) = Some (manifest_digest m)
               \<and> q \<in> set (km_operations m) \<and> oq_name q = ic_operation (bt_contract p)
               \<and> bt_task_type p = oq_task_type q \<and> bt_risk_level p = oq_risk_level q
               \<and> validate_parameters q (ic_parameters (bt_contract p)) = Inr ()
        else map_of LEGACY_OPERATIONS (ic_operation (bt_contract p)) = Some (bt_task_type p, bt_risk_level p))"

lemma load_runbook_package_Inr:
  "load_runbook_package files name = Inr m \<longleftrightarrow>
     package_name name \<and> files name = Some m \<and> worker_valid_manifest m \<and> km_name m = name"
  by (auto simp: load_runbook_package_def split: option.split)

lemma validated_operation:
  assumes "validate_operation files p = Inr ()" and "worker_valid_payload p"
  shows "reviewed_payload p"
proof (cases "packaged (bt_contract p)")
  case True
  then have runbook: "ic_runbook (bt_contract p) = ''vm2-platform-operations''" by (simp add: packaged_def)
  obtain m q name where "load_runbook_package files name = Inr m"
      "List.find (\<lambda>q. oq_name q = ic_operation (bt_contract p)) (km_operations m) = Some q"
      "validate_parameters q (ic_parameters (bt_contract p)) = Inr ()"
      "ic_package_digest (bt_contract p) = Some (manifest_digest m)" "bt_task_type p = oq_task_type q"
      "bt_risk_level p = oq_risk_level q"
    using assms(1) unfolding validate_operation_def Let_def if_P[OF runbook]
    by (auto split: sum.split_asm option.split_asm if_split_asm)
  then show ?thesis
    using True assms(2) unfolding reviewed_payload_def load_runbook_package_Inr find_Some_iff by (metis nth_mem)
next
  case False
  then show ?thesis
    using assms
    by (auto simp: validate_operation_def Let_def reviewed_payload_def packaged_def split: option.split_asm if_split_asm)
qed

text \<open>Whatever was run is in the ledger, and whatever is in the ledger is known in memory.\<close>

definition ledger_covers :: "broker \<Rightarrow> ticket_payload list \<Rightarrow> bool" where
  "ledger_covers b ps \<longleftrightarrow>
     (\<exists>ns. load_ledger (br_ledger b) = Inr ns \<and> bt_nonce ` set ps \<subseteq> set ns \<and> set ns \<subseteq> set (br_consumed b))
     \<and> distinct (map bt_nonce ps) \<and> list_all reviewed_payload ps"

lemma execute_cases:
  assumes "execute dump_time parse files written secret now doc b = (r, b')"
  obtains (refused) x where "r = Inl x" "b' = b"
  | (unwritten) n where "r = Inl OSError" "b' = snd (consume False n b)"
  | (run) tk where "parse doc = Some tk" "r = Inr (tk_payload tk)" "worker_valid_payload (tk_payload tk)"
      "tk_signature tk = hmac_sha256_hex secret (canonical_ticket dump_time (tk_payload tk))"
      "now < bt_expires_at (tk_payload tk)" "bt_nonce (tk_payload tk) \<notin> set (br_consumed b)"
      "validate_operation files (tk_payload tk) = Inr ()" "b' = snd (consume True (bt_nonce (tk_payload tk)) b)"
proof (cases "parse doc")
  case None
  then show ?thesis using assms by (intro refused) (auto simp: execute_def)
next
  case (Some tk)
  define ok where "ok \<longleftrightarrow> worker_valid_payload (tk_payload tk) \<and> is_sha256_hex (tk_signature tk)
    \<and> hmac_sha256_hex secret (dumps (payload_json dump_time (tk_payload tk))) = tk_signature tk
    \<and> now < bt_expires_at (tk_payload tk) \<and> bt_nonce (tk_payload tk) \<notin> set (br_consumed b)
    \<and> validate_operation files (tk_payload tk) = Inr ()"
  show ?thesis
  proof (cases ok)
    case False
    then have "\<exists>x. r = Inl x \<and> b' = b"
      using assms unfolding execute_def Some ok_def Let_def option.case
      by (auto split: sum.split_asm if_split_asm)
    then show ?thesis using refused by blast
  next
    case True
    have "(r, b') = (case consume written (bt_nonce (tk_payload tk)) b of
        (Inl x, b') \<Rightarrow> (Inl x, b') | (Inr _, b') \<Rightarrow> (Inr (tk_payload tk), b'))"
      using assms True unfolding execute_def Some ok_def Let_def by simp
    then show ?thesis
      using unwritten[of "bt_nonce (tk_payload tk)"] run[of tk] Some True unfolding ok_def canonical_ticket_def
      by (cases written) (simp_all add: consume_def Let_def)
  qed
qed

lemma ledger_covers_run: "broker_run dump_time parse secret b ps \<Longrightarrow> ledger_covers b ps"
proof (induction rule: broker_run.induct)
  case (start uid content b)
  then show ?case by (auto simp: start_broker_Inr ledger_covers_def)
next
  case (request b ps files written now doc r b')
  from request.hyps(2) show ?case
  proof (cases rule: execute_cases)
    case (refused x)
    then show ?thesis using request.IH by simp
  next
    case (unwritten n)
    then show ?thesis using request.IH by (auto simp: ledger_covers_def consume_def Let_def)
  next
    case (run tk)
    then show ?thesis
      using request.IH load_ledger_written validated_operation[OF run(7,3)]
      by (auto simp: ledger_covers_def consume_def Let_def)
  qed
next
  case (restart b ps uid b')
  then show ?case by (auto simp: start_broker_Inr ledger_covers_def)
qed

text \<open>
  At most once (C28): in every history of requests and restarts of the broker, with whatever documents,
  package files and failures to write the ledger, only reviewed operations are run and no two for the
  same nonce; so of all the tickets issued for an attempt of a task on its plan at most one is ever
  run.
\<close>

theorem broker_runs_once:
  assumes "broker_run dump_time parse secret b ps"
  shows "distinct (map bt_nonce ps) \<and> list_all reviewed_payload ps
    \<and> (\<forall>i attempt plan. length (filter (\<lambda>p. bt_nonce p = ticket_nonce i attempt plan) ps) \<le> 1)"
proof -
  have d: "distinct (map bt_nonce ps)" and r: "list_all reviewed_payload ps"
    using ledger_covers_run[OF assms] by (simp_all add: ledger_covers_def)
  have "length (filter (\<lambda>p. bt_nonce p = n) ps) \<le> 1" for n
    using d
  proof (induction ps)
    case (Cons p ps)
    have "bt_nonce p = n \<Longrightarrow> filter (\<lambda>p. bt_nonce p = n) ps = []"
      using Cons.prems by (simp add: filter_empty_conv image_iff) metis
    then show ?case using Cons by simp
  qed simp
  then show ?thesis using d r by blast
qed

section \<open>The checks of the two sides fit together\<close>

lemma alphanumeric_allowed: "alphanumeric c \<Longrightarrow> c \<notin> set forbidden_chars"
  by (auto simp: alphanumeric_def forbidden_chars_def)

lemma safe_value_allowed:
  assumes "safe_value s"
  shows "s \<noteq> [] \<and> \<not> list_ex (\<lambda>c. c \<in> set s) forbidden_chars"
proof -
  have "c \<notin> set forbidden_chars" if "c \<in> set s" for c
  proof -
    have "alphanumeric c \<or> c \<in> set ''._:/-''" using assms that by (auto simp: safe_value_def list_all_iff split: list.split_asm)
    then show ?thesis using alphanumeric_allowed by (auto simp: forbidden_chars_def)
  qed
  then show ?thesis using assms by (auto simp: list_ex_iff safe_value_def split: list.split_asm)
qed

lemma validate_parameter_stricter:
  assumes "validate_parameter name p v = Inr ()" and "valid_parameter_definition p"
  shows "validate_packaged_parameter p v = Inr ()"
proof -
  consider "pd_type p = ''boolean''" | "pd_type p = ''integer''" | "pd_type p = ''cidr-list''" | "pd_type p = ''string''"
    using assms(2) by (auto simp: valid_parameter_definition_def)
  then show ?thesis
  proof cases
    case 4
    then obtain s where "v = JStr s" "safe_value s" "pd_allowed_values p \<noteq> [] \<longrightarrow> s \<in> set (pd_allowed_values p)"
      using assms(1) by (auto simp: validate_parameter_def parameter_error_def split: json.split_asm if_split_asm)
    then show ?thesis using 4 safe_value_allowed by (auto simp: validate_packaged_parameter_def)
  qed (use assms(1) in \<open>auto simp: validate_parameter_def validate_packaged_parameter_def parameter_error_def
      split: json.split_asm if_split_asm\<close>)
qed

lemma efold_weaken:
  assumes "efold (\<lambda>x _. f x) xs () = Inr ()" and "\<And>x. x \<in> set xs \<Longrightarrow> f x = Inr () \<Longrightarrow> g x = Inr ()"
  shows "efold (\<lambda>x _. g x) xs () = Inr ()"
  using assms by (induction xs) (auto simp: ebind_Inr_iff)

text \<open>
  Parameters: whatever parameters the broker accepts for an operation of a package the control plane
  accepts as well, so what the machine's own copy of the package allows is never more than what the
  registered one does.
\<close>

theorem broker_parameters_stricter:
  assumes "validate_parameters q supplied = Inr ()" and "valid_packaged_operation q"
  shows "validate_packaged_parameters (oq_parameters q) supplied = Inr ()"
proof -
  have names: "set (map fst supplied) \<subseteq> set (map fst (oq_parameters q))"
      "\<not> list_ex (\<lambda>(name, p). pd_required p \<and> name \<notin> set (map fst supplied)) (oq_parameters q)"
    and each: "efold (\<lambda>x _. case x of (name, v) \<Rightarrow>
        (case map_of (oq_parameters q) name of None \<Rightarrow> Inl (KeyError name) | Some p \<Rightarrow> validate_parameter name p v)) supplied ()
      = Inr ()"
    using assms(1) by (simp_all add: validate_parameters_def case_prod_unfold split: if_split_asm)
  have "efold (\<lambda>x _. case x of (name, v) \<Rightarrow>
        (case map_of (oq_parameters q) name of None \<Rightarrow> Inl (KeyError name) | Some p \<Rightarrow> validate_packaged_parameter p v)) supplied ()
      = Inr ()"
  proof (rule efold_weaken[OF each])
    fix x
    assume "(case x of (name, v) \<Rightarrow>
        (case map_of (oq_parameters q) name of None \<Rightarrow> Inl (KeyError name) | Some p \<Rightarrow> validate_parameter name p v)) = Inr ()"
    then obtain name v p where x: "x = (name, v)" "map_of (oq_parameters q) name = Some p" "validate_parameter name p v = Inr ()"
      by (cases x) (auto split: option.split_asm)
    have "valid_parameter_definition p"
      using assms(2) map_of_SomeD[OF x(2)] by (auto simp: valid_packaged_operation_def list_all_iff)
    then show "(case x of (name, v) \<Rightarrow>
        (case map_of (oq_parameters q) name of None \<Rightarrow> Inl (KeyError name) | Some p \<Rightarrow> validate_packaged_parameter p v)) = Inr ()"
      using x validate_parameter_stricter by simp
  qed
  then show ?thesis using names by (simp add: validate_packaged_parameters_def case_prod_unfold)
qed

lemma legacy_risk:
  assumes "ticket_risk c t = Inr ()" and "\<not> packaged c" and "ic_operation c \<in> fst ` set LEGACY_OPERATIONS"
  shows "map_of LEGACY_OPERATIONS (ic_operation c)
    = Some (if ic_operation c \<in> set OBSERVATIONS then ''infrastructure_observation'' else ''infrastructure_operation'',
            t_risk_level t)"
proof -
  have "t_risk_level t = 0" if "ic_operation c \<in> set risk_zero_operations"
    using assms(1,2) that by (simp add: ticket_risk_def split: if_split_asm)
  moreover have "t_risk_level t = 2" if "ic_operation c = ''stage-invariance-postgres''"
    using assms(1) that by (simp add: ticket_risk_def risk_two_operations_def split: if_split_asm)
  moreover have "t_risk_level t = 3"
    if "ic_operation c \<notin> set risk_zero_operations" "ic_operation c \<noteq> ''stage-invariance-postgres''"
    using assms(1,2) that by (simp add: ticket_risk_def risk_two_operations_def split: if_split_asm)
  ultimately show ?thesis
    using assms(3) by (auto simp: LEGACY_OPERATIONS_def OBSERVATIONS_def risk_zero_operations_def)
qed

lemma new_payload_simps [simp]:
  "bt_contract (new_payload now t ag c e) = c" "bt_risk_level (new_payload now t ag c e) = t_risk_level t"
  "bt_task_type (new_payload now t ag c e) = t_task_type t" "bt_machine (new_payload now t ag c e) = a_machine ag"
  "bt_nonce (new_payload now t ag c e) = ticket_nonce (t_id t) (t_attempt_count t) (t_plan_digest t)"
  by (simp_all add: new_payload_def)

lemma issued_ticket_valid:
  assumes "issue_broker_ticket dump_time secret now t ag B = Inr tk"
    and "\<not> packaged (bt_contract (tk_payload tk))" and "ic_operation (bt_contract (tk_payload tk)) \<in> fst ` set LEGACY_OPERATIONS"
  shows "validate_operation files (tk_payload tk) = Inr ()"
proof -
  from assms(1) obtain c e where c: "contract_of (t_input_contract t) = Some c" and "t_lease_expires_at t = Some e"
      "now < e" "packaged c \<longrightarrow> validate_packaged_operation c t now B = Inr ()" and risk: "ticket_risk c t = Inr ()"
    and "2 \<le> t_risk_level t \<longrightarrow> plan_approved now t (base B)" and v: "valid_payload (new_payload now t ag c e)"
    and tk: "tk = signed_ticket dump_time secret (new_payload now t ag c e)"
    by (rule issue_broker_ticket_Inr)
  have p: "tk_payload tk = new_payload now t ag c e" by (simp add: tk signed_ticket_def)
  have legacy: "\<not> packaged c" "ic_operation c \<in> fst ` set LEGACY_OPERATIONS" using assms(2,3) by (simp_all add: p)
  have "a_machine ag = ''vm2-deployment''"
      "t_task_type t = (if ic_operation c \<in> set OBSERVATIONS then ''infrastructure_observation'' else ''infrastructure_operation'')"
    using v by (simp_all add: valid_payload_def)
  moreover have "ic_parameters c = []"
    using contract_of_valid[OF c] legacy(1) by (simp add: valid_contract_def attested_def packaged_def)
  ultimately show ?thesis
    using legacy_risk[OF risk legacy] legacy(1) by (simp add: p validate_operation_def Let_def packaged_def)
qed

lemma issued_ticket_payload:
  assumes "issue_broker_ticket dump_time secret now t ag B = Inr tk"
  shows "worker_valid_payload (tk_payload tk) \<and> is_sha256_hex (tk_signature tk)
    \<and> hmac_sha256_hex secret (dumps (payload_json dump_time (tk_payload tk))) = tk_signature tk"
proof -
  obtain p where "valid_payload p" "tk = signed_ticket dump_time secret p"
    using assms by (auto elim: issue_broker_ticket_Inr)
  then show ?thesis
    using worker_schema_agrees hmac_sha256_hex_format by (simp add: signed_ticket_def canonical_ticket_def)
qed


lemma packaged_operations_loaded:
  assumes "packaged_operations files names = Inr ops" and "(name, q, m) \<in> set ops"
  shows "load_runbook_package files (km_name m) = Inr m \<and> q \<in> set (km_operations m) \<and> oq_name q = name"
  using assms
proof (induction names arbitrary: ops)
  case (Cons n names)
  then obtain m' rest where m': "load_runbook_package files n = Inr m'" and rest: "packaged_operations files names = Inr rest"
    and ops: "ops = rest @ rev (map (\<lambda>q. (oq_name q, q, m')) (km_operations m'))"
    by (auto simp: ebind_Inr_iff)
  have "km_name m' = n" using m' by (simp add: load_runbook_package_Inr)
  then show ?case using Cons.IH[OF rest] Cons.prems(2) m' ops by auto
qed simp

lemma expected_policy_reviewed:
  assumes "packaged_operations files names = Inr ops" and "expected_policy ops c t = Inr e"
    and "t_task_type t = fst e" and "t_risk_level t = snd e" and "valid_contract c" and "a_machine ag = ''vm2-deployment''"
  shows "validate_operation files (new_payload now t ag c lease) = Inr ()"
proof (cases "packaged c")
  case True
  then have runbook: "ic_runbook c = ''vm2-platform-operations''" by (simp add: packaged_def)
  obtain q m where qm: "map_of ops (ic_operation c) = Some (q, m)" and pol: "\<not> policy_mismatch c t q m"
    and par: "validate_parameters q (ic_parameters c) = Inr ()"
    using assms(2) runbook by (auto simp: expected_policy_def split: option.split_asm if_split_asm sum.split_asm)
  note l = packaged_operations_loaded[OF assms(1) map_of_SomeD[OF qm]]
  have "distinct (map oq_name (km_operations m))"
    using l by (simp add: load_runbook_package_Inr worker_valid_manifest_def valid_package_manifest_def Let_def)
  then have "List.find (\<lambda>q. oq_name q = ic_operation c) (km_operations m) = Some q"
    using get_row_in[of oq_name "km_operations m" q] l by (simp add: get_row_def)
  then show ?thesis
    using l pol par runbook assms(6) by (simp add: validate_operation_def policy_mismatch_def Let_def)
next
  case False
  then have "map_of LEGACY_OPERATIONS (ic_operation c) = Some e"
    using assms(2) by (simp add: expected_policy_def packaged_def split: option.split_asm)
  moreover have "ic_parameters c = []" using assms(5) False by (simp add: valid_contract_def attested_def packaged_def)
  ultimately show ?thesis
    using False assms(3,4,6) by (cases e) (simp add: validate_operation_def packaged_def Let_def)
qed

text \<open>
  The service does not start what the broker would refuse: the contract of a task that the worker
  admits, with the packages it has loaded, is of an operation that the broker on the same files
  accepts, in whatever ticket for that task.
\<close>

theorem admitted_task_reviewed:
  assumes "packaged_operations files (is_packages s) = Inr ops" and "validate_task ops s t = Inr c"
    and "a_machine ag = ''vm2-deployment''"
  shows "validate_operation files (new_payload now t ag c lease) = Inr () \<and> 1 \<le> t_attempt_count t
    \<and> t_risk_level t \<le> is_risk_ceiling s \<and> set (t_required_capabilities t) \<subseteq> set (is_capabilities s)"
proof -
  obtain e where c: "contract_of (t_input_contract t) = Some c" and e: "expected_policy ops c t = Inr e"
      "t_task_type t = fst e" "t_risk_level t = snd e"
    and rest: "1 \<le> t_attempt_count t" "t_risk_level t \<le> is_risk_ceiling s"
      "set (t_required_capabilities t) \<subseteq> set (is_capabilities s)"
    using assms(2) by (auto simp: validate_task_def ebind_Inr_iff not_less split: option.split_asm if_split_asm)
  from expected_policy_reviewed[OF assms(1) e contract_of_valid[OF c] assms(3)] show ?thesis using rest by simp
qed

end
