(* ===== verification/BrokerWitnesses.thy ===== *)
theory BrokerWitnesses
  imports Witnesses Broker
begin

text \<open>
  A runbook package, an approved infrastructure task of the sample installation and its broker, on
  which the properties of packages, tickets and the broker are applied.
\<close>

section \<open>A package\<close>

definition bw_parameter :: parameter_definition where
  "bw_parameter =
     \<lparr>pd_type = ''string'', pd_required = True, pd_secret = False, pd_minimum = None, pd_maximum = None,
      pd_allowed_values = [''api'', ''redis'']\<rparr>"

definition bw_operation :: packaged_operation where
  "bw_operation =
     \<lparr>oq_name = ''verify-redis'', oq_category = ''redis'', oq_task_type = ''infrastructure_observation'',
      oq_target_profile = ''vm2-production'', oq_risk_level = 0, oq_approval_required = False,
      oq_parameters = [(''service'', bw_parameter)],
      oq_preflight = \<lparr>pf_checks = [''ping''], pf_failure_mode = ''block''\<rparr>, oq_evidence = [''health''],
      oq_rollback = None\<rparr>"

definition bw_manifest :: package_manifest where
  "bw_manifest =
     \<lparr>km_schema_version = 1, km_name = ''vm2-platform-operations'', km_version = ''1.0.0'', km_description = ''platform'',
      km_target_profiles =
        [\<lparr>tp_name = ''vm2-production'', tp_machine = ''vm2-deployment'', tp_environment = ''production'',
          tp_service_class = ''platform'', tp_writable_roots = [], tp_private_endpoint = None, tp_dns_name = None\<rparr>],
      km_rehearsal = \<lparr>rh_required = True, rh_target_profile = ''vm2-production'', rh_max_evidence_age_hours = 24,
                      rh_required_evidence = [''log'']\<rparr>,
      km_operations = [bw_operation]\<rparr>"

lemma bw_operation_valid: "valid_packaged_operation bw_operation"
  by (simp add: valid_packaged_operation_def bw_operation_def bw_parameter_def valid_parameter_definition_def
      package_name_def lower_alnum_def sized_def)

lemma bw_manifest_valid: "valid_package_manifest bw_manifest" "worker_valid_manifest bw_manifest"
proof -
  have "km_operations bw_manifest = [bw_operation]" by (simp add: bw_manifest_def)
  then show "valid_package_manifest bw_manifest"
    using bw_operation_valid
    by (simp add: valid_package_manifest_def Let_def bw_manifest_def valid_target_profile_def valid_rehearsal_def
        package_name_def lower_alnum_def package_version_def ascii_digits_def sized_def text_between_def)
       (simp add: bw_operation_def)
  then show "worker_valid_manifest bw_manifest"
    using \<open>km_operations bw_manifest = [bw_operation]\<close> bw_operation_valid
    by (simp add: worker_valid_manifest_def worker_valid_operation_def) (simp add: bw_operation_def)
qed

definition bw_package :: package_create where
  "bw_package =
     \<lparr>kq_manifest = bw_manifest, kq_manifest_digest = sha256_hex (canonical_package bw_manifest),
      kq_signature = hmac_sha256_hex ''secret'' (canonical_package bw_manifest), kq_source_repository = ''swarm'',
      kq_source_commit = replicate 40 CHR ''0'', kq_created_by = ''founder''\<rparr>"

lemma compare_hex:
  assumes "is_sha256_hex a"
  shows "compare_digest a a = Inr True"
proof -
  have "(of_char c :: nat) < 128" if "hex_digit c" for c
    using that by (auto simp: hex_digit_def)
  then have "\<not> list_ex (\<lambda>c. 128 \<le> (of_char c :: nat)) (a @ a)"
    using assms by (force simp: is_sha256_hex_def list_all_iff list_ex_iff not_le)
  then show ?thesis by (simp add: compare_digest_def)
qed

definition bw_registry :: bdb where
  "bw_registry = \<lparr>base = w_world, runbook_packages = [], runbook_promotions = []\<rparr>"

lemma bw_registers: "\<exists>p B. register_runbook_package 1 ''secret'' bw_package bw_registry = Inr (p, B)
    \<and> runbook_packages B = [p] \<and> runbook_promotions B = []"
proof -
  have "text_between 64 128 (hmac_sha256_hex ''secret'' (canonical_package bw_manifest))"
    using hmac_sha256_hex_format by (simp add: is_sha256_hex_def text_between_def)
  then have "valid_package_create bw_package"
    using bw_manifest_valid sha256_hex_format
    by (simp add: valid_package_create_def bw_package_def package_name_def lower_alnum_def commit_hex_def actor_name_def
        alphanumeric_def list_all_iff)
  moreover have "verify_runbook_package bw_package ''secret'' = Inr ()"
    using compare_hex[OF sha256_hex_format] compare_hex[OF hmac_sha256_hex_format]
    by (simp add: verify_runbook_package_def bw_package_def)
  ultimately show ?thesis by (simp add: register_runbook_package_def bw_registry_def Let_def)
qed

definition bw_draft :: promotion_create where
  "bw_draft = \<lparr>mq_state = ''draft'', mq_evidence_digest = None, mq_approval_reference = None, mq_recorded_by = ''founder''\<rparr>"

theorem promotion_sequence_witness:
  "\<exists>B p m. registry_run 2 B \<and> p \<in> set (runbook_packages B) \<and> promotions_of (rk_id p) B = [m]
    \<and> rm_state m = ''draft'' \<and> rm_record_digest m = digest_json (promotion_json p m)"
proof -
  obtain p B where B: "register_runbook_package 1 ''secret'' bw_package bw_registry = Inr (p, B)"
      "runbook_packages B = [p]" "runbook_promotions B = []"
    using bw_registers by blast
  have none: "promotions_of (rk_id p) B = []" by (simp add: promotions_of_def B(3))
  let ?m = "new_promotion 2 (next_uuid (base B)) p bw_draft []"
  let ?B = "B\<lparr>runbook_promotions := [?m], base := bump (base B)\<rparr>"
  have "promote_runbook_package 2 p bw_draft B = Inr (?m, ?B)"
    using none B(3) by (simp add: promote_runbook_package_def Let_def STATES_def bw_draft_def)
  moreover have "valid_promotion_create bw_draft"
    by (simp add: valid_promotion_create_def bw_draft_def actor_name_def alphanumeric_def)
  ultimately have promote: "promote_runbook 2 (rk_id p) bw_draft B = Inr (?m, ?B)"
    using B(2) by (simp add: promote_runbook_def)
  have "registry_run 0 bw_registry" by (rule registry_run.init) (simp_all add: bw_registry_def)
  from registry_run.step[OF this _ registry_step.register[OF B(1)]] have "registry_run 1 B" by simp
  from registry_run.step[OF this _ registry_step.promote[OF promote]] have run: "registry_run 2 ?B" by simp
  have p: "p \<in> set (runbook_packages ?B)" using B(2) by simp
  have ms: "promotions_of (rk_id p) ?B = [?m]" by (simp add: promotions_of_def)
  have "rm_record_digest ?m = digest_json (promotion_json p ?m)"
    using promotion_sequence[OF run p] unfolding ms Let_def by auto
  moreover have "rm_state ?m = ''draft''" by (simp add: bw_draft_def)
  ultimately show ?thesis using run p ms by blast
qed

theorem broker_parameters_stricter_witness:
  "validate_packaged_parameters (oq_parameters bw_operation) [(''service'', JStr ''redis'')] = Inr ()"
proof (rule broker_parameters_stricter)
  show "validate_parameters bw_operation [(''service'', JStr ''redis'')] = Inr ()"
    by (simp add: validate_parameters_def bw_operation_def bw_parameter_def validate_parameter_def safe_value_def
        alphanumeric_def)
  show "valid_packaged_operation bw_operation" by (rule bw_operation_valid)
qed

section \<open>A ticket\<close>

definition bw_agent :: agent where
  "bw_agent = w_agent\<lparr>a_machine := ''vm2-deployment''\<rparr>"

definition bw_document :: dict where
  "bw_document =
     [(''runbook'', JStr ''vm2-infrastructure''), (''runbook_version'', JStr ''1.0.0''),
      (''operation'', JStr ''restart-control-plane-api''), (''target'', JStr ''vm2-control-plane'')]"

definition bw_contract :: infrastructure_contract where
  "bw_contract =
     \<lparr>ic_runbook = ''vm2-infrastructure'', ic_runbook_version = ''1.0.0'', ic_operation = ''restart-control-plane-api'',
      ic_target = ''vm2-control-plane'', ic_parameters = [], ic_package_name = None, ic_package_version = None,
      ic_package_digest = None\<rparr>"

lemma bw_contract_of: "contract_of bw_document = Some bw_contract"
proof -
  have "valid_contract bw_contract"
    by (simp add: valid_contract_def bw_contract_def RUNBOOKS_def OPERATIONS_def TARGETS_def optional_match_def
        attested_def given_def)
  then show ?thesis
    by (simp add: contract_of_def bw_document_def CONTRACT_FIELDS_def text_field_def optional_text_field_def
        object_field_def dict_get_def bw_contract_def Let_def)
qed

definition bw_plan :: string where
  "bw_plan = replicate 64 CHR ''a''"

definition bw_task :: task where
  "bw_task = w_held_task\<lparr>t_status := Running, t_task_type := ''infrastructure_operation'', t_risk_level := 3,
     t_input_contract := bw_document, t_plan_digest := bw_plan, t_allowed_machines := [''vm2-deployment'']\<rparr>"

definition bw_state :: bdb where
  "bw_state = bw_registry\<lparr>base := w_world\<lparr>tasks := [bw_task],
     approvals := [w_approval\<lparr>ap_status := ApprovalConsumed, ap_plan_digest := bw_plan, ap_consumed_at := Some 1,
       ap_expires_at := Some (seconds 600)\<rparr>]\<rparr>\<rparr>"

lemma bw_task_simps [simp]:
  "t_id bw_task = 6" "t_task_number bw_task = ''T1''" "t_status bw_task = Running"
  "t_task_type bw_task = ''infrastructure_operation''" "t_risk_level bw_task = 3" "t_input_contract bw_task = bw_document"
  "t_plan_digest bw_task = bw_plan" "t_attempt_count bw_task = 1" "t_lease_expires_at bw_task = Some (1 + seconds 300)"
  "t_allowed_machines bw_task = [''vm2-deployment'']" "t_required_capabilities bw_task = [''code'']"
  by (simp_all add: bw_task_def w_held_task_def leased_row_def w_task_def)

lemma bw_held: "held_task ''key'' 2 bw_agent 6 (gt_token w_token) [Running] (base bw_state) = Inr bw_task"
proof -
  have "get_task 6 (base bw_state) = Some bw_task" by (simp add: get_task_def bw_state_def)
  moreover have "holds_lease ''key'' 2 bw_agent (gt_token w_token) [Running] bw_task"
    by (simp add: holds_lease_def w_token_prefix seconds_def)
       (simp add: bw_task_def w_held_task_def leased_row_def bw_agent_def w_token_def create_task_lease_token_def Let_def)
  ultimately show ?thesis by (simp add: held_task_iff)
qed

definition bw_secret :: string where
  "bw_secret = replicate 32 CHR ''k''"

definition bw_payload :: ticket_payload where
  "bw_payload = new_payload 2 bw_task bw_agent bw_contract (1 + seconds 300)"

definition bw_ticket :: broker_ticket where
  "bw_ticket = signed_ticket isoformat bw_secret bw_payload"

lemma bw_plan_hex: "is_sha256_hex bw_plan"
  by (simp add: bw_plan_def is_sha256_hex_def hex_digit_def list_all_iff)

lemma bw_task_number: "safe_task_number ''T1''"
  by (simp add: safe_task_number_def actor_name_def alphanumeric_def)

lemma bw_issues: "issue_broker_ticket isoformat bw_secret 2 bw_task bw_agent bw_state = Inr bw_ticket"
proof -
  have "plan_approved 2 bw_task (base bw_state)"
    by (simp add: plan_approved_def bw_state_def w_approval_def seconds_def)
  moreover have "valid_payload bw_payload"
    using contract_of_valid[OF bw_contract_of] bw_plan_hex bw_task_number sha256_hex_format
    by (simp add: valid_payload_def bw_payload_def new_payload_def ticket_nonce_def bw_agent_def seconds_def)
       (simp add: bw_contract_def OBSERVATIONS_def)
  moreover have "ticket_risk bw_contract bw_task = Inr ()" "\<not> packaged bw_contract"
    by (simp_all add: ticket_risk_def packaged_def bw_contract_def risk_zero_operations_def risk_two_operations_def)
  ultimately show ?thesis
    by (simp add: issue_broker_ticket_def bw_contract_of bw_ticket_def bw_payload_def seconds_def Let_def)
qed

lemma bw_gets_ticket:
  "\<exists>B'. get_broker_ticket isoformat ''key'' bw_secret 2 bw_agent 6 (gt_token w_token) bw_state = Inr (bw_ticket, B')"
proof -
  have "gt_token w_token \<noteq> ''''" by (simp add: w_token_def create_task_lease_token_def Let_def)
  then show ?thesis by (simp add: get_broker_ticket_def bw_held bw_issues)
qed

lemma bw_payload_simps: "tk_payload bw_ticket = bw_payload" "bt_contract bw_payload = bw_contract"
  by (simp_all add: bw_ticket_def signed_ticket_def bw_payload_def)

theorem ticket_sound_witness:
  "\<exists>B'. get_broker_ticket isoformat ''key'' bw_secret 2 bw_agent 6 (gt_token w_token) bw_state = Inr (bw_ticket, B')
    \<and> (\<exists>a\<in>set (approvals (base bw_state)). backs_plan 2 bw_task a) \<and> bt_expires_at (tk_payload bw_ticket) \<le> 2 + seconds 60"
proof -
  obtain B' where B': "get_broker_ticket isoformat ''key'' bw_secret 2 bw_agent 6 (gt_token w_token) bw_state
      = Inr (bw_ticket, B')"
    using bw_gets_ticket by blast
  have "get_task 6 (base bw_state) = Some bw_task" by (simp add: get_task_def bw_state_def)
  then show ?thesis using ticket_sound[OF B'] B' by auto
qed

section \<open>The broker\<close>

definition bw_broker :: broker where
  "bw_broker = \<lparr>br_consumed = [], br_ledger = None\<rparr>"

definition bw_parse :: "json \<Rightarrow> broker_ticket option" where
  "bw_parse doc = (if doc = JNull then Some bw_ticket else None)"

lemma bw_legacy: "\<not> packaged (bt_contract (tk_payload bw_ticket))"
  "ic_operation (bt_contract (tk_payload bw_ticket)) \<in> fst ` set LEGACY_OPERATIONS"
  by (simp_all add: bw_payload_simps bw_contract_def packaged_def LEGACY_OPERATIONS_def)

lemma bw_delivered:
  "bw_parse JNull = Some bw_ticket" "3 < bt_expires_at (tk_payload bw_ticket)"
  "bt_nonce (tk_payload bw_ticket) \<notin> set (br_consumed bw_broker)"
  by (simp_all add: bw_parse_def bw_broker_def bw_payload_simps bw_payload_def new_payload_def seconds_def)


theorem broker_runs_once_witness:
  "\<exists>b. broker_run isoformat bw_parse bw_secret b [bw_payload] \<and> reviewed_payload bw_payload"
proof -
  have "execute isoformat bw_parse (\<lambda>_. None) True bw_secret 3 JNull bw_broker
      = (Inr bw_payload, snd (consume True (bt_nonce bw_payload) bw_broker))"
    using bw_delivered issued_ticket_payload[OF bw_issues] issued_ticket_valid[OF bw_issues bw_legacy]
    by (simp add: execute_def consume_def Let_def bw_payload_simps)
  moreover have "broker_run isoformat bw_parse bw_secret bw_broker []"
    by (rule broker_run.start[of 0 _ None]) (simp add: start_broker_Inr bw_secret_def load_ledger_def bw_broker_def)
  ultimately obtain b where run: "broker_run isoformat bw_parse bw_secret b [bw_payload]"
    using broker_run.request[of isoformat bw_parse bw_secret bw_broker "[]"] by fastforce
  then show ?thesis using broker_runs_once[OF run] by auto
qed

definition bw_service :: infrastructure_service where
  "bw_service =
     \<lparr>is_task_types = [''infrastructure_operation''],
      is_operations = [\<lparr>od_name = ''restart-control-plane-api'', od_task_type = ''infrastructure_operation'',
                        od_target = ''vm2-control-plane'', od_risk_level = 3\<rparr>],
      is_packages = [''vm2-platform-operations''], is_capabilities = [''code''], is_risk_ceiling = 3\<rparr>"

definition bw_files :: "string \<Rightarrow> package_manifest option" where
  "bw_files name = (if name = ''vm2-platform-operations'' then Some bw_manifest else None)"

theorem admitted_task_reviewed_witness:
  "validate_operation bw_files (new_payload 2 bw_task bw_agent bw_contract 9) = Inr ()"
proof -
  have "package_name ''vm2-platform-operations''" by (simp add: package_name_def lower_alnum_def)
  then have "load_runbook_package bw_files ''vm2-platform-operations'' = Inr bw_manifest"
    using bw_manifest_valid(2) by (simp add: load_runbook_package_Inr bw_files_def) (simp add: bw_manifest_def)
  then obtain ops where ops: "packaged_operations bw_files (is_packages bw_service) = Inr ops"
    by (simp add: bw_service_def)
  have "validate_task ops bw_service bw_task = Inr bw_contract"
    by (simp add: validate_task_def bw_service_def bw_contract_of expected_policy_def bw_contract_def
        LEGACY_OPERATIONS_def runbook_definition_def)
  moreover have "a_machine bw_agent = ''vm2-deployment''" by (simp add: bw_agent_def)
  ultimately show ?thesis using admitted_task_reviewed[OF ops] by blast
qed

end
