(* ===== verification/AgentContext.thy ===== *)
theory AgentContext
  imports Runtime IsoTime PyValues "HOL-Library.Multiset"
begin

text \<open>
  The context of a task attempt (\<open>services/agent_context.py\<close>, \<open>schemas/agent_context.py\<close>,
  \<open>api/routes/agent_context.py\<close>): before an attempt the orchestrator locks the evidence the agent may
  see, the agent that holds the lease replays it, and registers what it keeps in its working memory.
  The evidence itself is kept by services outside the model, which may change it at any time.
\<close>

section \<open>Evidence, manifests and requests\<close>

record evidence_object =
  eo_id :: uuid
  eo_schema_version :: string
  eo_object_schema_version :: string
  eo_object_type :: string
  eo_content_version :: string
  eo_content_digest :: string
  eo_producer :: dict
  eo_supersedes_object_id :: "uuid option"
  eo_project :: string
  eo_access_class :: string
  eo_authority_class :: string
  eo_payload :: dict
  eo_created_by :: string
  eo_created_at :: time

record evidence_edge =
  ee_subject_id :: uuid
  ee_predicate :: string
  ee_object_id :: uuid

record evidence_state =
  es_object_id :: uuid
  es_state :: string

definition active_for_retrieval :: "evidence_state \<Rightarrow> bool" where
  "active_for_retrieval s = (es_state s = ''active'')"

record context_manifest =
  mx_id :: uuid
  mx_task_id :: uuid
  mx_agent_id :: uuid
  mx_attempt_number :: int
  mx_schema_version :: string
  mx_purpose :: string
  mx_authorization_snapshot_digest :: string
  mx_context_pack :: json
  mx_context_pack_digest :: string
  mx_manifest_digest :: string
  mx_item_count :: nat
  mx_byte_count :: nat
  mx_status :: string
  mx_expires_at :: time
  mx_created_by :: string
  mx_created_at :: time

text \<open>The control plane's own tables, the evidence and the manifests.\<close>

record cdb =
  plane :: db
  evidence :: "evidence_object list"
  evidence_edges :: "evidence_edge list"
  evidence_states :: "evidence_state list"
  contexts :: "context_manifest list"

record context_source =
  xs_object_id :: uuid
  xs_selection_reason :: string
  xs_prompt_position :: int

text \<open>A time of a request: the instant and the offset it was sent with, if it was sent with one.\<close>

type_synonym request_time = "time \<times> int option"

record context_create =
  xq_task_id :: uuid
  xq_agent_id :: uuid
  xq_attempt_number :: int
  xq_purpose :: string
  xq_sources :: "context_source list"
  xq_expires_at :: request_time
  xq_created_by :: string
  xq_max_bytes :: int

definition context_author :: "string \<Rightarrow> bool" where
  "context_author s =
     (length s \<le> 100 \<and>
      (case s of
         [] \<Rightarrow> False
       | c # cs \<Rightarrow>
           c \<in> set ''abcdefghijklmnopqrstuvwxyz''
           \<and> list_all (\<lambda>x. x \<in> set ''abcdefghijklmnopqrstuvwxyz0123456789._-'') cs))"

definition valid_context_source :: "context_source \<Rightarrow> bool" where
  "valid_context_source s =
     (text_between 3 500 (xs_selection_reason s) \<and> 0 \<le> xs_prompt_position s \<and> xs_prompt_position s \<le> 63)"

definition valid_context_create :: "context_create \<Rightarrow> bool" where
  "valid_context_create q =
     (1 \<le> xq_attempt_number q \<and> text_between 3 1000 (xq_purpose q)
      \<and> 1 \<le> length (xq_sources q) \<and> length (xq_sources q) \<le> 32 \<and> list_all valid_context_source (xq_sources q)
      \<and> context_author (xq_created_by q) \<and> 1024 \<le> xq_max_bytes q \<and> xq_max_bytes q \<le> 262144
      \<and> sort (map xs_prompt_position (xq_sources q)) = map int [0..<length (xq_sources q)]
      \<and> distinct (map xs_object_id (xq_sources q)))"

record memory_create =
  wq_lease_token :: string
  wq_sequence :: int
  wq_kind :: string
  wq_content_digest :: string
  wq_workspace_path :: string
  wq_sensitivity :: string
  wq_expires_at :: request_time

text \<open>\<open>PurePosixPath.is_absolute\<close>, and \<open>".." in parts\<close>.\<close>

definition relative_safe_path :: "string \<Rightarrow> bool" where
  "relative_safe_path s = (take 1 s \<noteq> ''/'' \<and> ''..'' \<notin> set (split_all CHR ''/'' s))"

definition valid_lease_token :: "string \<Rightarrow> bool" where
  "valid_lease_token s = text_between 32 500 s"

definition valid_memory_create :: "memory_create \<Rightarrow> bool" where
  "valid_memory_create q =
     (valid_lease_token (wq_lease_token q) \<and> 1 \<le> wq_sequence q
      \<and> wq_kind q \<in> {''observation'', ''decision'', ''scratch''} \<and> is_sha256_hex (wq_content_digest q)
      \<and> text_between 1 500 (wq_workspace_path q) \<and> relative_safe_path (wq_workspace_path q)
      \<and> wq_sensitivity q \<in> {''public'', ''internal'', ''restricted''})"

section \<open>Creating a context\<close>

definition SCHEMA_VERSION :: string where
  "SCHEMA_VERSION = ''agent-context-manifest-v1.0.0''"

definition snapshot_fields :: "effective_authority \<Rightarrow> dict" where
  "snapshot_fields s = (case authority_result_json s of JObj d \<Rightarrow> d | _ \<Rightarrow> [])"

text \<open>The dict of a resolution, with the digest that \<open>resolve\<close> adds to it.\<close>

definition snapshot_json :: "effective_authority \<Rightarrow> json" where
  "snapshot_json s = JObj (snapshot_fields s @ [(''snapshot_digest'', JStr (ef_snapshot_digest s))])"

text \<open>The objects that contradict an object among the sources, in both directions.\<close>

definition contradictions :: "evidence_edge list \<Rightarrow> uuid list \<Rightarrow> uuid \<Rightarrow> string list" where
  "contradictions es ids i =
     concat (map (\<lambda>e.
       (if ee_subject_id e = i then [uuid_str (ee_object_id e)] else [])
       @ (if ee_object_id e = i then [uuid_str (ee_subject_id e)] else []))
     (filter (\<lambda>e. ee_predicate e = ''contradicts'' \<and> ee_subject_id e \<in> set ids \<and> ee_object_id e \<in> set ids) es))"

definition access_class_names :: "string list" where
  "access_class_names = [''public'', ''internal'', ''restricted'']"

text \<open>The access classes of a task; \<open>set()\<close> raises on a member that is not hashable.\<close>

definition allowed_access :: "dict \<Rightarrow> json list res" where
  "allowed_access contract =
     (case (case dict_get contract ''context_access_classes'' of
              None \<Rightarrow> jstrs [''public'', ''internal''] | Some v \<Rightarrow> v) of
        JList xs \<Rightarrow>
          if \<not> list_all hashable xs then Inl TypeError
          else if \<not> set xs \<subseteq> JStr ` set access_class_names then http 422 ''Task context access classes are invalid.''
          else Inr xs
      | _ \<Rightarrow> http 422 ''Task context access classes are invalid.'')"

definition item_json :: "context_create \<Rightarrow> string list \<Rightarrow> context_source \<Rightarrow> evidence_object \<Rightarrow> aware \<Rightarrow> json" where
  "item_json q contradicts s r expiry = JObj
     [(''object_id'', juuid (eo_id r)), (''object_type'', JStr (eo_object_type r)),
      (''content_digest'', JStr (eo_content_digest r)), (''access_class'', JStr (eo_access_class r)),
      (''selection_reason'', JStr (xs_selection_reason s)), (''sensitivity'', JStr (eo_access_class r)),
      (''expires_at'', JStr (aware_iso expiry)), (''prompt_position'', JInt (xs_prompt_position s)),
      (''excerpt'', JStr (take 4000 (dumps (JObj (eo_payload r))))),
      (''citation'', JObj
         [(''replay_path'', JStr (''/v1/research/evidence/'' @ uuid_str (eo_id r))),
          (''coordinates'', dget (eo_payload r) ''coordinates''), (''contradicts'', jstrs (sort contradicts))])]"

text \<open>
  The body of the loop over the sources. Tasks have no attribute \<open>deadline_at\<close>, so the expiry of an
  item is always that of the request.
\<close>

definition context_item :: "cdb \<Rightarrow> task \<Rightarrow> context_create \<Rightarrow> aware \<Rightarrow> json list \<Rightarrow> context_source \<Rightarrow> json res" where
  "context_item C t q expiry allowed s =
     (case get_row eo_id (evidence C) (xs_object_id s) of
        None \<Rightarrow> Inl (KeyError (uuid_str (xs_object_id s)))
      | Some r \<Rightarrow>
          if (case get_row es_object_id (evidence_states C) (eo_id r) of
                None \<Rightarrow> True | Some st \<Rightarrow> \<not> active_for_retrieval st)
          then http 409 (''Context source '' @ uuid_str (eo_id r) @ '' is not active.'')
          else if eo_access_class r = ''protected''
          then http 403 ''Protected evidence requires a separately approved disclosure path.''
          else if JStr (eo_access_class r) \<notin> set allowed
          then http 403 ''Context source exceeds the task access boundary.''
          else if eo_project r \<noteq> t_project t \<and> eo_project r \<notin> {''systematic-research'', ''invariance-research''}
          then http 422 ''Context source is outside the task project boundary.''
          else Inr (item_json q (contradictions (evidence_edges C) (map xs_object_id (xq_sources q)) (eo_id r)) s r expiry))"

definition context_pack :: "context_create \<Rightarrow> json list \<Rightarrow> json" where
  "context_pack q items = JObj
     [(''schema_version'', JStr SCHEMA_VERSION), (''purpose'', JStr (xq_purpose q)), (''items'', JList items)]"

definition new_context ::
  "time \<Rightarrow> uuid \<Rightarrow> context_create \<Rightarrow> aware \<Rightarrow> effective_authority list \<Rightarrow> json list \<Rightarrow> context_manifest" where
  "new_context now i q expiry authority items =
     (let pack = context_pack q items;
          snapshot = digest_json (JList (map snapshot_json authority))
      in \<lparr>mx_id = i, mx_task_id = xq_task_id q, mx_agent_id = xq_agent_id q, mx_attempt_number = xq_attempt_number q,
          mx_schema_version = SCHEMA_VERSION, mx_purpose = xq_purpose q, mx_authorization_snapshot_digest = snapshot,
          mx_context_pack = pack, mx_context_pack_digest = digest_json pack,
          mx_manifest_digest = digest_json (JObj
            [(''task_id'', juuid (xq_task_id q)), (''agent_id'', juuid (xq_agent_id q)),
             (''attempt_number'', JInt (xq_attempt_number q)), (''authorization_snapshot_digest'', JStr snapshot),
             (''context_pack_digest'', JStr (digest_json pack)), (''expires_at'', JStr (aware_iso expiry))]),
          mx_item_count = length items, mx_byte_count = length (dumps pack), mx_status = ''locked'',
          mx_expires_at = fst expiry, mx_created_by = xq_created_by q, mx_created_at = now\<rparr>)"

text \<open>The unique keys of the table.\<close>

definition context_clash :: "context_manifest \<Rightarrow> context_manifest \<Rightarrow> bool" where
  "context_clash m x \<longleftrightarrow>
     mx_task_id x = mx_task_id m \<and> mx_attempt_number x = mx_attempt_number m
     \<or> mx_context_pack_digest x = mx_context_pack_digest m \<or> mx_manifest_digest x = mx_manifest_digest m"

definition insert_context :: "context_manifest \<Rightarrow> cdb \<Rightarrow> cdb res" where
  "insert_context m C =
     (if list_ex (context_clash m) (contexts C) then Inl IntegrityError
      else Inr (C\<lparr>contexts := contexts C @ [m], plane := (plane C)\<lparr>next_uuid := Suc (next_uuid (plane C))\<rparr>\<rparr>))"

definition create_context :: "time \<Rightarrow> context_create \<Rightarrow> cdb \<Rightarrow> (context_manifest \<times> cdb) res" where
  "create_context now q C =
     (case (get_task (xq_task_id q) (plane C), get_agent (xq_agent_id q) (plane C), snd (xq_expires_at q)) of
        (Some t, Some ag, Some offset) \<Rightarrow>
          (let expiry = (fst (xq_expires_at q), offset)
           in if fst expiry \<le> now then http 422 ''Context expiry must be in the future.''
              else if xq_attempt_number q \<noteq> t_attempt_count t + 1
              then http 409 ''Context must bind the next unconsumed task attempt.''
              else if t_assigned_agent_id t \<notin> {None, Some (a_id ag)} then http 409 ''Task is assigned to another agent.''
              else ebind (resolve_task_authority now t ag (plane C)) (\<lambda>authority.
                if authority = [] \<or> \<not> list_all ef_allowed authority
                then http 403 ''Active agent authority does not cover this task context.''
                else if list_ex (\<lambda>s. get_row eo_id (evidence C) (xs_object_id s) = None) (xq_sources q)
                then http 404 ''One or more context sources were not found.''
                else ebind (allowed_access (t_input_contract t)) (\<lambda>allowed.
                  ebind (emap (context_item C t q expiry allowed) (sort_key xs_prompt_position (xq_sources q))) (\<lambda>items.
                    if xq_max_bytes q < int (length (dumps (context_pack q items)))
                    then http 413 ''Context pack exceeds the approved byte budget.''
                    else (let m = new_context now (next_uuid (plane C)) q expiry authority items
                          in ebind (insert_context m C) (\<lambda>C'. Inr (m, C')))))))
      | (Some _, Some _, None) \<Rightarrow> Inl TypeError
      | _ \<Rightarrow> http 404 ''Task or agent not found.'')"

definition create_manifest :: "time \<Rightarrow> context_create \<Rightarrow> cdb \<Rightarrow> (context_manifest \<times> cdb) res" where
  "create_manifest now q C =
     (if \<not> valid_context_create q then Inl (ValueError ''request'')
      else on_integrity ''A context manifest already exists for this task attempt.'' (create_context now q C))"

section \<open>Using a context\<close>

definition active_context :: "time \<Rightarrow> task \<Rightarrow> agent \<Rightarrow> cdb \<Rightarrow> context_manifest res" where
  "active_context now t ag C =
     (case List.find (\<lambda>m. mx_task_id m = t_id t \<and> mx_attempt_number m = t_attempt_count t) (contexts C) of
        None \<Rightarrow> http 404 ''No context manifest is bound to this task attempt.''
      | Some m \<Rightarrow>
          if mx_agent_id m \<noteq> a_id ag \<or> mx_status m \<noteq> ''locked'' \<or> mx_expires_at m \<le> now
          then http 409 ''Context manifest is not active for this agent lease.''
          else if digest_json (mx_context_pack m) \<noteq> mx_context_pack_digest m
          then http 409 ''Context pack integrity check failed.''
          else Inr m)"

definition replay_context :: "string \<Rightarrow> time \<Rightarrow> agent \<Rightarrow> uuid \<Rightarrow> string \<Rightarrow> cdb \<Rightarrow> context_manifest res" where
  "replay_context key now ag i token C =
     (if \<not> valid_lease_token token then Inl (ValueError ''request'')
      else ebind (held_task key now ag i token [Leased, Running] (plane C)) (\<lambda>t. active_context now t ag C))"

definition receipt_document :: "context_manifest \<Rightarrow> memory_create \<Rightarrow> string \<Rightarrow> json" where
  "receipt_document m q expires = JObj
     [(''context_manifest_digest'', JStr (mx_manifest_digest m)), (''sequence'', JInt (wq_sequence q)),
      (''kind'', JStr (wq_kind q)), (''content_digest'', JStr (wq_content_digest q)),
      (''workspace_path'', JStr (wq_workspace_path q)), (''sensitivity'', JStr (wq_sensitivity q)),
      (''expires_at'', JStr expires)]"

definition new_memory_receipt :: "time \<Rightarrow> uuid \<Rightarrow> context_manifest \<Rightarrow> memory_create \<Rightarrow> aware \<Rightarrow> working_memory_receipt" where
  "new_memory_receipt now i m q expiry =
     \<lparr>wm_id = i, wm_context_manifest_id = mx_id m, wm_task_id = mx_task_id m, wm_agent_id = mx_agent_id m,
      wm_sequence = wq_sequence q, wm_kind = wq_kind q, wm_content_digest = wq_content_digest q,
      wm_workspace_path = wq_workspace_path q, wm_sensitivity = wq_sensitivity q, wm_status = ''active'',
      wm_expires_at = fst expiry, wm_receipt_digest = digest_json (receipt_document m q (aware_iso expiry)),
      wm_discarded_at = None, wm_created_at = now\<rparr>"

definition record_working_memory ::
  "time \<Rightarrow> context_manifest \<Rightarrow> memory_create \<Rightarrow> cdb \<Rightarrow> (working_memory_receipt \<times> cdb) res" where
  "record_working_memory now m q C =
     (case snd (wq_expires_at q) of
        None \<Rightarrow> Inl TypeError
      | Some offset \<Rightarrow>
          (let expiry = (fst (wq_expires_at q), offset);
               d = plane C;
               r = new_memory_receipt now (next_uuid d) m q expiry
           in if mx_expires_at m < fst expiry \<or> fst expiry \<le> now
              then http 422 ''Working memory expiry must be active and no later than context expiry.''
              else if list_ex (\<lambda>x. wm_context_manifest_id x = wm_context_manifest_id r \<and> wm_sequence x = wm_sequence r
                                 \<or> wm_receipt_digest x = wm_receipt_digest r) (working_memory d)
              then Inl IntegrityError
              else Inr (r, C\<lparr>plane := d\<lparr>working_memory := working_memory d @ [r], next_uuid := Suc (next_uuid d)\<rparr>\<rparr>)))"

definition remember :: "string \<Rightarrow> time \<Rightarrow> agent \<Rightarrow> uuid \<Rightarrow> memory_create \<Rightarrow> cdb \<Rightarrow> (working_memory_receipt \<times> cdb) res" where
  "remember key now ag i q C =
     (if \<not> valid_memory_create q then Inl (ValueError ''request'')
      else ebind (held_task key now ag i (wq_lease_token q) [Leased, Running] (plane C)) (\<lambda>t.
        ebind (active_context now t ag C) (\<lambda>m.
          on_integrity ''Working-memory sequence already exists.'' (record_working_memory now m q C))))"

section \<open>What a context is made of\<close>

text \<open>
  The access boundary of a task: the classes its own input contract lists, public and internal
  evidence where it lists none; and a source that may be shown: active evidence of the project,
  inside that boundary and never protected.
\<close>

definition within_access :: "task \<Rightarrow> string \<Rightarrow> bool" where
  "within_access t c \<longleftrightarrow> c \<in> set access_class_names \<and> c \<noteq> ''protected''
     \<and> (case dict_get (t_input_contract t) ''context_access_classes'' of
          None \<Rightarrow> c \<in> {''public'', ''internal''}
        | Some (JList xs) \<Rightarrow> JStr c \<in> set xs
        | Some v \<Rightarrow> False)"

definition admissible_source :: "cdb \<Rightarrow> task \<Rightarrow> context_source \<Rightarrow> evidence_object \<Rightarrow> bool" where
  "admissible_source C t s r \<longleftrightarrow>
     r \<in> set (evidence C) \<and> eo_id r = xs_object_id s
     \<and> (\<exists>st\<in>set (evidence_states C). es_object_id st = eo_id r \<and> es_state st = ''active'')
     \<and> within_access t (eo_access_class r)
     \<and> eo_project r \<in> {t_project t, ''systematic-research'', ''invariance-research''}"

lemma allowed_access_within:
  assumes "allowed_access (t_input_contract t) = Inr allowed" and "JStr c \<in> set allowed" and "c \<noteq> ''protected''"
  shows "within_access t c"
proof -
  obtain xs where v: "(case dict_get (t_input_contract t) ''context_access_classes'' of
      None \<Rightarrow> jstrs [''public'', ''internal''] | Some v \<Rightarrow> v) = JList xs"
    and xs: "set xs \<subseteq> JStr ` set access_class_names" "allowed = xs"
    using assms(1) by (auto simp: allowed_access_def simp del: insert_iff split: json.split_asm if_split_asm)
  have "c \<in> set access_class_names" using xs assms(2) by auto
  then show ?thesis
    using v xs(2) assms(2,3)
    by (cases "dict_get (t_input_contract t) ''context_access_classes''") (auto simp: within_access_def jstrs_def)
qed

lemma context_item_Inr:
  assumes "context_item C t q expiry allowed s = Inr v" and "allowed_access (t_input_contract t) = Inr allowed"
  shows "\<exists>r. admissible_source C t s r
    \<and> v = item_json q (contradictions (evidence_edges C) (map xs_object_id (xq_sources q)) (xs_object_id s)) s r expiry"
proof -
  obtain r st where r: "get_row eo_id (evidence C) (xs_object_id s) = Some r"
    and st: "get_row es_object_id (evidence_states C) (eo_id r) = Some st" "es_state st = ''active''"
    and ok: "eo_access_class r \<noteq> ''protected''" "JStr (eo_access_class r) \<in> set allowed"
      "eo_project r \<in> {t_project t, ''systematic-research'', ''invariance-research''}"
      "v = item_json q (contradictions (evidence_edges C) (map xs_object_id (xq_sources q)) (eo_id r)) s r expiry"
    using assms(1) by (auto simp: context_item_def active_for_retrieval_def split: option.split_asm if_split_asm)
  note in_r = get_row_Some_in[OF r] and in_st = get_row_Some_in[OF st(1)]
  have "within_access t (eo_access_class r)" by (rule allowed_access_within[OF assms(2) ok(2,1)])
  then have "admissible_source C t s r"
    unfolding admissible_source_def using in_r in_st st(2) ok(3) by blast
  then show ?thesis using in_r ok(4) by auto
qed

text \<open>The items stand at the positions that the request gives them.\<close>

lemma sorted_positions:
  assumes "sort (map f xs) = map int [0..<length xs]" and "x \<in> set xs"
  shows "nat (f x) < length xs \<and> sort_key f xs ! nat (f x) = x"
proof -
  have "map f (sort_key f xs) = sort (map f xs)"
    by (rule properties_for_sort[symmetric]) (simp_all add: mset_map)
  then have eq: "map f (sort_key f xs) = map int [0..<length xs]" using assms(1) by simp
  have nth: "f (sort_key f xs ! k) = int k" if "k < length xs" for k
    using arg_cong[OF eq, of "\<lambda>l. l ! k"] that by simp
  obtain k where k: "k < length xs" "sort_key f xs ! k = x"
    using assms(2) by (metis in_set_conv_nth length_sort set_sort)
  then show ?thesis using nth[OF k(1)] by simp
qed

lemma create_context_Inr:
  assumes "create_context now q C = Inr (m, C')"
  obtains t ag offset authority allowed items where
    "get_task (xq_task_id q) (plane C) = Some t" "get_agent (xq_agent_id q) (plane C) = Some ag"
    "now < fst (xq_expires_at q)" "xq_attempt_number q = t_attempt_count t + 1"
    "t_assigned_agent_id t \<in> {None, Some (a_id ag)}" "resolve_task_authority now t ag (plane C) = Inr authority"
    "authority \<noteq> []" "list_all ef_allowed authority" "allowed_access (t_input_contract t) = Inr allowed"
    "emap (context_item C t q (fst (xq_expires_at q), offset) allowed) (sort_key xs_prompt_position (xq_sources q)) = Inr items"
    "int (length (dumps (context_pack q items))) \<le> xq_max_bytes q"
    "m = new_context now (next_uuid (plane C)) q (fst (xq_expires_at q), offset) authority items"
    "insert_context m C = Inr C'"
  using assms unfolding create_context_def Let_def
  by (auto simp: ebind_Inr_iff not_le not_less simp del: insert_iff split: option.split_asm if_split_asm) blast+

lemma create_manifest_Inr:
  "create_manifest now q C = Inr r \<longleftrightarrow> valid_context_create q \<and> create_context now q C = Inr r"
  by (simp add: create_manifest_def)

lemma insert_context_Inr:
  "insert_context m C = Inr C' \<longleftrightarrow>
     list_all (\<lambda>x. \<not> context_clash m x) (contexts C)
     \<and> C' = C\<lparr>contexts := contexts C @ [m], plane := (plane C)\<lparr>next_uuid := Suc (next_uuid (plane C))\<rparr>\<rparr>"
  by (auto simp: insert_context_def list_ex_iff list_all_iff)

lemma context_items_placed:
  assumes "emap (context_item C t q expiry allowed) (sort_key xs_prompt_position (xq_sources q)) = Inr items"
    and "allowed_access (t_input_contract t) = Inr allowed" and "valid_context_create q" and "s \<in> set (xq_sources q)"
  shows "\<exists>r. admissible_source C t s r
    \<and> items ! nat (xs_prompt_position s)
        = item_json q (contradictions (evidence_edges C) (map xs_object_id (xq_sources q)) (xs_object_id s)) s r expiry"
proof -
  have pos: "nat (xs_prompt_position s) < length (xq_sources q)"
      "sort_key xs_prompt_position (xq_sources q) ! nat (xs_prompt_position s) = s"
    using sorted_positions[of xs_prompt_position "xq_sources q" s] assms(3,4) by (simp_all add: valid_context_create_def)
  have "list_all2 (\<lambda>s v. context_item C t q expiry allowed s = Inr v) (sort_key xs_prompt_position (xq_sources q)) items"
    using assms(1) by (simp add: emap_Inr)
  then have "context_item C t q expiry allowed s = Inr (items ! nat (xs_prompt_position s))"
    using list_all2_nthD[of _ _ items "nat (xs_prompt_position s)"] pos by force
  from context_item_Inr[OF this assms(2)] show ?thesis .
qed

text \<open>
  Contexts (C31): a context is locked only for the next attempt of a task, for an agent that may take it and
  that has effective authority for every capability the task requires, until an instant in the
  future. Each source is active evidence, of an access class that the task's own contract admits
  (by default public or internal, never protected) and inside its project boundary, and
  stands at its position in the pack; the pack is within the byte budget and the manifest carries
  its digest.
\<close>

theorem context_sound:
  assumes "create_manifest now q C = Inr (m, C')"
  shows "\<exists>t ag items offset.
      get_task (mx_task_id m) (plane C) = Some t \<and> get_agent (mx_agent_id m) (plane C) = Some ag
    \<and> mx_attempt_number m = t_attempt_count t + 1 \<and> t_assigned_agent_id t \<in> {None, Some (a_id ag)}
    \<and> t_required_capabilities t \<noteq> [] \<and> now < mx_expires_at m
    \<and> list_all (\<lambda>c. \<exists>r. authority_request t ag c = Some r \<and> ef_allowed (resolve now (a_id ag) r (plane C)))
        (t_required_capabilities t)
    \<and> mx_context_pack m = context_pack q items \<and> mx_context_pack_digest m = digest_json (context_pack q items)
    \<and> length items = length (xq_sources q) \<and> int (length (dumps (context_pack q items))) \<le> xq_max_bytes q
    \<and> list_all (\<lambda>s. \<exists>r. admissible_source C t s r
        \<and> items ! nat (xs_prompt_position s)
            = item_json q (contradictions (evidence_edges C) (map xs_object_id (xq_sources q)) (xs_object_id s)) s r
                (mx_expires_at m, offset))
        (xq_sources q)
    \<and> contexts C' = contexts C @ [m] \<and> tasks (plane C') = tasks (plane C)"
proof -
  have valid: "valid_context_create q" and create: "create_context now q C = Inr (m, C')"
    using assms by (simp_all add: create_manifest_Inr)
  from create obtain t ag offset authority allowed items where
      rows: "get_task (xq_task_id q) (plane C) = Some t" "get_agent (xq_agent_id q) (plane C) = Some ag"
    and guards: "now < fst (xq_expires_at q)" "xq_attempt_number q = t_attempt_count t + 1"
      "t_assigned_agent_id t \<in> {None, Some (a_id ag)}"
    and auth: "resolve_task_authority now t ag (plane C) = Inr authority" "authority \<noteq> []" "list_all ef_allowed authority"
    and items: "allowed_access (t_input_contract t) = Inr allowed"
      "emap (context_item C t q (fst (xq_expires_at q), offset) allowed) (sort_key xs_prompt_position (xq_sources q)) = Inr items"
      "int (length (dumps (context_pack q items))) \<le> xq_max_bytes q"
    and m: "m = new_context now (next_uuid (plane C)) q (fst (xq_expires_at q), offset) authority items"
    and C': "insert_context m C = Inr C'"
    by (rule create_context_Inr)
  have caps: "t_required_capabilities t \<noteq> []" using auth(1,2) by (auto simp: resolve_task_authority_def)
  have covered: "list_all (\<lambda>c. \<exists>r. authority_request t ag c = Some r \<and> ef_allowed (resolve now (a_id ag) r (plane C)))
      (t_required_capabilities t)"
    using authority_of_capability[OF auth(1,3)] by (simp add: list_all_iff)
  have len: "length items = length (xq_sources q)"
    using items(2) by (metis emap_Inr length_sort list_all2_lengthD)
  have placed: "list_all (\<lambda>s. \<exists>r. admissible_source C t s r
        \<and> items ! nat (xs_prompt_position s)
            = item_json q (contradictions (evidence_edges C) (map xs_object_id (xq_sources q)) (xs_object_id s)) s r
                (fst (xq_expires_at q), offset))
        (xq_sources q)"
    using context_items_placed[OF items(2,1) valid] by (simp add: list_all_iff)
  show ?thesis
    using rows guards caps covered len placed items(3) C'
    by (intro exI[of _ t] exI[of _ ag] exI[of _ items] exI[of _ offset])
       (simp add: m new_context_def insert_context_Inr Let_def)
qed

section \<open>Contexts in use\<close>

inductive context_step :: "time \<Rightarrow> cdb \<Rightarrow> cdb \<Rightarrow> bool" where
  create: "create_manifest now q C = Inr (m, C') \<Longrightarrow> context_step now C C'"
| remember: "remember key now ag i q C = Inr (r, C') \<Longrightarrow> context_step now C C'"
| discard: "context_step now C (C\<lparr>plane := snd (discard_working_memory now i (plane C))\<rparr>)"
| control_plane: "working_memory d = working_memory (plane C) \<Longrightarrow> next_uuid (plane C) \<le> next_uuid d \<Longrightarrow>
    context_step now C (C\<lparr>plane := d\<rparr>)"
| evidence_change: "context_step now C (C\<lparr>evidence := os, evidence_edges := es, evidence_states := ss\<rparr>)"

inductive evolves :: "cdb \<Rightarrow> cdb \<Rightarrow> bool" for C where
  start: "evolves C C"
| step: "evolves C C1 \<Longrightarrow> context_step now C1 C2 \<Longrightarrow> evolves C C2"

definition no_contexts :: "cdb \<Rightarrow> bool" where
  "no_contexts C \<longleftrightarrow> contexts C = [] \<and> working_memory (plane C) = []"

text \<open>A receipt belongs to a context of its task and agent and does not outlive it.\<close>

definition receipt_of :: "context_manifest \<Rightarrow> working_memory_receipt \<Rightarrow> bool" where
  "receipt_of m r \<longleftrightarrow>
     wm_context_manifest_id r = mx_id m \<and> wm_task_id r = mx_task_id m \<and> wm_agent_id r = mx_agent_id m
     \<and> wm_expires_at r \<le> mx_expires_at m \<and> relative_safe_path (wm_workspace_path r)"

definition contexts_ok :: "cdb \<Rightarrow> bool" where
  "contexts_ok C \<longleftrightarrow>
     list_all (\<lambda>m. mx_status m = ''locked'' \<and> mx_context_pack_digest m = digest_json (mx_context_pack m)
       \<and> mx_id m < next_uuid (plane C)) (contexts C)
     \<and> distinct (map mx_id (contexts C)) \<and> distinct (map (\<lambda>m. (mx_task_id m, mx_attempt_number m)) (contexts C))"

definition memory_ok :: "cdb \<Rightarrow> bool" where
  "memory_ok C \<longleftrightarrow>
     list_all (\<lambda>r. list_ex (\<lambda>m. receipt_of m r) (contexts C)) (working_memory (plane C))
     \<and> distinct (map (\<lambda>r. (wm_context_manifest_id r, wm_sequence r)) (working_memory (plane C)))"

lemma remember_Inr:
  assumes "remember key now ag i q C = Inr (r, C')"
  obtains t m offset where "held_task key now ag i (wq_lease_token q) [Leased, Running] (plane C) = Inr t"
    "active_context now t ag C = Inr m" "valid_memory_create q" "fst (wq_expires_at q) \<le> mx_expires_at m"
    "r = new_memory_receipt now (next_uuid (plane C)) m q (fst (wq_expires_at q), offset)"
    "(wm_context_manifest_id r, wm_sequence r) \<notin> set (map (\<lambda>x. (wm_context_manifest_id x, wm_sequence x)) (working_memory (plane C)))"
    "C' = C\<lparr>plane := (plane C)\<lparr>working_memory := working_memory (plane C) @ [r], next_uuid := Suc (next_uuid (plane C))\<rparr>\<rparr>"
proof -
  from assms obtain t m where tm: "valid_memory_create q"
      "held_task key now ag i (wq_lease_token q) [Leased, Running] (plane C) = Inr t" "active_context now t ag C = Inr m"
    and rec: "record_working_memory now m q C = Inr (r, C')"
    by (auto simp: remember_def ebind_Inr_iff split: if_split_asm)
  obtain offset where offset: "snd (wq_expires_at q) = Some offset"
    using rec by (cases "snd (wq_expires_at q)") (simp_all add: record_working_memory_def)
  define n where "n = new_memory_receipt now (next_uuid (plane C)) m q (fst (wq_expires_at q), offset)"
  have "fst (wq_expires_at q) \<le> mx_expires_at m" "r = n"
      "(wm_context_manifest_id n, wm_sequence n) \<notin> set (map (\<lambda>x. (wm_context_manifest_id x, wm_sequence x)) (working_memory (plane C)))"
      "C' = C\<lparr>plane := (plane C)\<lparr>working_memory := working_memory (plane C) @ [n], next_uuid := Suc (next_uuid (plane C))\<rparr>\<rparr>"
    using rec by (auto simp: record_working_memory_def offset Let_def list_ex_iff n_def[symmetric] split: if_split_asm)
  then show ?thesis using that[OF tm(2,3,1)] unfolding n_def by blast
qed

lemma active_context_in: "active_context now t ag C = Inr m \<Longrightarrow> m \<in> set (contexts C)"
  by (auto simp: active_context_def find_Some_iff split: option.split_asm if_split_asm)

lemma contexts_ok_create:
  assumes "create_manifest now q C = Inr (m, C')" and "contexts_ok C"
  shows "contexts_ok C'"
proof -
  have create: "create_context now q C = Inr (m, C')" using assms(1) by (simp add: create_manifest_Inr)
  then obtain expiry authority items where m: "m = new_context now (next_uuid (plane C)) q expiry authority items"
    and C': "insert_context m C = Inr C'"
    by (rule create_context_Inr) blast
  have "list_all (\<lambda>x. mx_id x < next_uuid (plane C)) (contexts C)"
    using assms(2) by (auto simp: contexts_ok_def list_all_iff)
  then have "mx_id m \<notin> mx_id ` set (contexts C)" by (auto simp: m new_context_def Let_def list_all_iff)
  moreover have "(mx_task_id m, mx_attempt_number m) \<notin> (\<lambda>m. (mx_task_id m, mx_attempt_number m)) ` set (contexts C)"
    using C' by (auto simp: insert_context_Inr context_clash_def list_all_iff)
  moreover have "mx_status m = ''locked''" "mx_context_pack_digest m = digest_json (mx_context_pack m)"
      "mx_id m = next_uuid (plane C)"
    by (simp_all add: m new_context_def Let_def)
  ultimately show ?thesis
    using assms(2) C' by (auto simp: contexts_ok_def insert_context_Inr list_all_iff less_Suc_eq)
qed

lemma memory_ok_remember:
  assumes "remember key now ag i q C = Inr (r, C')" and "memory_ok C"
  shows "memory_ok C'"
proof -
  from assms(1) obtain t m offset where m: "active_context now t ag C = Inr m" "valid_memory_create q"
      "fst (wq_expires_at q) \<le> mx_expires_at m"
      "r = new_memory_receipt now (next_uuid (plane C)) m q (fst (wq_expires_at q), offset)"
    and new: "(wm_context_manifest_id r, wm_sequence r)
        \<notin> set (map (\<lambda>x. (wm_context_manifest_id x, wm_sequence x)) (working_memory (plane C)))"
    and C': "C' = C\<lparr>plane := (plane C)\<lparr>working_memory := working_memory (plane C) @ [r],
        next_uuid := Suc (next_uuid (plane C))\<rparr>\<rparr>"
    by (rule remember_Inr)
  have "receipt_of m r" using m by (simp add: receipt_of_def new_memory_receipt_def valid_memory_create_def)
  then have "list_ex (\<lambda>m. receipt_of m r) (contexts C)" using active_context_in[OF m(1)] by (auto simp: list_ex_iff)
  then show ?thesis using assms(2) new by (auto simp: C' memory_ok_def)
qed

lemma memory_ok_discard: "memory_ok C \<Longrightarrow> memory_ok (C\<lparr>plane := snd (discard_working_memory now i (plane C))\<rparr>)"
proof -
  have "map (\<lambda>r. (wm_context_manifest_id r, wm_sequence r)) (upd_rows P (\<lambda>r. r\<lparr>wm_status := s, wm_discarded_at := x\<rparr>) rs)
      = map (\<lambda>r. (wm_context_manifest_id r, wm_sequence r)) rs" for P s x and rs :: "working_memory_receipt list"
    by (simp add: upd_rows_def)
  moreover have "list_all (\<lambda>r. list_ex (\<lambda>m. receipt_of m r) ms) (upd_rows P (\<lambda>r. r\<lparr>wm_status := s, wm_discarded_at := x\<rparr>) rs)
      = list_all (\<lambda>r. list_ex (\<lambda>m. receipt_of m r) ms) rs" for P s x ms and rs :: "working_memory_receipt list"
    by (induction rs) (simp_all add: upd_rows_def receipt_of_def)
  ultimately show "memory_ok C \<Longrightarrow> memory_ok (C\<lparr>plane := snd (discard_working_memory now i (plane C))\<rparr>)"
    by (simp add: memory_ok_def discard_working_memory_def Let_def)
qed

lemma context_step_contexts:
  assumes "context_step now C C'"
  shows "prefix (contexts C) (contexts C')"
  using assms
proof cases
  case (create q m)
  then obtain n where "insert_context n C = Inr C'" by (auto simp: create_manifest_Inr elim: create_context_Inr)
  then show ?thesis by (simp add: insert_context_Inr)
next
  case (remember key ag i q r)
  from remember(1) show ?thesis by (rule remember_Inr) simp
qed simp_all

lemma context_step_ok:
  assumes "context_step now C C'" and "contexts_ok C"
  shows "contexts_ok C'"
  using assms(1)
proof cases
  case (create q m)
  from contexts_ok_create[OF create(1) assms(2)] show ?thesis .
next
  case (remember key ag i q r)
  have "contexts C' = contexts C \<and> next_uuid (plane C') = Suc (next_uuid (plane C))"
    using remember(1) by (rule remember_Inr) simp
  then show ?thesis using assms(2) by (auto simp: contexts_ok_def list_all_iff less_Suc_eq)
next
  case (control_plane d)
  then show ?thesis using assms(2) by (auto simp: contexts_ok_def list_all_iff)
qed (use assms(2) in \<open>simp_all add: contexts_ok_def discard_working_memory_def Let_def\<close>)

lemma memory_ok_mono:
  assumes "memory_ok C" and "prefix (contexts C) (contexts C')" and "working_memory (plane C') = working_memory (plane C)"
  shows "memory_ok C'"
proof -
  have "set (contexts C) \<subseteq> set (contexts C')" using assms(2) by (rule set_mono_prefix)
  then show ?thesis using assms(1,3) by (fastforce simp: memory_ok_def list_all_iff list_ex_iff)
qed

lemma context_step_memory:
  assumes "context_step now C C'" and "memory_ok C"
  shows "memory_ok C'"
  using assms(1)
proof cases
  case (create q m)
  then obtain n where "insert_context n C = Inr C'" by (auto simp: create_manifest_Inr elim: create_context_Inr)
  then have "working_memory (plane C') = working_memory (plane C)" by (simp add: insert_context_Inr)
  then show ?thesis using memory_ok_mono[OF assms(2) context_step_contexts[OF assms(1)]] by blast
next
  case (remember key ag i q r)
  from memory_ok_remember[OF remember(1) assms(2)] show ?thesis .
next
  case (discard i)
  show ?thesis unfolding discard by (rule memory_ok_discard[OF assms(2)])
qed (use memory_ok_mono[OF assms(2) context_step_contexts[OF assms(1)]] in simp_all)

lemma evolves_ok:
  assumes "evolves C C'" and "contexts_ok C" and "memory_ok C"
  shows "contexts_ok C' \<and> memory_ok C' \<and> prefix (contexts C) (contexts C')"
  using assms
proof (induction rule: evolves.induct)
  case (step C1 now C2)
  have "prefix (contexts C1) (contexts C2)" by (rule context_step_contexts[OF step.hyps(2)])
  then show ?case
    using step context_step_ok[OF step.hyps(2)] context_step_memory[OF step.hyps(2)] by (auto intro: prefix_order.trans)
qed simp

lemma no_contexts_ok: "no_contexts C \<Longrightarrow> contexts_ok C \<and> memory_ok C"
  by (simp add: no_contexts_def contexts_ok_def memory_ok_def)

text \<open>The context of the attempt is found again, whole.\<close>

lemma active_context_locked:
  assumes "contexts_ok C" and "m \<in> set (contexts C)" and "mx_task_id m = t_id t" and "mx_attempt_number m = t_attempt_count t"
    and "mx_agent_id m = a_id ag" and "now < mx_expires_at m"
  shows "active_context now t ag C = Inr m"
proof -
  have "get_row (\<lambda>m. (mx_task_id m, mx_attempt_number m)) (contexts C) (mx_task_id m, mx_attempt_number m) = Some m"
    using get_row_in[of "\<lambda>m. (mx_task_id m, mx_attempt_number m)" "contexts C" m] assms(1,2) by (simp add: contexts_ok_def)
  then have "List.find (\<lambda>m. mx_task_id m = t_id t \<and> mx_attempt_number m = t_attempt_count t) (contexts C) = Some m"
    using assms(3,4) by (simp add: get_row_def)
  then show ?thesis
    using assms by (auto simp: active_context_def contexts_ok_def list_all_iff)
qed

text \<open>
  A locked context (C32): whatever happens after its creation, to the evidence, to the task or to the
  working memory, the agent it was made for gets exactly this context back while it holds the lease of the
  attempt and until the context expires; the integrity check of the pack does not fail.
\<close>

theorem context_replayed:
  assumes "no_contexts C0" and "evolves C0 C" and "create_manifest now q C = Inr (m, C1)" and "evolves C1 C2"
    and "held_task key later ag (xq_task_id q) token [Leased, Running] (plane C2) = Inr t"
    and "a_id ag = xq_agent_id q" and "t_attempt_count t = xq_attempt_number q" and "later < fst (xq_expires_at q)"
    and "valid_lease_token token"
  shows "replay_context key later ag (xq_task_id q) token C2 = Inr m"
proof -
  have step: "context_step now C C1" by (rule context_step.create[OF assms(3)])
  have ok: "contexts_ok C1" "memory_ok C1"
    using evolves_ok[OF assms(2)] no_contexts_ok[OF assms(1)] context_step_ok[OF step] context_step_memory[OF step] by blast+
  have m: "contexts C1 = contexts C @ [m] \<and> mx_task_id m = xq_task_id q \<and> mx_attempt_number m = xq_attempt_number q
      \<and> mx_agent_id m = xq_agent_id q \<and> mx_expires_at m = fst (xq_expires_at q)"
    using assms(3) by (auto simp: create_manifest_Inr insert_context_Inr new_context_def Let_def elim!: create_context_Inr)
  have "m \<in> set (contexts C2)" "contexts_ok C2"
    using evolves_ok[OF assms(4) ok] m set_mono_prefix[of "contexts C1" "contexts C2"] by auto
  moreover have "t_id t = xq_task_id q"
    using assms(5) by (auto simp: held_task_iff get_task_def dest: get_row_Some_in)
  ultimately have "active_context later t ag C2 = Inr m"
    using m assms(6-8) by (intro active_context_locked) simp_all
  then show ?thesis using assms(5,9) by (simp add: replay_context_def)
qed

text \<open>
  Working memory: in every reachable state a receipt belongs to a context of its task and agent, does
  not outlive it, names a path inside the workspace, and no two of a context have the same number.
\<close>

theorem working_memory_bounded:
  assumes "no_contexts C0" and "evolves C0 C" and "r \<in> set (working_memory (plane C))"
  shows "(\<exists>m\<in>set (contexts C). receipt_of m r)
    \<and> (\<forall>r'\<in>set (working_memory (plane C)).
         wm_context_manifest_id r' = wm_context_manifest_id r \<and> wm_sequence r' = wm_sequence r \<longrightarrow> r' = r)"
proof -
  have ok: "memory_ok C" using evolves_ok[OF assms(2)] no_contexts_ok[OF assms(1)] by blast
  then have "inj_on (\<lambda>r. (wm_context_manifest_id r, wm_sequence r)) (set (working_memory (plane C)))"
    by (simp add: memory_ok_def distinct_map)
  then show ?thesis using ok assms(3) by (auto simp: memory_ok_def list_all_iff list_ex_iff dest: inj_onD)
qed

end
