(* ===== verification/ContextWitnesses.thy ===== *)
theory ContextWitnesses
  imports Witnesses AgentContext
begin

text \<open>
  A piece of evidence, a context for the first attempt of the approved task of the sample
  installation, and the agent that replays it, on which the properties of contexts are applied.
\<close>

definition cw_object :: evidence_object where
  "cw_object =
     \<lparr>eo_id = 20, eo_schema_version = ''1'', eo_object_schema_version = ''1'', eo_object_type = ''note'',
      eo_content_version = ''1'', eo_content_digest = ''c'', eo_producer = [], eo_supersedes_object_id = None,
      eo_project = ''repo'', eo_access_class = ''internal'', eo_authority_class = ''a'', eo_payload = [],
      eo_created_by = ''founder'', eo_created_at = 0\<rparr>"

definition cw_start :: cdb where
  "cw_start =
     \<lparr>plane = w_ready, evidence = [cw_object], evidence_edges = [],
      evidence_states = [\<lparr>es_object_id = 20, es_state = ''active''\<rparr>], contexts = []\<rparr>"

definition cw_source :: context_source where
  "cw_source = \<lparr>xs_object_id = 20, xs_selection_reason = ''relevant'', xs_prompt_position = 0\<rparr>"

definition cw_request :: context_create where
  "cw_request =
     \<lparr>xq_task_id = 6, xq_agent_id = 1, xq_attempt_number = 1, xq_purpose = ''build it'', xq_sources = [cw_source],
      xq_expires_at = (10, Some 0), xq_created_by = ''founder'', xq_max_bytes = 65536\<rparr>"

lemma cw_request_simps [simp]:
  "xq_task_id cw_request = 6" "xq_agent_id cw_request = 1" "xq_attempt_number cw_request = 1"
  "xq_sources cw_request = [cw_source]" "xq_expires_at cw_request = (10, Some 0)" "xq_max_bytes cw_request = 65536"
  by (simp_all add: cw_request_def)

definition cw_item :: json where
  "cw_item = item_json cw_request [] cw_source cw_object (10, 0)"

lemma cw_fits: "int (length (dumps (context_pack cw_request [cw_item]))) \<le> 65536"
  by code_simp

lemma cw_item_Inr: "context_item cw_start w_task cw_request (10, 0) [JStr ''public'', JStr ''internal''] cw_source = Inr cw_item"
  by (simp add: context_item_def cw_start_def cw_source_def cw_object_def active_for_retrieval_def w_task_def cw_item_def
      contradictions_def)

lemma cw_request_valid: "valid_context_create cw_request"
  by (simp add: valid_context_create_def cw_request_def cw_source_def valid_context_source_def text_between_def context_author_def)

lemma cw_creates: "\<exists>m C1. create_manifest 1 cw_request cw_start = Inr (m, C1)"
proof -
  obtain s where s: "resolve_task_authority 1 w_task w_agent w_ready = Inr [s]" "ef_allowed s"
    using w_resolves[of 1] by auto
  have rows: "get_task 6 w_ready = Some w_task" "get_agent 1 w_ready = Some w_agent"
    by (simp_all add: get_task_def get_agent_def ready_defs)
  have "allowed_access (t_input_contract w_task) = Inr [JStr ''public'', JStr ''internal'']"
    by (simp add: allowed_access_def w_task_def dict_get_def jstrs_def access_class_names_def)
  moreover have "get_row eo_id (evidence cw_start) (xs_object_id cw_source) = Some cw_object"
    by (simp add: cw_start_def cw_source_def cw_object_def)
  moreover have "t_assigned_agent_id w_task = None" "t_attempt_count w_task = 0" by (simp_all add: w_task_def)
  moreover have "plane cw_start = w_ready" "contexts cw_start = []" by (simp_all add: cw_start_def)
  ultimately have "\<exists>m C1. create_context 1 cw_request cw_start = Inr (m, C1)"
    using s rows cw_fits cw_item_Inr
    by (simp add: create_context_def insert_context_def Let_def)
  then show ?thesis using cw_request_valid by (simp add: create_manifest_Inr)
qed

theorem context_sound_witness:
  "\<exists>m C1 items. create_manifest 1 cw_request cw_start = Inr (m, C1) \<and> mx_context_pack m = context_pack cw_request items
    \<and> length items = 1 \<and> contexts C1 = [m]"
proof -
  obtain m C1 where c: "create_manifest 1 cw_request cw_start = Inr (m, C1)" using cw_creates by blast
  from context_sound[OF c] show ?thesis
    using c by (auto simp: cw_start_def)
qed

section \<open>The agent replays the context\<close>

definition cw_token :: generated_token where
  "cw_token = create_task_lease_token ''key'' ''abc'' (replicate 40 CHR ''s'')"

definition cw_held_task :: task where
  "cw_held_task = leased_row 1 w_agent 300 cw_token w_task"

lemma cw_held_simps [simp]: "t_id cw_held_task = 6" "t_attempt_count cw_held_task = 1"
  by (simp_all add: cw_held_task_def leased_row_def w_task_def)

lemma cw_token_prefix: "extract_task_lease_token_prefix (gt_token cw_token) = Some ''abc''"
  using extract_prefix_token[of "''lt''" "''abc''" "replicate 40 CHR ''s''"]
  by (simp add: extract_task_lease_token_prefix_def cw_token_def create_task_lease_token_def Let_def)

lemma cw_holds: "holds_lease ''key'' 2 w_agent (gt_token cw_token) [Leased, Running] cw_held_task"
  by (simp add: holds_lease_def cw_token_prefix cw_held_task_def leased_row_def seconds_def)
     (simp add: cw_token_def create_task_lease_token_def Let_def)

theorem context_replayed_witness:
  "\<exists>m C1 C2. create_manifest 1 cw_request cw_start = Inr (m, C1)
    \<and> replay_context ''key'' 2 w_agent 6 (gt_token cw_token) C2 = Inr m \<and> evidence C2 = []"
proof -
  obtain m C1 where c: "create_manifest 1 cw_request cw_start = Inr (m, C1)" using cw_creates by blast
  let ?C = "C1\<lparr>plane := (plane C1)\<lparr>tasks := [cw_held_task]\<rparr>\<rparr>"
  let ?C2 = "?C\<lparr>evidence := [], evidence_edges := [], evidence_states := []\<rparr>"
  have "context_step 2 C1 ?C" by (rule context_step.control_plane) simp_all
  then have "evolves C1 ?C2" by (blast intro: evolves.intros context_step.evidence_change)
  moreover have "no_contexts cw_start" by (simp add: no_contexts_def cw_start_def ready_defs)
  moreover have "held_task ''key'' 2 w_agent 6 (gt_token cw_token) [Leased, Running] (plane ?C2) = Inr cw_held_task"
    using cw_holds by (simp add: held_task_iff get_task_def)
  moreover have "valid_lease_token (gt_token cw_token)"
    by (simp add: valid_lease_token_def text_between_def cw_token_def create_task_lease_token_def Let_def)
  ultimately have "replay_context ''key'' 2 w_agent (xq_task_id cw_request) (gt_token cw_token) ?C2 = Inr m"
    by (intro context_replayed[where t = cw_held_task, OF _ evolves.start c]) (simp_all add: w_agent_def)
  then show ?thesis using c by (intro exI[of _ m] exI[of _ C1] exI[of _ ?C2]) simp
qed

end
