(* ===== verification/Spec2Isabelle.thy ===== *)
theory Spec2Isabelle
  imports PolicyWitnesses IdentityWitnesses ResearchWitnesses LifecycleWitnesses BrokerWitnesses ContextWitnesses
begin

text \<open>
  A model of the core of the swarm control plane (\<open>src/backend/app\<close>): the FastAPI service
  that stores tasks in PostgreSQL, gates them by approvals, leases them to worker agents,
  groups them in graphs and missions, routes the review of results to independent
  evaluators, keeps the registries of the research tools, and runs the lifecycles of
  institutional subjects; and of the privileged broker on the worker side
  (\<open>src/worker/src/swarm_worker/infrastructure\<close>) that carries out its infrastructure tasks.

  \<^bold>\<open>The program and the theories.\<close> The service keeps all state in database rows; every request
  is one transaction on them. The model keeps the rows in one record \<open>db\<close> (\<open>Models\<close>), one list
  per table in insertion order, and every service function is a function from the request,
  the instant of the request and \<open>db\<close> to a result \<open>exn + ...\<close>: \<open>Inl\<close> is the exception the code
  raises (\<open>HTTPException\<close> with its status and detail, a validation error, an integrity error),
  after which nothing is committed.

    \<^item> \<open>Prelude\<close>: JSON values, dictionaries, \<open>json.dumps\<close>, UUID and date text, the result monad.
    \<^item> \<open>Sha256\<close>: \<open>hashlib.sha256\<close> and HMAC-SHA-256 on 32-bit words; all digests are computed.
    \<^item> \<open>Models\<close>: the rows of \<open>models/*.py\<close>. \<open>Store\<close>: \<open>db.get\<close>, assignment and event appends; the
      locale \<open>store\<close> is the contract of a keyed table and is interpreted on each of them.
    \<^item> \<open>HashChain\<close>: the locale \<open>chained_log\<close> of digest-chained event logs, interpreted on the logs
      of grants, routes, graphs, identities and prompt policies.
    \<^item> \<open>Governance\<close>: \<open>services/governance.py\<close> and the notifications of
      \<open>services/founder_notifications.py\<close> it raises.
    \<^item> \<open>Controls\<close>: \<open>services/controls.py\<close>, pausing of scopes.
    \<^item> \<open>AgentGovernance\<close>: \<open>services/agent_governance.py\<close>, charters, grants and effective authority.
    \<^item> \<open>EvaluatorRouting\<close>: \<open>services/evaluator_routing.py\<close>, profiles, routes, assignments, receipts.
    \<^item> \<open>Security\<close>: the tokens of \<open>core/security.py\<close>.
    \<^item> \<open>Tasks\<close>: \<open>services/tasks.py\<close>, creation, lease selection, lease verification, reaping.
    \<^item> \<open>TaskGraphs\<close>: \<open>services/task_graphs.py\<close> and the validator of \<open>schemas/task_graph.py\<close>.
    \<^item> \<open>Missions\<close>: \<open>services/missions.py\<close>, \<open>services/supervision.py\<close>, \<open>schemas/mission.py\<close>.
    \<^item> \<open>Runtime\<close>: the worker endpoints of \<open>api/routes/task_runtime.py\<close> and the operator endpoints of
      \<open>api/routes/tasks.py\<close>.
    \<^item> \<open>Invariants\<close>: the safety invariant of tasks, approvals and leases and its preservation by
      the operations of approvals and leasing.
    \<^item> \<open>Authority\<close>: \<open>services/authority.py\<close> and \<open>api/routes/authority.py\<close>, decision policies,
      delegations, exceptions and decision records.
    \<^item> \<open>Approvals\<close>: \<open>services/approval_center.py\<close>, the decision endpoints of
      \<open>api/routes/governance.py\<close> and \<open>api/routes/founder_channel.py\<close>, and artifacts.
    \<^item> \<open>WorkloadIdentity\<close>: \<open>services/workload_identity.py\<close>, \<open>services/agents.py\<close>,
      \<open>get_current_agent\<close> of \<open>core/security.py\<close> and the routes of agents and identities; the locale
      \<open>evolving_table\<close> says that revoked rows stay revoked.
    \<^item> \<open>PyValues\<close>: Python's \<open>repr\<close>, equality, hashing, comparison and membership on JSON values.
    \<^item> \<open>ResearchModels\<close>: the rows and requests of the research registries, in the record \<open>rdb\<close>; they
      share no table with \<open>db\<close>.
    \<^item> \<open>FactorLanguage\<close>: \<open>services/factor_language.py\<close>, the compiler of factor programs; the relation
      \<open>typed\<close> is its type system and \<open>reads\<close> says what compiled code reads.
    \<^item> \<open>PromptPolicy\<close>: \<open>services/prompt_policy.py\<close>, prompt bundles, output validation, evaluation and
      promotion; the relation \<open>conforms\<close> is the meaning of an output schema.
    \<^item> \<open>SymbolicSearch\<close>: \<open>services/symbolic_search.py\<close>, search runs over the two registries above.
    \<^item> \<open>IsoTime\<close>: aware datetimes, \<open>isoformat\<close> and \<open>datetime.fromisoformat\<close>.
    \<^item> \<open>EventSourcing\<close>: the locale \<open>event_sourced\<close>, tables whose rows are the replay of their events,
      interpreted on the lifecycles.
    \<^item> \<open>Lifecycle\<close>: \<open>services/institutional_lifecycle.py\<close> and \<open>services/candidate_lifecycle_gate.py\<close>,
      subjects, transitions and dossiers; the record \<open>ldb\<close> extends the tables of \<open>db\<close> by those of the
      lifecycles.
    \<^item> \<open>Consequences\<close>: \<open>services/lifecycle_consequence.py\<close>, consequences, reversal and expiry, and the
      lifecycles as a step relation together with the requests of the decision authority.
    \<^item> \<open>AgentContext\<close>: \<open>services/agent_context.py\<close>, the evidence locked for an attempt of a task and the
      working memory of the agent; the record \<open>cdb\<close> holds evidence and contexts beside \<open>db\<close>.
    \<^item> \<open>IpNetwork\<close>: the part of Python's \<open>ipaddress\<close> that reads networks.
    \<^item> \<open>RunbookPackages\<close>: \<open>services/runbook_packages.py\<close>, signed manifests of privileged operations and
      their promotion; the record \<open>bdb\<close> holds the two tables beside \<open>db\<close>.
    \<^item> \<open>BrokerTickets\<close>: \<open>services/broker_tickets.py\<close>, the signed permissions for infrastructure tasks.
    \<^item> \<open>Broker\<close>: \<open>infrastructure/broker.py\<close>, \<open>packages.py\<close> and the admission of \<open>service.py\<close> of the worker:
      the broker with its replay ledger as a step relation, and how its checks fit the control plane's.
    \<^item> \<open>Witnesses\<close>, \<open>PolicyWitnesses\<close>, \<open>IdentityWitnesses\<close>, \<open>ResearchWitnesses\<close>, \<open>LifecycleWitnesses\<close>,
      \<open>BrokerWitnesses\<close>, \<open>ContextWitnesses\<close>: sample installations on which every property with hypotheses is applied.
    \<^item> This theory: the control plane as a step relation over all modelled requests.

  \<^bold>\<open>What the lemmas show.\<close> Approvals: no task that needs approval runs without a consumed
  approval of its plan, in any state that the modelled requests reach (C1). Leasing: a lease is given only to an
  authorised agent for an eligible task (C2, C3), worker calls need the unexpired lease and its
  token (C8), what is leased can be started (C12), and each expired lease is recovered by the attempts
  left and the need for approval (C11), pausing is obeyed (C10). Graphs: exactly the acyclic, budgeted graphs are accepted (C4), they fail
  closed (C13), keep their parallelism (C14) and their logs are hash chains (C9). Missions: the plan is
  created as signed, with its tasks and dependencies (C16),
  and recovered only within its budget (C15). Evaluation: what a new route assigns
  and accepted reviews are independent (C5, C6, C7). Research: an accepted candidate is inside the grammar, typed, causal and
  new (C17); the compiler accepts exactly the typed programs (C18), which read no field too early
  (C19); the output validator decides conformance (C20); promotion of prompts needs its reviews in every
  reachable state and the logs of the bundles are hash chains (C21). Lifecycles: a transition follows the machine of its dimension, is
  guarded, for a portfolio candidate by exactly one fresh admission receipt, and authorised (C22), operations go live and capital is allocated only under their guards
  (C23), dossiers can be read and replay to the stored state (C24), lifecycles end (C25) and the
  ledger of consequences is complete (C26). Infrastructure: a ticket rests on the lease, the contract,
  the approved plan and an approved package (C27); the broker runs only reviewed operations, each
  ticket once, across restarts (C28); an issued ticket for a built-in operation that arrives unchanged, in
  time and first of its attempt is accepted by it (C29); packages are promoted
  in order and their records are linked (C30). Contexts show only evidence inside the task's own
  access boundary and within their budget (C31) and are replayed unchanged (C32). Decision authority: an approval is granted
  by a second person who has the right to by the policy in force (C33) and on the review that was shown (C34);
  decisions rest on the policy (C35) and the registry keeps its bounds (C36). Authentication: a
  request is attributed only for a live credential and an identity that covers it (C38), with least
  privilege (C39); revocation is final (C37); along these runs packages, charters, grants and
  deployments are fixed. The guards of C23 cover transitions and the application of consequences, not
  their reversal and expiry. C40 is the behaviour behind a reported divergence from the documents.
  Further lemmas: the event logs of routes, grants and identities are hash chains, all
  decisions are recorded, artifacts belong to the lease, routes can be rebuilt from their rows, the
  trials of a program are its grid, search runs keep their budget, lineages of programs are linear, reordered expressions are
  duplicates, a reversal restores the state before its consequence, repeated commands of the
  lifecycle change nothing, charters are exclusive and bound their grants, the choice of evaluators is
  minimal, working memory does not outlive its context, token prefixes read back, receipts and rotations are as they should be, the parameters
  the broker accepts are among those the control plane accepts, and a task that the worker's service
  admits is one the broker reviews.

  \<^bold>\<open>Parameters and conventions.\<close> Code outside the repository and nondeterminism are arguments: the
  instant of a request, the values of \<open>secrets\<close>, the keys of \<open>settings\<close>, and the text pydantic
  gives a date (\<open>dump_time\<close>). \<open>uuid4\<close> is modelled by a counter of unused identifiers and
  autoincrement keys by a serial, so that new identities are fresh. One request reads the clock
  once. Instants are integers of microseconds; counters of the code are Python integers and are
  \<open>int\<close>. All loops of the modelled code end; the graph validator is a depth-first search with a
  proved measure, so no fuel is used; the expression compiler and the output validator recurse on the size of
  their input. Rows are locked for the time of a transaction, so requests
  are modelled as atomic steps in some order. A query without an order returns the rows in the order
  of the table; the iteration order of a Python set is a parameter (\<open>order\<close>); documents are stored
  and read back unchanged. Hypotheses, datasets, evidence and producer receipts are registered by services
  outside the model, which may add any. The requests of a lifecycle run arrive at increasing
  instants, and the database returns instants in UTC; so do those of the package registry. For the
  broker, \<open>parse\<close> is pydantic's reading of a document into the fields of a ticket, \<open>files\<close> what the YAML
  file of a package contains, and \<open>written\<close> whether the ledger file could be replaced.

  \<^bold>\<open>Not modelled.\<close> Response serialization and read-only endpoints, database sessions and
  migrations, the limit of Python's recursion depth (the compiler and the output validator recurse on their
  input), characters beyond Latin-1 in \<open>str.lower\<close>, the basic and week forms of ISO dates, the worker process, what
  an admitted operation of the broker does through subprocesses and files, the Telegram gateway, and
  the other services: alpha discovery and campaigns, founder conversations and proposals, graph,
  retrieval, memory, scientific fidelity and the research and execution registries. Some of these write
  the core tables themselves: \<open>services/alpha_campaign.py\<close> cancels, fails and completes tasks and waives the
  approval requirement of bounded engineering tasks, \<open>services/conversations.py\<close> cancels queued planning
  tasks, \<open>services/proposals.py\<close> records a materialised idea as a succeeded task. The invariants
  proved here over reachable states speak of the modelled requests only.
\<close>

section \<open>The control plane as a state machine\<close>

text \<open>
  One step is one committed request: an operation of the task, approval, graph, mission,
  runtime, control, charter and evaluator endpoints on the current rows. A request that
  raises changes nothing and is no step. \<open>key\<close> is the secret of the lease tokens and
  \<open>dump_time\<close> the text a date has in a grant request.
\<close>

inductive control_plane_step :: "(time \<Rightarrow> string) \<Rightarrow> string \<Rightarrow> db \<Rightarrow> db \<Rightarrow> bool"
  for dump_time key where
  create_task: "valid_task_create p \<Longrightarrow> create_task now p d = Inr (t, d') \<Longrightarrow>
    control_plane_step dump_time key d d'"
| approve: "a \<in> set (approvals d) \<Longrightarrow> approve_task now nonce a actor reason secs d = Inr d' \<Longrightarrow>
    control_plane_step dump_time key d d'"
| decide: "a \<in> set (approvals d) \<Longrightarrow> decide_task now a actor reason act d = Inr d' \<Longrightarrow>
    control_plane_step dump_time key d d'"
| expire: "control_plane_step dump_time key d (snd (expire_approvals now d))"
| rearm: "rearm_expired_task_approval now i actor reason d = Inr d' \<Longrightarrow>
    control_plane_step dump_time key d d'"
| resume: "resume_failed_task now i actor reason ctx d = Inr d' \<Longrightarrow>
    control_plane_step dump_time key d d'"
| reap: "reap_task_leases now d = Inr (k, n, m, d') \<Longrightarrow> control_plane_step dump_time key d d'"
| lease: "lease_task now ag secs tok d = Inr (r, d') \<Longrightarrow> control_plane_step dump_time key d d'"
| start: "start_task key now ag i token msg d = Inr d' \<Longrightarrow> control_plane_step dump_time key d d'"
| heartbeat: "heartbeat_task key now ag i token secs msg progress d = Inr d' \<Longrightarrow>
    control_plane_step dump_time key d d'"
| complete: "complete_task key now ag i token msg result d = Inr d' \<Longrightarrow>
    control_plane_step dump_time key d d'"
| fail: "fail_task key now ag i token msg failure retryable d = Inr d' \<Longrightarrow>
    control_plane_step dump_time key d d'"
| release: "release_task key now ag i token msg d = Inr d' \<Longrightarrow> control_plane_step dump_time key d d'"
| graph: "graph_step d d' \<Longrightarrow> control_plane_step dump_time key d d'"
| submit: "attempts_budgeted m \<Longrightarrow> submit_mission now secret m actor sig d = Inr (mission, d') \<Longrightarrow>
    control_plane_step dump_time key d d'"
| refresh: "control_plane_step dump_time key d (refresh_mission now i d)"
| approve_mission: "approve_supervision now mis actor reason d = Inr d' \<Longrightarrow>
    control_plane_step dump_time key d d'"
| abort_mission: "abort_supervision now mis actor reason d = Inr d' \<Longrightarrow>
    control_plane_step dump_time key d d'"
| reconcile_mission: "reconcile_mission now mis d = Inr (act', i', d') \<Longrightarrow>
    control_plane_step dump_time key d d'"
| control: "control_plane_step dump_time key d (run_control c d)"
| charter: "grant_step dump_time d d' \<Longrightarrow> control_plane_step dump_time key d d'"
| route: "route_step d d' \<Longrightarrow> control_plane_step dump_time key d d'"
| authority: "authority_step dump_time d d' \<Longrightarrow> control_plane_step dump_time key d d'"
| grant_approval: "control_plane_step dump_time key d
    (snd (grant_approval now nonce i actor reason secs x d))"
| refuse_approval: "control_plane_step dump_time key d
    (snd (reject_or_revoke_approval now i actor reason act x d))"
| founder_approval: "control_plane_step dump_time key d
    (snd (founder_decide_approval now nonce i approve reason secs x d))"
| center_approval: "control_plane_step dump_time key d
    (snd (approval_center_decision now nonce i cact p d))"
| identity: "identity_step iso_time dump_time key d d' \<Longrightarrow> control_plane_step dump_time key d d'"
| artifact: "register_artifact key now ag i token q d = Inr (x, d') \<Longrightarrow>
    control_plane_step dump_time key d d'"

section \<open>Every step keeps the invariant\<close>

lemma safe_graph_step: "graph_step d d' \<Longrightarrow> safe d \<Longrightarrow> safe d'"
  by (induction rule: graph_step.induct)
     (blast intro: safe_create_graph safe_activate_graph safe_append_message safe_cancel_graph
       safe_reconcile_graph)+

lemma safe_run_control: "safe d \<Longrightarrow> safe (run_control c d)"
  by (rule safe_tables[of d])
     (simp_all add: run_control_def mutate_control_def set_control_scope_def Let_def split: option.split)

lemma safe_grant_event: "safe d \<Longrightarrow> safe (grant_event x d)"
  by (rule safe_tables[of d]) (simp_all add: grant_event_def Let_def case_prod_unfold)

lemma safe_revoke_grant: "safe d \<Longrightarrow> safe (revoke_grant now g actor reason d)"
proof -
  have "safe d \<Longrightarrow> safe (upd_grant i f d)" for i f
    by (rule safe_tables[of d]) (simp_all add: upd_grant_def)
  then show "safe d \<Longrightarrow> ?thesis" by (simp add: revoke_grant_def safe_grant_event)
qed

lemma safe_upd_charter: "safe d \<Longrightarrow> safe (upd_charter i f d)"
  by (rule safe_tables[of d]) (simp_all add: upd_charter_def)

lemma safe_grant_step: "grant_step dump_time d d' \<Longrightarrow> safe d \<Longrightarrow> safe d'"
proof (induction rule: grant_step.induct)
  case (create_charter now pc d c d')
  then have "d' = d\<lparr>charters := charters d @ [c], next_uuid := Suc (next_uuid d)\<rparr>"
    by (auto simp: create_charter_def Let_def split: option.splits if_split_asm)
  then show ?case by (intro safe_tables[OF create_charter(2)]) simp_all
next
  case (activate now c actor d d')
  have fold: "safe e \<Longrightarrow> safe (fold (\<lambda>g. revoke_grant now g actor r) gs e)" for gs e r
    by (rule fold_invariant[where I = safe]) (auto intro: safe_revoke_grant)
  show ?case
    using activate
    by (auto simp: activate_charter_def intro!: safe_upd_charter fold split: if_split_asm option.split)
next
  case (create_grant now pg d g d')
  let ?d = "d\<lparr>grants := grants d @ [g], next_uuid := Suc (next_uuid d)\<rparr>"
  have "safe ?d" by (rule safe_tables[OF create_grant(2)]) simp_all
  moreover have "d' = grant_event
      (now, gr_id g, ''granted'', gc_granted_by pg, grant_create_json dump_time pg) ?d"
    using create_grant(1)
    by (auto simp: create_grant_def Let_def split: option.splits if_split_asm)
  ultimately show ?case using safe_grant_event by simp
qed (rule safe_revoke_grant)

text \<open>What the route operations leave alone.\<close>

definition route_frame :: "db \<Rightarrow> db \<Rightarrow> bool" where
  "route_frame d d' = (tasks d' = tasks d \<and> approvals d' = approvals d \<and> next_uuid d \<le> next_uuid d')"

lemma route_frame_assign:
  assumes "assign_route now r q ps d = Inr d'"
  shows "route_frame d d'"
proof (cases "route_profiles ps q")
  case (Inl reason)
  then show ?thesis using assms by (auto simp: assign_route_def Let_def route_frame_def)
next
  case (Inr selected)
  then obtain d1 where e: "efold (assign_evaluator now r) selected d = Inr d1"
    and d': "tasks d' = tasks d1" "approvals d' = approvals d1" "next_uuid d' = next_uuid d1"
    using assms by (auto simp: assign_route_def elim!: ebindE)
  have "route_frame d d1"
    by (rule efold_invariant[where I = "route_frame d", OF _ _ e])
       (auto simp: assign_evaluator_def route_frame_def Let_def split: if_split_asm)
  then show ?thesis by (simp add: route_frame_def d')
qed

lemma route_frame_step: "route_step d d' \<Longrightarrow> route_frame d d'"
proof (induction rule: route_step.induct)
  case (register now q d p d')
  then show ?case
    by (auto simp: register_profile_def Let_def route_frame_def split: option.splits if_split_asm)
next
  case (create now rq d i d')
  then show ?case
    unfolding create_route_def Let_def
    by (auto simp: route_frame_def dest!: route_frame_assign elim!: ebindE split: if_split_asm option.splits)
next
  case (retry r d now d')
  then show ?case
    by (auto simp: retry_blocked_route_def Let_def route_frame_def dest!: route_frame_assign
        split: if_split_asm option.splits)
next
  case (complete r d a now q d')
  then show ?case using complete_assignment_tables by (simp add: route_frame_def)
qed

lemma safe_route_step: "route_step d d' \<Longrightarrow> safe d \<Longrightarrow> safe d'"
  using route_frame_step safe_tables[of d d'] by (auto simp: route_frame_def)

lemma safe_artifact:
  assumes "safe d" and "register_artifact key now ag i token q d = Inr (x, d')"
  shows "safe d'"
  using assms(2)
  by (intro safe_tables[OF assms(1)])
     (auto simp: register_artifact_def Let_def ebind_Inr_iff split: if_split_asm)

lemma safe_approval_endpoints:
  assumes "safe d"
  shows "safe (snd (grant_approval now nonce i actor reason secs x d))"
    and "safe (snd (reject_or_revoke_approval now i actor reason act x d))"
    and "safe (snd (founder_decide_approval now nonce i approve reason secs x d))"
    and "safe (snd (approval_center_decision now nonce i cact p d))"
  using safe_grant_approval[OF assms] safe_reject_or_revoke[OF assms] safe_founder_decide[OF assms]
    safe_center_decision[OF assms]
  by (metis surjective_pairing)+

lemma safe_identity_step: "identity_step iso_time dump_time key d d' \<Longrightarrow> safe d \<Longrightarrow> safe d'"
  using identity_step_frame safe_tables[of d d'] by (auto simp: identity_frame_def)

lemma safe_step: "control_plane_step dump_time key d d' \<Longrightarrow> safe d \<Longrightarrow> safe d'"
proof (induction rule: control_plane_step.induct)
  case (create_task p now d t d')
  have "1 \<le> tc_max_attempts p" using create_task(1) by (simp add: valid_task_create_def)
  then show ?case using safe_create_task[OF create_task(3) _ create_task(2)] by simp
next
  case (reap now d k n m d')
  then show ?case by (auto simp: reap_task_leases_def intro: safe_reap_expired_leases)
next
  case (refresh d now i)
  then show ?case by simp
qed (blast intro: safe_approve_task safe_decide_task safe_expire_approvals
      safe_rearm_expired_task_approval safe_resume_failed_task safe_lease_task safe_start_task
      safe_heartbeat_task safe_complete_task safe_fail_task safe_release_task safe_graph_step
      safe_submit_mission safe_approve_supervision safe_abort_supervision safe_reconcile_mission
      safe_run_control safe_grant_step safe_route_step safe_authority_step safe_approval_endpoints
      safe_identity_step safe_artifact)+

lemma safe_initial: "tasks d = [] \<Longrightarrow> approvals d = [] \<Longrightarrow> safe d"
  by (simp add: safe_def keys_ok_def)

lemma safe_reachable:
  assumes "(control_plane_step dump_time key)\<^sup>*\<^sup>* d d'" and "safe d"
  shows "safe d'"
  using assms by (induction rule: rtranclp_induct) (blast intro: safe_step)+

text \<open>
  (C1) The approval gate holds in every state the control plane can reach from an empty
  database, whatever sequence of modelled requests produced it: a task that needs approval and is
  leased or running has an approval row, the approval its lookup returns is of the task's very
  plan and has been consumed; a leased or running task has a holder, an expiry and a token digest;
  no task has used more than its allowed attempts; and task identities are unique.
\<close>

theorem approval_gate_invariant:
  assumes "(control_plane_step dump_time key)\<^sup>*\<^sup>* d d'" and "tasks d = []" and "approvals d = []"
    and "t \<in> set (tasks d')"
  shows "0 \<le> t_attempt_count t \<and> t_attempt_count t \<le> t_max_attempts t
    \<and> get_task (t_id t) d' = Some t
    \<and> (t_status t \<in> {Leased, Running} \<longrightarrow>
        t_assigned_agent_id t \<noteq> None \<and> t_lease_expires_at t \<noteq> None \<and> t_lease_token_digest t \<noteq> None
        \<and> (t_approval_required t \<longrightarrow>
            (\<exists>a. approval_of_task (t_id t) d' = Some a \<and> ap_status a = ApprovalConsumed
               \<and> ap_plan_digest a = t_plan_digest t)))"
proof -
  have s: "safe d'" using safe_reachable[OF assms(1)] safe_initial assms(2,3) by blast
  then have "get_task (t_id t) d' = Some t" using keys_ok_get_task assms(4) by (simp add: safe_def)
  then show ?thesis
    using safe_task[OF s assms(4)]
    by (auto simp: attempts_ok_def lease_held_def gated_def active_def active_lease_status_def
        split: option.splits)
qed

text \<open>A run from an installation without tasks: a task is created, approved and leased.\<close>

theorem approval_gate_invariant_witness:
  "\<exists>d' t. (control_plane_step isoformat ''key'')\<^sup>*\<^sup>* w_world d' \<and> t \<in> set (tasks d')
    \<and> t_status t = Leased \<and> t_approval_required t
    \<and> (\<exists>a. approval_of_task (t_id t) d' = Some a \<and> ap_status a = ApprovalConsumed
         \<and> ap_plan_digest a = t_plan_digest t)"
proof -
  obtain a d2 where a: "a \<in> set (approvals w_pending)"
      "approve_task 0 ''n'' a ''founder'' ''ok'' 600 w_pending = Inr d2"
    and d2: "tasks d2 = [w_new\<lparr>t_status := Queued\<rparr>]"
      "approvals d2 = [grant_approval_row 0 ''n'' ''founder'' ''ok'' 600 a]"
      "ap_id a = 11" "ap_task_id a = 10" "ap_plan_digest a = t_plan_digest w_new"
      "control_scopes d2 = []" "dependencies d2 = []" "agents d2 = agents w_world"
      "charters d2 = charters w_world" "packages d2 = packages w_world"
      "deployments d2 = deployments w_world" "grants d2 = grants w_world"
    using w_approved by blast
  define t where "t = leased_row 1 w_agent 300 w_token (w_new\<lparr>t_status := Queued\<rparr>)"
  obtain prior d' where l: "lease_task 1 w_agent 300 w_token d2 = Inr (TaskLeased t (gt_token w_token) prior, d')"
    using w_leases[OF d2] unfolding t_def by blast
  have w: "tasks w_world = []" "approvals w_world = []" by (simp_all add: w_defs)
  have s1: "control_plane_step isoformat ''key'' w_world w_pending"
    by (rule control_plane_step.create_task[OF w_valid_create w_pending_tables(1)])
  have s2: "control_plane_step isoformat ''key'' w_pending d2" by (rule control_plane_step.approve[OF a])
  have s3: "control_plane_step isoformat ''key'' d2 d'" by (rule control_plane_step.lease[OF l])
  have run: "(control_plane_step isoformat ''key'')\<^sup>*\<^sup>* w_world d'"
    using s1 s2 s3 by (meson converse_rtranclp_into_rtranclp r_into_rtranclp)
  have "safe d2" using safe_step[OF s2 safe_step[OF s1 safe_initial[OF w]]] .
  then obtain u and d1 :: db where u: "u \<in> set (tasks d1)" "t = leased_row 1 w_agent 300 w_token u"
      "tasks d' = upd_row t_id (t_id u) (leased_row 1 w_agent 300 w_token) (tasks d1)"
    by (rule lease_task_leased[OF _ l]) blast
  have t: "t \<in> set (tasks d')" using u by (auto simp: upd_row_def)
  have st: "t_status t = Leased" "t_approval_required t"
    by (simp_all add: t_def leased_row_def w_new_def build_task_def w_create_def Let_def)
  show ?thesis using approval_gate_invariant[OF run w t] run t st by auto
qed

end
